(* ===== verification/Prelude.thy ===== *)
theory Prelude
  imports Main "HOL-Library.Word" "HOL-Library.Multiset"
begin

text \<open>
  Shared vocabulary of the development: the types that stand for Go values (bytes, byte slices,
  errors), the state-and-error monad in which the stateful operations are written, the
  \<open>keeps\<close> predicate by which every invariant of the development is propagated through a monadic
  body, and the generic facts on lists and sorting that the table models use.
\<close>

section \<open>Go values\<close>

type_synonym byte = "8 word"
type_synonym bytes = "byte list"

text \<open>
  An error value of the program. \<open>Err\<close> is an \<open>error\<close> returned by a function, carrying its message
  without the formatted arguments; \<open>Panic\<close> is a run-time panic, which no function of the repository
  recovers from, so it propagates through every caller.
\<close>

datatype goerr = Err string | Panic string

text \<open>\<open>wrap p e\<close> is \<open>fmt.Errorf(p + ": %w", e)\<close>; a panic is not a value and is not wrapped.\<close>

fun wrap :: "string \<Rightarrow> goerr \<Rightarrow> goerr" where
  "wrap p (Err m) = Err (p @ '': '' @ m)"
| "wrap p (Panic m) = Panic m"

definition is_panic :: "goerr \<Rightarrow> bool" where
  "is_panic e = (case e of Panic _ \<Rightarrow> True | Err _ \<Rightarrow> False)"

lemma is_panic_simps [simp]:
  "is_panic (Panic m)" "\<not> is_panic (Err m)" "is_panic (wrap p e) = is_panic e"
  by (simp_all add: is_panic_def) (cases e; simp)

section \<open>The state-and-error monad\<close>

text \<open>
  A stateful operation maps a state to a result and the state it leaves, also when the result is
  an error: the program has no exceptions to undo its effects. Transactions, which do undo them,
  are a combinator of the storage theory.
\<close>

type_synonym ('s, 'a) go = "'s \<Rightarrow> (goerr + 'a) \<times> 's"

definition retE :: "'a \<Rightarrow> ('s, 'a) go" where
  "retE x = (\<lambda>s. (Inr x, s))"

definition throwE :: "goerr \<Rightarrow> ('s, 'a) go" where
  "throwE e = (\<lambda>s. (Inl e, s))"

definition bindE :: "('s, 'a) go \<Rightarrow> ('a \<Rightarrow> ('s, 'b) go) \<Rightarrow> ('s, 'b) go" where
  "bindE m k = (\<lambda>s. case m s of (Inl e, s') \<Rightarrow> (Inl e, s') | (Inr x, s') \<Rightarrow> k x s')"

definition seqE :: "('s, 'a) go \<Rightarrow> ('s, 'b) go \<Rightarrow> ('s, 'b) go" where
  "seqE m k = bindE m (\<lambda>_. k)"

definition getE :: "('s \<Rightarrow> 'a) \<Rightarrow> ('s, 'a) go" where
  "getE f = (\<lambda>s. (Inr (f s), s))"

definition modifyE :: "('s \<Rightarrow> 's) \<Rightarrow> ('s, unit) go" where
  "modifyE f = (\<lambda>s. (Inr (), f s))"

text \<open>\<open>wrapE p m\<close>: \<open>if err := m; err != nil { return fmt.Errorf("p: %w", err) }\<close>.\<close>

definition wrapE :: "string \<Rightarrow> ('s, 'a) go \<Rightarrow> ('s, 'a) go" where
  "wrapE p m = (\<lambda>s. case m s of (Inl e, s') \<Rightarrow> (Inl (wrap p e), s') | (Inr x, s') \<Rightarrow> (Inr x, s'))"

text \<open>\<open>logE m\<close>: \<open>if err := m; err != nil { slog.Warn(...) }\<close>: an error is logged and dropped.\<close>

definition logE :: "('s, 'a) go \<Rightarrow> ('s, unit) go" where
  "logE m = (\<lambda>s. case m s of
      (Inl (Err e), s') \<Rightarrow> (Inr (), s')
    | (Inl (Panic p), s') \<Rightarrow> (Inl (Panic p), s')
    | (Inr x, s') \<Rightarrow> (Inr (), s'))"

text \<open>
  \<open>catchE m h\<close>: \<open>if err := m; err != nil { h(err) }\<close>, which a panic passes by; \<open>deferE m d\<close>:
  \<open>defer d()\<close>, whose own result is discarded, around the body \<open>m\<close>.
\<close>

definition catchE :: "('s, 'a) go \<Rightarrow> (goerr \<Rightarrow> ('s, 'a) go) \<Rightarrow> ('s, 'a) go" where
  "catchE m h = (\<lambda>s. case m s of
      (Inl (Err e), s') \<Rightarrow> h (Err e) s'
    | (Inl (Panic p), s') \<Rightarrow> (Inl (Panic p), s')
    | (Inr x, s') \<Rightarrow> (Inr x, s'))"

definition deferE :: "('s, 'a) go \<Rightarrow> ('s, 'b) go \<Rightarrow> ('s, 'a) go" where
  "deferE m d = (\<lambda>s. case m s of (r, s') \<Rightarrow> (r, snd (d s')))"

text \<open>\<open>okE m\<close>: the result of a call, or nothing if it failed: the code looks at \<open>err\<close> and goes on.\<close>

definition okE :: "('s, 'a) go \<Rightarrow> ('s, 'a option) go" where
  "okE m = catchE (bindE m (\<lambda>x. retE (Some x))) (\<lambda>_. retE None)"

text \<open>A pure, possibly failing computation run in the monad.\<close>

definition liftE :: "goerr + 'a \<Rightarrow> ('s, 'a) go" where
  "liftE r = (\<lambda>s. (r, s))"

text \<open>\<open>whenE b m\<close>: \<open>if b { m }\<close>; \<open>forE f xs\<close>: \<open>for _, x := range xs { f(x) }\<close> with early return.\<close>

definition whenE :: "bool \<Rightarrow> ('s, unit) go \<Rightarrow> ('s, unit) go" where
  "whenE b m = (if b then m else retE ())"

fun forE :: "('a \<Rightarrow> ('s, unit) go) \<Rightarrow> 'a list \<Rightarrow> ('s, unit) go" where
  "forE f [] = retE ()"
| "forE f (x # xs) = seqE (f x) (forE f xs)"

text \<open>\<open>onE get put m\<close> runs an operation of a component inside a larger state.\<close>

definition onE :: "('t \<Rightarrow> 's) \<Rightarrow> ('s \<Rightarrow> 't \<Rightarrow> 't) \<Rightarrow> ('s, 'a) go \<Rightarrow> ('t, 'a) go" where
  "onE get put m = (\<lambda>t. case m (get t) of (r, s') \<Rightarrow> (r, put s' t))"

named_theorems go_defs \<open>the definitions of the monad's operations\<close>

lemmas [go_defs] = retE_def throwE_def bindE_def seqE_def getE_def modifyE_def wrapE_def
  logE_def catchE_def deferE_def liftE_def whenE_def onE_def

subsection \<open>Running the monad\<close>

lemma run_retE [simp]: "retE x s = (Inr x, s)"
  by (simp add: retE_def)

lemma run_throwE [simp]: "throwE e s = (Inl e, s)"
  by (simp add: throwE_def)

lemma run_getE [simp]: "getE f s = (Inr (f s), s)"
  by (simp add: getE_def)

lemma run_modifyE [simp]: "modifyE f s = (Inr (), f s)"
  by (simp add: modifyE_def)

lemma run_liftE [simp]: "liftE r s = (r, s)"
  by (simp add: liftE_def)

lemma run_whenE [simp]: "whenE b m s = (if b then m s else (Inr (), s))"
  by (simp add: whenE_def)

lemma run_bindE: "bindE m k s = (case m s of (Inl e, s') \<Rightarrow> (Inl e, s') | (Inr x, s') \<Rightarrow> k x s')"
  by (simp add: bindE_def)

lemma run_seqE: "seqE m k s = (case m s of (Inl e, s') \<Rightarrow> (Inl e, s') | (Inr x, s') \<Rightarrow> k s')"
  by (simp add: seqE_def bindE_def)

lemma run_wrapE:
  "wrapE p m s = (case m s of (Inl e, s') \<Rightarrow> (Inl (wrap p e), s') | (Inr x, s') \<Rightarrow> (Inr x, s'))"
  by (simp add: wrapE_def)

lemmas run_simps = run_bindE run_seqE run_wrapE

lemma seqE_Inr [simp]: "m s = (Inr x, s') \<Longrightarrow> seqE m k s = k s'"
  by (simp add: run_seqE)

lemma seqE_Inl [simp]: "m s = (Inl e, s') \<Longrightarrow> seqE m k s = (Inl e, s')"
  by (simp add: run_seqE)

lemma bindE_Inr [simp]: "m s = (Inr x, s') \<Longrightarrow> bindE m k s = k x s'"
  by (simp add: run_bindE)

lemma bindE_Inl [simp]: "m s = (Inl e, s') \<Longrightarrow> bindE m k s = (Inl e, s')"
  by (simp add: run_bindE)

lemma wrapE_Inr [simp]: "m s = (Inr x, s') \<Longrightarrow> wrapE p m s = (Inr x, s')"
  by (simp add: run_wrapE)

lemma wrapE_Inl [simp]: "m s = (Inl e, s') \<Longrightarrow> wrapE p m s = (Inl (wrap p e), s')"
  by (simp add: run_wrapE)

lemma logE_Inr [simp]: "m s = (Inr x, s') \<Longrightarrow> logE m s = (Inr (), s')"
  by (simp add: logE_def)

lemma logE_Err [simp]: "m s = (Inl (Err e), s') \<Longrightarrow> logE m s = (Inr (), s')"
  by (simp add: logE_def)

lemma logE_Panic [simp]: "m s = (Inl (Panic p), s') \<Longrightarrow> logE m s = (Inl (Panic p), s')"
  by (simp add: logE_def)

lemma onE_run [simp]: "m (get t) = (r, s') \<Longrightarrow> onE get put m t = (r, put s' t)"
  by (simp add: onE_def)

section \<open>Invariants of monadic bodies\<close>

text \<open>
  \<open>keeps I m\<close>: whatever \<open>m\<close> returns, a state with \<open>I\<close> is left with \<open>I\<close>. The rules below follow
  the monad's operations, so the invariant of a handler is proved from one fact per storage
  operation it calls.
\<close>

definition keeps :: "('s \<Rightarrow> bool) \<Rightarrow> ('s, 'a) go \<Rightarrow> bool" where
  "keeps I m \<longleftrightarrow> (\<forall>s. I s \<longrightarrow> I (snd (m s)))"

named_theorems keeps_intro \<open>invariant preservation, one rule per operation\<close>

lemma keepsD: "keeps I m \<Longrightarrow> I s \<Longrightarrow> m s = (r, s') \<Longrightarrow> I s'"
  by (force simp: keeps_def)

lemma keepsI: "(\<And>s r s'. I s \<Longrightarrow> m s = (r, s') \<Longrightarrow> I s') \<Longrightarrow> keeps I m"
  by (simp add: keeps_def) (metis prod.collapse)

lemma keeps_retE [keeps_intro]: "keeps I (retE x)"
  by (simp add: keeps_def)

lemma keeps_throwE [keeps_intro]: "keeps I (throwE e)"
  by (simp add: keeps_def)

lemma keeps_getE [keeps_intro]: "keeps I (getE f)"
  by (simp add: keeps_def)

lemma keeps_liftE [keeps_intro]: "keeps I (liftE r)"
  by (simp add: keeps_def)

lemma keeps_modifyE: "(\<And>s. I s \<Longrightarrow> I (f s)) \<Longrightarrow> keeps I (modifyE f)"
  by (simp add: keeps_def)

lemma keeps_bindE [keeps_intro]:
  "keeps I m \<Longrightarrow> (\<And>x. keeps I (k x)) \<Longrightarrow> keeps I (bindE m k)"
  unfolding keeps_def run_bindE by (auto split: prod.splits sum.splits)

lemma keeps_seqE [keeps_intro]: "keeps I m \<Longrightarrow> keeps I k \<Longrightarrow> keeps I (seqE m k)"
  by (simp add: seqE_def keeps_bindE)

lemma keeps_wrapE [keeps_intro]: "keeps I m \<Longrightarrow> keeps I (wrapE p m)"
  unfolding keeps_def run_wrapE by (auto split: prod.splits sum.splits)

lemma keeps_logE [keeps_intro]: "keeps I m \<Longrightarrow> keeps I (logE m)"
  unfolding keeps_def logE_def by (auto split: prod.splits sum.splits goerr.splits)

lemma keeps_catchE [keeps_intro]:
  "keeps I m \<Longrightarrow> (\<And>e. keeps I (h e)) \<Longrightarrow> keeps I (catchE m h)"
  unfolding keeps_def catchE_def by (auto split: prod.splits sum.splits goerr.splits)

lemma keeps_okE [keeps_intro]: "keeps I m \<Longrightarrow> keeps I (okE m)"
  unfolding okE_def by (intro keeps_intro)

lemma keeps_deferE [keeps_intro]: "keeps I m \<Longrightarrow> keeps I d \<Longrightarrow> keeps I (deferE m d)"
  unfolding keeps_def deferE_def by (auto split: prod.splits)

lemma keeps_whenE [keeps_intro]: "keeps I m \<Longrightarrow> keeps I (whenE b m)"
  by (simp add: whenE_def keeps_retE)

lemma keeps_if [keeps_intro]: "keeps I m \<Longrightarrow> keeps I k \<Longrightarrow> keeps I (if b then m else k)"
  by simp

lemma keeps_case_prod [keeps_intro]:
  "(\<And>a b. keeps I (f a b)) \<Longrightarrow> keeps I (case p of (a, b) \<Rightarrow> f a b)"
  by (simp split: prod.splits)

lemma keeps_case_option [keeps_intro]:
  "keeps I m \<Longrightarrow> (\<And>x. keeps I (k x)) \<Longrightarrow> keeps I (case r of None \<Rightarrow> m | Some x \<Rightarrow> k x)"
  by (simp split: option.splits)

lemma keeps_forE [keeps_intro]: "(\<And>x. keeps I (f x)) \<Longrightarrow> keeps I (forE f xs)"
  by (induction xs) (auto intro: keeps_intro)

lemma keeps_onE:
  assumes "keeps J m" "\<And>t. I t \<Longrightarrow> J (get t)" "\<And>t s. I t \<Longrightarrow> J s \<Longrightarrow> I (put s t)"
  shows "keeps I (onE get put m)"
  using assms unfolding keeps_def onE_def by (auto split: prod.splits) (metis snd_conv)

lemma keeps_conj: "keeps I m \<Longrightarrow> keeps J m \<Longrightarrow> keeps (\<lambda>s. I s \<and> J s) m"
  by (simp add: keeps_def)

section \<open>Triples\<close>

text \<open>
  \<open>triple P m Q E\<close>: from a state with \<open>P\<close>, either \<open>m\<close> returns \<open>x\<close> and leaves \<open>Q x\<close>, or it fails and
  leaves \<open>E\<close>. The error condition is what is known of the state after any failing call.
\<close>

definition triple ::
  "('s \<Rightarrow> bool) \<Rightarrow> ('s, 'a) go \<Rightarrow> ('a \<Rightarrow> 's \<Rightarrow> bool) \<Rightarrow> ('s \<Rightarrow> bool) \<Rightarrow> bool" where
  "triple P m Q E \<longleftrightarrow>
     (\<forall>s x s'. P s \<longrightarrow> m s = (Inr x, s') \<longrightarrow> Q x s') \<and>
     (\<forall>s e s'. P s \<longrightarrow> m s = (Inl e, s') \<longrightarrow> E s')"

lemma tripleI:
  assumes "\<And>s x s'. P s \<Longrightarrow> m s = (Inr x, s') \<Longrightarrow> Q x s'"
    and "\<And>s e s'. P s \<Longrightarrow> m s = (Inl e, s') \<Longrightarrow> E s'"
  shows "triple P m Q E"
  using assms by (simp add: triple_def)

lemma tripleD_Inr: "triple P m Q E \<Longrightarrow> P s \<Longrightarrow> m s = (Inr x, s') \<Longrightarrow> Q x s'"
  by (simp add: triple_def)

lemma tripleD_Inl: "triple P m Q E \<Longrightarrow> P s \<Longrightarrow> m s = (Inl e, s') \<Longrightarrow> E s'"
  by (simp add: triple_def)

lemma triple_retE: "(\<And>s. P s \<Longrightarrow> Q x s) \<Longrightarrow> triple P (retE x) Q E"
  by (simp add: triple_def)

lemma triple_throwE: "(\<And>s. P s \<Longrightarrow> E s) \<Longrightarrow> triple P (throwE e) Q E"
  by (simp add: triple_def)

lemma bindE_InrD:
  "bindE m k s = (Inr y, s'') \<Longrightarrow> \<exists>x s'. m s = (Inr x, s') \<and> k x s' = (Inr y, s'')"
  by (auto simp: run_bindE split: prod.splits sum.splits)

lemma bindE_InlD:
  "bindE m k s = (Inl e, s'') \<Longrightarrow>
     m s = (Inl e, s'') \<or> (\<exists>x s'. m s = (Inr x, s') \<and> k x s' = (Inl e, s''))"
  by (auto simp: run_bindE split: prod.splits sum.splits)

lemma triple_bindE:
  assumes "triple P m R E" "\<And>x. triple (R x) (k x) Q E"
  shows "triple P (bindE m k) Q E"
proof (rule tripleI)
  fix s y s''
  assume "P s" "bindE m k s = (Inr y, s'')"
  then obtain x s' where "m s = (Inr x, s')" "k x s' = (Inr y, s'')"
    by (blast dest: bindE_InrD)
  then show "Q y s''" by (meson \<open>P s\<close> assms tripleD_Inr)
next
  fix s e s''
  assume P: "P s" and "bindE m k s = (Inl e, s'')"
  from bindE_InlD [OF this(2)] show "E s''"
  proof
    assume "m s = (Inl e, s'')"
    with P assms(1) show ?thesis by (meson tripleD_Inl)
  next
    assume "\<exists>x s'. m s = (Inr x, s') \<and> k x s' = (Inl e, s'')"
    with P assms show ?thesis by (meson tripleD_Inl tripleD_Inr)
  qed
qed

lemma triple_seqE:
  assumes "triple P m (\<lambda>_. R) E" "triple R k Q E"
  shows "triple P (seqE m k) Q E"
  unfolding seqE_def by (rule triple_bindE [OF assms(1)]) (rule assms(2))

lemma triple_wrapE: "triple P m Q E \<Longrightarrow> triple P (wrapE p m) Q E"
  unfolding triple_def run_wrapE by (auto split: prod.splits sum.splits)

lemma triple_catchE:
  assumes "triple P m Q R" "\<And>e. triple R (h e) Q E" "\<And>s. R s \<Longrightarrow> E s"
  shows "triple P (catchE m h) Q E"
  using assms unfolding triple_def catchE_def by (auto split: prod.splits sum.splits goerr.splits)

lemma triple_okE:
  assumes "triple P m Q E" "\<And>x s. Q x s \<Longrightarrow> R (Some x) s" "\<And>s. E s \<Longrightarrow> R None s" "\<And>s. E s \<Longrightarrow> E' s"
  shows "triple P (okE m) R E'"
  using assms unfolding triple_def okE_def catchE_def
  by (auto simp: run_bindE split: prod.splits sum.splits goerr.splits)

lemma triple_deferE:
  assumes "triple P m Q E" "\<And>x. keeps (Q x) d" "keeps E d"
  shows "triple P (deferE m d) Q E"
  using assms unfolding triple_def keeps_def deferE_def by (auto split: prod.splits)

lemma triple_liftE:
  "(\<And>s x. P s \<Longrightarrow> r = Inr x \<Longrightarrow> Q x s) \<Longrightarrow> (\<And>s. P s \<Longrightarrow> E s) \<Longrightarrow> triple P (liftE r) Q E"
  by (simp add: triple_def)

lemma triple_getE: "(\<And>s. P s \<Longrightarrow> Q (f s) s) \<Longrightarrow> triple P (getE f) Q E"
  by (simp add: triple_def)

lemma triple_modifyE: "(\<And>s. P s \<Longrightarrow> Q () (f s)) \<Longrightarrow> triple P (modifyE f) Q E"
  by (simp add: triple_def)

lemma triple_conseq:
  assumes "triple P m Q E" "\<And>s. P' s \<Longrightarrow> P s" "\<And>x s. Q x s \<Longrightarrow> Q' x s" "\<And>s. E s \<Longrightarrow> E' s"
  shows "triple P' m Q' E'"
  using assms by (simp add: triple_def) blast

lemma triple_keeps: "keeps I m \<Longrightarrow> triple I m (\<lambda>_. I) I"
  by (rule tripleI) (erule keepsD; assumption)+

lemma keeps_triple:
  assumes "triple I m (\<lambda>_. I) I"
  shows "keeps I m"
proof (rule keepsI)
  fix s r s'
  assume "I s" "m s = (r, s')"
  with assms show "I s'" by (cases r) (auto dest: tripleD_Inr tripleD_Inl)
qed

end
