(* ===== verification/GoLib.thy ===== *)
theory GoLib
  imports Prelude
begin

text \<open>
  The functions of Go's standard library that the repository's code calls on its hot paths,
  modelled from their documented behaviour: \<open>encoding/hex\<close>, \<open>unicode/utf8\<close>, \<open>strings.HasPrefix\<close>,
  and the conversions between integer types. A Go string is a sequence of bytes; it is a HOL
  \<open>string\<close>, whose characters are bytes.
\<close>

section \<open>Package encoding/hex\<close>

definition hexDigits :: string where
  "hexDigits = ''0123456789abcdef''"

definition hexDigit :: "nat \<Rightarrow> char" where
  "hexDigit n = hexDigits ! n"

definition hexVal :: "char \<Rightarrow> nat option" where
  "hexVal c = (let n = (of_char c :: nat) in
     if 48 \<le> n \<and> n \<le> 57 then Some (n - 48)
     else if 97 \<le> n \<and> n \<le> 102 then Some (n - 87)
     else if 65 \<le> n \<and> n \<le> 70 then Some (n - 55)
     else None)"

definition encodeByte :: "byte \<Rightarrow> string" where
  "encodeByte b = [hexDigit (unat b div 16), hexDigit (unat b mod 16)]"

text \<open>\<open>hex.EncodeToString\<close>.\<close>

definition EncodeToString :: "bytes \<Rightarrow> string" where
  "EncodeToString bs = concat (map encodeByte bs)"

text \<open>\<open>hex.DecodeString\<close>: pairs of digits of either case, an error on any other byte or a dangling digit.\<close>

fun DecodeString :: "string \<Rightarrow> goerr + bytes" where
  "DecodeString [] = Inr []"
| "DecodeString [c] = (case hexVal c of
      None \<Rightarrow> Inl (Err ''encoding/hex: invalid byte'')
    | Some _ \<Rightarrow> Inl (Err ''encoding/hex: odd length hex string''))"
| "DecodeString (c # d # cs) = (case (hexVal c, hexVal d) of
      (Some h, Some l) \<Rightarrow>
        (case DecodeString cs of Inl e \<Rightarrow> Inl e | Inr bs \<Rightarrow> Inr (of_nat (16 * h + l) # bs))
    | _ \<Rightarrow> Inl (Err ''encoding/hex: invalid byte''))"

lemma hexVal_hexDigit_all: "\<forall>n<16. hexVal (hexDigit n) = Some n \<and> hexDigit n \<in> set hexDigits"
  by code_simp

lemma hexVal_hexDigit [simp]: "n < 16 \<Longrightarrow> hexVal (hexDigit n) = Some n"
  using hexVal_hexDigit_all by blast

lemma hexDigit_in: "n < 16 \<Longrightarrow> hexDigit n \<in> set hexDigits"
  using hexVal_hexDigit_all by blast

lemma unat_byte_lt: "unat (b::byte) < 256"
  using unsigned_less [of b, where ?'a = nat] by simp

lemma nibbles_of_byte: "of_nat (16 * (unat b div 16) + unat b mod 16) = (b::byte)"
  by simp

lemma DecodeString_encodeByte:
  "DecodeString (encodeByte b @ cs) =
     (case DecodeString cs of Inl e \<Rightarrow> Inl e | Inr bs \<Rightarrow> Inr (b # bs))"
proof -
  have "unat b div 16 < 16" "unat b mod 16 < 16"
    using unat_byte_lt [of b] by auto
  then show ?thesis
    by (simp only: encodeByte_def append_Cons append_Nil DecodeString.simps hexVal_hexDigit
        prod.case option.case nibbles_of_byte)
qed

lemma EncodeToString_Nil [simp]: "EncodeToString [] = []"
  by (simp add: EncodeToString_def)

lemma EncodeToString_Cons [simp]: "EncodeToString (b # bs) = encodeByte b @ EncodeToString bs"
  by (simp add: EncodeToString_def)

lemma Decode_Encode [simp]: "DecodeString (EncodeToString bs) = Inr bs"
  by (induction bs) (simp_all add: DecodeString_encodeByte)

lemma EncodeToString_inject [simp]: "EncodeToString a = EncodeToString b \<longleftrightarrow> a = b"
  by (metis Decode_Encode sum.inject(2))

lemma length_EncodeToString [simp]: "length (EncodeToString bs) = 2 * length bs"
  by (induction bs) (simp_all add: encodeByte_def)

lemma EncodeToString_eq_Nil [simp]: "EncodeToString bs = [] \<longleftrightarrow> bs = []"
  by (cases bs) (simp_all add: encodeByte_def)

lemma set_EncodeToString: "set (EncodeToString bs) \<subseteq> set hexDigits"
proof (induction bs)
  case (Cons b bs)
  have "unat b div 16 < 16" "unat b mod 16 < 16"
    using unat_byte_lt [of b] by auto
  with Cons show ?case by (auto simp: encodeByte_def hexDigit_in)
qed simp

section \<open>Package unicode/utf8\<close>

text \<open>
  \<open>runeSize\<close> is the number of bytes of the first rune of a byte sequence: the length of a
  well-formed encoding, and 1 for a byte that starts none (the decoder then yields U+FFFD and
  advances by one byte). The ranges are those of the library's \<open>acceptRanges\<close> table.
\<close>

definition inRange :: "nat \<Rightarrow> nat \<Rightarrow> nat \<Rightarrow> bool" where
  "inRange lo hi b \<longleftrightarrow> lo \<le> b \<and> b \<le> hi"

definition secondLo :: "nat \<Rightarrow> nat" where
  "secondLo b = (if b = 224 then 160 else if b = 240 then 144 else 128)"

definition secondHi :: "nat \<Rightarrow> nat" where
  "secondHi b = (if b = 237 then 159 else if b = 244 then 143 else 191)"

definition runeSize :: "nat list \<Rightarrow> nat" where
  "runeSize bs = (case bs of
     [] \<Rightarrow> 0
   | b # r \<Rightarrow>
      if inRange 194 223 b then
        (case r of c # _ \<Rightarrow> if inRange 128 191 c then 2 else 1 | _ \<Rightarrow> 1)
      else if inRange 224 239 b then
        (case r of c # d # _ \<Rightarrow>
           if inRange (secondLo b) (secondHi b) c \<and> inRange 128 191 d then 3 else 1 | _ \<Rightarrow> 1)
      else if inRange 240 244 b then
        (case r of c # d # e # _ \<Rightarrow>
           if inRange (secondLo b) (secondHi b) c \<and> inRange 128 191 d \<and> inRange 128 191 e
           then 4 else 1 | _ \<Rightarrow> 1)
      else 1)"

lemma runeSize_Nil [simp]: "runeSize [] = 0"
  by (simp add: runeSize_def)

lemma runeSize_pos [simp]: "bs \<noteq> [] \<Longrightarrow> 0 < runeSize bs"
  by (auto simp: runeSize_def split: list.splits)

lemma runeSize_le4: "runeSize bs \<le> 4"
  by (auto simp: runeSize_def split: list.splits)

lemma runeSize_ascii: "b < 128 \<Longrightarrow> runeSize (b # r) = 1"
  by (simp add: runeSize_def inRange_def)

function runeCount :: "nat list \<Rightarrow> nat" where
  "runeCount bs = (if bs = [] then 0 else Suc (runeCount (drop (runeSize bs) bs)))"
  by pat_completeness auto
termination
  by (relation "measure length") auto

declare runeCount.simps [simp del]

lemma runeCount_Nil [simp]: "runeCount [] = 0"
  by (simp add: runeCount.simps)

lemma runeCount_eq_0 [simp]: "runeCount bs = 0 \<longleftrightarrow> bs = []"
  by (subst runeCount.simps) simp

text \<open>A character takes one to four bytes.\<close>

lemma runeCount_bounds: "runeCount bs \<le> length bs \<and> length bs \<le> 4 * runeCount bs"
proof (induction bs rule: runeCount.induct)
  case (1 bs)
  show ?case
  proof (cases "bs = []")
    case False
    let ?n = "runeSize bs"
    from False "1.IH" have IH: "runeCount (drop ?n bs) \<le> length bs - ?n"
        "length bs - ?n \<le> 4 * runeCount (drop ?n bs)"
      by auto
    have "0 < ?n" "?n \<le> 4" using False runeSize_le4 by auto
    moreover have "0 < length bs" using False by simp
    moreover have "runeCount bs = Suc (runeCount (drop ?n bs))"
      using False by (simp add: runeCount.simps [of bs])
    ultimately show ?thesis using IH by linarith
  qed simp
qed

lemma runeCount_ascii: "\<forall>b\<in>set bs. b < 128 \<Longrightarrow> runeCount bs = length bs"
proof (induction bs)
  case (Cons b bs)
  then have "runeSize (b # bs) = 1" by (simp add: runeSize_ascii)
  with Cons show ?case by (simp add: runeCount.simps [of "b # bs"])
qed simp

text \<open>\<open>utf8.RuneCountInString\<close>.\<close>

definition RuneCountInString :: "string \<Rightarrow> nat" where
  "RuneCountInString s = runeCount (map of_char s)"

lemma RuneCountInString_Nil [simp]: "RuneCountInString [] = 0"
  by (simp add: RuneCountInString_def)

lemma RuneCountInString_le: "RuneCountInString s \<le> length s"
  using runeCount_bounds [of "map of_char s"] by (simp add: RuneCountInString_def)

lemma length_le_RuneCountInString: "length s \<le> 4 * RuneCountInString s"
  using runeCount_bounds [of "map of_char s"] by (simp add: RuneCountInString_def)

section \<open>Package strings and integer conversions\<close>

definition HasPrefix :: "string \<Rightarrow> string \<Rightarrow> bool" where
  "HasPrefix s p \<longleftrightarrow> take (length p) s = p"

lemma HasPrefix_append [simp]: "HasPrefix (p @ s) p"
  by (simp add: HasPrefix_def)

text \<open>\<open>int64(x)\<close> of a \<open>uint64\<close> reinterprets the bits.\<close>

definition toInt64 :: "64 word \<Rightarrow> int" where
  "toInt64 x = sint x"

lemma toInt64_small:
  assumes "unat x < 2 ^ 63"
  shows "toInt64 x = int (unat x)"
proof -
  have "int (unat x) < int (2 ^ 63)" using assms by (simp only: of_nat_less_iff)
  then have "uint x < 2 ^ 63" by simp
  then have "signed_take_bit 63 (uint x) = uint x"
    using uint_ge_0 [of x] by (intro signed_take_bit_int_eq_self) linarith+
  then show ?thesis by (simp add: toInt64_def sint_uint)
qed

lemma toInt64_big:
  assumes "2 ^ 63 \<le> unat x"
  shows "toInt64 x < 0"
proof -
  have "int (2 ^ 63) \<le> int (unat x)" using assms by (simp only: of_nat_le_iff)
  then have lo: "2 ^ 63 \<le> uint x" by simp
  have hi: "uint x < 2 ^ 64" using uint_lt2p [of x] by simp
  have "(uint x + 2 ^ 63) mod 2 ^ 64 = (uint x - 2 ^ 63) mod (2 ^ 64 :: int)"
    using mod_add_self2 [of "uint x - 2 ^ 63" "2 ^ 64"] by (simp add: algebra_simps)
  also have "\<dots> = uint x - 2 ^ 63" using lo hi by (simp add: mod_pos_pos_trivial)
  finally show ?thesis
    using hi by (simp add: toInt64_def sint_uint signed_take_bit_eq_take_bit_shift take_bit_eq_mod)
qed

end
