(* ===== verification/Limits.thy ===== *)
theory Limits
  imports GoLib "HOL-Library.AList"
begin

text \<open>
  Admission control: the per-author limiter (\<open>pkg/p2p/ratelimit.go\<close>), the replay cache
  (\<open>pkg/p2p/seencache.go\<close>), the filter that composes them (\<open>SubscribeWithFilter\<close> in
  \<open>pkg/p2p/pubsub.go\<close>) and the per-route limiter of the HTTP interface
  (\<open>pkg/api/middleware/ratelimit.go\<close>). Times are nanoseconds; every reading of the clock is an
  argument. The mutexes make each operation one step. A Go map is an association list with distinct
  keys; where the code ranges over a map, the list is one of the orders the runtime may choose.
\<close>

section \<open>The per-author limiter\<close>

definition maxPostsPerMinute :: nat where "maxPostsPerMinute = 10"
definition maxReactionsPerMinute :: nat where "maxReactionsPerMinute = 100"
definition rateLimitWindow :: int where "rateLimitWindow = 60 * 1000000000"

record authorCounts =
  ac_posts :: nat
  ac_reactions :: nat
  ac_resetAt :: int

type_synonym pubsubRateLimiter = "(string \<times> authorCounts) list"

definition newPubsubRateLimiter :: pubsubRateLimiter where
  "newPubsubRateLimiter = []"

definition freshCounts :: "int \<Rightarrow> authorCounts" where
  "freshCounts now = \<lparr>ac_posts = 0, ac_reactions = 0, ac_resetAt = now + rateLimitWindow\<rparr>"

definition Allow ::
  "int \<Rightarrow> string \<Rightarrow> string \<Rightarrow> pubsubRateLimiter \<Rightarrow> bool \<times> pubsubRateLimiter" where
  "Allow now authorHex msgType rl =
     (let ac = (case map_of rl authorHex of None \<Rightarrow> freshCounts now | Some ac \<Rightarrow> ac);
          ac = (if ac_resetAt ac < now then freshCounts now else ac)
      in if msgType = ''post'' then
           (if maxPostsPerMinute \<le> ac_posts ac then (False, AList.update authorHex ac rl)
            else (True, AList.update authorHex (ac\<lparr>ac_posts := ac_posts ac + 1\<rparr>) rl))
         else if msgType = ''reaction'' then
           (if maxReactionsPerMinute \<le> ac_reactions ac then (False, AList.update authorHex ac rl)
            else (True, AList.update authorHex (ac\<lparr>ac_reactions := ac_reactions ac + 1\<rparr>) rl))
         else (True, AList.update authorHex ac rl))"

definition ResetLimiter :: "pubsubRateLimiter \<Rightarrow> pubsubRateLimiter" where
  "ResetLimiter rl = []"

definition CleanupLimiter :: "int \<Rightarrow> pubsubRateLimiter \<Rightarrow> pubsubRateLimiter" where
  "CleanupLimiter now rl = filter (\<lambda>(_, ac). \<not> ac_resetAt ac < now) rl"

section \<open>The replay cache\<close>

definition defaultSeenCacheMaxAge :: int where
  "defaultSeenCacheMaxAge = 10 * 60 * 1000000000"

record seenCache =
  sc_seen :: "(string \<times> int) list"
  sc_maxAge :: int

definition newSeenCache :: "int \<Rightarrow> seenCache" where
  "newSeenCache maxAge = \<lparr>sc_seen = [], sc_maxAge = maxAge\<rparr>"

definition HasSeen :: "string \<Rightarrow> seenCache \<Rightarrow> bool" where
  "HasSeen cidHex sc \<longleftrightarrow> map_of (sc_seen sc) cidHex \<noteq> None"

definition MarkSeen :: "int \<Rightarrow> string \<Rightarrow> seenCache \<Rightarrow> seenCache" where
  "MarkSeen now cidHex sc =
     (if map_of (sc_seen sc) cidHex = None
      then sc\<lparr>sc_seen := AList.update cidHex now (sc_seen sc)\<rparr> else sc)"

definition CheckAndMark :: "int \<Rightarrow> string \<Rightarrow> seenCache \<Rightarrow> bool \<times> seenCache" where
  "CheckAndMark now cidHex sc =
     (if map_of (sc_seen sc) cidHex \<noteq> None then (True, sc)
      else (False, sc\<lparr>sc_seen := AList.update cidHex now (sc_seen sc)\<rparr>))"

definition SizeSeen :: "seenCache \<Rightarrow> nat" where
  "SizeSeen sc = length (sc_seen sc)"

definition cleanupSeen :: "int \<Rightarrow> seenCache \<Rightarrow> seenCache" where
  "cleanupSeen now sc =
     (let cutoff = now - sc_maxAge sc in
      sc\<lparr>sc_seen := filter (\<lambda>(_, seenAt). \<not> seenAt < cutoff) (sc_seen sc)\<rparr>)"

section \<open>The filter of a subscription\<close>

text \<open>
  What the wrapped handler of \<open>SubscribeWithFilter\<close> decides for one message: the extractor's result
  and the SHA-256 of the data are arguments; the result says whether the handler is called.
\<close>

record filterState =
  f_seen :: "seenCache option"
  f_limiter :: "pubsubRateLimiter option"

definition filterMessage ::
  "(bytes \<Rightarrow> goerr + string \<times> string \<times> string) \<Rightarrow> (bytes \<Rightarrow> bytes) \<Rightarrow> int \<Rightarrow> int \<Rightarrow> bytes
     \<Rightarrow> filterState \<Rightarrow> bool \<times> filterState" where
  "filterMessage authorExtractor sha256 now now' data st =
     (case authorExtractor data of
        Inl _ \<Rightarrow> (False, st)
      | Inr (authorHex, msgType, cid0) \<Rightarrow>
          let cidHex = (if cid0 = '''' then EncodeToString (sha256 data) else cid0);
              (seen, st1) = (case f_seen st of
                  None \<Rightarrow> (False, st)
                | Some sc \<Rightarrow> (case CheckAndMark now cidHex sc of
                    (b, sc') \<Rightarrow> (b, st\<lparr>f_seen := Some sc'\<rparr>)))
          in if seen then (False, st1)
             else case f_limiter st1 of
                 None \<Rightarrow> (True, st1)
               | Some rl \<Rightarrow> (case Allow now' authorHex msgType rl of
                   (ok, rl') \<Rightarrow> (ok, st1\<lparr>f_limiter := Some rl'\<rparr>)))"

section \<open>The per-route limiter\<close>

record visitor =
  v_count :: nat
  v_resetAt :: int

record routeLimit =
  rl_maxRequests :: int
  rl_window :: int

type_synonym visitors = "(string \<times> visitor) list"

record RouteRateLimiter =
  rr_limits :: "(string \<times> routeLimit) list"
  rr_visitors :: "(string \<times> visitors) list"
  rr_global :: "routeLimit option"
  rr_globalV :: visitors

definition NewRouteRateLimiter :: RouteRateLimiter where
  "NewRouteRateLimiter = \<lparr>rr_limits = [], rr_visitors = [], rr_global = None, rr_globalV = []\<rparr>"

definition AddLimit :: "string \<Rightarrow> int \<Rightarrow> int \<Rightarrow> RouteRateLimiter \<Rightarrow> RouteRateLimiter" where
  "AddLimit pathPrefix maxRequests window rl =
     rl\<lparr>rr_limits := AList.update pathPrefix
          \<lparr>rl_maxRequests = maxRequests, rl_window = window\<rparr> (rr_limits rl),
        rr_visitors := AList.update pathPrefix [] (rr_visitors rl)\<rparr>"

definition SetGlobalLimit :: "int \<Rightarrow> int \<Rightarrow> RouteRateLimiter \<Rightarrow> RouteRateLimiter" where
  "SetGlobalLimit maxRequests window rl =
     rl\<lparr>rr_global := Some \<lparr>rl_maxRequests = maxRequests, rl_window = window\<rparr>\<rparr>"

definition allowLocked :: "int \<Rightarrow> visitors \<Rightarrow> string \<Rightarrow> routeLimit \<Rightarrow> bool \<times> visitors" where
  "allowLocked now vs ip limit =
     (let fresh = (True, AList.update ip \<lparr>v_count = 1, v_resetAt = now + rl_window limit\<rparr> vs) in
      case map_of vs ip of
        None \<Rightarrow> fresh
      | Some v \<Rightarrow>
          if v_resetAt v < now then fresh
          else if rl_maxRequests limit \<le> int (v_count v) then (False, vs)
          else (True, AList.update ip (v\<lparr>v_count := v_count v + 1\<rparr>) vs))"

text \<open>\<open>int(d.Seconds())\<close> truncates towards zero.\<close>

definition retryAfterLocked :: "int \<Rightarrow> visitors \<Rightarrow> string \<Rightarrow> int" where
  "retryAfterLocked now vs ip = (case map_of vs ip of
      None \<Rightarrow> 1
    | Some v \<Rightarrow>
        let d = v_resetAt v - now;
            seconds = sgn d * (\<bar>d\<bar> div 1000000000) + 1
        in if seconds < 1 then 1 else seconds)"

text \<open>One iteration of the loop of \<open>matchRoute\<close>, and the loop over the map in the order of the list.\<close>

definition matchStep ::
  "string \<Rightarrow> string \<Rightarrow> string \<times> routeLimit \<Rightarrow> string \<times> routeLimit option \<Rightarrow> string \<times> routeLimit option"
where
  "matchStep verb path entry best =
     (case (entry, best) of ((prefix, limit), (bestKey, bestLimit)) \<Rightarrow>
        if CHR '' '' \<in> set prefix then
          (let m = takeWhile (\<lambda>c. c \<noteq> CHR '' '') prefix;
               p = tl (dropWhile (\<lambda>c. c \<noteq> CHR '' '') prefix)
           in if verb = m \<and> HasPrefix path p \<and> length bestKey < length prefix
              then (prefix, Some limit) else (bestKey, bestLimit))
        else if verb = prefix \<and> (bestLimit = None \<or> length bestKey < length prefix)
          then (prefix, Some limit) else (bestKey, bestLimit))"

definition matchRoute ::
  "RouteRateLimiter \<Rightarrow> string \<Rightarrow> string \<Rightarrow> string \<times> routeLimit option" where
  "matchRoute rl verb path = fold (matchStep verb path) (rr_limits rl) ('''', None)"

text \<open>
  The middleware's decision for one request: \<open>Inl n\<close> answers 429 with \<open>Retry-After: n\<close>, \<open>Inr ()\<close> calls the
  next handler. \<open>clk\<close> numbers the readings of the clock.
\<close>

definition Middleware ::
  "(nat \<Rightarrow> int) \<Rightarrow> string \<Rightarrow> string \<Rightarrow> string \<Rightarrow> RouteRateLimiter \<Rightarrow> (int + unit) \<times> RouteRateLimiter" where
  "Middleware clk ip verb path rl =
     (let (ok, rl1) = (case rr_global rl of
          None \<Rightarrow> (True, rl)
        | Some g \<Rightarrow> (case allowLocked (clk 0) (rr_globalV rl) ip g of
            (b, vs) \<Rightarrow> (b, rl\<lparr>rr_globalV := vs\<rparr>)))
      in if \<not> ok then (Inl (retryAfterLocked (clk 1) (rr_globalV rl1) ip), rl1)
         else case matchRoute rl1 verb path of
             (prefix, None) \<Rightarrow> (Inr (), rl1)
           | (prefix, Some limit) \<Rightarrow>
               (let vs = (case map_of (rr_visitors rl1) prefix of None \<Rightarrow> [] | Some vs \<Rightarrow> vs) in
                case allowLocked (clk 2) vs ip limit of
                  (b, vs') \<Rightarrow>
                    let rl2 = rl1\<lparr>rr_visitors := AList.update prefix vs' (rr_visitors rl1)\<rparr> in
                    if b then (Inr (), rl2)
                    else (Inl (retryAfterLocked (clk 3) vs' ip), rl2)))"

definition cleanupRoutes :: "int \<Rightarrow> RouteRateLimiter \<Rightarrow> RouteRateLimiter" where
  "cleanupRoutes now rl =
     (let live = filter (\<lambda>(_, v). \<not> v_resetAt v < now) in
      rl\<lparr>rr_visitors := map (\<lambda>(p, vs). (p, live vs)) (rr_visitors rl),
         rr_globalV := live (rr_globalV rl)\<rparr>)"

section \<open>Fixed-window counters\<close>

text \<open>
  Both limiters are fixed-window counters for a key. A history is a list of timed operations;
  \<open>acceptedTimes\<close> are the times of the operations on the key that were let through.
\<close>

fun acceptedTimes ::
  "('o \<Rightarrow> int \<Rightarrow> 's \<Rightarrow> bool \<times> 's) \<Rightarrow> ('o \<Rightarrow> bool) \<Rightarrow> (int \<times> 'o) list \<Rightarrow> 's \<Rightarrow> int list" where
  "acceptedTimes step isHit [] s = []"
| "acceptedTimes step isHit ((t, ev) # es) s = (case step ev t s of
     (b, s') \<Rightarrow> (if isHit ev \<and> b then [t] else []) @ acceptedTimes step isHit es s')"

text \<open>The number of accepted operations in the closed interval of length \<open>w\<close> from \<open>a\<close>.\<close>

definition acceptedIn ::
  "('o \<Rightarrow> int \<Rightarrow> 's \<Rightarrow> bool \<times> 's) \<Rightarrow> ('o \<Rightarrow> bool) \<Rightarrow> int \<Rightarrow> int \<Rightarrow> (int \<times> 'o) list \<Rightarrow> 's \<Rightarrow> nat" where
  "acceptedIn step isHit a w es s =
     length (filter (\<lambda>t. a \<le> t \<and> t \<le> a + w) (acceptedTimes step isHit es s))"

lemma acceptedIn_Nil [simp]: "acceptedIn step isHit a w [] s = 0"
  by (simp add: acceptedIn_def)

lemma acceptedIn_Cons [simp]:
  "acceptedIn step isHit a w ((t, ev) # es) s =
     (if isHit ev \<and> fst (step ev t s) \<and> a \<le> t \<and> t \<le> a + w then 1 else 0) +
     acceptedIn step isHit a w es (snd (step ev t s))"
  by (auto simp: acceptedIn_def split: prod.splits)

locale fixed_window =
  fixes inv :: "'s \<Rightarrow> bool"
    and view :: "'s \<Rightarrow> (nat \<times> int) option"
    and step :: "'o \<Rightarrow> int \<Rightarrow> 's \<Rightarrow> bool \<times> 's"
    and isHit :: "'o \<Rightarrow> bool"
    and limit :: nat
    and w :: int
  assumes limit_pos: "0 < limit"
    and inv_step: "inv s \<Longrightarrow> inv (snd (step ev t s))"
    and hit_fresh: "inv s \<Longrightarrow> isHit ev \<Longrightarrow> \<forall>c r. view s = Some (c, r) \<longrightarrow> r < t \<Longrightarrow>
      view (snd (step ev t s)) = Some (1, t + w)"
    and hit_count: "inv s \<Longrightarrow> isHit ev \<Longrightarrow> view s = Some (c, r) \<Longrightarrow> t \<le> r \<Longrightarrow> c < limit \<Longrightarrow>
      view (snd (step ev t s)) = Some (Suc c, r)"
    and hit_full: "inv s \<Longrightarrow> isHit ev \<Longrightarrow> view s = Some (c, r) \<Longrightarrow> t \<le> r \<Longrightarrow> limit \<le> c \<Longrightarrow>
      \<not> fst (step ev t s) \<and> view (snd (step ev t s)) = Some (c, r)"
    and idle: "inv s \<Longrightarrow> \<not> isHit ev \<Longrightarrow>
      view (snd (step ev t s)) = view s \<or>
      (\<forall>c r. view s = Some (c, r) \<longrightarrow> r < t) \<and> view (snd (step ev t s)) \<in> {None, Some (0, t + w)}"
begin

abbreviation later :: "int \<Rightarrow> (int \<times> 'o) list \<Rightarrow> bool" where
  "later a es \<equiv> sorted (map fst es) \<and> (\<forall>e\<in>set es. a \<le> fst e)"

abbreviation small :: "'s \<Rightarrow> bool" where
  "small s \<equiv> \<forall>c r. view s = Some (c, r) \<longrightarrow> c \<le> limit"

lemma none_after: "later t es \<Longrightarrow> a + w < t \<Longrightarrow> acceptedIn step isHit a w es s = 0"
  by (induction es arbitrary: s t) auto

text \<open>Once the window of the counter covers the interval, only the rest of the count is left.\<close>

lemma covered:
  "inv s \<Longrightarrow> view s = Some (c, r) \<Longrightarrow> a + w \<le> r \<Longrightarrow> c \<le> limit \<Longrightarrow> sorted (map fst es) \<Longrightarrow>
     acceptedIn step isHit a w es s \<le> limit - c"
proof (induction es arbitrary: s c)
  case (Cons e es)
  obtain t ev where e: "e = (t, ev)" by force
  let ?s = "snd (step ev t s)"
  have inv: "inv ?s" using Cons.prems(1) by (rule inv_step)
  show ?case
  proof (cases "t \<le> r")
    case False
    then have "acceptedIn step isHit a w es ?s = 0"
      using Cons.prems e by (intro none_after [where t = t]) auto
    with False Cons.prems(3) e show ?thesis by simp
  next
    case True
    show ?thesis
    proof (cases "isHit ev")
      case False
      with True idle [OF Cons.prems(1), of ev t] Cons.prems(2) have "view ?s = Some (c, r)" by force
      with Cons.IH [OF inv this] Cons.prems e False show ?thesis by simp
    next
      case hit: True
      show ?thesis
      proof (cases "c < limit")
        case True
        have "view ?s = Some (Suc c, r)"
          using hit_count [OF Cons.prems(1) hit Cons.prems(2) \<open>t \<le> r\<close> True] .
        with Cons.IH [OF inv this] Cons.prems e True show ?thesis by auto
      next
        case False
        then have "\<not> fst (step ev t s) \<and> view ?s = Some (c, r)"
          using hit_full [OF Cons.prems(1) hit Cons.prems(2) \<open>t \<le> r\<close>] by simp
        with Cons.IH [OF inv] Cons.prems e show ?thesis by auto
      qed
    qed
  qed
qed simp

lemma inside:
  "inv s \<Longrightarrow> later a es \<Longrightarrow> small s \<Longrightarrow>
     acceptedIn step isHit a w es s \<le> (case view s of None \<Rightarrow> limit | Some (c, r) \<Rightarrow> limit - c + limit)"
proof (induction es arbitrary: s)
  case (Cons e es)
  obtain t ev where e: "e = (t, ev)" by force
  let ?s = "snd (step ev t s)"
  have inv: "inv ?s" using Cons.prems(1) by (rule inv_step)
  from Cons.prems e have ta: "a \<le> t" and es: "sorted (map fst es)" "later a es" by auto
  note cov = covered [OF inv, of _ "t + w" a es]
  show ?case
  proof (cases "\<exists>c r. view s = Some (c, r) \<and> t \<le> r")
    case True
    then obtain c r where v: "view s = Some (c, r)" "t \<le> r" by blast
    with Cons.prems(3) have c: "c \<le> limit" by blast
    show ?thesis
    proof (cases "isHit ev")
      case False
      with v idle [OF Cons.prems(1), of ev t] have "view ?s = Some (c, r)" by force
      with Cons.IH [OF inv es(2)] v c e False show ?thesis by simp
    next
      case hit: True
      show ?thesis
      proof (cases "c < limit")
        case True
        have "view ?s = Some (Suc c, r)" using hit_count [OF Cons.prems(1) hit v True] .
        with Cons.IH [OF inv es(2)] v True e show ?thesis by auto
      next
        case False
        with hit_full [OF Cons.prems(1) hit v]
        have "\<not> fst (step ev t s) \<and> view ?s = Some (c, r)" by simp
        with Cons.IH [OF inv es(2)] v c e show ?thesis by auto
      qed
    qed
  next
    case False
    then have exp: "\<forall>c r. view s = Some (c, r) \<longrightarrow> r < t" by force
    have bound: "limit \<le> (case view s of None \<Rightarrow> limit | Some (c, r) \<Rightarrow> limit - c + limit)"
      by (auto split: option.splits)
    show ?thesis
    proof (cases "isHit ev")
      case True
      have "view ?s = Some (1, t + w)" using hit_fresh [OF Cons.prems(1) True exp] .
      from cov [OF this] ta es(1) limit_pos
      have "acceptedIn step isHit a w es ?s \<le> limit - 1" by simp
      then have "acceptedIn step isHit a w (e # es) s \<le> limit"
        using limit_pos e by auto
      with bound show ?thesis by (rule order_trans [rotated])
    next
      case idle': False
      consider "view ?s = view s" | "view ?s = None" | "view ?s = Some (0, t + w)"
        using idle [OF Cons.prems(1) idle', of t] by auto
      then show ?thesis
      proof cases
        case 1
        with Cons.IH [OF inv es(2)] Cons.prems(3) e idle' show ?thesis by auto
      next
        case 2
        with Cons.IH [OF inv es(2)] e idle' bound show ?thesis by simp
      next
        case 3
        from cov [OF this] ta es(1) have "acceptedIn step isHit a w es ?s \<le> limit" by simp
        with bound e idle' show ?thesis by simp
      qed
    qed
  qed
qed (simp split: option.splits)

text \<open>In any interval of the window's length, at most twice the limit is let through.\<close>

lemma view_le_step:
  assumes "inv s" "small s"
  shows "small (snd (step ev t s))"
proof (cases "isHit ev")
  case False
  with idle [OF assms(1), of ev t] assms(2) show ?thesis by auto
next
  case True
  show ?thesis
  proof (cases "\<exists>c r. view s = Some (c, r) \<and> t \<le> r")
    case False
    then have "\<forall>c r. view s = Some (c, r) \<longrightarrow> r < t" by force
    with hit_fresh [OF assms(1) True] limit_pos show ?thesis by simp
  next
    case ex: True
    then obtain c' r' where "view s = Some (c', r')" "t \<le> r'" by blast
    with hit_count [OF assms(1) True this] hit_full [OF assms(1) True this] assms(2)
    show ?thesis by (cases "c' < limit") auto
  qed
qed

lemma sliding_bound:
  "inv s \<Longrightarrow> sorted (map fst es) \<Longrightarrow> small s \<Longrightarrow>
     acceptedIn step isHit a w es s \<le> 2 * limit"
proof (induction es arbitrary: s)
  case (Cons e es)
  obtain t ev where e: "e = (t, ev)" by force
  show ?case
  proof (cases "a \<le> t")
    case True
    with Cons.prems e have "later a (e # es)" by auto
    from inside [OF Cons.prems(1) this Cons.prems(3)] Cons.prems(3) show ?thesis
      by (auto split: option.splits)
  next
    case False
    have "acceptedIn step isHit a w es (snd (step ev t s)) \<le> 2 * limit"
      using Cons.prems(2) e
      by (intro Cons.IH inv_step [OF Cons.prems(1)] view_le_step [OF Cons.prems(1,3)]) auto
    with False e show ?thesis by simp
  qed
qed simp

end

subsection \<open>The per-author limiter is a fixed-window counter\<close>

datatype limiterOp = LAllow string string | LCleanup

fun runLimiter :: "limiterOp \<Rightarrow> int \<Rightarrow> pubsubRateLimiter \<Rightarrow> bool \<times> pubsubRateLimiter" where
  "runLimiter (LAllow author msgType) now rl = Allow now author msgType rl"
| "runLimiter LCleanup now rl = (True, CleanupLimiter now rl)"

definition distinctKeys :: "('k \<times> 'v) list \<Rightarrow> bool" where
  "distinctKeys xs \<longleftrightarrow> distinct (map fst xs)"

lemma distinctKeys_update: "distinctKeys xs \<Longrightarrow> distinctKeys (AList.update k v xs)"
  by (simp add: distinctKeys_def distinct_update)

lemma distinctKeys_filter: "distinctKeys xs \<Longrightarrow> distinctKeys (filter P xs)"
  by (simp add: distinctKeys_def distinct_map_filter)

lemma map_of_filter_distinct:
  "distinctKeys xs \<Longrightarrow> map_of (filter (\<lambda>(k, v). P v) xs) k =
     (case map_of xs k of None \<Rightarrow> None | Some v \<Rightarrow> if P v then Some v else None)"
proof (induction xs)
  case (Cons x xs)
  have "map_of xs (fst x) = None"
    using Cons.prems by (simp add: distinctKeys_def map_of_eq_None_iff)
  with Cons show ?case
    by (cases x) (auto simp: distinctKeys_def split: option.splits)
qed simp

lemma runLimiter_distinct: "distinctKeys rl \<Longrightarrow> distinctKeys (snd (runLimiter ev t rl))"
  by (cases ev)
     (auto simp: Allow_def CleanupLimiter_def Let_def distinctKeys_update distinctKeys_filter)

lemma runLimiter_view:
  assumes "distinctKeys rl"
  shows "map_of (snd (runLimiter ev t rl)) a = (case ev of
      LCleanup \<Rightarrow> (case map_of rl a of None \<Rightarrow> None
                   | Some ac \<Rightarrow> if ac_resetAt ac < t then None else Some ac)
    | LAllow b ty \<Rightarrow> if b \<noteq> a then map_of rl a else
       (let ac = (case map_of rl a of None \<Rightarrow> freshCounts t
                  | Some ac \<Rightarrow> if ac_resetAt ac < t then freshCounts t else ac) in
        Some (if ty = ''post'' then ac\<lparr>ac_posts :=
                  (if ac_posts ac < maxPostsPerMinute then ac_posts ac + 1 else ac_posts ac)\<rparr>
              else if ty = ''reaction'' then ac\<lparr>ac_reactions :=
                  (if ac_reactions ac < maxReactionsPerMinute then ac_reactions ac + 1
                   else ac_reactions ac)\<rparr>
              else ac)))"
  using assms
  by (cases ev; cases "map_of rl a")
     (auto simp: Allow_def CleanupLimiter_def Let_def update_conv' map_of_filter_distinct
       freshCounts_def rateLimitWindow_def)

declare runLimiter.simps [simp del]

interpretation posts: fixed_window distinctKeys
  "\<lambda>rl. map_option (\<lambda>ac. (ac_posts ac, ac_resetAt ac)) (map_of rl author)"
  runLimiter "\<lambda>ev. ev = LAllow author ''post''" maxPostsPerMinute rateLimitWindow for author
proof unfold_locales
  show "0 < maxPostsPerMinute" by (simp add: maxPostsPerMinute_def)
next
  fix s :: pubsubRateLimiter and ev t c r
  assume "distinctKeys s" "ev = LAllow author ''post''"
    "map_option (\<lambda>ac. (ac_posts ac, ac_resetAt ac)) (map_of s author) = Some (c, r)"
    "t \<le> r" "maxPostsPerMinute \<le> c"
  then show "\<not> fst (runLimiter ev t s) \<and>
      map_option (\<lambda>ac. (ac_posts ac, ac_resetAt ac)) (map_of (snd (runLimiter ev t s)) author) =
      Some (c, r)"
    by (auto simp: runLimiter.simps Allow_def Let_def update_conv' freshCounts_def)
qed (auto simp: runLimiter_distinct runLimiter_view Let_def freshCounts_def maxPostsPerMinute_def
      split: limiterOp.splits option.splits)

interpretation reactions: fixed_window distinctKeys
  "\<lambda>rl. map_option (\<lambda>ac. (ac_reactions ac, ac_resetAt ac)) (map_of rl author)"
  runLimiter "\<lambda>ev. ev = LAllow author ''reaction''" maxReactionsPerMinute rateLimitWindow for author
proof unfold_locales
  show "0 < maxReactionsPerMinute" by (simp add: maxReactionsPerMinute_def)
next
  fix s :: pubsubRateLimiter and ev t c r
  assume "distinctKeys s" "ev = LAllow author ''reaction''"
    "map_option (\<lambda>ac. (ac_reactions ac, ac_resetAt ac)) (map_of s author) = Some (c, r)"
    "t \<le> r" "maxReactionsPerMinute \<le> c"
  then show "\<not> fst (runLimiter ev t s) \<and>
      map_option (\<lambda>ac. (ac_reactions ac, ac_resetAt ac)) (map_of (snd (runLimiter ev t s)) author) =
      Some (c, r)"
    by (auto simp: runLimiter.simps Allow_def Let_def update_conv' freshCounts_def)
qed (auto simp: runLimiter_distinct runLimiter_view Let_def freshCounts_def maxReactionsPerMinute_def
      split: limiterOp.splits option.splits)

text \<open>
  C18. The network limiter bounds every author: whatever sequence of \<open>Allow\<close> calls (by any authors,
  of any kinds) and clean-ups runs on a new limiter, with a clock that does not go back, at most
  twice the limit of posts (20) and of reactions (200) of one author pass in any 60 seconds.
\<close>

theorem author_rate_bounded:
  assumes "sorted (map fst es)"
  shows "acceptedIn runLimiter (\<lambda>ev. ev = LAllow author ''post'') a rateLimitWindow es
           newPubsubRateLimiter \<le> 2 * maxPostsPerMinute \<and>
         acceptedIn runLimiter (\<lambda>ev. ev = LAllow author ''reaction'') a rateLimitWindow es
           newPubsubRateLimiter \<le> 2 * maxReactionsPerMinute"
  using posts.sliding_bound [OF _ assms, of newPubsubRateLimiter author a]
    reactions.sliding_bound [OF _ assms, of newPubsubRateLimiter author a]
  by (simp add: newPubsubRateLimiter_def distinctKeys_def)

theorem author_rate_bounded_witness:
  "acceptedIn runLimiter (\<lambda>ev. ev = LAllow ''a'' ''post'') 0 rateLimitWindow
     [(0, LAllow ''a'' ''post''), (1, LCleanup), (2, LAllow ''a'' ''post'')] newPubsubRateLimiter \<le> 20"
  using author_rate_bounded [of "[(0, LAllow ''a'' ''post''), (1, LCleanup), (2, LAllow ''a'' ''post'')]" "''a''" 0]
  by (simp add: maxPostsPerMinute_def del: acceptedIn_Cons)

subsection \<open>The global limit of the HTTP interface\<close>

datatype routeOp = RRequest "nat \<Rightarrow> int" string string string | RCleanup

fun runRoutes :: "routeOp \<Rightarrow> int \<Rightarrow> RouteRateLimiter \<Rightarrow> bool \<times> RouteRateLimiter" where
  "runRoutes (RRequest clk ip verb path) now rl =
     (case Middleware (clk(0 := now)) ip verb path rl of (r, rl') \<Rightarrow> (\<not> isl r, rl'))"
| "runRoutes RCleanup now rl = (True, cleanupRoutes now rl)"

definition isRequestOf :: "string \<Rightarrow> routeOp \<Rightarrow> bool" where
  "isRequestOf ip ev = (case ev of RRequest _ ip' _ _ \<Rightarrow> ip' = ip | RCleanup \<Rightarrow> False)"

lemma Middleware_state:
  assumes "Middleware clk ip verb path rl = (r, rl')" "rr_global rl = Some g"
  shows "rr_global rl' = Some g \<and>
         rr_globalV rl' = snd (allowLocked (clk 0) (rr_globalV rl) ip g) \<and>
         (\<not> isl r \<longrightarrow> fst (allowLocked (clk 0) (rr_globalV rl) ip g))"
  using assms by (auto simp: Middleware_def Let_def split: prod.splits option.splits if_splits)

lemma allowLocked_view:
  "map_of (snd (allowLocked t vs b g)) ip =
     (if b \<noteq> ip then map_of vs ip
      else case map_of vs ip of
          None \<Rightarrow> Some \<lparr>v_count = 1, v_resetAt = t + rl_window g\<rparr>
        | Some v \<Rightarrow>
            if v_resetAt v < t then Some \<lparr>v_count = 1, v_resetAt = t + rl_window g\<rparr>
            else if rl_maxRequests g \<le> int (v_count v) then Some v
            else Some (v\<lparr>v_count := v_count v + 1\<rparr>))"
  by (auto simp: allowLocked_def Let_def update_conv' split: option.splits)

lemma allowLocked_full:
  "map_of vs ip = Some v \<Longrightarrow> \<not> v_resetAt v < t \<Longrightarrow> rl_maxRequests g \<le> int (v_count v) \<Longrightarrow>
     \<not> fst (allowLocked t vs ip g)"
  by (simp add: allowLocked_def)

lemma allowLocked_distinct: "distinctKeys vs \<Longrightarrow> distinctKeys (snd (allowLocked t vs ip g))"
  by (auto simp: allowLocked_def Let_def distinctKeys_update split: option.splits)

definition routesInv :: "routeLimit \<Rightarrow> RouteRateLimiter \<Rightarrow> bool" where
  "routesInv g rl \<longleftrightarrow> rr_global rl = Some g \<and> distinctKeys (rr_globalV rl)"

lemma runRoutes_inv: "routesInv g rl \<Longrightarrow> routesInv g (snd (runRoutes ev t rl))"
  by (cases ev) (auto simp: routesInv_def allowLocked_distinct cleanupRoutes_def Let_def
      distinctKeys_filter dest!: Middleware_state split: prod.splits)

lemma runRoutes_view:
  assumes "routesInv g rl"
  shows "map_of (rr_globalV (snd (runRoutes ev t rl))) ip = (case ev of
      RRequest _ b _ _ \<Rightarrow> map_of (snd (allowLocked t (rr_globalV rl) b g)) ip
    | RCleanup \<Rightarrow> (case map_of (rr_globalV rl) ip of None \<Rightarrow> None
                   | Some v \<Rightarrow> if v_resetAt v < t then None else Some v))"
  using assms
  by (cases ev) (auto simp: routesInv_def cleanupRoutes_def Let_def map_of_filter_distinct
      dest!: Middleware_state split: prod.splits option.splits)

lemma runRoutes_full:
  assumes "routesInv g rl" "isRequestOf ip ev" "map_of (rr_globalV rl) ip = Some v"
    "\<not> v_resetAt v < t" "rl_maxRequests g \<le> int (v_count v)"
  shows "\<not> fst (runRoutes ev t rl)"
  using assms allowLocked_full [of "rr_globalV rl" ip v t g]
  by (cases ev) (auto simp: routesInv_def isRequestOf_def dest!: Middleware_state split: prod.splits)

declare runRoutes.simps [simp del]

interpretation requests: fixed_window "routesInv \<lparr>rl_maxRequests = int (Suc n), rl_window = w\<rparr>"
  "\<lambda>rl. map_option (\<lambda>v. (v_count v, v_resetAt v)) (map_of (rr_globalV rl) ip)"
  runRoutes "isRequestOf ip" "Suc n" w for n w ip
proof unfold_locales
  fix s ev t c r
  assume h: "routesInv \<lparr>rl_maxRequests = int (Suc n), rl_window = w\<rparr> s" "isRequestOf ip ev"
    "map_option (\<lambda>v. (v_count v, v_resetAt v)) (map_of (rr_globalV s) ip) = Some (c, r)"
    "t \<le> r" "Suc n \<le> c"
  then obtain v where v: "map_of (rr_globalV s) ip = Some v" "v_count v = c" "v_resetAt v = r" by auto
  with h runRoutes_full [OF h(1,2) v(1), of t]
  show "\<not> fst (runRoutes ev t s) \<and>
      map_option (\<lambda>v. (v_count v, v_resetAt v)) (map_of (rr_globalV (snd (runRoutes ev t s))) ip) =
      Some (c, r)"
    by (auto simp: runRoutes_view [OF h(1)] allowLocked_view isRequestOf_def
        split: routeOp.splits)
qed (auto simp: runRoutes_inv runRoutes_view allowLocked_view isRequestOf_def
      split: routeOp.splits option.splits)

text \<open>
  The HTTP limiter bounds every address: with a global limit of \<open>n > 0\<close> requests per window \<open>w\<close>,
  whatever requests (from any addresses, to any routes, refused by a route limit or not) and
  clean-ups are served, at most \<open>2 n\<close> requests from one address reach a handler in any interval of
  length \<open>w\<close>.
\<close>

theorem address_rate_bounded:
  assumes "sorted (map fst es)" and "rr_global rl = Some \<lparr>rl_maxRequests = int (Suc n), rl_window = w\<rparr>"
    and "rr_globalV rl = []"
  shows "acceptedIn runRoutes (isRequestOf ip) a w es rl \<le> 2 * Suc n"
  using requests.sliding_bound [OF _ assms(1), of n w rl ip a] assms(2,3)
  by (simp add: routesInv_def distinctKeys_def)

theorem address_rate_bounded_witness:
  "acceptedIn runRoutes (isRequestOf ''10.0.0.1'') 0 60
     [(0, RRequest (\<lambda>_. 0) ''10.0.0.1'' ''GET'' ''/'')] (SetGlobalLimit 100 60 NewRouteRateLimiter) \<le> 200"
  using address_rate_bounded [of "[(0, RRequest (\<lambda>_. 0) ''10.0.0.1'' ''GET'' ''/'')]"
    "SetGlobalLimit 100 60 NewRouteRateLimiter" 99 60 "''10.0.0.1''" 0]
  by (simp add: SetGlobalLimit_def NewRouteRateLimiter_def del: acceptedIn_Cons)

subsection \<open>The route of a request\<close>

definition routeMatches :: "string \<Rightarrow> string \<Rightarrow> string \<Rightarrow> bool" where
  "routeMatches verb path key \<longleftrightarrow>
     key = verb \<and> CHR '' '' \<notin> set key \<or>
     (\<exists>p. key = verb @ CHR '' '' # p \<and> CHR '' '' \<notin> set verb \<and> HasPrefix path p)"

lemma split_at_space:
  assumes "c \<in> set k"
  shows "k = takeWhile (\<lambda>x. x \<noteq> c) k @ c # tl (dropWhile (\<lambda>x. x \<noteq> c) k) \<and>
         c \<notin> set (takeWhile (\<lambda>x. x \<noteq> c) k)"
proof -
  have ne: "dropWhile (\<lambda>x. x \<noteq> c) k \<noteq> []" using assms by simp
  then have "hd (dropWhile (\<lambda>x. x \<noteq> c) k) = c" using hd_dropWhile [OF ne] by simp
  with ne have "dropWhile (\<lambda>x. x \<noteq> c) k = c # tl (dropWhile (\<lambda>x. x \<noteq> c) k)"
    by (cases "dropWhile (\<lambda>x. x \<noteq> c) k") auto
  then have "k = takeWhile (\<lambda>x. x \<noteq> c) k @ c # tl (dropWhile (\<lambda>x. x \<noteq> c) k)"
    using takeWhile_dropWhile_id [of "\<lambda>x. x \<noteq> c" k] by simp
  then show ?thesis by (auto dest: set_takeWhileD)
qed

lemma takeWhile_space:
  "c \<notin> set m \<Longrightarrow> takeWhile (\<lambda>x. x \<noteq> c) (m @ c # p) = m \<and> dropWhile (\<lambda>x. x \<noteq> c) (m @ c # p) = c # p"
  by (induction m) auto

lemma matchStep_eq:
  "matchStep verb path (k, l) (bk, bl) =
     (if routeMatches verb path k \<and>
         (length bk < length k \<or> CHR '' '' \<notin> set k \<and> bl = None) then (k, Some l) else (bk, bl))"
proof (cases "CHR '' '' \<in> set k")
  case True
  let ?m = "takeWhile (\<lambda>c. c \<noteq> CHR '' '') k" and ?p = "tl (dropWhile (\<lambda>c. c \<noteq> CHR '' '') k)"
  have "routeMatches verb path k \<longleftrightarrow> verb = ?m \<and> HasPrefix path ?p"
  proof
    assume "routeMatches verb path k"
    with True obtain p where "k = verb @ CHR '' '' # p" "CHR '' '' \<notin> set verb" "HasPrefix path p"
      by (auto simp: routeMatches_def)
    then show "verb = ?m \<and> HasPrefix path ?p" using takeWhile_space [of "CHR '' ''" verb p] by simp
  next
    assume "verb = ?m \<and> HasPrefix path ?p"
    with split_at_space [OF True] show "routeMatches verb path k" by (auto simp: routeMatches_def)
  qed
  with True show ?thesis by (simp add: matchStep_def Let_def)
next
  case False
  then have "routeMatches verb path k \<longleftrightarrow> k = verb" by (auto simp: routeMatches_def)
  with False show ?thesis by (auto simp: matchStep_def)
qed

lemma routeMatches_length_inj:
  assumes "routeMatches verb path a" "routeMatches verb path b" "length a = length b"
  shows "a = b"
proof -
  have det: "k = take (length k) (verb @ CHR '' '' # path)" if "routeMatches verb path k" for k
    using that unfolding routeMatches_def HasPrefix_def
  proof (elim disjE exE conjE)
    fix p
    assume k: "k = verb @ CHR '' '' # p" and p: "take (length p) path = p"
    have "take (length k) (verb @ CHR '' '' # path) = verb @ CHR '' '' # take (length p) path"
      by (simp add: k)
    with k p show ?thesis by (simp only:)
  qed simp
  from det [OF assms(1)] det [OF assms(2)] assms(3) show ?thesis by (simp only:)
qed

text \<open>\<open>longest verb path M r\<close>: \<open>r\<close> is the longest matching entry of \<open>M\<close>, if one matches.\<close>

definition longest :: "string \<Rightarrow> string \<Rightarrow> (string \<times> routeLimit) set \<Rightarrow> string \<times> routeLimit option \<Rightarrow> bool"
where
  "longest verb path M r = (case r of
      (k, None) \<Rightarrow> k = '''' \<and> (\<forall>(k', l')\<in>M. \<not> routeMatches verb path k')
    | (k, Some l) \<Rightarrow> (k, l) \<in> M \<and> routeMatches verb path k \<and>
        (\<forall>(k', l')\<in>M. routeMatches verb path k' \<longrightarrow> length k' \<le> length k))"

lemma longest_step:
  assumes "longest verb path M (bk, bl)"
  shows "longest verb path (insert (k, l) M) (matchStep verb path (k, l) (bk, bl))"
proof (cases "routeMatches verb path k")
  case False
  with assms show ?thesis by (auto simp: matchStep_eq longest_def split: option.splits)
next
  case m: True
  show ?thesis
  proof (cases bl)
    case None
    have "CHR '' '' \<in> set k \<Longrightarrow> 0 < length k" by auto
    with assms None m show ?thesis by (auto simp: matchStep_eq longest_def)
  next
    case (Some l0)
    with assms m show ?thesis by (fastforce simp: matchStep_eq longest_def)
  qed
qed

lemma longest_fold:
  "longest verb path M r \<Longrightarrow>
     longest verb path (M \<union> set es) (fold (matchStep verb path) es r)"
proof (induction es arbitrary: M r)
  case (Cons e es)
  obtain k l where e: "e = (k, l)" by force
  obtain bk bl where r: "r = (bk, bl)" by force
  from Cons.prems longest_step [of verb path M bk bl k l]
  have "longest verb path (insert e M) (matchStep verb path e r)" by (simp add: e r)
  from Cons.IH [OF this] show ?case by simp
qed simp

text \<open>
  The route limit applied to a request does not depend on the order in which the map of limits
  is visited: \<open>matchRoute\<close> returns an entry exactly when its key matches the request and every other
  matching key is strictly shorter.
\<close>

theorem matchRoute_longest:
  assumes "distinctKeys (rr_limits rl)"
  shows "matchRoute rl verb path = (k, Some l) \<longleftrightarrow>
     (k, l) \<in> set (rr_limits rl) \<and> routeMatches verb path k \<and>
     (\<forall>(k', l')\<in>set (rr_limits rl).
        routeMatches verb path k' \<and> k' \<noteq> k \<longrightarrow> length k' < length k)"
proof -
  let ?L = "set (rr_limits rl)"
  obtain bk bl where r: "matchRoute rl verb path = (bk, bl)" by force
  have lg: "longest verb path ?L (bk, bl)"
    using longest_fold [of verb path "{}" "('''', None)" "rr_limits rl"] r
    by (simp add: matchRoute_def longest_def)
  have uniq: "a = b" if "(k, a) \<in> ?L" "(k, b) \<in> ?L" for a b
    using assms that unfolding distinctKeys_def by (rule eq_key_imp_eq_value)
  show ?thesis
  proof (cases bl)
    case None
    with lg r show ?thesis by (auto simp: longest_def)
  next
    case (Some l0)
    with lg have best: "(bk, l0) \<in> ?L" "routeMatches verb path bk"
      "\<And>k' l'. (k', l') \<in> ?L \<Longrightarrow> routeMatches verb path k' \<Longrightarrow> length k' \<le> length bk"
      by (auto simp: longest_def)
    have strict: "length k' < length bk" if "(k', l') \<in> ?L" "routeMatches verb path k'" "k' \<noteq> bk"
      for k' l'
      using best(3) [OF that(1,2)] routeMatches_length_inj [OF that(2) best(2)] that(3)
      by (cases "length k' = length bk") auto
    show ?thesis
    proof
      assume "matchRoute rl verb path = (k, Some l)"
      with r Some have "k = bk" "l = l0" by simp_all
      with best strict show "(k, l) \<in> ?L \<and> routeMatches verb path k \<and>
          (\<forall>(k', l')\<in>?L. routeMatches verb path k' \<and> k' \<noteq> k \<longrightarrow> length k' < length k)" by blast
    next
      assume h: "(k, l) \<in> ?L \<and> routeMatches verb path k \<and>
          (\<forall>(k', l')\<in>?L. routeMatches verb path k' \<and> k' \<noteq> k \<longrightarrow> length k' < length k)"
      then have "length k \<le> length bk" using best(3) by blast
      with h best(1,2) have "bk = k" by force
      with h best(1) uniq [of l0 l] r Some show "matchRoute rl verb path = (k, Some l)" by simp
    qed
  qed
qed

theorem matchRoute_longest_witness:
  "matchRoute (AddLimit ''GET'' 120 60 (AddLimit ''POST /api/dm'' 30 60 NewRouteRateLimiter))
     ''POST'' ''/api/dm/x'' = (''POST /api/dm'', Some \<lparr>rl_maxRequests = 30, rl_window = 60\<rparr>)"
  by (subst matchRoute_longest)
     (simp_all add: AddLimit_def NewRouteRateLimiter_def distinctKeys_def routeMatches_def
       HasPrefix_def)

section \<open>Replay protection\<close>

datatype seenOp = SCheck string | SMark string | SCleanup

text \<open>The operations of the cache as steps; a check passes when the identifier was not seen.\<close>

fun runSeen :: "seenOp \<Rightarrow> int \<Rightarrow> seenCache \<Rightarrow> bool \<times> seenCache" where
  "runSeen (SCheck cid) now sc = (case CheckAndMark now cid sc of (seen, sc') \<Rightarrow> (\<not> seen, sc'))"
| "runSeen (SMark cid) now sc = (True, MarkSeen now cid sc)"
| "runSeen SCleanup now sc = (True, cleanupSeen now sc)"

lemma runSeen_inv:
  "distinctKeys (sc_seen sc) \<Longrightarrow> distinctKeys (sc_seen (snd (runSeen ev t sc))) \<and>
     sc_maxAge (snd (runSeen ev t sc)) = sc_maxAge sc"
  by (cases ev) (auto simp: CheckAndMark_def MarkSeen_def cleanupSeen_def Let_def
      distinctKeys_update distinctKeys_filter)

lemma runSeen_view:
  "distinctKeys (sc_seen sc) \<Longrightarrow> map_of (sc_seen sc) cid = Some t0 \<Longrightarrow>
     \<not> fst (runSeen (SCheck cid) t sc) \<and>
     (map_of (sc_seen (snd (runSeen ev t sc))) cid = Some t0 \<or> t0 + sc_maxAge sc < t)"
  by (cases ev) (auto simp: CheckAndMark_def MarkSeen_def cleanupSeen_def Let_def
      update_conv' map_of_filter_distinct)

lemma runSeen_check:
  "fst (runSeen (SCheck cid) t sc) \<Longrightarrow> map_of (sc_seen (snd (runSeen (SCheck cid) t sc))) cid = Some t"
  by (auto simp: CheckAndMark_def update_conv' split: if_splits)

declare runSeen.simps [simp del]

abbreviation passed :: "string \<Rightarrow> (int \<times> seenOp) list \<Rightarrow> seenCache \<Rightarrow> int list" where
  "passed cid \<equiv> acceptedTimes runSeen (\<lambda>ev. ev = SCheck cid)"

lemma passed_later: "\<forall>e\<in>set es. a \<le> fst e \<Longrightarrow> u \<in> set (passed cid es sc) \<Longrightarrow> a \<le> u"
  by (induction es arbitrary: sc) (auto split: prod.splits if_splits)

lemma passed_spaced:
  assumes "distinctKeys (sc_seen sc)" "sorted (map fst es)"
  shows "sorted_wrt (\<lambda>t u. t + sc_maxAge sc < u) (passed cid es sc) \<and>
     (\<forall>t0. map_of (sc_seen sc) cid = Some t0 \<longrightarrow> (\<forall>u\<in>set (passed cid es sc). t0 + sc_maxAge sc < u))"
  using assms
proof (induction es arbitrary: sc)
  case (Cons e es)
  obtain t ev where e: "e = (t, ev)" by force
  let ?s = "snd (runSeen ev t sc)"
  note inv = runSeen_inv [OF Cons.prems(1), of ev t]
  have later: "t \<le> u" if "u \<in> set (passed cid es ?s)" for u
    using Cons.prems(2) e passed_later [OF _ that, of t] by auto
  have IH: "sorted_wrt (\<lambda>t u. t + sc_maxAge sc < u) (passed cid es ?s)"
    "\<And>t0 u. map_of (sc_seen ?s) cid = Some t0 \<Longrightarrow> u \<in> set (passed cid es ?s) \<Longrightarrow> t0 + sc_maxAge sc < u"
    using Cons.IH [of ?s] Cons.prems inv by auto
  have unf: "passed cid (e # es) sc =
      (if ev = SCheck cid \<and> fst (runSeen ev t sc) then [t] else []) @ passed cid es ?s"
    by (simp add: e split: prod.splits)
  have "t + sc_maxAge sc < u" if "ev = SCheck cid" "fst (runSeen ev t sc)"
    "u \<in> set (passed cid es ?s)" for u
    using that runSeen_check [of cid t sc] by (intro IH(2)) auto
  moreover have "t0 + sc_maxAge sc < u" if h: "map_of (sc_seen sc) cid = Some t0"
    "u \<in> set (passed cid (e # es) sc)" for t0 u
  proof -
    note v = runSeen_view [OF Cons.prems(1) h(1), of t ev]
    with h(2) unf have u: "u \<in> set (passed cid es ?s)" by (auto split: if_splits)
    from v show ?thesis
    proof (elim conjE disjE)
      assume "map_of (sc_seen ?s) cid = Some t0"
      then show ?thesis using u by (rule IH(2))
    next
      assume "t0 + sc_maxAge sc < t"
      with later [OF u] show ?thesis by linarith
    qed
  qed
  ultimately show ?case using IH(1) unf by (auto simp: sorted_wrt_append)
qed simp

text \<open>
  Replay protection: in any history of checks, marks and clean-ups of a new cache, with a clock
  that does not go back, the same identifier passes \<open>CheckAndMark\<close> again only after more than
  \<open>maxAge\<close> since it last passed.
\<close>

theorem replay_protection:
  assumes "sorted (map fst es)"
  shows "sorted_wrt (\<lambda>t u. t + maxAge < u)
     (acceptedTimes runSeen (\<lambda>ev. ev = SCheck cid) es (newSeenCache maxAge))"
  using passed_spaced [OF _ assms, of "newSeenCache maxAge" cid]
  by (simp add: newSeenCache_def distinctKeys_def)

theorem replay_protection_witness:
  "sorted_wrt (\<lambda>t u. t + 5 < u) (acceptedTimes runSeen (\<lambda>ev. ev = SCheck ''c'')
     [(0, SCheck ''c''), (1, SCheck ''c''), (9, SCleanup), (9, SCheck ''c'')] (newSeenCache 5))"
  by (rule replay_protection) simp

end
