(* ===== verification/Address.thy ===== *)
theory Address
  imports GoLib
begin

unbundle bit_operations_syntax

text \<open>
  Address encoding of \<open>pkg/identity/address.go\<close>: the bech32 checksum, the regrouping of 8-bit
  bytes into 5-bit values and back, and the two public functions \<open>PubKeyToAddress\<close> and
  \<open>AddressToPubKey\<close>. Go's \<open>int\<close> is a 64-bit two's complement integer; it is an \<open>int\<close> here, with
  the wrap-around written out (\<open>goShl\<close>) where a shift can leave the range. The right shift of a
  negative number rounds down in Go and in \<open>drop_bit\<close>.
\<close>

section \<open>Definitions\<close>

definition addressHRP :: string where
  "addressHRP = ''xleaks1''"

definition charset :: string where
  "charset = ''qpzry9x8gf2tvdw0s3jn54khce6mua7l''"

text \<open>The reverse table, filled by the package's \<open>init\<close>.\<close>

definition charsetRev :: "nat \<Rightarrow> int" where
  "charsetRev = fold (\<lambda>(i, c) rev. rev(of_char c := int i)) (enumerate 0 charset) (\<lambda>_. -1)"

definition polymodGen :: "int list" where
  "polymodGen = [0x3b6a57b2, 0x26508e6d, 0x1ea119fa, 0x3d4233dd, 0x2a1462b3]"

definition polymodStep :: "int \<Rightarrow> int \<Rightarrow> int" where
  "polymodStep chk v =
     (let b = drop_bit 25 chk in
      fold (\<lambda>i c. if drop_bit i b AND 1 = 1 then c XOR polymodGen ! i else c) [0..<5]
        (push_bit 5 (chk AND 0x1ffffff) XOR v))"

definition bech32Polymod :: "int list \<Rightarrow> int" where
  "bech32Polymod values = foldl polymodStep 1 values"

definition bech32HRPExpand :: "string \<Rightarrow> int list" where
  "bech32HRPExpand hrp =
     map (\<lambda>c. drop_bit 5 (of_char c)) hrp @ [0] @ map (\<lambda>c. of_char c AND 31) hrp"

definition bech32CreateChecksum :: "string \<Rightarrow> int list \<Rightarrow> int list" where
  "bech32CreateChecksum hrp data =
     (let polymod = bech32Polymod (bech32HRPExpand hrp @ data @ [0, 0, 0, 0, 0, 0]) XOR 1
      in map (\<lambda>i. drop_bit (5 * (5 - i)) polymod AND 31) [0..<6])"

definition bech32VerifyChecksum :: "string \<Rightarrow> int list \<Rightarrow> bool" where
  "bech32VerifyChecksum hrp data \<longleftrightarrow> bech32Polymod (bech32HRPExpand hrp @ data) = 1"

text \<open>The encoder's output loop: a value outside the character set is an error.\<close>

fun encodeChars :: "int list \<Rightarrow> goerr + string" where
  "encodeChars [] = Inr []"
| "encodeChars (d # ds) =
     (if d < 0 \<or> int (length charset) \<le> d then Inl (Err ''invalid data value'')
      else case encodeChars ds of Inl e \<Rightarrow> Inl e | Inr s \<Rightarrow> Inr (charset ! nat d # s))"

definition bech32Encode :: "string \<Rightarrow> bytes \<Rightarrow> goerr + string" where
  "bech32Encode hrp data =
     (let intData = map uint data; combined = intData @ bech32CreateChecksum hrp intData
      in case encodeChars combined of Inl e \<Rightarrow> Inl e | Inr s \<Rightarrow> Inr (hrp @ s))"

definition toLower :: "char \<Rightarrow> char" where
  "toLower c = (let n = (of_char c :: nat) in if 65 \<le> n \<and> n \<le> 90 then char_of (n + 32) else c)"

definition toUpper :: "char \<Rightarrow> char" where
  "toUpper c = (let n = (of_char c :: nat) in if 97 \<le> n \<and> n \<le> 122 then char_of (n - 32) else c)"

text \<open>\<open>strings.LastIndex(s, "1")\<close>, \<open>-1\<close> when absent.\<close>

fun lastIndexOne :: "string \<Rightarrow> int" where
  "lastIndexOne [] = -1"
| "lastIndexOne (c # cs) =
     (let r = lastIndexOne cs in if 0 \<le> r then r + 1 else if c = CHR ''1'' then 0 else -1)"

fun decodeChars :: "string \<Rightarrow> goerr + int list" where
  "decodeChars [] = Inr []"
| "decodeChars (c # cs) =
     (if 127 < (of_char c :: nat) \<or> charsetRev (of_char c) = -1
      then Inl (Err ''invalid bech32 character'')
      else case decodeChars cs of Inl e \<Rightarrow> Inl e | Inr ds \<Rightarrow> Inr (charsetRev (of_char c) # ds))"

definition bech32Decode :: "string \<Rightarrow> goerr + (string \<times> bytes)" where
  "bech32Decode bech0 =
     (if 90 < length bech0 then Inl (Err ''bech32 string too long'')
      else if \<exists>c\<in>set bech0. (of_char c :: nat) < 33 \<or> 126 < (of_char c :: nat)
        then Inl (Err ''invalid character'')
      else let bech = map toLower bech0 in
      if bech \<noteq> bech0 \<and> map toUpper bech0 \<noteq> bech0 then Inl (Err ''mixed case in bech32 string'')
      else let pos = lastIndexOne bech in
      if pos < 1 \<or> int (length bech) < pos + 7 then Inl (Err ''invalid bech32 separator position'')
      else let hrp = take (nat pos + 1) bech; dataStr = drop (nat pos + 1) bech in
      case decodeChars dataStr of
        Inl e \<Rightarrow> Inl e
      | Inr intData \<Rightarrow>
          if \<not> bech32VerifyChecksum hrp intData then Inl (Err ''invalid bech32 checksum'')
          else Inr (hrp, map of_int (take (length intData - 6) intData)))"

subsection \<open>Regrouping of bits\<close>

text \<open>\<open>x << n\<close> on Go's 64-bit \<open>int\<close>.\<close>

definition goShl :: "int \<Rightarrow> nat \<Rightarrow> int" where
  "goShl x n = signed_take_bit 63 (push_bit n x)"

text \<open>
  The inner loop \<open>for bits >= toBits\<close>. The code calls it with \<open>toBits\<close> 5 and 8 only; for
  \<open>toBits = 0\<close>, where Go would loop forever, the model stops.
\<close>

function emitGroups :: "nat \<Rightarrow> int \<Rightarrow> nat \<Rightarrow> bytes \<Rightarrow> nat \<times> bytes" where
  "emitGroups toBits acc bits ret =
     (if 0 < toBits \<and> toBits \<le> bits
      then emitGroups toBits acc (bits - toBits)
             (ret @ [of_int (drop_bit (bits - toBits) acc AND (2 ^ toBits - 1))])
      else (bits, ret))"
  by pat_completeness auto
termination
  by (relation "measure (\<lambda>(toBits, acc, bits, ret). bits)") auto

declare emitGroups.simps [simp del]

fun convertLoop :: "nat \<Rightarrow> nat \<Rightarrow> bytes \<Rightarrow> int \<Rightarrow> nat \<Rightarrow> bytes \<Rightarrow> goerr + (int \<times> nat \<times> bytes)" where
  "convertLoop fromBits toBits [] acc bits ret = Inr (acc, bits, ret)"
| "convertLoop fromBits toBits (b # bs) acc bits ret =
     (if drop_bit fromBits (uint b) \<noteq> 0 then Inl (Err ''invalid data value'')
      else let acc' = goShl acc fromBits OR uint b;
               (bits', ret') = emitGroups toBits acc' (bits + fromBits) ret
           in convertLoop fromBits toBits bs acc' bits' ret')"

definition convertBits :: "bytes \<Rightarrow> nat \<Rightarrow> nat \<Rightarrow> bool \<Rightarrow> goerr + bytes" where
  "convertBits data fromBits toBits pad =
     (let maxv = 2 ^ toBits - 1 in
      case convertLoop fromBits toBits data 0 0 [] of
        Inl e \<Rightarrow> Inl e
      | Inr (acc, bits, ret) \<Rightarrow>
          if pad then
            Inr (if 0 < bits then ret @ [of_int (goShl acc (toBits - bits) AND maxv)] else ret)
          else if fromBits \<le> bits then Inl (Err ''invalid padding'')
          else if goShl acc (toBits - bits) AND maxv \<noteq> 0 then Inl (Err ''non-zero padding'')
          else Inr ret)"

definition PubKeyToAddress :: "bytes \<Rightarrow> goerr + string" where
  "PubKeyToAddress pubkey =
     (if length pubkey \<noteq> 32 then Inl (Err ''public key must be 32 bytes'')
      else case convertBits pubkey 8 5 True of
        Inl e \<Rightarrow> Inl (wrap ''failed to convert bits'' e)
      | Inr data \<Rightarrow> bech32Encode addressHRP data)"

definition AddressToPubKey :: "string \<Rightarrow> goerr + bytes" where
  "AddressToPubKey address =
     (case bech32Decode address of
        Inl e \<Rightarrow> Inl (wrap ''failed to decode bech32 address'' e)
      | Inr (hrp, data) \<Rightarrow>
          if hrp \<noteq> addressHRP then Inl (Err ''invalid address prefix'')
          else case convertBits data 5 8 False of
            Inl e \<Rightarrow> Inl (wrap ''failed to convert bits'' e)
          | Inr decoded \<Rightarrow>
              if length decoded \<noteq> 32 then Inl (Err ''decoded public key must be 32 bytes'')
              else Inr decoded)"

section \<open>Regrouping loses no bit\<close>

text \<open>The \<open>n\<close> low bits of a number, most significant first.\<close>

definition msbBits :: "nat \<Rightarrow> int \<Rightarrow> bool list" where
  "msbBits n x = map (bit x) (rev [0..<n])"

lemma length_msbBits [simp]: "length (msbBits n x) = n"
  by (simp add: msbBits_def)

lemma msbBits_0 [simp]: "msbBits 0 x = []"
  by (simp add: msbBits_def)

lemma msbBits_add: "msbBits (m + n) x = msbBits m (drop_bit n x) @ msbBits n x"
proof -
  have "[0..<m + n] = [0..<n] @ map (\<lambda>i. i + n) [0..<m]"
    by (metis add.commute add_0 map_add_upt upt_add_eq_append zero_le)
  then show ?thesis
    by (simp add: msbBits_def rev_map bit_drop_bit_eq add.commute comp_def)
qed

lemma msbBits_cong: "(\<And>i. i < n \<Longrightarrow> bit x i = bit y i) \<Longrightarrow> msbBits n x = msbBits n y"
  by (simp add: msbBits_def)

lemma msbBits_eqD: "msbBits n x = msbBits n y \<Longrightarrow> i < n \<Longrightarrow> bit x i = bit y i"
  by (auto simp: msbBits_def)

lemma bit_low_mask: "bit (x AND (2 ^ n - 1)) i \<longleftrightarrow> bit x i \<and> i < n" for x :: int
  by (simp add: bit_and_iff mask_eq_exp_minus_1 [symmetric] bit_mask_iff)

lemma bit_uint_of_int: "i < 8 \<Longrightarrow> bit (uint (of_int y :: byte)) i \<longleftrightarrow> bit y i"
  by (simp add: bit_simps)

lemma msbBits_group:
  assumes "t \<le> 8"
  shows "msbBits t (uint (of_int (y AND (2 ^ t - 1)) :: byte)) = msbBits t y"
  using assms by (intro msbBits_cong) (simp add: bit_uint_of_int bit_low_mask)

abbreviation stream :: "nat \<Rightarrow> bytes \<Rightarrow> bool list" where
  "stream t bs \<equiv> concat (map (\<lambda>b. msbBits t (uint b)) bs)"

abbreviation fits :: "nat \<Rightarrow> bytes \<Rightarrow> bool" where
  "fits t bs \<equiv> \<forall>b\<in>set bs. uint b < 2 ^ t"

lemma length_stream [simp]: "length (stream t bs) = t * length bs"
  by (induction bs) simp_all

lemma uint_group_lt:
  assumes "t \<le> 8"
  shows "uint (of_int (y AND (2 ^ t - 1)) :: byte) < 2 ^ t"
proof -
  have "take_bit t y < 2 ^ t" "0 \<le> take_bit t y" by simp_all
  moreover have "(2::int) ^ t \<le> 2 ^ 8" using assms by (intro power_increasing) auto
  ultimately have "take_bit 8 (take_bit t y) < 2 ^ t"
    using assms by (simp add: min_absorb2)
  then show ?thesis
    by (simp add: take_bit_eq_mask [symmetric] mask_eq_exp_minus_1 [symmetric] uint_word_of_int_eq)
qed

lemma emitGroups_spec:
  assumes "0 < t" "t \<le> 8" "fits t ret"
  shows "case emitGroups t acc bits ret of (bits', ret') \<Rightarrow>
    bits' < t \<and> fits t ret' \<and> stream t ret' @ msbBits bits' acc = stream t ret @ msbBits bits acc"
  using assms
proof (induction t acc bits ret rule: emitGroups.induct)
  case (1 t acc bits ret)
  show ?case
  proof (cases "t \<le> bits")
    case True
    let ?g = "of_int (drop_bit (bits - t) acc AND (2 ^ t - 1)) :: byte"
    have fit: "fits t (ret @ [?g])" using "1.prems" by (auto simp: uint_group_lt)
    have IH: "case emitGroups t acc (bits - t) (ret @ [?g]) of (bits', ret') \<Rightarrow>
      bits' < t \<and> fits t ret' \<and>
      stream t ret' @ msbBits bits' acc = stream t (ret @ [?g]) @ msbBits (bits - t) acc"
      by (rule "1.IH") (use True "1.prems" fit in auto)
    have split: "msbBits bits acc = msbBits t (drop_bit (bits - t) acc) @ msbBits (bits - t) acc"
      using msbBits_add [of t "bits - t" acc] True by simp
    have "emitGroups t acc bits ret = emitGroups t acc (bits - t) (ret @ [?g])"
      using True "1.prems" by (simp add: emitGroups.simps [of t acc bits ret])
    with IH "1.prems"(2) split show ?thesis
      by (simp add: msbBits_group)
  next
    case False
    with "1.prems" show ?thesis by (simp add: emitGroups.simps [of t acc bits ret])
  qed
qed

lemma bit_goShl: "i < 63 \<Longrightarrow> bit (goShl x n) i \<longleftrightarrow> n \<le> i \<and> bit x (i - n)"
  by (auto simp: goShl_def bit_signed_take_bit_iff bit_push_bit_iff min_def)

lemma bit_small: "0 \<le> (x::int) \<Longrightarrow> x < 2 ^ n \<Longrightarrow> n \<le> i \<Longrightarrow> \<not> bit x i"
  by (metis bit_take_bit_iff leD take_bit_int_eq_self)

lemma msbBits_push:
  assumes "bits + f \<le> 63" "uint (b::byte) < 2 ^ f"
  shows "msbBits (bits + f) (goShl acc f OR uint b) = msbBits bits acc @ msbBits f (uint b)"
proof -
  have "msbBits bits (drop_bit f (goShl acc f OR uint b)) = msbBits bits acc"
    using assms by (intro msbBits_cong)
      (auto simp: bit_drop_bit_eq bit_or_iff bit_goShl bit_small [OF _ assms(2)])
  moreover have "msbBits f (goShl acc f OR uint b) = msbBits f (uint b)"
    using assms by (intro msbBits_cong) (auto simp: bit_or_iff bit_goShl)
  ultimately show ?thesis by (simp add: msbBits_add)
qed

lemma convertLoop_spec:
  assumes "0 < t" "t \<le> 8" "f \<le> 8" "bits < t" "fits f data" "fits t ret"
  shows "\<exists>acc' bits' ret'. convertLoop f t data acc bits ret = Inr (acc', bits', ret') \<and>
    bits' < t \<and> fits t ret' \<and>
    stream t ret' @ msbBits bits' acc' = stream t ret @ msbBits bits acc @ stream f data"
  using assms(4-6)
proof (induction data arbitrary: acc bits ret)
  case (Cons b data)
  let ?acc = "goShl acc f OR uint b"
  obtain bits1 ret1 where em: "emitGroups t ?acc (bits + f) ret = (bits1, ret1)"
    by (metis surj_pair)
  have em1: "bits1 < t" "fits t ret1"
    "stream t ret1 @ msbBits bits1 ?acc = stream t ret @ msbBits (bits + f) ?acc"
    using emitGroups_spec [OF assms(1,2) Cons.prems(3), of ?acc "bits + f"] em by auto
  obtain acc' bits' ret' where IH: "convertLoop f t data ?acc bits1 ret1 = Inr (acc', bits', ret')"
    "bits' < t" "fits t ret'"
    "stream t ret' @ msbBits bits' acc' = stream t ret1 @ msbBits bits1 ?acc @ stream f data"
    using Cons.IH [OF em1(1) _ em1(2), of ?acc] Cons.prems(2) by auto
  have b: "uint b < 2 ^ f" using Cons.prems(2) by simp
  have "drop_bit f (uint b) = 0" using b by (simp add: drop_bit_eq_div)
  moreover have "msbBits (bits + f) ?acc = msbBits bits acc @ msbBits f (uint b)"
    using Cons.prems(1) assms(2,3) b by (intro msbBits_push) auto
  ultimately show ?case
    using IH em em1(3) by (auto simp flip: append_assoc)
qed simp


lemma msbBits_8_inject: "msbBits 8 (uint (a::byte)) = msbBits 8 (uint b) \<Longrightarrow> a = b"
proof (rule bit_word_eqI)
  fix n assume eq: "msbBits 8 (uint a) = msbBits 8 (uint b)" and "n < LENGTH(8)"
  then have "n < 8" by simp
  with msbBits_eqD [OF eq this] show "bit a n \<longleftrightarrow> bit b n" by (simp add: bit_uint_iff)
qed

lemma stream_8_inject:
  "stream 8 xs @ u = stream 8 ys @ v \<Longrightarrow> length xs = length ys \<Longrightarrow> xs = ys \<and> u = v"
proof (induction xs arbitrary: ys)
  case (Cons x xs)
  then obtain y ys' where ys: "ys = y # ys'" by (cases ys) auto
  with Cons.prems have "msbBits 8 (uint x) @ (stream 8 xs @ u) = msbBits 8 (uint y) @ (stream 8 ys' @ v)"
    by simp
  then have "msbBits 8 (uint x) = msbBits 8 (uint y)" "stream 8 xs @ u = stream 8 ys' @ v"
    by (simp_all add: append_eq_append_conv)
  with Cons ys show ?case by (auto dest: msbBits_8_inject)
qed simp

lemma fits_8: "fits 8 bs"
  using uint_lt2p [where 'a = 8] by auto

text \<open>The padded last group carries the remaining bits followed by zeros.\<close>

lemma msbBits_pad:
  assumes "0 < bits" "bits < t" "t \<le> 8"
  shows "msbBits t (uint (of_int (goShl acc (t - bits) AND (2 ^ t - 1)) :: byte)) =
    msbBits bits acc @ replicate (t - bits) False"
proof -
  have "msbBits t (goShl acc (t - bits)) =
      msbBits bits (drop_bit (t - bits) (goShl acc (t - bits))) @ msbBits (t - bits) (goShl acc (t - bits))"
    using msbBits_add [of bits "t - bits" "goShl acc (t - bits)"] assms by simp
  moreover have "msbBits bits (drop_bit (t - bits) (goShl acc (t - bits))) = msbBits bits acc"
    using assms by (intro msbBits_cong) (auto simp: bit_drop_bit_eq bit_goShl)
  moreover have "msbBits (t - bits) (goShl acc (t - bits)) = replicate (t - bits) False"
    using assms by (auto simp: msbBits_def bit_goShl intro!: nth_equalityI simp: rev_nth)
  ultimately show ?thesis using assms by (simp add: msbBits_group)
qed

lemma convertBits_pad:
  assumes "0 < t" "t \<le> 8" "f \<le> 8" "fits f data"
  shows "\<exists>d k. convertBits data f t True = Inr d \<and> fits t d \<and> k < t \<and>
    stream t d = stream f data @ replicate k False"
proof -
  obtain acc bits ret where l: "convertLoop f t data 0 0 [] = Inr (acc, bits, ret)" "bits < t"
    "fits t ret" "stream t ret @ msbBits bits acc = stream f data"
    using convertLoop_spec [OF assms(1-3), of 0 data "[]" 0] assms by auto
  show ?thesis
  proof (cases "bits = 0")
    case True
    with l show ?thesis
      by (intro exI [of _ ret] exI [of _ 0]) (auto simp: convertBits_def assms(1))
  next
    case False
    let ?g = "of_int (goShl acc (t - bits) AND (2 ^ t - 1)) :: byte"
    have "stream t (ret @ [?g]) = stream f data @ replicate (t - bits) False"
      using l False assms by (simp add: msbBits_pad flip: append_assoc)
    moreover have "fits t (ret @ [?g])" using l assms by (auto simp: uint_group_lt)
    ultimately show ?thesis using l False
      by (intro exI [of _ "ret @ [?g]"] exI [of _ "t - bits"]) (simp add: convertBits_def)
  qed
qed

lemma low_bits_zero:
  assumes "msbBits n x = replicate n False" "n \<le> 8"
  shows "goShl x (8 - n) AND (2 ^ 8 - 1) = 0"
proof (rule bit_eqI)
  fix i
  have "\<not> bit x j" if "j < n" for j
  proof -
    have "bit x j \<in> set (msbBits n x)" using that by (auto simp: msbBits_def)
    then show ?thesis by (simp add: assms(1))
  qed
  then have "\<not> (bit (goShl x (8 - n)) i \<and> i < 8)"
    using assms(2) by (auto simp: bit_goShl)
  then show "bit (goShl x (8 - n) AND (2 ^ 8 - 1)) i = bit (0::int) i"
    by (simp only: bit_low_mask bit_0_eq bot_apply bot_bool_def)
qed

text \<open>Converting 5-bit groups of a padded byte stream back yields the bytes.\<close>

lemma convertBits_unpad:
  assumes "fits 5 d" "stream 5 d = stream 8 bs @ replicate k False" "k < 5"
  shows "convertBits d 5 8 False = Inr bs"
proof -
  obtain acc bits ret where l: "convertLoop 5 8 d 0 0 [] = Inr (acc, bits, ret)" "bits < 8"
    "stream 8 ret @ msbBits bits acc = stream 8 bs @ replicate k False"
    using convertLoop_spec [of 8 5 0 d "[]" 0] assms by auto
  from arg_cong [OF l(3), of length] have "8 * length ret + bits = 8 * length bs + k"
    by simp
  with l(2) assms(3) have "length ret = length bs" by linarith
  with stream_8_inject [OF l(3)] have "ret = bs" "msbBits bits acc = replicate k False"
    by auto
  moreover from this have "bits = k" by (metis length_msbBits length_replicate)
  ultimately show ?thesis
    using l(1) assms(3) low_bits_zero [of k acc] by (simp add: convertBits_def)
qed

lemma convertBits_roundtrip:
  "\<exists>d. convertBits bs 8 5 True = Inr d \<and> fits 5 d \<and> convertBits d 5 8 False = Inr bs \<and>
     8 * length bs \<le> 5 * length d \<and> 5 * length d < 8 * length bs + 5"
proof -
  obtain d k where d: "convertBits bs 8 5 True = Inr d" "fits 5 d" "k < 5"
    "stream 5 d = stream 8 bs @ replicate k False"
    using convertBits_pad [of 5 8 bs] fits_8 [of bs] by auto
  from arg_cong [OF d(4), of length] have "5 * length d = 8 * length bs + k" by simp
  with d convertBits_unpad [OF d(2,4,3)] show ?thesis by auto
qed

section \<open>The checksum\<close>

definition genSum :: "int \<Rightarrow> int" where
  "genSum b = fold (\<lambda>i c. if drop_bit i b AND 1 = 1 then c XOR polymodGen ! i else c) [0..<5] 0"

lemma fold_xor_shift:
  "fold (\<lambda>i c. if P i then c XOR g i else c) xs (x XOR y) =
   x XOR fold (\<lambda>i c. if P i then c XOR g i else c) xs (y::int)"
  by (induction xs arbitrary: y) (simp_all add: xor.assoc)

lemma polymodStep_eq:
  "polymodStep c v = push_bit 5 (c AND 0x1ffffff) XOR v XOR genSum (drop_bit 25 c)"
  using fold_xor_shift [of "\<lambda>i. drop_bit i (drop_bit 25 c) AND 1 = 1" "\<lambda>i. polymodGen ! i"
      "[0..<5]" "push_bit 5 (c AND 0x1ffffff) XOR v" 0]
  by (simp add: polymodStep_def genSum_def xor.assoc)

lemma mask25: "(x::int) AND 0x1ffffff = take_bit 25 x"
  by (simp add: take_bit_eq_mask mask_eq_exp_minus_1)

lemma drop_bit_small: "0 \<le> (a::int) \<Longrightarrow> a < 2 ^ n \<Longrightarrow> drop_bit n a = 0"
  by (simp add: drop_bit_eq_div)

text \<open>The checksum register is linear in its low 25 bits.\<close>

lemma polymodStep_xor:
  assumes "0 \<le> a" "a < 2 ^ 25"
  shows "polymodStep (c XOR a) v = polymodStep c 0 XOR (push_bit 5 a XOR v)"
proof -
  have "drop_bit 25 (c XOR a) = drop_bit 25 c"
    using drop_bit_small [OF assms] by simp
  moreover have "(c XOR a) AND 0x1ffffff = (c AND 0x1ffffff) XOR a"
    using assms by (simp only: mask25 take_bit_xor) (simp add: take_bit_int_eq_self)
  ultimately show ?thesis
    by (simp add: polymodStep_eq push_bit_xor ac_simps)
qed

fun pack :: "int \<Rightarrow> int list \<Rightarrow> int" where
  "pack t [] = t"
| "pack t (a # as) = pack (push_bit 5 t XOR a) as"

lemma xor_bounds: "0 \<le> (a::int) \<Longrightarrow> a < 2 ^ n \<Longrightarrow> 0 \<le> b \<Longrightarrow> b < 2 ^ n \<Longrightarrow> 0 \<le> a XOR b \<and> a XOR b < 2 ^ n"
  by (metis take_bit_int_eq_self take_bit_int_eq_self_iff take_bit_xor)

lemma foldl_polymodStep_pack:
  assumes "0 \<le> t" "t < 2 ^ (5 * k)" "k + length as \<le> 6" "\<forall>a\<in>set as. 0 \<le> a \<and> a < 32"
  shows "foldl polymodStep (c XOR t) as = foldl polymodStep c (replicate (length as) 0) XOR pack t as"
  using assms
proof (induction as arbitrary: c t k)
  case (Cons a as)
  have "(2::int) ^ (5 * k) \<le> 2 ^ 25" using Cons.prems(3) by (intro power_increasing) auto
  then have step: "polymodStep (c XOR t) a = polymodStep c 0 XOR (push_bit 5 t XOR a)"
    using Cons.prems by (intro polymodStep_xor) auto
  have "0 \<le> push_bit 5 t" "push_bit 5 t < 2 ^ (5 * Suc k)"
    using Cons.prems(1,2) by (simp_all add: push_bit_eq_mult power_add)
  moreover have "0 \<le> a" "a < 2 ^ (5 * Suc k)"
    using Cons.prems(4) power_increasing [of 5 "5 * Suc k" "2::int"] by auto
  ultimately have "0 \<le> push_bit 5 t XOR a" "push_bit 5 t XOR a < 2 ^ (5 * Suc k)"
    using xor_bounds by blast+
  then have "foldl polymodStep (polymodStep c 0 XOR (push_bit 5 t XOR a)) as =
      foldl polymodStep (polymodStep c 0) (replicate (length as) 0) XOR pack (push_bit 5 t XOR a) as"
    using Cons.prems by (intro Cons.IH [of _ "Suc k"]) auto
  with step show ?case by simp
qed simp

lemma genSum_bounds: "0 \<le> genSum b \<and> genSum b < 2 ^ 30"
proof -
  have "\<forall>i\<in>set [0..<5]. 0 \<le> polymodGen ! i \<and> polymodGen ! i < 2 ^ 30"
    by code_simp
  then have "0 \<le> fold (\<lambda>i c. if P i then c XOR polymodGen ! i else c) xs x \<and>
      fold (\<lambda>i c. if P i then c XOR polymodGen ! i else c) xs x < 2 ^ 30"
    if "set xs \<subseteq> set [0..<5]" "0 \<le> x" "x < 2 ^ 30" for P xs and x :: int
    using that
  proof (induction xs arbitrary: x)
    case (Cons i xs)
    then have "0 \<le> x XOR polymodGen ! i \<and> x XOR polymodGen ! i < 2 ^ 30"
      by (intro xor_bounds) auto
    with Cons show ?case by simp
  qed simp
  from this [of "[0..<5]" 0] show ?thesis by (simp add: genSum_def)
qed

lemma polymodStep_bounds:
  assumes "0 \<le> v" "v < 2 ^ 30"
  shows "0 \<le> polymodStep c v \<and> polymodStep c v < 2 ^ 30"
proof -
  have "take_bit 25 c < 2 ^ 25" "0 \<le> take_bit 25 c" by (rule take_bit_int_less_exp) simp
  then have "0 \<le> push_bit 5 (c AND 0x1ffffff)" "push_bit 5 (c AND 0x1ffffff) < 2 ^ 30"
    by (simp_all only: mask25) (simp_all add: push_bit_eq_mult)
  with assms genSum_bounds [of "drop_bit 25 c"] show ?thesis
    unfolding polymodStep_eq by (meson xor_bounds)
qed

lemma foldl_polymodStep_bounds:
  assumes "\<forall>v\<in>set vs. 0 \<le> v \<and> v < 2 ^ 30" "0 \<le> c" "c < 2 ^ 30"
  shows "0 \<le> foldl polymodStep c vs \<and> foldl polymodStep c vs < 2 ^ 30"
  using assms
proof (induction vs arbitrary: c)
  case (Cons v vs)
  then show ?case using polymodStep_bounds [of v c] by simp
qed simp

lemma push_drop_digit:
  "push_bit 5 (drop_bit (n + 5) x) XOR (drop_bit n x AND 31) = drop_bit n (x::int)"
proof (rule bit_eqI)
  fix i
  have "bit (31::int) i \<longleftrightarrow> i < 5" using bit_low_mask [of "-1" 5 i] by simp
  then show "bit (push_bit 5 (drop_bit (n + 5) x) XOR (drop_bit n x AND 31)) i = bit (drop_bit n x) i"
    by (auto simp: bit_xor_iff bit_and_iff bit_push_bit_iff bit_drop_bit_eq ac_simps)
qed

lemma pack_digits:
  assumes "0 \<le> x" "x < 2 ^ 30"
  shows "pack 0 (map (\<lambda>i. drop_bit (5 * (5 - i)) x AND 31) [0..<6]) = x"
proof -
  have "[0..<6] = [0, 1, 2, 3, 4, 5::nat]" by (simp add: upt_rec)
  moreover have "drop_bit 30 x = 0" using assms by (intro drop_bit_small) auto
  ultimately show ?thesis
    using push_drop_digit [of 25 x] push_drop_digit [of 20 x] push_drop_digit [of 15 x]
      push_drop_digit [of 10 x] push_drop_digit [of 5 x] push_drop_digit [of 0 x]
    by simp
qed

lemma of_char_int_bounds: "0 \<le> (of_char c :: int) \<and> (of_char c :: int) < 256"
  by (metis of_char_mod_256 pos_mod_bound pos_mod_sign zero_less_numeral)

lemma hrpExpand_bounds: "\<forall>v\<in>set (bech32HRPExpand hrp). 0 \<le> v \<and> v < 2 ^ 30"
proof -
  have "0 \<le> drop_bit 5 (of_char c :: int) \<and> drop_bit 5 (of_char c :: int) < 2 ^ 30" for c :: char
    using of_char_int_bounds [of c] by (simp add: drop_bit_eq_div) linarith
  moreover have "0 \<le> of_char c AND (31::int) \<and> of_char c AND (31::int) < 2 ^ 30" for c :: char
    by (rule conjI, simp, rule order.strict_trans1 [OF AND_upper2]) auto
  ultimately show ?thesis by (auto simp: bech32HRPExpand_def)
qed

text \<open>A checksum made by \<open>bech32CreateChecksum\<close> is accepted by \<open>bech32VerifyChecksum\<close>.\<close>

lemma checksum_verifies:
  assumes "\<forall>d\<in>set data. 0 \<le> d \<and> d < 32"
  shows "bech32VerifyChecksum hrp (data @ bech32CreateChecksum hrp data)"
proof -
  let ?c = "foldl polymodStep 1 (bech32HRPExpand hrp @ data)"
  let ?p = "foldl polymodStep ?c (replicate 6 0) XOR 1"
  let ?cs = "map (\<lambda>i. drop_bit (5 * (5 - i)) ?p AND 31) [0..<6]"
  have rep: "replicate 6 (0::int) = [0, 0, 0, 0, 0, 0]" by (simp add: numeral_eq_Suc)
  have cs: "bech32CreateChecksum hrp data = ?cs"
    by (simp add: bech32CreateChecksum_def bech32Polymod_def rep)
  have "\<forall>v\<in>set (bech32HRPExpand hrp @ data @ replicate 6 0). 0 \<le> v \<and> v < 2 ^ 30"
    using hrpExpand_bounds [of hrp] assms by auto
  from foldl_polymodStep_bounds [OF this, of 1]
  have "0 \<le> foldl polymodStep ?c (replicate 6 0)" "foldl polymodStep ?c (replicate 6 0) < 2 ^ 30"
    by simp_all
  then have p: "0 \<le> ?p" "?p < 2 ^ 30"
    using xor_bounds [of "foldl polymodStep ?c (replicate 6 0)" 30 1] by auto
  have "\<forall>a\<in>set ?cs. 0 \<le> a \<and> a < 32"
    by (auto simp: order.strict_trans1 [OF AND_upper2])
  then have "foldl polymodStep (?c XOR 0) ?cs = foldl polymodStep ?c (replicate 6 0) XOR pack 0 ?cs"
    using foldl_polymodStep_pack [of 0 0 ?cs ?c] by simp
  also have "pack 0 ?cs = ?p" using p by (rule pack_digits)
  finally show ?thesis
    by (simp add: bech32VerifyChecksum_def bech32Polymod_def cs flip: xor.assoc)
qed

section \<open>Encoding and decoding of addresses\<close>

lemma fold_upd_notin:
  "(\<forall>x\<in>set xs. k x \<noteq> y) \<Longrightarrow> fold (\<lambda>(i, c) rev. rev(k c := int i)) (enumerate n xs) r y = r y"
  by (induction xs arbitrary: n r) auto

lemma fold_upd_enumerate:
  "distinct (map k xs) \<Longrightarrow> i < length xs \<Longrightarrow>
   fold (\<lambda>(i, c) rev. rev(k c := int i)) (enumerate n xs) r (k (xs ! i)) = int (n + i)"
proof (induction xs arbitrary: n r i)
  case (Cons x xs)
  show ?case
  proof (cases i)
    case 0
    have "\<forall>z\<in>set xs. k z \<noteq> k x" using Cons.prems(1) by (metis distinct.simps(2) image_eqI list.map(2) list.set_map)
    with 0 fold_upd_notin [of xs k "k x" "Suc n" "r(k x := int n)"] show ?thesis
      by (simp del: fun_upd_apply add: fun_upd_same)
  next
    case (Suc j)
    with Cons.IH [of j "Suc n"] Cons.prems show ?thesis by simp
  qed
qed simp

lemma distinct_charset: "distinct charset"
  by (simp add: charset_def)

lemma length_charset: "length charset = 32"
  by (simp add: charset_def)

lemma charset_chars:
  "\<forall>c\<in>set charset. c \<noteq> CHR ''1'' \<and> 33 \<le> (of_char c :: nat) \<and> (of_char c :: nat) \<le> 126 \<and> toLower c = c"
  by (simp add: charset_def toLower_def)

lemma charset_facts:
  assumes "i < 32"
  shows "charsetRev (of_char (charset ! i)) = int i" "charset ! i \<noteq> CHR ''1''"
    "33 \<le> (of_char (charset ! i) :: nat)" "(of_char (charset ! i) :: nat) \<le> 126"
    "toLower (charset ! i) = charset ! i"
proof -
  have "distinct (map (of_char :: char \<Rightarrow> nat) charset)"
    using distinct_charset by (simp add: distinct_map inj_on_def)
  from fold_upd_enumerate [OF this, of i 0 "\<lambda>_. -1"] assms
  show "charsetRev (of_char (charset ! i)) = int i"
    by (simp add: charsetRev_def length_charset)
  have "charset ! i \<in> set charset" using assms length_charset by simp
  with charset_chars show "charset ! i \<noteq> CHR ''1''" "33 \<le> (of_char (charset ! i) :: nat)"
    "(of_char (charset ! i) :: nat) \<le> 126" "toLower (charset ! i) = charset ! i"
    by blast+
qed

lemma hrp_facts:
  "\<forall>c\<in>set addressHRP. 33 \<le> (of_char c :: nat) \<and> (of_char c :: nat) \<le> 126 \<and> toLower c = c"
  by (simp add: addressHRP_def toLower_def)

abbreviation five_bit :: "int list \<Rightarrow> bool" where
  "five_bit ds \<equiv> \<forall>d\<in>set ds. 0 \<le> d \<and> d < 32"

lemma encodeChars_ok: "five_bit ds \<Longrightarrow> encodeChars ds = Inr (map (\<lambda>d. charset ! nat d) ds)"
  by (induction ds) (simp_all add: length_charset)

lemma decodeChars_ok:
  "five_bit ds \<Longrightarrow> decodeChars (map (\<lambda>d. charset ! nat d) ds) = Inr ds"
proof (induction ds)
  case (Cons d ds)
  then have "nat d < 32" by auto
  with charset_facts [OF this] Cons show ?case by (simp add: leD)
qed simp

lemma encoded_chars:
  assumes "five_bit ds" "c \<in> set (map (\<lambda>d. charset ! nat d) ds)"
  shows "c \<noteq> CHR ''1'' \<and> 33 \<le> (of_char c :: nat) \<and> (of_char c :: nat) \<le> 126 \<and> toLower c = c"
proof -
  obtain d where "d \<in> set ds" and c: "c = charset ! nat d" using assms(2) by auto
  with assms(1) have "nat d < length charset" by (auto simp: length_charset)
  with c have "c \<in> set charset" by simp
  with charset_chars show ?thesis by blast
qed

lemma lastIndexOne_none: "CHR ''1'' \<notin> set s \<Longrightarrow> lastIndexOne s = -1"
  by (induction s) auto

lemma lastIndexOne_append:
  "CHR ''1'' \<notin> set s \<Longrightarrow> lastIndexOne (p @ CHR ''1'' # s) = int (length p)"
  by (induction p) (simp_all add: lastIndexOne_none Let_def)

lemma lastIndexOne_hrp: "CHR ''1'' \<notin> set s \<Longrightarrow> lastIndexOne (addressHRP @ s) = 6"
  using lastIndexOne_append [of s "''xleaks''"] by (simp add: addressHRP_def del: lastIndexOne.simps)

lemma five_bit_checksum: "five_bit (bech32CreateChecksum hrp data)"
  by (auto simp: bech32CreateChecksum_def Let_def order.strict_trans1 [OF AND_upper2])

lemma length_checksum [simp]: "length (bech32CreateChecksum hrp data) = 6"
  by (simp add: bech32CreateChecksum_def Let_def)

lemma bech32_roundtrip:
  assumes "fits 5 data" "length data \<le> 77"
  shows "\<exists>s. bech32Encode addressHRP data = Inr s \<and> bech32Decode s = Inr (addressHRP, data) \<and>
    length s = 13 + length data \<and> HasPrefix s addressHRP"
proof -
  let ?i = "map uint data"
  let ?ds = "?i @ bech32CreateChecksum addressHRP ?i"
  let ?enc = "map (\<lambda>d. charset ! nat d) ?ds"
  have five: "five_bit ?i" using assms(1) by auto
  have fds: "five_bit ?ds" using five five_bit_checksum by auto
  have enc: "bech32Encode addressHRP data = Inr (addressHRP @ ?enc)"
    using encodeChars_ok [OF fds] by (simp add: bech32Encode_def Let_def)
  have one: "CHR ''1'' \<notin> set ?enc"
    and lows: "\<forall>c\<in>set ?enc. 33 \<le> (of_char c :: nat) \<and> (of_char c :: nat) \<le> 126 \<and> toLower c = c"
    using encoded_chars [OF fds] by blast+
  let ?s = "addressHRP @ ?enc"
  have ok: "\<forall>c\<in>set ?s. 33 \<le> (of_char c :: nat) \<and> (of_char c :: nat) \<le> 126 \<and> toLower c = c"
    using lows hrp_facts by (auto simp del: map_append)
  then have low: "map toLower ?s = ?s" by (intro map_idI) blast
  have pos: "lastIndexOne ?s = 6" using one by (rule lastIndexOne_hrp)
  have len: "length ?s = 13 + length data" by (simp add: addressHRP_def)
  have tk: "take (nat 6 + 1) ?s = addressHRP" "drop (nat 6 + 1) ?s = ?enc"
    by (simp_all add: addressHRP_def)
  have bad: "\<not> (\<exists>c\<in>set ?s. (of_char c :: nat) < 33 \<or> 126 < (of_char c :: nat))"
    using ok by (meson leD)
  have "map of_int (take (length ?ds - 6) ?ds) = data"
    by (simp add: comp_def)
  then have "bech32Decode ?s = Inr (addressHRP, data)"
    using len assms(2) bad low pos tk decodeChars_ok [OF fds] checksum_verifies [OF five, of addressHRP]
    unfolding bech32Decode_def Let_def by (simp del: map_append)
  with enc len show ?thesis by auto
qed

text \<open>
  C15. Every 32-byte public key has an address: \<open>PubKeyToAddress\<close> succeeds on it with a string of 65
  characters that starts with the prefix \<open>xleaks1\<close>, and \<open>AddressToPubKey\<close> decodes that string to
  the same key. The encoder and the decoder of addresses are inverse on all keys.
\<close>

theorem address_roundtrip:
  assumes "length pubkey = 32"
  shows "\<exists>address. PubKeyToAddress pubkey = Inr address \<and> AddressToPubKey address = Inr pubkey \<and>
    length address = 65 \<and> HasPrefix address addressHRP"
proof -
  obtain d where d: "convertBits pubkey 8 5 True = Inr d" "fits 5 d"
    "convertBits d 5 8 False = Inr pubkey" "256 \<le> 5 * length d" "5 * length d < 261"
    using convertBits_roundtrip [of pubkey] assms by auto
  then have len: "length d = 52" by linarith
  obtain s where "bech32Encode addressHRP d = Inr s" "bech32Decode s = Inr (addressHRP, d)"
    "length s = 13 + length d" "HasPrefix s addressHRP"
    using bech32_roundtrip [OF d(2)] len by auto
  with d assms len show ?thesis
    by (auto simp: PubKeyToAddress_def AddressToPubKey_def)
qed

theorem address_roundtrip_witness:
  "length (replicate 32 (7::byte)) = 32 \<and>
   (\<exists>address. PubKeyToAddress (replicate 32 7) = Inr address \<and>
      AddressToPubKey address = Inr (replicate 32 7) \<and>
      length address = 65 \<and> HasPrefix address addressHRP)"
  using address_roundtrip [of "replicate 32 7"] by simp

end
