(* ===== verification/Chunking.thy ===== *)
theory Chunking
  imports GoLib
begin

text \<open>
  Content identifiers and media chunks: \<open>pkg/content/cid.go\<close>, \<open>chunker.go\<close>, \<open>assembler.go\<close> and
  \<open>image_limits.go\<close>. The multihash package is not part of the repository; \<open>mh.Sum(_, SHA2_256, -1)\<close>
  and the validity test \<open>mh.Decode\<close> are the parameters \<open>mhSum\<close> and \<open>mhDecode\<close> of the definitions that
  call them. A reader is the bytes it still delivers and the error it ends with, if any.
\<close>

section \<open>Content identifiers\<close>

type_synonym mh_sum = "bytes \<Rightarrow> goerr + bytes"

definition ComputeCID :: "mh_sum \<Rightarrow> bytes \<Rightarrow> goerr + bytes" where
  "ComputeCID mhSum data = (case mhSum data of
      Inl e \<Rightarrow> Inl (wrap ''failed to compute multihash'' e)
    | Inr hash \<Rightarrow> Inr hash)"

definition CIDToHex :: "bytes \<Rightarrow> string" where
  "CIDToHex cid = EncodeToString cid"

definition HexToCID :: "(bytes \<Rightarrow> bool) \<Rightarrow> string \<Rightarrow> goerr + bytes" where
  "HexToCID mhDecode h = (case DecodeString h of
      Inl e \<Rightarrow> Inl (wrap ''invalid hex string'' e)
    | Inr b \<Rightarrow> if mhDecode b then Inr b
              else Inl (Err ''decoded bytes are not a valid multihash''))"

definition ValidateCID :: "mh_sum \<Rightarrow> bytes \<Rightarrow> bytes \<Rightarrow> bool" where
  "ValidateCID mhSum cid data = (case ComputeCID mhSum data of
      Inl _ \<Rightarrow> False
    | Inr computed \<Rightarrow> cid = computed)"

section \<open>Chunks\<close>

definition supportedMediaTypes :: "string list" where
  "supportedMediaTypes =
     [''image/jpeg'', ''image/png'', ''image/webp'', ''image/gif'', ''video/mp4'', ''video/webm'',
      ''audio/mpeg'', ''audio/ogg'', ''audio/wav'']"

definition ValidateMediaType :: "string \<Rightarrow> goerr option" where
  "ValidateMediaType mimeType =
     (if mimeType \<in> set supportedMediaTypes then None else Some (Err ''unsupported media type''))"

definition ChunkSize :: nat where "ChunkSize = 262144"

definition MaxMediaSize :: nat where "MaxMediaSize = 100 * 1024 * 1024"

record Chunk =
  c_CID :: bytes
  c_Index :: nat
  c_Data :: bytes

text \<open>The loop of \<open>ChunkFile\<close>, from offset \<open>i\<close> with the chunks made so far.\<close>

function chunkFileLoop :: "mh_sum \<Rightarrow> bytes \<Rightarrow> nat \<Rightarrow> Chunk list \<Rightarrow> goerr + Chunk list" where
  "chunkFileLoop mhSum data i chunks =
     (if i < length data then
        let end = min (i + ChunkSize) (length data);
            chunkData = take (end - i) (drop i data)
        in case ComputeCID mhSum chunkData of
             Inl e \<Rightarrow> Inl (wrap ''failed to compute CID for chunk'' e)
           | Inr cid \<Rightarrow>
               chunkFileLoop mhSum data (i + ChunkSize)
                 (chunks @ [\<lparr>c_CID = cid, c_Index = length chunks, c_Data = chunkData\<rparr>])
      else Inr chunks)"
  by pat_completeness auto
termination
  by (relation "measure (\<lambda>(s, data, i, cs). length data - i)") (auto simp: ChunkSize_def)

declare chunkFileLoop.simps [simp del]

definition ChunkFile :: "mh_sum \<Rightarrow> bytes \<Rightarrow> goerr + Chunk list" where
  "ChunkFile mhSum data =
     (if length data = 0 then Inl (Err ''cannot chunk empty data'')
      else if MaxMediaSize < length data then Inl (Err ''data exceeds maximum media size'')
      else chunkFileLoop mhSum data 0 [])"

subsection \<open>Chunking a stream\<close>

record reader =
  r_data :: bytes
  r_err :: "goerr option"

datatype readErr = EOF | UnexpectedEOF | ReadFailed goerr

text \<open>
  \<open>io.ReadFull\<close> with a buffer of \<open>k\<close> bytes: what was read, how it ended, the reader left. A reader may itself
  end with \<open>io.ErrUnexpectedEOF\<close>, as one over a connection that breaks off does; the callers cannot tell it
  from the end of the data within a buffer.
\<close>

definition ErrUnexpectedEOF :: goerr where
  "ErrUnexpectedEOF = Err ''unexpected EOF''"

definition ReadFull :: "nat \<Rightarrow> reader \<Rightarrow> bytes \<times> readErr option \<times> reader" where
  "ReadFull k r =
     (if k \<le> length (r_data r) then (take k (r_data r), None, r\<lparr>r_data := drop k (r_data r)\<rparr>)
      else (r_data r,
            Some (case r_err r of
                Some e \<Rightarrow> if e = ErrUnexpectedEOF then UnexpectedEOF else ReadFailed e
              | None \<Rightarrow> if r_data r = [] then EOF else UnexpectedEOF),
            r\<lparr>r_data := []\<rparr>))"

function chunkReaderLoop ::
  "mh_sum \<Rightarrow> reader \<Rightarrow> Chunk list \<Rightarrow> nat \<Rightarrow> nat \<Rightarrow> goerr + Chunk list" where
  "chunkReaderLoop mhSum r chunks totalRead index =
     (case ReadFull ChunkSize r of (buf, err, r') \<Rightarrow>
        let step =
          (if 0 < length buf then
             let total' = totalRead + length buf in
             if MaxMediaSize < total' then Inl (Err ''data exceeds maximum media size'')
             else case ComputeCID mhSum buf of
                 Inl e \<Rightarrow> Inl (wrap ''failed to compute CID for chunk'' e)
               | Inr cid \<Rightarrow> Inr (chunks @ [\<lparr>c_CID = cid, c_Index = index, c_Data = buf\<rparr>],
                                total', index + 1)
           else Inr (chunks, totalRead, index))
        in case step of
             Inl e \<Rightarrow> Inl e
           | Inr (chunks', total', index') \<Rightarrow>
               (case err of
                  Some EOF \<Rightarrow> Inr chunks'
                | Some UnexpectedEOF \<Rightarrow> Inr chunks'
                | Some (ReadFailed e) \<Rightarrow> Inl (wrap ''failed to read data'' e)
                | None \<Rightarrow> chunkReaderLoop mhSum r' chunks' total' index'))"
  by pat_completeness auto
termination
  by (relation "measure (\<lambda>(s, r, cs, n, i). length (r_data r))")
     (auto simp: ReadFull_def ChunkSize_def split: if_splits)

declare chunkReaderLoop.simps [simp del]

definition ChunkReader :: "mh_sum \<Rightarrow> reader \<Rightarrow> goerr + Chunk list" where
  "ChunkReader mhSum r = (case chunkReaderLoop mhSum r [] 0 0 of
      Inl e \<Rightarrow> Inl e
    | Inr chunks \<Rightarrow> if length chunks = 0 then Inl (Err ''cannot chunk empty data'') else Inr chunks)"

section \<open>Reassembly\<close>

text \<open>
  \<open>sort.Slice\<close> leaves the order of equal keys open; the model sorts stably. Two chunks with equal
  index make the contiguity check fail, so the choice never shows in a result.
\<close>

definition AssembleChunks :: "Chunk list \<Rightarrow> goerr + bytes" where
  "AssembleChunks chunks =
     (if length chunks = 0 then Inl (Err ''no chunks to assemble'')
      else let sorted = sort_key c_Index chunks in
      if \<exists>i<length sorted. c_Index (sorted ! i) \<noteq> i then Inl (Err ''missing chunk at index'')
      else Inr (concat (map c_Data sorted)))"

fun ValidateChunks :: "mh_sum \<Rightarrow> Chunk list \<Rightarrow> goerr option" where
  "ValidateChunks mhSum [] = None"
| "ValidateChunks mhSum (c # cs) =
     (if \<not> ValidateCID mhSum (c_CID c) (c_Data c) then Some (Err ''chunk CID mismatch'')
      else ValidateChunks mhSum cs)"

section \<open>Image limits\<close>

definition MaxImageWidth :: int where "MaxImageWidth = 12000"
definition MaxImageHeight :: int where "MaxImageHeight = 12000"
definition MaxImagePixels :: int where "MaxImagePixels = 40000000"

text \<open>
  The product is taken in \<open>int64\<close>; the wrap-around is written out, and the bound on the two factors
  checked before makes it harmless.
\<close>

definition ValidateImageDimensions :: "int \<Rightarrow> int \<Rightarrow> goerr option" where
  "ValidateImageDimensions width height =
     (if width \<le> 0 \<or> height \<le> 0 then Some (Err ''image dimensions must be greater than zero'')
      else if MaxImageWidth < width \<or> MaxImageHeight < height
        then Some (Err ''image dimensions exceed supported limits'')
      else let pixels = signed_take_bit 63 (width * height) in
      if MaxImagePixels < pixels then Some (Err ''image dimensions exceed supported limits'')
      else None)"

definition ValidateImageMetadataFields :: "32 word \<Rightarrow> 32 word \<Rightarrow> goerr option" where
  "ValidateImageMetadataFields width height = ValidateImageDimensions (uint width) (uint height)"

section \<open>The chunks of a file\<close>

text \<open>The specification: cut the data every \<open>k\<close> bytes.\<close>

function cut :: "nat \<Rightarrow> 'a list \<Rightarrow> 'a list list" where
  "cut k xs = (if xs = [] \<or> k = 0 then [] else take k xs # cut k (drop k xs))"
  by pat_completeness auto
termination
  by (relation "measure (\<lambda>(k, xs). length xs)") auto

declare cut.simps [simp del]

lemma cut_Nil [simp]: "cut k [] = []"
  by (simp add: cut.simps)

lemma cut_step: "xs \<noteq> [] \<Longrightarrow> 0 < k \<Longrightarrow> cut k xs = take k xs # cut k (drop k xs)"
  by (subst cut.simps) simp

lemma concat_cut: "0 < k \<Longrightarrow> concat (cut k xs) = xs"
proof (induction k xs rule: cut.induct)
  case (1 k xs)
  then show ?case by (cases "xs = []") (simp_all add: cut_step)
qed

lemma cut_sizes: "0 < k \<Longrightarrow> c \<in> set (cut k xs) \<Longrightarrow> 0 < length c \<and> length c \<le> k"
proof (induction k xs rule: cut.induct)
  case (1 k xs)
  then show ?case by (cases "xs = []") (auto simp: cut_step)
qed

lemma length_cut: "0 < k \<Longrightarrow> length (cut k xs) = (length xs + k - 1) div k"
proof (induction "length xs" arbitrary: xs rule: less_induct)
  case less
  consider "xs = []" | "xs \<noteq> []" "length xs \<le> k" | "xs \<noteq> []" "k < length xs" by linarith
  then show ?case
  proof cases
    case 1
    with less.prems show ?thesis by simp
  next
    case 2
    then have "0 < length xs" by simp
    with 2 have "k * 1 \<le> length xs + k - 1" "length xs + k - 1 < k * Suc 1"
      by (simp; linarith)+
    then have "(length xs + k - 1) div k = 1" by (rule div_nat_eqI)
    with 2 less.prems show ?thesis by (simp add: cut_step)
  next
    case 3
    have "length (cut k (drop k xs)) = (length (drop k xs) + k - 1) div k"
      using 3 less.prems by (intro less.hyps) simp_all
    also have "length (drop k xs) + k - 1 = length xs - 1" using 3 by simp
    finally have "length (cut k xs) = Suc ((length xs - 1) div k)"
      using 3 less.prems by (simp add: cut_step)
    also have "\<dots> = (length xs - 1 + k) div k"
      using less.prems by (simp only: div_add_self2 Suc_eq_plus1)
    also have "length xs - 1 + k = length xs + k - 1" using 3 by (cases xs) auto
    finally show ?thesis .
  qed
qed

text \<open>\<open>mkChunks s n ds\<close>: the pieces \<open>ds\<close> as chunks numbered from \<open>n\<close>, with their identifiers.\<close>

fun mkChunks :: "mh_sum \<Rightarrow> nat \<Rightarrow> bytes list \<Rightarrow> goerr + Chunk list" where
  "mkChunks s n [] = Inr []"
| "mkChunks s n (d # ds) = (case ComputeCID s d of
      Inl e \<Rightarrow> Inl (wrap ''failed to compute CID for chunk'' e)
    | Inr cid \<Rightarrow> (case mkChunks s (Suc n) ds of
         Inl e \<Rightarrow> Inl e
       | Inr cs \<Rightarrow> Inr (\<lparr>c_CID = cid, c_Index = n, c_Data = d\<rparr> # cs)))"

lemma ChunkSize_pos [simp]: "0 < ChunkSize" "ChunkSize \<noteq> 0"
  by (simp_all add: ChunkSize_def)

lemma chunkFileLoop_cut:
  "chunkFileLoop s data i chunks =
     (case mkChunks s (length chunks) (cut ChunkSize (drop i data)) of
        Inl e \<Rightarrow> Inl e | Inr cs \<Rightarrow> Inr (chunks @ cs))"
proof (induction s data i chunks rule: chunkFileLoop.induct)
  case (1 s data i chunks)
  show ?case
  proof (cases "i < length data")
    case True
    let ?d = "take (min (i + ChunkSize) (length data) - i) (drop i data)"
    have d: "?d = take ChunkSize (drop i data)"
      using True by (auto simp: min_def)
    have cut: "cut ChunkSize (drop i data) =
        take ChunkSize (drop i data) # cut ChunkSize (drop (i + ChunkSize) data)"
      using True by (subst cut_step) (simp_all add: add.commute)
    show ?thesis
    proof (cases "ComputeCID s (take ChunkSize (drop i data))")
      case (Inl e)
      with True d cut show ?thesis
        by (simp add: chunkFileLoop.simps [of s data i chunks] Let_def)
    next
      case (Inr cid)
      with True d cut "1.IH" [OF True refl refl] show ?thesis
        by (simp add: chunkFileLoop.simps [of s data i chunks] Let_def split: sum.splits)
    qed
  qed (simp add: chunkFileLoop.simps [of s data i chunks])
qed

lemma ChunkFile_cut:
  "data \<noteq> [] \<Longrightarrow> length data \<le> MaxMediaSize \<Longrightarrow> ChunkFile s data = mkChunks s 0 (cut ChunkSize data)"
  by (simp add: ChunkFile_def chunkFileLoop_cut split: sum.splits)

lemma ChunkFile_InrD:
  assumes "ChunkFile s data = Inr cs"
  shows "data \<noteq> [] \<and> length data \<le> MaxMediaSize \<and> mkChunks s 0 (cut ChunkSize data) = Inr cs"
  using assms ChunkFile_cut [of data s] by (auto simp: ChunkFile_def split: if_splits)

lemma mkChunks_InrD:
  "mkChunks s n ds = Inr cs \<Longrightarrow>
     map c_Data cs = ds \<and> map c_Index cs = [n..<n + length ds] \<and>
     (\<forall>c\<in>set cs. ComputeCID s (c_Data c) = Inr (c_CID c))"
proof (induction ds arbitrary: n cs)
  case (Cons d ds)
  then show ?case by (fastforce split: sum.splits simp: upt_rec [of n])
qed simp

lemma mkChunks_total:
  "(\<And>d. \<exists>h. s d = Inr h) \<Longrightarrow> \<exists>cs. mkChunks s n ds = Inr cs"
proof (induction ds arbitrary: n)
  case (Cons d ds)
  then obtain h cs where "s d = Inr h" "mkChunks s (Suc n) ds = Inr cs" by blast
  then show ?case by (simp add: ComputeCID_def)
qed simp

lemma ChunkFile_length:
  "ChunkFile s data = Inr cs \<Longrightarrow> length cs = (length data + ChunkSize - 1) div ChunkSize"
  using ChunkFile_InrD [of s data cs] mkChunks_InrD [of s 0 "cut ChunkSize data" cs]
    length_cut [of ChunkSize data]
  by (metis ChunkSize_pos length_map)

lemma ChunkFile_sizes:
  assumes "ChunkFile s data = Inr cs" "c \<in> set cs"
  shows "0 < length (c_Data c) \<and> length (c_Data c) \<le> ChunkSize"
proof -
  have "map c_Data cs = cut ChunkSize data"
    using ChunkFile_InrD [OF assms(1)] mkChunks_InrD by blast
  then have "c_Data c \<in> set (cut ChunkSize data)"
    using assms(2) by (metis image_eqI list.set_map)
  then show ?thesis using cut_sizes ChunkSize_pos by blast
qed

section \<open>Reassembly in any order\<close>

lemma ValidateChunks_None_iff:
  "ValidateChunks s cs = None \<longleftrightarrow> (\<forall>c\<in>set cs. ComputeCID s (c_Data c) = Inr (c_CID c))"
  by (induction cs) (auto simp: ValidateCID_def split: sum.splits)

lemma AssembleChunks_numbered:
  assumes "map c_Index cs = [0..<length cs]" "cs \<noteq> []" "mset cs' = mset cs"
  shows "AssembleChunks cs' = Inr (concat (map c_Data cs))"
proof -
  have inj: "inj_on c_Index (set cs')"
    using assms(1,3) distinct_map [of c_Index cs] by (metis distinct_upt set_mset_mset)
  have sorted: "sort_key c_Index cs' = cs"
    using sort_key_inj_key_eq [OF assms(3) inj] assms(1) by simp
  have "c_Index (cs ! i) = i" if "i < length cs" for i
    using assms(1) that by (metis nth_map nth_upt plus_nat.add_0 map_eq_imp_length_eq length_upt)
  moreover have "cs' \<noteq> []" using assms(2,3) by auto
  ultimately show ?thesis by (simp add: AssembleChunks_def sorted Let_def)
qed

lemma AssembleChunks_InrD:
  assumes "AssembleChunks cs = Inr data"
  shows "map c_Index (sort_key c_Index cs) = [0..<length cs] \<and>
         data = concat (map c_Data (sort_key c_Index cs))"
  using assms by (auto simp: AssembleChunks_def Let_def intro: nth_equalityI split: if_splits)

text \<open>
  C16. However the network delivers the chunks of a file, reassembly returns the file and every
  chunk passes its content-address check: for any rearrangement of what \<open>ChunkFile\<close> produced,
  \<open>AssembleChunks\<close> is the original data and \<open>ValidateChunks\<close> reports no mismatch.
\<close>

theorem chunks_reassemble:
  assumes "ChunkFile s data = Inr cs" and "mset cs' = mset cs"
  shows "AssembleChunks cs' = Inr data \<and> ValidateChunks s cs' = None"
proof -
  note d = ChunkFile_InrD [OF assms(1)]
  note m = mkChunks_InrD [OF conjunct2 [OF conjunct2 [OF d]]]
  have "map c_Index cs = [0..<length cs]"
    using m by (metis add_0 length_map)
  moreover have "cs \<noteq> []"
    using d m by (metis concat_cut ChunkSize_pos concat.simps(1) list.simps(8))
  ultimately have "AssembleChunks cs' = Inr (concat (map c_Data cs))"
    using AssembleChunks_numbered assms(2) by blast
  moreover have "set cs' = set cs" using assms(2) by (metis set_mset_mset)
  ultimately show ?thesis
    using m by (simp add: ValidateChunks_None_iff concat_cut)
qed

definition exampleSum :: mh_sum where
  "exampleSum d = Inr (18 # 32 # d)"

theorem chunks_reassemble_witness:
  "AssembleChunks [\<lparr>c_CID = [18, 32, 7, 8], c_Index = 0, c_Data = [7, 8]\<rparr>] = Inr [7, 8] \<and>
   ValidateChunks exampleSum [\<lparr>c_CID = [18, 32, 7, 8], c_Index = 0, c_Data = [7, 8]\<rparr>] = None"
proof (rule chunks_reassemble)
  show "ChunkFile exampleSum [7, 8] =
      Inr [\<lparr>c_CID = [18, 32, 7, 8], c_Index = 0, c_Data = [7, 8]\<rparr>]"
    by (simp add: ChunkFile_cut MaxMediaSize_def cut.simps ChunkSize_def ComputeCID_def
        exampleSum_def)
qed simp

text \<open>
  Reassembly never invents, loses or repeats a chunk: \<open>AssembleChunks\<close> succeeds exactly on the
  rearrangements of a non-empty sequence of chunks numbered 0, 1, ..., n-1, and then returns the
  concatenation of their data in the order of the indices.
\<close>

theorem assemble_iff_contiguous:
  "AssembleChunks cs = Inr data \<longleftrightarrow>
     (\<exists>ds. ds \<noteq> [] \<and> mset cs = mset ds \<and> map c_Index ds = [0..<length ds] \<and>
           data = concat (map c_Data ds))"
proof
  assume ok: "AssembleChunks cs = Inr data"
  then have "cs \<noteq> []" by (auto simp: AssembleChunks_def)
  then have "sort_key c_Index cs \<noteq> []" by (metis mset_sort mset_zero_iff)
  with AssembleChunks_InrD [OF ok]
  show "\<exists>ds. ds \<noteq> [] \<and> mset cs = mset ds \<and> map c_Index ds = [0..<length ds] \<and>
      data = concat (map c_Data ds)"
    by (intro exI [of _ "sort_key c_Index cs"]) simp
qed (auto intro: AssembleChunks_numbered)

section \<open>The streaming chunker\<close>

abbreviation endsQuietly :: "reader \<Rightarrow> bool" where
  "endsQuietly r \<equiv> r_err r = None \<or> r_err r = Some ErrUnexpectedEOF"

lemma chunkReaderLoop_cut:
  "chunkReaderLoop s r cs tot idx = Inr out \<longleftrightarrow>
     endsQuietly r \<and> (r_data r = [] \<or> tot + length (r_data r) \<le> MaxMediaSize) \<and>
     (\<exists>cs'. mkChunks s idx (cut ChunkSize (r_data r)) = Inr cs' \<and> out = cs @ cs')"
proof (induction s r cs tot idx arbitrary: out rule: chunkReaderLoop.induct)
  case (1 s r cs tot idx)
  let ?d = "take ChunkSize (r_data r)"
  let ?r = "r\<lparr>r_data := drop ChunkSize (r_data r)\<rparr>"
  note unf = chunkReaderLoop.simps [of s r cs tot idx]
  show ?case
  proof (cases "ChunkSize \<le> length (r_data r)")
    case True
    then have rf: "ReadFull ChunkSize r = (?d, None, ?r)" and ne: "r_data r \<noteq> []"
      and len: "length ?d = ChunkSize"
      using ChunkSize_pos by (auto simp: ReadFull_def simp del: ChunkSize_pos)
    note cut = cut_step [OF ne ChunkSize_pos(1)]
    show ?thesis
    proof (cases "tot + ChunkSize \<le> MaxMediaSize")
      case small: True
      show ?thesis
      proof (cases "ComputeCID s ?d")
        case (Inl e)
        with rf cut small len ne show ?thesis by (simp add: unf Let_def)
      next
        case (Inr cid)
        let ?c = "\<lparr>c_CID = cid, c_Index = idx, c_Data = ?d\<rparr>"
        have "chunkReaderLoop s r cs tot idx =
            chunkReaderLoop s ?r (cs @ [?c]) (tot + ChunkSize) (idx + 1)"
          using rf small len ne Inr by (simp add: unf Let_def)
        moreover have "(chunkReaderLoop s ?r (cs @ [?c]) (tot + ChunkSize) (idx + 1) = Inr out) =
            (endsQuietly ?r \<and> (r_data ?r = [] \<or>
               tot + ChunkSize + length (r_data ?r) \<le> MaxMediaSize) \<and>
             (\<exists>cs'. mkChunks s (idx + 1) (cut ChunkSize (r_data ?r)) = Inr cs' \<and>
                out = (cs @ [?c]) @ cs'))"
          by (rule "1.IH" [OF rf [symmetric] refl refl _ refl refl refl])
             (use small ne Inr len in \<open>simp add: Let_def del: length_take\<close>)
        ultimately show ?thesis
          using Inr cut True small ne by (auto split: sum.splits)
      qed
    next
      case False
      with rf len True ne show ?thesis by (simp add: unf Let_def)
    qed
  next
    case False
    then show ?thesis
      by (cases "r_data r = []"; cases "r_err r"; cases "ComputeCID s (r_data r)")
         (auto simp: unf ReadFull_def Let_def cut_step)
  qed
qed

text \<open>
  C17. The streaming chunker agrees with the in-memory one: \<open>ChunkReader\<close> returns a list of chunks
  exactly when \<open>ChunkFile\<close> of everything the reader delivers returns the same chunks and the reader ends
  without a read error or with \<open>io.ErrUnexpectedEOF\<close>, which is taken for the end of the last chunk, so that
  content that breaks off is accepted as complete; the size limit, checked chunk by chunk, rejects the same
  inputs.
\<close>

theorem ChunkReader_iff_ChunkFile:
  "ChunkReader s r = Inr cs \<longleftrightarrow>
     (r_err r = None \<or> r_err r = Some ErrUnexpectedEOF) \<and> ChunkFile s (r_data r) = Inr cs"
proof -
  have loop: "(chunkReaderLoop s r [] 0 0 = Inr cs) =
      (endsQuietly r \<and> (r_data r = [] \<or> length (r_data r) \<le> MaxMediaSize) \<and>
       mkChunks s 0 (cut ChunkSize (r_data r)) = Inr cs)" for cs
    by (simp add: chunkReaderLoop_cut)
  have "(ChunkReader s r = Inr cs) = (chunkReaderLoop s r [] 0 0 = Inr cs \<and> cs \<noteq> [])"
    by (auto simp: ChunkReader_def split: sum.splits if_splits)
  also have "\<dots> = (endsQuietly r \<and> ChunkFile s (r_data r) = Inr cs)"
  proof (cases "r_data r = []")
    case True
    then show ?thesis by (auto simp: loop ChunkFile_def)
  next
    case False
    have "mkChunks s 0 (cut ChunkSize (r_data r)) \<noteq> Inr []"
      using False mkChunks_InrD [of s 0 "cut ChunkSize (r_data r)" "[]"]
      by (auto simp: cut_step)
    with False show ?thesis
      using ChunkFile_cut [OF False, of s] by (auto simp: loop dest: ChunkFile_InrD)
  qed
  finally show ?thesis .
qed

text \<open>
  What \<open>ChunkFile\<close> accepts is bounded, and it returns: with a hash function that does not fail,
  it succeeds exactly on non-empty data of at most \<open>MaxMediaSize\<close> bytes, producing the least number
  of chunks that covers the data, at most 400 of them, none empty and none above \<open>ChunkSize\<close>.
\<close>

theorem ChunkFile_bounds:
  assumes "\<And>d. \<exists>h. s d = Inr h"
  shows "if data \<noteq> [] \<and> length data \<le> MaxMediaSize
         then \<exists>cs. ChunkFile s data = Inr cs \<and>
           length cs = (length data + ChunkSize - 1) div ChunkSize \<and> length cs \<le> 400 \<and>
           (\<forall>c\<in>set cs. 0 < length (c_Data c) \<and> length (c_Data c) \<le> ChunkSize)
         else isl (ChunkFile s data)"
proof (cases "data \<noteq> [] \<and> length data \<le> MaxMediaSize")
  case True
  then have "ChunkFile s data = mkChunks s 0 (cut ChunkSize data)"
    by (simp add: ChunkFile_cut)
  moreover obtain cs where "mkChunks s 0 (cut ChunkSize data) = Inr cs"
    using mkChunks_total [where s = s and n = 0 and ds = "cut ChunkSize data", OF assms] by blast
  ultimately have cs: "ChunkFile s data = Inr cs" by simp
  have "length data + ChunkSize - 1 \<le> MaxMediaSize + ChunkSize - 1"
    using True by (intro diff_le_mono add_right_mono) simp
  from div_le_mono [OF this, of ChunkSize]
  have "(length data + ChunkSize - 1) div ChunkSize \<le> 400"
    by (simp add: ChunkSize_def MaxMediaSize_def)
  with cs ChunkFile_length [OF cs] ChunkFile_sizes [OF cs] show ?thesis
    unfolding if_P [OF True] by (intro exI [of _ cs]) simp
qed (auto simp: ChunkFile_def)

theorem ChunkFile_bounds_witness:
  "\<exists>cs. ChunkFile exampleSum [7, 8, 9] = Inr cs \<and> length cs = 1"
  using ChunkFile_bounds [of exampleSum "[7, 8, 9]"]
  by (auto simp: exampleSum_def MaxMediaSize_def ChunkSize_def)

text \<open>
  The image limits hold without overflow: \<open>ValidateImageDimensions\<close> accepts exactly the positive
  dimensions within 12000 by 12000 whose true product is at most 40 million pixels; the \<open>int64\<close>
  product of the code never wraps where it is used.
\<close>

theorem image_dimensions_exact:
  "ValidateImageDimensions w h = None \<longleftrightarrow>
     0 < w \<and> 0 < h \<and> w \<le> MaxImageWidth \<and> h \<le> MaxImageHeight \<and> w * h \<le> MaxImagePixels"
proof -
  have "signed_take_bit 63 (w * h) = w * h" if "0 < w" "0 < h" "w \<le> 12000" "h \<le> 12000"
  proof -
    have "w * h \<le> 12000 * 12000" using that by (intro mult_mono) auto
    moreover have "0 < w * h" using that by simp
    ultimately show ?thesis by (intro signed_take_bit_int_eq_self) auto
  qed
  then show ?thesis
    by (auto simp: ValidateImageDimensions_def MaxImageWidth_def MaxImageHeight_def Let_def)
qed

end
