(* ===== verification/Validators.thy ===== *)
theory Validators
  imports Chunking
begin

text \<open>
  The protocol messages of \<open>proto/messages.proto\<close> as records and the rules of
  \<open>pkg/content/validator*.go\<close>. \<open>proto.Marshal\<close> and the multihash are external (the record \<open>ext\<close>); the
  two package variables of \<open>validator.go\<close> are the record \<open>vglobals\<close>; the clock is an argument in
  nanoseconds. A Go pointer that may be \<open>nil\<close> is an \<open>option\<close>, a Go string is the list of its bytes.
\<close>

section \<open>Messages\<close>

record Post =
  po_Id :: bytes
  po_Author :: bytes
  po_Timestamp :: "64 word"
  po_Content :: string
  po_MediaCids :: "bytes list"
  po_ReplyTo :: bytes
  po_RepostOf :: bytes
  po_Tags :: "string list"
  po_Signature :: bytes

record Reaction =
  re_Id :: bytes
  re_Author :: bytes
  re_Target :: bytes
  re_ReactionType :: string
  re_Timestamp :: "64 word"
  re_Signature :: bytes

record Profile =
  pr_Author :: bytes
  pr_DisplayName :: string
  pr_Bio :: string
  pr_AvatarCid :: bytes
  pr_BannerCid :: bytes
  pr_Website :: string
  pr_Version :: "64 word"
  pr_Timestamp :: "64 word"
  pr_Signature :: bytes

record FollowEvent =
  fe_Author :: bytes
  fe_Target :: bytes
  fe_Action :: string
  fe_Timestamp :: "64 word"
  fe_Signature :: bytes

record DirectMessage =
  dm_Id :: bytes
  dm_Author :: bytes
  dm_Recipient :: bytes
  dm_EncryptedContent :: bytes
  dm_Nonce :: bytes
  dm_Timestamp :: "64 word"
  dm_Signature :: bytes

record MediaObject =
  mo_Cid :: bytes
  mo_Author :: bytes
  mo_MimeType :: string
  mo_Size :: "64 word"
  mo_ChunkCount :: "32 word"
  mo_ChunkCids :: "bytes list"
  mo_Width :: "32 word"
  mo_Height :: "32 word"
  mo_Duration :: "32 word"
  mo_ThumbnailCid :: bytes
  mo_Timestamp :: "64 word"
  mo_Signature :: bytes

record MediaChunk =
  mc_Cid :: bytes
  mc_ParentCid :: bytes
  mc_Index :: "32 word"
  mc_Data :: bytes

text \<open>The payload of an \<open>Envelope\<close>, and what \<open>proto.Marshal\<close> is applied to.\<close>

datatype message =
    MPost Post
  | MReaction Reaction
  | MProfile Profile
  | MFollowEvent FollowEvent
  | MDirectMessage DirectMessage
  | MMediaObject MediaObject
  | MMediaChunk MediaChunk

type_synonym verifier = "bytes \<Rightarrow> bytes \<Rightarrow> bytes \<Rightarrow> bool"

text \<open>
  The functions outside the repository: the multihash, \<open>proto.Marshal\<close> of a message, \<open>proto.Marshal\<close>
  and \<open>proto.Unmarshal\<close> of an envelope (whose payload may be unset), \<open>ed25519.Verify\<close> and
  \<open>ed25519.Sign\<close>.
\<close>

record ext =
  x_sum :: mh_sum
  x_marshal :: "message \<Rightarrow> goerr + bytes"
  x_marshalEnvelope :: "message \<Rightarrow> goerr + bytes"
  x_unmarshalEnvelope :: "bytes \<Rightarrow> goerr + message option"
  x_verify :: verifier
  x_sign :: "bytes \<Rightarrow> bytes \<Rightarrow> bytes"

section \<open>Package state and common checks\<close>

definition MaxContentLength :: nat where "MaxContentLength = 5000"
definition MaxMediaCIDs :: nat where "MaxMediaCIDs = 10"
definition MaxDisplayNameLength :: nat where "MaxDisplayNameLength = 50"
definition MaxBioLength :: nat where "MaxBioLength = 500"
definition MaxWebsiteLength :: nat where "MaxWebsiteLength = 200"
definition Ed25519PublicKeySize :: nat where "Ed25519PublicKeySize = 32"
definition Ed25519SignatureSize :: nat where "Ed25519SignatureSize = 64"
definition NaClNonceSize :: nat where "NaClNonceSize = 24"

text \<open>Durations are nanoseconds.\<close>

definition msec :: int where "msec = 1000000"
definition MaxFutureSkew :: int where "MaxFutureSkew = 5 * 60 * 1000 * msec"
definition DefaultMaxPastAge :: int where "DefaultMaxPastAge = 30 * 24 * 3600 * 1000 * msec"

record vglobals =
  maxPastAge :: int
  historicalSyncMode :: bool

definition init_vglobals :: vglobals where
  "init_vglobals = \<lparr>maxPastAge = DefaultMaxPastAge, historicalSyncMode = False\<rparr>"

definition SetMaxPastAge :: "int \<Rightarrow> vglobals \<Rightarrow> vglobals" where
  "SetMaxPastAge d g = g\<lparr>maxPastAge := d\<rparr>"

definition SetHistoricalSyncMode :: "bool \<Rightarrow> vglobals \<Rightarrow> vglobals" where
  "SetHistoricalSyncMode enabled g = g\<lparr>historicalSyncMode := enabled\<rparr>"

definition validateTimestamp :: "vglobals \<Rightarrow> int \<Rightarrow> 64 word \<Rightarrow> goerr option" where
  "validateTimestamp g now tsMillis =
     (let ts = toInt64 tsMillis * msec in
      if now + MaxFutureSkew < ts then Some (Err ''timestamp is in the future'')
      else if \<not> historicalSyncMode g \<and> ts < now - maxPastAge g
        then Some (Err ''timestamp is in the past'')
      else None)"

definition verifyCID :: "mh_sum \<Rightarrow> bytes \<Rightarrow> bytes \<Rightarrow> goerr option" where
  "verifyCID s ident payload =
     (if length ident = 0 then None
      else case ComputeCID s payload of
          Inl e \<Rightarrow> Some (wrap ''failed to compute CID'' e)
        | Inr expectedCID \<Rightarrow>
            if ident \<noteq> expectedCID then Some (Err ''id does not match content hash'') else None)"

text \<open>
  The tail every signed message shares: timestamp, signature size, signing payload, signature. The
  code repeats these statements in each validator, in this order.
\<close>

definition checkSigned ::
  "vglobals \<Rightarrow> int \<Rightarrow> 64 word \<Rightarrow> bytes \<Rightarrow> bytes \<Rightarrow> goerr + bytes \<Rightarrow> verifier option
     \<Rightarrow> (bytes \<Rightarrow> goerr option) \<Rightarrow> goerr option" where
  "checkSigned g now ts author sig payload verify rest =
     (case validateTimestamp g now ts of
        Some e \<Rightarrow> Some (wrap ''invalid timestamp'' e)
      | None \<Rightarrow>
          if length sig \<noteq> Ed25519SignatureSize then Some (Err ''signature must be 64 bytes'')
          else case payload of
              Inl e \<Rightarrow> Some (wrap ''failed to compute signing payload'' e)
            | Inr sigPayload \<Rightarrow>
                if (case verify of None \<Rightarrow> False | Some v \<Rightarrow> \<not> v author sigPayload sig)
                then Some (Err ''invalid signature'')
                else rest sigPayload)"

section \<open>The validators\<close>

text \<open>\<open>proto.Marshal\<close> of a message, its error wrapped with the name of the kind.\<close>

definition marshalAs :: "ext \<Rightarrow> string \<Rightarrow> message \<Rightarrow> goerr + bytes" where
  "marshalAs x what m = (case x_marshal x m of Inl e \<Rightarrow> Inl (wrap what e) | Inr d \<Rightarrow> Inr d)"

definition postSigningPayload :: "ext \<Rightarrow> Post \<Rightarrow> goerr + bytes" where
  "postSigningPayload x post =
     marshalAs x ''failed to marshal post'' (MPost (post\<lparr>po_Id := [], po_Signature := []\<rparr>))"

definition profileSigningPayload :: "ext \<Rightarrow> Profile \<Rightarrow> goerr + bytes" where
  "profileSigningPayload x profile =
     marshalAs x ''failed to marshal profile'' (MProfile (profile\<lparr>pr_Signature := []\<rparr>))"

definition followEventSigningPayload :: "ext \<Rightarrow> FollowEvent \<Rightarrow> goerr + bytes" where
  "followEventSigningPayload x event =
     marshalAs x ''failed to marshal follow event'' (MFollowEvent (event\<lparr>fe_Signature := []\<rparr>))"

definition dmSigningPayload :: "ext \<Rightarrow> DirectMessage \<Rightarrow> goerr + bytes" where
  "dmSigningPayload x dm =
     marshalAs x ''failed to marshal direct message''
       (MDirectMessage (dm\<lparr>dm_Id := [], dm_Signature := []\<rparr>))"

definition reactionSigningPayload :: "ext \<Rightarrow> Reaction \<Rightarrow> goerr + bytes" where
  "reactionSigningPayload x reaction =
     marshalAs x ''failed to marshal reaction''
       (MReaction (reaction\<lparr>re_Id := [], re_Signature := []\<rparr>))"

definition mediaObjectSigningPayload :: "ext \<Rightarrow> MediaObject \<Rightarrow> goerr + bytes" where
  "mediaObjectSigningPayload x obj =
     marshalAs x ''failed to marshal media object'' (MMediaObject (obj\<lparr>mo_Signature := []\<rparr>))"

fun ValidatePost ::
  "ext \<Rightarrow> vglobals \<Rightarrow> int \<Rightarrow> Post option \<Rightarrow> verifier option \<Rightarrow> goerr option" where
  "ValidatePost x g now None verify = Some (Err ''post is nil'')"
| "ValidatePost x g now (Some post) verify =
     (if length (po_Author post) \<noteq> Ed25519PublicKeySize
        then Some (Err ''author must be 32 bytes'')
      else if MaxContentLength < RuneCountInString (po_Content post)
        then Some (Err ''content exceeds 5000 characters'')
      else if po_Content post = '''' \<and> length (po_MediaCids post) = 0 \<and> length (po_RepostOf post) = 0
        then Some (Err ''content must not be empty unless media_cids or repost_of is set'')
      else if MaxMediaCIDs < length (po_MediaCids post)
        then Some (Err ''media_cids exceeds maximum of 10 items'')
      else if 0 < length (po_ReplyTo post) \<and> 0 < length (po_RepostOf post)
        then Some (Err ''reply_to and repost_of are mutually exclusive'')
      else checkSigned g now (po_Timestamp post) (po_Author post) (po_Signature post)
             (postSigningPayload x post) verify (\<lambda>p. verifyCID (x_sum x) (po_Id post) p))"

fun ValidateProfile ::
  "ext \<Rightarrow> vglobals \<Rightarrow> int \<Rightarrow> Profile option \<Rightarrow> verifier option \<Rightarrow> goerr option" where
  "ValidateProfile x g now None verify = Some (Err ''profile is nil'')"
| "ValidateProfile x g now (Some profile) verify =
     (if length (pr_Author profile) \<noteq> Ed25519PublicKeySize
        then Some (Err ''author must be 32 bytes'')
      else if pr_DisplayName profile = '''' then Some (Err ''display_name must not be empty'')
      else if MaxDisplayNameLength < RuneCountInString (pr_DisplayName profile)
        then Some (Err ''display_name exceeds 50 characters'')
      else if MaxBioLength < RuneCountInString (pr_Bio profile)
        then Some (Err ''bio exceeds 500 characters'')
      else if MaxWebsiteLength < length (pr_Website profile)
        then Some (Err ''website exceeds 200 characters'')
      else checkSigned g now (pr_Timestamp profile) (pr_Author profile) (pr_Signature profile)
             (profileSigningPayload x profile) verify (\<lambda>_. None))"

fun ValidateFollowEvent ::
  "ext \<Rightarrow> vglobals \<Rightarrow> int \<Rightarrow> FollowEvent option \<Rightarrow> verifier option \<Rightarrow> goerr option" where
  "ValidateFollowEvent x g now None verify = Some (Err ''follow event is nil'')"
| "ValidateFollowEvent x g now (Some event) verify =
     (if length (fe_Author event) \<noteq> Ed25519PublicKeySize
        then Some (Err ''author must be 32 bytes'')
      else if length (fe_Target event) \<noteq> Ed25519PublicKeySize
        then Some (Err ''target must be 32 bytes'')
      else if fe_Author event = fe_Target event
        then Some (Err ''a user cannot follow themselves'')
      else if fe_Action event \<noteq> ''follow'' \<and> fe_Action event \<noteq> ''unfollow''
        then Some (Err ''action must be follow or unfollow'')
      else checkSigned g now (fe_Timestamp event) (fe_Author event) (fe_Signature event)
             (followEventSigningPayload x event) verify (\<lambda>_. None))"

fun ValidateDirectMessage ::
  "ext \<Rightarrow> vglobals \<Rightarrow> int \<Rightarrow> DirectMessage option \<Rightarrow> verifier option \<Rightarrow> goerr option" where
  "ValidateDirectMessage x g now None verify = Some (Err ''direct message is nil'')"
| "ValidateDirectMessage x g now (Some dm) verify =
     (if length (dm_Author dm) \<noteq> Ed25519PublicKeySize
        then Some (Err ''author must be 32 bytes'')
      else if length (dm_Recipient dm) \<noteq> Ed25519PublicKeySize
        then Some (Err ''recipient must be 32 bytes'')
      else if dm_Author dm = dm_Recipient dm
        then Some (Err ''author and recipient must not be the same'')
      else if length (dm_EncryptedContent dm) = 0
        then Some (Err ''encrypted_content must not be empty'')
      else if length (dm_Nonce dm) \<noteq> NaClNonceSize then Some (Err ''nonce must be 24 bytes'')
      else checkSigned g now (dm_Timestamp dm) (dm_Author dm) (dm_Signature dm)
             (dmSigningPayload x dm) verify (\<lambda>p. verifyCID (x_sum x) (dm_Id dm) p))"

fun ValidateReaction ::
  "ext \<Rightarrow> vglobals \<Rightarrow> int \<Rightarrow> Reaction option \<Rightarrow> verifier option \<Rightarrow> goerr option" where
  "ValidateReaction x g now None verify = Some (Err ''reaction is nil'')"
| "ValidateReaction x g now (Some reaction) verify =
     (if length (re_Author reaction) \<noteq> Ed25519PublicKeySize
        then Some (Err ''author must be 32 bytes'')
      else if length (re_Target reaction) = 0 then Some (Err ''target must not be empty'')
      else if re_ReactionType reaction \<noteq> ''like'' then Some (Err ''reaction_type must be like'')
      else checkSigned g now (re_Timestamp reaction) (re_Author reaction) (re_Signature reaction)
             (reactionSigningPayload x reaction) verify
             (\<lambda>p. verifyCID (x_sum x) (re_Id reaction) p))"

text \<open>
  \<open>MaxMediaSize\<close> is an untyped constant, so the comparison is in \<open>uint64\<close>; \<open>int(obj.ChunkCount)\<close> is
  64 bits wide.
\<close>

fun ValidateMediaObject ::
  "ext \<Rightarrow> vglobals \<Rightarrow> int \<Rightarrow> MediaObject option \<Rightarrow> verifier option \<Rightarrow> goerr option" where
  "ValidateMediaObject x g now None verify = Some (Err ''media object is nil'')"
| "ValidateMediaObject x g now (Some obj) verify =
     (if length (mo_Cid obj) = 0 then Some (Err ''cid must not be empty'')
      else if length (mo_Author obj) \<noteq> Ed25519PublicKeySize
        then Some (Err ''author must be 32 bytes'')
      else case ValidateMediaType (mo_MimeType obj) of
          Some e \<Rightarrow> Some e
        | None \<Rightarrow>
      if mo_Size obj = 0 then Some (Err ''size must be greater than zero'')
      else if of_nat MaxMediaSize < mo_Size obj then Some (Err ''size exceeds maximum'')
      else case (if HasPrefix (mo_MimeType obj) ''image/'' \<and> (mo_Width obj \<noteq> 0 \<or> mo_Height obj \<noteq> 0)
                 then ValidateImageMetadataFields (mo_Width obj) (mo_Height obj) else None) of
          Some e \<Rightarrow> Some (wrap ''invalid image dimensions'' e)
        | None \<Rightarrow>
      if mo_ChunkCount obj = 0 then Some (Err ''chunk_count must be greater than zero'')
      else if length (mo_ChunkCids obj) \<noteq> unat (mo_ChunkCount obj)
        then Some (Err ''chunk_cids length must equal chunk_count'')
      else checkSigned g now (mo_Timestamp obj) (mo_Author obj) (mo_Signature obj)
             (mediaObjectSigningPayload x obj) verify (\<lambda>_. None))"

fun ValidateMediaChunk :: "ext \<Rightarrow> MediaChunk option \<Rightarrow> goerr option" where
  "ValidateMediaChunk x None = Some (Err ''media chunk is nil'')"
| "ValidateMediaChunk x (Some chunk) =
     (if length (mc_Cid chunk) = 0 then Some (Err ''cid must not be empty'')
      else if length (mc_ParentCid chunk) = 0 then Some (Err ''parent_cid must not be empty'')
      else if length (mc_Data chunk) = 0 then Some (Err ''data must not be empty'')
      else if ChunkSize < length (mc_Data chunk) then Some (Err ''data exceeds chunk size'')
      else verifyCID (x_sum x) (mc_Cid chunk) (mc_Data chunk))"

section \<open>What acceptance promises\<close>

lemma checkSigned_None:
  "checkSigned g now ts a sig pl v rest = None \<longleftrightarrow>
     validateTimestamp g now ts = None \<and> length sig = Ed25519SignatureSize \<and>
     (\<exists>p. pl = Inr p \<and> (\<forall>vf. v = Some vf \<longrightarrow> vf a p sig) \<and> rest p = None)"
  by (auto simp: checkSigned_def split: option.splits sum.splits if_splits)

lemma verifyCID_None:
  "verifyCID s i p = None \<longleftrightarrow> i = [] \<or> ComputeCID s p = Inr i"
  by (auto simp: verifyCID_def split: sum.splits)

text \<open>
  The contract between a validator and its callers: a message that is accepted has well-sized keys
  and signature, a timestamp in the window, and a signature that verifies over its signing payload.
\<close>

locale signed_validator =
  fixes validate :: "vglobals \<Rightarrow> int \<Rightarrow> 'm option \<Rightarrow> verifier option \<Rightarrow> goerr option"
    and author :: "'m \<Rightarrow> bytes"
    and signature :: "'m \<Rightarrow> bytes"
    and timestamp :: "'m \<Rightarrow> 64 word"
    and payload :: "'m \<Rightarrow> goerr + bytes"
  assumes nil_rejected: "validate g now None v \<noteq> None"
    and author_size: "validate g now (Some m) v = None \<Longrightarrow> length (author m) = Ed25519PublicKeySize"
    and signature_size:
      "validate g now (Some m) v = None \<Longrightarrow> length (signature m) = Ed25519SignatureSize"
    and timestamp_ok:
      "validate g now (Some m) v = None \<Longrightarrow> validateTimestamp g now (timestamp m) = None"
    and verified:
      "validate g now (Some m) (Some vf) = None \<Longrightarrow>
         \<exists>p. payload m = Inr p \<and> vf (author m) p (signature m)"
begin

lemma authentic:
  assumes "validate g now (Some m) (Some vf) = None"
    and "\<forall>a p s. vf a p s \<longrightarrow> signedBy a p"
  shows "length (author m) = Ed25519PublicKeySize \<and> length (signature m) = Ed25519SignatureSize \<and>
         validateTimestamp g now (timestamp m) = None \<and>
         (\<exists>p. payload m = Inr p \<and> signedBy (author m) p)"
proof -
  obtain p where "payload m = Inr p" "vf (author m) p (signature m)"
    using verified [OF assms(1)] by blast
  with assms(2) show ?thesis
    using author_size [OF assms(1)] signature_size [OF assms(1)] timestamp_ok [OF assms(1)] by auto
qed

end

text \<open>
  A validator of a message that carries its own content identifier also promises that the
  identifier, when present, is the hash of the signing payload.
\<close>

locale addressed_validator = signed_validator validate author signature timestamp payload
  for validate :: "vglobals \<Rightarrow> int \<Rightarrow> 'm option \<Rightarrow> verifier option \<Rightarrow> goerr option"
    and author :: "'m \<Rightarrow> bytes" and signature :: "'m \<Rightarrow> bytes"
    and timestamp :: "'m \<Rightarrow> 64 word" and payload :: "'m \<Rightarrow> goerr + bytes" +
  fixes ident :: "'m \<Rightarrow> bytes"
    and hash :: mh_sum
  assumes addressed:
    "validate g now (Some m) v = None \<Longrightarrow> ident m \<noteq> [] \<Longrightarrow> 
       \<exists>p. payload m = Inr p \<and> ComputeCID hash p = Inr (ident m)"
begin

lemma same_ident_same_payload:
  assumes "validate g now (Some m) v = None" "validate g' now' (Some m') v' = None"
    and "ident m = ident m'" "ident m \<noteq> []"
    and "\<And>p q h. payload m = Inr p \<Longrightarrow> payload m' = Inr q \<Longrightarrow>
           hash p = Inr h \<Longrightarrow> hash q = Inr h \<Longrightarrow> p = q"
  shows "\<exists>p. payload m = Inr p \<and> payload m' = Inr p"
proof -
  obtain p where p: "payload m = Inr p" "ComputeCID hash p = Inr (ident m)"
    using addressed [OF assms(1,4)] by blast
  moreover obtain q where q: "payload m' = Inr q" "ComputeCID hash q = Inr (ident m)"
    using addressed [OF assms(2)] assms(3,4) by auto
  ultimately have "hash p = Inr (ident m)" "hash q = Inr (ident m)"
    by (auto simp: ComputeCID_def split: sum.splits)
  then have "p = q" by (rule assms(5) [OF p(1) q(1)])
  with p(1) q(1) show ?thesis by simp
qed

end

interpretation post: addressed_validator "ValidatePost x" po_Author po_Signature po_Timestamp
  "postSigningPayload x" po_Id "x_sum x" for x
  by unfold_locales (auto simp: checkSigned_None verifyCID_None split: if_splits)

interpretation reaction: addressed_validator "ValidateReaction x" re_Author re_Signature re_Timestamp
  "reactionSigningPayload x" re_Id "x_sum x" for x
  by unfold_locales (auto simp: checkSigned_None verifyCID_None split: if_splits)

interpretation dm: addressed_validator "ValidateDirectMessage x" dm_Author dm_Signature dm_Timestamp
  "dmSigningPayload x" dm_Id "x_sum x" for x
  by unfold_locales (auto simp: checkSigned_None verifyCID_None split: if_splits)

interpretation profile: signed_validator "ValidateProfile x" pr_Author pr_Signature pr_Timestamp
  "profileSigningPayload x" for x
  by unfold_locales (auto simp: checkSigned_None split: if_splits)

interpretation follow: signed_validator "ValidateFollowEvent x" fe_Author fe_Signature fe_Timestamp
  "followEventSigningPayload x" for x
  by unfold_locales (auto simp: checkSigned_None split: if_splits)

interpretation media: signed_validator "ValidateMediaObject x" mo_Author mo_Signature mo_Timestamp
  "mediaObjectSigningPayload x" for x
  by unfold_locales (auto simp: checkSigned_None split: if_splits option.splits)

declare ValidatePost.simps [simp del] ValidateReaction.simps [simp del]
  ValidateDirectMessage.simps [simp del] ValidateProfile.simps [simp del]
  ValidateFollowEvent.simps [simp del] ValidateMediaObject.simps [simp del]
  ValidateMediaChunk.simps [simp del]

subsection \<open>One statement for every kind of message\<close>

text \<open>The validator of each kind of envelope payload.\<close>

fun validateMessage ::
  "ext \<Rightarrow> vglobals \<Rightarrow> int \<Rightarrow> message \<Rightarrow> verifier option \<Rightarrow> goerr option" where
  "validateMessage x g now (MPost m) v = ValidatePost x g now (Some m) v"
| "validateMessage x g now (MReaction m) v = ValidateReaction x g now (Some m) v"
| "validateMessage x g now (MProfile m) v = ValidateProfile x g now (Some m) v"
| "validateMessage x g now (MFollowEvent m) v = ValidateFollowEvent x g now (Some m) v"
| "validateMessage x g now (MDirectMessage m) v = ValidateDirectMessage x g now (Some m) v"
| "validateMessage x g now (MMediaObject m) v = ValidateMediaObject x g now (Some m) v"
| "validateMessage x g now (MMediaChunk m) v = ValidateMediaChunk x (Some m)"

text \<open>Author, signature, timestamp and signing payload of a signed message.\<close>

fun signedParts :: "ext \<Rightarrow> message \<Rightarrow> (bytes \<times> bytes \<times> 64 word \<times> (goerr + bytes)) option" where
  "signedParts x (MPost m) =
     Some (po_Author m, po_Signature m, po_Timestamp m, postSigningPayload x m)"
| "signedParts x (MReaction m) =
     Some (re_Author m, re_Signature m, re_Timestamp m, reactionSigningPayload x m)"
| "signedParts x (MProfile m) =
     Some (pr_Author m, pr_Signature m, pr_Timestamp m, profileSigningPayload x m)"
| "signedParts x (MFollowEvent m) =
     Some (fe_Author m, fe_Signature m, fe_Timestamp m, followEventSigningPayload x m)"
| "signedParts x (MDirectMessage m) =
     Some (dm_Author m, dm_Signature m, dm_Timestamp m, dmSigningPayload x m)"
| "signedParts x (MMediaObject m) =
     Some (mo_Author m, mo_Signature m, mo_Timestamp m, mediaObjectSigningPayload x m)"
| "signedParts x (MMediaChunk m) = None"

text \<open>
  C9. No message is accepted that its author did not sign: whatever the kind of message, when its
  validator accepts it under a verifier that accepts only what key holders signed, the author key is
  32 bytes, the signature 64 bytes, the timestamp is in the window and the author signed exactly
  the signing payload of this message.
\<close>

theorem accepted_is_authentic:
  assumes "\<forall>a p s. vf a p s \<longrightarrow> signedBy a p"
    and "validateMessage x g now m (Some vf) = None"
    and "signedParts x m = Some (a, sig, ts, pl)"
  shows "length a = Ed25519PublicKeySize \<and> length sig = Ed25519SignatureSize \<and>
         validateTimestamp g now ts = None \<and> (\<exists>p. pl = Inr p \<and> signedBy a p)"
proof (cases m)
  case (MPost m')
  then show ?thesis using post.authentic [where vf = vf and signedBy = signedBy, OF _ assms(1)]
    assms(2,3) by fastforce
next
  case (MReaction m')
  then show ?thesis using reaction.authentic [where vf = vf and signedBy = signedBy, OF _ assms(1)]
    assms(2,3) by fastforce
next
  case (MProfile m')
  then show ?thesis using profile.authentic [where vf = vf and signedBy = signedBy, OF _ assms(1)]
    assms(2,3) by fastforce
next
  case (MFollowEvent m')
  then show ?thesis using follow.authentic [where vf = vf and signedBy = signedBy, OF _ assms(1)]
    assms(2,3) by fastforce
next
  case (MDirectMessage m')
  then show ?thesis using dm.authentic [where vf = vf and signedBy = signedBy, OF _ assms(1)]
    assms(2,3) by fastforce
next
  case (MMediaObject m')
  then show ?thesis using media.authentic [where vf = vf and signedBy = signedBy, OF _ assms(1)]
    assms(2,3) by fastforce
next
  case (MMediaChunk m')
  then show ?thesis using assms by simp
qed

definition exampleExt :: ext where
  "exampleExt = \<lparr>x_sum = exampleSum, x_marshal = (\<lambda>m. Inr []),
     x_marshalEnvelope = (\<lambda>m. Inr []), x_unmarshalEnvelope = (\<lambda>d. Inr None),
     x_verify = (\<lambda>a p s. False), x_sign = (\<lambda>k p. [])\<rparr>"

definition exampleFollow :: FollowEvent where
  "exampleFollow = \<lparr>fe_Author = replicate 32 1, fe_Target = replicate 32 2, fe_Action = ''follow'',
     fe_Timestamp = 0, fe_Signature = replicate 64 3\<rparr>"

theorem accepted_is_authentic_witness:
  "\<exists>p. followEventSigningPayload exampleExt exampleFollow = Inr p \<and>
       fe_Author exampleFollow = replicate 32 1"
  using accepted_is_authentic [of "\<lambda>a p s. a = replicate 32 1" "\<lambda>a p. a = replicate 32 1"
    exampleExt init_vglobals 0 "MFollowEvent exampleFollow" "fe_Author exampleFollow"
    "fe_Signature exampleFollow" "fe_Timestamp exampleFollow"
    "followEventSigningPayload exampleExt exampleFollow"]
  by (simp add: exampleFollow_def ValidateFollowEvent.simps Ed25519PublicKeySize_def
      Ed25519SignatureSize_def checkSigned_None validateTimestamp_def toInt64_def init_vglobals_def
      MaxFutureSkew_def DefaultMaxPastAge_def msec_def followEventSigningPayload_def marshalAs_def
      exampleExt_def)

subsection \<open>Immutable identifiers\<close>

lemma marshalAs_Inr [simp]: "marshalAs x w m = Inr p \<longleftrightarrow> x_marshal x m = Inr p"
  by (auto simp: marshalAs_def split: sum.splits)

text \<open>
  A content identifier names one content: two accepted posts with the same non-empty identifier
  agree in every field but the signature, author and timestamp included, when marshalling posts is
  injective and the hash does not collide on their two payloads. A post cannot be edited in place.
\<close>

theorem identifier_immutable:
  assumes inj: "\<And>m m' p. x_marshal x (MPost m) = Inr p \<Longrightarrow> x_marshal x (MPost m') = Inr p \<Longrightarrow> m = m'"
    and nocollision: "\<And>p q h. postSigningPayload x a = Inr p \<Longrightarrow> postSigningPayload x b = Inr q \<Longrightarrow>
          x_sum x p = Inr h \<Longrightarrow> x_sum x q = Inr h \<Longrightarrow> p = q"
    and "ValidatePost x g now (Some a) v = None" "ValidatePost x g' now' (Some b) v' = None"
    and "po_Id a = po_Id b" "po_Id a \<noteq> []"
  shows "a\<lparr>po_Signature := []\<rparr> = b\<lparr>po_Signature := []\<rparr>"
proof -
  have "\<exists>p. postSigningPayload x a = Inr p \<and> postSigningPayload x b = Inr p"
    by (rule post.same_ident_same_payload [OF assms(3-6)]) (rule nocollision)
  then obtain p where "postSigningPayload x a = Inr p" "postSigningPayload x b = Inr p"
    by (elim exE conjE)
  then have e: "a\<lparr>po_Id := [], po_Signature := []\<rparr> = b\<lparr>po_Id := [], po_Signature := []\<rparr>"
    unfolding postSigningPayload_def marshalAs_Inr by (rule inj)
  show ?thesis
    using e \<open>po_Id a = po_Id b\<close> by (cases a; cases b; simp)
qed

text \<open>
  An injective stand-in for \<open>proto.Marshal\<close> on posts: every field is written with a length prefix in
  unary, so that the concatenation can be split again.
\<close>

definition frame :: "bytes \<Rightarrow> bytes" where
  "frame b = replicate (length b) 1 @ 0 # b"

lemma frame_inject: "frame a @ u = frame b @ v \<longleftrightarrow> a = b \<and> u = v"
proof
  assume eq: "frame a @ u = frame b @ v"
  have "takeWhile ((=) 1) (frame c @ w) = replicate (length c) 1" for c w :: bytes
    by (simp add: frame_def takeWhile_append)
  with eq have "length a = length b" by (metis length_replicate)
  with eq show "a = b \<and> u = v" by (simp add: frame_def)
qed simp

definition frameAll :: "bytes list \<Rightarrow> bytes" where
  "frameAll bs = frame (concat (map frame bs))"

lemma concat_frame_inject: "concat (map frame as) = concat (map frame bs) \<longleftrightarrow> as = bs"
proof (induction as arbitrary: bs)
  case Nil
  then show ?case by (cases bs) (auto simp: frame_def)
next
  case (Cons a as)
  then show ?case by (cases bs) (auto simp: frame_inject, auto simp: frame_def)
qed

lemma frameAll_inject: "frameAll a @ u = frameAll b @ v \<longleftrightarrow> a = b \<and> u = v"
  by (simp add: frameAll_def frame_inject concat_frame_inject)

definition strBytes :: "string \<Rightarrow> bytes" where
  "strBytes s = map (\<lambda>c. word_of_nat (of_char c)) s"

lemma strBytes_inject [simp]: "strBytes s = strBytes t \<longleftrightarrow> s = t"
proof -
  have "c = d" if "(word_of_nat (of_char c) :: byte) = word_of_nat (of_char d)" for c d :: char
  proof -
    have "unat (word_of_nat (of_char c) :: byte) = of_char c" for c :: char
      by (simp add: unat_of_nat)
    with that have "(of_char c :: nat) = of_char d" by metis
    then show ?thesis by simp
  qed
  then show ?thesis
    unfolding strBytes_def by (intro inj_map_eq_map injI) blast
qed

definition examplePostBytes :: "Post \<Rightarrow> bytes" where
  "examplePostBytes m = frame (po_Id m) @ frame (po_Author m) @
     frame (replicate (unat (po_Timestamp m)) 0) @
     frame (strBytes (po_Content m)) @ frameAll (po_MediaCids m) @ frame (po_ReplyTo m) @
     frame (po_RepostOf m) @ frameAll (map strBytes (po_Tags m)) @ frame (po_Signature m)"

lemma examplePostBytes_inject: "examplePostBytes m = examplePostBytes m' \<Longrightarrow> m = m'"
  by (rule Post.equality)
     (simp_all add: examplePostBytes_def frame_inject frameAll_inject inj_map_eq_map inj_def
       frame_inject [where u = "[]" and v = "[]", simplified] word_unat_eq_iff)

definition exampleMarshal :: "message \<Rightarrow> goerr + bytes" where
  "exampleMarshal m = (case m of MPost p \<Rightarrow> Inr (examplePostBytes p) | _ \<Rightarrow> Inr [])"

definition exampleExt2 :: ext where
  "exampleExt2 = exampleExt\<lparr>x_marshal := exampleMarshal\<rparr>"

definition examplePost :: Post where
  "examplePost = \<lparr>po_Id = [], po_Author = replicate 32 1, po_Timestamp = 0,
     po_Content = ''hello'', po_MediaCids = [], po_ReplyTo = [], po_RepostOf = [], po_Tags = [],
     po_Signature = []\<rparr>"

definition signedExample :: "byte \<Rightarrow> Post" where
  "signedExample b = examplePost\<lparr>po_Id := 18 # 32 # examplePostBytes examplePost,
     po_Signature := replicate 64 b\<rparr>"

lemma signedExample_valid:
  "ValidatePost exampleExt2 init_vglobals 0 (Some (signedExample b)) None = None"
proof -
  have "RuneCountInString ''hello'' \<le> MaxContentLength"
    using RuneCountInString_le [of "''hello''"] by (simp add: MaxContentLength_def)
  then show ?thesis
    by (simp add: ValidatePost.simps signedExample_def examplePost_def Ed25519PublicKeySize_def
        checkSigned_None validateTimestamp_def toInt64_def init_vglobals_def MaxFutureSkew_def
        DefaultMaxPastAge_def msec_def Ed25519SignatureSize_def postSigningPayload_def
        exampleExt2_def exampleExt_def exampleMarshal_def verifyCID_None ComputeCID_def exampleSum_def)
qed

theorem identifier_immutable_witness:
  "ValidatePost exampleExt2 init_vglobals 0 (Some (signedExample 3)) None = None \<and>
   (signedExample 3)\<lparr>po_Signature := []\<rparr> = (signedExample 4)\<lparr>po_Signature := []\<rparr>"
proof (rule conjI)
  show "(signedExample 3)\<lparr>po_Signature := []\<rparr> = (signedExample 4)\<lparr>po_Signature := []\<rparr>"
    by (rule identifier_immutable [OF _ _ signedExample_valid signedExample_valid])
       (auto simp: exampleExt2_def exampleExt_def exampleMarshal_def exampleSum_def signedExample_def
          dest: examplePostBytes_inject)
qed (rule signedExample_valid)

subsection \<open>The timestamp window\<close>

text \<open>
  Outside historical synchronisation the accepted timestamps are exactly the milliseconds from
  \<open>now - maxPastAge\<close> to \<open>now + 5 min\<close>, read as unsigned numbers: a timestamp of \<open>2 ^ 63\<close> or more, whose
  conversion to \<open>int64\<close> is negative, is never accepted once the clock is past the window's length.
\<close>

theorem timestamp_window_exact:
  assumes "\<not> historicalSyncMode g" and "maxPastAge g \<le> now"
  shows "validateTimestamp g now ts = None \<longleftrightarrow>
     unat ts < 2 ^ 63 \<and> now - maxPastAge g \<le> int (unat ts) * msec \<and>
     int (unat ts) * msec \<le> now + MaxFutureSkew"
proof (cases "unat ts < 2 ^ 63")
  case True
  then show ?thesis
    using assms toInt64_small [OF True] by (auto simp: validateTimestamp_def Let_def)
next
  case False
  then have "toInt64 ts < 0" by (intro toInt64_big) simp
  then have "toInt64 ts * msec < 0" by (simp add: msec_def)
  then have "toInt64 ts * msec < now - maxPastAge g" using assms(2) by linarith
  with False assms(1) show ?thesis by (simp add: validateTimestamp_def Let_def)
qed

theorem timestamp_window_exact_witness:
  "validateTimestamp init_vglobals (DefaultMaxPastAge + 7 * msec) 7 = None"
  using timestamp_window_exact [of init_vglobals "DefaultMaxPastAge + 7 * msec" 7]
  by (simp add: init_vglobals_def DefaultMaxPastAge_def MaxFutureSkew_def msec_def)

text \<open>
  In historical synchronisation the wrap-around shows: a timestamp of \<open>2 ^ 63\<close> or more is beyond
  the allowed skew, and yet it is accepted, because its conversion to \<open>int64\<close> is negative and only
  the past-age check, which this mode skips, would have caught it.
\<close>

theorem historical_future_accepted:
  assumes "historicalSyncMode g" and "0 \<le> now" and "now + MaxFutureSkew < 2 ^ 63 * msec"
    and "2 ^ 63 \<le> unat ts"
  shows "now + MaxFutureSkew < int (unat ts) * msec \<and> validateTimestamp g now ts = None"
proof -
  have "toInt64 ts * msec < 0" using toInt64_big [OF assms(4)] by (simp add: msec_def)
  moreover have "int (2 ^ 63) \<le> int (unat ts)" using assms(4) by (simp only: of_nat_le_iff)
  then have "2 ^ 63 * msec \<le> int (unat ts) * msec"
    by (intro mult_right_mono) (auto simp: msec_def)
  ultimately show ?thesis
    using assms(1-3) by (auto simp: validateTimestamp_def Let_def MaxFutureSkew_def msec_def)
qed

theorem historical_future_accepted_witness:
  "validateTimestamp (SetHistoricalSyncMode True init_vglobals) 0 (2 ^ 63) = None"
  using historical_future_accepted [of "SetHistoricalSyncMode True init_vglobals" 0 "2 ^ 63"]
  by (simp add: SetHistoricalSyncMode_def MaxFutureSkew_def msec_def)

subsection \<open>Bounded messages\<close>

lemma RuneCount_length: "RuneCountInString s \<le> n \<Longrightarrow> length s \<le> 4 * n"
  using length_le_RuneCountInString [of s] by linarith

lemma ValidatePost_bounded:
  assumes "ValidatePost x g now (Some p) v = None"
  shows "length (po_Content p) \<le> 20000 \<and> length (po_MediaCids p) \<le> 10 \<and>
         (po_ReplyTo p = [] \<or> po_RepostOf p = []) \<and>
         (po_Content p \<noteq> [] \<or> po_MediaCids p \<noteq> [] \<or> po_RepostOf p \<noteq> [])"
  using assms RuneCount_length [of "po_Content p" 5000]
  by (auto simp: ValidatePost.simps MaxContentLength_def MaxMediaCIDs_def not_less split: if_splits)

lemma ValidateProfile_bounded:
  assumes "ValidateProfile x g now (Some p) v = None"
  shows "0 < length (pr_DisplayName p) \<and> length (pr_DisplayName p) \<le> 200 \<and>
         length (pr_Bio p) \<le> 2000 \<and> length (pr_Website p) \<le> 200"
  using assms RuneCount_length [of "pr_DisplayName p" 50] RuneCount_length [of "pr_Bio p" 500]
  by (auto simp: ValidateProfile.simps MaxDisplayNameLength_def MaxBioLength_def
      MaxWebsiteLength_def not_less split: if_splits)

lemma ValidateMediaObject_bounded:
  assumes "ValidateMediaObject x g now (Some m) v = None"
  shows "0 < unat (mo_Size m) \<and> unat (mo_Size m) \<le> MaxMediaSize \<and>
         length (mo_ChunkCids m) = unat (mo_ChunkCount m) \<and> mo_ChunkCids m \<noteq> [] \<and>
         mo_MimeType m \<in> set supportedMediaTypes"
proof -
  have "unat (of_nat MaxMediaSize :: 64 word) = MaxMediaSize"
    by (simp add: unat_of_nat MaxMediaSize_def)
  with assms show ?thesis
    by (auto simp: ValidateMediaObject.simps ValidateMediaType_def word_less_nat_alt not_less
        unat_gt_0 unat_eq_zero split: if_splits option.splits)
qed

text \<open>
  Accepted messages are of bounded size, in bytes, although the code counts characters: a post
  has at most 20000 bytes of text and 10 media references, is not empty and is not both a reply and
  a repost; a profile has 1 to 200 bytes of name, at most 2000 of biography and 200 of website; a
  media object has a supported type, 1 byte to 100 MiB and as many chunks as it claims, at least one.
\<close>

theorem accepted_is_bounded:
  assumes "validateMessage x g now m v = None"
  shows "case m of
      MPost p \<Rightarrow> length (po_Content p) \<le> 20000 \<and> length (po_MediaCids p) \<le> 10 \<and>
        (po_ReplyTo p = [] \<or> po_RepostOf p = []) \<and>
        (po_Content p \<noteq> [] \<or> po_MediaCids p \<noteq> [] \<or> po_RepostOf p \<noteq> [])
    | MProfile p \<Rightarrow> 0 < length (pr_DisplayName p) \<and> length (pr_DisplayName p) \<le> 200 \<and>
        length (pr_Bio p) \<le> 2000 \<and> length (pr_Website p) \<le> 200
    | MMediaObject obj \<Rightarrow> 0 < unat (mo_Size obj) \<and> unat (mo_Size obj) \<le> MaxMediaSize \<and>
        length (mo_ChunkCids obj) = unat (mo_ChunkCount obj) \<and> mo_ChunkCids obj \<noteq> [] \<and>
        mo_MimeType obj \<in> set supportedMediaTypes
    | _ \<Rightarrow> True"
proof (cases m)
  case (MPost p)
  with assms show ?thesis using ValidatePost_bounded [of x g now p v] by simp
next
  case (MProfile p)
  with assms show ?thesis using ValidateProfile_bounded [of x g now p v] by simp
next
  case (MMediaObject p)
  with assms show ?thesis using ValidateMediaObject_bounded [of x g now p v] by simp
qed simp_all

theorem accepted_is_bounded_witness: "length (po_Content (signedExample 3)) \<le> 20000"
  using accepted_is_bounded [of exampleExt2 init_vglobals 0 "MPost (signedExample 3)" None]
    signedExample_valid [of 3]
  by simp

end
