(* ===== verification/ContentStore.thy ===== *)
theory ContentStore
  imports Chunking "HOL-Library.AList"
begin

text \<open>
  The content-addressed store of \<open>pkg/content/store.go\<close> and the atomic file writes of
  \<open>pkg/content/fileio.go\<close> over a model of the file system. A path is the list of its components; the
  file system is a table of nodes. Every system call may fail: \<open>fs_faults\<close> gives, for the n-th call,
  the error it returns and how many bytes a failing write still wrote. A crash in the middle of an
  operation leaves the state of a run in which all later calls fail.
\<close>

section \<open>The file system\<close>

type_synonym path = "string list"

datatype fnode = FFile nat bytes | FDir nat

record fs =
  fs_nodes :: "(path \<times> fnode) list"
  fs_faults :: "nat \<Rightarrow> (goerr \<times> nat) option"
  fs_suffix :: "nat \<Rightarrow> string"
  fs_step :: nat

definition node :: "fs \<Rightarrow> path \<Rightarrow> fnode option" where
  "node s p = map_of (fs_nodes s) p"

definition setNode :: "path \<Rightarrow> fnode \<Rightarrow> fs \<Rightarrow> fs" where
  "setNode p n s = s\<lparr>fs_nodes := AList.update p n (fs_nodes s)\<rparr>"

definition delNode :: "path \<Rightarrow> fs \<Rightarrow> fs" where
  "delNode p s = s\<lparr>fs_nodes := AList.delete p (fs_nodes s)\<rparr>"

text \<open>One system call: a fault returns its error, after the partial effect of the call if any.\<close>

definition sysE :: "(nat \<Rightarrow> fs \<Rightarrow> fs) \<Rightarrow> (fs, 'a) go \<Rightarrow> (fs, 'a) go" where
  "sysE partial m = (\<lambda>s.
     let s1 = s\<lparr>fs_step := Suc (fs_step s)\<rparr> in
     case fs_faults s (fs_step s) of
       Some (e, k) \<Rightarrow> (Inl e, partial k s1)
     | None \<Rightarrow> m s1)"

abbreviation callE :: "(fs, 'a) go \<Rightarrow> (fs, 'a) go" where
  "callE m \<equiv> sysE (\<lambda>_ s. s) m"

text \<open>\<open>os.Stat\<close>: \<open>None\<close> is the error for which \<open>os.IsNotExist\<close> holds.\<close>

definition osStat :: "path \<Rightarrow> (fs, fnode option) go" where
  "osStat p = callE (getE (\<lambda>s. node s p))"

definition osChmod :: "path \<Rightarrow> nat \<Rightarrow> (fs, unit) go" where
  "osChmod p mode = callE (bindE (getE (\<lambda>s. node s p)) (\<lambda>n. case n of
      None \<Rightarrow> throwE (Err ''no such file or directory'')
    | Some (FDir _) \<Rightarrow> modifyE (setNode p (FDir mode))
    | Some (FFile _ d) \<Rightarrow> modifyE (setNode p (FFile mode d))))"

definition osMkdir :: "nat \<Rightarrow> path \<Rightarrow> (fs, unit) go" where
  "osMkdir mode p = callE (bindE (getE (\<lambda>s. node s p)) (\<lambda>n. case n of
      Some (FDir _) \<Rightarrow> retE ()
    | Some (FFile _ _) \<Rightarrow> throwE (Err ''not a directory'')
    | None \<Rightarrow> modifyE (setNode p (FDir mode))))"

definition osMkdirAll :: "path \<Rightarrow> nat \<Rightarrow> (fs, unit) go" where
  "osMkdirAll p mode = forE (osMkdir mode) (map (\<lambda>k. take k p) [1..<Suc (length p)])"

text \<open>
  \<open>os.CreateTemp(dir, base + ".tmp-*")\<close>: the random part of the name is \<open>fs_suffix\<close>; the file is new.
\<close>

definition osCreateTemp :: "path \<Rightarrow> string \<Rightarrow> (fs, path) go" where
  "osCreateTemp dir base = callE (\<lambda>s.
     let t = dir @ [base @ ''.tmp-'' @ fs_suffix s (fs_step s)] in
     case node s dir of
       Some (FDir _) \<Rightarrow> (if node s t = None then (Inr t, setNode t (FFile 384 []) s)
                        else (Inl (Err ''file exists''), s))
     | _ \<Rightarrow> (Inl (Err ''no such file or directory''), s))"

definition appendFile :: "path \<Rightarrow> bytes \<Rightarrow> fs \<Rightarrow> fs" where
  "appendFile p d s = (case node s p of Some (FFile m d0) \<Rightarrow> setNode p (FFile m (d0 @ d)) s | _ \<Rightarrow> s)"

definition fileWrite :: "path \<Rightarrow> bytes \<Rightarrow> (fs, unit) go" where
  "fileWrite p d = sysE (\<lambda>k. appendFile p (take k d)) (modifyE (appendFile p d))"

text \<open>\<open>io.Copy(f, r)\<close>: the bytes the reader delivers, then its error.\<close>

definition ioCopy :: "path \<Rightarrow> reader \<Rightarrow> (fs, unit) go" where
  "ioCopy p r = seqE (fileWrite p (r_data r))
     (case r_err r of None \<Rightarrow> retE () | Some e \<Rightarrow> throwE e)"

definition fileSync :: "(fs, unit) go" where "fileSync = callE (retE ())"
definition fileClose :: "(fs, unit) go" where "fileClose = callE (retE ())"

definition osRename :: "path \<Rightarrow> path \<Rightarrow> (fs, unit) go" where
  "osRename a b = callE (\<lambda>s. case node s a of
      Some (FFile m d) \<Rightarrow>
        (case node s b of
           Some (FDir _) \<Rightarrow> (Inl (Err ''file exists''), s)
         | _ \<Rightarrow> (Inr (), delNode a (setNode b (FFile m d) s)))
    | _ \<Rightarrow> (Inl (Err ''no such file or directory''), s))"

definition osRemove :: "path \<Rightarrow> (fs, unit) go" where
  "osRemove p = callE (\<lambda>s. case node s p of
      None \<Rightarrow> (Inl (Err ''no such file or directory''), s)
    | Some (FFile _ _) \<Rightarrow> (Inr (), delNode p s)
    | Some (FDir _) \<Rightarrow>
        (if list_ex (\<lambda>(q, _). length p < length q \<and> take (length p) q = p) (fs_nodes s)
         then (Inl (Err ''directory not empty''), s) else (Inr (), delNode p s)))"

definition osOpen :: "path \<Rightarrow> (fs, path) go" where
  "osOpen p = callE (bindE (getE (\<lambda>s. node s p)) (\<lambda>n. case n of
      None \<Rightarrow> throwE (Err ''no such file or directory'')
    | Some _ \<Rightarrow> retE p))"

definition osReadFile :: "path \<Rightarrow> (fs, bytes) go" where
  "osReadFile p = callE (bindE (getE (\<lambda>s. node s p)) (\<lambda>n. case n of
      None \<Rightarrow> throwE (Err ''no such file or directory'')
    | Some (FDir _) \<Rightarrow> throwE (Err ''is a directory'')
    | Some (FFile _ d) \<Rightarrow> retE d))"

section \<open>Atomic writes\<close>

definition syncDirectory :: "path \<Rightarrow> (fs, unit) go" where
  "syncDirectory p =
     seqE (wrapE ''open directory'' (osOpen p))
       (catchE fileSync (\<lambda>e.
          if e = Err ''EINVAL'' \<or> e = Err ''ENOTSUP'' \<or> e = Err ''EOPNOTSUPP'' then retE ()
          else throwE (wrap ''sync directory'' e)))"

definition ensureDirectory :: "path \<Rightarrow> nat \<Rightarrow> (fs, unit) go" where
  "ensureDirectory p mode =
     bindE (wrapE ''stat directory'' (osStat p)) (\<lambda>info. case info of
       Some (FFile _ _) \<Rightarrow> throwE (Err ''not a directory'')
     | Some (FDir m) \<Rightarrow> whenE (m \<noteq> mode) (wrapE ''set directory permissions'' (osChmod p mode))
     | None \<Rightarrow>
         seqE (wrapE ''create directory'' (osMkdirAll p mode))
        (seqE (wrapE ''set directory permissions'' (osChmod p mode))
              (wrapE ''sync parent directory'' (syncDirectory (butlast p)))))"

text \<open>
  \<open>writeFileAtomic\<close> and \<open>writeFileAtomicFromReader\<close> have the same statements but for the one that
  writes the temporary file, which is the argument \<open>body\<close>.
\<close>

definition writeAtomically :: "path \<Rightarrow> nat \<Rightarrow> (path \<Rightarrow> (fs, unit) go) \<Rightarrow> (fs, unit) go" where
  "writeAtomically p mode body =
     (let dir = butlast p in
      bindE (wrapE ''create temp file'' (osCreateTemp dir (last p))) (\<lambda>tempPath.
      deferE
        (seqE (wrapE ''set file permissions'' (osChmod tempPath mode))
        (seqE (wrapE ''write file'' (body tempPath))
        (seqE (wrapE ''sync file'' fileSync)
        (seqE (wrapE ''close file'' fileClose)
        (seqE (wrapE ''replace file'' (osRename tempPath p))
              (wrapE ''sync directory'' (syncDirectory dir)))))))
        (osRemove tempPath)))"

definition writeFileAtomic :: "path \<Rightarrow> bytes \<Rightarrow> nat \<Rightarrow> (fs, unit) go" where
  "writeFileAtomic p data mode = writeAtomically p mode (\<lambda>t. fileWrite t data)"

definition writeFileAtomicFromReader :: "path \<Rightarrow> reader \<Rightarrow> nat \<Rightarrow> (fs, unit) go" where
  "writeFileAtomicFromReader p r mode = writeAtomically p mode (\<lambda>t. ioCopy t r)"

section \<open>The content store\<close>

text \<open>\<open>hexCID[:2]\<close> panics on the empty string, which is the hexadecimal form of an empty identifier.\<close>

definition objectPath :: "path \<Rightarrow> bytes \<Rightarrow> goerr + path" where
  "objectPath basePath cid =
     (let hexCID = CIDToHex cid in
      if length hexCID < 2 then Inl (Panic ''slice bounds out of range [:2]'')
      else Inr (basePath @ [take 2 hexCID, hexCID]))"

definition NewContentStore :: "path \<Rightarrow> (fs, path) go" where
  "NewContentStore basePath =
     seqE (wrapE ''failed to create content store directory'' (ensureDirectory basePath 448))
       (retE basePath)"

definition Put :: "path \<Rightarrow> bytes \<Rightarrow> bytes \<Rightarrow> (fs, unit) go" where
  "Put basePath cid data =
     bindE (liftE (objectPath basePath cid)) (\<lambda>p.
       seqE (wrapE ''failed to create shard directory'' (ensureDirectory (butlast p) 448))
            (wrapE ''failed to write content'' (writeFileAtomic p data 420)))"

definition PutReader :: "path \<Rightarrow> bytes \<Rightarrow> reader \<Rightarrow> (fs, unit) go" where
  "PutReader basePath cid r =
     bindE (liftE (objectPath basePath cid)) (\<lambda>p.
       seqE (wrapE ''failed to create shard directory'' (ensureDirectory (butlast p) 448))
            (wrapE ''failed to write content'' (writeFileAtomicFromReader p r 420)))"

definition OpenContent :: "path \<Rightarrow> bytes \<Rightarrow> (fs, path) go" where
  "OpenContent basePath cid =
     bindE (liftE (objectPath basePath cid)) (\<lambda>p. wrapE ''failed to open content'' (osOpen p))"

definition Get :: "path \<Rightarrow> bytes \<Rightarrow> (fs, bytes) go" where
  "Get basePath cid =
     bindE (liftE (objectPath basePath cid)) (\<lambda>p. wrapE ''failed to read content'' (osReadFile p))"

definition Has :: "path \<Rightarrow> bytes \<Rightarrow> (fs, bool) go" where
  "Has basePath cid =
     bindE (liftE (objectPath basePath cid)) (\<lambda>p.
       catchE (bindE (osStat p) (\<lambda>n. retE (n \<noteq> None))) (\<lambda>_. retE False))"

definition Delete :: "path \<Rightarrow> bytes \<Rightarrow> (fs, unit) go" where
  "Delete basePath cid =
     bindE (liftE (objectPath basePath cid)) (\<lambda>p. wrapE ''failed to delete content'' (osRemove p))"

text \<open>\<open>DirSize\<close> walks the tree and never reports an error: the callback swallows every one.\<close>

definition DirSize :: "fs \<Rightarrow> path \<Rightarrow> int" where
  "DirSize s p = sum_list (map (\<lambda>(q, n). case n of
      FFile _ d \<Rightarrow> if take (length p) q = p then int (length d) else 0
    | FDir _ \<Rightarrow> 0) (fs_nodes s))"

section \<open>Paths of objects\<close>

lemma node_setNode [simp]: "node (setNode p n s) q = (if q = p then Some n else node s q)"
  by (simp add: node_def setNode_def update_conv')

lemma node_delNode [simp]: "node (delNode p s) q = (if q = p then None else node s q)"
  by (simp add: node_def delNode_def delete_conv')

lemma node_step [simp]: "node (s\<lparr>fs_step := k\<rparr>) q = node s q"
  by (simp add: node_def)

definition objPath :: "path \<Rightarrow> bytes \<Rightarrow> path" where
  "objPath base cid = base @ [take 2 (EncodeToString cid), EncodeToString cid]"

lemma objectPath_eq:
  "objectPath base cid =
     (if cid = [] then Inl (Panic ''slice bounds out of range [:2]'') else Inr (objPath base cid))"
proof -
  have "length (EncodeToString cid) < 2 \<longleftrightarrow> cid = []" by simp
  then show ?thesis by (simp only: objectPath_def CIDToHex_def objPath_def Let_def)
qed

lemma objPath_inject [simp]: "objPath base a = objPath base b \<longleftrightarrow> a = b"
  by (auto simp: objPath_def)

lemma length_objPath [simp]: "length (objPath base cid) = length base + 2"
  by (simp add: objPath_def)

lemma butlast_objPath [simp]: "butlast (objPath base cid) = base @ [take 2 (EncodeToString cid)]"
  by (simp add: objPath_def butlast_append)

lemma last_objPath [simp]: "last (objPath base cid) = EncodeToString cid"
  by (simp add: objPath_def)

text \<open>A temporary file has a name with a dot, which no object has.\<close>

definition tempPath :: "path \<Rightarrow> bool" where
  "tempPath t \<longleftrightarrow> CHR ''.'' \<in> set (last t)"

lemma tempPath_objPath [simp]: "\<not> tempPath (objPath base cid)"
  using set_EncodeToString [of cid] by (auto simp: tempPath_def hexDigits_def)

lemma short_not_objPath: "length p < length base + 2 \<Longrightarrow> p \<noteq> objPath base cid"
  by (metis length_objPath less_irrefl)

text \<open>
  \<open>objs base D s\<close>: the nodes of the store's objects are as \<open>D\<close> says. Every operation is described by
  what it makes of \<open>D\<close>, whatever it does to directories and temporary files.
\<close>

definition objs :: "path \<Rightarrow> (bytes \<Rightarrow> fnode option) \<Rightarrow> fs \<Rightarrow> bool" where
  "objs base D s \<longleftrightarrow> (\<forall>c. c \<noteq> [] \<longrightarrow> node s (objPath base c) = D c)"

lemma objs_step [simp]: "objs base D (s\<lparr>fs_step := k\<rparr>) = objs base D s"
  by (simp add: objs_def)

lemma objs_setNode [simp]:
  "(\<And>c. p \<noteq> objPath base c) \<Longrightarrow> objs base D (setNode p n s) = objs base D s"
  "(\<And>c. p \<noteq> objPath base c) \<Longrightarrow> objs base D (delNode p s) = objs base D s"
  by (auto simp: objs_def)

lemma objs_appendFile:
  "(\<And>c. p \<noteq> objPath base c) \<Longrightarrow> objs base D (appendFile p d s) = objs base D s"
  by (auto simp: appendFile_def split: option.splits fnode.splits)

lemma tempPath_not_objPath: "tempPath t \<Longrightarrow> t \<noteq> objPath base c"
  using tempPath_objPath by blast

section \<open>What the system calls do to the objects\<close>

lemma triple_sysE:
  assumes "\<And>s k. P s \<Longrightarrow> E (partial k (s\<lparr>fs_step := Suc (fs_step s)\<rparr>))"
    and "triple (\<lambda>s. P s) m Q E"
    and "\<And>s k. P s \<Longrightarrow> P (s\<lparr>fs_step := k\<rparr>)"
  shows "triple P (sysE partial m) Q E"
proof -
  have step: "P (s\<lparr>fs_step := k\<rparr>)" if "P s" for s k using assms(3) that .
  show ?thesis
    using assms(1) tripleD_Inr [OF assms(2) step] tripleD_Inl [OF assms(2) step]
    unfolding triple_def sysE_def by (auto simp: Let_def split: option.splits)
qed

lemma keeps_callE: "keeps I m \<Longrightarrow> (\<And>s k. I s \<Longrightarrow> I (s\<lparr>fs_step := k\<rparr>)) \<Longrightarrow> keeps I (callE m)"
  unfolding keeps_def sysE_def by (auto simp: Let_def split: option.splits)

lemma keeps_objs_modifyE:
  "(\<And>s. objs base D (f s) = objs base D s) \<Longrightarrow> keeps (objs base D) (modifyE f)"
  by (rule keeps_modifyE) simp

lemma keeps_objs_read [keeps_intro]:
  "keeps (objs base D) (osStat p)" "keeps (objs base D) (osOpen p)"
  "keeps (objs base D) (osReadFile p)" "keeps (objs base D) fileSync"
  "keeps (objs base D) fileClose"
  unfolding osStat_def osOpen_def osReadFile_def fileSync_def fileClose_def
  by (auto intro!: keeps_callE keeps_intro split: option.splits fnode.splits)

lemma keeps_objs_syncDirectory [keeps_intro]: "keeps (objs base D) (syncDirectory p)"
  unfolding syncDirectory_def by (intro keeps_intro)

lemma keeps_objs_osRemove:
  "(\<And>c. p \<noteq> objPath base c) \<Longrightarrow> keeps (objs base D) (osRemove p)"
  unfolding osRemove_def
  by (rule keeps_callE) (auto simp: keeps_def split: option.splits fnode.splits)

lemma keeps_objs_dirs:
  assumes "\<And>c. p \<noteq> objPath base c"
  shows "keeps (objs base D) (osChmod p mode)" "keeps (objs base D) (osMkdir mode p)"
  unfolding osChmod_def osMkdir_def using assms
  by (auto intro!: keeps_callE keeps_intro keeps_objs_modifyE split: option.splits fnode.splits)

lemma keeps_objs_osMkdirAll:
  assumes "length p < length base + 2"
  shows "keeps (objs base D) (osMkdirAll p mode)"
proof -
  have "keeps (objs base D) (forE (osMkdir mode) (map (\<lambda>k. take k p) ks))" for ks
  proof (induction ks)
    case (Cons k ks)
    have "length (take k p) < length base + 2" using assms by simp
    then have "keeps (objs base D) (osMkdir mode (take k p))"
      by (intro keeps_objs_dirs short_not_objPath)
    with Cons show ?case by (auto intro: keeps_intro)
  qed (simp only: list.map forE.simps keeps_retE)
  then show ?thesis by (simp add: osMkdirAll_def)
qed

lemma keeps_objs_ensureDirectory:
  assumes "length p < length base + 2"
  shows "keeps (objs base D) (ensureDirectory p mode)"
  unfolding ensureDirectory_def using assms
  by (auto intro!: keeps_intro keeps_objs_osMkdirAll keeps_objs_dirs short_not_objPath
      split: option.splits fnode.splits)

section \<open>Atomic replacement\<close>

text \<open>\<open>temp base D t n\<close>: the objects are \<open>D\<close> and the temporary file \<open>t\<close> is the node \<open>n\<close>.\<close>

definition temp :: "path \<Rightarrow> (bytes \<Rightarrow> fnode option) \<Rightarrow> path \<Rightarrow> fnode \<Rightarrow> fs \<Rightarrow> bool" where
  "temp base D t n s \<longleftrightarrow> objs base D s \<and> tempPath t \<and> node s t = Some n"

lemma temp_step [simp]: "temp base D t n (s\<lparr>fs_step := k\<rparr>) = temp base D t n s"
  by (simp add: temp_def)

lemma triple_osCreateTemp:
  "triple (objs base D) (osCreateTemp dir b) (\<lambda>t. temp base D t (FFile 384 [])) (objs base D)"
  unfolding osCreateTemp_def
  by (rule triple_sysE)
     (auto simp: triple_def temp_def tempPath_def tempPath_not_objPath Let_def
       split: option.splits fnode.splits if_splits)

lemma triple_chmodTemp:
  "triple (temp base D t (FFile m d)) (osChmod t mode) (\<lambda>_. temp base D t (FFile mode d)) (objs base D)"
  unfolding osChmod_def
  by (rule triple_sysE) (auto simp: triple_def temp_def tempPath_not_objPath run_bindE)

lemma triple_fileWrite:
  "triple (temp base D t (FFile m d0)) (fileWrite t d) (\<lambda>_. temp base D t (FFile m (d0 @ d)))
     (objs base D)"
  unfolding fileWrite_def
  by (rule triple_sysE)
     (auto simp: triple_def temp_def tempPath_not_objPath objs_appendFile, simp add: appendFile_def)

lemma triple_ioCopy:
  "triple (temp base D t (FFile m d0)) (ioCopy t r)
     (\<lambda>_. temp base D t (FFile m (d0 @ r_data r))) (objs base D)"
  unfolding ioCopy_def
  by (rule triple_seqE [OF triple_fileWrite])
     (auto simp: temp_def intro: triple_retE triple_throwE split: option.splits)

lemma triple_noop:
  "triple (temp base D t n) (callE (retE ())) (\<lambda>_. temp base D t n) (objs base D)"
  by (rule triple_sysE) (auto simp: triple_def temp_def)

lemma triple_osRename:
  "c \<noteq> [] \<Longrightarrow> triple (temp base D t (FFile m d)) (osRename t (objPath base c))
     (\<lambda>_. objs base (D(c \<mapsto> FFile m d))) (objs base D)"
  unfolding osRename_def
  by (rule triple_sysE)
     (auto simp: triple_def temp_def objs_def tempPath_not_objPath
       dest: tempPath_not_objPath split: option.splits fnode.splits)

text \<open>
  Whatever fails, the object is either the old one or the complete new one, and no other object
  changes; a write that reports success has installed the new one.
\<close>

lemma writeAtomically_triple:
  assumes c: "c \<noteq> []"
    and body: "\<And>t. triple (temp base D t (FFile mode [])) (body t)
      (\<lambda>_. temp base D t (FFile mode d)) (objs base D)"
  shows "triple (objs base D) (writeAtomically (objPath base c) mode body)
     (\<lambda>_. objs base (D(c \<mapsto> FFile mode d)))
     (\<lambda>s. objs base D s \<or> objs base (D(c \<mapsto> FFile mode d)) s)"
    (is "triple _ _ ?Q ?E")
proof -
  have err: "triple P m Q (objs base D) \<Longrightarrow> triple P m Q ?E" for P Q and m :: "(fs, 'b) go"
    by (erule triple_conseq) auto
  have keep: "keeps (objs base D') (osRemove t)" if "tempPath t" for t D'
    using that by (intro keeps_objs_osRemove tempPath_not_objPath)
  have keepE: "keeps ?E (osRemove t)" if "tempPath t" for t
    using keep [OF that] by (auto simp: keeps_def)
  have inner: "triple (temp base D t (FFile 384 []))
      (seqE (wrapE w1 (osChmod t mode)) (seqE (wrapE w2 (body t)) (seqE (wrapE w3 fileSync)
        (seqE (wrapE w4 fileClose) (seqE (wrapE w5 (osRename t (objPath base c)))
          (wrapE w6 (syncDirectory dir))))))) ?Q ?E" for t w1 w2 w3 w4 w5 w6 dir
    unfolding fileSync_def fileClose_def
    by (rule triple_seqE [OF triple_wrapE [OF err [OF triple_chmodTemp]]],
        rule triple_seqE [OF triple_wrapE [OF err [OF body]]],
        rule triple_seqE [OF triple_wrapE [OF err [OF triple_noop]]],
        rule triple_seqE [OF triple_wrapE [OF err [OF triple_noop]]],
        rule triple_seqE [OF triple_wrapE [OF err [OF triple_osRename [OF c]]]],
        rule triple_wrapE, rule triple_conseq [OF triple_keeps [OF keeps_objs_syncDirectory]])
       auto
  show ?thesis
    unfolding writeAtomically_def Let_def
  proof (rule triple_bindE [OF triple_wrapE [OF err [OF triple_osCreateTemp]]])
    fix t
    show "triple (temp base D t (FFile 384 [])) (deferE
        (seqE (wrapE ''set file permissions'' (osChmod t mode)) (seqE (wrapE ''write file'' (body t))
        (seqE (wrapE ''sync file'' fileSync) (seqE (wrapE ''close file'' fileClose)
        (seqE (wrapE ''replace file'' (osRename t (objPath base c)))
        (wrapE ''sync directory'' (syncDirectory (butlast (objPath base c)))))))))
        (osRemove t)) ?Q ?E"
    proof (cases "tempPath t")
      case True
      show ?thesis by (rule triple_deferE [OF inner keep [OF True] keepE [OF True]])
    next
      case False
      then show ?thesis by (simp add: triple_def temp_def)
    qed
  qed
qed

lemma putPath_triple:
  assumes "c \<noteq> []"
    and "triple (objs base D) w (\<lambda>_. objs base D') (\<lambda>s. objs base D s \<or> objs base D' s)"
  shows "triple (objs base D)
     (seqE (wrapE u (ensureDirectory (butlast (objPath base c)) mode)) (wrapE v w))
     (\<lambda>_. objs base D') (\<lambda>s. objs base D s \<or> objs base D' s)"
proof (rule triple_seqE)
  show "triple (objs base D) (wrapE u (ensureDirectory (butlast (objPath base c)) mode))
      (\<lambda>_. objs base D) (\<lambda>s. objs base D s \<or> objs base D' s)"
    by (rule triple_conseq [OF triple_keeps [OF keeps_wrapE [OF keeps_objs_ensureDirectory]]]) auto
qed (rule triple_wrapE [OF assms(2)])

lemma Put_triple:
  assumes "c \<noteq> []"
  shows "triple (objs base D) (Put base c d) (\<lambda>_. objs base (D(c \<mapsto> FFile 420 d)))
     (\<lambda>s. objs base D s \<or> objs base (D(c \<mapsto> FFile 420 d)) s)"
proof -
  have "Put base c d = seqE
      (wrapE ''failed to create shard directory'' (ensureDirectory (butlast (objPath base c)) 448))
      (wrapE ''failed to write content'' (writeFileAtomic (objPath base c) d 420))"
    using assms by (simp add: Put_def objectPath_eq fun_eq_iff)
  moreover have "triple (objs base D) (writeFileAtomic (objPath base c) d 420)
      (\<lambda>_. objs base (D(c \<mapsto> FFile 420 d)))
      (\<lambda>s. objs base D s \<or> objs base (D(c \<mapsto> FFile 420 d)) s)"
    unfolding writeFileAtomic_def
    by (rule writeAtomically_triple [OF assms])
       (rule triple_fileWrite [where ?d0.0 = "[]", unfolded append_Nil])
  ultimately show ?thesis by (simp only:) (rule putPath_triple [OF assms])
qed

lemma PutReader_triple:
  assumes "c \<noteq> []"
  shows "triple (objs base D) (PutReader base c r)
     (\<lambda>_. objs base (D(c \<mapsto> FFile 420 (r_data r))))
     (\<lambda>s. objs base D s \<or> objs base (D(c \<mapsto> FFile 420 (r_data r))) s)"
proof -
  have "PutReader base c r = seqE
      (wrapE ''failed to create shard directory'' (ensureDirectory (butlast (objPath base c)) 448))
      (wrapE ''failed to write content'' (writeFileAtomicFromReader (objPath base c) r 420))"
    using assms by (simp add: PutReader_def objectPath_eq fun_eq_iff)
  moreover have "triple (objs base D) (writeFileAtomicFromReader (objPath base c) r 420)
      (\<lambda>_. objs base (D(c \<mapsto> FFile 420 (r_data r))))
      (\<lambda>s. objs base D s \<or> objs base (D(c \<mapsto> FFile 420 (r_data r))) s)"
    unfolding writeFileAtomicFromReader_def
    by (rule writeAtomically_triple [OF assms])
       (rule triple_ioCopy [where ?d0.0 = "[]", unfolded append_Nil])
  ultimately show ?thesis by (simp only:) (rule putPath_triple [OF assms])
qed

section \<open>The store as a map\<close>

text \<open>The abstract state: what is stored under an identifier.\<close>

definition contents :: "path \<Rightarrow> fs \<Rightarrow> bytes \<Rightarrow> bytes option" where
  "contents base s c =
     (if c = [] then None
      else case node s (objPath base c) of Some (FFile _ d) \<Rightarrow> Some d | _ \<Rightarrow> None)"

lemma contents_objs:
  "objs base D s \<Longrightarrow> contents base s =
     (\<lambda>c. if c = [] then None else case D c of Some (FFile _ d) \<Rightarrow> Some d | _ \<Rightarrow> None)"
  by (auto simp: contents_def objs_def fun_eq_iff)

lemma objs_self: "objs base (\<lambda>c. node s (objPath base c)) s"
  by (simp add: objs_def)

lemma contents_objs_upd:
  "objs base ((\<lambda>c. node s (objPath base c))(c \<mapsto> FFile m d)) s' \<Longrightarrow> c \<noteq> [] \<Longrightarrow>
     contents base s' = (contents base s)(c \<mapsto> d)"
  by (drule contents_objs) (auto simp: contents_def fun_eq_iff)

lemma contents_objs_same:
  "objs base (\<lambda>c. node s (objPath base c)) s' \<Longrightarrow> contents base s' = contents base s"
  by (drule contents_objs) (auto simp: contents_def fun_eq_iff)

text \<open>
  The contract of an object store: what each operation makes of the map, on success and on failure.
\<close>

locale object_store =
  fixes contents_of :: "'s \<Rightarrow> bytes \<Rightarrow> bytes option"
    and put :: "bytes \<Rightarrow> bytes \<Rightarrow> ('s, unit) go"
    and get :: "bytes \<Rightarrow> ('s, bytes) go"
    and has :: "bytes \<Rightarrow> ('s, bool) go"
    and delete :: "bytes \<Rightarrow> ('s, unit) go"
  assumes put_ok: "put c d s = (Inr u, s') \<Longrightarrow> contents_of s' = (contents_of s)(c \<mapsto> d)"
    and put_err: "put c d s = (Inl e, s') \<Longrightarrow>
      contents_of s' = contents_of s \<or> contents_of s' = (contents_of s)(c \<mapsto> d)"
    and get_ok: "get c s = (Inr d, s') \<Longrightarrow> contents_of s c = Some d"
    and get_pure: "get c s = (r, s') \<Longrightarrow> contents_of s' = contents_of s"
    and has_pure: "has c s = (b, s') \<Longrightarrow> contents_of s' = contents_of s"
    and delete_ok: "delete c s = (Inr u, s') \<Longrightarrow> contents_of s' = (contents_of s)(c := None)"
    and delete_err: "delete c s = (Inl e, s') \<Longrightarrow> contents_of s' = contents_of s"
begin

lemma put_cases:
  "put c d s = (r, s') \<Longrightarrow>
     contents_of s' = contents_of s \<or> contents_of s' = (contents_of s)(c \<mapsto> d)"
  by (cases r) (auto dest: put_ok put_err)

lemma put_get:
  "put c d s = (Inr u, s1) \<Longrightarrow> get c' s1 = (Inr d', s2) \<Longrightarrow>
     ((contents_of s)(c \<mapsto> d)) c' = Some d'"
  using put_ok get_ok by metis

lemma delete_get: "delete c s = (Inr u, s1) \<Longrightarrow> get c s1 \<noteq> (Inr d, s2)"
  using delete_ok get_ok by fastforce

end

lemma Get_run:
  "Get base c s = (r, s') \<Longrightarrow>
     objs base (\<lambda>c. node s (objPath base c)) s' \<and>
     (\<forall>d. r = Inr d \<longrightarrow> contents base s c = Some d)"
  by (auto simp: Get_def objectPath_eq osReadFile_def sysE_def run_bindE run_wrapE Let_def
      contents_def objs_def split: if_splits option.splits prod.splits fnode.splits)

lemma keeps_objs_query:
  "keeps (objs base D) (Has base c)" "keeps (objs base D) (OpenContent base c)"
  "keeps (objs base D) (Get base c)"
  unfolding Has_def OpenContent_def Get_def by (intro keeps_intro)+

lemma Delete_run:
  "Delete base c s = (r, s') \<Longrightarrow>
     (case r of
        Inr _ \<Rightarrow> contents base s' = (contents base s)(c := None)
      | Inl _ \<Rightarrow> contents base s' = contents base s)"
  by (auto simp: Delete_def objectPath_eq osRemove_def sysE_def run_bindE run_wrapE Let_def
      contents_def fun_eq_iff
      split: if_splits option.splits prod.splits fnode.splits)

lemma Put_empty: "Put base [] d s = (Inl (Panic ''slice bounds out of range [:2]''), s)"
  by (simp add: Put_def objectPath_eq)

lemma PutReader_empty:
  "PutReader base [] r s = (Inl (Panic ''slice bounds out of range [:2]''), s)"
  by (simp add: PutReader_def objectPath_eq)

interpretation cas: object_store "contents base" "Put base" "Get base" "Has base" "Delete base"
  for base
proof unfold_locales
  fix c d u s s'
  assume p: "Put base c d s = (Inr u, s')"
  then have "c \<noteq> []" using Put_empty by fastforce
  with tripleD_Inr [OF Put_triple objs_self p] show "contents base s' = (contents base s)(c \<mapsto> d)"
    using contents_objs_upd by blast
next
  fix c d e s s'
  assume p: "Put base c d s = (Inl e, s')"
  show "contents base s' = contents base s \<or> contents base s' = (contents base s)(c \<mapsto> d)"
  proof (cases "c = []")
    case True
    with p show ?thesis by (simp add: Put_empty)
  next
    case False
    with tripleD_Inl [OF Put_triple objs_self p] show ?thesis
      using contents_objs_upd contents_objs_same by blast
  qed
qed (auto dest: Get_run Delete_run intro: contents_objs_same keepsD [OF keeps_objs_query(1) objs_self])

lemma PutReader_run:
  assumes "PutReader base c r s = (x, s')"
  shows "contents base s' = contents base s \<or>
         r_err r = None \<and> contents base s' = (contents base s)(c \<mapsto> r_data r)"
proof (cases "c = []")
  case True
  with assms show ?thesis by (simp add: PutReader_empty)
next
  case c: False
  show ?thesis
  proof (cases "r_err r")
    case None
    with assms c tripleD_Inl [OF PutReader_triple objs_self] tripleD_Inr [OF PutReader_triple objs_self]
    show ?thesis
      by (cases x) (blast intro: contents_objs_upd contents_objs_same)+
  next
    case (Some e)
    let ?D = "\<lambda>c. node s (objPath base c)"
    have "triple (temp base ?D t (FFile 420 [])) (ioCopy t r) Q (objs base ?D)" for t Q
      unfolding ioCopy_def using Some
      by (intro triple_seqE [OF triple_fileWrite]) (auto simp: temp_def intro: triple_throwE)
    then have "triple (objs base ?D) (writeFileAtomicFromReader (objPath base c) r 420)
        (\<lambda>_. objs base (?D(c \<mapsto> FFile 420 d)))
        (\<lambda>s. objs base ?D s \<or> objs base (?D(c \<mapsto> FFile 420 d)) s)" for d
      unfolding writeFileAtomicFromReader_def by (intro writeAtomically_triple [OF c])
    from putPath_triple [OF c this]
    have "triple (objs base ?D) (PutReader base c r) (\<lambda>_. objs base (?D(c \<mapsto> FFile 420 d)))
        (\<lambda>s. objs base ?D s \<or> objs base (?D(c \<mapsto> FFile 420 d)) s)" for d
      using c by (simp add: PutReader_def objectPath_eq triple_def)
    then have "objs base ?D s' \<or> objs base (?D(c \<mapsto> FFile 420 d)) s'" for d
      using assms objs_self by (cases x) (blast dest: tripleD_Inr tripleD_Inl)+
    from this [of "[0]"] this [of "[1]"] c have "objs base ?D s'"
      by (auto simp: objs_def split: if_splits) 
    then show ?thesis by (simp add: contents_objs_same)
  qed
qed

section \<open>Writes succeed when nothing fails\<close>

text \<open>
  \<open>live base c s\<close>: no call fails, the store's directory exists with its parents, the shard directory
  may be missing, no directory sits where the object belongs and the temporary names are free.
\<close>

definition isDir :: "fs \<Rightarrow> path \<Rightarrow> bool" where
  "isDir s p \<longleftrightarrow> (case node s p of Some (FDir _) \<Rightarrow> True | _ \<Rightarrow> False)"

definition isFile :: "fs \<Rightarrow> path \<Rightarrow> bool" where
  "isFile s p \<longleftrightarrow> (case node s p of Some (FFile _ _) \<Rightarrow> True | _ \<Rightarrow> False)"

lemma isDir_simps [simp]:
  "isDir (setNode p n s) q = (if q = p then (case n of FDir _ \<Rightarrow> True | _ \<Rightarrow> False) else isDir s q)"
  "isDir (s\<lparr>fs_step := k\<rparr>) q = isDir s q"
  "isFile (setNode p n s) q = (if q = p then (case n of FFile _ _ \<Rightarrow> True | _ \<Rightarrow> False) else isFile s q)"
  "isFile (s\<lparr>fs_step := k\<rparr>) q = isFile s q"
  by (simp_all add: isDir_def isFile_def)

lemma fs_faults_simps [simp]:
  "fs_faults (setNode p n s) = fs_faults s" "fs_faults (delNode p s) = fs_faults s"
  "fs_suffix (setNode p n s) = fs_suffix s" "fs_suffix (delNode p s) = fs_suffix s"
  by (simp_all add: setNode_def delNode_def)

lemma sysE_nofault:
  "fs_faults s = (\<lambda>_. None) \<Longrightarrow> sysE partial m s = m (s\<lparr>fs_step := Suc (fs_step s)\<rparr>)"
  by (simp add: sysE_def Let_def)

abbreviation shard :: "path \<Rightarrow> bytes \<Rightarrow> path" where
  "shard base c \<equiv> base @ [take 2 (EncodeToString c)]"

definition live :: "path \<Rightarrow> bytes \<Rightarrow> fs \<Rightarrow> bool" where
  "live base c s \<longleftrightarrow> fs_faults s = (\<lambda>_. None) \<and> base \<noteq> [] \<and>
     (\<forall>k. 0 < k \<longrightarrow> k \<le> length base \<longrightarrow> isDir s (take k base)) \<and>
     \<not> isFile s (shard base c) \<and> \<not> isDir s (objPath base c) \<and>
     (\<forall>k. node s (shard base c @ [EncodeToString c @ ''.tmp-'' @ fs_suffix s k]) = None)"

lemma live_step [simp]: "live base c (s\<lparr>fs_step := k\<rparr>) = live base c s"
  by (simp add: live_def)

lemma live_shard:
  "live base c s \<Longrightarrow> live base c (setNode (shard base c) (FDir m) s)"
proof -
  have "take k base \<noteq> shard base c" for k
    by (rule notI) (drule arg_cong [of _ _ length], simp)
  moreover have "objPath base c \<noteq> shard base c" by (simp add: objPath_def)
  ultimately show "live base c s \<Longrightarrow> ?thesis" by (simp add: live_def)
qed

lemma live_base: "live base c s \<Longrightarrow> isDir s base"
  by (metis le_refl length_greater_0_conv live_def take_all)

lemma forE_append: "forE f (xs @ ys) s = seqE (forE f xs) (forE f ys) s"
  by (induction xs arbitrary: s) (auto simp: run_seqE split: prod.splits sum.splits)

lemma osMkdir_live:
  "live base c s \<Longrightarrow> isDir s p \<Longrightarrow> \<exists>k. osMkdir m p s = (Inr (), s\<lparr>fs_step := k\<rparr>)"
  by (auto simp: osMkdir_def sysE_nofault live_def isDir_def run_bindE
      split: option.splits fnode.splits)

lemma osMkdirs_live:
  "live base c s \<Longrightarrow> \<forall>p\<in>set ps. isDir s p \<Longrightarrow>
     \<exists>k. forE (osMkdir m) ps s = (Inr (), s\<lparr>fs_step := k\<rparr>)"
proof (induction ps arbitrary: s)
  case Nil
  show ?case by (rule exI [of _ "fs_step s"]) simp
next
  case (Cons p ps)
  then obtain k where k: "osMkdir m p s = (Inr (), s\<lparr>fs_step := k\<rparr>)"
    using osMkdir_live [of base c s p m] by auto
  from Cons.IH [of "s\<lparr>fs_step := k\<rparr>"] Cons.prems
  obtain j where "forE (osMkdir m) ps (s\<lparr>fs_step := k\<rparr>) = (Inr (), s\<lparr>fs_step := j\<rparr>)"
    by auto
  with k show ?case by auto
qed

lemma osMkdirAll_live:
  assumes "live base c s" "node s (shard base c) = None"
  shows "\<exists>k. osMkdirAll (shard base c) m s =
     (Inr (), setNode (shard base c) (FDir m) (s\<lparr>fs_step := k\<rparr>))"
proof -
  let ?ps = "map (\<lambda>k. take k base) [1..<Suc (length base)]"
  have "map (\<lambda>k. take k (shard base c)) [1..<Suc (length (shard base c))] = ?ps @ [shard base c]"
  proof -
    have "map (\<lambda>k. take k (shard base c)) [1..<Suc (length base)] = ?ps"
      by (rule map_cong) auto
    then show ?thesis by simp
  qed
  moreover have "\<forall>p\<in>set ?ps. isDir s p" using assms(1) by (auto simp: live_def simp del: upt_Suc)
  from osMkdirs_live [OF assms(1) this, of m]
  obtain k where "forE (osMkdir m) ?ps s = (Inr (), s\<lparr>fs_step := k\<rparr>)" ..
  moreover have "osMkdir m (shard base c) (s\<lparr>fs_step := k\<rparr>) =
      (Inr (), setNode (shard base c) (FDir m) (s\<lparr>fs_step := Suc k\<rparr>))"
    using assms by (simp add: osMkdir_def sysE_nofault live_def run_bindE)
  ultimately have "osMkdirAll (shard base c) m s =
      (Inr (), setNode (shard base c) (FDir m) (s\<lparr>fs_step := Suc k\<rparr>))"
    by (simp only: osMkdirAll_def forE_append forE.simps seqE_Inr run_retE)
  then show ?thesis ..
qed

lemma setNode_step [simp]: "setNode p n (s\<lparr>fs_step := k\<rparr>) = (setNode p n s)\<lparr>fs_step := k\<rparr>"
  by (simp add: setNode_def)

lemma osChmod_dir_live:
  "fs_faults s = (\<lambda>_. None) \<Longrightarrow> node s p = Some (FDir m') \<Longrightarrow>
     osChmod p m s = (Inr (), (setNode p (FDir m) s)\<lparr>fs_step := Suc (fs_step s)\<rparr>)"
  by (simp add: osChmod_def sysE_nofault run_bindE)

lemma syncDirectory_live:
  "fs_faults s = (\<lambda>_. None) \<Longrightarrow> node s p = Some n \<Longrightarrow>
     syncDirectory p s = (Inr (), s\<lparr>fs_step := Suc (Suc (fs_step s))\<rparr>)"
  by (simp add: syncDirectory_def osOpen_def fileSync_def catchE_def sysE_nofault run_bindE
      run_seqE run_wrapE)

lemma osStat_live:
  "fs_faults s = (\<lambda>_. None) \<Longrightarrow>
     osStat p s = (Inr (node s p), s\<lparr>fs_step := Suc (fs_step s)\<rparr>)"
  by (simp add: osStat_def sysE_nofault)

lemma ensureDirectory_live:
  assumes "live base c s"
  shows "\<exists>s'. ensureDirectory (shard base c) m s = (Inr (), s') \<and> live base c s' \<and>
     isDir s' (shard base c)"
proof -
  let ?p = "shard base c"
  from assms have nf: "fs_faults s = (\<lambda>_. None)" by (simp add: live_def)
  obtain nb where nb: "node s base = Some nb"
    using live_base [OF assms] by (auto simp: isDir_def split: option.splits)
  note stat = osStat_live [OF nf, of ?p]
  show ?thesis
  proof (cases "node s ?p")
    case None
    let ?s = "setNode ?p (FDir m) s"
    obtain k where mk: "osMkdirAll ?p m (s\<lparr>fs_step := Suc (fs_step s)\<rparr>) = (Inr (), ?s\<lparr>fs_step := k\<rparr>)"
      using osMkdirAll_live [of base c "s\<lparr>fs_step := Suc (fs_step s)\<rparr>" m] assms None by auto
    have ch: "osChmod ?p m (?s\<lparr>fs_step := k\<rparr>) = (Inr (), (setNode ?p (FDir m) ?s)\<lparr>fs_step := Suc k\<rparr>)"
      using osChmod_dir_live [of "?s\<lparr>fs_step := k\<rparr>" ?p m m] nf by simp
    have sy: "syncDirectory base ((setNode ?p (FDir m) ?s)\<lparr>fs_step := Suc k\<rparr>) =
        (Inr (), (setNode ?p (FDir m) ?s)\<lparr>fs_step := Suc (Suc (Suc k))\<rparr>)"
      using syncDirectory_live [of "(setNode ?p (FDir m) ?s)\<lparr>fs_step := Suc k\<rparr>" base nb] nf nb by simp
    have "ensureDirectory ?p m s = (Inr (), (setNode ?p (FDir m) ?s)\<lparr>fs_step := Suc (Suc (Suc k))\<rparr>)"
      using stat mk ch sy None by (simp add: ensureDirectory_def)
    then show ?thesis using live_shard [OF live_shard [OF assms]] by simp
  next
    case (Some n)
    with assms obtain m' where n: "n = FDir m'"
      by (cases n) (auto simp: live_def isFile_def)
    show ?thesis
    proof (cases "m' = m")
      case True
      with stat Some n assms show ?thesis by (simp add: ensureDirectory_def isDir_def)
    next
      case False
      have "osChmod ?p m (s\<lparr>fs_step := Suc (fs_step s)\<rparr>) =
          (Inr (), (setNode ?p (FDir m) s)\<lparr>fs_step := Suc (Suc (fs_step s))\<rparr>)"
        using osChmod_dir_live [of "s\<lparr>fs_step := Suc (fs_step s)\<rparr>" ?p m' m] nf n Some by simp
      with stat Some n False show ?thesis
        using live_shard [OF assms] by (simp add: ensureDirectory_def)
    qed
  qed
qed

text \<open>The body of a write, from a live store whose shard directory exists.\<close>

lemma writeAtomically_live:
  assumes "live base c s" "isDir s (shard base c)"
    and body: "\<And>t s. fs_faults s = (\<lambda>_. None) \<Longrightarrow> node s t = Some (FFile m []) \<Longrightarrow>
      \<exists>k. body t s = (Inr (), (setNode t (FFile m d) s)\<lparr>fs_step := k\<rparr>)"
  shows "\<exists>s'. writeAtomically (objPath base c) m body s = (Inr (), s')"
proof -
  let ?p = "shard base c"
  define t where "t = ?p @ [EncodeToString c @ ''.tmp-'' @ fs_suffix s (Suc (fs_step s))]"
  from assms obtain m' where nf: "fs_faults s = (\<lambda>_. None)" and new: "node s t = None"
    and dir: "node s ?p = Some (FDir m')" and nod: "\<not> isDir s (objPath base c)"
    by (auto simp: live_def t_def isDir_def split: option.splits fnode.splits)
  have "tempPath t" by (simp add: t_def tempPath_def)
  then have tp: "t \<noteq> objPath base c" by (rule tempPath_not_objPath)
  have tq: "t \<noteq> ?p" "objPath base c \<noteq> ?p" by (simp_all add: t_def objPath_def)
  let ?s1 = "setNode t (FFile 384 []) s" and ?s2 = "setNode t (FFile m []) (setNode t (FFile 384 []) s)"
  have "osCreateTemp ?p (EncodeToString c) s = (Inr t, ?s1\<lparr>fs_step := Suc (fs_step s)\<rparr>)"
    using nf new dir by (simp add: osCreateTemp_def sysE_nofault Let_def t_def)
  moreover have "osChmod t m (?s1\<lparr>fs_step := Suc (fs_step s)\<rparr>) =
      (Inr (), ?s2\<lparr>fs_step := Suc (Suc (fs_step s))\<rparr>)"
    using nf by (simp add: osChmod_def sysE_nofault run_bindE)
  moreover obtain k where "body t (?s2\<lparr>fs_step := Suc (Suc (fs_step s))\<rparr>) =
      (Inr (), (setNode t (FFile m d) ?s2)\<lparr>fs_step := k\<rparr>)"
    using body [of "?s2\<lparr>fs_step := Suc (Suc (fs_step s))\<rparr>" t] nf by auto
  moreover have "osRename t (objPath base c) ((setNode t (FFile m d) ?s2)\<lparr>fs_step := Suc (Suc k)\<rparr>) =
      (Inr (), (delNode t (setNode (objPath base c) (FFile m d) (setNode t (FFile m d) ?s2)))
        \<lparr>fs_step := Suc (Suc (Suc k))\<rparr>)"
    using nf tp nod by (auto simp: osRename_def sysE_nofault isDir_def delNode_def
        split: option.splits fnode.splits)
  ultimately show ?thesis
    using nf dir tq
    by (simp add: writeAtomically_def Let_def deferE_def fileSync_def fileClose_def sysE_nofault
        syncDirectory_live [of _ ?p "FDir m'"])
qed

lemma Put_live:
  assumes "live base c s" "c \<noteq> []"
  shows "\<exists>s'. Put base c d s = (Inr (), s')"
proof -
  obtain s1 where s1: "ensureDirectory (shard base c) 448 s = (Inr (), s1)"
    "live base c s1" "isDir s1 (shard base c)"
    using ensureDirectory_live [OF assms(1)] by blast
  have "\<exists>s'. writeFileAtomic (objPath base c) d 420 s1 = (Inr (), s')"
    unfolding writeFileAtomic_def
    by (rule writeAtomically_live [OF s1(2,3), where d = d])
       (simp add: fileWrite_def sysE_nofault appendFile_def, metis)
  with s1(1) assms(2) show ?thesis by (auto simp: Put_def objectPath_eq)
qed

section \<open>Properties\<close>

text \<open>
  C11. A write to the store is atomic under any failure of any system call: \<open>Put\<close> that reports
  success has stored exactly the given bytes under the identifier, and \<open>Put\<close> that fails, wherever it
  fails, leaves under every identifier either what was there or, for the identifier written, the
  complete new bytes; no other object changes and no partial content is ever visible.
\<close>

theorem Put_atomic:
  "case Put base c d s of
     (Inr _, s') \<Rightarrow> contents base s' = (contents base s)(c \<mapsto> d)
   | (Inl _, s') \<Rightarrow> contents base s' = contents base s \<or>
       contents base s' = (contents base s)(c \<mapsto> d)"
  by (auto split: prod.splits sum.splits dest: cas.put_ok cas.put_err)

text \<open>A history of the store: the operations run on it, each with any outcome.\<close>

datatype store_op =
    OpPut bytes bytes
  | OpPutReader bytes reader
  | OpGet bytes
  | OpOpen bytes
  | OpHas bytes
  | OpDelete bytes

fun runStoreOp :: "path \<Rightarrow> store_op \<Rightarrow> fs \<Rightarrow> fs" where
  "runStoreOp base (OpPut c d) s = snd (Put base c d s)"
| "runStoreOp base (OpPutReader c r) s = snd (PutReader base c r s)"
| "runStoreOp base (OpGet c) s = snd (Get base c s)"
| "runStoreOp base (OpOpen c) s = snd (OpenContent base c s)"
| "runStoreOp base (OpHas c) s = snd (Has base c s)"
| "runStoreOp base (OpDelete c) s = snd (Delete base c s)"

inductive storeReach :: "path \<Rightarrow> store_op list \<Rightarrow> fs \<Rightarrow> bool" for base where
  init: "contents base s = Map.empty \<Longrightarrow> storeReach base [] s"
| step: "storeReach base ops s \<Longrightarrow> storeReach base (ops @ [op]) (runStoreOp base op s)"

lemma runStoreOp_contents:
  assumes "contents base (runStoreOp base op s) c = Some d"
  shows "contents base s c = Some d \<or> op = OpPut c d \<or>
         (\<exists>r. op = OpPutReader c r \<and> r_data r = d \<and> r_err r = None)"
proof (cases op)
  case (OpPut c' d')
  with assms cas.put_cases [of base c' d' s "fst (Put base c' d' s)" "snd (Put base c' d' s)"]
  show ?thesis by (auto split: if_splits)
next
  case (OpPutReader c' r)
  with assms PutReader_run [of base c' r s "fst (PutReader base c' r s)" "snd (PutReader base c' r s)"]
  show ?thesis by (auto split: if_splits)
next
  case (OpGet c')
  with assms cas.get_pure [of base c' s "fst (Get base c' s)" "snd (Get base c' s)"]
  show ?thesis by simp
next
  case (OpOpen c')
  with assms contents_objs_same [OF keepsD [OF keeps_objs_query(2) objs_self]]
  show ?thesis by (metis prod.collapse runStoreOp.simps(4))
next
  case (OpHas c')
  with assms cas.has_pure [of base c' s "fst (Has base c' s)" "snd (Has base c' s)"]
  show ?thesis by simp
next
  case (OpDelete c')
  with assms Delete_run [of base c' s "fst (Delete base c' s)" "snd (Delete base c' s)"]
  show ?thesis by (auto split: sum.splits if_splits)
qed

text \<open>
  C10. Whatever sequence of operations ran on a store that started empty, with whatever failures,
  what it holds under an identifier is the complete argument of one write to that identifier, and a
  write from a stream that ended in a read error is never what it holds.
\<close>

theorem store_holds_what_was_put:
  assumes "storeReach base ops s" and "contents base s c = Some d"
  shows "OpPut c d \<in> set ops \<or> (\<exists>r. OpPutReader c r \<in> set ops \<and> r_data r = d \<and> r_err r = None)"
  using assms
proof (induction rule: storeReach.induct)
  case (step ops s op)
  from runStoreOp_contents [OF step.prems] step.IH show ?case by auto
qed simp

text \<open>A file system that has only the root directory of a store and in which no call fails.\<close>

definition exampleFs :: fs where
  "exampleFs = \<lparr>fs_nodes = [([''cas''], FDir 448)], fs_faults = (\<lambda>_. None),
     fs_suffix = (\<lambda>_. ''0''), fs_step = 0\<rparr>"

lemma exampleFs_live: "live [''cas''] c exampleFs"
proof -
  have "take k [''cas''] = [''cas'']" if "0 < k" for k using that by (cases k) auto
  then show ?thesis
    by (auto simp: live_def exampleFs_def node_def isDir_def isFile_def objPath_def)
qed

lemma exampleFs_contents [simp]: "contents [''cas''] exampleFs = Map.empty"
  by (auto simp: contents_def exampleFs_def node_def objPath_def fun_eq_iff)

theorem store_holds_what_was_put_witness:
  "\<exists>s. contents [''cas''] s [18] = Some [7] \<and>
       (OpPut [18] [7] \<in> set [OpPut [18] [7]] \<or>
        (\<exists>r. OpPutReader [18] r \<in> set [OpPut [18] [7]] \<and> r_data r = [7] \<and> r_err r = None))"
proof -
  have ne: "[18 :: byte] \<noteq> []" by simp
  obtain s where s: "Put [''cas''] [18] [7] exampleFs = (Inr (), s)"
    using Put_live [OF exampleFs_live ne] by blast
  have "runStoreOp [''cas''] (OpPut [18] [7]) exampleFs = s" by (simp only: runStoreOp.simps s snd_conv)
  with storeReach.step [OF storeReach.init [OF exampleFs_contents], of "OpPut [18] [7]"]
  have reach: "storeReach [''cas''] [OpPut [18] [7]] s" by (simp only: append_Nil)
  have c: "contents [''cas''] s [18] = Some [7]" by (simp only: cas.put_ok [OF s] fun_upd_same)
  show ?thesis by (rule exI, rule conjI [OF c store_holds_what_was_put [OF reach c]])
qed

lemma keeps_faults_sys:
  "keeps (\<lambda>s. fs_faults s = F) (osStat p)" "keeps (\<lambda>s. fs_faults s = F) (osChmod p m)"
  "keeps (\<lambda>s. fs_faults s = F) (osMkdir m p)" "keeps (\<lambda>s. fs_faults s = F) (osCreateTemp p b)"
  "keeps (\<lambda>s. fs_faults s = F) (fileWrite p d)" "keeps (\<lambda>s. fs_faults s = F) fileSync"
  "keeps (\<lambda>s. fs_faults s = F) fileClose" "keeps (\<lambda>s. fs_faults s = F) (osRename p q)"
  "keeps (\<lambda>s. fs_faults s = F) (osRemove p)" "keeps (\<lambda>s. fs_faults s = F) (osOpen p)"
  unfolding keeps_def sysE_def osStat_def osChmod_def osMkdir_def osCreateTemp_def fileWrite_def
    fileSync_def fileClose_def osRename_def osRemove_def osOpen_def
  by (auto simp: Let_def run_bindE appendFile_def split: option.splits fnode.splits)

lemma keeps_faults_Put: "keeps (\<lambda>s. fs_faults s = F) (Put base c d)"
  unfolding Put_def ensureDirectory_def osMkdirAll_def syncDirectory_def writeFileAtomic_def
    writeAtomically_def Let_def
  by (auto intro!: keeps_intro keeps_faults_sys split: option.splits fnode.splits)

lemma Get_live:
  assumes "fs_faults s = (\<lambda>_. None)" "contents base s c = Some d"
  shows "\<exists>s'. Get base c s = (Inr d, s')"
  using assms by (auto simp: Get_def objectPath_eq osReadFile_def sysE_nofault run_bindE
      contents_def split: if_splits option.splits fnode.splits)

text \<open>
  When no system call fails, storing works: on a store whose directory exists, whether or not
  the shard directory does, \<open>Put\<close> of a non-empty identifier returns without an error, and the next
  \<open>Get\<close> of that identifier returns the bytes.
\<close>

theorem Put_then_Get:
  assumes "live base c s" and "c \<noteq> []"
  shows "\<exists>s1 s2. Put base c d s = (Inr (), s1) \<and> Get base c s1 = (Inr d, s2)"
proof -
  obtain s1 where s1: "Put base c d s = (Inr (), s1)" using Put_live [OF assms] by blast
  have "fs_faults s1 = (\<lambda>_. None)"
    using keepsD [OF keeps_faults_Put _ s1] assms(1) by (simp add: live_def)
  then obtain s2 where "Get base c s1 = (Inr d, s2)"
    using Get_live [of s1 base c d] cas.put_ok [OF s1] by auto
  with s1 show ?thesis by blast
qed

theorem Put_then_Get_witness:
  "\<exists>s1 s2. Put [''cas''] [18] [7] exampleFs = (Inr (), s1) \<and> Get [''cas''] [18] s1 = (Inr [7], s2)"
  using Put_then_Get [OF exampleFs_live, of "[18]" "[7]"] by simp

text \<open>
  The store panics on exactly one input: \<open>objectPath\<close> slices two characters off the hexadecimal
  form of the identifier, so \<open>Put\<close>, \<open>Get\<close>, \<open>Has\<close> and \<open>Delete\<close> of an empty identifier panic, in every
  state, before any system call; on all other identifiers the path is defined, and two identifiers
  never share one.
\<close>

theorem empty_identifier_panics:
  "(\<forall>s. fst (Put base [] d s) = Inl (Panic ''slice bounds out of range [:2]'') \<and>
        fst (Get base [] s) = Inl (Panic ''slice bounds out of range [:2]'') \<and>
        fst (Has base [] s) = Inl (Panic ''slice bounds out of range [:2]'') \<and>
        fst (Delete base [] s) = Inl (Panic ''slice bounds out of range [:2]'')) \<and>
   (\<exists>p. objectPath base (b # c) = Inr p) \<and>
   (objectPath base (b # c) = objectPath base (b' # c') \<longleftrightarrow> b # c = b' # c')"
  by (simp add: Put_def Get_def Has_def Delete_def objectPath_eq)

end
