(* ===== verification/Database.thy ===== *)
theory Database
  imports GoLib
begin

text \<open>
  The relational state of \<open>pkg/storage\<close>: one record per row type (\<open>schema.go\<close>), the database as a
  record of tables, and the statement, query and transaction primitives of \<open>database/sql\<close> over it.
  A table is the list of its rows in insertion order. Every statement may fail: \<open>db_faults\<close> gives the
  error of the n-th statement sent to the driver, if any, and a failing statement has no effect.
  \<open>NULL\<close> is \<open>None\<close>; a \<open>nil\<close> slice stored in a column that is not wrapped by \<open>nilIfEmpty\<close> is the empty
  blob. \<open>now_ms\<close> is \<open>time.Now().UnixMilli()\<close>.
\<close>

section \<open>Rows\<close>

record IdentityRow =
  id_Pubkey :: bytes
  id_DisplayName :: string
  id_IsActive :: bool
  id_CreatedAt :: int

record ProfileRow =
  pf_Pubkey :: bytes
  pf_DisplayName :: string
  pf_Bio :: string
  pf_AvatarCID :: "bytes option"
  pf_BannerCID :: "bytes option"
  pf_Website :: string
  pf_Version :: int
  pf_UpdatedAt :: int

record PostRow =
  p_CID :: bytes
  p_Author :: bytes
  p_Content :: string
  p_ReplyTo :: "bytes option"
  p_RepostOf :: "bytes option"
  p_Timestamp :: int
  p_Signature :: bytes
  p_ReceivedAt :: int

record PostMediaLink =
  pm_PostCID :: bytes
  pm_MediaCID :: bytes
  pm_Position :: int

record MediaObjectRow =
  m_CID :: bytes
  m_Author :: bytes
  m_MimeType :: string
  m_Size :: int
  m_ChunkCount :: int
  m_Width :: int
  m_Height :: int
  m_Duration :: int
  m_ThumbnailCID :: "bytes option"
  m_Timestamp :: int
  m_FullyFetched :: bool

record ReactionRow =
  r_CID :: bytes
  r_Author :: bytes
  r_Target :: bytes
  r_ReactionType :: string
  r_Timestamp :: int

record ReactionCountRow =
  rc_PostCID :: bytes
  rc_Likes :: int
  rc_Replies :: int
  rc_Reposts :: int

record SubscriptionRow =
  s_OwnerPubkey :: bytes
  s_Pubkey :: bytes
  s_FollowedAt :: int
  s_SyncCompleted :: bool

record FollowEventRow =
  f_Author :: bytes
  f_Target :: bytes
  f_Action :: string
  f_Timestamp :: int

record FollowerCountRow =
  fc_Pubkey :: bytes
  fc_Followers :: int
  fc_Following :: int

record DMRow =
  d_CID :: bytes
  d_Author :: bytes
  d_Recipient :: bytes
  d_EncryptedContent :: bytes
  d_Nonce :: bytes
  d_Timestamp :: int
  d_Read :: bool

record NotificationRow =
  n_ID :: int
  n_OwnerPubkey :: "bytes option"
  n_Type :: string
  n_Actor :: bytes
  n_TargetCID :: "bytes option"
  n_RelatedCID :: "bytes option"
  n_Timestamp :: int
  n_Read :: bool

record ContentAccessRow =
  ca_CID :: bytes
  ca_LastAccessed :: int
  ca_AccessCount :: int
  ca_IsPinned :: bool

record TermsRow =
  t_Pubkey :: bytes
  t_Version :: string
  t_AcceptedAt :: int
  t_DeviceNodeAgreed :: bool

section \<open>The database\<close>

record DB =
  identities :: "IdentityRow list"
  profiles :: "ProfileRow list"
  posts :: "PostRow list"
  post_media :: "PostMediaLink list"
  media_objects :: "MediaObjectRow list"
  reactions :: "ReactionRow list"
  reaction_counts :: "ReactionCountRow list"
  subscriptions :: "SubscriptionRow list"
  follow_events :: "FollowEventRow list"
  follower_counts :: "FollowerCountRow list"
  direct_messages :: "DMRow list"
  notifications :: "NotificationRow list"
  notification_seq :: int
  post_tags :: "(bytes \<times> string) list"
  content_access :: "ContentAccessRow list"
  terms_acceptance :: "TermsRow list"
  now_ms :: int
  db_faults :: "nat \<Rightarrow> goerr option"
  db_step :: nat

definition emptyDB :: DB where
  "emptyDB = \<lparr>identities = [], profiles = [], posts = [], post_media = [], media_objects = [],
     reactions = [], reaction_counts = [], subscriptions = [], follow_events = [],
     follower_counts = [], direct_messages = [], notifications = [], notification_seq = 0,
     post_tags = [], content_access = [], terms_acceptance = [], now_ms = 0,
     db_faults = (\<lambda>_. None), db_step = 0\<rparr>"

section \<open>Statements, queries, transactions\<close>

definition tick :: "DB \<Rightarrow> DB" where
  "tick db = db\<lparr>db_step := Suc (db_step db)\<rparr>"

text \<open>\<open>db.Exec\<close>: a statement either changes the tables or is refused by a constraint.\<close>

definition execE :: "(DB \<Rightarrow> goerr + DB) \<Rightarrow> (DB, unit) go" where
  "execE stmt = (\<lambda>db. case db_faults db (db_step db) of
      Some e \<Rightarrow> (Inl e, tick db)
    | None \<Rightarrow> (case stmt (tick db) of Inl e \<Rightarrow> (Inl e, tick db) | Inr db' \<Rightarrow> (Inr (), db')))"

text \<open>\<open>db.Query\<close> and \<open>db.QueryRow(...).Scan\<close>.\<close>

definition queryE :: "(DB \<Rightarrow> 'a) \<Rightarrow> (DB, 'a) go" where
  "queryE q = (\<lambda>db. case db_faults db (db_step db) of
      Some e \<Rightarrow> (Inl e, tick db)
    | None \<Rightarrow> (Inr (q (tick db)), tick db))"

text \<open>\<open>sql.ErrNoRows\<close>, and a query for one row.\<close>

definition ErrNoRows :: goerr where
  "ErrNoRows = Err ''sql: no rows in result set''"

definition queryRowE :: "(DB \<Rightarrow> 'a option) \<Rightarrow> (DB, 'a) go" where
  "queryRowE q = bindE (queryE q) (\<lambda>r. case r of None \<Rightarrow> throwE ErrNoRows | Some x \<Rightarrow> retE x)"

text \<open>
  \<open>WithTransaction\<close>: \<open>BEGIN\<close> and \<open>COMMIT\<close> are statements that may fail; after an error of the body or of
  the commit the tables are those before the transaction.
\<close>

definition WithTransaction :: "(DB, unit) go \<Rightarrow> (DB, unit) go" where
  "WithTransaction fn = (\<lambda>db.
     case db_faults db (db_step db) of
       Some e \<Rightarrow> (Inl (wrap ''begin transaction'' e), tick db)
     | None \<Rightarrow>
         (case fn (tick db) of
            (Inl e, db') \<Rightarrow> (Inl e, (tick db)\<lparr>db_step := db_step db'\<rparr>)
          | (Inr _, db') \<Rightarrow>
              (case db_faults db' (db_step db') of
                 Some e \<Rightarrow> (Inl e, (tick db)\<lparr>db_step := Suc (db_step db')\<rparr>)
               | None \<Rightarrow> (Inr (), tick db'))))"

section \<open>Tables\<close>

text \<open>
  \<open>nilIfEmpty\<close>, \<open>ORDER BY ... DESC\<close>, \<open>LIMIT\<close> (a negative limit is none) and the three ways the code
  inserts: \<open>INSERT\<close> refused on a key conflict, \<open>INSERT OR IGNORE\<close>, \<open>ON CONFLICT DO UPDATE\<close>. Rows with
  equal sort keys come in the order of insertion; the properties do not depend on it.
\<close>

definition nilIfEmpty :: "bytes \<Rightarrow> bytes option" where
  "nilIfEmpty b = (if length b = 0 then None else Some b)"

definition descending :: "('r \<Rightarrow> int) \<Rightarrow> 'r list \<Rightarrow> 'r list" where
  "descending f rows = sort_key (\<lambda>r. - f r) rows"

definition limitTo :: "int \<Rightarrow> 'r list \<Rightarrow> 'r list" where
  "limitTo n rows = (if n < 0 then rows else take (nat n) rows)"

definition rowOf :: "('r \<Rightarrow> 'k) \<Rightarrow> 'k \<Rightarrow> 'r list \<Rightarrow> 'r option" where
  "rowOf key k rows = find (\<lambda>r. key r = k) rows"

definition hasKey :: "('r \<Rightarrow> 'k) \<Rightarrow> 'k \<Rightarrow> 'r list \<Rightarrow> bool" where
  "hasKey key k rows \<longleftrightarrow> k \<in> set (map key rows)"

definition insertIgnore :: "('r \<Rightarrow> 'k) \<Rightarrow> 'r \<Rightarrow> 'r list \<Rightarrow> 'r list" where
  "insertIgnore key row rows = (if hasKey key (key row) rows then rows else rows @ [row])"

definition upsertRow :: "('r \<Rightarrow> 'k) \<Rightarrow> ('r \<Rightarrow> 'r) \<Rightarrow> 'r \<Rightarrow> 'r list \<Rightarrow> 'r list" where
  "upsertRow key upd row rows =
     (if hasKey key (key row) rows
      then map (\<lambda>r. if key r = key row then upd r else r) rows else rows @ [row])"

definition countRows :: "('r \<Rightarrow> bool) \<Rightarrow> 'r list \<Rightarrow> int" where
  "countRows P rows = int (length (filter P rows))"

abbreviation keyed :: "('r \<Rightarrow> 'k) \<Rightarrow> 'r list \<Rightarrow> bool" where
  "keyed key rows \<equiv> distinct (map key rows)"

subsection \<open>Laws of the table operations\<close>

lemma hasKey_simps [simp]:
  "hasKey key k [] = False"
  "hasKey key k (r # rs) = (key r = k \<or> hasKey key k rs)"
  "hasKey key k (rs @ rs') = (hasKey key k rs \<or> hasKey key k rs')"
  by (auto simp: hasKey_def)

lemma rowOf_None: "rowOf key k rows = None \<longleftrightarrow> \<not> hasKey key k rows"
  by (auto simp: rowOf_def hasKey_def find_None_iff)

lemma rowOf_SomeD: "rowOf key k rows = Some r \<Longrightarrow> r \<in> set rows \<and> key r = k"
  by (auto simp: rowOf_def find_Some_iff)

lemma rowOf_unique: "keyed key rows \<Longrightarrow> r \<in> set rows \<Longrightarrow> rowOf key (key r) rows = Some r"
proof (induction rows)
  case (Cons a rows)
  then show ?case by (auto simp: rowOf_def image_iff)
qed simp

lemma rowOf_append: "rowOf key k (rs @ rs') = (case rowOf key k rs of None \<Rightarrow> rowOf key k rs' | Some r \<Rightarrow> Some r)"
  by (induction rs) (auto simp: rowOf_def)

lemma rowOf_map_key:
  assumes "\<And>r. key (f r) = key r"
  shows "rowOf key k (map f rows) = map_option f (rowOf key k rows)"
  by (induction rows) (auto simp: rowOf_def assms)

lemma rowOf_single [simp]: "rowOf key k [r] = (if key r = k then Some r else None)"
  by (simp add: rowOf_def)

lemma keyed_insertIgnore: "keyed key rows \<Longrightarrow> keyed key (insertIgnore key row rows)"
  by (simp add: insertIgnore_def hasKey_def)

lemma keyed_append: "keyed key rows \<Longrightarrow> \<not> hasKey key (key row) rows \<Longrightarrow> keyed key (rows @ [row])"
  by (simp add: hasKey_def)

lemma map_key_upsert:
  assumes "\<And>r. key (upd r) = key r"
  shows "map key (map (\<lambda>r. if key r = k then upd r else r) rows) = map key rows"
  using assms by simp

lemma keyed_upsert:
  assumes "\<And>r. key (upd r) = key r"
  shows "keyed key rows \<Longrightarrow> keyed key (upsertRow key upd row rows)"
  using assms by (simp add: upsertRow_def hasKey_def o_def if_distrib cong: if_cong)

lemma rowOf_upsert:
  assumes "\<And>r. key (upd r) = key r"
  shows "rowOf key k (upsertRow key upd row rows) =
     (if k = key row then (case rowOf key k rows of None \<Rightarrow> Some row | Some r \<Rightarrow> Some (upd r))
      else rowOf key k rows)"
proof -
  have m: "rowOf key k (map (\<lambda>r. if key r = key row then upd r else r) rows) =
      map_option (\<lambda>r. if key r = key row then upd r else r) (rowOf key k rows)" for k
    by (rule rowOf_map_key) (simp add: assms)
  have h: "hasKey key (key row) rows \<longleftrightarrow> rowOf key (key row) rows \<noteq> None"
    by (simp add: rowOf_None)
  show ?thesis
    by (cases "rowOf key k rows")
       (auto simp: upsertRow_def h m rowOf_append dest: rowOf_SomeD split: option.splits)
qed

lemma rowOf_insertIgnore:
  "rowOf key k (insertIgnore key row rows) =
     (case rowOf key k rows of None \<Rightarrow> if key row = k then Some row else None | Some r \<Rightarrow> Some r)"
proof -
  have h: "hasKey key (key row) rows \<longleftrightarrow> rowOf key (key row) rows \<noteq> None"
    by (simp add: rowOf_None)
  show ?thesis
    by (cases "rowOf key k rows") (auto simp: insertIgnore_def h rowOf_append)
qed

lemma set_limitTo: "set (limitTo n rows) \<subseteq> set rows"
  by (auto simp: limitTo_def dest: in_set_takeD)

lemma length_limitTo: "0 \<le> n \<Longrightarrow> int (length (limitTo n rows)) \<le> n"
  by (simp add: limitTo_def)

lemma set_descending [simp]: "set (descending f rows) = set rows"
  by (simp add: descending_def)

lemma sorted_descending: "sorted_wrt (\<lambda>a b. f b \<le> f a) (descending f rows)"
proof -
  have "sorted (map (\<lambda>r. - f r) (sort_key (\<lambda>r. - f r) rows))" by simp
  then have "sorted_wrt (\<lambda>a b. - f a \<le> - f b) (sort_key (\<lambda>r. - f r) rows)"
    by (simp only: sorted_map)
  then show ?thesis by (simp add: descending_def)
qed

lemma sorted_wrt_limitTo: "sorted_wrt P rows \<Longrightarrow> sorted_wrt P (limitTo n rows)"
  by (simp add: limitTo_def sorted_wrt_take)

text \<open>What a page leaves out is not newer than what it holds.\<close>

lemma descending_page:
  assumes "a \<in> set (limitTo n (descending f rows))"
    "b \<in> set rows" "b \<notin> set (limitTo n (descending f rows))"
  shows "f b \<le> f a"
proof -
  let ?s = "descending f rows"
  from assms have n: "\<not> n < 0" by (auto simp: limitTo_def)
  have "set ?s = set (take (nat n) ?s) \<union> set (drop (nat n) ?s)"
    by (metis append_take_drop_id set_append)
  with assms n have "a \<in> set (take (nat n) ?s)" "b \<in> set (drop (nat n) ?s)"
    by (auto simp: limitTo_def)
  moreover have "sorted_wrt (\<lambda>a b. f b \<le> f a) (take (nat n) ?s @ drop (nat n) ?s)"
    using sorted_descending [of f rows] by simp
  ultimately show ?thesis unfolding sorted_wrt_append by blast
qed

subsection \<open>Laws of statements and transactions\<close>

lemma tick_simps [simp]:
  "identities (tick db) = identities db" "profiles (tick db) = profiles db"
  "posts (tick db) = posts db" "post_media (tick db) = post_media db"
  "media_objects (tick db) = media_objects db" "reactions (tick db) = reactions db"
  "reaction_counts (tick db) = reaction_counts db" "subscriptions (tick db) = subscriptions db"
  "follow_events (tick db) = follow_events db" "follower_counts (tick db) = follower_counts db"
  "direct_messages (tick db) = direct_messages db" "notifications (tick db) = notifications db"
  "notification_seq (tick db) = notification_seq db" "post_tags (tick db) = post_tags db"
  "content_access (tick db) = content_access db" "terms_acceptance (tick db) = terms_acceptance db"
  "now_ms (tick db) = now_ms db" "db_faults (tick db) = db_faults db"
  by (simp_all add: tick_def)

text \<open>\<open>steady I\<close>: the statement counter does not matter for \<open>I\<close>, as for every predicate on tables.\<close>

definition steady :: "(DB \<Rightarrow> bool) \<Rightarrow> bool" where
  "steady I \<longleftrightarrow> (\<forall>db n. I (db\<lparr>db_step := n\<rparr>) = I db)"

lemma steady_tick: "steady I \<Longrightarrow> I (tick db) = I db"
  by (simp add: steady_def tick_def)

lemma keeps_execE:
  assumes "steady I" "\<And>db db'. I db \<Longrightarrow> stmt db = Inr db' \<Longrightarrow> I db'"
  shows "keeps I (execE stmt)"
  unfolding keeps_def execE_def
  by (auto simp: steady_tick [OF assms(1)] split: option.splits sum.splits
      intro: assms(2) [of "tick db" for db])

lemma keeps_queryE: "steady I \<Longrightarrow> keeps I (queryE q)"
  by (auto simp: keeps_def queryE_def steady_tick split: option.splits)

lemma keeps_queryRowE: "steady I \<Longrightarrow> keeps I (queryRowE q)"
  unfolding queryRowE_def
  by (intro keeps_bindE keeps_queryE) (auto split: option.splits intro: keeps_intro)

lemma keeps_WithTransaction:
  assumes "steady I" "keeps I fn"
  shows "keeps I (WithTransaction fn)"
proof (rule keepsI)
  fix db r db'
  assume I: "I db" and run: "WithTransaction fn db = (r, db')"
  have tk: "I (tick db)" using I steady_tick [OF assms(1)] by simp
  obtain r1 db1 where fn: "fn (tick db) = (r1, db1)" by force
  have "I db1" using keepsD [OF assms(2) tk fn] .
  then show "I db'"
    using run fn tk assms(1) steady_tick [OF assms(1)]
    by (auto simp: WithTransaction_def steady_def split: option.splits sum.splits)
qed

text \<open>A transaction that establishes \<open>J\<close> when its body succeeds, and else keeps what held before.\<close>

lemma WithTransaction_triple:
  assumes "steady I" "steady J" "triple I fn (\<lambda>_. J) (\<lambda>_. True)"
  shows "triple I (WithTransaction fn) (\<lambda>_. J) I"
proof (rule tripleI)
  fix db x db'
  assume I: "I db" and run: "WithTransaction fn db = (Inr x, db')"
  have tk: "I (tick db)" using I steady_tick [OF assms(1)] by simp
  obtain y db1 where fn: "fn (tick db) = (Inr y, db1)" "db' = tick db1"
    using run by (auto simp: WithTransaction_def split: option.splits prod.splits sum.splits)
  then show "J db'" using tripleD_Inr [OF assms(3) tk fn(1)] steady_tick [OF assms(2)] by simp
next
  fix db e db'
  assume I: "I db" and run: "WithTransaction fn db = (Inl e, db')"
  have "\<exists>n. db' = (tick db)\<lparr>db_step := n\<rparr>"
    using run by (force simp: WithTransaction_def tick_def split: option.splits prod.splits sum.splits)
  then show "I db'" using I assms(1) by (auto simp: steady_def tick_def)
qed

text \<open>A transaction that fails leaves the tables alone.\<close>

lemma WithTransaction_rollback:
  assumes "WithTransaction fn db = (Inl e, db')"
  shows "\<exists>n. db' = db\<lparr>db_step := n\<rparr>"
  using assms by (force simp: WithTransaction_def tick_def split: option.splits prod.splits sum.splits)

lemma execE_nofault:
  "db_faults db = (\<lambda>_. None) \<Longrightarrow>
     execE stmt db = (case stmt (tick db) of Inl e \<Rightarrow> (Inl e, tick db) | Inr db' \<Rightarrow> (Inr (), db'))"
  by (simp add: execE_def)

lemma queryE_nofault: "db_faults db = (\<lambda>_. None) \<Longrightarrow> queryE q db = (Inr (q (tick db)), tick db)"
  by (simp add: queryE_def)

end
