(* ===== verification/PostsRepo.thy ===== *)
theory PostsRepo
  imports Database
begin

text \<open>
  Posts, tags, media links and objects, reactions and their materialised counts:
  \<open>pkg/storage/posts_repo.go\<close>, \<open>media_repo.go\<close> and \<open>reactions_repo.go\<close>. A method with suffix \<open>Tx\<close> runs
  the same statement on the transaction it is given; here it is the same statement in the same
  monad, with its own error text. A definition whose name begins with \<open>stmt\<close> is the SQL text of a method as SQLite runs it on the
  tables of \<open>schema.go\<close>: the primary keys, unique constraints and foreign keys declared there refuse the
  statement, or are what its \<open>ON CONFLICT\<close> clause names. That these constraints hold is therefore a fact about
  SQLite and the schema, not about the methods.
\<close>

section \<open>Posts\<close>

definition stmtInsertPost ::
  "bytes \<Rightarrow> bytes \<Rightarrow> string \<Rightarrow> bytes \<Rightarrow> bytes \<Rightarrow> int \<Rightarrow> bytes \<Rightarrow> DB \<Rightarrow> goerr + DB" where
  "stmtInsertPost cid author content replyTo repostOf timestamp signature db =
     (if hasKey p_CID cid (posts db) then Inl (Err ''UNIQUE constraint failed: posts.cid'')
      else if \<not> hasKey pf_Pubkey author (profiles db) then Inl (Err ''FOREIGN KEY constraint failed'')
      else Inr (db\<lparr>posts := posts db @
        [\<lparr>p_CID = cid, p_Author = author, p_Content = content, p_ReplyTo = nilIfEmpty replyTo,
          p_RepostOf = nilIfEmpty repostOf, p_Timestamp = timestamp, p_Signature = signature,
          p_ReceivedAt = now_ms db\<rparr>]\<rparr>))"

definition InsertPost ::
  "bytes \<Rightarrow> bytes \<Rightarrow> string \<Rightarrow> bytes \<Rightarrow> bytes \<Rightarrow> int \<Rightarrow> bytes \<Rightarrow> (DB, unit) go" where
  "InsertPost cid author content replyTo repostOf timestamp signature =
     wrapE ''insert post''
       (execE (stmtInsertPost cid author content replyTo repostOf timestamp signature))"

definition InsertPostTx ::
  "bytes \<Rightarrow> bytes \<Rightarrow> string \<Rightarrow> bytes \<Rightarrow> bytes \<Rightarrow> int \<Rightarrow> bytes \<Rightarrow> (DB, unit) go" where
  "InsertPostTx cid author content replyTo repostOf timestamp signature =
     wrapE ''insert post tx''
       (execE (stmtInsertPost cid author content replyTo repostOf timestamp signature))"

definition GetPost :: "bytes \<Rightarrow> (DB, PostRow) go" where
  "GetPost cid = wrapE ''scan post row'' (queryRowE (\<lambda>db. rowOf p_CID cid (posts db)))"

definition PostExists :: "bytes \<Rightarrow> (DB, bool) go" where
  "PostExists cid = catchE
     (bindE (queryRowE (\<lambda>db. rowOf p_CID cid (posts db))) (\<lambda>_. retE True)) (\<lambda>_. retE False)"

text \<open>\<open>before\<close> with 0 for "from the most recent".\<close>

definition beforeOr :: "int \<Rightarrow> DB \<Rightarrow> int" where
  "beforeOr before db = (if before = 0 then now_ms db + 1 else before)"

definition page :: "(PostRow \<Rightarrow> bool) \<Rightarrow> int \<Rightarrow> PostRow list \<Rightarrow> PostRow list" where
  "page P limit rows = limitTo limit (descending p_Timestamp (filter P rows))"

definition GetPostsByAuthor :: "bytes \<Rightarrow> int \<Rightarrow> int \<Rightarrow> (DB, PostRow list) go" where
  "GetPostsByAuthor author before limit = wrapE ''get posts by author'' (queryE (\<lambda>db.
     page (\<lambda>p. p_Author p = author \<and> p_Timestamp p < beforeOr before db) limit (posts db)))"

definition GetFeed :: "bytes list \<Rightarrow> int \<Rightarrow> int \<Rightarrow> (DB, PostRow list) go" where
  "GetFeed followedAuthors before limit =
     (if length followedAuthors = 0 then retE []
      else wrapE ''get feed'' (queryE (\<lambda>db.
        page (\<lambda>p. p_Author p \<in> set followedAuthors \<and> p_Timestamp p < beforeOr before db)
          limit (posts db))))"

definition GetAllPosts :: "int \<Rightarrow> int \<Rightarrow> (DB, PostRow list) go" where
  "GetAllPosts before limit = wrapE ''get all posts'' (queryE (\<lambda>db.
     page (\<lambda>p. p_Timestamp p < beforeOr before db) limit (posts db)))"

definition GetThread :: "bytes \<Rightarrow> (DB, PostRow list) go" where
  "GetThread cid = wrapE ''get thread'' (queryE (\<lambda>db.
     sort_key p_Timestamp (filter (\<lambda>p. p_ReplyTo p = Some cid) (posts db))))"

definition CountPostsByAuthor :: "bytes \<Rightarrow> (DB, int) go" where
  "CountPostsByAuthor author = wrapE ''count posts by author'' (queryE (\<lambda>db.
     countRows (\<lambda>p. p_Author p = author) (posts db)))"

subsection \<open>Tags\<close>

definition stmtInsertTags :: "bytes \<Rightarrow> string list \<Rightarrow> DB \<Rightarrow> goerr + DB" where
  "stmtInsertTags postCID tags db =
     Inr (db\<lparr>post_tags := fold (\<lambda>t. insertIgnore (\<lambda>x. x) (postCID, t)) tags (post_tags db)\<rparr>)"

definition InsertPostTags :: "bytes \<Rightarrow> string list \<Rightarrow> (DB, unit) go" where
  "InsertPostTags postCID tags =
     (if length tags = 0 then retE ()
      else wrapE ''insert post tags'' (execE (stmtInsertTags postCID tags)))"

definition InsertPostTagsTx :: "bytes \<Rightarrow> string list \<Rightarrow> (DB, unit) go" where
  "InsertPostTagsTx postCID tags =
     (if length tags = 0 then retE ()
      else wrapE ''insert post tags tx'' (execE (stmtInsertTags postCID tags)))"

definition GetPostsByTag :: "string \<Rightarrow> int \<Rightarrow> int \<Rightarrow> (DB, PostRow list) go" where
  "GetPostsByTag tag before limit = wrapE ''get posts by tag'' (queryE (\<lambda>db.
     page (\<lambda>p. (p_CID p, tag) \<in> set (post_tags db) \<and> p_Timestamp p < beforeOr before db)
       limit (posts db)))"

definition engagement :: "DB \<Rightarrow> bytes \<Rightarrow> int" where
  "engagement db cid = (case rowOf rc_PostCID cid (reaction_counts db) of
      None \<Rightarrow> 0
    | Some rc \<Rightarrow> rc_Likes rc + rc_Replies rc * 2 + rc_Reposts rc * 3)"

definition GetTrendingPosts :: "int \<Rightarrow> int \<Rightarrow> (DB, PostRow list) go" where
  "GetTrendingPosts since limit = wrapE ''get trending posts'' (queryE (\<lambda>db.
     limitTo limit (descending (\<lambda>p. engagement db (p_CID p))
       (descending p_Timestamp (filter (\<lambda>p. since \<le> p_Timestamp p) (posts db))))))"

definition GetTrendingTagsSince :: "int \<Rightarrow> int \<Rightarrow> (DB, (string \<times> int) list) go" where
  "GetTrendingTagsSince since limit = wrapE ''get trending tags'' (queryE (\<lambda>db.
     let tags = map snd (filter (\<lambda>(c, _). \<exists>p\<in>set (posts db). p_CID p = c \<and> since \<le> p_Timestamp p)
                  (post_tags db))
     in limitTo limit (descending snd
          (map (\<lambda>t. (t, countRows (\<lambda>t'. t' = t) tags)) (remdups tags)))))"

definition GetTrendingTags :: "int \<Rightarrow> (DB, (string \<times> int) list) go" where
  "GetTrendingTags limit = GetTrendingTagsSince 0 limit"

section \<open>Media\<close>

text \<open>\<open>database/sql\<close> refuses a \<open>uint64\<close> argument with the high bit set before anything is executed.\<close>

definition uint64Arg :: "64 word \<Rightarrow> goerr + int" where
  "uint64Arg w = (if 2 ^ 63 \<le> unat w then Inl (Err ''uint64 values with high bit set are not supported'')
     else Inr (int (unat w)))"

definition InsertMediaObject ::
  "bytes \<Rightarrow> bytes \<Rightarrow> string \<Rightarrow> 64 word \<Rightarrow> 32 word \<Rightarrow> 32 word \<Rightarrow> 32 word \<Rightarrow> 32 word \<Rightarrow> bytes \<Rightarrow> int
     \<Rightarrow> (DB, unit) go" where
  "InsertMediaObject cid author mimeType sizeArg chunkCount width height duration thumbnailCID timestamp =
     wrapE ''insert media object'' (bindE (liftE (uint64Arg sizeArg)) (\<lambda>sz. execE (\<lambda>db.
       let row = \<lparr>m_CID = cid, m_Author = author, m_MimeType = mimeType, m_Size = sz,
                  m_ChunkCount = uint chunkCount, m_Width = uint width, m_Height = uint height,
                  m_Duration = uint duration, m_ThumbnailCID = nilIfEmpty thumbnailCID,
                  m_Timestamp = timestamp, m_FullyFetched = False\<rparr>
       in Inr (db\<lparr>media_objects := upsertRow m_CID
            (\<lambda>m. row\<lparr>m_CID := m_CID m, m_FullyFetched := m_FullyFetched m\<rparr>) row (media_objects db)\<rparr>))))"

definition GetMediaObject :: "bytes \<Rightarrow> (DB, MediaObjectRow option) go" where
  "GetMediaObject cid = wrapE ''get media object'' (queryE (\<lambda>db. rowOf m_CID cid (media_objects db)))"

definition SetMediaFetched :: "bytes \<Rightarrow> (DB, unit) go" where
  "SetMediaFetched cid = wrapE ''set media fetched'' (execE (\<lambda>db.
     Inr (db\<lparr>media_objects := map (\<lambda>m. if m_CID m = cid then m\<lparr>m_FullyFetched := True\<rparr> else m)
        (media_objects db)\<rparr>)))"

definition stmtInsertPostMedia :: "bytes \<Rightarrow> bytes \<Rightarrow> int \<Rightarrow> DB \<Rightarrow> goerr + DB" where
  "stmtInsertPostMedia postCID mediaCID position db =
     Inr (db\<lparr>post_media := insertIgnore (\<lambda>l. (pm_PostCID l, pm_MediaCID l))
        \<lparr>pm_PostCID = postCID, pm_MediaCID = mediaCID, pm_Position = position\<rparr> (post_media db)\<rparr>)"

definition InsertPostMedia :: "bytes \<Rightarrow> bytes \<Rightarrow> int \<Rightarrow> (DB, unit) go" where
  "InsertPostMedia postCID mediaCID position =
     wrapE ''insert post media'' (execE (stmtInsertPostMedia postCID mediaCID position))"

definition InsertPostMediaTx :: "bytes \<Rightarrow> bytes \<Rightarrow> int \<Rightarrow> (DB, unit) go" where
  "InsertPostMediaTx postCID mediaCID position =
     wrapE ''insert post media tx'' (execE (stmtInsertPostMedia postCID mediaCID position))"

text \<open>The \<open>LEFT JOIN\<close> of \<open>GetPostMedia\<close>: a link without an object gives a row of zero values.\<close>

definition joinMedia :: "MediaObjectRow list \<Rightarrow> PostMediaLink \<Rightarrow> int \<times> MediaObjectRow" where
  "joinMedia objs l = (pm_Position l, case rowOf m_CID (pm_MediaCID l) objs of
      Some m \<Rightarrow> m
    | None \<Rightarrow> \<lparr>m_CID = pm_MediaCID l, m_Author = [], m_MimeType = '''', m_Size = 0, m_ChunkCount = 0,
               m_Width = 0, m_Height = 0, m_Duration = 0, m_ThumbnailCID = None, m_Timestamp = 0,
               m_FullyFetched = False\<rparr>)"

definition GetPostMedia :: "bytes \<Rightarrow> (DB, (int \<times> MediaObjectRow) list) go" where
  "GetPostMedia postCID = wrapE ''get post media'' (queryE (\<lambda>db.
     map (joinMedia (media_objects db))
       (sort_key pm_Position (filter (\<lambda>l. pm_PostCID l = postCID) (post_media db)))))"

section \<open>Reactions\<close>

text \<open>\<open>INSERT OR IGNORE\<close> into \<open>reactions\<close>: the key or the unique triple of an existing row makes it a no-op.\<close>

definition reactionKey :: "ReactionRow \<Rightarrow> bytes \<times> bytes \<times> string" where
  "reactionKey r = (r_Author r, r_Target r, r_ReactionType r)"

definition stmtInsertReaction :: "bytes \<Rightarrow> bytes \<Rightarrow> bytes \<Rightarrow> string \<Rightarrow> int \<Rightarrow> DB \<Rightarrow> goerr + DB" where
  "stmtInsertReaction cid author target reactionType timestamp db =
     (let row = \<lparr>r_CID = cid, r_Author = author, r_Target = target, r_ReactionType = reactionType,
                 r_Timestamp = timestamp\<rparr>
      in if hasKey r_CID cid (reactions db) \<or> hasKey reactionKey (reactionKey row) (reactions db)
         then Inr db
         else Inr (db\<lparr>reactions := reactions db @ [row]\<rparr>))"

definition InsertReaction :: "bytes \<Rightarrow> bytes \<Rightarrow> bytes \<Rightarrow> string \<Rightarrow> int \<Rightarrow> (DB, unit) go" where
  "InsertReaction cid author target reactionType timestamp =
     wrapE ''insert reaction'' (execE (stmtInsertReaction cid author target reactionType timestamp))"

definition InsertReactionTx :: "bytes \<Rightarrow> bytes \<Rightarrow> bytes \<Rightarrow> string \<Rightarrow> int \<Rightarrow> (DB, unit) go" where
  "InsertReactionTx cid author target reactionType timestamp =
     wrapE ''insert reaction tx'' (execE (stmtInsertReaction cid author target reactionType timestamp))"

definition GetReactions :: "bytes \<Rightarrow> (DB, ReactionRow list) go" where
  "GetReactions target = wrapE ''get reactions'' (queryE (\<lambda>db.
     sort_key r_Timestamp (filter (\<lambda>r. r_Target r = target) (reactions db))))"

definition HasReacted :: "bytes \<Rightarrow> bytes \<Rightarrow> string \<Rightarrow> (DB, bool) go" where
  "HasReacted author target reactionType = catchE
     (bindE (queryRowE (\<lambda>db. rowOf reactionKey (author, target, reactionType) (reactions db)))
       (\<lambda>_. retE True)) (\<lambda>_. retE False)"

definition countLikes :: "bytes \<Rightarrow> DB \<Rightarrow> int" where
  "countLikes cid db = countRows (\<lambda>r. r_Target r = cid \<and> r_ReactionType r = ''like'') (reactions db)"

definition countReplies :: "bytes \<Rightarrow> DB \<Rightarrow> int" where
  "countReplies cid db = countRows (\<lambda>p. p_ReplyTo p = Some cid) (posts db)"

definition countReposts :: "bytes \<Rightarrow> DB \<Rightarrow> int" where
  "countReposts cid db = countRows (\<lambda>p. p_RepostOf p = Some cid) (posts db)"

definition stmtUpsertCounts :: "bytes \<Rightarrow> int \<Rightarrow> int \<Rightarrow> int \<Rightarrow> DB \<Rightarrow> goerr + DB" where
  "stmtUpsertCounts cid likes replies reposts db =
     (let row = \<lparr>rc_PostCID = cid, rc_Likes = likes, rc_Replies = replies, rc_Reposts = reposts\<rparr>
      in Inr (db\<lparr>reaction_counts := upsertRow rc_PostCID (\<lambda>r. row\<lparr>rc_PostCID := rc_PostCID r\<rparr>) row
           (reaction_counts db)\<rparr>))"

text \<open>
  Four statements, each atomic, in no transaction: this is the method when nothing else changes the tables
  between them. Recount runs them with the statements of other goroutines in between.
\<close>

definition UpdateReactionCount :: "bytes \<Rightarrow> (DB, unit) go" where
  "UpdateReactionCount postCID =
     bindE (wrapE ''count likes'' (queryE (countLikes postCID))) (\<lambda>likeCount.
     bindE (wrapE ''count replies'' (queryE (countReplies postCID))) (\<lambda>replyCount.
     bindE (wrapE ''count reposts'' (queryE (countReposts postCID))) (\<lambda>repostCount.
     wrapE ''upsert reaction counts''
       (execE (stmtUpsertCounts postCID likeCount replyCount repostCount)))))"

definition UpdateReactionCountTx :: "bytes \<Rightarrow> (DB, unit) go" where
  "UpdateReactionCountTx postCID =
     bindE (wrapE ''count likes tx'' (queryE (countLikes postCID))) (\<lambda>likeCount.
     bindE (wrapE ''count replies tx'' (queryE (countReplies postCID))) (\<lambda>replyCount.
     bindE (wrapE ''count reposts tx'' (queryE (countReposts postCID))) (\<lambda>repostCount.
     wrapE ''upsert reaction counts tx''
       (execE (stmtUpsertCounts postCID likeCount replyCount repostCount)))))"

text \<open>\<open>GetReactionCount\<close> turns every error into zero; \<open>GetFullReactionCounts\<close> only the missing row.\<close>

definition GetReactionCount :: "bytes \<Rightarrow> (DB, int) go" where
  "GetReactionCount target = catchE
     (bindE (queryRowE (\<lambda>db. rowOf rc_PostCID target (reaction_counts db))) (\<lambda>r. retE (rc_Likes r)))
     (\<lambda>_. retE 0)"

definition GetFullReactionCounts :: "bytes \<Rightarrow> (DB, int \<times> int \<times> int) go" where
  "GetFullReactionCounts target =
     bindE (queryE (\<lambda>db. rowOf rc_PostCID target (reaction_counts db))) (\<lambda>r. case r of
       None \<Rightarrow> retE (0, 0, 0)
     | Some rc \<Rightarrow> retE (rc_Likes rc, rc_Replies rc, rc_Reposts rc))"

definition GetReactionCountsBatch :: "bytes list \<Rightarrow> (DB, (string \<times> int \<times> int \<times> int) list) go" where
  "GetReactionCountsBatch cids =
     (if length cids = 0 then retE []
      else wrapE ''get reaction counts batch'' (queryE (\<lambda>db.
        map (\<lambda>rc. (EncodeToString (rc_PostCID rc), rc_Likes rc, rc_Replies rc, rc_Reposts rc))
          (filter (\<lambda>rc. rc_PostCID rc \<in> set cids) (reaction_counts db)))))"

end
