(* ===== verification/PeopleRepo.thy ===== *)
theory PeopleRepo
  imports PostsRepo
begin

text \<open>
  Profiles, subscriptions, follow events, direct messages, notifications, identities and terms:
  \<open>profiles_repo.go\<close>, \<open>subscriptions_repo.go\<close>, \<open>dm_repo.go\<close>, \<open>notifications_repo.go\<close>,
  \<open>identities_repo.go\<close> and \<open>terms_repo.go\<close> of \<open>pkg/storage\<close>.
\<close>

section \<open>Profiles\<close>

definition UpsertProfile ::
  "bytes \<Rightarrow> string \<Rightarrow> string \<Rightarrow> bytes \<Rightarrow> bytes \<Rightarrow> string \<Rightarrow> 64 word \<Rightarrow> int \<Rightarrow> (DB, unit) go" where
  "UpsertProfile pubkey displayName bio avatarCID bannerCID website version updatedAt =
     wrapE ''upsert profile'' (bindE (liftE (uint64Arg version)) (\<lambda>ver. execE (\<lambda>db.
       let row = \<lparr>pf_Pubkey = pubkey, pf_DisplayName = displayName, pf_Bio = bio,
                  pf_AvatarCID = nilIfEmpty avatarCID, pf_BannerCID = nilIfEmpty bannerCID,
                  pf_Website = website, pf_Version = ver, pf_UpdatedAt = updatedAt\<rparr>
       in Inr (db\<lparr>profiles := upsertRow pf_Pubkey
            (\<lambda>p. if pf_Version p < ver then row\<lparr>pf_Pubkey := pf_Pubkey p\<rparr> else p) row (profiles db)\<rparr>))))"

definition GetProfileVersion :: "bytes \<Rightarrow> (DB, int \<times> bool) go" where
  "GetProfileVersion pubkey = wrapE ''get profile version''
     (bindE (queryE (\<lambda>db. rowOf pf_Pubkey pubkey (profiles db))) (\<lambda>r. case r of
        None \<Rightarrow> retE (0, False)
      | Some p \<Rightarrow> retE (pf_Version p, True)))"

definition GetProfile :: "bytes \<Rightarrow> (DB, ProfileRow option) go" where
  "GetProfile pubkey = wrapE ''get profile'' (queryE (\<lambda>db. rowOf pf_Pubkey pubkey (profiles db)))"

section \<open>Subscriptions\<close>

text \<open>
  An empty owner stands for every identity; a row with an empty owner, left by the migration of an
  old database, belongs to every identity.
\<close>

definition ownedBy :: "bytes \<Rightarrow> SubscriptionRow \<Rightarrow> bool" where
  "ownedBy owner s \<longleftrightarrow> length owner = 0 \<or> s_OwnerPubkey s = owner \<or> s_OwnerPubkey s = []"

definition AddSubscription :: "bytes \<Rightarrow> bytes \<Rightarrow> int \<Rightarrow> (DB, unit) go" where
  "AddSubscription ownerPubkey pubkey followedAt = wrapE ''add subscription'' (execE (\<lambda>db.
     Inr (db\<lparr>subscriptions := insertIgnore (\<lambda>s. (s_OwnerPubkey s, s_Pubkey s))
       \<lparr>s_OwnerPubkey = ownerPubkey, s_Pubkey = pubkey, s_FollowedAt = followedAt,
        s_SyncCompleted = False\<rparr> (subscriptions db)\<rparr>)))"

definition RemoveSubscription :: "bytes \<Rightarrow> bytes \<Rightarrow> (DB, unit) go" where
  "RemoveSubscription ownerPubkey pubkey = wrapE ''remove subscription'' (execE (\<lambda>db.
     Inr (db\<lparr>subscriptions :=
       filter (\<lambda>s. \<not> (s_Pubkey s = pubkey \<and> ownedBy ownerPubkey s)) (subscriptions db)\<rparr>)))"

definition GetSubscriptions :: "bytes \<Rightarrow> (DB, SubscriptionRow list) go" where
  "GetSubscriptions ownerPubkey = wrapE ''get subscriptions'' (queryE (\<lambda>db.
     descending s_FollowedAt (filter (ownedBy ownerPubkey) (subscriptions db))))"

definition CountSubscriptions :: "bytes \<Rightarrow> (DB, int) go" where
  "CountSubscriptions ownerPubkey = wrapE ''count subscriptions'' (queryE (\<lambda>db.
     countRows (ownedBy ownerPubkey) (subscriptions db)))"

definition GetSubscriptionSet :: "bytes \<Rightarrow> (DB, string set) go" where
  "GetSubscriptionSet ownerPubkey = wrapE ''get subscription set'' (queryE (\<lambda>db.
     set (map (\<lambda>s. EncodeToString (s_Pubkey s)) (filter (ownedBy ownerPubkey) (subscriptions db)))))"

definition IsSubscribed :: "bytes \<Rightarrow> bytes \<Rightarrow> (DB, bool) go" where
  "IsSubscribed ownerPubkey pubkey = catchE
     (bindE (queryRowE (\<lambda>db. find (\<lambda>s. s_Pubkey s = pubkey \<and> ownedBy ownerPubkey s) (subscriptions db)))
       (\<lambda>_. retE True)) (\<lambda>_. retE False)"

definition MarkSyncCompleted :: "bytes \<Rightarrow> bytes \<Rightarrow> (DB, unit) go" where
  "MarkSyncCompleted ownerPubkey pubkey = wrapE ''mark sync completed'' (execE (\<lambda>db.
     Inr (db\<lparr>subscriptions := map (\<lambda>s. if s_Pubkey s = pubkey \<and> ownedBy ownerPubkey s
        then s\<lparr>s_SyncCompleted := True\<rparr> else s) (subscriptions db)\<rparr>)))"

definition GetPendingSyncs :: "bytes \<Rightarrow> (DB, SubscriptionRow list) go" where
  "GetPendingSyncs ownerPubkey = wrapE ''get pending syncs'' (queryE (\<lambda>db.
     descending s_FollowedAt
       (filter (\<lambda>s. \<not> s_SyncCompleted s \<and> ownedBy ownerPubkey s) (subscriptions db))))"

section \<open>Follow events\<close>

definition followKey :: "FollowEventRow \<Rightarrow> bytes \<times> bytes" where
  "followKey f = (f_Author f, f_Target f)"

definition InsertFollowEvent :: "bytes \<Rightarrow> bytes \<Rightarrow> string \<Rightarrow> int \<Rightarrow> (DB, unit) go" where
  "InsertFollowEvent author target action timestamp = wrapE ''insert follow event'' (execE (\<lambda>db.
     Inr (db\<lparr>follow_events := upsertRow followKey
       (\<lambda>f. f\<lparr>f_Action := action, f_Timestamp := timestamp\<rparr>)
       \<lparr>f_Author = author, f_Target = target, f_Action = action, f_Timestamp = timestamp\<rparr>
       (follow_events db)\<rparr>)))"

definition GetFollowers :: "bytes \<Rightarrow> (DB, bytes list) go" where
  "GetFollowers pubkey = wrapE ''get followers'' (queryE (\<lambda>db.
     map f_Author (filter (\<lambda>f. f_Target f = pubkey \<and> f_Action f = ''follow'') (follow_events db))))"

definition GetFollowing :: "bytes \<Rightarrow> (DB, bytes list) go" where
  "GetFollowing pubkey = wrapE ''get following'' (queryE (\<lambda>db.
     map f_Target (filter (\<lambda>f. f_Author f = pubkey \<and> f_Action f = ''follow'') (follow_events db))))"

definition countFollowers :: "bytes \<Rightarrow> DB \<Rightarrow> int" where
  "countFollowers pk db = countRows (\<lambda>f. f_Target f = pk \<and> f_Action f = ''follow'') (follow_events db)"

definition countFollowing :: "bytes \<Rightarrow> DB \<Rightarrow> int" where
  "countFollowing pk db = countRows (\<lambda>f. f_Author f = pk \<and> f_Action f = ''follow'') (follow_events db)"

definition stmtUpsertFollowerCounts :: "bytes \<Rightarrow> int \<Rightarrow> int \<Rightarrow> DB \<Rightarrow> goerr + DB" where
  "stmtUpsertFollowerCounts pk followers following db =
     (let row = \<lparr>fc_Pubkey = pk, fc_Followers = followers, fc_Following = following\<rparr>
      in Inr (db\<lparr>follower_counts := upsertRow fc_Pubkey (\<lambda>r. row\<lparr>fc_Pubkey := fc_Pubkey r\<rparr>) row
           (follower_counts db)\<rparr>))"

definition UpdateFollowerCount :: "bytes \<Rightarrow> (DB, unit) go" where
  "UpdateFollowerCount pubkey =
     bindE (wrapE ''count followers'' (queryE (countFollowers pubkey))) (\<lambda>followerCount.
     bindE (wrapE ''count following'' (queryE (countFollowing pubkey))) (\<lambda>followingCount.
     wrapE ''upsert follower counts''
       (execE (stmtUpsertFollowerCounts pubkey followerCount followingCount))))"

section \<open>Direct messages\<close>

definition stmtInsertDM :: "bytes \<Rightarrow> bytes \<Rightarrow> bytes \<Rightarrow> bytes \<Rightarrow> bytes \<Rightarrow> int \<Rightarrow> DB \<Rightarrow> goerr + DB" where
  "stmtInsertDM cid author recipient encryptedContent nonce timestamp db =
     Inr (db\<lparr>direct_messages := insertIgnore d_CID
       \<lparr>d_CID = cid, d_Author = author, d_Recipient = recipient, d_EncryptedContent = encryptedContent,
        d_Nonce = nonce, d_Timestamp = timestamp, d_Read = False\<rparr> (direct_messages db)\<rparr>)"

definition InsertDM :: "bytes \<Rightarrow> bytes \<Rightarrow> bytes \<Rightarrow> bytes \<Rightarrow> bytes \<Rightarrow> int \<Rightarrow> (DB, unit) go" where
  "InsertDM cid author recipient encryptedContent nonce timestamp =
     wrapE ''insert dm'' (execE (stmtInsertDM cid author recipient encryptedContent nonce timestamp))"

definition InsertDMTx :: "bytes \<Rightarrow> bytes \<Rightarrow> bytes \<Rightarrow> bytes \<Rightarrow> bytes \<Rightarrow> int \<Rightarrow> (DB, unit) go" where
  "InsertDMTx cid author recipient encryptedContent nonce timestamp =
     wrapE ''insert dm tx'' (execE (stmtInsertDM cid author recipient encryptedContent nonce timestamp))"

definition between :: "bytes \<Rightarrow> bytes \<Rightarrow> DMRow \<Rightarrow> bool" where
  "between a b d \<longleftrightarrow> d_Author d = a \<and> d_Recipient d = b \<or> d_Author d = b \<and> d_Recipient d = a"

definition GetConversation :: "bytes \<Rightarrow> bytes \<Rightarrow> int \<Rightarrow> int \<Rightarrow> (DB, DMRow list) go" where
  "GetConversation pubkey1 pubkey2 before limit = wrapE ''get conversation'' (queryE (\<lambda>db.
     limitTo limit (descending d_Timestamp
       (filter (\<lambda>d. between pubkey1 pubkey2 d \<and> d_Timestamp d < beforeOr before db)
         (direct_messages db)))))"

definition MarkDMRead :: "bytes \<Rightarrow> (DB, unit) go" where
  "MarkDMRead cid = wrapE ''mark dm read'' (execE (\<lambda>db.
     Inr (db\<lparr>direct_messages :=
       map (\<lambda>d. if d_CID d = cid then d\<lparr>d_Read := True\<rparr> else d) (direct_messages db)\<rparr>)))"

text \<open>
  \<open>GetConversations\<close>: one row per unordered pair with the own key on one side, its newest message, and
  the number of unread messages to the own key; the peer is the other end of the pair.
\<close>

record ConversationSummary =
  cs_PeerPubkey :: bytes
  cs_LastTimestamp :: int
  cs_LastAuthor :: bytes
  cs_EncryptedContent :: bytes
  cs_Nonce :: bytes
  cs_UnreadCount :: int

definition peerOf :: "bytes \<Rightarrow> DMRow \<Rightarrow> bytes" where
  "peerOf own d = (if d_Author d = own then d_Recipient d else d_Author d)"

definition summaryOf :: "bytes \<Rightarrow> DMRow list \<Rightarrow> bytes \<Rightarrow> ConversationSummary" where
  "summaryOf own rows peer =
     (let conv = filter (\<lambda>d. peerOf own d = peer) rows;
          newest = hd (descending d_Timestamp conv)
      in \<lparr>cs_PeerPubkey = peer, cs_LastTimestamp = d_Timestamp newest, cs_LastAuthor = d_Author newest,
          cs_EncryptedContent = d_EncryptedContent newest, cs_Nonce = d_Nonce newest,
          cs_UnreadCount = countRows (\<lambda>d. \<not> d_Read d \<and> d_Recipient d = own) conv\<rparr>)"

definition GetConversations :: "bytes \<Rightarrow> (DB, ConversationSummary list) go" where
  "GetConversations ownPubkey = wrapE ''get conversations'' (queryE (\<lambda>db.
     let rows = filter (\<lambda>d. d_Author d = ownPubkey \<or> d_Recipient d = ownPubkey) (direct_messages db)
     in descending cs_LastTimestamp (map (summaryOf ownPubkey rows) (remdups (map (peerOf ownPubkey) rows)))))"

section \<open>Notifications\<close>

definition stmtInsertNotification ::
  "bytes \<Rightarrow> string \<Rightarrow> bytes \<Rightarrow> bytes \<Rightarrow> bytes \<Rightarrow> int \<Rightarrow> DB \<Rightarrow> goerr + DB" where
  "stmtInsertNotification ownerPubkey notifType actor targetCID relatedCID timestamp db =
     Inr (db\<lparr>notifications := notifications db @
       [\<lparr>n_ID = notification_seq db + 1, n_OwnerPubkey = nilIfEmpty ownerPubkey, n_Type = notifType,
         n_Actor = actor, n_TargetCID = nilIfEmpty targetCID, n_RelatedCID = nilIfEmpty relatedCID,
         n_Timestamp = timestamp, n_Read = False\<rparr>],
       notification_seq := notification_seq db + 1\<rparr>)"

definition InsertNotification ::
  "bytes \<Rightarrow> string \<Rightarrow> bytes \<Rightarrow> bytes \<Rightarrow> bytes \<Rightarrow> int \<Rightarrow> (DB, unit) go" where
  "InsertNotification ownerPubkey notifType actor targetCID relatedCID timestamp =
     wrapE ''insert notification''
       (execE (stmtInsertNotification ownerPubkey notifType actor targetCID relatedCID timestamp))"

definition InsertNotificationTx ::
  "bytes \<Rightarrow> string \<Rightarrow> bytes \<Rightarrow> bytes \<Rightarrow> bytes \<Rightarrow> int \<Rightarrow> (DB, unit) go" where
  "InsertNotificationTx ownerPubkey notifType actor targetCID relatedCID timestamp =
     wrapE ''insert notification tx''
       (execE (stmtInsertNotification ownerPubkey notifType actor targetCID relatedCID timestamp))"

text \<open>\<open>owner_pubkey = ?\<close> is never true of a row whose owner is \<open>NULL\<close>.\<close>

definition GetNotifications :: "bytes \<Rightarrow> int \<Rightarrow> int \<Rightarrow> (DB, NotificationRow list) go" where
  "GetNotifications ownerPubkey before limit = wrapE ''get notifications'' (queryE (\<lambda>db.
     limitTo limit (descending n_Timestamp
       (filter (\<lambda>n. n_OwnerPubkey n = Some ownerPubkey \<and> n_Timestamp n < beforeOr before db)
         (notifications db)))))"

definition MarkAllRead :: "bytes \<Rightarrow> (DB, unit) go" where
  "MarkAllRead ownerPubkey = wrapE ''mark all read'' (execE (\<lambda>db.
     Inr (db\<lparr>notifications := map (\<lambda>n. if n_OwnerPubkey n = Some ownerPubkey \<and> \<not> n_Read n
        then n\<lparr>n_Read := True\<rparr> else n) (notifications db)\<rparr>)))"

definition MarkRead :: "bytes \<Rightarrow> int \<Rightarrow> (DB, unit) go" where
  "MarkRead ownerPubkey ident = wrapE ''mark read'' (execE (\<lambda>db.
     Inr (db\<lparr>notifications := map (\<lambda>n. if n_OwnerPubkey n = Some ownerPubkey \<and> n_ID n = ident
        then n\<lparr>n_Read := True\<rparr> else n) (notifications db)\<rparr>)))"

definition UnreadCount :: "bytes \<Rightarrow> (DB, int) go" where
  "UnreadCount ownerPubkey = wrapE ''unread count'' (queryE (\<lambda>db.
     countRows (\<lambda>n. n_OwnerPubkey n = Some ownerPubkey \<and> \<not> n_Read n) (notifications db)))"

section \<open>Identities and terms\<close>

definition InsertIdentity :: "bytes \<Rightarrow> string \<Rightarrow> bool \<Rightarrow> int \<Rightarrow> (DB, unit) go" where
  "InsertIdentity pubkey displayName isActive createdAt = wrapE ''insert identity'' (execE (\<lambda>db.
     Inr (db\<lparr>identities := insertIgnore id_Pubkey
       \<lparr>id_Pubkey = pubkey, id_DisplayName = displayName, id_IsActive = isActive,
        id_CreatedAt = createdAt\<rparr> (identities db)\<rparr>)))"

definition GetIdentities :: "(DB, IdentityRow list) go" where
  "GetIdentities = wrapE ''get identities'' (queryE (\<lambda>db. sort_key id_CreatedAt (identities db)))"

text \<open>
  \<open>SetActiveIdentity\<close> opens its transaction by hand; begin and commit errors carry its own text, the
  two updates are atomic in the same way as under \<open>WithTransaction\<close>.
\<close>

definition SetActiveIdentity :: "bytes \<Rightarrow> (DB, unit) go" where
  "SetActiveIdentity pubkey = WithTransaction
     (seqE (wrapE ''deactivate identities'' (execE (\<lambda>db.
        Inr (db\<lparr>identities := map (\<lambda>i. i\<lparr>id_IsActive := False\<rparr>) (identities db)\<rparr>))))
      (wrapE ''activate identity'' (execE (\<lambda>db.
        Inr (db\<lparr>identities := map (\<lambda>i. if id_Pubkey i = pubkey then i\<lparr>id_IsActive := True\<rparr> else i)
          (identities db)\<rparr>)))))"

definition GetActiveIdentity :: "(DB, IdentityRow option) go" where
  "GetActiveIdentity = wrapE ''get active identity'' (queryE (\<lambda>db. find id_IsActive (identities db)))"

definition CountIdentities :: "(DB, int) go" where
  "CountIdentities = wrapE ''count identities'' (queryE (\<lambda>db. int (length (identities db))))"

definition IdentityExists :: "bytes \<Rightarrow> (DB, bool) go" where
  "IdentityExists pubkey = wrapE ''check identity exists'' (queryE (\<lambda>db.
     0 < countRows (\<lambda>i. id_Pubkey i = pubkey) (identities db)))"

definition HasAcceptedTerms :: "bytes \<Rightarrow> (DB, bool) go" where
  "HasAcceptedTerms pubkey = catchE
     (queryE (\<lambda>db. 0 < countRows (\<lambda>t. t_Pubkey t = pubkey) (terms_acceptance db))) (\<lambda>_. retE False)"

definition AcceptTerms :: "bytes \<Rightarrow> string \<Rightarrow> (DB, unit) go" where
  "AcceptTerms pubkey version = execE (\<lambda>db.
     Inr (db\<lparr>terms_acceptance := filter (\<lambda>t. t_Pubkey t \<noteq> pubkey) (terms_acceptance db) @
       [\<lparr>t_Pubkey = pubkey, t_Version = version, t_AcceptedAt = now_ms db, t_DeviceNodeAgreed = True\<rparr>]\<rparr>))"

end
