(* ===== verification/AccessRepo.thy ===== *)
theory AccessRepo
  imports PeopleRepo
begin

text \<open>
  Access tracking and pinning of \<open>pkg/storage/content_access_repo.go\<close>: what eviction may delete.
\<close>

section \<open>Operations\<close>

definition TrackContentAccess :: "bytes \<Rightarrow> bool \<Rightarrow> (DB, unit) go" where
  "TrackContentAccess cid isPinned = wrapE ''track content access'' (execE (\<lambda>db.
     Inr (db\<lparr>content_access := upsertRow ca_CID
       (\<lambda>a. a\<lparr>ca_LastAccessed := now_ms db, ca_AccessCount := ca_AccessCount a + 1,
               ca_IsPinned := ca_IsPinned a \<or> isPinned\<rparr>)
       \<lparr>ca_CID = cid, ca_LastAccessed = now_ms db, ca_AccessCount = 1, ca_IsPinned = isPinned\<rparr>
       (content_access db)\<rparr>)))"

text \<open>The upsert shared by \<open>SetContentPinned\<close> and the statements of \<open>SetPinnedForAuthor\<close>.\<close>

definition pinRow :: "int \<Rightarrow> bool \<Rightarrow> bytes \<Rightarrow> ContentAccessRow list \<Rightarrow> ContentAccessRow list" where
  "pinRow now pinned cid rows = upsertRow ca_CID (\<lambda>a. a\<lparr>ca_IsPinned := pinned\<rparr>)
     \<lparr>ca_CID = cid, ca_LastAccessed = now, ca_AccessCount = 1, ca_IsPinned = pinned\<rparr> rows"

definition SetContentPinned :: "bytes \<Rightarrow> bool \<Rightarrow> (DB, unit) go" where
  "SetContentPinned cid pinned = wrapE ''set content pinned'' (execE (\<lambda>db.
     Inr (db\<lparr>content_access := pinRow (now_ms db) pinned cid (content_access db)\<rparr>)))"

definition GetLRUContent :: "int \<Rightarrow> (DB, bytes list) go" where
  "GetLRUContent limit = wrapE ''get LRU content'' (queryE (\<lambda>db.
     map ca_CID (limitTo limit
       (sort_key ca_LastAccessed (filter (\<lambda>a. \<not> ca_IsPinned a) (content_access db))))))"

definition DeleteContentAccess :: "bytes \<Rightarrow> (DB, unit) go" where
  "DeleteContentAccess cid = wrapE ''delete content access'' (execE (\<lambda>db.
     Inr (db\<lparr>content_access := filter (\<lambda>a. ca_CID a \<noteq> cid) (content_access db)\<rparr>)))"

definition IsLocalIdentity :: "bytes \<Rightarrow> (DB, bool) go" where
  "IsLocalIdentity pubkey =
     (if length pubkey = 0 then retE False
      else wrapE ''check local identity'' (queryE (\<lambda>db. hasKey id_Pubkey pubkey (identities db))))"

definition HasLocalSubscription :: "bytes \<Rightarrow> (DB, bool) go" where
  "HasLocalSubscription pubkey =
     (if length pubkey = 0 then retE False
      else wrapE ''check local subscription'' (queryE (\<lambda>db. hasKey s_Pubkey pubkey (subscriptions db))))"

definition ShouldPinAuthor :: "bytes \<Rightarrow> (DB, bool) go" where
  "ShouldPinAuthor author = bindE (IsLocalIdentity author) (\<lambda>isLocal.
     if isLocal then retE True else HasLocalSubscription author)"

definition ShouldPinDM :: "bytes \<Rightarrow> bytes \<Rightarrow> (DB, bool) go" where
  "ShouldPinDM author recipient = bindE (IsLocalIdentity author) (\<lambda>isLocalAuthor.
     if isLocalAuthor then retE True else IsLocalIdentity recipient)"

definition TrackContentForAuthor :: "bytes \<Rightarrow> bytes \<Rightarrow> (DB, unit) go" where
  "TrackContentForAuthor cid author =
     bindE (ShouldPinAuthor author) (\<lambda>pinned. TrackContentAccess cid pinned)"

definition lookupPostAuthor :: "bytes \<Rightarrow> (DB, bytes) go" where
  "lookupPostAuthor cid =
     (if length cid = 0 then retE []
      else wrapE ''lookup post author'' (queryE (\<lambda>db.
        case rowOf p_CID cid (posts db) of None \<Rightarrow> [] | Some p \<Rightarrow> p_Author p)))"

definition TrackReactionContent :: "bytes \<Rightarrow> bytes \<Rightarrow> bytes \<Rightarrow> (DB, unit) go" where
  "TrackReactionContent cid author target =
     bindE (ShouldPinAuthor author) (\<lambda>pinned.
     bindE (if \<not> pinned \<and> 0 < length target then
              bindE (lookupPostAuthor target) (\<lambda>targetAuthor.
                if 0 < length targetAuthor then ShouldPinAuthor targetAuthor else retE pinned)
            else retE pinned) (\<lambda>pinned'.
     TrackContentAccess cid pinned'))"

definition TrackContentForDM :: "bytes \<Rightarrow> bytes \<Rightarrow> bytes \<Rightarrow> (DB, unit) go" where
  "TrackContentForDM cid author recipient =
     bindE (ShouldPinDM author recipient) (\<lambda>pinned. TrackContentAccess cid pinned)"

text \<open>A comparison with a \<open>NULL\<close> parameter is never true.\<close>

definition lookupMediaAuthor :: "bytes \<Rightarrow> bytes \<Rightarrow> (DB, bytes) go" where
  "lookupMediaAuthor cid mediaObjectCID =
     (let lookupCID = (if 0 < length mediaObjectCID then mediaObjectCID else cid) in
      if length lookupCID = 0 then retE []
      else wrapE ''lookup media author'' (queryE (\<lambda>db.
        case find (\<lambda>m. m_CID m = lookupCID \<or> cid \<noteq> [] \<and> m_ThumbnailCID m = Some cid) (media_objects db)
        of None \<Rightarrow> [] | Some m \<Rightarrow> m_Author m)))"

definition TrackContentForMedia :: "bytes \<Rightarrow> bytes \<Rightarrow> (DB, unit) go" where
  "TrackContentForMedia cid mediaObjectCID =
     bindE (lookupMediaAuthor cid mediaObjectCID) (\<lambda>author.
       if length author = 0 then TrackContentAccess cid False else TrackContentForAuthor cid author)"

text \<open>The five statements of \<open>SetPinnedForAuthor\<close>, run one after the other without a transaction.\<close>

definition authoredCIDs :: "bytes \<Rightarrow> DB \<Rightarrow> bytes list list" where
  "authoredCIDs author db =
     [[author],
      map p_CID (filter (\<lambda>p. p_Author p = author) (posts db)),
      map m_CID (filter (\<lambda>m. m_Author m = author) (media_objects db)),
      List.map_filter m_ThumbnailCID (filter (\<lambda>m. m_Author m = author) (media_objects db)),
      map r_CID (filter (\<lambda>r. r_Author r = author) (reactions db))]"

definition stmtPinAll :: "bytes \<Rightarrow> bool \<Rightarrow> nat \<Rightarrow> int \<Rightarrow> DB \<Rightarrow> goerr + DB" where
  "stmtPinAll author pinned i now db =
     Inr (db\<lparr>content_access := fold (pinRow now pinned) (authoredCIDs author db ! i) (content_access db)\<rparr>)"

definition SetPinnedForAuthor :: "bytes \<Rightarrow> bool \<Rightarrow> (DB, unit) go" where
  "SetPinnedForAuthor author pinned =
     (if length author = 0 then retE ()
      else bindE (getE now_ms) (\<lambda>now.
        forE (\<lambda>i. wrapE ''set pinned for author'' (execE (stmtPinAll author pinned i now))) [0..<5]))"

end
