(* ===== verification/StorageInv.thy ===== *)
theory StorageInv
  imports AccessRepo
begin

text \<open>
  The well-formedness of the database under every repository operation and every driver failure:
  primary keys and unique constraints hold, every post has an author profile, notification numbers
  are fresh. The operations that change tables are collected in one type, so that the invariant is
  proved for every history of them.
\<close>

section \<open>Well-formedness\<close>

definition dbInv :: "DB \<Rightarrow> bool" where
  "dbInv db \<longleftrightarrow>
     keyed id_Pubkey (identities db) \<and> keyed pf_Pubkey (profiles db) \<and> keyed p_CID (posts db) \<and>
     (\<forall>p\<in>set (posts db). hasKey pf_Pubkey (p_Author p) (profiles db)) \<and>
     keyed (\<lambda>l. (pm_PostCID l, pm_MediaCID l)) (post_media db) \<and> keyed m_CID (media_objects db) \<and>
     keyed r_CID (reactions db) \<and> keyed reactionKey (reactions db) \<and>
     keyed rc_PostCID (reaction_counts db) \<and>
     keyed (\<lambda>s. (s_OwnerPubkey s, s_Pubkey s)) (subscriptions db) \<and>
     keyed followKey (follow_events db) \<and> keyed fc_Pubkey (follower_counts db) \<and>
     keyed d_CID (direct_messages db) \<and> keyed n_ID (notifications db) \<and>
     (\<forall>n\<in>set (notifications db). n_ID n \<le> notification_seq db) \<and>
     distinct (post_tags db) \<and> keyed ca_CID (content_access db) \<and>
     keyed t_Pubkey (terms_acceptance db)"

lemma steady_dbInv: "steady dbInv"
  by (simp add: steady_def dbInv_def)

lemmas keeps_dbInv_execE = keeps_execE [OF steady_dbInv]
lemmas keeps_dbInv_queryE = keeps_queryE [OF steady_dbInv] keeps_queryRowE [OF steady_dbInv]

subsection \<open>Row updates keep the constraints\<close>

lemma map_if_key:
  "(\<And>r. key (f r) = key r) \<Longrightarrow> map (key \<circ> (\<lambda>r. if P r then f r else r)) rows = map key rows"
  by auto

lemma keyed_map_if:
  "(\<And>r. key (f r) = key r) \<Longrightarrow> keyed key rows \<Longrightarrow> keyed key (map (\<lambda>r. if P r then f r else r) rows)"
  by (simp add: map_if_key)

lemma keyed_filter: "keyed key rows \<Longrightarrow> keyed key (filter P rows)"
  by (simp add: distinct_map_filter)

lemma hasKey_upsert:
  assumes "\<And>r. key (upd r) = key r"
  shows "hasKey key k (upsertRow key upd row rows) \<longleftrightarrow> k = key row \<or> hasKey key k rows"
proof (cases "hasKey key (key row) rows")
  case True
  then have "hasKey key k (upsertRow key upd row rows) \<longleftrightarrow> k \<in> set (map key rows)"
    unfolding upsertRow_def if_P [OF True] hasKey_def
    by (simp only: map_key_upsert [of key upd "key row" rows, OF assms] if_True)
  with True show ?thesis by (auto simp: hasKey_def)
next
  case False
  then show ?thesis by (auto simp: upsertRow_def)
qed

lemma distinct_insertIgnore_id: "distinct xs \<Longrightarrow> distinct (insertIgnore (\<lambda>x. x) y xs)"
  using keyed_insertIgnore [of "\<lambda>x. x" xs y] by simp

lemma distinct_fold_insertIgnore:
  "distinct xs \<Longrightarrow> distinct (fold (\<lambda>t. insertIgnore (\<lambda>x. x) (f t)) ts xs)"
  by (induction ts arbitrary: xs) (simp_all add: distinct_insertIgnore_id)

lemma keyed_pinRow: "keyed ca_CID rows \<Longrightarrow> keyed ca_CID (pinRow now pinned cid rows)"
  unfolding pinRow_def by (rule keyed_upsert) simp_all

lemma keyed_fold_pinRow: "keyed ca_CID rows \<Longrightarrow> keyed ca_CID (fold (pinRow now pinned) cids rows)"
  by (induction cids arbitrary: rows) (simp_all add: keyed_pinRow)

section \<open>Every operation keeps the invariant\<close>

named_theorems db_keeps \<open>operations that keep \<open>dbInv\<close>\<close>

lemma stmtInsertPost_inv: "dbInv db \<Longrightarrow> stmtInsertPost c a t rt ro ts sg db = Inr db' \<Longrightarrow> dbInv db'"
  by (auto simp: stmtInsertPost_def dbInv_def hasKey_def split: if_splits)

lemma keeps_InsertPost [db_keeps]:
  "keeps dbInv (InsertPost c a t rt ro ts sg)" "keeps dbInv (InsertPostTx c a t rt ro ts sg)"
  unfolding InsertPost_def InsertPostTx_def
  by (intro keeps_intro keeps_dbInv_execE ; erule (1) stmtInsertPost_inv)+

lemma stmtInsertTags_inv: "dbInv db \<Longrightarrow> stmtInsertTags c ts db = Inr db' \<Longrightarrow> dbInv db'"
  by (auto simp: stmtInsertTags_def dbInv_def distinct_fold_insertIgnore)

lemma keeps_InsertPostTags [db_keeps]:
  "keeps dbInv (InsertPostTags c ts)" "keeps dbInv (InsertPostTagsTx c ts)"
  unfolding InsertPostTags_def InsertPostTagsTx_def
  by (intro keeps_intro keeps_dbInv_execE ; erule (1) stmtInsertTags_inv)+

lemma stmtInsertPostMedia_inv: "dbInv db \<Longrightarrow> stmtInsertPostMedia c m i db = Inr db' \<Longrightarrow> dbInv db'"
  using keyed_insertIgnore [of "\<lambda>l. (pm_PostCID l, pm_MediaCID l)" "post_media db"]
  by (auto simp: stmtInsertPostMedia_def dbInv_def)

lemma keeps_InsertPostMedia [db_keeps]:
  "keeps dbInv (InsertPostMedia c m i)" "keeps dbInv (InsertPostMediaTx c m i)"
  unfolding InsertPostMedia_def InsertPostMediaTx_def
  by (intro keeps_intro keeps_dbInv_execE ; erule (1) stmtInsertPostMedia_inv)+

lemma keeps_InsertMediaObject [db_keeps]: "keeps dbInv (InsertMediaObject c a t s n w h d th ts)"
  unfolding InsertMediaObject_def
  by (intro keeps_intro keeps_dbInv_execE)
     (auto simp: dbInv_def Let_def intro!: keyed_upsert)

lemma keeps_SetMediaFetched [db_keeps]: "keeps dbInv (SetMediaFetched c)"
  unfolding SetMediaFetched_def
  by (intro keeps_intro keeps_dbInv_execE) (auto simp: dbInv_def map_if_key)

lemma stmtInsertReaction_inv: "dbInv db \<Longrightarrow> stmtInsertReaction c a t ty ts db = Inr db' \<Longrightarrow> dbInv db'"
  by (auto simp: stmtInsertReaction_def dbInv_def Let_def hasKey_def split: if_splits)

lemma keeps_InsertReaction [db_keeps]:
  "keeps dbInv (InsertReaction c a t ty ts)" "keeps dbInv (InsertReactionTx c a t ty ts)"
  unfolding InsertReaction_def InsertReactionTx_def
  by (intro keeps_intro keeps_dbInv_execE ; erule (1) stmtInsertReaction_inv)+

lemma stmtUpsertCounts_inv: "dbInv db \<Longrightarrow> stmtUpsertCounts c l r p db = Inr db' \<Longrightarrow> dbInv db'"
  by (auto simp: stmtUpsertCounts_def dbInv_def Let_def intro!: keyed_upsert)

lemma keeps_UpdateReactionCount [db_keeps]:
  "keeps dbInv (UpdateReactionCount c)" "keeps dbInv (UpdateReactionCountTx c)"
  unfolding UpdateReactionCount_def UpdateReactionCountTx_def
  by (intro keeps_intro keeps_dbInv_execE keeps_dbInv_queryE; erule (1) stmtUpsertCounts_inv)+

lemma keeps_UpsertProfile [db_keeps]: "keeps dbInv (UpsertProfile k n b a bn w v t)"
  unfolding UpsertProfile_def
  by (intro keeps_intro keeps_dbInv_execE)
     (auto simp: dbInv_def Let_def hasKey_upsert intro!: keyed_upsert)

lemma keeps_subscriptions [db_keeps]:
  "keeps dbInv (AddSubscription ow k t)" "keeps dbInv (RemoveSubscription ow k)"
  "keeps dbInv (MarkSyncCompleted ow k)"
  unfolding AddSubscription_def RemoveSubscription_def MarkSyncCompleted_def
  by (intro keeps_intro keeps_dbInv_execE;
      auto simp: dbInv_def keyed_filter map_if_key
        keyed_insertIgnore [of "\<lambda>s. (s_OwnerPubkey s, s_Pubkey s)"])+

lemma keeps_InsertFollowEvent [db_keeps]: "keeps dbInv (InsertFollowEvent a t ac ts)"
  unfolding InsertFollowEvent_def
  by (intro keeps_intro keeps_dbInv_execE)
     (auto simp: dbInv_def followKey_def intro!: keyed_upsert)

lemma stmtUpsertFollowerCounts_inv:
  "dbInv db \<Longrightarrow> stmtUpsertFollowerCounts k a b db = Inr db' \<Longrightarrow> dbInv db'"
  by (auto simp: stmtUpsertFollowerCounts_def dbInv_def Let_def intro!: keyed_upsert)

lemma keeps_UpdateFollowerCount [db_keeps]: "keeps dbInv (UpdateFollowerCount k)"
  unfolding UpdateFollowerCount_def
  by (intro keeps_intro keeps_dbInv_execE keeps_dbInv_queryE; erule (1) stmtUpsertFollowerCounts_inv)

lemma stmtInsertDM_inv: "dbInv db \<Longrightarrow> stmtInsertDM c a r e n t db = Inr db' \<Longrightarrow> dbInv db'"
  using keyed_insertIgnore [of d_CID "direct_messages db"] by (auto simp: stmtInsertDM_def dbInv_def)

lemma keeps_DM [db_keeps]:
  "keeps dbInv (InsertDM c a r e n t)" "keeps dbInv (InsertDMTx c a r e n t)"
  "keeps dbInv (MarkDMRead c)"
  unfolding InsertDM_def InsertDMTx_def MarkDMRead_def
  by (intro keeps_intro keeps_dbInv_execE ; erule (1) stmtInsertDM_inv)+
     (intro keeps_intro keeps_dbInv_execE; auto simp: dbInv_def map_if_key)

lemma stmtInsertNotification_inv:
  "dbInv db \<Longrightarrow> stmtInsertNotification ow ty a tc rc t db = Inr db' \<Longrightarrow> dbInv db'"
  by (fastforce simp: stmtInsertNotification_def dbInv_def)

lemma keeps_notifications [db_keeps]:
  "keeps dbInv (InsertNotification ow ty a tc rc t)" "keeps dbInv (InsertNotificationTx ow ty a tc rc t)"
  "keeps dbInv (MarkAllRead ow)" "keeps dbInv (MarkRead ow i)"
  unfolding InsertNotification_def InsertNotificationTx_def MarkAllRead_def MarkRead_def
  by (intro keeps_intro keeps_dbInv_execE ; erule (1) stmtInsertNotification_inv)+
     (intro keeps_intro keeps_dbInv_execE; auto simp: dbInv_def map_if_key)+

lemma keeps_identities [db_keeps]:
  "keeps dbInv (InsertIdentity k n act t)" "keeps dbInv (SetActiveIdentity k)"
  unfolding InsertIdentity_def SetActiveIdentity_def
  by (intro keeps_intro keeps_WithTransaction [OF steady_dbInv] keeps_dbInv_execE;
      auto simp: dbInv_def keyed_insertIgnore map_if_key; simp add: comp_def)+

lemma keeps_AcceptTerms [db_keeps]: "keeps dbInv (AcceptTerms k v)"
  unfolding AcceptTerms_def
  by (intro keeps_dbInv_execE) (auto simp: dbInv_def keyed_filter)

lemma keeps_access [db_keeps]:
  "keeps dbInv (TrackContentAccess c b)" "keeps dbInv (SetContentPinned c b)"
  "keeps dbInv (DeleteContentAccess c)"
  unfolding TrackContentAccess_def SetContentPinned_def DeleteContentAccess_def
  by (intro keeps_intro keeps_dbInv_execE;
      auto simp: dbInv_def keyed_filter keyed_pinRow intro!: keyed_upsert)+

lemma keeps_pin_queries [db_keeps]:
  "keeps dbInv (ShouldPinAuthor a)" "keeps dbInv (ShouldPinDM a r)" "keeps dbInv (lookupPostAuthor c)"
  "keeps dbInv (lookupMediaAuthor c m)"
  unfolding ShouldPinAuthor_def ShouldPinDM_def IsLocalIdentity_def HasLocalSubscription_def
    lookupPostAuthor_def lookupMediaAuthor_def Let_def
  by (intro keeps_intro keeps_dbInv_queryE)+

lemma keeps_track [db_keeps]:
  "keeps dbInv (TrackContentForAuthor c a)" "keeps dbInv (TrackReactionContent c a t)"
  "keeps dbInv (TrackContentForDM c a r)" "keeps dbInv (TrackContentForMedia c m)"
  unfolding TrackContentForAuthor_def TrackReactionContent_def TrackContentForDM_def
    TrackContentForMedia_def
  by (intro keeps_intro db_keeps)+

lemma keeps_SetPinnedForAuthor [db_keeps]: "keeps dbInv (SetPinnedForAuthor a b)"
  unfolding SetPinnedForAuthor_def
  by (intro keeps_intro keeps_dbInv_execE)
     (auto simp: stmtPinAll_def dbInv_def keyed_fold_pinRow)

section \<open>Histories of the database\<close>

text \<open>The writing operations of the repositories; \<open>DTransaction\<close> runs several in one transaction.\<close>

datatype dbOp =
    DInsertPost bytes bytes string bytes bytes int bytes
  | DInsertPostTags bytes "string list"
  | DInsertPostMedia bytes bytes int
  | DInsertMediaObject bytes bytes string "64 word" "32 word" "32 word" "32 word" "32 word" bytes int
  | DSetMediaFetched bytes
  | DInsertReaction bytes bytes bytes string int
  | DUpdateReactionCount bytes
  | DUpsertProfile bytes string string bytes bytes string "64 word" int
  | DAddSubscription bytes bytes int
  | DRemoveSubscription bytes bytes
  | DMarkSyncCompleted bytes bytes
  | DInsertFollowEvent bytes bytes string int
  | DUpdateFollowerCount bytes
  | DInsertDM bytes bytes bytes bytes bytes int
  | DMarkDMRead bytes
  | DInsertNotification bytes string bytes bytes bytes int
  | DMarkAllRead bytes
  | DMarkRead bytes int
  | DInsertIdentity bytes string bool int
  | DSetActiveIdentity bytes
  | DAcceptTerms bytes string
  | DTrackContentAccess bytes bool
  | DSetContentPinned bytes bool
  | DDeleteContentAccess bytes
  | DSetPinnedForAuthor bytes bool
  | DTransaction "dbOp list"

fun runDbOp :: "dbOp \<Rightarrow> (DB, unit) go" and runDbOps :: "dbOp list \<Rightarrow> (DB, unit) go" where
  "runDbOp (DInsertPost c a t rt ro ts sg) = InsertPost c a t rt ro ts sg"
| "runDbOp (DInsertPostTags c ts) = InsertPostTags c ts"
| "runDbOp (DInsertPostMedia c m i) = InsertPostMedia c m i"
| "runDbOp (DInsertMediaObject c a t s n w h d th ts) = InsertMediaObject c a t s n w h d th ts"
| "runDbOp (DSetMediaFetched c) = SetMediaFetched c"
| "runDbOp (DInsertReaction c a t ty ts) = InsertReaction c a t ty ts"
| "runDbOp (DUpdateReactionCount c) = UpdateReactionCount c"
| "runDbOp (DUpsertProfile k n b a bn w v t) = UpsertProfile k n b a bn w v t"
| "runDbOp (DAddSubscription ow k t) = AddSubscription ow k t"
| "runDbOp (DRemoveSubscription ow k) = RemoveSubscription ow k"
| "runDbOp (DMarkSyncCompleted ow k) = MarkSyncCompleted ow k"
| "runDbOp (DInsertFollowEvent a t ac ts) = InsertFollowEvent a t ac ts"
| "runDbOp (DUpdateFollowerCount k) = UpdateFollowerCount k"
| "runDbOp (DInsertDM c a r e n t) = InsertDM c a r e n t"
| "runDbOp (DMarkDMRead c) = MarkDMRead c"
| "runDbOp (DInsertNotification ow ty a tc rc t) = InsertNotification ow ty a tc rc t"
| "runDbOp (DMarkAllRead ow) = MarkAllRead ow"
| "runDbOp (DMarkRead ow i) = MarkRead ow i"
| "runDbOp (DInsertIdentity k n act t) = InsertIdentity k n act t"
| "runDbOp (DSetActiveIdentity k) = SetActiveIdentity k"
| "runDbOp (DAcceptTerms k v) = AcceptTerms k v"
| "runDbOp (DTrackContentAccess c b) = TrackContentAccess c b"
| "runDbOp (DSetContentPinned c b) = SetContentPinned c b"
| "runDbOp (DDeleteContentAccess c) = DeleteContentAccess c"
| "runDbOp (DSetPinnedForAuthor a b) = SetPinnedForAuthor a b"
| "runDbOp (DTransaction ops) = WithTransaction (runDbOps ops)"
| "runDbOps [] = retE ()"
| "runDbOps (op # ops) = seqE (runDbOp op) (runDbOps ops)"

text \<open>
  A reachable database: an empty one, with any schedule of failures, after operations with any
  outcome, the clock moving between them.
\<close>

inductive dbReach :: "DB \<Rightarrow> bool" where
  init: "dbReach (emptyDB\<lparr>now_ms := t, db_faults := F\<rparr>)"
| clock: "dbReach db \<Longrightarrow> dbReach (db\<lparr>now_ms := t\<rparr>)"
| op: "dbReach db \<Longrightarrow> runDbOp op db = (r, db') \<Longrightarrow> dbReach db'"

lemma keeps_runDbOp: "keeps dbInv (runDbOp op)" "keeps dbInv (runDbOps ops)"
proof (induction op and ops rule: runDbOp_runDbOps.induct)
  case (26 ops)
  then show ?case by (simp add: keeps_WithTransaction steady_dbInv)
next
  case 27
  show ?case by (simp only: runDbOps.simps keeps_retE)
next
  case (28 op ops)
  then show ?case by (simp only: runDbOps.simps keeps_seqE)
qed (simp_all only: runDbOp.simps db_keeps)

text \<open>
  The constraints that SQLite enforces hold in every reachable database of the model: keys are unique in every
  table (posts, reactions by content and by author and target, profiles, subscriptions, follow events, messages,
  counts, access records), every post's author has a profile, and notification numbers do not repeat. This says
  that the statements are translated with the constraints of the schema; the proofs that read rows by their key
  use it.
\<close>

lemma database_wellformed:
  assumes "dbReach db"
  shows "dbInv db"
  using assms
proof (induction rule: dbReach.induct)
  case init
  show ?case by (simp add: dbInv_def emptyDB_def)
next
  case (clock db t)
  then show ?case by (simp add: dbInv_def)
next
  case (op db op r db')
  then show ?case using keepsD [OF keeps_runDbOp(1)] by blast
qed

end
