(* ===== verification/Node.thy ===== *)
theory Node
  imports Validators ContentStore StorageInv
begin

text \<open>
  The state of a running node, in which the components act on one another: the database, the file
  system under the content store, the package state of the validators, and what leaves the node
  (events sent to the web socket, messages handed to the indexer, envelopes published). The
  notification service of \<open>pkg/social/notifications.go\<close> is the first component on top of it.
\<close>

section \<open>State\<close>

text \<open>
  The broadcast callback, the indexer and the publisher are optional in the code; \<open>nd_notifBroadcast\<close>,
  \<open>nd_broadcast\<close>, \<open>nd_indexer\<close>, \<open>nd_publisher\<close> say whether they are set, and the lists record the calls, the
  newest last. \<open>nd_pubFaults\<close> gives the error of the n-th call of the publisher, if any. \<open>nd_prefetching\<close>
  is the set of the media downloads under way, \<open>nd_jobs\<close> the goroutines that were started for them.
  \<open>nd_subscribers\<close> is the key set of the feed manager's map, \<open>nd_topicCalls\<close> the calls of its topic
  callbacks (\<open>True\<close> for a subscription), which \<open>nd_topicFaults\<close> lets fail.
  The clock is that of the database, in milliseconds, with \<open>nd_nanos\<close> for the rest.
\<close>

type_synonym event = "string \<times> (string \<times> string) list"

record Node =
  nd_db :: DB
  nd_fs :: fs
  nd_base :: path
  nd_globals :: vglobals
  nd_nanos :: int
  nd_notifBroadcast :: bool
  nd_broadcast :: bool
  nd_events :: "event list"
  nd_indexer :: bool
  nd_indexed :: "message list"
  nd_publisher :: bool
  nd_published :: "(string \<times> bytes) list"
  nd_pubFaults :: "nat \<Rightarrow> goerr option"
  nd_autoFetchMedia :: bool
  nd_prefetching :: "string list"
  nd_jobs :: "MediaObject list"
  nd_subscribers :: "string list"
  nd_onSubscribe :: bool
  nd_onUnsubscribe :: bool
  nd_topicCalls :: "(bool \<times> string) list"
  nd_topicFaults :: "nat \<Rightarrow> goerr option"

text \<open>\<open>time.Now()\<close> in nanoseconds.\<close>

definition nowNanos :: "Node \<Rightarrow> int" where
  "nowNanos n = now_ms (nd_db n) * msec + nd_nanos n"

text \<open>\<open>uint64(time.Now().UnixMilli())\<close>.\<close>

definition nowMillis :: "Node \<Rightarrow> 64 word" where
  "nowMillis n = word_of_int (now_ms (nd_db n))"

section \<open>Components inside the node\<close>

definition dbE :: "(DB, 'a) go \<Rightarrow> (Node, 'a) go" where
  "dbE m = onE nd_db (\<lambda>d n. n\<lparr>nd_db := d\<rparr>) m"

definition fsE :: "(fs, 'a) go \<Rightarrow> (Node, 'a) go" where
  "fsE m = onE nd_fs (\<lambda>s n. n\<lparr>nd_fs := s\<rparr>) m"

text \<open>An operation of the content store, which is rooted at \<open>nd_base\<close>.\<close>

definition casE :: "(path \<Rightarrow> (fs, 'a) go) \<Rightarrow> (Node, 'a) go" where
  "casE f = bindE (getE nd_base) (\<lambda>b. fsE (f b))"

definition emitE :: "(Node \<Rightarrow> bool) \<Rightarrow> event \<Rightarrow> (Node, unit) go" where
  "emitE on ev = modifyE (\<lambda>n. if on n then n\<lparr>nd_events := nd_events n @ [ev]\<rparr> else n)"

definition indexE :: "message \<Rightarrow> (Node, unit) go" where
  "indexE m = modifyE (\<lambda>n. if nd_indexer n then n\<lparr>nd_indexed := nd_indexed n @ [m]\<rparr> else n)"

text \<open>
  A predicate of the database and one of the stored objects, read on the node. \<open>objects n\<close> is what
  the content store of the node holds.
\<close>

definition onDB :: "(DB \<Rightarrow> bool) \<Rightarrow> Node \<Rightarrow> bool" where
  "onDB I n \<longleftrightarrow> I (nd_db n)"

definition objects :: "Node \<Rightarrow> bytes \<Rightarrow> bytes option" where
  "objects n = contents (nd_base n) (nd_fs n)"

subsection \<open>What the lifted operations keep\<close>

lemma keeps_dbE: "keeps I m \<Longrightarrow> keeps (onDB I) (dbE m)"
  unfolding dbE_def by (erule keeps_onE) (simp_all add: onDB_def)

lemma keeps_onDB_other [keeps_intro]:
  "keeps (onDB I) (fsE f)" "keeps (onDB I) (casE g)" "keeps (onDB I) (emitE on ev)"
  "keeps (onDB I) (indexE m)"
  by (auto simp: keeps_def casE_def fsE_def emitE_def indexE_def onE_def onDB_def run_bindE
      split: prod.splits)

lemma triple_dbE: "triple P m Q E \<Longrightarrow> triple (onDB P) (dbE m) (\<lambda>r. onDB (Q r)) (onDB E)"
  unfolding triple_def dbE_def onE_def onDB_def by (auto split: prod.splits)

lemma casE_run: "casE f n = (case f (nd_base n) (nd_fs n) of (r, s) \<Rightarrow> (r, n\<lparr>nd_fs := s\<rparr>))"
  by (simp add: casE_def fsE_def onE_def run_bindE)

lemma dbE_run: "dbE m n = (case m (nd_db n) of (r, d) \<Rightarrow> (r, n\<lparr>nd_db := d\<rparr>))"
  by (simp add: dbE_def onE_def)

lemma objects_simps [simp]:
  "objects (n\<lparr>nd_db := d\<rparr>) = objects n" "objects (n\<lparr>nd_events := ev\<rparr>) = objects n"
  "objects (n\<lparr>nd_indexed := ix\<rparr>) = objects n" "objects (n\<lparr>nd_prefetching := pf\<rparr>) = objects n"
  "objects (n\<lparr>nd_jobs := js\<rparr>) = objects n" "objects (n\<lparr>nd_published := pb\<rparr>) = objects n"
  "objects (n\<lparr>nd_fs := s\<rparr>) = contents (nd_base n) s"
  by (simp_all add: objects_def)

section \<open>Notifications\<close>

record NotificationView =
  nv_Type :: string
  nv_ActorPubkey :: bytes
  nv_ActorDisplayName :: string
  nv_ActorAvatarCID :: "bytes option"
  nv_TargetPostCID :: "bytes option"
  nv_RelatedCID :: "bytes option"
  nv_Timestamp :: int
  nv_Read :: bool

definition ownerForPost :: "bytes \<Rightarrow> (Node, bytes) go" where
  "ownerForPost targetCID =
     (if length targetCID = 0 then retE []
      else bindE (dbE (GetPost targetCID)) (\<lambda>post. retE (p_Author post)))"

definition emitNotification :: "string \<Rightarrow> bytes \<Rightarrow> bytes \<Rightarrow> bytes \<Rightarrow> bytes \<Rightarrow> (Node, unit) go" where
  "emitNotification notifType owner actor targetCID relatedCID =
     emitE nd_notifBroadcast (''new_notification'',
       [(''type'', notifType), (''owner'', EncodeToString owner), (''actor'', EncodeToString actor),
        (''target_cid'', EncodeToString targetCID), (''related_cid'', EncodeToString relatedCID)])"

text \<open>\<open>storage.InsertNotification(..., time.Now().UnixMilli())\<close>.\<close>

definition insertNotificationNow ::
  "bytes \<Rightarrow> string \<Rightarrow> bytes \<Rightarrow> bytes \<Rightarrow> bytes \<Rightarrow> (Node, unit) go" where
  "insertNotificationNow owner notifType actor targetCID relatedCID =
     bindE (getE (\<lambda>n. now_ms (nd_db n))) (\<lambda>t.
       dbE (InsertNotification owner notifType actor targetCID relatedCID t))"

definition NotifyLike :: "bytes \<Rightarrow> bytes \<Rightarrow> bytes \<Rightarrow> (Node, unit) go" where
  "NotifyLike actor targetCID reactionCID =
     bindE (wrapE ''resolve like owner'' (ownerForPost targetCID)) (\<lambda>owner.
       if length owner = 0 \<or> owner = actor then retE ()
       else seqE (wrapE ''notify like'' (insertNotificationNow owner ''like'' actor targetCID reactionCID))
                 (emitNotification ''like'' owner actor targetCID reactionCID))"

definition NotifyReply :: "bytes \<Rightarrow> bytes \<Rightarrow> bytes \<Rightarrow> (Node, unit) go" where
  "NotifyReply actor targetCID replyCID =
     bindE (wrapE ''resolve reply owner'' (ownerForPost targetCID)) (\<lambda>owner.
       if length owner = 0 \<or> owner = actor then retE ()
       else seqE (wrapE ''notify reply'' (insertNotificationNow owner ''reply'' actor targetCID replyCID))
                 (emitNotification ''reply'' owner actor targetCID replyCID))"

definition NotifyRepost :: "bytes \<Rightarrow> bytes \<Rightarrow> bytes \<Rightarrow> (Node, unit) go" where
  "NotifyRepost actor targetCID repostCID =
     bindE (wrapE ''resolve repost owner'' (ownerForPost targetCID)) (\<lambda>owner.
       if length owner = 0 \<or> owner = actor then retE ()
       else seqE (wrapE ''notify repost'' (insertNotificationNow owner ''repost'' actor targetCID repostCID))
                 (emitNotification ''repost'' owner actor targetCID repostCID))"

definition NotifyFollow :: "bytes \<Rightarrow> bytes \<Rightarrow> (Node, unit) go" where
  "NotifyFollow actor target =
     (if length target = 0 \<or> actor = target then retE ()
      else seqE (wrapE ''notify follow'' (insertNotificationNow target ''follow'' actor [] []))
                (emitNotification ''follow'' target actor [] []))"

definition NotifyDM :: "bytes \<Rightarrow> bytes \<Rightarrow> (Node, unit) go" where
  "NotifyDM actor recipient =
     (if length recipient = 0 \<or> actor = recipient then retE ()
      else seqE (wrapE ''notify dm'' (insertNotificationNow recipient ''dm'' actor [] []))
                (emitNotification ''dm'' recipient actor [] []))"

text \<open>
  \<open>GetNotifications\<close> of the service adds the actor's profile to each row and keeps a cache from the
  hexadecimal key of an actor to its profile, so that no profile is queried twice; a query that fails
  counts as no profile, and is cached as such.
\<close>

definition viewOf :: "NotificationRow \<Rightarrow> ProfileRow option \<Rightarrow> NotificationView" where
  "viewOf row profile =
     \<lparr>nv_Type = n_Type row, nv_ActorPubkey = n_Actor row,
      nv_ActorDisplayName = (case profile of None \<Rightarrow> '''' | Some p \<Rightarrow> pf_DisplayName p),
      nv_ActorAvatarCID = (case profile of None \<Rightarrow> None | Some p \<Rightarrow> pf_AvatarCID p),
      nv_TargetPostCID = n_TargetCID row, nv_RelatedCID = n_RelatedCID row,
      nv_Timestamp = n_Timestamp row, nv_Read = n_Read row\<rparr>"

fun enrich ::
  "NotificationRow list \<Rightarrow> (string \<times> ProfileRow option) list \<Rightarrow> (DB, NotificationView list) go" where
  "enrich [] cache = retE []"
| "enrich (row # rows) cache =
     (let actorHex = EncodeToString (n_Actor row) in
      case map_of cache actorHex of
        Some profile \<Rightarrow> bindE (enrich rows cache) (\<lambda>vs. retE (viewOf row profile # vs))
      | None \<Rightarrow>
          bindE (catchE (GetProfile (n_Actor row)) (\<lambda>_. retE None)) (\<lambda>profile.
          bindE (enrich rows ((actorHex, profile) # cache)) (\<lambda>vs. retE (viewOf row profile # vs))))"

definition NotificationService_GetNotifications ::
  "bytes \<Rightarrow> int \<Rightarrow> int \<Rightarrow> (DB, NotificationView list) go" where
  "NotificationService_GetNotifications ownerPubkey before limit =
     bindE (wrapE ''get notifications'' (GetNotifications ownerPubkey before limit))
       (\<lambda>rows. enrich rows [])"

subsection \<open>The cache does not show\<close>

text \<open>
  \<open>cacheOK db c\<close>: the cache holds the profile of the key it is filed under.
\<close>

definition cacheOK :: "DB \<Rightarrow> (string \<times> ProfileRow option) list \<Rightarrow> bool" where
  "cacheOK db cache \<longleftrightarrow>
     (\<forall>k p. map_of cache (EncodeToString k) = Some p \<longrightarrow> p = rowOf pf_Pubkey k (profiles db))"

lemma GetProfile_nofault:
  "db_faults db = (\<lambda>_. None) \<Longrightarrow> GetProfile k db = (Inr (rowOf pf_Pubkey k (profiles db)), tick db)"
  by (simp add: GetProfile_def queryE_nofault)

lemma enrich_correct:
  assumes "db_faults db = (\<lambda>_. None)" "cacheOK db cache"
  shows "fst (enrich rows cache db) =
    Inr (map (\<lambda>row. viewOf row (rowOf pf_Pubkey (n_Actor row) (profiles db))) rows)"
  using assms
proof (induction rows arbitrary: cache db)
  case (Cons row rows)
  show ?case
  proof (cases "map_of cache (EncodeToString (n_Actor row))")
    case None
    let ?p = "rowOf pf_Pubkey (n_Actor row) (profiles db)"
    have "cacheOK (tick db) ((EncodeToString (n_Actor row), ?p) # cache)"
      using Cons.prems(2) by (auto simp: cacheOK_def)
    with Cons.IH [of "tick db" "(EncodeToString (n_Actor row), ?p) # cache"] Cons.prems(1)
    show ?thesis
      by (auto simp: None catchE_def run_bindE GetProfile_nofault split: prod.splits sum.splits)
  next
    case (Some p)
    with Cons.prems(2) have "p = rowOf pf_Pubkey (n_Actor row) (profiles db)"
      unfolding cacheOK_def by blast
    with Some Cons.IH [OF Cons.prems] show ?thesis
      by (auto simp: run_bindE split: prod.splits sum.splits)
  qed
qed simp

text \<open>
  The cache of profiles in \<open>GetNotifications\<close> is an optimisation only: when no query fails the
  page holds the owner's notifications older than \<open>before\<close>, newest first, at most \<open>limit\<close> of them, each
  with the display name and avatar that a lookup of its own actor gives, and each actor's own, also
  when several rows share an actor.
\<close>

theorem notification_cache_transparent:
  assumes "db_faults db = (\<lambda>_. None)"
  shows "fst (NotificationService_GetNotifications owner before limit db) =
    Inr (map (\<lambda>row. viewOf row (rowOf pf_Pubkey (n_Actor row) (profiles db)))
      (limitTo limit (descending n_Timestamp
        (filter (\<lambda>n. n_OwnerPubkey n = Some owner \<and> n_Timestamp n < beforeOr before db)
          (notifications db)))))"
proof -
  have "cacheOK (tick db) []" by (simp add: cacheOK_def)
  with enrich_correct [of "tick db" "[]"] assms show ?thesis
    by (simp add: NotificationService_GetNotifications_def GetNotifications_def queryE_nofault
        run_bindE beforeOr_def)
qed

theorem notification_cache_transparent_witness:
  "fst (NotificationService_GetNotifications [1] 0 20 emptyDB) = Inr []"
  using notification_cache_transparent [of emptyDB "[1]" 0 20]
  by (simp add: emptyDB_def descending_def limitTo_def)

end
