(* ===== verification/Handlers.thy ===== *)
theory Handlers
  imports Node
begin

text \<open>
  The processing of gossip messages, \<open>pkg/p2p/handlers.go\<close>: an envelope is decoded and its payload
  validated, stored in the content store and in the database, counted, notified and announced. The
  handlers' interface to the storage is the locale \<open>storage_writer\<close>: what each operation has to keep
  of an invariant for every handler to keep it. The callbacks that download media are arguments
  (the record \<open>fetchers\<close>).
\<close>

section \<open>Helpers\<close>

record fetchers =
  ft_fetchContent :: "(string \<Rightarrow> goerr + bytes) option"
  ft_fetchContentToFile :: "(string \<Rightarrow> (fs, path option) go) option"

definition verifySignature :: "ext \<Rightarrow> verifier" where
  "verifySignature x = x_verify x"

text \<open>A validator, run with the package variables and the clock of the node.\<close>

definition checkE :: "(vglobals \<Rightarrow> int \<Rightarrow> goerr option) \<Rightarrow> (Node, unit) go" where
  "checkE v = (\<lambda>n. case v (nd_globals n) (nowNanos n) of None \<Rightarrow> (Inr (), n) | Some e \<Rightarrow> (Inl e, n))"

section \<open>Posts, reactions, profiles, follows, messages\<close>

definition handlePost :: "ext \<Rightarrow> Post \<Rightarrow> (Node, unit) go" where
  "handlePost x post =
     seqE (wrapE ''validate post''
            (checkE (\<lambda>g now. ValidatePost x g now (Some post) (Some (verifySignature x)))))
    (bindE (dbE (PostExists (po_Id post))) (\<lambda>known. if known then retE () else
     bindE (wrapE ''marshal post for CAS'' (liftE (x_marshal x (MPost post)))) (\<lambda>raw.
     seqE (wrapE ''CAS put post'' (casE (\<lambda>b. Put b (po_Id post) raw)))
    (seqE (wrapE ''insert post'' (dbE (InsertPost (po_Id post) (po_Author post) (po_Content post)
            (po_ReplyTo post) (po_RepostOf post) (toInt64 (po_Timestamp post)) (po_Signature post))))
    (seqE (forE (\<lambda>(i, mediaCID). wrapE ''insert post media''
              (dbE (InsertPostMedia (po_Id post) mediaCID (int i)))) (enumerate 0 (po_MediaCids post)))
    (seqE (wrapE ''track post content'' (dbE (TrackContentForAuthor (po_Id post) (po_Author post))))
    (seqE (indexE (MPost post))
    (seqE (whenE (0 < length (po_ReplyTo post))
            (seqE (logE (NotifyReply (po_Author post) (po_ReplyTo post) (po_Id post)))
                  (logE (dbE (UpdateReactionCount (po_ReplyTo post))))))
    (seqE (whenE (0 < length (po_RepostOf post))
            (seqE (logE (NotifyRepost (po_Author post) (po_RepostOf post) (po_Id post)))
                  (logE (dbE (UpdateReactionCount (po_RepostOf post))))))
          (emitE nd_broadcast (''new_post'',
            [(''id'', EncodeToString (po_Id post)), (''author'', EncodeToString (po_Author post)),
             (''reply_to'', EncodeToString (po_ReplyTo post)),
             (''repost_of'', EncodeToString (po_RepostOf post))])))))))))))"

definition handleReaction :: "ext \<Rightarrow> Reaction \<Rightarrow> (Node, unit) go" where
  "handleReaction x reaction =
     seqE (wrapE ''validate reaction''
            (checkE (\<lambda>g now. ValidateReaction x g now (Some reaction) (Some (verifySignature x)))))
    (bindE (casE (\<lambda>b. Has b (re_Id reaction))) (\<lambda>known. if known then retE () else
     bindE (wrapE ''marshal reaction for CAS'' (liftE (x_marshal x (MReaction reaction)))) (\<lambda>raw.
     seqE (wrapE ''CAS put reaction'' (casE (\<lambda>b. Put b (re_Id reaction) raw)))
    (seqE (wrapE ''insert reaction'' (dbE (InsertReaction (re_Id reaction) (re_Author reaction)
            (re_Target reaction) (re_ReactionType reaction) (toInt64 (re_Timestamp reaction)))))
    (seqE (wrapE ''track reaction content''
            (dbE (TrackReactionContent (re_Id reaction) (re_Author reaction) (re_Target reaction))))
    (seqE (logE (dbE (UpdateReactionCount (re_Target reaction))))
    (seqE (logE (NotifyLike (re_Author reaction) (re_Target reaction) (re_Id reaction)))
          (emitE nd_broadcast (''new_reaction'',
            [(''id'', EncodeToString (re_Id reaction)), (''target'', EncodeToString (re_Target reaction)),
             (''author'', EncodeToString (re_Author reaction))])))))))))"

definition handleProfile :: "ext \<Rightarrow> Profile \<Rightarrow> (Node, unit) go" where
  "handleProfile x profile =
     seqE (wrapE ''validate profile''
            (checkE (\<lambda>g now. ValidateProfile x g now (Some profile) (Some (verifySignature x)))))
    (bindE (wrapE ''get profile version'' (dbE (GetProfileVersion (pr_Author profile))))
       (\<lambda>(storedVersion, found).
     if found \<and> uint (pr_Version profile) \<le> storedVersion then retE () else
     bindE (wrapE ''marshal profile for CAS'' (liftE (x_marshal x (MProfile profile)))) (\<lambda>raw.
     seqE (wrapE ''CAS put profile'' (casE (\<lambda>b. Put b (pr_Author profile) raw)))
    (seqE (wrapE ''upsert profile'' (dbE (UpsertProfile (pr_Author profile) (pr_DisplayName profile)
            (pr_Bio profile) (pr_AvatarCid profile) (pr_BannerCid profile) (pr_Website profile)
            (pr_Version profile) (toInt64 (pr_Timestamp profile)))))
    (seqE (wrapE ''track profile content''
            (dbE (TrackContentForAuthor (pr_Author profile) (pr_Author profile))))
          (indexE (MProfile profile)))))))"

definition handleFollow :: "ext \<Rightarrow> FollowEvent \<Rightarrow> (Node, unit) go" where
  "handleFollow x event =
     seqE (wrapE ''validate follow event''
            (checkE (\<lambda>g now. ValidateFollowEvent x g now (Some event) (Some (verifySignature x)))))
    (seqE (wrapE ''insert follow event'' (dbE (InsertFollowEvent (fe_Author event) (fe_Target event)
            (fe_Action event) (toInt64 (fe_Timestamp event)))))
    (seqE (whenE (fe_Action event = ''follow'')
            (logE (NotifyFollow (fe_Author event) (fe_Target event))))
    (seqE (logE (dbE (UpdateFollowerCount (fe_Author event))))
          (logE (dbE (UpdateFollowerCount (fe_Target event)))))))"

definition handleDM :: "ext \<Rightarrow> DirectMessage \<Rightarrow> (Node, unit) go" where
  "handleDM x dm =
     seqE (wrapE ''validate dm''
            (checkE (\<lambda>g now. ValidateDirectMessage x g now (Some dm) (Some (verifySignature x)))))
    (bindE (casE (\<lambda>b. Has b (dm_Id dm))) (\<lambda>known. if known then retE () else
     bindE (wrapE ''marshal dm for CAS'' (liftE (x_marshal x (MDirectMessage dm)))) (\<lambda>raw.
     seqE (wrapE ''CAS put dm'' (casE (\<lambda>b. Put b (dm_Id dm) raw)))
    (seqE (wrapE ''insert dm'' (dbE (InsertDM (dm_Id dm) (dm_Author dm) (dm_Recipient dm)
            (dm_EncryptedContent dm) (dm_Nonce dm) (toInt64 (dm_Timestamp dm)))))
    (seqE (wrapE ''track dm content''
            (dbE (TrackContentForDM (dm_Id dm) (dm_Author dm) (dm_Recipient dm))))
    (seqE (logE (NotifyDM (dm_Author dm) (dm_Recipient dm)))
          (emitE nd_broadcast (''new_dm'',
            [(''id'', EncodeToString (dm_Id dm)), (''author'', EncodeToString (dm_Author dm)),
             (''recipient'', EncodeToString (dm_Recipient dm))]))))))))"

section \<open>Media\<close>

definition scheduleMediaPrefetch :: "MediaObject \<Rightarrow> (Node, unit) go" where
  "scheduleMediaPrefetch obj = modifyE (\<lambda>n.
     if length (mo_Cid obj) = 0 then n
     else let cidHex = EncodeToString (mo_Cid obj) in
       if cidHex \<in> set (nd_prefetching n) then n
       else n\<lparr>nd_prefetching := cidHex # nd_prefetching n, nd_jobs := nd_jobs n @ [obj]\<rparr>)"

definition handleMediaObject :: "ext \<Rightarrow> fetchers \<Rightarrow> MediaObject \<Rightarrow> (Node, unit) go" where
  "handleMediaObject x ft obj =
     seqE (wrapE ''validate media object''
            (checkE (\<lambda>g now. ValidateMediaObject x g now (Some obj) (Some (verifySignature x)))))
    (seqE (wrapE ''insert media object'' (dbE (InsertMediaObject (mo_Cid obj) (mo_Author obj)
            (mo_MimeType obj) (mo_Size obj) (mo_ChunkCount obj) (mo_Width obj) (mo_Height obj)
            (mo_Duration obj) (mo_ThumbnailCid obj) (toInt64 (mo_Timestamp obj)))))
    (bindE (getE nd_autoFetchMedia) (\<lambda>autoFetch.
     if autoFetch \<and> (ft_fetchContent ft \<noteq> None \<or> ft_fetchContentToFile ft \<noteq> None)
     then bindE (wrapE ''resolve media pin policy'' (dbE (ShouldPinAuthor (mo_Author obj))))
            (\<lambda>shouldPin. whenE shouldPin (scheduleMediaPrefetch obj))
     else retE ())))"

definition handleMediaChunk :: "ext \<Rightarrow> MediaChunk \<Rightarrow> (Node, unit) go" where
  "handleMediaChunk x chunk =
     seqE (wrapE ''validate media chunk'' (checkE (\<lambda>g now. ValidateMediaChunk x (Some chunk))))
    (seqE (wrapE ''CAS put media chunk'' (casE (\<lambda>b. Put b (mc_Cid chunk) (mc_Data chunk))))
          (wrapE ''track media chunk'' (dbE (TrackContentForMedia (mc_Cid chunk) (mc_ParentCid chunk)))))"

text \<open>
  Reading an opened file as a stream: a fault of the read ends the stream after the bytes it gives.
\<close>

definition fileReader :: "path \<Rightarrow> (fs, reader) go" where
  "fileReader p = (\<lambda>s.
     let s1 = s\<lparr>fs_step := Suc (fs_step s)\<rparr>;
         d = (case node s p of Some (FFile _ d) \<Rightarrow> d | _ \<Rightarrow> [])
     in case fs_faults s (fs_step s) of
          Some (e, k) \<Rightarrow> (Inr \<lparr>r_data = take k d, r_err = Some e\<rparr>, s1)
        | None \<Rightarrow> (Inr \<lparr>r_data = d, r_err = None\<rparr>, s1))"

definition storeFetchedMediaFile :: "bytes \<Rightarrow> path option \<Rightarrow> (Node, unit) go" where
  "storeFetchedMediaFile cid fetched = (case fetched of
      None \<Rightarrow> throwE (Err ''missing fetched media file'')
    | Some p \<Rightarrow>
        if p = [] then throwE (Err ''missing fetched media file'')
        else seqE (catchE (fsE (osOpen p)) (\<lambda>e. seqE (logE (fsE (osRemove p))) (throwE e)))
          (deferE
            (deferE (bindE (fsE (fileReader p)) (\<lambda>r. casE (\<lambda>b. PutReader b cid r)))
                    (fsE (osRemove p)))
            (fsE fileClose)))"

definition prefetchItem :: "fetchers \<Rightarrow> bytes \<times> bytes \<Rightarrow> (Node, unit) go" where
  "prefetchItem ft item = (case item of (cid, parent) \<Rightarrow>
     if length cid = 0 then retE ()
     else bindE (casE (\<lambda>b. Has b cid)) (\<lambda>present.
       if present then wrapE ''track existing'' (dbE (TrackContentForMedia cid parent))
       else
         seqE (case ft_fetchContentToFile ft of
                 Some fetch \<Rightarrow>
                   bindE (wrapE ''fetch'' (fsE (fetch (EncodeToString cid)))) (\<lambda>fetched.
                     wrapE ''store'' (storeFetchedMediaFile cid fetched))
               | None \<Rightarrow>
                   (case ft_fetchContent ft of
                      None \<Rightarrow> throwE (Panic ''nil function call'')
                    | Some fetch \<Rightarrow>
                        bindE (wrapE ''fetch'' (liftE (fetch (EncodeToString cid)))) (\<lambda>d.
                          wrapE ''store'' (casE (\<lambda>b. Put b cid d)))))
              (wrapE ''track'' (dbE (TrackContentForMedia cid parent)))))"

definition prefetchMediaContent :: "fetchers \<Rightarrow> MediaObject \<Rightarrow> (Node, unit) go" where
  "prefetchMediaContent ft obj =
     seqE (forE (prefetchItem ft) [(mo_Cid obj, mo_Cid obj), (mo_ThumbnailCid obj, mo_Cid obj)])
          (wrapE ''mark media fetched'' (dbE (SetMediaFetched (mo_Cid obj))))"

text \<open>The goroutine that \<open>scheduleMediaPrefetch\<close> starts.\<close>

definition prefetchJob :: "fetchers \<Rightarrow> MediaObject \<Rightarrow> (Node, unit) go" where
  "prefetchJob ft obj =
     deferE (logE (prefetchMediaContent ft obj))
       (modifyE (\<lambda>n. n\<lparr>nd_prefetching := removeAll (EncodeToString (mo_Cid obj)) (nd_prefetching n)\<rparr>))"

section \<open>Dispatch\<close>

fun handlePayload :: "ext \<Rightarrow> fetchers \<Rightarrow> message option \<Rightarrow> (Node, unit) go" where
  "handlePayload x ft (Some (MPost m)) = handlePost x m"
| "handlePayload x ft (Some (MReaction m)) = handleReaction x m"
| "handlePayload x ft (Some (MProfile m)) = handleProfile x m"
| "handlePayload x ft (Some (MFollowEvent m)) = handleFollow x m"
| "handlePayload x ft (Some (MDirectMessage m)) = handleDM x m"
| "handlePayload x ft (Some (MMediaObject m)) = handleMediaObject x ft m"
| "handlePayload x ft (Some (MMediaChunk m)) = handleMediaChunk x m"
| "handlePayload x ft None = retE ()"

text \<open>
  One message, handled from beginning to end. Each topic has a goroutine of its own that calls this, without a
  lock around it: the handlers of several topics run at the same time. Each statement and each system call is
  atomic; where it matters what comes between two of them, as it does for the counters, see Recount.
\<close>

definition HandleMessage :: "ext \<Rightarrow> fetchers \<Rightarrow> bytes \<Rightarrow> (Node, unit) go" where
  "HandleMessage x ft data =
     bindE (wrapE ''unmarshal envelope'' (liftE (x_unmarshalEnvelope x data))) (handlePayload x ft)"

end
