(* ===== verification/HandlerInv.thy ===== *)
theory HandlerInv
  imports Handlers
begin

text \<open>
  Invariants of message processing. The locale \<open>storage_writer\<close> is the contract between the handlers
  and the storage (in three layers, \<open>ancillary_writer\<close> and \<open>people_writer\<close> below it): it asks for each storage operation, with the arguments the handlers give it, that
  it keeps an invariant of the database, and proves once that then every handler and every download
  keeps it, whatever fails. It is interpreted for the constraints of the schema, for the
  provenance of every row that a message adds, for the monotonicity of profile versions and for the
  absence of notifications about one's own actions. Rows that local code wrote before, some of them
  unsigned (LocalWriters), are part of the state from which the provenance is followed.
\<close>

section \<open>The contract\<close>

text \<open>A message that some run of its validator accepts.\<close>

definition accepted :: "ext \<Rightarrow> message \<Rightarrow> bool" where
  "accepted x m \<longleftrightarrow> (\<exists>g now. validateMessage x g now m (Some (verifySignature x)) = None)"

lemma checkE_cases:
  "checkE v n = (Inr (), n) \<and> v (nd_globals n) (nowNanos n) = None \<or>
   (\<exists>e. checkE v n = (Inl e, n) \<and> v (nd_globals n) (nowNanos n) = Some e)"
  by (auto simp: checkE_def split: option.splits)

lemma checked_run:
  "checkE v n = (Inr (), n) \<Longrightarrow> m n = (Inr y, n') \<Longrightarrow>
     seqE (wrapE p (checkE v)) (seqE (wrapE q m) k) n = k n'"
  by (simp add: run_seqE run_wrapE)

lemma keeps_checked:
  assumes "\<And>g now. v g now = None \<Longrightarrow> keeps I k"
  shows "keeps I (seqE (wrapE p (checkE v)) k)"
proof (rule keepsI)
  fix n r n'
  assume I: "I n" and run: "seqE (wrapE p (checkE v)) k n = (r, n')"
  from checkE_cases [of v n] show "I n'"
  proof
    assume ok: "checkE v n = (Inr (), n) \<and> v (nd_globals n) (nowNanos n) = None"
    then have "keeps I k" by (auto intro: assms)
    moreover have "k n = (r, n')" using run ok by simp
    ultimately show ?thesis using I by (meson keepsD)
  next
    assume "\<exists>e. checkE v n = (Inl e, n) \<and> v (nd_globals n) (nowNanos n) = Some e"
    with run I show ?thesis by auto
  qed
qed

lemma keeps_steady_queries:
  assumes "steady I"
  shows "keeps I (PostExists c)" "keeps I (GetPost c)" "keeps I (GetProfileVersion k)"
    "keeps I (ShouldPinAuthor a)" "keeps I (ShouldPinDM a r)" "keeps I (lookupPostAuthor c)"
    "keeps I (lookupMediaAuthor c m)"
  unfolding PostExists_def GetPost_def GetProfileVersion_def ShouldPinAuthor_def ShouldPinDM_def
    IsLocalIdentity_def HasLocalSubscription_def lookupPostAuthor_def lookupMediaAuthor_def Let_def
  using keeps_queryE [OF assms] keeps_queryRowE [OF assms]
  by (auto intro!: keeps_intro split: option.splits)

lemma keeps_onDB_schedule [keeps_intro]: "keeps (onDB I) (scheduleMediaPrefetch m)"
  unfolding scheduleMediaPrefetch_def Let_def by (rule keeps_modifyE) (auto simp: onDB_def)

lemma acceptedI:
  "ValidatePost x g now (Some p) (Some (verifySignature x)) = None \<Longrightarrow> accepted x (MPost p)"
  "ValidateReaction x g now (Some r) (Some (verifySignature x)) = None \<Longrightarrow> accepted x (MReaction r)"
  "ValidateProfile x g now (Some f) (Some (verifySignature x)) = None \<Longrightarrow> accepted x (MProfile f)"
  "ValidateFollowEvent x g now (Some e) (Some (verifySignature x)) = None \<Longrightarrow>
     accepted x (MFollowEvent e)"
  "ValidateDirectMessage x g now (Some d) (Some (verifySignature x)) = None \<Longrightarrow>
     accepted x (MDirectMessage d)"
  "ValidateMediaObject x g now (Some mo) (Some (verifySignature x)) = None \<Longrightarrow>
     accepted x (MMediaObject mo)"
  unfolding accepted_def by (intro exI, simp)+

locale ancillary_writer =
  fixes I :: "DB \<Rightarrow> bool"
  assumes steady: "steady I"
    and UpdateFollowerCount: "keeps I (UpdateFollowerCount k)"
    and SetMediaFetched: "keeps I (SetMediaFetched c)"
    and TrackContentAccess: "keeps I (TrackContentAccess c b)"
    and InsertNotification: "owner \<noteq> [] \<Longrightarrow> owner \<noteq> actor \<Longrightarrow>
      keeps I (InsertNotification owner ty actor tc rc t)"
begin

lemmas ops = UpdateFollowerCount SetMediaFetched TrackContentAccess

lemmas queries = keeps_steady_queries [OF steady]

lemma track:
  "keeps I (TrackContentForAuthor c a)" "keeps I (TrackReactionContent c a t)"
  "keeps I (TrackContentForDM c a r)" "keeps I (TrackContentForMedia c m)"
  unfolding TrackContentForAuthor_def TrackReactionContent_def TrackContentForDM_def
    TrackContentForMedia_def
  by (intro keeps_intro queries ops)+

lemma notify_now:
  "owner \<noteq> [] \<Longrightarrow> owner \<noteq> actor \<Longrightarrow>
     keeps (onDB I) (insertNotificationNow owner ty actor tc rc)"
  unfolding insertNotificationNow_def by (intro keeps_intro keeps_dbE InsertNotification)

lemma ownerForPost: "keeps (onDB I) (ownerForPost c)"
  unfolding ownerForPost_def by (intro keeps_intro keeps_dbE queries)

lemma notify:
  "keeps (onDB I) (NotifyLike a t c)" "keeps (onDB I) (NotifyReply a t c)"
  "keeps (onDB I) (NotifyRepost a t c)" "keeps (onDB I) (NotifyFollow a k)"
  "keeps (onDB I) (NotifyDM a k)"
  unfolding NotifyLike_def NotifyReply_def NotifyRepost_def NotifyFollow_def NotifyDM_def
    emitNotification_def
  by (auto intro!: keeps_bindE keeps_wrapE keeps_seqE keeps_retE ownerForPost notify_now
      keeps_onDB_other(3))

lemmas steps = keeps_intro keeps_dbE queries ops track notify

end

locale people_writer = ancillary_writer I for I :: "DB \<Rightarrow> bool" +
  fixes x :: ext
  assumes InsertMediaObject: "accepted x (MMediaObject o') \<Longrightarrow>
      keeps I (InsertMediaObject (mo_Cid o') (mo_Author o') (mo_MimeType o') (mo_Size o')
        (mo_ChunkCount o') (mo_Width o') (mo_Height o') (mo_Duration o') (mo_ThumbnailCid o')
        (toInt64 (mo_Timestamp o')))"
    and UpsertProfile: "accepted x (MProfile f) \<Longrightarrow>
      keeps I (UpsertProfile (pr_Author f) (pr_DisplayName f) (pr_Bio f) (pr_AvatarCid f)
        (pr_BannerCid f) (pr_Website f) (pr_Version f) (toInt64 (pr_Timestamp f)))"
    and InsertFollowEvent: "accepted x (MFollowEvent e) \<Longrightarrow>
      keeps I (InsertFollowEvent (fe_Author e) (fe_Target e) (fe_Action e) (toInt64 (fe_Timestamp e)))"
    and InsertDM: "accepted x (MDirectMessage d) \<Longrightarrow>
      keeps I (InsertDM (dm_Id d) (dm_Author d) (dm_Recipient d) (dm_EncryptedContent d) (dm_Nonce d)
        (toInt64 (dm_Timestamp d)))"
begin

lemma handleProfile: "keeps (onDB I) (handleProfile x m)"
  unfolding handleProfile_def
  by (rule keeps_checked, drule acceptedI(3), (intro steps UpsertProfile; assumption)+)

lemma handleFollow: "keeps (onDB I) (handleFollow x m)"
  unfolding handleFollow_def
  by (rule keeps_checked, drule acceptedI(4), (intro steps InsertFollowEvent; assumption)+)

lemma handleDM: "keeps (onDB I) (handleDM x m)"
  unfolding handleDM_def
  by (rule keeps_checked, drule acceptedI(5), (intro steps InsertDM; assumption)+)

lemma handleMediaObject: "keeps (onDB I) (handleMediaObject x ft m)"
  unfolding handleMediaObject_def
  by (rule keeps_checked, drule acceptedI(6), (intro steps InsertMediaObject; assumption)+)

lemma handleMediaChunk: "keeps (onDB I) (handleMediaChunk x m)"
  unfolding handleMediaChunk_def by (rule keeps_checked, intro steps)

lemma prefetchJob: "keeps (onDB I) (prefetchJob ft m)"
proof -
  have "keeps (onDB I) (storeFetchedMediaFile c f)" for c f
    unfolding storeFetchedMediaFile_def by (intro keeps_intro)
  then have item: "keeps (onDB I) (prefetchItem ft (c, p))" for c p
    unfolding prefetchItem_def prod.case by (intro steps)
  have "keeps (onDB I) (modifyE (\<lambda>n. n\<lparr>nd_prefetching := f n\<rparr>))" for f
    by (rule keeps_modifyE) (simp add: onDB_def)
  then show ?thesis
    unfolding prefetchJob_def prefetchMediaContent_def forE.simps by (intro steps item)
qed

end

locale storage_writer = people_writer +
  assumes InsertPost: "accepted x (MPost p) \<Longrightarrow>
      keeps I (InsertPost (po_Id p) (po_Author p) (po_Content p) (po_ReplyTo p) (po_RepostOf p)
        (toInt64 (po_Timestamp p)) (po_Signature p))"
    and InsertPostMedia: "keeps I (InsertPostMedia c m i)"
    and InsertReaction: "accepted x (MReaction r) \<Longrightarrow>
      keeps I (InsertReaction (re_Id r) (re_Author r) (re_Target r) (re_ReactionType r)
        (toInt64 (re_Timestamp r)))"
    and UpdateReactionCount: "keeps I (UpdateReactionCount c)"
begin

lemma handlePost: "keeps (onDB I) (handlePost x m)"
  unfolding handlePost_def
  by (rule keeps_checked, drule acceptedI(1), (intro steps InsertPost InsertPostMedia UpdateReactionCount; assumption)+)

lemma handleReaction: "keeps (onDB I) (handleReaction x m)"
  unfolding handleReaction_def
  by (rule keeps_checked, drule acceptedI(2), (intro steps InsertReaction UpdateReactionCount; assumption)+)

lemma HandleMessage: "keeps (onDB I) (HandleMessage x ft d)"
proof -
  have "keeps (onDB I) (handlePayload x ft m)" for m
    by (cases "(x, ft, m)" rule: handlePayload.cases)
       (simp_all add: handlePost handleReaction handleProfile handleFollow handleDM
         handleMediaObject handleMediaChunk keeps_retE)
  then show ?thesis unfolding HandleMessage_def by (intro keeps_intro)
qed

end

text \<open>
  \<open>nodeReach x ft n0\<close>: what a node in the state \<open>n0\<close>, any state, becomes by processing messages and
  downloads, with the clock, the validators' package variables and the settings changing in between in any
  way. What local code wrote before, signed or not, is in \<open>n0\<close>. Each message is handled in one step; the
  invariants proved here hold after every statement, so that they do not depend on this.
\<close>

inductive nodeReach :: "ext \<Rightarrow> fetchers \<Rightarrow> Node \<Rightarrow> Node \<Rightarrow> bool" for x ft n0 where
  init: "nodeReach x ft n0 n0"
| message: "nodeReach x ft n0 n \<Longrightarrow> HandleMessage x ft d n = (r, n') \<Longrightarrow> nodeReach x ft n0 n'"
| job: "nodeReach x ft n0 n \<Longrightarrow> m \<in> set (nd_jobs n) \<Longrightarrow>
    prefetchJob ft m (n\<lparr>nd_jobs := remove1 m (nd_jobs n)\<rparr>) = (r, n') \<Longrightarrow> nodeReach x ft n0 n'"
| environment: "nodeReach x ft n0 n \<Longrightarrow>
    nodeReach x ft n0 (n\<lparr>nd_db := (nd_db n)\<lparr>now_ms := t\<rparr>, nd_nanos := ns, nd_globals := g,
      nd_autoFetchMedia := b\<rparr>)"

text \<open>An invariant that the start has and that does not read the clock holds of them all.\<close>

locale storage_invariant = storage_writer +
  assumes clock: "I db \<Longrightarrow> I (db\<lparr>now_ms := t\<rparr>)"
begin

lemma reachable: "nodeReach x ft n0 n \<Longrightarrow> I (nd_db n0) \<Longrightarrow> I (nd_db n)"
proof (induction rule: nodeReach.induct)
  case (message n d r n')
  then show ?case using keepsD [OF HandleMessage] by (auto simp: onDB_def)
next
  case (job n m r n')
  then have "onDB I (n\<lparr>nd_jobs := remove1 m (nd_jobs n)\<rparr>)" by (simp add: onDB_def)
  with job.hyps(3) keepsD [OF prefetchJob] have "onDB I n'" by blast
  then show ?case by (simp add: onDB_def)
next
  case (environment n t ns g b)
  then show ?case by (simp add: clock)
qed

end

section \<open>Frames\<close>

text \<open>An operation that writes one table keeps every predicate that does not read that table.\<close>

lemma keeps_frame:
  assumes st: "steady I"
  shows
    "(\<And>db t. I db \<Longrightarrow> I (db\<lparr>posts := t\<rparr>)) \<Longrightarrow> keeps I (InsertPost c a co rt ro ts sg)"
    "(\<And>db t. I db \<Longrightarrow> I (db\<lparr>post_media := t\<rparr>)) \<Longrightarrow> keeps I (InsertPostMedia c m i)"
    "(\<And>db t. I db \<Longrightarrow> I (db\<lparr>media_objects := t\<rparr>)) \<Longrightarrow>
       keeps I (InsertMediaObject c a mt sz n w h du th ts)"
    "(\<And>db t. I db \<Longrightarrow> I (db\<lparr>media_objects := t\<rparr>)) \<Longrightarrow> keeps I (SetMediaFetched c)"
    "(\<And>db t. I db \<Longrightarrow> I (db\<lparr>profiles := t\<rparr>)) \<Longrightarrow> keeps I (UpsertProfile k dn bi av bn ws v ts)"
    "(\<And>db t. I db \<Longrightarrow> I (db\<lparr>reactions := t\<rparr>)) \<Longrightarrow> keeps I (InsertReaction c a tg ty ts)"
    "(\<And>db t. I db \<Longrightarrow> I (db\<lparr>follow_events := t\<rparr>)) \<Longrightarrow> keeps I (InsertFollowEvent a tg ac ts)"
    "(\<And>db t. I db \<Longrightarrow> I (db\<lparr>direct_messages := t\<rparr>)) \<Longrightarrow> keeps I (InsertDM c a rc en no ts)"
    "(\<And>db t. I db \<Longrightarrow> I (db\<lparr>reaction_counts := t\<rparr>)) \<Longrightarrow> keeps I (UpdateReactionCount c)"
    "(\<And>db t. I db \<Longrightarrow> I (db\<lparr>follower_counts := t\<rparr>)) \<Longrightarrow> keeps I (UpdateFollowerCount k)"
    "(\<And>db t. I db \<Longrightarrow> I (db\<lparr>content_access := t\<rparr>)) \<Longrightarrow> keeps I (TrackContentAccess c b)"
    "(\<And>db t q. I db \<Longrightarrow> I (db\<lparr>notifications := t, notification_seq := q\<rparr>)) \<Longrightarrow>
       keeps I (InsertNotification ow nt act tc rc' ts)"
  unfolding InsertPost_def InsertPostMedia_def InsertMediaObject_def SetMediaFetched_def
    UpsertProfile_def InsertReaction_def InsertFollowEvent_def InsertDM_def UpdateReactionCount_def
    UpdateFollowerCount_def TrackContentAccess_def InsertNotification_def
  by (intro keeps_intro keeps_queryE [OF st] keeps_execE [OF st];
      auto simp: stmtInsertPost_def stmtInsertPostMedia_def stmtInsertReaction_def stmtInsertDM_def
        stmtUpsertCounts_def stmtUpsertFollowerCounts_def stmtInsertNotification_def Let_def
        split: if_splits)+

section \<open>Interpretations\<close>

interpretation wellformed: storage_invariant dbInv x for x
  by unfold_locales
     (simp_all add: steady_dbInv db_keeps, simp_all add: dbInv_def)

subsection \<open>Provenance\<close>

text \<open>The row that a message leaves in its table.\<close>

definition postOf :: "Post \<Rightarrow> PostRow \<Rightarrow> bool" where
  "postOf m p \<longleftrightarrow> p_CID p = po_Id m \<and> p_Author p = po_Author m \<and> p_Content p = po_Content m \<and>
     p_ReplyTo p = nilIfEmpty (po_ReplyTo m) \<and> p_RepostOf p = nilIfEmpty (po_RepostOf m) \<and>
     p_Timestamp p = toInt64 (po_Timestamp m) \<and> p_Signature p = po_Signature m"

definition reactionOf :: "Reaction \<Rightarrow> ReactionRow \<Rightarrow> bool" where
  "reactionOf m r \<longleftrightarrow> r_CID r = re_Id m \<and> r_Author r = re_Author m \<and> r_Target r = re_Target m \<and>
     r_ReactionType r = re_ReactionType m \<and> r_Timestamp r = toInt64 (re_Timestamp m)"

definition profileOf :: "Profile \<Rightarrow> ProfileRow \<Rightarrow> bool" where
  "profileOf m p \<longleftrightarrow> pf_Pubkey p = pr_Author m \<and> pf_DisplayName p = pr_DisplayName m \<and>
     pf_Bio p = pr_Bio m \<and> pf_AvatarCID p = nilIfEmpty (pr_AvatarCid m) \<and>
     pf_BannerCID p = nilIfEmpty (pr_BannerCid m) \<and> pf_Website p = pr_Website m \<and>
     pf_Version p = uint (pr_Version m) \<and> pf_UpdatedAt p = toInt64 (pr_Timestamp m)"

definition followOf :: "FollowEvent \<Rightarrow> FollowEventRow \<Rightarrow> bool" where
  "followOf m f \<longleftrightarrow> f_Author f = fe_Author m \<and> f_Target f = fe_Target m \<and> f_Action f = fe_Action m \<and>
     f_Timestamp f = toInt64 (fe_Timestamp m)"

definition dmOf :: "DirectMessage \<Rightarrow> DMRow \<Rightarrow> bool" where
  "dmOf m d \<longleftrightarrow> d_CID d = dm_Id m \<and> d_Author d = dm_Author m \<and> d_Recipient d = dm_Recipient m \<and>
     d_EncryptedContent d = dm_EncryptedContent m \<and> d_Nonce d = dm_Nonce m \<and>
     d_Timestamp d = toInt64 (dm_Timestamp m)"

definition mediaOf :: "MediaObject \<Rightarrow> MediaObjectRow \<Rightarrow> bool" where
  "mediaOf m r \<longleftrightarrow> m_CID r = mo_Cid m \<and> m_Author r = mo_Author m \<and> m_MimeType r = mo_MimeType m \<and>
     m_Size r = uint (mo_Size m) \<and> m_ThumbnailCID r = nilIfEmpty (mo_ThumbnailCid m) \<and>
     m_Timestamp r = toInt64 (mo_Timestamp m)"

lemma rowAuthor:
  "postOf m p \<Longrightarrow> p_Author p = po_Author m" "reactionOf r q \<Longrightarrow> r_Author q = re_Author r"
  "profileOf f g \<Longrightarrow> pf_Pubkey g = pr_Author f" "followOf e h \<Longrightarrow> f_Author h = fe_Author e"
  "dmOf d i \<Longrightarrow> d_Author i = dm_Author d" "mediaOf b j \<Longrightarrow> m_Author j = mo_Author b"
  by (simp_all add: postOf_def reactionOf_def profileOf_def followOf_def dmOf_def mediaOf_def)

text \<open>The media rows of a database, whose mark for fetched files may have changed since.\<close>

definition heldMedia :: "DB \<Rightarrow> MediaObjectRow set" where
  "heldMedia db = {q\<lparr>m_FullyFetched := b\<rparr> |q b. q \<in> set (media_objects db)}"

text \<open>\<open>traced x db0 db\<close>: every row is one of \<open>db0\<close>, fetched or not, or the content of an accepted message.\<close>

definition traced :: "ext \<Rightarrow> DB \<Rightarrow> DB \<Rightarrow> bool" where
  "traced x db0 db \<longleftrightarrow>
     (\<forall>p\<in>set (posts db). p \<in> set (posts db0) \<or> (\<exists>m. accepted x (MPost m) \<and> postOf m p)) \<and>
     (\<forall>r\<in>set (reactions db). r \<in> set (reactions db0) \<or> (\<exists>m. accepted x (MReaction m) \<and> reactionOf m r)) \<and>
     (\<forall>p\<in>set (profiles db). p \<in> set (profiles db0) \<or> (\<exists>m. accepted x (MProfile m) \<and> profileOf m p)) \<and>
     (\<forall>f\<in>set (follow_events db). f \<in> set (follow_events db0) \<or> (\<exists>m. accepted x (MFollowEvent m) \<and> followOf m f)) \<and>
     (\<forall>d\<in>set (direct_messages db). d \<in> set (direct_messages db0) \<or> (\<exists>m. accepted x (MDirectMessage m) \<and> dmOf m d)) \<and>
     (\<forall>r\<in>set (media_objects db). r \<in> heldMedia db0 \<or> (\<exists>m. accepted x (MMediaObject m) \<and> mediaOf m r))"

lemma steady_traced: "steady (traced x db0)"
  by (simp add: steady_def traced_def)

lemma heldMedia_row: "q \<in> set (media_objects db0) \<Longrightarrow> q \<in> heldMedia db0"
  unfolding heldMedia_def by (rule CollectI, intro exI [of _ q] exI [of _ "m_FullyFetched q"]) simp

lemma heldMedia_fetched: "r \<in> heldMedia db0 \<Longrightarrow> r\<lparr>m_FullyFetched := b\<rparr> \<in> heldMedia db0"
proof -
  assume "r \<in> heldMedia db0"
  then obtain q a where "r = q\<lparr>m_FullyFetched := a\<rparr>" "q \<in> set (media_objects db0)" by (auto simp: heldMedia_def)
  then show "r\<lparr>m_FullyFetched := b\<rparr> \<in> heldMedia db0"
    unfolding heldMedia_def by (intro CollectI exI [of _ q] exI [of _ b]) simp
qed

lemma uint64Arg_Inr: "uint64Arg w = Inr k \<Longrightarrow> k = uint w"
  by (auto simp: uint64Arg_def split: if_splits)

text \<open>An upsert leaves old rows, the new row, and updates of the row with the new row's key.\<close>

lemma set_upsertRow:
  "r \<in> set (upsertRow key upd row rows) \<Longrightarrow>
     r \<in> set rows \<or> r = row \<or> (\<exists>q\<in>set rows. key q = key row \<and> r = upd q)"
  by (auto simp: upsertRow_def split: if_splits)

lemma set_insertIgnore: "r \<in> set (insertIgnore key row rows) \<Longrightarrow> r \<in> set rows \<or> r = row"
  by (auto simp: insertIgnore_def split: if_splits)

lemma keeps_lift_uint64:
  "(\<And>k. k = uint w \<Longrightarrow> keeps I (f k)) \<Longrightarrow> keeps I (bindE (liftE (uint64Arg w)) f)"
  by (cases "uint64Arg w") (auto simp: keeps_def run_bindE dest: uint64Arg_Inr)

interpretation provenance: storage_invariant "traced x db0" x for x db0
proof (unfold_locales)
  note E = keeps_execE [OF steady_traced]
  show "steady (traced x db0)" by (rule steady_traced)
  show "keeps (traced x db0) (InsertPost (po_Id p) (po_Author p) (po_Content p) (po_ReplyTo p)
      (po_RepostOf p) (toInt64 (po_Timestamp p)) (po_Signature p))" if "accepted x (MPost p)" for p
    unfolding InsertPost_def
    by (intro keeps_wrapE E) (use that in \<open>fastforce simp: stmtInsertPost_def traced_def postOf_def
        split: if_splits\<close>)
  show "keeps (traced x db0) (InsertReaction (re_Id r) (re_Author r) (re_Target r) (re_ReactionType r)
      (toInt64 (re_Timestamp r)))" if "accepted x (MReaction r)" for r
    unfolding InsertReaction_def
    by (intro keeps_wrapE E) (use that in \<open>fastforce simp: stmtInsertReaction_def traced_def
        reactionOf_def Let_def split: if_splits\<close>)
  show "keeps (traced x db0) (InsertDM (dm_Id d) (dm_Author d) (dm_Recipient d) (dm_EncryptedContent d)
      (dm_Nonce d) (toInt64 (dm_Timestamp d)))" if "accepted x (MDirectMessage d)" for d
    unfolding InsertDM_def
    by (intro keeps_wrapE E) (use that in \<open>fastforce simp: stmtInsertDM_def traced_def dmOf_def
        dest: set_insertIgnore\<close>)
  show "keeps (traced x db0) (InsertFollowEvent (fe_Author e) (fe_Target e) (fe_Action e)
      (toInt64 (fe_Timestamp e)))" if "accepted x (MFollowEvent e)" for e
    unfolding InsertFollowEvent_def
    by (intro keeps_wrapE E) (use that in \<open>fastforce simp: traced_def followOf_def followKey_def
        dest: set_upsertRow\<close>)
  show "keeps (traced x db0) (UpsertProfile (pr_Author f) (pr_DisplayName f) (pr_Bio f)
      (pr_AvatarCid f) (pr_BannerCid f) (pr_Website f) (pr_Version f) (toInt64 (pr_Timestamp f)))"
    if "accepted x (MProfile f)" for f
    unfolding UpsertProfile_def
    by (intro keeps_wrapE keeps_lift_uint64 E) (use that in \<open>fastforce simp: traced_def profileOf_def
        Let_def dest: set_upsertRow split: if_splits\<close>)
  show "keeps (traced x db0) (InsertMediaObject (mo_Cid o') (mo_Author o') (mo_MimeType o') (mo_Size o')
      (mo_ChunkCount o') (mo_Width o') (mo_Height o') (mo_Duration o') (mo_ThumbnailCid o')
      (toInt64 (mo_Timestamp o')))" if "accepted x (MMediaObject o')" for o'
    unfolding InsertMediaObject_def
    by (intro keeps_wrapE keeps_lift_uint64 E) (use that in \<open>fastforce simp: traced_def mediaOf_def
        Let_def dest: set_upsertRow\<close>)
  show "keeps (traced x db0) (SetMediaFetched c)" for c
    unfolding SetMediaFetched_def
    by (intro keeps_wrapE E) (fastforce simp: traced_def mediaOf_def heldMedia_fetched)
  show "traced x db0 (db\<lparr>now_ms := t\<rparr>)" if "traced x db0 db" for db t
    using that by (simp add: traced_def)
qed (rule keeps_frame [OF steady_traced]; simp add: traced_def)+

subsection \<open>Profile versions\<close>

text \<open>\<open>newerThan k p\<close>: the profile of \<open>k\<close> is still the row \<open>p\<close> or one of a higher version.\<close>

definition newerThan :: "bytes \<Rightarrow> ProfileRow \<Rightarrow> DB \<Rightarrow> bool" where
  "newerThan k p db \<longleftrightarrow>
     (\<exists>q. rowOf pf_Pubkey k (profiles db) = Some q \<and> (q = p \<or> pf_Version p < pf_Version q))"

lemma steady_newerThan: "steady (newerThan k p)"
  by (simp add: steady_def newerThan_def)

lemma UpsertProfile_newer: "keeps (newerThan k p) (UpsertProfile k' dn bi av bn ws v ts)"
proof -
  have "newerThan k p (db\<lparr>profiles := upsertRow pf_Pubkey
      (\<lambda>q. if pf_Version q < ver then row\<lparr>pf_Pubkey := pf_Pubkey q\<rparr> else q) row
      (profiles db)\<rparr>)" if "newerThan k p db" "pf_Version row = ver" for db row ver
    using that rowOf_upsert [of pf_Pubkey
      "\<lambda>q. if pf_Version q < ver then row\<lparr>pf_Pubkey := pf_Pubkey q\<rparr> else q" k row "profiles db"]
    by (auto simp: newerThan_def)
  note step = this
  show ?thesis
    unfolding UpsertProfile_def Let_def
    by (intro keeps_wrapE keeps_bindE keeps_liftE keeps_execE [OF steady_newerThan],
        drule sum.inject(2) [THEN iffD1], hypsubst, rule step, assumption, simp)
qed

interpretation versions: storage_writer "newerThan k p" x for x k p
  by unfold_locales
     (simp_all only: steady_newerThan UpsertProfile_newer,
      (rule keeps_frame [OF steady_newerThan]; simp add: newerThan_def)+)

subsection \<open>Notifications\<close>

definition noSelf :: "DB \<Rightarrow> bool" where
  "noSelf db \<longleftrightarrow> (\<forall>n\<in>set (notifications db). \<exists>owner. n_OwnerPubkey n = Some owner \<and> owner \<noteq> n_Actor n)"

lemma steady_noSelf: "steady noSelf"
  by (simp add: steady_def noSelf_def)

interpretation others: storage_invariant noSelf x for x
proof (unfold_locales)
  show "steady noSelf" by (rule steady_noSelf)
  show "keeps noSelf (InsertNotification owner ty actor tc rc t)"
    if "owner \<noteq> []" "owner \<noteq> actor" for owner ty actor tc rc t
    unfolding InsertNotification_def
    by (intro keeps_wrapE keeps_execE [OF steady_noSelf])
       (use that in \<open>auto simp: stmtInsertNotification_def noSelf_def nilIfEmpty_def\<close>)
  show "noSelf (db\<lparr>now_ms := t\<rparr>)" if "noSelf db" for db t
    using that by (simp add: noSelf_def)
qed (rule keeps_frame [OF steady_noSelf]; simp add: noSelf_def)+

section \<open>Properties\<close>

lemma accepted_signed:
  assumes "\<forall>a p s. x_verify x a p s \<longrightarrow> signedBy a p"
  shows
    "accepted x (MPost m) \<Longrightarrow> \<exists>pl. postSigningPayload x m = Inr pl \<and> signedBy (po_Author m) pl"
    "accepted x (MReaction r) \<Longrightarrow> \<exists>pl. reactionSigningPayload x r = Inr pl \<and> signedBy (re_Author r) pl"
    "accepted x (MProfile f) \<Longrightarrow> \<exists>pl. profileSigningPayload x f = Inr pl \<and> signedBy (pr_Author f) pl"
    "accepted x (MFollowEvent e) \<Longrightarrow>
       \<exists>pl. followEventSigningPayload x e = Inr pl \<and> signedBy (fe_Author e) pl"
    "accepted x (MDirectMessage d) \<Longrightarrow> \<exists>pl. dmSigningPayload x d = Inr pl \<and> signedBy (dm_Author d) pl"
    "accepted x (MMediaObject b) \<Longrightarrow>
       \<exists>pl. mediaObjectSigningPayload x b = Inr pl \<and> signedBy (mo_Author b) pl"
  unfolding accepted_def verifySignature_def validateMessage.simps
  using post.authentic [of x _ _ _ "x_verify x" signedBy]
    reaction.authentic [of x _ _ _ "x_verify x" signedBy]
    profile.authentic [of x _ _ _ "x_verify x" signedBy]
    follow.authentic [of x _ _ _ "x_verify x" signedBy]
    dm.authentic [of x _ _ _ "x_verify x" signedBy]
    media.authentic [of x _ _ _ "x_verify x" signedBy] assms
  by (elim exE, blast)+

lemma signed_rows:
  assumes "\<forall>r\<in>S. r \<in> T \<or> (\<exists>m. A m \<and> isOf m r)" "\<And>m. A m \<Longrightarrow> \<exists>pl. P m = Inr pl \<and> signs (author m) pl"
    and "\<And>m r. isOf m r \<Longrightarrow> rowAuth r = author m"
  shows "\<forall>r\<in>S - T. \<exists>m pl. isOf m r \<and> P m = Inr pl \<and> signs (rowAuth r) pl"
proof
  fix r
  assume "r \<in> S - T"
  then obtain m where "A m" "isOf m r" using assms(1) by blast
  moreover then obtain pl where "P m = Inr pl" "signs (author m) pl" using assms(2) by blast
  ultimately show "\<exists>m pl. isOf m r \<and> P m = Inr pl \<and> signs (rowAuth r) pl"
    using assms(3) by metis
qed

text \<open>
  C1. Nobody on the network can put words into another's mouth: from any state of a node on, with whatever its
  local code has written, every post, reaction, profile, follow event, direct message and media object that is
  in the database after it processed arbitrary byte strings from the network and ran downloads, with arbitrary
  failures of the file system and the database, was there before (a media object perhaps not yet marked as
  fetched), or it is the content of one message whose author signed it. This supposes that the verifier
  accepts only signatures made by the holder of the key. The rows that the node's own interfaces write without
  a signature (LocalWriters) are outside: they are part of the state it starts from.
\<close>

theorem rows_are_signed:
  assumes "\<forall>a p s. x_verify x a p s \<longrightarrow> signedBy a p" and "nodeReach x ft n0 n"
  shows
    "(\<forall>p\<in>set (posts (nd_db n)) - set (posts (nd_db n0)). \<exists>m pl. postOf m p \<and>
        postSigningPayload x m = Inr pl \<and> signedBy (p_Author p) pl) \<and>
     (\<forall>r\<in>set (reactions (nd_db n)) - set (reactions (nd_db n0)). \<exists>m pl. reactionOf m r \<and>
        reactionSigningPayload x m = Inr pl \<and> signedBy (r_Author r) pl) \<and>
     (\<forall>p\<in>set (profiles (nd_db n)) - set (profiles (nd_db n0)). \<exists>m pl. profileOf m p \<and>
        profileSigningPayload x m = Inr pl \<and> signedBy (pf_Pubkey p) pl) \<and>
     (\<forall>f\<in>set (follow_events (nd_db n)) - set (follow_events (nd_db n0)). \<exists>m pl. followOf m f \<and>
        followEventSigningPayload x m = Inr pl \<and> signedBy (f_Author f) pl) \<and>
     (\<forall>d\<in>set (direct_messages (nd_db n)) - set (direct_messages (nd_db n0)). \<exists>m pl. dmOf m d \<and>
        dmSigningPayload x m = Inr pl \<and> signedBy (d_Author d) pl) \<and>
     (\<forall>r\<in>set (media_objects (nd_db n)) - heldMedia (nd_db n0). \<exists>m pl. mediaOf m r \<and>
        mediaObjectSigningPayload x m = Inr pl \<and> signedBy (m_Author r) pl)"
proof -
  note sg = accepted_signed [OF assms(1)]
  have "traced x (nd_db n0) (nd_db n0)" by (simp add: traced_def heldMedia_row)
  with assms(2) have "traced x (nd_db n0) (nd_db n)" by (rule provenance.reachable)
  then show ?thesis
    unfolding traced_def
    by (elim conjE, intro conjI)
       (rule signed_rows [where signs = signedBy], assumption, erule sg, erule rowAuthor)+
qed

text \<open>
  A node that starts empty and into whose network only the envelope of \<open>exampleFollow\<close> is sent.
\<close>

definition exampleNode :: Node where
  "exampleNode = \<lparr>nd_db = emptyDB, nd_fs = exampleFs, nd_base = [''cas''], nd_globals = init_vglobals,
     nd_nanos = 0, nd_notifBroadcast = True, nd_broadcast = True, nd_events = [], nd_indexer = False,
     nd_indexed = [], nd_publisher = False, nd_published = [], nd_pubFaults = (\<lambda>_. None),
     nd_autoFetchMedia = False, nd_prefetching = [], nd_jobs = [], nd_subscribers = [],
     nd_onSubscribe = True, nd_onUnsubscribe = True, nd_topicCalls = [], nd_topicFaults = (\<lambda>_. None)\<rparr>"

definition exampleFetchers :: fetchers where
  "exampleFetchers = \<lparr>ft_fetchContent = None, ft_fetchContentToFile = None\<rparr>"

definition followExt :: ext where
  "followExt = exampleExt\<lparr>x_unmarshalEnvelope := (\<lambda>d. Inr (Some (MFollowEvent exampleFollow))),
     x_verify := (\<lambda>a p s. a = replicate 32 1)\<rparr>"

lemma exampleFollow_valid:
  "ValidateFollowEvent followExt init_vglobals 0 (Some exampleFollow) (Some (verifySignature followExt))
     = None"
  by (simp add: exampleFollow_def ValidateFollowEvent.simps Ed25519PublicKeySize_def
      Ed25519SignatureSize_def checkSigned_None validateTimestamp_def toInt64_def init_vglobals_def
      MaxFutureSkew_def DefaultMaxPastAge_def msec_def followEventSigningPayload_def marshalAs_def
      exampleExt_def followExt_def verifySignature_def)

definition followedNode :: Node where
  "followedNode = snd (HandleMessage followExt exampleFetchers [] exampleNode)"

lemma followedNode_reach: "nodeReach followExt exampleFetchers exampleNode followedNode"
  unfolding followedNode_def
  by (rule nodeReach.message [OF nodeReach.init prod.collapse [symmetric]])


lemma followedNode_events:
  "follow_events (nd_db followedNode) = [\<lparr>f_Author = replicate 32 1, f_Target = replicate 32 2,
     f_Action = ''follow'', f_Timestamp = 0\<rparr>]" (is "_ = ?F")
proof -
  let ?I = "\<lambda>db. follow_events db = ?F"
  let ?ins = "dbE (InsertFollowEvent (fe_Author exampleFollow) (fe_Target exampleFollow)
    (fe_Action exampleFollow) (toInt64 (fe_Timestamp exampleFollow)))"
  have check: "checkE (\<lambda>g now. ValidateFollowEvent followExt g now (Some exampleFollow)
      (Some (verifySignature followExt))) exampleNode = (Inr (), exampleNode)"
    using exampleFollow_valid
    by (simp add: checkE_def exampleNode_def nowNanos_def emptyDB_def)
  have unmarshal: "x_unmarshalEnvelope followExt [] = Inr (Some (MFollowEvent exampleFollow))"
    by (simp add: followExt_def)
  have nf: "db_faults (nd_db exampleNode) = (\<lambda>_. None)" "follow_events (nd_db exampleNode) = []"
    by (simp_all add: exampleNode_def emptyDB_def)
  define n1 where "n1 = snd (?ins exampleNode)"
  have ok: "fst (?ins exampleNode) = Inr ()"
    by (simp add: dbE_run InsertFollowEvent_def run_wrapE execE_nofault [OF nf(1)])
  have "onDB ?I (snd (?ins exampleNode))"
    by (simp add: dbE_run InsertFollowEvent_def run_wrapE execE_nofault [OF nf(1)] onDB_def
        upsertRow_def nf(2) exampleFollow_def toInt64_def)
  with ok have n1: "?ins exampleNode = (Inr (), n1)" "onDB ?I n1"
    by (simp_all add: n1_def prod_eq_iff)
  have st: "steady ?I" by (simp add: steady_def)
  let ?rest = "seqE (whenE (fe_Action exampleFollow = ''follow'')
          (logE (NotifyFollow (fe_Author exampleFollow) (fe_Target exampleFollow))))
      (seqE (logE (dbE (UpdateFollowerCount (fe_Author exampleFollow))))
            (logE (dbE (UpdateFollowerCount (fe_Target exampleFollow)))))"
  have kp: "keeps (onDB ?I) ?rest"
    unfolding NotifyFollow_def insertNotificationNow_def emitNotification_def
    by (intro keeps_intro keeps_dbE keeps_frame [OF st]) simp_all
  have e1: "HandleMessage followExt exampleFetchers [] exampleNode =
      handleFollow followExt exampleFollow exampleNode"
    by (simp only: HandleMessage_def unmarshal run_bindE run_wrapE run_liftE handlePayload.simps
        prod.case sum.case)
  have e2: "handleFollow followExt exampleFollow exampleNode = ?rest n1"
    unfolding handleFollow_def by (rule checked_run [OF check], rule n1(1))
  obtain r n2 where e3: "?rest n1 = (r, n2)" by (rule prod.exhaust)
  then have "followedNode = n2" by (simp only: followedNode_def e1 e2 snd_conv)
  with keepsD [OF kp n1(2) e3] show ?thesis by (simp only: onDB_def)
qed

theorem rows_are_signed_witness:
  "\<exists>m pl. fe_Author m = replicate 32 1 \<and> fe_Target m = replicate 32 2 \<and>
     followEventSigningPayload followExt m = Inr pl"
  using rows_are_signed [OF _ followedNode_reach, of "\<lambda>a p. a = replicate 32 1"]
  by (auto simp: followedNode_events followExt_def followOf_def exampleNode_def emptyDB_def)

text \<open>
  C14. Profiles only move forward: no message, valid or not, and no failure on the way replaces a
  stored profile by one of the same or a lower version, or removes it; after any message the row of
  a key is the same row or one with a higher version.
\<close>

theorem profile_version_monotone:
  assumes "HandleMessage x ft d n = (r, n')"
    and "rowOf pf_Pubkey k (profiles (nd_db n)) = Some p"
  shows "\<exists>q. rowOf pf_Pubkey k (profiles (nd_db n')) = Some q \<and> (q = p \<or> pf_Version p < pf_Version q)"
proof -
  have "onDB (newerThan k p) n" using assms(2) by (simp add: onDB_def newerThan_def)
  from keepsD [OF versions.HandleMessage this assms(1)] show ?thesis
    by (simp add: onDB_def newerThan_def)
qed

definition exampleProfileRow :: ProfileRow where
  "exampleProfileRow = \<lparr>pf_Pubkey = [5], pf_DisplayName = ''a'', pf_Bio = '''', pf_AvatarCID = None,
     pf_BannerCID = None, pf_Website = '''', pf_Version = 3, pf_UpdatedAt = 0\<rparr>"

theorem profile_version_monotone_witness:
  "\<exists>q. rowOf pf_Pubkey [5] (profiles (nd_db (snd (HandleMessage followExt exampleFetchers []
      (exampleNode\<lparr>nd_db := emptyDB\<lparr>profiles := [exampleProfileRow]\<rparr>\<rparr>))))) = Some q \<and>
     (q = exampleProfileRow \<or> pf_Version exampleProfileRow < pf_Version q)"
  by (rule profile_version_monotone [OF prod.collapse [symmetric]])
     (simp add: exampleProfileRow_def)

end
