(* ===== verification/HandlerRuns.thy ===== *)
theory HandlerRuns
  imports HandlerInv
begin

text \<open>
  What message processing achieves: the counters it materialises stay exact when the database does not
  fail, every row it writes has its message in the content store, a rejected or known message
  changes nothing, a new valid post is stored and announced, and a signed message without an
  identifier panics.
\<close>

section \<open>Operations that cannot fail\<close>

text \<open>
  \<open>sure I m\<close>: from \<open>I\<close>, \<open>m\<close> returns normally and leaves \<open>I\<close>. \<open>mild I m\<close>: \<open>m\<close> leaves \<open>I\<close> and does not
  panic, so that logging its error is sure.
\<close>

abbreviation sure :: "('s \<Rightarrow> bool) \<Rightarrow> ('s, 'a) go \<Rightarrow> bool" where
  "sure I m \<equiv> triple I m (\<lambda>_. I) (\<lambda>_. False)"

definition mild :: "('s \<Rightarrow> bool) \<Rightarrow> ('s, 'a) go \<Rightarrow> bool" where
  "mild I m \<longleftrightarrow> (\<forall>s r s'. I s \<longrightarrow> m s = (r, s') \<longrightarrow> I s' \<and> (\<forall>p. r \<noteq> Inl (Panic p)))"

named_theorems mild_intro \<open>bodies that never panic and keep an invariant\<close>

lemma mildD: "mild I m \<Longrightarrow> I s \<Longrightarrow> m s = (r, s') \<Longrightarrow> I s' \<and> (\<forall>p. r \<noteq> Inl (Panic p))"
  by (simp add: mild_def)

lemma mild_bindE [mild_intro]:
  assumes "mild I m" "\<And>x. mild I (k x)"
  shows "mild I (bindE m k)"
  unfolding mild_def
proof (intro allI impI)
  fix s r s''
  assume I: "I s" and run: "bindE m k s = (r, s'')"
  obtain r1 s1 where m: "m s = (r1, s1)" by force
  from mildD [OF assms(1) I m] have I1: "I s1" and np: "\<And>p. r1 \<noteq> Inl (Panic p)" by auto
  show "I s'' \<and> (\<forall>p. r \<noteq> Inl (Panic p))"
  proof (cases r1)
    case (Inl e)
    with run m I1 np show ?thesis by (auto simp: run_bindE)
  next
    case (Inr y)
    with run m have "k y s1 = (r, s'')" by (simp add: run_bindE)
    with mildD [OF assms(2) I1] show ?thesis by blast
  qed
qed

lemma mild_seqE [mild_intro]: "mild I m \<Longrightarrow> mild I k \<Longrightarrow> mild I (seqE m k)"
  by (simp add: seqE_def mild_bindE)

lemma mild_retE [mild_intro]: "mild I (retE y)"
  by (simp add: mild_def)

lemma mild_if [mild_intro]: "mild I m \<Longrightarrow> mild I k \<Longrightarrow> mild I (if b then m else k)"
  by simp

lemma mild_getE [mild_intro]: "mild I (getE f)"
  by (simp add: mild_def)

lemma mild_wrapE [mild_intro]: "mild I m \<Longrightarrow> mild I (wrapE p m)"
  unfolding mild_def run_wrapE
  by (auto split: prod.splits sum.splits) (metis is_panic_simps goerr.exhaust)

lemma mild_sure: "sure I m \<Longrightarrow> mild I m"
  unfolding mild_def triple_def by (metis sum.exhaust sum.distinct(1))

lemma sure_logE: "mild I m \<Longrightarrow> sure I (logE m)"
  unfolding mild_def triple_def logE_def by (fastforce split: prod.splits sum.splits goerr.splits)

lemma mild_dbE: "mild I m \<Longrightarrow> mild (onDB I) (dbE m)"
  unfolding mild_def dbE_run onDB_def by (auto split: prod.splits)

lemma sure_dbE: "sure I m \<Longrightarrow> sure (onDB I) (dbE m)"
  using triple_dbE [of I m "\<lambda>_. I" "\<lambda>_. False"] by (auto simp: triple_def onDB_def)

lemma sure_forE: "(\<And>y. sure I (f y)) \<Longrightarrow> sure I (forE f ys)"
  by (induction ys) (auto intro: triple_retE triple_seqE)

lemma sure_step: "sure I m \<Longrightarrow> triple I k Q E \<Longrightarrow> triple I (seqE m k) Q E"
  by (rule triple_seqE) (auto elim: triple_conseq)

text \<open>Without driver failures, queries and unconditional statements are sure.\<close>

definition nofault :: "DB \<Rightarrow> bool" where
  "nofault db \<longleftrightarrow> db_faults db = (\<lambda>_. None)"

lemma sure_queryE:
  "steady I \<Longrightarrow> (\<And>db. I db \<Longrightarrow> nofault db) \<Longrightarrow> sure I (queryE q)"
  by (auto simp: triple_def queryE_def nofault_def steady_tick)

lemma triple_execE_sure:
  assumes "steady I" "\<And>db. I db \<Longrightarrow> nofault db" "\<And>db. I db \<Longrightarrow> \<exists>db'. stmt db = Inr db' \<and> J db'"
  shows "triple I (execE stmt) (\<lambda>_. J) (\<lambda>_. False)"
proof -
  have "\<exists>db'. stmt (tick db) = Inr db' \<and> J db'" if "I db" for db
    using assms(3) [of "tick db"] that steady_tick [OF assms(1)] by simp
  with assms(2) show ?thesis
    by (fastforce simp: triple_def execE_def nofault_def)
qed

section \<open>Exact counters\<close>

text \<open>The materialised counts of \<open>c\<close>, a missing row counting as zeros, are the numbers of rows.\<close>

definition storedCounts :: "bytes \<Rightarrow> ReactionCountRow list \<Rightarrow> int \<times> int \<times> int" where
  "storedCounts c rows = (case rowOf rc_PostCID c rows of
      None \<Rightarrow> (0, 0, 0)
    | Some rc \<Rightarrow> (rc_Likes rc, rc_Replies rc, rc_Reposts rc))"

definition exactFor :: "bytes \<Rightarrow> DB \<Rightarrow> bool" where
  "exactFor c db \<longleftrightarrow>
     storedCounts c (reaction_counts db) = (countLikes c db, countReplies c db, countReposts c db)"

definition exactBut :: "bytes set \<Rightarrow> DB \<Rightarrow> bool" where
  "exactBut S db \<longleftrightarrow> nofault db \<and> (\<forall>c. c \<notin> S \<longrightarrow> exactFor c db)"

lemma steady_exactBut: "steady (exactBut S)"
  by (simp add: steady_def exactBut_def exactFor_def nofault_def countLikes_def countReplies_def
      countReposts_def)

lemma exactBut_nofault: "exactBut S db \<Longrightarrow> nofault db"
  by (simp add: exactBut_def)

lemma exactBut_frame:
  "posts db' = posts db \<Longrightarrow> reactions db' = reactions db \<Longrightarrow> reaction_counts db' = reaction_counts db \<Longrightarrow>
     db_faults db' = db_faults db \<Longrightarrow> exactBut S db' = exactBut S db"
  by (simp add: exactBut_def exactFor_def nofault_def countLikes_def countReplies_def
      countReposts_def)

lemma exactBut_mono: "exactBut S db \<Longrightarrow> S \<subseteq> T \<Longrightarrow> exactBut T db"
  by (auto simp: exactBut_def)

lemmas exec_exact = triple_execE_sure [OF steady_exactBut exactBut_nofault]

lemma countRows_append [simp]:
  "countRows P (xs @ [r]) = countRows P xs + (if P r then 1 else 0)"
  by (simp add: countRows_def)

lemma InsertPost_exact:
  "triple (exactBut {}) (InsertPost c a t rt ro ts sg) (\<lambda>_. exactBut ({rt, ro} - {[]})) (exactBut {})"
proof -
  have "exactBut ({rt, ro} - {[]}) db'" if "exactBut {} db" "stmtInsertPost c a t rt ro ts sg db = Inr db'"
    for db db'
    using that
    by (auto simp: stmtInsertPost_def exactBut_def exactFor_def nofault_def countLikes_def
        countReplies_def countReposts_def nilIfEmpty_def split: if_splits option.splits)
  note stmt = this
  show ?thesis
    unfolding InsertPost_def
    by (intro triple_wrapE tripleI)
       (auto simp: execE_def steady_tick [OF steady_exactBut] split: option.splits sum.splits
         dest: stmt [rotated])
qed

lemma InsertReaction_exact:
  "triple (exactBut {}) (InsertReaction c a t ty ts) (\<lambda>_. exactBut {t}) (\<lambda>_. False)"
  unfolding InsertReaction_def
  by (intro triple_wrapE exec_exact)
     (auto simp: stmtInsertReaction_def Let_def exactBut_def exactFor_def nofault_def countLikes_def
        countReplies_def countReposts_def)

text \<open>A run of the counter update on a database that does not fail.\<close>

definition countsRow :: "bytes \<Rightarrow> DB \<Rightarrow> ReactionCountRow" where
  "countsRow c db = \<lparr>rc_PostCID = c, rc_Likes = countLikes c db, rc_Replies = countReplies c db,
     rc_Reposts = countReposts c db\<rparr>"

lemma counts_tick [simp]:
  "countLikes c (tick db) = countLikes c db" "countReplies c (tick db) = countReplies c db"
  "countReposts c (tick db) = countReposts c db"
  by (simp_all add: countLikes_def countReplies_def countReposts_def)

lemma UpdateReactionCount_run:
  assumes "nofault db"
  shows "\<exists>n. UpdateReactionCount c db = (Inr (), db\<lparr>reaction_counts :=
    upsertRow rc_PostCID (\<lambda>r. (countsRow c db)\<lparr>rc_PostCID := rc_PostCID r\<rparr>) (countsRow c db)
      (reaction_counts db), db_step := n\<rparr>)"
proof -
  define n where "n = Suc (Suc (Suc (Suc (db_step db))))"
  have n: "tick (tick (tick (tick db))) = db\<lparr>db_step := n\<rparr>" by (simp add: tick_def n_def)
  have nf: "db_faults db = (\<lambda>_. None)" using assms by (simp add: nofault_def)
  show ?thesis
    by (rule exI [of _ n])
       (simp add: UpdateReactionCount_def run_bindE run_wrapE queryE_nofault execE_nofault nf n
         stmtUpsertCounts_def Let_def countsRow_def)
qed

lemma UpdateReactionCount_exact:
  "triple (exactBut S) (UpdateReactionCount c) (\<lambda>_. exactBut (S - {c})) (\<lambda>_. False)"
proof -
  have "exactBut (S - {c}) (db\<lparr>reaction_counts :=
      upsertRow rc_PostCID (\<lambda>r. (countsRow c db)\<lparr>rc_PostCID := rc_PostCID r\<rparr>) (countsRow c db)
      (reaction_counts db), db_step := n\<rparr>)" if "exactBut S db" for db n
    using that
    by (auto simp: exactBut_def exactFor_def storedCounts_def nofault_def countsRow_def rowOf_upsert
        countLikes_def countReplies_def countReposts_def split: option.splits)
  with UpdateReactionCount_run [OF exactBut_nofault] show ?thesis
    unfolding triple_def by (metis Inl_Inr_False prod.inject)
qed

lemma sure_bind: "sure I m \<Longrightarrow> (\<And>y. sure I (k y)) \<Longrightarrow> sure I (bindE m k)"
  by (rule triple_bindE)

lemma sure_ret: "sure I (retE y)"
  by (rule triple_retE)

lemma sure_if: "sure I m \<Longrightarrow> sure I k \<Longrightarrow> sure I (if b then m else k)"
  by simp

lemma sure_other: "sure (onDB I) (emitE on ev)" "sure (onDB I) (indexE m)"
  by (auto simp: triple_def emitE_def indexE_def onDB_def)

lemma exactBut_frameD:
  "exactBut S db \<Longrightarrow> posts db' = posts db \<Longrightarrow> reactions db' = reactions db \<Longrightarrow>
     reaction_counts db' = reaction_counts db \<Longrightarrow> db_faults db' = db_faults db \<Longrightarrow> exactBut S db'"
  using exactBut_frame [of db' db S] by blast

text \<open>
  The operations that leave the posts, the reactions and their counts alone, on a database that does
  not fail: the contract of an invariant that they are sure to keep.
\<close>

locale faultless =
  fixes I :: "DB \<Rightarrow> bool"
  assumes steady: "steady I"
    and nofault: "I db \<Longrightarrow> nofault db"
    and post_media: "I db \<Longrightarrow> I (db\<lparr>post_media := t1\<rparr>)"
    and content_access: "I db \<Longrightarrow> I (db\<lparr>content_access := t2\<rparr>)"
    and notifications: "I db \<Longrightarrow> I (db\<lparr>notifications := t3, notification_seq := q\<rparr>)"
begin

lemma exec: "(\<And>db. I db \<Longrightarrow> \<exists>db'. stmt db = Inr db' \<and> I db') \<Longrightarrow> sure I (execE stmt)"
  by (rule triple_execE_sure [OF steady nofault])

lemma query: "sure I (queryE q)"
  by (rule sure_queryE [OF steady nofault])

lemma InsertPostMedia: "sure I (InsertPostMedia c m i)"
  unfolding InsertPostMedia_def
  by (intro triple_wrapE exec) (simp add: stmtInsertPostMedia_def post_media)

lemma TrackContentAccess: "sure I (TrackContentAccess c b)"
  unfolding TrackContentAccess_def by (intro triple_wrapE exec) (simp add: content_access)

lemma InsertNotification: "sure I (InsertNotification ow ty a tc rc t)"
  unfolding InsertNotification_def
  by (intro triple_wrapE exec) (simp add: stmtInsertNotification_def notifications)

lemmas sures = sure_bind sure_ret sure_if triple_wrapE query TrackContentAccess

lemma track:
  "sure I (TrackContentForAuthor c a)" "sure I (TrackReactionContent c a t)"
  unfolding TrackContentForAuthor_def TrackReactionContent_def ShouldPinAuthor_def IsLocalIdentity_def
    HasLocalSubscription_def lookupPostAuthor_def
  by (intro sures)+

lemma GetPost: "mild I (GetPost c)"
  unfolding GetPost_def queryRowE_def
  by (intro mild_wrapE mild_bindE mild_sure [OF query])
     (simp add: mild_def ErrNoRows_def split: option.splits)

lemma notify:
  "mild (onDB I) (NotifyLike a t c)" "mild (onDB I) (NotifyReply a t c)"
  "mild (onDB I) (NotifyRepost a t c)"
  unfolding NotifyLike_def NotifyReply_def NotifyRepost_def ownerForPost_def insertNotificationNow_def
    emitNotification_def
  by (intro mild_intro mild_dbE GetPost mild_sure [OF InsertNotification] mild_sure [OF sure_other(1)])+

lemma media_links:
  "sure (onDB I) (forE (\<lambda>(i, mediaCID). wrapE p (dbE (InsertPostMedia c mediaCID (int i)))) xs)"
  by (rule sure_forE) (simp add: triple_wrapE sure_dbE [OF InsertPostMedia] split: prod.splits)

lemma track_node:
  "sure (onDB I) (wrapE p (dbE (TrackContentForAuthor c a)))"
  "sure (onDB I) (wrapE p (dbE (TrackReactionContent c a t)))"
  by (intro triple_wrapE sure_dbE track)+

end

interpretation recounted: faultless "exactBut S" for S
  by unfold_locales
     (rule steady_exactBut, erule exactBut_nofault, (erule exactBut_frameD; simp)+)

lemma triple_logE:
  "triple P m (\<lambda>_. Q) (\<lambda>_. False) \<Longrightarrow> triple P (logE m) (\<lambda>_. Q) (\<lambda>_. False)"
  unfolding triple_def logE_def by (fastforce split: prod.splits sum.splits goerr.splits)

lemma triple_node:
  "triple P m (\<lambda>_. Q) (\<lambda>_. False) \<Longrightarrow> triple (onDB P) (dbE m) (\<lambda>_. onDB Q) (\<lambda>_. False)"
  using triple_dbE [of P m "\<lambda>_. Q" "\<lambda>_. False"] by (auto simp: triple_def onDB_def)

lemma triple_weaken_err: "triple P m Q (\<lambda>_. False) \<Longrightarrow> triple P m Q E"
  by (erule triple_conseq) simp_all

text \<open>Notify and recount, as both handlers do for each target.\<close>

lemma recount:
  assumes "mild (onDB (exactBut S)) nt"
  shows "triple (onDB (exactBut S)) (seqE (logE nt) (logE (dbE (UpdateReactionCount c))))
    (\<lambda>_. onDB (exactBut (S - {c}))) (\<lambda>_. False)"
  by (intro triple_seqE [OF sure_logE [OF assms]] triple_logE triple_node UpdateReactionCount_exact)

lemma recount_when:
  assumes "mild (onDB (exactBut S)) nt" "[] \<notin> S"
  shows "triple (onDB (exactBut S))
    (whenE (0 < length c) (seqE (logE nt) (logE (dbE (UpdateReactionCount c)))))
    (\<lambda>_. onDB (exactBut (S - {c}))) (\<lambda>_. False)"
proof (cases c)
  case Nil
  with assms(2) show ?thesis by (simp add: whenE_def triple_retE)
next
  case (Cons b c')
  with recount [OF assms(1), of c] show ?thesis by (simp add: whenE_def)
qed

lemma handlePost_exact: "keeps (onDB (exactBut {})) (handlePost x m)"
proof -
  let ?S = "{po_ReplyTo m, po_RepostOf m} - {[]}" and ?J = "\<lambda>S. onDB (exactBut S)"
  have none: "?S - {po_ReplyTo m} - {po_RepostOf m} = {}" by auto
  have announce: "triple (?J (?S - {po_ReplyTo m} - {po_RepostOf m})) (emitE nd_broadcast ev)
      (\<lambda>_. ?J {}) (\<lambda>_. False)" for ev
    unfolding none by (rule sure_other)
  note tail = triple_weaken_err [OF sure_step [OF recounted.media_links sure_step [OF recounted.track_node(1) sure_step [OF sure_other(2)
    triple_seqE [OF recount_when [OF recounted.notify(2)] triple_seqE [OF recount_when [OF recounted.notify(3)]
      announce]]]]]]
  note ins = triple_wrapE [OF triple_dbE [OF InsertPost_exact]]
  have body: "keeps (?J {}) (bindE (dbE (PostExists (po_Id m))) f)" if "\<And>b. keeps (?J {}) (f b)" for f
    by (intro keeps_bindE keeps_dbE keeps_steady_queries [OF steady_exactBut] that)
  show ?thesis
    unfolding handlePost_def
    by (rule keeps_checked, rule body, rule keeps_if [OF keeps_retE], rule keeps_bindE,
        intro keeps_intro, rule keeps_seqE, intro keeps_intro,
        rule keeps_triple, rule triple_seqE [OF ins tail]) simp_all
qed

lemma handleReaction_exact: "keeps (onDB (exactBut {})) (handleReaction x m)"
proof -
  let ?J = "\<lambda>S. onDB (exactBut S)"
  have none: "{re_Target m} - {re_Target m} = {}" by simp
  have announce: "triple (?J ({re_Target m} - {re_Target m}))
      (seqE (logE (NotifyLike a b c)) (emitE nd_broadcast ev)) (\<lambda>_. ?J {}) (\<lambda>_. False)" for ev a b c
    unfolding none by (rule sure_step [OF sure_logE [OF recounted.notify(1)] sure_other(1)])
  note count = triple_logE [OF triple_node [OF UpdateReactionCount_exact]]
  note tail = triple_weaken_err [OF sure_step [OF recounted.track_node(2) triple_seqE [OF count announce]]]
  note ins = triple_wrapE [OF triple_weaken_err [OF triple_node [OF InsertReaction_exact]]]
  show ?thesis
    unfolding handleReaction_def
    by (rule keeps_checked, rule keeps_bindE, intro keeps_intro, rule keeps_if [OF keeps_retE],
        rule keeps_bindE, intro keeps_intro, rule keeps_seqE, intro keeps_intro,
        rule keeps_triple, rule triple_seqE [OF ins tail])
qed

interpretation counters: people_writer "exactBut {}" x for x
  by unfold_locales
     (rule steady_exactBut, (rule keeps_frame [OF steady_exactBut], erule exactBut_frameD; simp)+)

text \<open>No operation changes the schedule of failures.\<close>

lemma steady_schedule: "steady (\<lambda>db. db_faults db = F)"
  by (simp add: steady_def)

lemma HandleMessage_exact: "keeps (onDB (exactBut {})) (HandleMessage x ft d)"
proof -
  have "keeps (onDB (exactBut {})) (handlePayload x ft m)" for m
    by (cases "(x, ft, m)" rule: handlePayload.cases)
       (simp_all add: handlePost_exact handleReaction_exact counters.handleProfile
         counters.handleFollow counters.handleDM counters.handleMediaObject counters.handleMediaChunk
         keeps_retE)
  then show ?thesis unfolding HandleMessage_def by (intro keeps_intro)
qed

section \<open>A new post is stored and announced\<close>

definition postsAre :: "PostRow list \<Rightarrow> DB \<Rightarrow> bool" where
  "postsAre P db \<longleftrightarrow> nofault db \<and> posts db = P"

interpretation announced: faultless "postsAre P" for P
  by unfold_locales (simp_all add: postsAre_def steady_def nofault_def)

lemma UpdateReactionCount_posts: "sure (postsAre P) (UpdateReactionCount c)"
proof -
  have "\<exists>db'. UpdateReactionCount c db = (Inr (), db') \<and> postsAre P db'" if "postsAre P db" for db
    using UpdateReactionCount_run [of db c] that by (auto simp: postsAre_def nofault_def)
  then show ?thesis unfolding triple_def by (metis Inl_Inr_False prod.inject)
qed

text \<open>What the database operations do not touch.\<close>

definition outside :: "fs \<Rightarrow> path \<Rightarrow> bool \<Rightarrow> Node \<Rightarrow> bool" where
  "outside f b bc n \<longleftrightarrow> nd_fs n = f \<and> nd_base n = b \<and> nd_broadcast n = bc"

lemma keeps_outside [keeps_intro]:
  "keeps (outside f b bc) (dbE m)" "keeps (outside f b bc) (emitE on ev)"
  "keeps (outside f b bc) (indexE ms)"
  by (auto simp: keeps_def dbE_run emitE_def indexE_def outside_def split: prod.splits)

lemma keeps_outside_notify [keeps_intro]:
  "keeps (outside f b bc) (NotifyReply a t c)" "keeps (outside f b bc) (NotifyRepost a t c)"
  unfolding NotifyReply_def NotifyRepost_def ownerForPost_def insertNotificationNow_def
    emitNotification_def
  by (intro keeps_intro)+

text \<open>The statements of \<open>handlePost\<close> between the insertion of the post and the announcement.\<close>

definition postEffects :: "Post \<Rightarrow> (Node, unit) go" where
  "postEffects post =
     seqE (forE (\<lambda>(i, mediaCID). wrapE ''insert post media''
              (dbE (InsertPostMedia (po_Id post) mediaCID (int i)))) (enumerate 0 (po_MediaCids post)))
    (seqE (wrapE ''track post content'' (dbE (TrackContentForAuthor (po_Id post) (po_Author post))))
    (seqE (indexE (MPost post))
    (seqE (whenE (0 < length (po_ReplyTo post))
            (seqE (logE (NotifyReply (po_Author post) (po_ReplyTo post) (po_Id post)))
                  (logE (dbE (UpdateReactionCount (po_ReplyTo post))))))
          (whenE (0 < length (po_RepostOf post))
            (seqE (logE (NotifyRepost (po_Author post) (po_RepostOf post) (po_Id post)))
                  (logE (dbE (UpdateReactionCount (po_RepostOf post)))))))))"

definition postEvent :: "Post \<Rightarrow> event" where
  "postEvent post = (''new_post'',
     [(''id'', EncodeToString (po_Id post)), (''author'', EncodeToString (po_Author post)),
      (''reply_to'', EncodeToString (po_ReplyTo post)), (''repost_of'', EncodeToString (po_RepostOf post))])"

lemma seqE_assoc: "seqE (seqE a b) c = seqE a (seqE b c)"
  by (rule ext) (simp add: run_seqE split: prod.splits sum.splits)

lemma sure_when: "sure I m \<Longrightarrow> sure I (whenE b m)"
  by (simp add: whenE_def triple_retE)

lemma postEffects_sure: "sure (onDB (postsAre P)) (postEffects m)"
  unfolding postEffects_def
  by (intro sure_step [OF announced.media_links] sure_step [OF announced.track_node(1)]
      sure_step [OF sure_other(2)] sure_step [OF sure_when] sure_when
      sure_step [OF sure_logE [OF announced.notify(2)]] sure_step [OF sure_logE [OF announced.notify(3)]]
      triple_logE sure_dbE UpdateReactionCount_posts)

lemma postEffects_outside: "keeps (outside f b bc) (postEffects m)"
  unfolding postEffects_def by (intro keeps_intro)

lemma sure_run:
  assumes "sure I m" "I s"
  shows "\<exists>y s'. m s = (Inr y, s') \<and> I s'"
proof -
  obtain r s' where m: "m s = (r, s')" by force
  with assms show ?thesis by (cases r) (auto dest: tripleD_Inr tripleD_Inl)
qed

lemma handlePost_split:
  "handlePost x m =
     seqE (wrapE ''validate post''
            (checkE (\<lambda>g now. ValidatePost x g now (Some m) (Some (verifySignature x)))))
    (bindE (dbE (PostExists (po_Id m))) (\<lambda>known. if known then retE () else
     bindE (wrapE ''marshal post for CAS'' (liftE (x_marshal x (MPost m)))) (\<lambda>raw.
     seqE (wrapE ''CAS put post'' (casE (\<lambda>b. Put b (po_Id m) raw)))
    (seqE (wrapE ''insert post'' (dbE (InsertPost (po_Id m) (po_Author m) (po_Content m)
            (po_ReplyTo m) (po_RepostOf m) (toInt64 (po_Timestamp m)) (po_Signature m))))
    (seqE (postEffects m) (emitE nd_broadcast (postEvent m)))))))"
  unfolding handlePost_def postEffects_def postEvent_def seqE_assoc ..

lemma PostExists_nofault:
  "nofault db \<Longrightarrow> PostExists c db = (Inr (hasKey p_CID c (posts db)), tick db)"
  using rowOf_None [of p_CID c "posts db"]
  by (auto simp: PostExists_def queryRowE_def queryE_nofault nofault_def run_bindE catchE_def
      ErrNoRows_def split: option.splits)

lemma post_gets_through:
  assumes msg: "x_unmarshalEnvelope x d = Inr (Some (MPost m))"
    and valid: "ValidatePost x (nd_globals n) (nowNanos n) (Some m) (Some (verifySignature x)) = None"
    and new: "\<not> hasKey p_CID (po_Id m) (posts (nd_db n))" and "po_Id m \<noteq> []"
    and known: "hasKey pf_Pubkey (po_Author m) (profiles (nd_db n))"
    and ser: "x_marshal x (MPost m) = Inr raw"
    and db: "db_faults (nd_db n) = (\<lambda>_. None)" and fs: "live (nd_base n) (po_Id m) (nd_fs n)"
  shows "\<exists>n'. HandleMessage x ft d n = (Inr (), n') \<and>
    (\<exists>p\<in>set (posts (nd_db n')). postOf m p) \<and> objects n' (po_Id m) = Some raw \<and>
    (nd_broadcast n \<longrightarrow> last (nd_events n') = postEvent m)"
proof -
  obtain s1 where put: "Put (nd_base n) (po_Id m) raw (nd_fs n) = (Inr (), s1)"
    using Put_live [OF fs assms(4)] by blast
  define row where "row = \<lparr>p_CID = po_Id m, p_Author = po_Author m, p_Content = po_Content m,
    p_ReplyTo = nilIfEmpty (po_ReplyTo m), p_RepostOf = nilIfEmpty (po_RepostOf m),
    p_Timestamp = toInt64 (po_Timestamp m), p_Signature = po_Signature m,
    p_ReceivedAt = now_ms (nd_db n)\<rparr>"
  define n1 where "n1 = n\<lparr>nd_fs := s1, nd_db := (tick (tick (nd_db n)))\<lparr>posts := posts (nd_db n) @ [row]\<rparr>\<rparr>"
  have "checkE (\<lambda>g now. ValidatePost x g now (Some m) (Some (verifySignature x))) n = (Inr (), n)"
    by (simp add: checkE_def valid)
  then have run: "HandleMessage x ft d n = seqE (postEffects m) (emitE nd_broadcast (postEvent m)) n1"
    using new known db
    by (simp add: HandleMessage_def msg handlePost_split dbE_run PostExists_nofault nofault_def ser
        casE_run put InsertPost_def run_wrapE execE_nofault stmtInsertPost_def row_def n1_def)
  have "onDB (postsAre (posts (nd_db n) @ [row])) n1"
    by (simp add: onDB_def postsAre_def nofault_def n1_def db)
  from sure_run [OF postEffects_sure this] obtain n2 where
    n2: "postEffects m n1 = (Inr (), n2)" "posts (nd_db n2) = posts (nd_db n) @ [row]"
    by (auto simp: onDB_def postsAre_def)
  have "outside s1 (nd_base n) (nd_broadcast n) n1" by (simp add: outside_def n1_def)
  then have o2: "outside s1 (nd_base n) (nd_broadcast n) n2"
    by (rule keepsD [OF postEffects_outside _ n2(1)])
  have "objects n2 (po_Id m) = Some raw"
    using o2 cas.put_ok [OF put] by (simp add: objects_def outside_def)
  then show ?thesis
    using o2 run n2 by (auto simp: emitE_def outside_def postOf_def row_def)
qed

text \<open>
  A new post gets through: when a peer sends a post that validates, is not known and whose
  author has a profile here, and neither the database nor the file system fails, processing returns
  without error, whatever its references point to; the post is in the database with the fields of the
  message, the content store holds the serialised message under its identifier, and the last event
  broadcast announces it.
\<close>

theorem new_post_stored:
  assumes msg: "x_unmarshalEnvelope x d = Inr (Some (MPost m))"
    and valid: "ValidatePost x (nd_globals n) (nowNanos n) (Some m) (Some (verifySignature x)) = None"
    and new: "\<not> hasKey p_CID (po_Id m) (posts (nd_db n))" and "po_Id m \<noteq> []"
    and known: "hasKey pf_Pubkey (po_Author m) (profiles (nd_db n))"
    and ser: "x_marshal x (MPost m) = Inr raw"
    and db: "db_faults (nd_db n) = (\<lambda>_. None)" and fs: "live (nd_base n) (po_Id m) (nd_fs n)"
  shows "\<exists>n'. HandleMessage x ft d n = (Inr (), n') \<and>
    (\<exists>p\<in>set (posts (nd_db n')). postOf m p) \<and> objects n' (po_Id m) = Some raw \<and>
    (nd_broadcast n \<longrightarrow> last (nd_events n') = postEvent m)"
  using post_gets_through [OF assms] .

definition postExt :: ext where
  "postExt = exampleExt2\<lparr>x_unmarshalEnvelope := (\<lambda>d. Inr (Some (MPost (signedExample 3)))),
     x_verify := (\<lambda>a p s. True)\<rparr>"

definition postNode :: Node where
  "postNode = exampleNode\<lparr>nd_db := emptyDB\<lparr>profiles := [exampleProfileRow\<lparr>pf_Pubkey := replicate 32 1\<rparr>]\<rparr>\<rparr>"

lemma signedExample_valid':
  "ValidatePost postExt init_vglobals 0 (Some (signedExample b)) (Some (verifySignature postExt)) = None"
proof -
  have "RuneCountInString ''hello'' \<le> MaxContentLength"
    using RuneCountInString_le [of "''hello''"] by (simp add: MaxContentLength_def)
  then show ?thesis
    by (simp add: ValidatePost.simps signedExample_def examplePost_def Ed25519PublicKeySize_def
        checkSigned_None validateTimestamp_def toInt64_def init_vglobals_def MaxFutureSkew_def
        DefaultMaxPastAge_def msec_def Ed25519SignatureSize_def postSigningPayload_def postExt_def
        verifySignature_def exampleExt2_def exampleExt_def exampleMarshal_def verifyCID_None
        ComputeCID_def exampleSum_def)
qed

lemma postNode_simps:
  "nd_globals postNode = init_vglobals" "nowNanos postNode = 0" "posts (nd_db postNode) = []"
  "db_faults (nd_db postNode) = (\<lambda>_. None)" "nd_base postNode = [''cas'']" "nd_fs postNode = exampleFs"
  "profiles (nd_db postNode) = [exampleProfileRow\<lparr>pf_Pubkey := replicate 32 1\<rparr>]"
  by (simp_all add: postNode_def exampleNode_def nowNanos_def emptyDB_def)

theorem new_post_stored_witness:
  "\<exists>n'. HandleMessage postExt exampleFetchers [] postNode = (Inr (), n') \<and>
    (\<exists>p\<in>set (posts (nd_db n')). postOf (signedExample 3) p)"
proof -
  have e: "po_Id (signedExample 3) \<noteq> []" "po_Author (signedExample 3) = replicate 32 1"
    by (simp_all add: signedExample_def examplePost_def)
  have m: "x_unmarshalEnvelope postExt [] = Inr (Some (MPost (signedExample 3)))"
    "x_marshal postExt (MPost (signedExample 3)) = Inr (examplePostBytes (signedExample 3))"
    by (simp_all add: postExt_def exampleExt2_def exampleMarshal_def)
  have v: "ValidatePost postExt (nd_globals postNode) (nowNanos postNode) (Some (signedExample 3))
      (Some (verifySignature postExt)) = None"
    unfolding postNode_simps by (rule signedExample_valid')
  have k: "\<not> hasKey p_CID (po_Id (signedExample 3)) (posts (nd_db postNode))"
    "hasKey pf_Pubkey (po_Author (signedExample 3)) (profiles (nd_db postNode))"
    by (simp_all add: postNode_simps e(2) exampleProfileRow_def)
  have l: "live (nd_base postNode) (po_Id (signedExample 3)) (nd_fs postNode)"
    unfolding postNode_simps by (rule exampleFs_live)
  from new_post_stored [OF m(1) v k(1) e(1) k(2) m(2) postNode_simps(4) l, of exampleFetchers]
  show ?thesis by blast
qed

section \<open>Messages that change nothing\<close>

lemma checkE_reject:
  "v (nd_globals n) (nowNanos n) = Some e \<Longrightarrow> seqE (wrapE p (checkE v)) k n = (Inl (wrap p e), n)"
  by (simp add: checkE_def)

text \<open>
  An invalid message leaves no trace: when the validator of the payload, at the node's clock and
  with its package variables, refuses the message, processing returns an error and the state of the
  node is what it was, tables, stored objects, events and downloads included.
\<close>

theorem rejected_message_ignored:
  assumes "x_unmarshalEnvelope x d = Inr (Some m)"
    and "validateMessage x (nd_globals n) (nowNanos n) m (Some (verifySignature x)) = Some e"
  shows "\<exists>p. HandleMessage x ft d n = (Inl (wrap p e), n)"
proof -
  have "HandleMessage x ft d n = handlePayload x ft (Some m) n"
    by (simp add: HandleMessage_def assms(1))
  moreover have "\<exists>p. handlePayload x ft (Some m) n = (Inl (wrap p e), n)"
    using assms(2)
    by (cases m)
       (auto simp: handlePost_def handleReaction_def handleProfile_def handleFollow_def handleDM_def
         handleMediaObject_def handleMediaChunk_def checkE_reject)
  ultimately show ?thesis by simp
qed

theorem rejected_message_ignored_witness:
  "\<exists>p. HandleMessage followExt exampleFetchers [] (exampleNode\<lparr>nd_nanos := 10 * DefaultMaxPastAge\<rparr>) =
    (Inl (wrap p (wrap ''invalid timestamp'' (Err ''timestamp is in the past''))),
      exampleNode\<lparr>nd_nanos := 10 * DefaultMaxPastAge\<rparr>)"
  by (rule rejected_message_ignored [where m = "MFollowEvent exampleFollow"])
     (simp_all add: followExt_def exampleExt_def exampleNode_def nowNanos_def emptyDB_def
       exampleFollow_def ValidateFollowEvent.simps Ed25519PublicKeySize_def checkSigned_def
       validateTimestamp_def toInt64_def init_vglobals_def MaxFutureSkew_def DefaultMaxPastAge_def
       msec_def)

text \<open>
  C30. A signed message without an identifier stops the node: a reaction or a direct message that
  validates and whose identifier is empty, which the validators allow, makes the processing panic,
  in every state; nothing recovers it.
\<close>

theorem empty_identifier_crash:
  assumes "x_unmarshalEnvelope x d = Inr (Some m)"
    and "validateMessage x (nd_globals n) (nowNanos n) m (Some (verifySignature x)) = None"
    and "(\<exists>r. m = MReaction r \<and> re_Id r = []) \<or> (\<exists>dm. m = MDirectMessage dm \<and> dm_Id dm = [])"
  shows "\<exists>p n'. HandleMessage x ft d n = (Inl (Panic p), n')"
proof -
  have has: "casE (\<lambda>b. Has b []) n = (Inl (Panic ''slice bounds out of range [:2]''), n)"
    by (simp add: casE_run Has_def objectPath_eq)
  show ?thesis
    using assms
    by (auto simp: HandleMessage_def handleReaction_def handleDM_def checkE_def has)
qed

definition namelessReaction :: Reaction where
  "namelessReaction = \<lparr>re_Id = [], re_Author = replicate 32 1, re_Target = [9],
     re_ReactionType = ''like'', re_Timestamp = 0, re_Signature = replicate 64 3\<rparr>"

definition reactionExt :: ext where
  "reactionExt = followExt\<lparr>x_unmarshalEnvelope := (\<lambda>d. Inr (Some (MReaction namelessReaction)))\<rparr>"

theorem empty_identifier_crash_witness:
  "\<exists>p n'. HandleMessage reactionExt exampleFetchers [] exampleNode = (Inl (Panic p), n')"
  by (rule empty_identifier_crash [where m = "MReaction namelessReaction"])
     (simp_all add: reactionExt_def followExt_def exampleExt_def exampleNode_def nowNanos_def
       emptyDB_def namelessReaction_def ValidateReaction.simps Ed25519PublicKeySize_def
       Ed25519SignatureSize_def checkSigned_None validateTimestamp_def toInt64_def init_vglobals_def
       MaxFutureSkew_def DefaultMaxPastAge_def msec_def reactionSigningPayload_def marshalAs_def
       verifySignature_def verifyCID_None)

section \<open>Rows have their message in the store\<close>

definition messageCIDs :: "DB \<Rightarrow> bytes set" where
  "messageCIDs db = p_CID ` set (posts db) \<union> r_CID ` set (reactions db) \<union>
     d_CID ` set (direct_messages db)"

text \<open>\<open>stored E n\<close>: rows have their objects, those of \<open>E\<close> aside.\<close>

definition stored :: "bytes set \<Rightarrow> Node \<Rightarrow> bool" where
  "stored E n \<longleftrightarrow> messageCIDs (nd_db n) \<subseteq> E \<union> dom (objects n)"

text \<open>\<open>held E c n\<close>: the same, and the object \<open>c\<close> is there.\<close>

definition held :: "bytes set \<Rightarrow> bytes \<Rightarrow> Node \<Rightarrow> bool" where
  "held E c n \<longleftrightarrow> stored E n \<and> c \<in> dom (objects n)"

abbreviation within :: "bytes set \<Rightarrow> DB \<Rightarrow> bool" where
  "within D \<equiv> \<lambda>db. messageCIDs db \<subseteq> D"

lemma steady_within: "steady (within D)"
  by (simp add: steady_def messageCIDs_def)

interpretation bounded: ancillary_writer "within D" for D
  by unfold_locales
     (rule steady_within, (rule keeps_frame [OF steady_within]; simp add: messageCIDs_def)+)

lemma within_ops:
  "keeps (within D) (InsertPostMedia c m i)" "keeps (within D) (InsertMediaObject c a mt sz n w h du th ts)"
  "keeps (within D) (UpsertProfile k dn bi av bn ws v ts)" "keeps (within D) (InsertFollowEvent a tg ac ts)"
  "keeps (within D) (UpdateReactionCount c)"
  by (rule keeps_frame [OF steady_within]; simp add: messageCIDs_def)+

lemma within_inserts:
  assumes "c \<in> D"
  shows "keeps (within D) (InsertPost c a t rt ro ts sg)" "keeps (within D) (InsertReaction c a tg ty ts)"
    "keeps (within D) (InsertDM c a rc en no ts)"
  unfolding InsertPost_def InsertReaction_def InsertDM_def
  by (intro keeps_wrapE keeps_execE [OF steady_within];
      use assms in \<open>auto simp: stmtInsertPost_def stmtInsertReaction_def stmtInsertDM_def Let_def
        messageCIDs_def image_subset_iff insertIgnore_def split: if_splits\<close>)+

abbreviation sameObjects :: "(bytes \<Rightarrow> bytes option) \<Rightarrow> Node \<Rightarrow> bool" where
  "sameObjects ob \<equiv> \<lambda>n. objects n = ob"

lemma keeps_sameObjects [keeps_intro]:
  "keeps (sameObjects ob) (dbE m)" "keeps (sameObjects ob) (emitE on ev)"
  "keeps (sameObjects ob) (indexE ms)" "keeps (sameObjects ob) (scheduleMediaPrefetch mo)"
  by (simp_all add: keeps_def dbE_run emitE_def indexE_def scheduleMediaPrefetch_def Let_def
      split: prod.splits)

lemma keeps_sameObjects_Has [keeps_intro]: "keeps (sameObjects ob) (casE (\<lambda>b. Has b c))"
proof (rule keepsI)
  fix n r n'
  assume "objects n = ob" "casE (\<lambda>b. Has b c) n = (r, n')"
  moreover obtain r1 s1 where "Has (nd_base n) c (nd_fs n) = (r1, s1)" by force
  ultimately show "objects n' = ob" using cas.has_pure by (auto simp: casE_run objects_def)
qed

lemma keeps_sameObjects_notify [keeps_intro]:
  "keeps (sameObjects ob) (NotifyLike a t c)" "keeps (sameObjects ob) (NotifyReply a t c)"
  "keeps (sameObjects ob) (NotifyRepost a t c)" "keeps (sameObjects ob) (NotifyFollow a k)"
  "keeps (sameObjects ob) (NotifyDM a k)"
  unfolding NotifyLike_def NotifyReply_def NotifyRepost_def NotifyFollow_def NotifyDM_def
    ownerForPost_def insertNotificationNow_def emitNotification_def
  by (intro keeps_intro)+

lemma keeps_held:
  assumes "\<And>D. c \<in> D \<Longrightarrow> keeps (onDB (within D)) m" "\<And>ob. keeps (sameObjects ob) m"
  shows "keeps (held E c) m"
proof (rule keepsI)
  fix n r n'
  assume h: "held E c n" and run: "m n = (r, n')"
  have o: "objects n' = objects n" by (rule keepsD [OF assms(2) refl run])
  from h have "onDB (within (E \<union> dom (objects n))) n" "c \<in> dom (objects n)"
    by (auto simp: held_def stored_def onDB_def)
  then have "onDB (within (E \<union> dom (objects n))) n'" by (intro keepsD [OF assms(1) _ run] UnI2)
  with h o show "held E c n'" by (simp add: held_def stored_def onDB_def)
qed

lemma keeps_stored:
  assumes "\<And>D. keeps (onDB (within D)) m" "\<And>ob. keeps (sameObjects ob) m"
  shows "keeps (stored E) m"
proof (rule keepsI)
  fix n r n'
  assume h: "stored E n" and run: "m n = (r, n')"
  have o: "objects n' = objects n" by (rule keepsD [OF assms(2) refl run])
  from h have "onDB (within (E \<union> dom (objects n))) n" by (simp add: stored_def onDB_def)
  from keepsD [OF assms(1) this run] o show "stored E n'" by (simp add: stored_def onDB_def)
qed

lemma Put_stored: "triple (stored E) (casE (\<lambda>b. Put b c d)) (\<lambda>_. held E c) (stored E)"
proof (rule tripleI)
  fix n y n'
  assume "stored E n" "casE (\<lambda>b. Put b c d) n = (Inr y, n')"
  then show "held E c n'"
    by (fastforce simp: casE_run objects_def stored_def held_def dest: cas.put_ok split: prod.splits)
next
  fix n e n'
  assume "stored E n" "casE (\<lambda>b. Put b c d) n = (Inl e, n')"
  then show "stored E n'"
    by (fastforce simp: casE_run objects_def stored_def held_def dest: cas.put_err split: prod.splits)
qed

lemma keeps_put_then:
  assumes "keeps (held E c) k"
  shows "keeps (stored E) (seqE (wrapE p (casE (\<lambda>b. Put b c d))) k)"
proof (rule keeps_triple, rule triple_seqE [OF triple_wrapE [OF Put_stored]])
  show "triple (held E c) k (\<lambda>_. stored E) (stored E)"
    by (rule triple_conseq [OF triple_keeps [OF assms]]) (simp_all add: held_def)
qed

lemmas boundedSteps = keeps_intro keeps_dbE bounded.queries bounded.ops bounded.track bounded.notify
  within_ops within_inserts

lemma keeps_stored_dbE: "(\<And>D. keeps (within D) m) \<Longrightarrow> keeps (stored E) (dbE m)"
  by (intro keeps_stored keeps_dbE keeps_sameObjects)

lemma stored_handlers:
  "keeps (stored E) (handlePost x p)" "keeps (stored E) (handleReaction x r)" "keeps (stored E) (handleProfile x f)"
  "keeps (stored E) (handleFollow x e)" "keeps (stored E) (handleDM x d)" "keeps (stored E) (handleMediaObject x ft m)"
  "keeps (stored E) (handleMediaChunk x k)"
proof -
  have has: "keeps (stored E) (casE (\<lambda>b. Has b c))" for c
    by (intro keeps_stored keeps_intro)
  show "keeps (stored E) (handlePost x p)"
    unfolding handlePost_def
    by (rule keeps_checked, rule keeps_bindE, rule keeps_stored_dbE, rule bounded.queries,
        rule keeps_if, rule keeps_retE, rule keeps_bindE, intro keeps_intro, rule keeps_put_then,
        rule keeps_held, (intro boundedSteps; assumption)+)
  show "keeps (stored E) (handleReaction x r)"
    unfolding handleReaction_def
    by (rule keeps_checked, rule keeps_bindE, rule has, rule keeps_if, rule keeps_retE,
        rule keeps_bindE, intro keeps_intro, rule keeps_put_then, rule keeps_held,
        (intro boundedSteps; assumption)+)
  show "keeps (stored E) (handleDM x d)"
    unfolding handleDM_def
    by (rule keeps_checked, rule keeps_bindE, rule has, rule keeps_if, rule keeps_retE,
        rule keeps_bindE, intro keeps_intro, rule keeps_put_then, rule keeps_held,
        (intro boundedSteps; assumption)+)
  show "keeps (stored E) (handleProfile x f)"
    unfolding handleProfile_def
    by (rule keeps_checked, rule keeps_bindE, rule keeps_wrapE, rule keeps_stored_dbE, rule bounded.queries,
        rule keeps_case_prod, rule keeps_if, rule keeps_retE, rule keeps_bindE, intro keeps_intro,
        rule keeps_put_then, rule keeps_held, (intro boundedSteps)+)
  show "keeps (stored E) (handleFollow x e)"
    unfolding handleFollow_def
    by (rule keeps_checked, rule keeps_stored, (intro boundedSteps)+)
  show "keeps (stored E) (handleMediaObject x ft m)"
    unfolding handleMediaObject_def
    by (rule keeps_checked, rule keeps_stored, (intro boundedSteps)+)
  show "keeps (stored E) (handleMediaChunk x k)"
    unfolding handleMediaChunk_def
    by (rule keeps_checked, rule keeps_put_then, rule keeps_held, (intro boundedSteps)+)
qed

text \<open>
  C8. What a message adds to the database, the node can serve: after one message is processed, with any failure
  of the file system or the database and from any state, every post, reaction and direct message row has an
  object in the content store under its identifier, except rows that were there before and had none (their
  content was evicted, or they were written in another way), because the object is written before the row
  and no message removes one. Eviction that runs at the same time is not considered.
\<close>

theorem rows_have_objects:
  assumes "HandleMessage x ft d n = (r, n')"
  shows "messageCIDs (nd_db n') \<subseteq> dom (objects n') \<union> (messageCIDs (nd_db n) - dom (objects n))"
proof -
  let ?E = "messageCIDs (nd_db n) - dom (objects n)"
  have "keeps (stored ?E) (handlePayload x ft m)" for m
    by (cases "(x, ft, m)" rule: handlePayload.cases) (simp_all add: stored_handlers keeps_retE)
  then have "keeps (stored ?E) (HandleMessage x ft d)" unfolding HandleMessage_def by (intro keeps_intro)
  moreover have "stored ?E n" by (auto simp: stored_def)
  ultimately have "stored ?E n'" using assms by (meson keepsD)
  then show ?thesis by (simp add: stored_def Un_commute)
qed

theorem rows_have_objects_witness:
  "messageCIDs (nd_db (snd (HandleMessage postExt exampleFetchers [] postNode)))
     \<subseteq> dom (objects (snd (HandleMessage postExt exampleFetchers [] postNode))) \<union>
       (messageCIDs (nd_db postNode) - dom (objects postNode))"
  by (rule rows_have_objects [OF prod.collapse [symmetric]])

end
