(* ===== verification/Feed.thy ===== *)
theory Feed
  imports HandlerRuns
begin

text \<open>
  \<open>pkg/feed\<close>: the subscription manager, the timeline and the assembler that enrich posts, the replicator
  with its eviction loop, and the historical synchronisation. The callbacks into the peer-to-peer
  layer are arguments, or fields of the node that may fail.
\<close>

section \<open>Subscriptions (\<open>manager.go\<close>)\<close>

text \<open>A call of \<open>OnSubscribe\<close> or \<open>OnUnsubscribe\<close>, when it is set.\<close>

definition topicE :: "(Node \<Rightarrow> bool) \<Rightarrow> bool \<Rightarrow> string \<Rightarrow> (Node, unit) go" where
  "topicE isSet sub pubkeyHex = (\<lambda>n.
     if \<not> isSet n then (Inr (), n)
     else let n' = n\<lparr>nd_topicCalls := nd_topicCalls n @ [(sub, pubkeyHex)]\<rparr>
          in case nd_topicFaults n (length (nd_topicCalls n)) of
               Some e \<Rightarrow> (Inl e, n')
             | None \<Rightarrow> (Inr (), n'))"

definition ReloadSubscriptions :: "bytes \<Rightarrow> (Node, unit) go" where
  "ReloadSubscriptions ownerPubkey =
     bindE (wrapE ''load subscriptions'' (dbE (GetSubscriptions ownerPubkey))) (\<lambda>subs.
     let nxt = remdups (map (\<lambda>s. EncodeToString (s_Pubkey s)) subs) in
     bindE (getE nd_subscribers) (\<lambda>current.
     seqE (modifyE (\<lambda>n. n\<lparr>nd_subscribers := nxt\<rparr>))
    (seqE (forE (\<lambda>k. if k \<in> set nxt then retE ()
              else wrapE ''unsubscribe from topic'' (topicE nd_onUnsubscribe False k)) current)
          (forE (\<lambda>k. if k \<in> set current then retE ()
              else wrapE ''subscribe to topic'' (topicE nd_onSubscribe True k)) nxt))))"

definition Manager_Follow :: "bytes \<Rightarrow> bytes \<Rightarrow> int \<Rightarrow> (Node, unit) go" where
  "Manager_Follow ownerPubkey pubkey timestamp =
     (let hexKey = EncodeToString pubkey in
      bindE (getE (\<lambda>n. hexKey \<in> set (nd_subscribers n))) (\<lambda>alreadyFollowing.
      if alreadyFollowing then retE ()
      else seqE (wrapE ''add subscription'' (dbE (AddSubscription ownerPubkey pubkey timestamp)))
          (seqE (modifyE (\<lambda>n. n\<lparr>nd_subscribers := nd_subscribers n @ [hexKey]\<rparr>))
                (wrapE ''subscribe to topic'' (topicE nd_onSubscribe True hexKey)))))"

definition Manager_Unfollow :: "bytes \<Rightarrow> bytes \<Rightarrow> (Node, unit) go" where
  "Manager_Unfollow ownerPubkey pubkey =
     (let hexKey = EncodeToString pubkey in
      bindE (getE (\<lambda>n. hexKey \<in> set (nd_subscribers n))) (\<lambda>isFollowing.
      if \<not> isFollowing then retE ()
      else seqE (wrapE ''remove subscription'' (dbE (RemoveSubscription ownerPubkey pubkey)))
          (seqE (modifyE (\<lambda>n. n\<lparr>nd_subscribers := removeAll hexKey (nd_subscribers n)\<rparr>))
                (wrapE ''unsubscribe from topic'' (topicE nd_onUnsubscribe False hexKey)))))"

definition IsFollowing :: "bytes \<Rightarrow> Node \<Rightarrow> bool" where
  "IsFollowing pubkey n \<longleftrightarrow> EncodeToString pubkey \<in> set (nd_subscribers n)"

definition FollowedPubkeys :: "Node \<Rightarrow> string list" where
  "FollowedPubkeys n = nd_subscribers n"

section \<open>Timelines (\<open>timeline.go\<close>, \<open>assembler.go\<close>)\<close>

record TimelineEntry =
  te_Post :: PostRow
  te_AuthorName :: string
  te_LikeCount :: int
  te_ReplyCount :: int
  te_RepostCount :: int
  te_IsLiked :: bool
  te_IsReposted :: bool

text \<open>\<open>hex.EncodeToString(author)[:16] + "..."\<close>, which panics on an author of less than eight bytes.\<close>

definition shortName :: "bytes \<Rightarrow> goerr + string" where
  "shortName author =
     (if length (EncodeToString author) < 16 then Inl (Panic ''slice bounds out of range [:16]'')
      else Inr (take 16 (EncodeToString author) @ ''...''))"

definition authorName :: "bytes \<Rightarrow> (DB, string) go" where
  "authorName author =
     bindE (catchE (GetProfile author) (\<lambda>_. retE None)) (\<lambda>profile. case profile of
       Some p \<Rightarrow> retE (pf_DisplayName p)
     | None \<Rightarrow> liftE (shortName author))"

definition enrichPost :: "bytes \<Rightarrow> PostRow \<Rightarrow> (DB, TimelineEntry) go" where
  "enrichPost ownPubkey post =
     bindE (authorName (p_Author post)) (\<lambda>name.
     bindE (catchE (GetFullReactionCounts (p_CID post)) (\<lambda>_. retE (0, 0, 0)))
       (\<lambda>(likes, replies, reposts).
     bindE (HasReacted ownPubkey (p_CID post) ''like'') (\<lambda>liked.
     bindE (HasReacted ownPubkey (p_CID post) ''repost'') (\<lambda>reposted.
     retE \<lparr>te_Post = post, te_AuthorName = name, te_LikeCount = likes, te_ReplyCount = replies,
           te_RepostCount = reposts, te_IsLiked = liked, te_IsReposted = reposted\<rparr>))))"

fun mapE :: "('a \<Rightarrow> ('s, 'b) go) \<Rightarrow> 'a list \<Rightarrow> ('s, 'b list) go" where
  "mapE f [] = retE []"
| "mapE f (y # ys) = bindE (f y) (\<lambda>z. bindE (mapE f ys) (\<lambda>zs. retE (z # zs)))"

definition enrichPostsForPubkey :: "PostRow list \<Rightarrow> bytes \<Rightarrow> (DB, TimelineEntry list) go" where
  "enrichPostsForPubkey rows ownPubkey = mapE (enrichPost ownPubkey) rows"

text \<open>The limits of a page: 20 by default, at most 100.\<close>

definition clampLimit :: "int \<Rightarrow> int" where
  "clampLimit limit =
     (let l = (if limit \<le> 0 then 20 else limit) in if 100 < l then 100 else l)"

definition GetFeedForPubkey :: "bytes \<Rightarrow> int \<Rightarrow> int \<Rightarrow> (DB, TimelineEntry list) go" where
  "GetFeedForPubkey ownerPubkey before limit =
     bindE (wrapE ''get subscriptions'' (GetSubscriptions ownerPubkey)) (\<lambda>subs.
     let authors = map s_Pubkey subs @ (if 0 < length ownerPubkey then [ownerPubkey] else []) in
     bindE (wrapE ''get feed'' (GetFeed authors before (clampLimit limit))) (\<lambda>rows.
     enrichPostsForPubkey rows ownerPubkey))"

definition GetGlobalFeedForPubkey :: "bytes \<Rightarrow> int \<Rightarrow> int \<Rightarrow> (DB, TimelineEntry list) go" where
  "GetGlobalFeedForPubkey ownerPubkey before limit =
     bindE (wrapE ''get global feed'' (GetAllPosts before (clampLimit limit))) (\<lambda>rows.
     enrichPostsForPubkey rows ownerPubkey)"

definition GetUserPostsForPubkey :: "bytes \<Rightarrow> bytes \<Rightarrow> int \<Rightarrow> int \<Rightarrow> (DB, TimelineEntry list) go" where
  "GetUserPostsForPubkey ownerPubkey pubkey before limit =
     bindE (wrapE ''get user posts''
       (GetPostsByAuthor pubkey before (if limit \<le> 0 then 20 else limit))) (\<lambda>rows.
     enrichPostsForPubkey rows ownerPubkey)"

text \<open>The key pair held by the identity holder, if any, gives the active public key.\<close>

definition activePubkey :: "bytes option \<Rightarrow> bytes" where
  "activePubkey active = (case active of None \<Rightarrow> [] | Some pk \<Rightarrow> pk)"

definition Timeline_GetFeed :: "bytes option \<Rightarrow> int \<Rightarrow> int \<Rightarrow> (DB, TimelineEntry list) go" where
  "Timeline_GetFeed active before limit = GetFeedForPubkey (activePubkey active) before limit"

definition Timeline_GetGlobalFeed :: "bytes option \<Rightarrow> int \<Rightarrow> int \<Rightarrow> (DB, TimelineEntry list) go" where
  "Timeline_GetGlobalFeed active before limit = GetGlobalFeedForPubkey (activePubkey active) before limit"

definition Timeline_GetUserPosts ::
  "bytes option \<Rightarrow> bytes \<Rightarrow> int \<Rightarrow> int \<Rightarrow> (DB, TimelineEntry list) go" where
  "Timeline_GetUserPosts active pubkey before limit =
     GetUserPostsForPubkey (activePubkey active) pubkey before limit"

definition AssemblePost :: "bytes \<Rightarrow> PostRow \<Rightarrow> (DB, TimelineEntry) go" where
  "AssemblePost ownPubkey post =
     bindE (authorName (p_Author post)) (\<lambda>name.
     bindE (GetReactionCount (p_CID post)) (\<lambda>likes.
     bindE (HasReacted ownPubkey (p_CID post) ''like'') (\<lambda>liked.
     bindE (HasReacted ownPubkey (p_CID post) ''repost'') (\<lambda>reposted.
     retE \<lparr>te_Post = post, te_AuthorName = name, te_LikeCount = likes, te_ReplyCount = 0,
           te_RepostCount = 0, te_IsLiked = liked, te_IsReposted = reposted\<rparr>))))"

definition AssemblePosts :: "bytes \<Rightarrow> PostRow list \<Rightarrow> (DB, TimelineEntry list) go" where
  "AssemblePosts ownPubkey rows = mapE (AssemblePost ownPubkey) rows"

section \<open>Replication and eviction (\<open>replicator.go\<close>)\<close>

definition SetStorageLimit :: "int \<Rightarrow> int" where
  "SetStorageLimit maxBytes = (if maxBytes < 0 then 0 else maxBytes)"

text \<open>\<open>mhDecode\<close> is \<open>multihash.Decode\<close> succeeding, \<open>fetcher\<close> the callback into the network.\<close>

definition fetchAndStore ::
  "ext \<Rightarrow> (bytes \<Rightarrow> bool) \<Rightarrow> (string \<Rightarrow> goerr + bytes) \<Rightarrow> string \<Rightarrow> (Node, unit) go" where
  "fetchAndStore x mhDecode fetcher cidHex =
     bindE (wrapE ''fetch'' (liftE (fetcher cidHex))) (\<lambda>data.
     bindE (wrapE ''parse CID'' (liftE (HexToCID mhDecode cidHex))) (\<lambda>cidBytes.
     if \<not> ValidateCID (x_sum x) cidBytes data then throwE (Err ''CID mismatch'')
     else seqE (wrapE ''store'' (casE (\<lambda>b. Put b cidBytes data)))
               (wrapE ''track'' (dbE (TrackContentAccess cidBytes False)))))"

definition PinContent :: "bytes \<Rightarrow> (Node, unit) go" where
  "PinContent cid = wrapE ''pin content'' (dbE (SetContentPinned cid True))"

definition UnpinContent :: "bytes \<Rightarrow> (Node, unit) go" where
  "UnpinContent cid = wrapE ''unpin content'' (dbE (SetContentPinned cid False))"

definition FetchMissingContent ::
  "ext \<Rightarrow> (bytes \<Rightarrow> bool) \<Rightarrow> (string \<Rightarrow> goerr + bytes) option \<Rightarrow> bytes \<Rightarrow> (Node, unit) go" where
  "FetchMissingContent x mhDecode onFetch authorPubkey = (case onFetch of
      None \<Rightarrow> throwE (Err ''OnFetchContent callback not set'')
    | Some fetcher \<Rightarrow>
        bindE (wrapE ''get posts for replication'' (dbE (GetPostsByAuthor authorPubkey 0 1000))) (\<lambda>rows.
        forE (\<lambda>post. bindE (casE (\<lambda>b. Has b (p_CID post))) (\<lambda>present.
          if present then retE ()
          else logE (fetchAndStore x mhDecode fetcher (EncodeToString (p_CID post))))) rows))"

text \<open>The loop body that both eviction routines share: errors are logged or dropped.\<close>

definition evictOne :: "bytes \<Rightarrow> (Node, unit) go" where
  "evictOne cid = seqE (logE (casE (\<lambda>b. Delete b cid))) (logE (dbE (DeleteContentAccess cid)))"

definition EvictStaleContent :: "int \<Rightarrow> (Node, unit) go" where
  "EvictStaleContent maxBytes =
     bindE (wrapE ''get LRU content for eviction'' (dbE (GetLRUContent 100))) (forE evictOne)"

definition casSize :: "Node \<Rightarrow> int" where
  "casSize n = DirSize (nd_fs n) (nd_base n)"

text \<open>One round of the loop of \<open>checkAndEvict\<close>: \<open>True\<close> when it breaks.\<close>

definition evictRound :: "(Node, bool) go" where
  "evictRound =
     bindE (catchE (dbE (GetLRUContent 100)) (\<lambda>_. retE [])) (\<lambda>items.
     if length items = 0 then retE True else seqE (forE evictOne items) (retE False))"

lemma DirSize_nonneg: "0 \<le> DirSize s p"
  unfolding DirSize_def by (rule sum_list_nonneg) (auto split: fnode.splits)

text \<open>
  The loop. A panic of a deletion ends it; the size is measured again after each round, and the
  loop goes on only when it shrank, so it ends.
\<close>

function evictLoop :: "int \<Rightarrow> int \<Rightarrow> (Node, unit) go" where
  "evictLoop targetBytes currentSize n =
     (if currentSize \<le> targetBytes then (Inr (), n)
      else case evictRound n of
          (Inl e, n') \<Rightarrow> (Inl e, n')
        | (Inr True, n') \<Rightarrow> (Inr (), n')
        | (Inr False, n') \<Rightarrow>
            (if currentSize \<le> casSize n' then (Inr (), n') else evictLoop targetBytes (casSize n') n'))"
  by pat_completeness auto

termination
proof (relation "measure (\<lambda>(t, c, n). nat c)")
  fix t c n r n' b and n2 :: Node
  assume "\<not> c \<le> casSize n2"
  then show "((t, casSize n2, n2), (t, c, n)) \<in> measure (\<lambda>(t, c, n). nat c)"
    using DirSize_nonneg [of "nd_fs n2" "nd_base n2"] by (simp add: casSize_def)
qed simp

declare evictLoop.simps [simp del]

text \<open>What a round keeps, the loop keeps.\<close>

lemma keeps_evictLoop:
  assumes "keeps I evictRound"
  shows "I n \<Longrightarrow> I (snd (evictLoop t cur n))"
proof (induction t cur n rule: evictLoop.induct)
  case (1 t cur n)
  obtain r n' where e: "evictRound n = (r, n')" by force
  have s: "I n'" using keepsD [OF assms "1.prems" e] .
  show ?case
    using "1.IH" [OF _ e [symmetric]] "1.prems" e s
    by (subst evictLoop.simps) (auto split: sum.splits bool.splits)
qed

text \<open>
  \<open>checkAndEvict\<close>. The target, \<open>int64(float64(maxBytes) * 0.85)\<close>, is computed in floating point and
  is the function \<open>target\<close> here; what is proved does not depend on it.
\<close>

definition checkAndEvict :: "(int \<Rightarrow> int) \<Rightarrow> int \<Rightarrow> (Node, unit) go" where
  "checkAndEvict target maxBytes = (\<lambda>n.
     if casSize n \<le> maxBytes then (Inr (), n)
     else evictLoop (target maxBytes) (casSize n) n)"

lemma keeps_checkAndEvict: "keeps I evictRound \<Longrightarrow> keeps I (checkAndEvict target maxBytes)"
  using keeps_evictLoop [of I] by (simp (no_asm) add: keeps_def checkAndEvict_def) blast

section \<open>Historical synchronisation (\<open>sync.go\<close>)\<close>

definition defaultSyncInterval :: int where "defaultSyncInterval = 30 * 1000000000"
definition maxSyncBackoff :: int where "maxSyncBackoff = 10 * 60 * 1000000000"

definition MarkSyncComplete :: "bytes \<Rightarrow> bytes \<Rightarrow> (Node, unit) go" where
  "MarkSyncComplete ownerPubkey pubkey =
     wrapE ''mark sync complete'' (dbE (MarkSyncCompleted ownerPubkey pubkey))"

text \<open>\<open>cancelled i\<close>: the context is done when the loop looks at it before the i-th identifier.\<close>

definition syncItem ::
  "ext \<Rightarrow> (bytes \<Rightarrow> bool) \<Rightarrow> (string \<Rightarrow> goerr + bytes) \<Rightarrow> (nat \<Rightarrow> bool) \<Rightarrow> nat \<times> string \<Rightarrow> (Node, unit) go" where
  "syncItem x mhDecode fetcher cancelled item = (case item of (i, cidHex) \<Rightarrow>
     if cancelled i then throwE (Err ''context canceled'')
     else bindE (case DecodeString cidHex of
                   Inl e \<Rightarrow> retE False
                 | Inr cidBytes \<Rightarrow> casE (\<lambda>b. Has b cidBytes)) (\<lambda>present.
       if present then retE () else logE (fetchAndStore x mhDecode fetcher cidHex)))"

definition SyncPublisher ::
  "ext \<Rightarrow> (bytes \<Rightarrow> bool) \<Rightarrow> (string \<Rightarrow> goerr + string list) option \<Rightarrow> (string \<Rightarrow> goerr + bytes) option
     \<Rightarrow> (nat \<Rightarrow> bool) \<Rightarrow> bytes \<Rightarrow> (Node, unit) go" where
  "SyncPublisher x mhDecode onDiscover onFetch cancelled pubkey = (case onDiscover of
      None \<Rightarrow> throwE (Err ''OnDiscoverContent callback not set'')
    | Some discover \<Rightarrow> (case onFetch of
        None \<Rightarrow> throwE (Err ''OnFetchContent callback not set on replicator'')
      | Some fetcher \<Rightarrow>
          bindE (wrapE ''discover publisher content'' (liftE (discover (EncodeToString pubkey))))
            (\<lambda>cidHexList.
          seqE (forE (syncItem x mhDecode fetcher cancelled) (enumerate 0 cidHexList))
               (MarkSyncComplete [] pubkey))))"

definition Syncer_GetPendingSyncs :: "bytes \<Rightarrow> (Node, bytes list) go" where
  "Syncer_GetPendingSyncs ownerPubkey =
     bindE (wrapE ''get pending syncs'' (dbE (GetPendingSyncs ownerPubkey))) (\<lambda>subs.
       retE (map s_Pubkey subs))"

text \<open>
  \<open>nextBackoff\<close> in nanoseconds; \<open>jitter\<close> is what \<open>rand.Int63n(current / 2)\<close> returned. \<open>rand.Int63n\<close>
  panics on an argument that is not positive. No product overflows below \<open>maxSyncBackoff\<close>.
\<close>

definition nextBackoff :: "int \<Rightarrow> int \<Rightarrow> int \<Rightarrow> goerr + int" where
  "nextBackoff current mx jitter =
     (if 0 < current \<and> current div 2 \<le> 0 then Inl (Panic ''invalid argument to Int63n'')
      else let nxt = current * 2 + (if 0 < current then jitter else 0)
           in Inr (if mx < nxt then mx else nxt))"

text \<open>
  One iteration of \<open>StartBackgroundSync\<close>: the listing may fail, each publisher's synchronisation may
  fail, and the next waiting time follows.
\<close>

definition backgroundSyncRound ::
  "(Node, bytes list) go \<Rightarrow> (bytes \<Rightarrow> (Node, unit) go) \<Rightarrow> int \<Rightarrow> int \<Rightarrow> Node \<Rightarrow> (goerr + int) \<times> Node" where
  "backgroundSyncRound pending sync backoff jitter n = (case pending n of
      (Inl (Panic p), n1) \<Rightarrow> (Inl (Panic p), n1)
    | (Inl (Err e), n1) \<Rightarrow> (nextBackoff backoff maxSyncBackoff jitter, n1)
    | (Inr pubkeys, n1) \<Rightarrow>
        (case mapE (\<lambda>pk. catchE (seqE (sync pk) (retE False)) (\<lambda>_. retE True)) pubkeys n1 of
           (Inl e, n2) \<Rightarrow> (Inl e, n2)
         | (Inr failed, n2) \<Rightarrow>
             (if True \<in> set failed then nextBackoff backoff maxSyncBackoff jitter
              else Inr defaultSyncInterval, n2)))"

end
