(* ===== verification/Identity.thy ===== *)
theory Identity
  imports Validators
begin

text \<open>
  The key pairs of \<open>pkg/identity\<close>: construction from a seed (\<open>keypair.go\<close>), signing
  (\<open>signing.go\<close>) and the encryption of direct messages (\<open>encryption.go\<close>). The primitives are
  arguments: \<open>ed25519.Sign\<close> is in the record \<open>ext\<close>, the others in the record \<open>crypto\<close>.
\<close>

section \<open>Key pairs\<close>

text \<open>
  \<open>cr_edPublic\<close> is the public half of \<open>ed25519.NewKeyFromSeed\<close>, \<open>cr_sha512\<close> is \<open>sha512.Sum512\<close>,
  \<open>cr_montgomery\<close> is \<open>Point.SetBytes\<close> followed by \<open>BytesMontgomery\<close>, \<open>cr_seal\<close> and \<open>cr_open\<close> are
  \<open>box.Seal\<close> and \<open>box.Open\<close> with message, nonce, the peer's public and the own private key, and
  \<open>cr_base\<close> is the public key that belongs to a private key of the box.
\<close>

record crypto =
  cr_edPublic :: "bytes \<Rightarrow> bytes"
  cr_sha512 :: "bytes \<Rightarrow> bytes"
  cr_montgomery :: "bytes \<Rightarrow> goerr + bytes"
  cr_base :: "bytes \<Rightarrow> bytes"
  cr_seal :: "bytes \<Rightarrow> bytes \<Rightarrow> bytes \<Rightarrow> bytes \<Rightarrow> bytes"
  cr_open :: "bytes \<Rightarrow> bytes \<Rightarrow> bytes \<Rightarrow> bytes \<Rightarrow> bytes option"

record KeyPair =
  kp_PrivateKey :: bytes
  kp_PublicKey :: bytes

definition SeedSize :: nat where "SeedSize = 32"
definition PrivateKeySize :: nat where "PrivateKeySize = 64"

text \<open>The private key is the seed followed by the public key.\<close>

definition KeyPairFromSeed :: "crypto \<Rightarrow> bytes \<Rightarrow> goerr + KeyPair" where
  "KeyPairFromSeed cr seed =
     (if length seed \<noteq> SeedSize then Inl (Err ''seed must be 32 bytes'')
      else Inr \<lparr>kp_PrivateKey = seed @ cr_edPublic cr seed, kp_PublicKey = cr_edPublic cr seed\<rparr>)"

text \<open>\<open>PrivateKey.Public\<close> copies the bytes from 32 on; on a shorter key the slice is out of range.\<close>

definition KeyPairFromPrivateKey :: "bytes \<Rightarrow> goerr + KeyPair" where
  "KeyPairFromPrivateKey privKey =
     (if length privKey < SeedSize then Inl (Panic ''slice bounds out of range'')
      else Inr \<lparr>kp_PrivateKey = privKey,
        kp_PublicKey = take 32 (drop SeedSize privKey @ replicate 32 0)\<rparr>)"

definition PublicKeyBytes :: "KeyPair \<Rightarrow> bytes" where
  "PublicKeyBytes kp = kp_PublicKey kp"

section \<open>Signatures\<close>

definition SignProtoMessage :: "ext \<Rightarrow> KeyPair option \<Rightarrow> bytes \<Rightarrow> goerr + bytes" where
  "SignProtoMessage x kpo msg = (case kpo of
      None \<Rightarrow> Inl (Err ''key pair is nil'')
    | Some kp \<Rightarrow>
        if length (kp_PrivateKey kp) \<noteq> PrivateKeySize then Inl (Err ''invalid private key size'')
        else Inr (x_sign x (kp_PrivateKey kp) msg))"

section \<open>Encryption of direct messages\<close>

text \<open>
  \<open>h[0] &= 248; h[31] &= 127; h[31] |= 64\<close> and the first 32 bytes of the hash. \<open>Seed\<close> slices the
  first 32 bytes of the key, which panics on a shorter one.
\<close>

definition clampScalar :: "bytes \<Rightarrow> bytes" where
  "clampScalar h = (let h1 = h[0 := and (h ! 0) 248]; h2 = h1[31 := and (h1 ! 31) 127];
     h3 = h2[31 := or (h2 ! 31) 64] in take 32 h3)"

definition Ed25519PrivateKeyToX25519 :: "crypto \<Rightarrow> bytes \<Rightarrow> goerr + bytes" where
  "Ed25519PrivateKeyToX25519 cr privKey =
     (if length privKey < SeedSize then Inl (Panic ''slice bounds out of range'')
      else Inr (clampScalar (cr_sha512 cr (take SeedSize privKey))))"

definition Ed25519PublicKeyToX25519 :: "crypto \<Rightarrow> bytes \<Rightarrow> goerr + bytes" where
  "Ed25519PublicKeyToX25519 cr pubKey = (case cr_montgomery cr pubKey of
      Inl e \<Rightarrow> Inl (wrap ''failed to parse ed25519 public key'' e)
    | Inr montBytes \<Rightarrow> Inr montBytes)"

text \<open>\<open>rnd\<close> is the outcome of \<open>rand.Read\<close>: an error or the 24 bytes of the nonce.\<close>

definition EncryptDM ::
  "crypto \<Rightarrow> goerr + bytes \<Rightarrow> bytes \<Rightarrow> bytes \<Rightarrow> bytes \<Rightarrow> goerr + bytes \<times> bytes" where
  "EncryptDM cr rnd senderPrivKey recipientPubKey plaintext =
     (case Ed25519PrivateKeyToX25519 cr senderPrivKey of
        Inl e \<Rightarrow> Inl e
      | Inr senderX25519 \<Rightarrow>
     (case Ed25519PublicKeyToX25519 cr recipientPubKey of
        Inl e \<Rightarrow> Inl (wrap ''failed to convert recipient public key'' e)
      | Inr recipientX25519 \<Rightarrow>
     (case rnd of
        Inl e \<Rightarrow> Inl (wrap ''failed to generate nonce'' e)
      | Inr nonce \<Rightarrow> Inr (cr_seal cr plaintext nonce recipientX25519 senderX25519, nonce))))"

definition DecryptDM :: "crypto \<Rightarrow> bytes \<Rightarrow> bytes \<Rightarrow> bytes \<Rightarrow> bytes \<Rightarrow> goerr + bytes" where
  "DecryptDM cr recipientPrivKey senderPubKey ciphertext nonce =
     (case Ed25519PrivateKeyToX25519 cr recipientPrivKey of
        Inl e \<Rightarrow> Inl e
      | Inr recipientX25519 \<Rightarrow>
     (case Ed25519PublicKeyToX25519 cr senderPubKey of
        Inl e \<Rightarrow> Inl (wrap ''failed to convert sender public key'' e)
      | Inr senderX25519 \<Rightarrow>
     (case cr_open cr ciphertext nonce senderX25519 recipientX25519 of
        None \<Rightarrow> Inl (Err ''decryption failed: invalid ciphertext or keys'')
      | Some plaintext \<Rightarrow> Inr plaintext)))"

subsection \<open>What is assumed of the primitives\<close>

text \<open>
  \<open>goodBox\<close>: the documented behaviour of the box. A hash has 64 bytes, a public key 32; the Montgomery form of an
  ed25519 public key is the public key of the clamped hash of its seed (RFC 7748, RFC 8032); what was
  sealed for a peer is opened by the peer with the sender's public key, and, the shared key being the
  same on both sides, by the sender with the peer's.
\<close>

definition goodBox :: "crypto \<Rightarrow> bool" where
  "goodBox cr \<longleftrightarrow>
     (\<forall>m. length (cr_sha512 cr m) = 64) \<and> (\<forall>seed. length (cr_edPublic cr seed) = 32) \<and>
     (\<forall>seed. length seed = SeedSize \<longrightarrow>
        cr_montgomery cr (cr_edPublic cr seed) =
          Inr (cr_base cr (clampScalar (cr_sha512 cr seed)))) \<and>
     (\<forall>m n a b. cr_open cr (cr_seal cr m n (cr_base cr b) a) n (cr_base cr a) b = Some m) \<and>
     (\<forall>m n a b. cr_open cr (cr_seal cr m n (cr_base cr b) a) n (cr_base cr b) a = Some m)"

lemma fromSeed_x25519:
  assumes "goodBox cr" "KeyPairFromSeed cr seed = Inr kp"
  shows "Ed25519PrivateKeyToX25519 cr (kp_PrivateKey kp) = Inr (clampScalar (cr_sha512 cr seed))"
    "Ed25519PublicKeyToX25519 cr (PublicKeyBytes kp) =
       Inr (cr_base cr (clampScalar (cr_sha512 cr seed)))"
  using assms
  by (auto simp: KeyPairFromSeed_def Ed25519PrivateKeyToX25519_def Ed25519PublicKeyToX25519_def
      goodBox_def PublicKeyBytes_def split: if_splits)

lemma encrypt_decrypt:
  assumes box: "goodBox cr" and a: "KeyPairFromSeed cr sa = Inr kpa"
    and b: "KeyPairFromSeed cr sb = Inr kpb"
  shows "\<exists>c. EncryptDM cr (Inr nonce) (kp_PrivateKey kpa) (PublicKeyBytes kpb) m = Inr (c, nonce) \<and>
    DecryptDM cr (kp_PrivateKey kpb) (PublicKeyBytes kpa) c nonce = Inr m \<and>
    DecryptDM cr (kp_PrivateKey kpa) (PublicKeyBytes kpb) c nonce = Inr m"
  using box fromSeed_x25519 [OF box a] fromSeed_x25519 [OF box b]
  by (simp add: EncryptDM_def DecryptDM_def goodBox_def)

text \<open>The clamped scalar has 32 bytes, is a multiple of eight, and its two top bits are 01.\<close>

lemma clampScalar_shape:
  assumes "length h = 64"
  shows "length (clampScalar h) = 32" "unat (clampScalar h ! 0) mod 8 = 0"
    "64 \<le> unat (clampScalar h ! 31)" "unat (clampScalar h ! 31) < 128"
proof -
  show "length (clampScalar h) = 32" using assms by (simp add: clampScalar_def Let_def)
  have 0: "clampScalar h ! 0 = and (h ! 0) 248" "clampScalar h ! 31 = or (and (h ! 31) 127) 64"
    using assms by (simp_all add: clampScalar_def Let_def nth_list_update)
  have "take_bit 3 (and (h ! 0) 248) = (0 :: byte)" by (simp add: take_bit_and)
  then have "unat (take_bit 3 (and (h ! 0) 248 :: byte)) = 0" by simp
  then have "take_bit 3 (unat (and (h ! 0) 248 :: byte)) = 0" by (simp only: unsigned_take_bit_eq)
  then show "unat (clampScalar h ! 0) mod 8 = 0" unfolding 0 by (simp only: take_bit_eq_mod) simp
  let ?u = "and (uint (h ! 31)) 127"
  have "0 \<le> ?u" "?u < 128" using AND_upper2 [of 127 "uint (h ! 31)"] by simp_all
  then have "64 \<le> or ?u 64" "or ?u 64 < 128"
    using or_greater_eq [of ?u 64] OR_upper [of ?u 7 64] by (simp_all add: or.commute)
  moreover have "int (unat (clampScalar h ! 31)) = or ?u 64"
    unfolding 0 by (simp add: uint_or uint_and)
  ultimately show "64 \<le> unat (clampScalar h ! 31)" "unat (clampScalar h ! 31) < 128" by linarith+
qed

end
