(* ===== verification/GoText.thy ===== *)
theory GoText
  imports GoLib
begin

text \<open>
  Conversions between strings and byte slices, and the functions of package \<open>strings\<close> and of
  \<open>path/filepath\<close> that the identity and access-control code uses.
\<close>

section \<open>Strings and byte slices\<close>

text \<open>\<open>[]byte(s)\<close> and \<open>string(b)\<close>.\<close>

definition stringToBytes :: "string \<Rightarrow> bytes" where
  "stringToBytes s = map of_char s"

definition bytesToString :: "bytes \<Rightarrow> string" where
  "bytesToString b = map (\<lambda>w. char_of (unat w)) b"

lemma char_of_byte: "char_of (unat (of_char c :: byte)) = c"
proof -
  have "(of_char c :: byte) = of_nat (of_char c)" by (simp only: of_nat_of_char)
  then have "unat (of_char c :: byte) = of_char c mod 256" by (simp only: unat_of_nat) simp
  then show ?thesis by simp
qed

lemma string_bytes [simp]: "bytesToString (stringToBytes s) = s"
  by (simp add: bytesToString_def stringToBytes_def comp_def char_of_byte)

lemma stringToBytes_inject [simp]: "stringToBytes s = stringToBytes t \<longleftrightarrow> s = t"
  by (metis string_bytes)

section \<open>Package strings\<close>

text \<open>The UTF-8 encodings of the runes for which \<open>unicode.IsSpace\<close> holds.\<close>

definition spaceRunes :: "string list" where
  "spaceRunes =
     [[CHR 0x20], [CHR 0x09], [CHR 0x0A], [CHR 0x0B], [CHR 0x0C], [CHR 0x0D], [CHR 0xC2, CHR 0x85],
      [CHR 0xC2, CHR 0xA0], [CHR 0xE1, CHR 0x9A, CHR 0x80], [CHR 0xE2, CHR 0x80, CHR 0x80],
      [CHR 0xE2, CHR 0x80, CHR 0x81], [CHR 0xE2, CHR 0x80, CHR 0x82], [CHR 0xE2, CHR 0x80, CHR 0x83],
      [CHR 0xE2, CHR 0x80, CHR 0x84], [CHR 0xE2, CHR 0x80, CHR 0x85], [CHR 0xE2, CHR 0x80, CHR 0x86],
      [CHR 0xE2, CHR 0x80, CHR 0x87], [CHR 0xE2, CHR 0x80, CHR 0x88], [CHR 0xE2, CHR 0x80, CHR 0x89],
      [CHR 0xE2, CHR 0x80, CHR 0x8A], [CHR 0xE2, CHR 0x80, CHR 0xA8], [CHR 0xE2, CHR 0x80, CHR 0xA9],
      [CHR 0xE2, CHR 0x80, CHR 0xAF], [CHR 0xE2, CHR 0x81, CHR 0x9F], [CHR 0xE3, CHR 0x80, CHR 0x80]]"

definition startingSpace :: "string \<Rightarrow> string option" where
  "startingSpace s = find (\<lambda>r. HasPrefix s r) spaceRunes"

lemma startingSpace_shrinks:
  assumes "startingSpace s = Some r"
  shows "length (drop (length r) s) < length s"
proof -
  have "\<forall>r\<in>set spaceRunes. r \<noteq> []" by (auto simp: spaceRunes_def)
  moreover from assms have "r \<in> set spaceRunes" "HasPrefix s r"
    by (auto simp: startingSpace_def find_Some_iff)
  ultimately show ?thesis by (cases s) (auto simp: HasPrefix_def)
qed

function TrimLeftSpace :: "string \<Rightarrow> string" where
  "TrimLeftSpace s = (case startingSpace s of None \<Rightarrow> s | Some r \<Rightarrow> TrimLeftSpace (drop (length r) s))"
  by pat_completeness auto
termination
  by (relation "measure length") (auto dest: startingSpace_shrinks)

declare TrimLeftSpace.simps [simp del]

text \<open>From the right: the same with the runes and the string reversed.\<close>

definition endingSpace :: "string \<Rightarrow> string option" where
  "endingSpace s = find (\<lambda>r. HasPrefix (rev s) (rev r)) spaceRunes"

lemma endingSpace_shrinks:
  assumes "endingSpace s = Some r"
  shows "length (take (length s - length r) s) < length s"
proof -
  have "\<forall>r\<in>set spaceRunes. r \<noteq> []" by (auto simp: spaceRunes_def)
  moreover from assms have "r \<in> set spaceRunes" "HasPrefix (rev s) (rev r)"
    by (auto simp: endingSpace_def find_Some_iff)
  ultimately show ?thesis by (cases s; cases r) (auto simp: HasPrefix_def)
qed

function TrimRightSpace :: "string \<Rightarrow> string" where
  "TrimRightSpace s = (case endingSpace s of None \<Rightarrow> s | Some r \<Rightarrow> TrimRightSpace (take (length s - length r) s))"
  by pat_completeness auto
termination
  by (relation "measure length") (auto dest: endingSpace_shrinks)

declare TrimRightSpace.simps [simp del]

definition TrimSpace :: "string \<Rightarrow> string" where
  "TrimSpace s = TrimRightSpace (TrimLeftSpace s)"

text \<open>\<open>strings.Split(s, sep)\<close> for a separator of one byte, and \<open>strings.Cut\<close>.\<close>

fun splitByte :: "char \<Rightarrow> string \<Rightarrow> string list" where
  "splitByte sep [] = [[]]"
| "splitByte sep (c # cs) = (if c = sep then [] # splitByte sep cs
     else case splitByte sep cs of w # ws \<Rightarrow> (c # w) # ws | [] \<Rightarrow> [[c]])"

definition cutByte :: "char \<Rightarrow> string \<Rightarrow> (string \<times> string) option" where
  "cutByte sep s = (if sep \<in> set s
     then Some (takeWhile (\<lambda>c. c \<noteq> sep) s, tl (dropWhile (\<lambda>c. c \<noteq> sep) s)) else None)"

lemma splitByte_none [simp]: "sep \<notin> set s \<Longrightarrow> splitByte sep s = [s]"
  by (induction s) auto

text \<open>
  \<open>strings.EqualFold(s, t)\<close> for a \<open>t\<close> of ASCII characters. Two runes outside ASCII fold to a letter in
  it: U+017F to \<open>s\<close> and U+212A to \<open>k\<close>.
\<close>

definition lowerChar :: "char \<Rightarrow> char" where
  "lowerChar c = (let n = (of_char c :: nat) in if 65 \<le> n \<and> n \<le> 90 then char_of (n + 32) else c)"

definition ToLowerASCII :: "string \<Rightarrow> string" where
  "ToLowerASCII s = map lowerChar s"

fun foldRunes :: "nat list \<Rightarrow> nat list" where
  "foldRunes [] = []"
| "foldRunes (c # cs) =
     (if c = 197 \<and> take 1 cs = [191] then 115 # foldRunes (drop 1 cs)
      else if c = 226 \<and> take 2 cs = [132, 170] then 107 # foldRunes (drop 2 cs)
      else (if 65 \<le> c \<and> c \<le> 90 then c + 32 else c) # foldRunes cs)"

definition EqualFold :: "string \<Rightarrow> string \<Rightarrow> bool" where
  "EqualFold s t \<longleftrightarrow> foldRunes (map of_char s) = foldRunes (map of_char t)"

section \<open>Package path/filepath\<close>

text \<open>\<open>strings.Contains\<close>, \<open>strings.TrimPrefix\<close>.\<close>

fun containsString :: "string \<Rightarrow> string \<Rightarrow> bool" where
  "containsString [] t = (t = [])"
| "containsString (c # cs) t = (HasPrefix (c # cs) t \<or> containsString cs t)"

definition TrimPrefix :: "string \<Rightarrow> string \<Rightarrow> string" where
  "TrimPrefix s p = (if HasPrefix s p then drop (length p) s else s)"

text \<open>
  \<open>filepath.Join(base, s)\<close> for an absolute, clean \<open>base\<close>, a path as the list of its components: \<open>s\<close> is split
  at the slashes, empty components and \<open>.\<close> are dropped, and \<open>..\<close> goes up.
\<close>

fun cleanInto :: "string list \<Rightarrow> string list \<Rightarrow> string list" where
  "cleanInto base [] = base"
| "cleanInto base (c # cs) =
     (if c = '''' \<or> c = ''.'' then cleanInto base cs
      else if c = ''..'' then cleanInto (butlast base) cs
      else cleanInto (base @ [c]) cs)"

definition joinPath :: "string list \<Rightarrow> string \<Rightarrow> string list" where
  "joinPath base s = cleanInto base (splitByte (CHR 0x2F) s)"

lemma joinPath_plain: "CHR 0x2F \<notin> set s \<Longrightarrow> s \<noteq> '''' \<Longrightarrow> s \<noteq> ''.'' \<Longrightarrow> s \<noteq> ''..'' \<Longrightarrow> joinPath base s = base @ [s]"
  by (simp add: joinPath_def)

end
