(* ===== verification/Social.thy ===== *)
theory Social
  imports Address Feed Identity GoText
begin

text \<open>
  The services of \<open>pkg/social\<close> through which a user acts: posts and reposts, reactions, follows,
  profiles, direct messages, threads. Each builds a message, signs it, stores it and publishes it.
  Random nonces are arguments; the metrics counter and the log are left out.
\<close>

section \<open>Limits and identities (\<open>validation.go\<close>, \<open>identity_helpers.go\<close>)\<close>

definition MaxPostContentChars :: nat where "MaxPostContentChars = 5000"
definition MaxDisplayNameChars :: nat where "MaxDisplayNameChars = 50"
definition MaxBioChars :: nat where "MaxBioChars = 500"
definition MaxWebsiteChars :: nat where "MaxWebsiteChars = 200"

definition ValidatePostContent :: "string \<Rightarrow> goerr + unit" where
  "ValidatePostContent content =
     (if MaxPostContentChars < RuneCountInString content
      then Inl (Err ''post content must not exceed 5000 characters'') else Inr ())"

definition ValidateProfileFields :: "string \<Rightarrow> string \<Rightarrow> string \<Rightarrow> goerr + unit" where
  "ValidateProfileFields displayName bio website =
     (if displayName = '''' then Inl (Err ''display_name is required'')
      else if MaxDisplayNameChars < RuneCountInString displayName
        then Inl (Err ''display_name must not exceed 50 characters'')
      else if MaxBioChars < RuneCountInString bio
        then Inl (Err ''bio must not exceed 500 characters'')
      else if MaxWebsiteChars < RuneCountInString website
        then Inl (Err ''website must not exceed 200 characters'')
      else Inr ())"

definition isAllZero :: "bytes \<Rightarrow> bool" where
  "isAllZero data \<longleftrightarrow> (\<forall>b\<in>set data. b = 0)"

definition hasIdentity :: "KeyPair option \<Rightarrow> bool" where
  "hasIdentity kpo = (case kpo of
      None \<Rightarrow> False
    | Some kp \<Rightarrow> 0 < length (PublicKeyBytes kp) \<and> \<not> isAllZero (PublicKeyBytes kp))"

definition activeIdentity :: "KeyPair option \<Rightarrow> goerr + KeyPair" where
  "activeIdentity kpo = (case kpo of
      None \<Rightarrow> Inl (Err ''identity not unlocked'')
    | Some kp \<Rightarrow>
        if length (PublicKeyBytes kp) = 0 \<or> isAllZero (PublicKeyBytes kp)
        then Inl (Err ''identity not unlocked'') else Inr kp)"

text \<open>
  The fields of a service: the identity it signs with, whether its notification service (posts) and
  its content store (reactions, profiles, direct messages) are set. The database, the store and the
  publisher are those of the node.
\<close>

record Service =
  sv_identity :: "KeyPair option"
  sv_notifications :: bool
  sv_cas :: bool

definition SetIdentity :: "KeyPair option \<Rightarrow> Service \<Rightarrow> Service" where
  "SetIdentity kp sv = sv\<lparr>sv_identity := kp\<rparr>"

definition SetNotifications :: "bool \<Rightarrow> Service \<Rightarrow> Service" where
  "SetNotifications ns sv = sv\<lparr>sv_notifications := ns\<rparr>"

definition SetContentStore :: "bool \<Rightarrow> Service \<Rightarrow> Service" where
  "SetContentStore cas sv = sv\<lparr>sv_cas := cas\<rparr>"

section \<open>Publishing (\<open>publisher.go\<close>, the topics of \<open>p2p/pubsub.go\<close>)\<close>

definition PostsTopic :: "string \<Rightarrow> string" where
  "PostsTopic authorPubKeyHex = ''/xleaks/posts/'' @ authorPubKeyHex"

definition ReactionsTopic :: "string \<Rightarrow> string" where
  "ReactionsTopic postCIDHex = ''/xleaks/reactions/'' @ postCIDHex"

definition ProfilesTopic :: string where
  "ProfilesTopic = ''/xleaks/profiles''"

definition FollowsTopic :: "string \<Rightarrow> string" where
  "FollowsTopic authorPubKeyHex = ''/xleaks/follows/'' @ authorPubKeyHex"

definition DMTopic :: "string \<Rightarrow> string" where
  "DMTopic recipientPubKeyHex = ''/xleaks/dm/'' @ recipientPubKeyHex"

definition GlobalTopic :: string where
  "GlobalTopic = ''/xleaks/global''"

text \<open>A call of \<open>Publisher.Publish\<close>.\<close>

definition publishE :: "string \<Rightarrow> bytes \<Rightarrow> (Node, unit) go" where
  "publishE topic data = (\<lambda>n.
     let n' = n\<lparr>nd_published := nd_published n @ [(topic, data)]\<rparr>
     in case nd_pubFaults n (length (nd_published n)) of
          Some e \<Rightarrow> (Inl e, n')
        | None \<Rightarrow> (Inr (), n'))"

definition publishEnvelope :: "ext \<Rightarrow> string \<Rightarrow> message \<Rightarrow> (Node, unit) go" where
  "publishEnvelope x topic env =
     bindE (getE nd_publisher) (\<lambda>publisher. if \<not> publisher then retE () else
     bindE (wrapE ''marshal envelope'' (liftE (x_marshalEnvelope x env))) (\<lambda>data.
     wrapE ''publish envelope'' (publishE topic data)))"

definition publishPost :: "ext \<Rightarrow> Post option \<Rightarrow> (Node, unit) go" where
  "publishPost x msg = (case msg of
      None \<Rightarrow> throwE (Err ''post is nil'')
    | Some post \<Rightarrow> publishEnvelope x (PostsTopic (EncodeToString (po_Author post))) (MPost post))"

definition publishReaction :: "ext \<Rightarrow> Reaction option \<Rightarrow> (Node, unit) go" where
  "publishReaction x msg = (case msg of
      None \<Rightarrow> throwE (Err ''reaction is nil'')
    | Some reaction \<Rightarrow>
        publishEnvelope x (ReactionsTopic (EncodeToString (re_Target reaction))) (MReaction reaction))"

definition publishProfile :: "ext \<Rightarrow> Profile option \<Rightarrow> (Node, unit) go" where
  "publishProfile x msg = (case msg of
      None \<Rightarrow> throwE (Err ''profile is nil'')
    | Some profile \<Rightarrow> publishEnvelope x ProfilesTopic (MProfile profile))"

definition publishFollowEvent :: "ext \<Rightarrow> FollowEvent option \<Rightarrow> (Node, unit) go" where
  "publishFollowEvent x msg = (case msg of
      None \<Rightarrow> throwE (Err ''follow event is nil'')
    | Some event \<Rightarrow>
        publishEnvelope x (FollowsTopic (EncodeToString (fe_Author event))) (MFollowEvent event))"

definition publishDirectMessage :: "ext \<Rightarrow> DirectMessage option \<Rightarrow> (Node, unit) go" where
  "publishDirectMessage x msg = (case msg of
      None \<Rightarrow> throwE (Err ''direct message is nil'')
    | Some dm \<Rightarrow>
        publishEnvelope x (DMTopic (EncodeToString (dm_Recipient dm))) (MDirectMessage dm))"

definition PublishMediaObject :: "ext \<Rightarrow> MediaObject option \<Rightarrow> (Node, unit) go" where
  "PublishMediaObject x msg = (case msg of
      None \<Rightarrow> throwE (Err ''media object is nil'')
    | Some obj \<Rightarrow> publishEnvelope x GlobalTopic (MMediaObject obj))"

section \<open>Posts (\<open>posts.go\<close>, \<open>reposts.go\<close>)\<close>

text \<open>
  The matches of \<open>#(\w+)\<close>: leftmost, greedy, not overlapping. \<open>\w\<close> is a letter, a digit or the
  underscore in ASCII, whose bytes occur in no longer encoding, so the text is scanned by bytes.
\<close>

definition isWordChar :: "char \<Rightarrow> bool" where
  "isWordChar c \<longleftrightarrow> (let n = (of_char c :: nat) in
     48 \<le> n \<and> n \<le> 57 \<or> 65 \<le> n \<and> n \<le> 90 \<or> n = 95 \<or> 97 \<le> n \<and> n \<le> 122)"

function hashtagMatches :: "string \<Rightarrow> string list" where
  "hashtagMatches [] = []"
| "hashtagMatches (c # cs) =
     (if c = CHR ''#'' \<and> takeWhile isWordChar cs \<noteq> []
      then takeWhile isWordChar cs # hashtagMatches (dropWhile isWordChar cs)
      else hashtagMatches cs)"
  by pat_completeness auto
termination
  by (relation "measure length") (auto simp: less_Suc_eq_le length_dropWhile_le)

definition maxTagsPerPost :: nat where "maxTagsPerPost = 20"
definition maxTagLength :: nat where "maxTagLength = 100"

fun collectTags :: "string list \<Rightarrow> string set \<Rightarrow> string list \<Rightarrow> string list" where
  "collectTags [] seen tags = tags"
| "collectTags (match # matches) seen tags =
     (let tag = map toLower match in
      if maxTagLength < length tag then collectTags matches seen tags
      else if tag \<notin> seen then
        (if maxTagsPerPost \<le> length (tags @ [tag]) then tags @ [tag]
         else collectTags matches (insert tag seen) (tags @ [tag]))
      else collectTags matches seen tags)"

definition extractHashtags :: "string \<Rightarrow> string list" where
  "extractHashtags text = collectTags (hashtagMatches text) {} []"

definition signingPayloadPost :: "ext \<Rightarrow> Post \<Rightarrow> goerr + bytes" where
  "signingPayloadPost x post =
     marshalAs x ''marshal post for signing'' (MPost (post\<lparr>po_Id := [], po_Signature := []\<rparr>))"

text \<open>
  The statements from the signing payload to the content store, which \<open>CreatePost\<close> and
  \<open>CreateRepost\<close> share up to the texts of the errors.
\<close>

definition sealPost :: "ext \<Rightarrow> KeyPair \<Rightarrow> string \<Rightarrow> string \<Rightarrow> Post \<Rightarrow> (Node, Post) go" where
  "sealPost x kp what casError post0 =
     bindE (wrapE ''compute signing payload'' (liftE (signingPayloadPost x post0))) (\<lambda>sigPayload.
     bindE (wrapE (''sign '' @ what) (liftE (SignProtoMessage x (Some kp) sigPayload))) (\<lambda>sig.
     bindE (wrapE ''compute CID'' (liftE (ComputeCID (x_sum x) sigPayload))) (\<lambda>cid.
     let post = post0\<lparr>po_Signature := sig, po_Id := cid\<rparr> in
     seqE (wrapE (''validate '' @ what)
            (checkE (\<lambda>g now. ValidatePost x g now (Some post) (Some (x_verify x)))))
    (bindE (wrapE (''marshal '' @ what @ '' for CAS'') (liftE (x_marshal x (MPost post)))) (\<lambda>fullData.
     seqE (wrapE casError (casE (\<lambda>b. Put b cid fullData))) (retE post))))))"

definition storePostTx :: "Post \<Rightarrow> bytes list \<Rightarrow> bytes \<Rightarrow> (DB, unit) go" where
  "storePostTx post mediaCIDs replyTo =
     seqE (wrapE ''store post in DB'' (InsertPostTx (po_Id post) (po_Author post) (po_Content post)
            (po_ReplyTo post) (po_RepostOf post) (toInt64 (po_Timestamp post)) (po_Signature post)))
    (seqE (whenE (0 < length (po_Tags post))
            (wrapE ''store post tags'' (InsertPostTagsTx (po_Id post) (po_Tags post))))
    (seqE (forE (\<lambda>(i, mediaCID). wrapE ''store post media link''
              (InsertPostMediaTx (po_Id post) mediaCID (int i))) (enumerate 0 mediaCIDs))
          (whenE (0 < length replyTo)
            (wrapE ''update parent reply count'' (UpdateReactionCountTx replyTo)))))"

definition storeRepostTx :: "Post \<Rightarrow> bytes \<Rightarrow> (DB, unit) go" where
  "storeRepostTx post originalCID =
     seqE (wrapE ''store repost in DB'' (InsertPostTx (po_Id post) (po_Author post) (po_Content post)
            (po_ReplyTo post) (po_RepostOf post) (toInt64 (po_Timestamp post)) (po_Signature post)))
          (wrapE ''update repost count'' (UpdateReactionCountTx originalCID))"

definition notifyParent :: "Post \<Rightarrow> bytes \<Rightarrow> (Node, unit) go" where
  "notifyParent post replyTo =
     bindE (catchE (bindE (dbE (GetPost replyTo)) (\<lambda>p. retE (Some p))) (\<lambda>_. retE None)) (\<lambda>parentPost.
       case parentPost of
         None \<Rightarrow> retE ()
       | Some parent \<Rightarrow>
           whenE (p_Author parent \<noteq> po_Author post)
             (logE (NotifyReply (po_Author post) replyTo (po_Id post))))"

definition CreatePost ::
  "ext \<Rightarrow> Service \<Rightarrow> string \<Rightarrow> bytes list \<Rightarrow> bytes \<Rightarrow> (Node, Post) go" where
  "CreatePost x sv text mediaCIDs replyTo =
     bindE (liftE (activeIdentity (sv_identity sv))) (\<lambda>kp.
     seqE (liftE (ValidatePostContent text))
    (bindE (getE nowMillis) (\<lambda>now.
     bindE (sealPost x kp ''post'' ''store in CAS''
       \<lparr>po_Id = [], po_Author = PublicKeyBytes kp, po_Timestamp = now, po_Content = text,
        po_MediaCids = mediaCIDs, po_ReplyTo = replyTo, po_RepostOf = [],
        po_Tags = extractHashtags text, po_Signature = []\<rparr>) (\<lambda>post.
     seqE (dbE (WithTransaction (storePostTx post mediaCIDs replyTo)))
    (seqE (wrapE ''track post content'' (dbE (TrackContentForAuthor (po_Id post) (po_Author post))))
    (seqE (whenE (0 < length replyTo \<and> sv_notifications sv) (notifyParent post replyTo))
    (seqE (logE (publishPost x (Some post))) (retE post))))))))"

definition CreateRepost :: "ext \<Rightarrow> Service \<Rightarrow> bytes \<Rightarrow> (Node, Post) go" where
  "CreateRepost x sv originalCID =
     bindE (liftE (activeIdentity (sv_identity sv))) (\<lambda>kp.
     bindE (dbE (PostExists originalCID)) (\<lambda>found.
     if \<not> found then throwE (Err ''original post not found'') else
     bindE (getE nowMillis) (\<lambda>now.
     bindE (sealPost x kp ''repost'' ''store repost in CAS''
       \<lparr>po_Id = [], po_Author = PublicKeyBytes kp, po_Timestamp = now, po_Content = '''',
        po_MediaCids = [], po_ReplyTo = [], po_RepostOf = originalCID, po_Tags = [],
        po_Signature = []\<rparr>) (\<lambda>post.
     seqE (dbE (WithTransaction (storeRepostTx post originalCID)))
    (seqE (wrapE ''track repost content'' (dbE (TrackContentForAuthor (po_Id post) (po_Author post))))
    (seqE (whenE (sv_notifications sv)
            (logE (NotifyRepost (PublicKeyBytes kp) originalCID (po_Id post))))
    (seqE (logE (publishPost x (Some post))) (retE post))))))))"

definition GetRepostCount :: "bytes \<Rightarrow> (DB, int) go" where
  "GetRepostCount postCID = wrapE ''count reposts'' (queryE (countReposts postCID))"

definition IsReposted :: "bytes \<Rightarrow> bytes \<Rightarrow> (DB, bool) go" where
  "IsReposted author postCID = catchE
     (bindE (queryRowE (\<lambda>db. find (\<lambda>p. p_Author p = author \<and> p_RepostOf p = Some postCID) (posts db)))
       (\<lambda>_. retE True)) (\<lambda>_. retE False)"

section \<open>Reactions (\<open>reactions.go\<close>)\<close>

definition signingPayloadReaction :: "ext \<Rightarrow> Reaction \<Rightarrow> goerr + bytes" where
  "signingPayloadReaction x reaction =
     marshalAs x ''marshal reaction for signing'' (MReaction (reaction\<lparr>re_Id := [], re_Signature := []\<rparr>))"

text \<open>\<open>if s.cas != nil { raw, err := proto.Marshal(m); ...; s.cas.Put(key, raw) }\<close>.\<close>

definition persistE :: "ext \<Rightarrow> Service \<Rightarrow> string \<Rightarrow> bytes \<Rightarrow> message \<Rightarrow> (Node, unit) go" where
  "persistE x sv what key m = whenE (sv_cas sv)
     (bindE (wrapE (''marshal '' @ what @ '' for CAS'') (liftE (x_marshal x m))) (\<lambda>raw.
      wrapE (''store '' @ what @ '' in CAS'') (casE (\<lambda>b. Put b key raw))))"

definition storeReactionTx :: "Reaction \<Rightarrow> bytes \<Rightarrow> (DB, unit) go" where
  "storeReactionTx reaction targetCID =
     seqE (wrapE ''store reaction'' (InsertReactionTx (re_Id reaction) (re_Author reaction)
            (re_Target reaction) (re_ReactionType reaction) (toInt64 (re_Timestamp reaction))))
          (wrapE ''update reaction count'' (UpdateReactionCountTx targetCID))"

definition createReactionWith :: "ext \<Rightarrow> Service \<Rightarrow> KeyPair \<Rightarrow> bytes \<Rightarrow> (Node, Reaction) go" where
  "createReactionWith x sv kp targetCID =
     bindE (getE nowMillis) (\<lambda>now.
     let reaction0 = \<lparr>re_Id = [], re_Author = PublicKeyBytes kp, re_Target = targetCID,
           re_ReactionType = ''like'', re_Timestamp = now, re_Signature = []\<rparr> in
     bindE (wrapE ''compute signing payload'' (liftE (signingPayloadReaction x reaction0))) (\<lambda>sigPayload.
     bindE (wrapE ''sign reaction'' (liftE (SignProtoMessage x (Some kp) sigPayload))) (\<lambda>sig.
     bindE (wrapE ''compute CID'' (liftE (ComputeCID (x_sum x) sigPayload))) (\<lambda>cid.
     let reaction = reaction0\<lparr>re_Signature := sig, re_Id := cid\<rparr> in
     seqE (persistE x sv ''reaction'' cid (MReaction reaction))
    (seqE (dbE (WithTransaction (storeReactionTx reaction targetCID)))
    (seqE (wrapE ''track reaction content''
            (dbE (TrackReactionContent (re_Id reaction) (re_Author reaction) (re_Target reaction))))
    (seqE (logE (publishReaction x (Some reaction))) (retE reaction))))))))"

definition CreateReaction :: "ext \<Rightarrow> Service \<Rightarrow> bytes \<Rightarrow> (Node, Reaction) go" where
  "CreateReaction x sv targetCID =
     bindE (liftE (activeIdentity (sv_identity sv))) (\<lambda>kp. createReactionWith x sv kp targetCID)"

definition CreateReactionAs :: "ext \<Rightarrow> Service \<Rightarrow> KeyPair option \<Rightarrow> bytes \<Rightarrow> (Node, Reaction) go" where
  "CreateReactionAs x sv kpo targetCID =
     bindE (liftE (activeIdentity kpo)) (\<lambda>kp. createReactionWith x sv kp targetCID)"

definition ReactionService_HasReacted :: "bytes \<Rightarrow> bytes \<Rightarrow> (DB, bool) go" where
  "ReactionService_HasReacted author target = HasReacted author target ''like''"

section \<open>Follows (\<open>follows.go\<close>)\<close>

definition signingPayloadFollowEvent :: "ext \<Rightarrow> FollowEvent \<Rightarrow> goerr + bytes" where
  "signingPayloadFollowEvent x event =
     marshalAs x ''marshal follow event for signing'' (MFollowEvent (event\<lparr>fe_Signature := []\<rparr>))"

definition changeFollowState :: "ext \<Rightarrow> KeyPair \<Rightarrow> bytes \<Rightarrow> string \<Rightarrow> (Node, FollowEvent) go" where
  "changeFollowState x kp target action =
     bindE (getE nowMillis) (\<lambda>now.
     let event0 = \<lparr>fe_Author = PublicKeyBytes kp, fe_Target = target, fe_Action = action,
           fe_Timestamp = now, fe_Signature = []\<rparr> in
     bindE (wrapE ''compute signing payload'' (liftE (signingPayloadFollowEvent x event0))) (\<lambda>sigPayload.
     bindE (wrapE ''sign follow event'' (liftE (SignProtoMessage x (Some kp) sigPayload))) (\<lambda>sig.
     let event = event0\<lparr>fe_Signature := sig\<rparr>; timestamp = toInt64 (fe_Timestamp event) in
     seqE (wrapE ''validate follow event''
            (checkE (\<lambda>g now. ValidateFollowEvent x g now (Some event) (Some (x_verify x)))))
    (seqE (if action = ''follow'' then Manager_Follow (PublicKeyBytes kp) target timestamp
           else if action = ''unfollow'' then Manager_Unfollow (PublicKeyBytes kp) target
           else throwE (Err ''unsupported follow action''))
    (seqE (wrapE ''store follow event'' (dbE (InsertFollowEvent (fe_Author event) (fe_Target event)
            (fe_Action event) timestamp)))
    (seqE (logE (dbE (UpdateFollowerCount (fe_Author event))))
    (seqE (logE (dbE (UpdateFollowerCount (fe_Target event))))
    (seqE (logE (bindE (dbE (ShouldPinAuthor (fe_Target event)))
                   (\<lambda>pin. dbE (SetPinnedForAuthor (fe_Target event) pin))))
    (seqE (logE (publishFollowEvent x (Some event))) (retE event))))))))))"

definition FollowService_Follow :: "ext \<Rightarrow> Service \<Rightarrow> bytes \<Rightarrow> (Node, FollowEvent) go" where
  "FollowService_Follow x sv target =
     bindE (liftE (activeIdentity (sv_identity sv))) (\<lambda>kp. changeFollowState x kp target ''follow'')"

definition FollowService_Unfollow :: "ext \<Rightarrow> Service \<Rightarrow> bytes \<Rightarrow> (Node, FollowEvent) go" where
  "FollowService_Unfollow x sv target =
     bindE (liftE (activeIdentity (sv_identity sv))) (\<lambda>kp. changeFollowState x kp target ''unfollow'')"

definition FollowAs :: "ext \<Rightarrow> KeyPair option \<Rightarrow> bytes \<Rightarrow> (Node, FollowEvent) go" where
  "FollowAs x kpo target =
     bindE (liftE (activeIdentity kpo)) (\<lambda>kp. changeFollowState x kp target ''follow'')"

definition UnfollowAs :: "ext \<Rightarrow> KeyPair option \<Rightarrow> bytes \<Rightarrow> (Node, FollowEvent) go" where
  "UnfollowAs x kpo target =
     bindE (liftE (activeIdentity kpo)) (\<lambda>kp. changeFollowState x kp target ''unfollow'')"

section \<open>Profiles (\<open>profile.go\<close>)\<close>

definition signingPayloadProfile :: "ext \<Rightarrow> Profile \<Rightarrow> goerr + bytes" where
  "signingPayloadProfile x profile =
     marshalAs x ''marshal profile for signing'' (MProfile (profile\<lparr>pr_Signature := []\<rparr>))"

text \<open>The statements after the profile is built, the same in \<open>createProfileWith\<close> and \<open>updateProfileWith\<close>.\<close>

definition signAndStoreProfile :: "ext \<Rightarrow> Service \<Rightarrow> KeyPair \<Rightarrow> Profile \<Rightarrow> (Node, Profile) go" where
  "signAndStoreProfile x sv kp profile0 =
     bindE (wrapE ''compute signing payload'' (liftE (signingPayloadProfile x profile0))) (\<lambda>sigPayload.
     bindE (wrapE ''sign profile'' (liftE (SignProtoMessage x (Some kp) sigPayload))) (\<lambda>sig.
     let profile = profile0\<lparr>pr_Signature := sig\<rparr> in
     seqE (wrapE ''validate profile''
            (checkE (\<lambda>g now. ValidateProfile x g now (Some profile) (Some (x_verify x)))))
    (seqE (persistE x sv ''profile'' (pr_Author profile) (MProfile profile))
    (seqE (wrapE ''store profile'' (dbE (UpsertProfile (pr_Author profile) (pr_DisplayName profile)
            (pr_Bio profile) (pr_AvatarCid profile) (pr_BannerCid profile) (pr_Website profile)
            (pr_Version profile) (toInt64 (pr_Timestamp profile)))))
    (seqE (wrapE ''track profile content''
            (dbE (TrackContentForAuthor (pr_Author profile) (pr_Author profile))))
    (seqE (logE (publishProfile x (Some profile))) (retE profile)))))))"

definition createProfileWith ::
  "ext \<Rightarrow> Service \<Rightarrow> KeyPair \<Rightarrow> string \<Rightarrow> string \<Rightarrow> string \<Rightarrow> bytes \<Rightarrow> bytes \<Rightarrow> (Node, Profile) go" where
  "createProfileWith x sv kp displayName bio website avatarCID bannerCID =
     seqE (liftE (ValidateProfileFields displayName bio website))
    (bindE (getE nowMillis) (\<lambda>now.
     signAndStoreProfile x sv kp
       \<lparr>pr_Author = PublicKeyBytes kp, pr_DisplayName = displayName, pr_Bio = bio,
        pr_AvatarCid = avatarCID, pr_BannerCid = bannerCID, pr_Website = website, pr_Version = 1,
        pr_Timestamp = now, pr_Signature = []\<rparr>))"

definition updateProfileWith ::
  "ext \<Rightarrow> Service \<Rightarrow> KeyPair \<Rightarrow> string \<Rightarrow> string \<Rightarrow> string \<Rightarrow> bytes \<Rightarrow> bytes \<Rightarrow> (Node, Profile) go" where
  "updateProfileWith x sv kp displayName bio website avatarCID bannerCID =
     seqE (liftE (ValidateProfileFields displayName bio website))
    (bindE (wrapE ''get current profile'' (dbE (GetProfile (PublicKeyBytes kp)))) (\<lambda>existing.
     let currentVersion = (case existing of None \<Rightarrow> 0 | Some p \<Rightarrow> word_of_int (pf_Version p)) in
     bindE (getE nowMillis) (\<lambda>now.
     signAndStoreProfile x sv kp
       \<lparr>pr_Author = PublicKeyBytes kp, pr_DisplayName = displayName, pr_Bio = bio,
        pr_AvatarCid = avatarCID, pr_BannerCid = bannerCID, pr_Website = website,
        pr_Version = currentVersion + 1, pr_Timestamp = now, pr_Signature = []\<rparr>)))"

definition CreateProfile ::
  "ext \<Rightarrow> Service \<Rightarrow> string \<Rightarrow> string \<Rightarrow> string \<Rightarrow> bytes \<Rightarrow> bytes \<Rightarrow> (Node, Profile) go" where
  "CreateProfile x sv displayName bio website avatarCID bannerCID =
     bindE (liftE (activeIdentity (sv_identity sv)))
       (\<lambda>kp. createProfileWith x sv kp displayName bio website avatarCID bannerCID)"

definition CreateProfileAs ::
  "ext \<Rightarrow> Service \<Rightarrow> KeyPair option \<Rightarrow> string \<Rightarrow> string \<Rightarrow> string \<Rightarrow> bytes \<Rightarrow> bytes \<Rightarrow> (Node, Profile) go" where
  "CreateProfileAs x sv kpo displayName bio website avatarCID bannerCID =
     bindE (liftE (activeIdentity kpo))
       (\<lambda>kp. createProfileWith x sv kp displayName bio website avatarCID bannerCID)"

definition UpdateProfile ::
  "ext \<Rightarrow> Service \<Rightarrow> string \<Rightarrow> string \<Rightarrow> string \<Rightarrow> bytes \<Rightarrow> bytes \<Rightarrow> (Node, Profile) go" where
  "UpdateProfile x sv displayName bio website avatarCID bannerCID =
     bindE (liftE (activeIdentity (sv_identity sv)))
       (\<lambda>kp. updateProfileWith x sv kp displayName bio website avatarCID bannerCID)"

definition UpdateProfileAs ::
  "ext \<Rightarrow> Service \<Rightarrow> KeyPair option \<Rightarrow> string \<Rightarrow> string \<Rightarrow> string \<Rightarrow> bytes \<Rightarrow> bytes \<Rightarrow> (Node, Profile) go" where
  "UpdateProfileAs x sv kpo displayName bio website avatarCID bannerCID =
     bindE (liftE (activeIdentity kpo))
       (\<lambda>kp. updateProfileWith x sv kp displayName bio website avatarCID bannerCID)"

text \<open>The row does not keep the signature; a \<open>NULL\<close> column is the empty slice.\<close>

definition profileRowToProto :: "ProfileRow \<Rightarrow> Profile" where
  "profileRowToProto row =
     \<lparr>pr_Author = pf_Pubkey row, pr_DisplayName = pf_DisplayName row, pr_Bio = pf_Bio row,
      pr_AvatarCid = (case pf_AvatarCID row of None \<Rightarrow> [] | Some c \<Rightarrow> c),
      pr_BannerCid = (case pf_BannerCID row of None \<Rightarrow> [] | Some c \<Rightarrow> c),
      pr_Website = pf_Website row, pr_Version = word_of_int (pf_Version row),
      pr_Timestamp = word_of_int (pf_UpdatedAt row), pr_Signature = []\<rparr>"

definition ProfileService_GetProfile :: "bytes \<Rightarrow> (DB, Profile option) go" where
  "ProfileService_GetProfile pubkey =
     bindE (wrapE ''get profile'' (GetProfile pubkey)) (\<lambda>row. retE (map_option profileRowToProto row))"

section \<open>Direct messages (\<open>dm.go\<close>)\<close>

definition signingPayloadDM :: "ext \<Rightarrow> DirectMessage \<Rightarrow> goerr + bytes" where
  "signingPayloadDM x dm =
     marshalAs x ''marshal DM for signing'' (MDirectMessage (dm\<lparr>dm_Id := [], dm_Signature := []\<rparr>))"

definition sendDMWith ::
  "ext \<Rightarrow> crypto \<Rightarrow> goerr + bytes \<Rightarrow> Service \<Rightarrow> KeyPair \<Rightarrow> bytes \<Rightarrow> string \<Rightarrow> (Node, DirectMessage) go" where
  "sendDMWith x cr rnd sv kp recipientPubKey plaintext =
     bindE (wrapE ''encrypt DM'' (liftE (EncryptDM cr rnd (kp_PrivateKey kp) recipientPubKey
       (stringToBytes plaintext)))) (\<lambda>(ciphertext, nonce).
     bindE (getE nowMillis) (\<lambda>now.
     let dm0 = \<lparr>dm_Id = [], dm_Author = PublicKeyBytes kp, dm_Recipient = recipientPubKey,
           dm_EncryptedContent = ciphertext, dm_Nonce = nonce, dm_Timestamp = now,
           dm_Signature = []\<rparr> in
     bindE (wrapE ''compute signing payload'' (liftE (signingPayloadDM x dm0))) (\<lambda>sigPayload.
     bindE (wrapE ''sign DM'' (liftE (SignProtoMessage x (Some kp) sigPayload))) (\<lambda>sig.
     bindE (wrapE ''compute CID'' (liftE (ComputeCID (x_sum x) sigPayload))) (\<lambda>cid.
     let dm = dm0\<lparr>dm_Signature := sig, dm_Id := cid\<rparr> in
     seqE (persistE x sv ''DM'' cid (MDirectMessage dm))
    (seqE (wrapE ''store DM'' (dbE (InsertDM cid (dm_Author dm) (dm_Recipient dm)
            (dm_EncryptedContent dm) (dm_Nonce dm) (toInt64 (dm_Timestamp dm)))))
    (seqE (wrapE ''track DM content''
            (dbE (TrackContentForDM (dm_Id dm) (dm_Author dm) (dm_Recipient dm))))
    (seqE (logE (publishDirectMessage x (Some dm))) (retE dm)))))))))"

definition SendDM ::
  "ext \<Rightarrow> crypto \<Rightarrow> goerr + bytes \<Rightarrow> Service \<Rightarrow> bytes \<Rightarrow> string \<Rightarrow> (Node, DirectMessage) go" where
  "SendDM x cr rnd sv recipientPubKey plaintext =
     bindE (liftE (activeIdentity (sv_identity sv)))
       (\<lambda>kp. sendDMWith x cr rnd sv kp recipientPubKey plaintext)"

definition SendDMAs ::
  "ext \<Rightarrow> crypto \<Rightarrow> goerr + bytes \<Rightarrow> Service \<Rightarrow> KeyPair option \<Rightarrow> bytes \<Rightarrow> string
     \<Rightarrow> (Node, DirectMessage) go" where
  "SendDMAs x cr rnd sv kpo recipientPubKey plaintext =
     bindE (liftE (activeIdentity kpo)) (\<lambda>kp. sendDMWith x cr rnd sv kp recipientPubKey plaintext)"

definition DMService_DecryptDM :: "crypto \<Rightarrow> Service \<Rightarrow> DirectMessage option \<Rightarrow> goerr + string" where
  "DMService_DecryptDM cr sv msg = (case activeIdentity (sv_identity sv) of
      Inl e \<Rightarrow> Inl e
    | Inr kp \<Rightarrow>
   (case msg of
      None \<Rightarrow> Inl (Err ''direct message is nil'')
    | Some dm \<Rightarrow>
   (case (if dm_Recipient dm = PublicKeyBytes kp then Some (dm_Author dm)
          else if dm_Author dm = PublicKeyBytes kp then Some (dm_Recipient dm) else None) of
      None \<Rightarrow> Inl (Err ''message is not associated with the active identity'')
    | Some peerPubkey \<Rightarrow>
        if length (dm_Nonce dm) \<noteq> 24 then Inl (Err ''invalid nonce length'')
        else case DecryptDM cr (kp_PrivateKey kp) peerPubkey (dm_EncryptedContent dm) (dm_Nonce dm) of
            Inl e \<Rightarrow> Inl (wrap ''decrypt DM'' e)
          | Inr plaintext \<Rightarrow> Inr (bytesToString plaintext))))"

end
