(* ===== verification/SocialProps.thy ===== *)
theory SocialProps
  imports Social
begin

text \<open>
  Properties of the services of \<open>pkg/social\<close>: what a local action stores keeps the counters exact
  under every failure, what it publishes is accepted by the peers, a direct message decrypts to what
  was sent, and the hashtags of a post are those of its text.
\<close>

section \<open>Local actions keep the counters exact\<close>

definition exactOff :: "bytes set \<Rightarrow> DB \<Rightarrow> bool" where
  "exactOff S db \<longleftrightarrow> (\<forall>c. c \<notin> S \<longrightarrow> exactFor c db)"

lemma steady_exactOff: "steady (exactOff S)"
  by (simp add: steady_def exactOff_def exactFor_def countLikes_def countReplies_def countReposts_def)

lemma exactOff_frame:
  "exactOff S db \<Longrightarrow> posts db' = posts db \<Longrightarrow> reactions db' = reactions db \<Longrightarrow>
     reaction_counts db' = reaction_counts db \<Longrightarrow> exactOff S db'"
  by (simp add: exactOff_def exactFor_def countLikes_def countReplies_def countReposts_def)

text \<open>A statement inside a transaction: after an error nothing is claimed, the rollback takes over.\<close>

abbreviation inTx :: "(DB \<Rightarrow> bool) \<Rightarrow> (DB, 'a) go \<Rightarrow> ('a \<Rightarrow> DB \<Rightarrow> bool) \<Rightarrow> bool" where
  "inTx P m Q \<equiv> triple P m Q (\<lambda>_. True)"

lemma inTx_execE:
  assumes "steady I" "\<And>db db'. I db \<Longrightarrow> stmt db = Inr db' \<Longrightarrow> J db'"
  shows "inTx I (execE stmt) (\<lambda>_. J)"
  using assms(2) steady_tick [OF assms(1)]
  by (fastforce simp: triple_def execE_def split: option.splits sum.splits)

lemma inTx_queryE:
  assumes "steady I" "\<And>db. q (tick db) = q db"
  shows "inTx I (queryE q) (\<lambda>y db. I db \<and> y = q db)"
  using assms(2) steady_tick [OF assms(1)]
  by (auto simp: triple_def queryE_def split: option.splits)

lemma InsertPostTx_exact:
  "inTx (exactOff {}) (InsertPostTx c a t rt ro ts sg) (\<lambda>_. exactOff ({rt, ro} - {[]}))"
  unfolding InsertPostTx_def
  by (intro triple_wrapE inTx_execE [OF steady_exactOff])
     (auto simp: stmtInsertPost_def exactOff_def exactFor_def countLikes_def countReplies_def
       countReposts_def nilIfEmpty_def split: if_splits)

lemma InsertReactionTx_exact:
  "inTx (exactOff {}) (InsertReactionTx c a t ty ts) (\<lambda>_. exactOff {t})"
  unfolding InsertReactionTx_def
  by (intro triple_wrapE inTx_execE [OF steady_exactOff])
     (auto simp: stmtInsertReaction_def Let_def exactOff_def exactFor_def countLikes_def
       countReplies_def countReposts_def split: if_splits)

lemma UpdateReactionCountTx_exact:
  "inTx (exactOff S) (UpdateReactionCountTx c) (\<lambda>_. exactOff (S - {c}))"
proof -
  let ?L = "\<lambda>l db. exactOff S db \<and> l = countLikes c db"
  let ?R = "\<lambda>l r db. ?L l db \<and> r = countReplies c db"
  let ?P = "\<lambda>l r p db. ?R l r db \<and> p = countReposts c db"
  have st: "steady (?L l)" "steady (?R l r)" "steady (?P l r p)" for l r p
    using steady_exactOff [of S]
    by (auto simp: steady_def countLikes_def countReplies_def countReposts_def)
  have "exactFor k (db\<lparr>reaction_counts := upsertRow rc_PostCID
      (\<lambda>r. (countsRow c db)\<lparr>rc_PostCID := rc_PostCID r\<rparr>) (countsRow c db) (reaction_counts db)\<rparr>)"
    if "k \<noteq> c \<Longrightarrow> exactFor k db" for k db
    using that
    by (cases "k = c")
       (auto simp: exactFor_def storedCounts_def rowOf_upsert countsRow_def countLikes_def
         countReplies_def countReposts_def split: option.splits)
  then have "exactOff (S - {c}) db'" if "?P l r p db" "stmtUpsertCounts c l r p db = Inr db'"
    for l r p db db'
    using that by (auto simp: stmtUpsertCounts_def Let_def exactOff_def countsRow_def)
  then have up: "inTx (?P l r p) (execE (stmtUpsertCounts c l r p)) (\<lambda>_. exactOff (S - {c}))" for l r p
    by (rule inTx_execE [OF st(3)])
  show ?thesis
    unfolding UpdateReactionCountTx_def
    by (rule triple_bindE [OF triple_wrapE [OF inTx_queryE [OF steady_exactOff]]], simp,
        rule triple_bindE [OF triple_wrapE [OF inTx_queryE [OF st(1)]]], simp,
        rule triple_bindE [OF triple_wrapE [OF inTx_queryE [OF st(2)]]], simp,
        rule triple_wrapE [OF up])
qed

lemma inTx_frame:
  "inTx (exactOff S) (InsertPostTagsTx c tags) (\<lambda>_. exactOff S)"
  "inTx (exactOff S) (InsertPostMediaTx c m i) (\<lambda>_. exactOff S)"
  unfolding InsertPostTagsTx_def InsertPostMediaTx_def
  by (auto intro!: triple_wrapE inTx_execE [OF steady_exactOff] triple_retE
      simp: stmtInsertTags_def stmtInsertPostMedia_def elim!: exactOff_frame)

lemma inTx_whenE: "inTx I m (\<lambda>_. I) \<Longrightarrow> inTx I (whenE b m) (\<lambda>_. I)"
  by (simp add: whenE_def triple_retE)

lemma inTx_forE: "(\<And>y. inTx I (f y) (\<lambda>_. I)) \<Longrightarrow> inTx I (forE f ys) (\<lambda>_. I)"
  by (induction ys) (auto intro: triple_retE triple_seqE)

lemma storePostTx_exact:
  assumes "po_ReplyTo post = replyTo" "po_RepostOf post = []"
  shows "inTx (exactOff {}) (storePostTx post media replyTo) (\<lambda>_. exactOff {})"
proof -
  let ?S = "{po_ReplyTo post, po_RepostOf post} - {[]}"
  have S: "?S - {replyTo} = {}" "replyTo = [] \<Longrightarrow> ?S = {}" using assms by auto
  have last: "inTx (exactOff ?S) (whenE (0 < length replyTo)
      (wrapE p (UpdateReactionCountTx replyTo))) (\<lambda>_. exactOff {})" for p
    using triple_wrapE [OF UpdateReactionCountTx_exact [of ?S replyTo], of p] S
    by (cases "replyTo = []") (simp_all only: whenE_def triple_retE length_greater_0_conv if_True if_False simp_thms)
  have links: "inTx (exactOff ?S) (case im of (i, m) \<Rightarrow> wrapE p (InsertPostMediaTx c m (int i)))
      (\<lambda>_. exactOff ?S)" for p c and im :: "nat \<times> bytes"
    by (cases im) (simp add: triple_wrapE [OF inTx_frame(2)])
  show ?thesis
    unfolding storePostTx_def
    by (intro triple_seqE [OF triple_wrapE [OF InsertPostTx_exact]]
        triple_seqE [OF inTx_whenE [OF triple_wrapE [OF inTx_frame(1)]]]
        triple_seqE [OF inTx_forE [OF links]] last)
qed

text \<open>Which message a sealed post is: the one given, with an identifier and a signature that validate.\<close>

lemma bindE_lift_InrD:
  "bindE (wrapE p (liftE r)) k s = (Inr y, s') \<Longrightarrow> \<exists>v. r = Inr v \<and> k v s = (Inr y, s')"
  by (cases r) (simp_all add: run_bindE run_wrapE)

lemma seqE_check_InrD:
  "seqE (wrapE p (checkE v)) k n = (Inr y, n') \<Longrightarrow>
     v (nd_globals n) (nowNanos n) = None \<and> k n = (Inr y, n')"
  using checkE_cases [of v n] by (auto simp: run_seqE run_wrapE)

lemma seqE_put_InrD:
  assumes "seqE (wrapE p (casE (\<lambda>b. Put b c d))) k n = (Inr y, n')"
  shows "\<exists>s'. Put (nd_base n) c d (nd_fs n) = (Inr (), s') \<and> k (n\<lparr>nd_fs := s'\<rparr>) = (Inr y, n')"
proof -
  obtain r s' where put: "Put (nd_base n) c d (nd_fs n) = (r, s')" by force
  then have "casE (\<lambda>b. Put b c d) n = (r, n\<lparr>nd_fs := s'\<rparr>)" by (simp add: casE_run)
  with assms put show ?thesis by (cases r) simp_all
qed

lemma sealPost_InrD:
  assumes "sealPost x kp what ce post0 n = (Inr post, n')"
  shows "\<exists>payload raw s'. signingPayloadPost x post0 = Inr payload \<and>
    SignProtoMessage x (Some kp) payload = Inr (po_Signature post) \<and>
    ComputeCID (x_sum x) payload = Inr (po_Id post) \<and>
    post = post0\<lparr>po_Signature := po_Signature post, po_Id := po_Id post\<rparr> \<and>
    ValidatePost x (nd_globals n) (nowNanos n) (Some post) (Some (x_verify x)) = None \<and>
    x_marshal x (MPost post) = Inr raw \<and>
    Put (nd_base n) (po_Id post) raw (nd_fs n) = (Inr (), s') \<and> n' = n\<lparr>nd_fs := s'\<rparr>"
  using assms unfolding sealPost_def Let_def
  by - ((drule bindE_lift_InrD, elim exE conjE)+, drule seqE_check_InrD, elim conjE,
      drule bindE_lift_InrD, elim exE conjE, drule seqE_put_InrD, elim exE conjE, auto)

lemma keeps_sealPost [keeps_intro]: "keeps (onDB I) (sealPost x kp what ce post0)"
proof -
  have "keeps (onDB I) (checkE v)" for v
    by (rule keepsI) (use checkE_cases [of v] in \<open>metis prod.inject\<close>)
  then show ?thesis unfolding sealPost_def Let_def by (intro keeps_intro)
qed

lemma keeps_publish [keeps_intro]:
  "keeps (onDB I) (publishPost x p)" "keeps (onDB I) (publishReaction x r)"
  "keeps (onDB I) (publishProfile x f)" "keeps (onDB I) (publishFollowEvent x e)"
  "keeps (onDB I) (publishDirectMessage x d)"
proof -
  have "keeps (onDB I) (publishE t d)" for t d
    by (rule keepsI) (auto simp: publishE_def onDB_def Let_def split: option.splits)
  then have pe: "keeps (onDB I) (publishEnvelope x t m)" for t m
    unfolding publishEnvelope_def by (intro keeps_intro)
  show "keeps (onDB I) (publishPost x p)" "keeps (onDB I) (publishReaction x r)"
    "keeps (onDB I) (publishProfile x f)" "keeps (onDB I) (publishFollowEvent x e)"
    "keeps (onDB I) (publishDirectMessage x d)"
    unfolding publishPost_def publishReaction_def publishProfile_def publishFollowEvent_def
      publishDirectMessage_def
    by (intro keeps_intro pe)+
qed

lemma keeps_persistE [keeps_intro]: "keeps (onDB I) (persistE x sv what k m)"
  unfolding persistE_def by (intro keeps_intro)

lemma keeps_bind_fact:
  assumes "keeps I m" "\<And>s y s'. m s = (Inr y, s') \<Longrightarrow> P y" "\<And>y. P y \<Longrightarrow> keeps I (k y)"
  shows "keeps I (bindE m k)"
proof (rule keepsI)
  fix s r s''
  assume I: "I s" and run: "bindE m k s = (r, s'')"
  obtain r1 s1 where m: "m s = (r1, s1)" by force
  with assms(1) I have I1: "I s1" by (rule keepsD)
  show "I s''"
  proof (cases r1)
    case (Inl e)
    with run m I1 show ?thesis by (simp add: run_bindE)
  next
    case (Inr y)
    with run m have "k y s1 = (r, s'')" by (simp add: run_bindE)
    moreover from m Inr have "P y" by (auto intro: assms(2))
    ultimately show ?thesis using I1 assms(3) by (meson keepsD)
  qed
qed

interpretation counted: ancillary_writer "exactOff S" for S
  by unfold_locales
     (rule steady_exactOff | (rule keeps_frame [OF steady_exactOff]; erule exactOff_frame; simp))+

lemma transaction_exact:
  "inTx (exactOff {}) fn (\<lambda>_. exactOff {}) \<Longrightarrow> keeps (onDB (exactOff {})) (dbE (WithTransaction fn))"
  by (intro keeps_dbE keeps_triple WithTransaction_triple steady_exactOff)

lemma notifyParent_exact: "keeps (onDB (exactOff {})) (notifyParent p r)"
  unfolding notifyParent_def by (intro counted.steps)

lemma sealPost_keeps_fields:
  assumes "sealPost x kp w ce p0 n = (Inr post, n')"
  shows "po_ReplyTo post = po_ReplyTo p0 \<and> po_RepostOf post = po_RepostOf p0"
  using sealPost_InrD [OF assms] by (metis Post.select_convs(6,7) Post.surjective Post.update_convs(1,9))

lemma CreatePost_exact: "keeps (onDB (exactOff {})) (CreatePost x sv body media replyTo)"
proof -
  have tx: "keeps (onDB (exactOff {})) (dbE (WithTransaction (storePostTx post media replyTo)))"
    if "po_ReplyTo post = replyTo \<and> po_RepostOf post = []" for post
    using that by (intro transaction_exact storePostTx_exact) simp_all
  show ?thesis
    unfolding CreatePost_def
    by (rule keeps_bindE [OF keeps_liftE], rule keeps_seqE [OF keeps_liftE],
        rule keeps_bindE [OF keeps_getE], rule keeps_bind_fact [OF keeps_sealPost], erule sealPost_keeps_fields,
        rule keeps_seqE [OF tx], simp, intro counted.steps keeps_intro notifyParent_exact)
qed

lemma storeRepostTx_exact:
  assumes "po_ReplyTo post = []" "po_RepostOf post = original"
  shows "inTx (exactOff {}) (storeRepostTx post original) (\<lambda>_. exactOff {})"
proof -
  have "{po_ReplyTo post, po_RepostOf post} - {[]} - {original} = {}" using assms by auto
  with triple_seqE [OF triple_wrapE [OF InsertPostTx_exact] triple_wrapE [OF UpdateReactionCountTx_exact]]
  show ?thesis unfolding storeRepostTx_def by (metis (no_types))
qed

lemma CreateRepost_exact: "keeps (onDB (exactOff {})) (CreateRepost x sv original)"
proof -
  have tx: "keeps (onDB (exactOff {})) (dbE (WithTransaction (storeRepostTx post original)))"
    if "po_ReplyTo post = [] \<and> po_RepostOf post = original" for post
    using that by (intro transaction_exact storeRepostTx_exact) simp_all
  show ?thesis
    unfolding CreateRepost_def
    by (rule keeps_bindE [OF keeps_liftE], rule keeps_bindE, intro counted.steps, rule keeps_if,
        rule keeps_throwE, rule keeps_bindE [OF keeps_getE], rule keeps_bind_fact [OF keeps_sealPost],
        erule sealPost_keeps_fields, rule keeps_seqE [OF tx], simp, intro counted.steps keeps_intro)
qed

lemma storeReactionTx_exact:
  "re_Target r = target \<Longrightarrow> inTx (exactOff {}) (storeReactionTx r target) (\<lambda>_. exactOff {})"
  using triple_seqE [OF triple_wrapE [OF InsertReactionTx_exact]
    triple_wrapE [OF UpdateReactionCountTx_exact [of "{target}" target]]]
  unfolding storeReactionTx_def by (metis (no_types) Diff_cancel)

lemma createReactionWith_exact: "keeps (onDB (exactOff {})) (createReactionWith x sv kp target)"
proof -
  note tx = transaction_exact [OF storeReactionTx_exact]
  show ?thesis
    unfolding createReactionWith_def Let_def
    by (rule keeps_bindE [OF keeps_getE] keeps_bindE [OF keeps_wrapE [OF keeps_liftE]])+
       (rule keeps_seqE [OF keeps_persistE], rule keeps_seqE [OF tx], simp,
        intro counted.steps keeps_intro)
qed

text \<open>
  C5. Creating a post, a reply, a repost or a like never leaves a stale counter, whatever fails: the
  row and the recount are one transaction, so from a state in which the materialised likes, replies
  and reposts of every post are the numbers of rows, every outcome of these operations, an error of
  any statement, of the commit or of a later step included, is again such a state.
\<close>

theorem local_actions_keep_counters:
  assumes "\<forall>c. exactFor c (nd_db n)"
    and "n' \<in> {snd (CreatePost x sv body media replyTo n), snd (CreateRepost x sv original n),
      snd (CreateReaction x sv target n)}"
  shows "\<forall>c. exactFor c (nd_db n')"
proof -
  have "keeps (onDB (exactOff {})) (CreateReaction x sv target)"
    unfolding CreateReaction_def by (intro keeps_bindE keeps_liftE createReactionWith_exact)
  moreover have "onDB (exactOff {}) n" using assms(1) by (simp add: onDB_def exactOff_def)
  ultimately have "onDB (exactOff {}) n'"
    using assms(2) CreatePost_exact [of x sv body media replyTo] CreateRepost_exact [of x sv original]
    by (auto simp: keeps_def)
  then show ?thesis by (simp add: onDB_def exactOff_def)
qed

definition exampleKeys :: KeyPair where
  "exampleKeys = \<lparr>kp_PrivateKey = replicate 64 1, kp_PublicKey = replicate 32 1\<rparr>"

definition exampleService :: Service where
  "exampleService = \<lparr>sv_identity = Some exampleKeys, sv_notifications = True, sv_cas = True\<rparr>"

definition faultyNode :: Node where
  "faultyNode = postNode\<lparr>nd_db := (nd_db postNode)
     \<lparr>db_faults := (\<lambda>i. if i = 4 then Some (Err ''disk'') else None)\<rparr>\<rparr>"

theorem local_actions_keep_counters_witness:
  "\<forall>c. exactFor c (nd_db (snd (CreateReaction postExt exampleService [9] faultyNode)))"
proof (rule local_actions_keep_counters)
  show "\<forall>c. exactFor c (nd_db faultyNode)"
    by (simp add: exactFor_def storedCounts_def countLikes_def countReplies_def countReposts_def
        faultyNode_def postNode_def exampleNode_def emptyDB_def rowOf_def countRows_def)
  show "snd (CreateReaction postExt exampleService [9] faultyNode) \<in>
      {snd (CreatePost postExt exampleService '''' [] [] faultyNode),
       snd (CreateRepost postExt exampleService [] faultyNode),
       snd (CreateReaction postExt exampleService [9] faultyNode)}"
    by blast
qed

section \<open>Direct messages\<close>

text \<open>
  \<open>quiet F\<close>: the database does not fail and \<open>F\<close> is the publisher's schedule of errors, none of them a
  panic, so that a failing publication is only logged.
\<close>

definition quiet :: "(nat \<Rightarrow> goerr option) \<Rightarrow> Node \<Rightarrow> bool" where
  "quiet F n \<longleftrightarrow> nofault (nd_db n) \<and> nd_pubFaults n = F"

definition noPanics :: "ext \<Rightarrow> (nat \<Rightarrow> goerr option) \<Rightarrow> bool" where
  "noPanics x F \<longleftrightarrow> (\<forall>i p. F i \<noteq> Some (Panic p)) \<and> (\<forall>m p. x_marshalEnvelope x m \<noteq> Inl (Panic p))"

interpretation calm: faultless nofault
  by unfold_locales (simp_all add: steady_def nofault_def)

lemma sure_quiet: "sure nofault m \<Longrightarrow> sure (quiet F) (dbE m)"
  unfolding triple_def dbE_run quiet_def by (auto split: prod.splits)

lemma mild_publish:
  assumes "noPanics x F"
  shows "mild (quiet F) (publishEnvelope x t m)"
proof -
  have "mild (quiet F) (publishE t d)" for d
    using assms by (auto simp: mild_def publishE_def quiet_def noPanics_def Let_def split: option.splits)
  moreover have "mild (quiet F) (liftE (x_marshalEnvelope x m))"
    using assms by (auto simp: mild_def noPanics_def)
  ultimately show ?thesis unfolding publishEnvelope_def by (intro mild_intro)
qed

lemma sendDM_tail:
  assumes "noPanics x F"
  shows "triple (quiet F)
    (seqE (wrapE p1 (dbE (InsertDM c a r e nc ts)))
    (seqE (wrapE p2 (dbE (TrackContentForDM c a r)))
    (seqE (logE (publishDirectMessage x (Some dm))) (retE dm)))) (\<lambda>y n. y = dm) (\<lambda>_. False)"
proof -
  have "sure nofault (InsertDM c a r e nc ts)"
    unfolding InsertDM_def by (intro triple_wrapE calm.exec) (simp add: stmtInsertDM_def nofault_def)
  moreover have "sure nofault (TrackContentForDM c a r)"
    unfolding TrackContentForDM_def ShouldPinDM_def IsLocalIdentity_def by (intro calm.sures)
  moreover have "sure (quiet F) (logE (publishDirectMessage x (Some dm)))"
    unfolding publishDirectMessage_def option.case by (intro sure_logE mild_publish assms)
  ultimately show ?thesis
    by (intro sure_step [OF triple_wrapE [OF sure_quiet]] sure_step [of "quiet F" "logE _"] triple_retE)
       simp_all
qed

lemma activeIdentity_has: "hasIdentity (Some kp) \<Longrightarrow> activeIdentity (Some kp) = Inr kp"
  by (auto simp: hasIdentity_def activeIdentity_def)

lemma persist_runs:
  assumes "x_marshal x m = Inr raw" "c \<noteq> []" "nofault (nd_db n)" "live (nd_base n) c (nd_fs n)"
  shows "\<exists>n'. persistE x sv what c m n = (Inr (), n') \<and> quiet (nd_pubFaults n) n'"
proof -
  obtain s where "casE (\<lambda>b. Put b c raw) n = (Inr (), n\<lparr>nd_fs := s\<rparr>)"
    using Put_live [OF assms(4,2), of raw] by (auto simp: casE_run)
  with assms(1,3) show ?thesis by (simp add: persistE_def quiet_def)
qed

lemma sendDM_runs:
  assumes enc: "\<forall>m. \<exists>d. x_marshal x (MDirectMessage m) = Inr d" "\<forall>d. \<exists>c. x_sum x d = Inr c \<and> c \<noteq> []"
    and node: "nofault (nd_db n)" "\<forall>c. live (nd_base n) c (nd_fs n)" "noPanics x (nd_pubFaults n)"
    and key: "length (kp_PrivateKey kp) = 64"
    and c: "EncryptDM cr rnd (kp_PrivateKey kp) recipient (stringToBytes plaintext) = Inr (c, nonce)"
  shows "\<exists>dm n'. sendDMWith x cr rnd sv kp recipient plaintext n = (Inr dm, n') \<and>
    dm_Author dm = PublicKeyBytes kp \<and> dm_Recipient dm = recipient \<and>
    dm_EncryptedContent dm = c \<and> dm_Nonce dm = nonce"
proof -
  let ?dm0 = "\<lparr>dm_Id = [], dm_Author = PublicKeyBytes kp, dm_Recipient = recipient,
    dm_EncryptedContent = c, dm_Nonce = nonce, dm_Timestamp = nowMillis n, dm_Signature = []\<rparr>"
  obtain payload where "x_marshal x (MDirectMessage (?dm0\<lparr>dm_Id := [], dm_Signature := []\<rparr>)) = Inr payload"
    using enc(1) by blast
  then have pl: "signingPayloadDM x ?dm0 = Inr payload" by (simp add: signingPayloadDM_def marshalAs_def)
  obtain sig where sig: "SignProtoMessage x (Some kp) payload = Inr sig"
    using key by (simp add: SignProtoMessage_def PrivateKeySize_def)
  obtain cid where cid: "ComputeCID (x_sum x) payload = Inr cid" "cid \<noteq> []"
    using enc(2) by (metis ComputeCID_def sum.simps(6))
  define dm where "dm = ?dm0\<lparr>dm_Signature := sig, dm_Id := cid\<rparr>"
  obtain n1 where persist: "persistE x sv ''DM'' cid (MDirectMessage dm) n = (Inr (), n1)"
    and q: "quiet (nd_pubFaults n) n1"
    using persist_runs [OF _ cid(2) node(1)] enc(1) node(2) by metis
  let ?tail = "seqE (wrapE ''store DM'' (dbE (InsertDM cid (dm_Author dm) (dm_Recipient dm)
      (dm_EncryptedContent dm) (dm_Nonce dm) (toInt64 (dm_Timestamp dm)))))
    (seqE (wrapE ''track DM content'' (dbE (TrackContentForDM (dm_Id dm) (dm_Author dm) (dm_Recipient dm))))
    (seqE (logE (publishDirectMessage x (Some dm))) (retE dm)))"
  have "dm_Id dm = cid" by (simp add: dm_def)
  with sendDM_tail [OF node(3)] have "triple (quiet (nd_pubFaults n)) ?tail (\<lambda>y n. y = dm) (\<lambda>_. False)"
    by (simp only:)
  moreover obtain r n2 where t: "?tail n1 = (r, n2)" by force
  ultimately have "r = Inr dm" using q by (cases r) (auto dest: tripleD_Inr tripleD_Inl)
  moreover have "sendDMWith x cr rnd sv kp recipient plaintext n = ?tail n1"
    using persist by (simp add: sendDMWith_def c pl sig cid(1) Let_def dm_def)
  ultimately have "sendDMWith x cr rnd sv kp recipient plaintext n = (Inr dm, n2)" using t by simp
  then show ?thesis by (auto simp: dm_def)
qed

text \<open>
  C7. What is sent is what is read: on a working node \<open>SendDM\<close> returns a message, and from that message
  alone both the recipient's and the sender's \<open>DecryptDM\<close> give the text back, byte for byte, for all
  key pairs made from seeds, every text (the empty one included) and every nonce, a failing
  publication included. The cryptographic box is assumed to behave as documented (\<open>goodBox\<close>).
\<close>

theorem dm_roundtrip:
  assumes box: "goodBox cr" and a: "KeyPairFromSeed cr sa = Inr kpa" and b: "KeyPairFromSeed cr sb = Inr kpb"
    and ids: "hasIdentity (Some kpa)" "hasIdentity (Some kpb)"
    and svs: "sv_identity sva = Some kpa" "sv_identity svb = Some kpb"
    and nonce: "length nonce = 24"
    and enc: "\<forall>m. \<exists>d. x_marshal x (MDirectMessage m) = Inr d" "\<forall>d. \<exists>c. x_sum x d = Inr c \<and> c \<noteq> []"
    and node: "nofault (nd_db n)" "\<forall>c. live (nd_base n) c (nd_fs n)" "noPanics x (nd_pubFaults n)"
  shows "\<exists>dm n'. SendDM x cr (Inr nonce) sva (PublicKeyBytes kpb) plaintext n = (Inr dm, n') \<and>
    DMService_DecryptDM cr svb (Some dm) = Inr plaintext \<and>
    DMService_DecryptDM cr sva (Some dm) = Inr plaintext"
proof -
  obtain c where c: "EncryptDM cr (Inr nonce) (kp_PrivateKey kpa) (PublicKeyBytes kpb)
      (stringToBytes plaintext) = Inr (c, nonce)"
    "DecryptDM cr (kp_PrivateKey kpb) (PublicKeyBytes kpa) c nonce = Inr (stringToBytes plaintext)"
    "DecryptDM cr (kp_PrivateKey kpa) (PublicKeyBytes kpb) c nonce = Inr (stringToBytes plaintext)"
    using encrypt_decrypt [OF box a b] by blast
  have key: "length (kp_PrivateKey kpa) = 64"
    using box a by (auto simp: KeyPairFromSeed_def goodBox_def SeedSize_def split: if_splits)
  obtain dm n' where "sendDMWith x cr (Inr nonce) sva kpa (PublicKeyBytes kpb) plaintext n = (Inr dm, n')"
    and dm: "dm_Author dm = PublicKeyBytes kpa" "dm_Recipient dm = PublicKeyBytes kpb"
      "dm_EncryptedContent dm = c" "dm_Nonce dm = nonce"
    using sendDM_runs [OF enc node key c(1)] by blast
  then have "SendDM x cr (Inr nonce) sva (PublicKeyBytes kpb) plaintext n = (Inr dm, n')"
    by (simp add: SendDM_def svs activeIdentity_has [OF ids(1)])
  moreover have "DMService_DecryptDM cr svb (Some dm) = Inr plaintext"
    using c(2) nonce svs(2) activeIdentity_has [OF ids(2)] dm
    by (simp add: DMService_DecryptDM_def string_bytes)
  moreover have "DMService_DecryptDM cr sva (Some dm) = Inr plaintext"
    using c(3) nonce svs(1) activeIdentity_has [OF ids(1)] dm
    by (auto simp: DMService_DecryptDM_def string_bytes)
  ultimately show ?thesis by blast
qed

definition exampleCrypto :: crypto where
  "exampleCrypto = \<lparr>cr_edPublic = (\<lambda>seed. take 32 (seed @ replicate 32 0)),
     cr_sha512 = (\<lambda>m. take 64 (m @ replicate 64 0)),
     cr_montgomery = (\<lambda>pk. Inr (clampScalar (take 64 (pk @ replicate 64 0)))), cr_base = (\<lambda>b. b),
     cr_seal = (\<lambda>m n p k. m), cr_open = (\<lambda>c n p k. Some c)\<rparr>"

lemma exampleCrypto_good: "goodBox exampleCrypto"
  by (auto simp: goodBox_def exampleCrypto_def SeedSize_def min_def)

lemma exampleCrypto_keys:
  "KeyPairFromSeed exampleCrypto (replicate 32 b) =
     Inr \<lparr>kp_PrivateKey = replicate 32 b @ replicate 32 b, kp_PublicKey = replicate 32 b\<rparr>"
  by (simp add: KeyPairFromSeed_def exampleCrypto_def SeedSize_def)

theorem dm_roundtrip_witness:
  "\<exists>dm n'. SendDM exampleExt exampleCrypto (Inr (replicate 24 7))
      \<lparr>sv_identity = Some \<lparr>kp_PrivateKey = replicate 32 1 @ replicate 32 1, kp_PublicKey = replicate 32 1\<rparr>,
       sv_notifications = False, sv_cas = True\<rparr> (replicate 32 2) ''hello'' exampleNode = (Inr dm, n')"
proof -
  let ?a = "\<lparr>kp_PrivateKey = replicate 32 1 @ replicate 32 1, kp_PublicKey = replicate 32 1\<rparr> :: KeyPair"
    and ?b = "\<lparr>kp_PrivateKey = replicate 32 2 @ replicate 32 2, kp_PublicKey = replicate 32 2\<rparr> :: KeyPair"
  have ids: "hasIdentity (Some ?a)" "hasIdentity (Some ?b)"
    by (simp_all add: hasIdentity_def PublicKeyBytes_def isAllZero_def)
  have enc: "\<forall>m. \<exists>d. x_marshal exampleExt (MDirectMessage m) = Inr d"
    "\<forall>d. \<exists>c. x_sum exampleExt d = Inr c \<and> c \<noteq> []"
    by (simp_all add: exampleExt_def exampleSum_def)
  have node: "nofault (nd_db exampleNode)" "\<forall>c. live (nd_base exampleNode) c (nd_fs exampleNode)"
    "noPanics exampleExt (nd_pubFaults exampleNode)"
    by (simp_all add: exampleNode_def nofault_def emptyDB_def exampleFs_live noPanics_def exampleExt_def)
  have nonce: "length (replicate 24 7) = 24" by simp
  from dm_roundtrip [OF exampleCrypto_good exampleCrypto_keys exampleCrypto_keys ids _ _ nonce enc node,
    of "\<lparr>sv_identity = Some ?a, sv_notifications = False, sv_cas = True\<rparr>"
    "\<lparr>sv_identity = Some ?b, sv_notifications = False, sv_cas = True\<rparr>" "''hello''"]
  show ?thesis by (simp add: PublicKeyBytes_def) blast
qed

section \<open>A local post reaches the peers\<close>

text \<open>What the steps between the content store and the publication do not touch.\<close>

definition aside :: "Node \<Rightarrow> Node \<Rightarrow> bool" where
  "aside n0 n \<longleftrightarrow> nd_fs n = nd_fs n0 \<and> nd_base n = nd_base n0 \<and> nd_publisher n = nd_publisher n0 \<and>
     nd_pubFaults n = nd_pubFaults n0"

lemma keeps_aside [keeps_intro]:
  "keeps (aside n0) (dbE m)" "keeps (aside n0) (emitE on ev)"
  by (auto simp: keeps_def dbE_run emitE_def aside_def split: prod.splits)

lemma keeps_aside_notify [keeps_intro]: "keeps (aside n0) (notifyParent p r)"
  unfolding notifyParent_def NotifyReply_def ownerForPost_def insertNotificationNow_def
    emitNotification_def
  by (intro keeps_intro)

lemma seqE_InrD:
  "seqE m k s = (Inr y, s'') \<Longrightarrow> \<exists>u s'. m s = (Inr u, s') \<and> k s' = (Inr y, s'')"
  unfolding seqE_def by (drule bindE_InrD) blast

lemma CreatePost_InrD:
  assumes "CreatePost x sv body media replyTo n = (Inr post, n')"
  shows "\<exists>kp n1 n2. activeIdentity (sv_identity sv) = Inr kp \<and>
    sealPost x kp ''post'' ''store in CAS''
      \<lparr>po_Id = [], po_Author = PublicKeyBytes kp, po_Timestamp = nowMillis n, po_Content = body,
       po_MediaCids = media, po_ReplyTo = replyTo, po_RepostOf = [], po_Tags = extractHashtags body,
       po_Signature = []\<rparr> n = (Inr post, n1) \<and>
    aside n1 n2 \<and> logE (publishPost x (Some post)) n2 = (Inr (), n')"
proof -
  define p0 where "p0 kp = \<lparr>po_Id = [], po_Author = PublicKeyBytes kp, po_Timestamp = nowMillis n,
    po_Content = body, po_MediaCids = media, po_ReplyTo = replyTo, po_RepostOf = [],
    po_Tags = extractHashtags body, po_Signature = []\<rparr>" for kp
  define steps where "steps p = seqE (dbE (WithTransaction (storePostTx p media replyTo)))
      (seqE (wrapE ''track post content'' (dbE (TrackContentForAuthor (po_Id p) (po_Author p))))
            (whenE (0 < length replyTo \<and> sv_notifications sv) (notifyParent p replyTo)))" for p
  define publish where "publish p = seqE (logE (publishPost x (Some p))) (retE p)" for p
  obtain kp where kp: "activeIdentity (sv_identity sv) = Inr kp"
    using assms unfolding CreatePost_def by (cases "activeIdentity (sv_identity sv)") simp_all
  have "bindE (sealPost x kp ''post'' ''store in CAS'' (p0 kp)) (\<lambda>p. seqE (steps p) (publish p)) n =
      (Inr post, n')"
    using assms unfolding CreatePost_def p0_def steps_def publish_def seqE_assoc kp
    by (cases "ValidatePostContent body") simp_all
  from bindE_InrD [OF this] obtain p n1 where
    seal: "sealPost x kp ''post'' ''store in CAS'' (p0 kp) n = (Inr p, n1)"
    and "seqE (steps p) (publish p) n1 = (Inr post, n')" by blast
  from seqE_InrD [OF this(2)] obtain u n2 where
    st: "steps p n1 = (Inr u, n2)" and pb: "publish p n2 = (Inr post, n')" by blast
  from seqE_InrD [OF pb [unfolded publish_def]] have "p = post"
    "logE (publishPost x (Some post)) n2 = (Inr (), n')" by auto
  moreover have "aside n1 n2"
  proof (rule keepsD [of _ "steps p"])
    show "keeps (aside n1) (steps p)" unfolding steps_def by (intro keeps_intro)
  qed (simp add: aside_def, rule st)
  ultimately show ?thesis using kp seal unfolding p0_def by blast
qed

lemma ValidatePost_later:
  assumes "ValidatePost x g now (Some post) v = None" "validateTimestamp g' now' (po_Timestamp post) = None"
  shows "ValidatePost x g' now' (Some post) v = None"
  using assms by (auto simp: ValidatePost.simps checkSigned_def split: if_splits option.splits sum.splits)

text \<open>
  C6. From one node to the next: when \<open>CreatePost\<close> returns a post on a node that publishes, the last
  publication is on the author's topic, and any other node that has the author's profile, does not know
  the post and whose clock finds the timestamp acceptable stores exactly what was written, text,
  author and reply target, when it processes that publication: the row has these fields and its
  content store holds the same bytes as the author's. Supposed are that what can be serialised can be
  sent and decoded, and that neither node's storage nor the publication fails.
\<close>

theorem local_post_reaches_peers:
  assumes create: "CreatePost x sv body media replyTo n = (Inr post, n')"
    and pub: "nd_publisher n" "nd_pubFaults n = (\<lambda>_. None)"
    and wire: "\<forall>m raw. x_marshal x m = Inr raw \<longrightarrow>
      (\<exists>d. x_marshalEnvelope x m = Inr d \<and> x_unmarshalEnvelope x d = Inr (Some m))"
    and cids: "\<forall>d c. x_sum x d = Inr c \<longrightarrow> c \<noteq> []"
    and peer: "validateTimestamp (nd_globals nb) (nowNanos nb) (po_Timestamp post) = None"
      "\<not> hasKey p_CID (po_Id post) (posts (nd_db nb))"
      "hasKey pf_Pubkey (po_Author post) (profiles (nd_db nb))"
      "nofault (nd_db nb)" "live (nd_base nb) (po_Id post) (nd_fs nb)"
  shows "\<exists>d nb' raw. last (nd_published n') = (PostsTopic (EncodeToString (po_Author post)), d) \<and>
    HandleMessage x ft d nb = (Inr (), nb') \<and>
    (\<exists>p\<in>set (posts (nd_db nb')). postOf post p \<and> p_Content p = body \<and> p_ReplyTo p = nilIfEmpty replyTo) \<and>
    objects nb' (po_Id post) = Some raw \<and> objects n' (po_Id post) = Some raw"
proof -
  obtain kp n1 n2 where seal: "sealPost x kp ''post'' ''store in CAS''
      \<lparr>po_Id = [], po_Author = PublicKeyBytes kp, po_Timestamp = nowMillis n, po_Content = body,
       po_MediaCids = media, po_ReplyTo = replyTo, po_RepostOf = [], po_Tags = extractHashtags body,
       po_Signature = []\<rparr> n = (Inr post, n1)"
    and as: "aside n1 n2" and publish: "logE (publishPost x (Some post)) n2 = (Inr (), n')"
    using CreatePost_InrD [OF create] by blast
  from sealPost_InrD [OF seal] obtain payload raw s' where
    cid: "ComputeCID (x_sum x) payload = Inr (po_Id post)"
    and val: "ValidatePost x (nd_globals n) (nowNanos n) (Some post) (Some (x_verify x)) = None"
    and raw: "x_marshal x (MPost post) = Inr raw"
    and put: "Put (nd_base n) (po_Id post) raw (nd_fs n) = (Inr (), s')" "n1 = n\<lparr>nd_fs := s'\<rparr>"
    and eq: "post = \<lparr>po_Id = po_Id post, po_Author = PublicKeyBytes kp, po_Timestamp = nowMillis n,
      po_Content = body, po_MediaCids = media, po_ReplyTo = replyTo, po_RepostOf = [],
      po_Tags = extractHashtags body, po_Signature = po_Signature post\<rparr>"
    by auto
  have fields: "po_Content post = body" "po_ReplyTo post = replyTo" by (subst eq, simp)+
  obtain d where d: "x_marshalEnvelope x (MPost post) = Inr d" "x_unmarshalEnvelope x d = Inr (Some (MPost post))"
    using wire raw by blast
  have "nd_publisher n2" "nd_pubFaults n2 = (\<lambda>_. None)" using as pub put(2) by (simp_all add: aside_def)
  then have n': "n' = n2\<lparr>nd_published := nd_published n2 @
      [(PostsTopic (EncodeToString (po_Author post)), d)]\<rparr>"
    using publish by (simp add: logE_def publishPost_def publishEnvelope_def publishE_def Let_def d(1) run_bindE run_wrapE)
  have ne: "po_Id post \<noteq> []" using cid cids by (auto simp: ComputeCID_def split: sum.splits)
  have valb: "ValidatePost x (nd_globals nb) (nowNanos nb) (Some post) (Some (verifySignature x)) = None"
    unfolding verifySignature_def by (rule ValidatePost_later [OF val peer(1)])
  have db: "db_faults (nd_db nb) = (\<lambda>_. None)" using peer(4) by (simp add: nofault_def)
  from post_gets_through [OF d(2) valb peer(2) ne peer(3) raw db peer(5), of ft]
  obtain nb' p where "HandleMessage x ft d nb = (Inr (), nb')" "p \<in> set (posts (nd_db nb'))" "postOf post p"
    "objects nb' (po_Id post) = Some raw" by blast
  moreover have "objects n' (po_Id post) = Some raw"
    using n' as put(2) cas.put_ok [OF put(1)] by (simp add: aside_def objects_def)
  ultimately show ?thesis using n' fields by (auto simp: postOf_def)
qed

text \<open>An encoding of the two messages that occur when \<open>hello\<close> is posted, and nodes that use it.\<close>

definition wirePost :: "bytes \<Rightarrow> bytes \<Rightarrow> Post" where
  "wirePost ident sig = \<lparr>po_Id = ident, po_Author = replicate 32 1, po_Timestamp = 0, po_Content = ''hello'',
     po_MediaCids = [], po_ReplyTo = [], po_RepostOf = [], po_Tags = [], po_Signature = sig\<rparr>"

definition wireMessage :: "bool \<Rightarrow> message" where
  "wireMessage b = MPost (if b then wirePost [18, 32, 0] (replicate 64 3) else wirePost [] [])"

definition wireMarshal :: "message \<Rightarrow> goerr + bytes" where
  "wireMarshal m = (if m = wireMessage True then Inr [1] else if m = wireMessage False then Inr [0]
     else Inl (Err ''invalid UTF-8''))"

definition wireExt :: ext where
  "wireExt = \<lparr>x_sum = exampleSum, x_marshal = wireMarshal, x_marshalEnvelope = wireMarshal,
     x_unmarshalEnvelope = (\<lambda>d. Inr (Some (wireMessage (d = [1])))), x_verify = (\<lambda>a p s. True),
     x_sign = (\<lambda>k m. replicate 64 3)\<rparr>"

definition wireNode :: Node where
  "wireNode = postNode\<lparr>nd_publisher := True\<rparr>"

lemma wireMarshal_eqs:
  "wireMarshal (MPost (wirePost [18, 32, 0] (replicate 64 3))) = Inr [1]"
  "wireMarshal (MPost (wirePost [] [])) = Inr [0]"
  "wireMarshal m = Inr d \<Longrightarrow> m = wireMessage (d = [1])"
  by (auto simp: wireMarshal_def wireMessage_def wirePost_def split: if_splits)

lemma hello_tags: "extractHashtags ''hello'' = []"
  by (simp add: extractHashtags_def)

lemma wirePost_valid:
  "ValidatePost wireExt init_vglobals 0 (Some (wirePost [18, 32, 0] (replicate 64 3))) (Some v) = None"
  if "v = x_verify wireExt"
proof -
  have "RuneCountInString ''hello'' \<le> MaxContentLength"
    using RuneCountInString_le [of "''hello''"] by (simp add: MaxContentLength_def)
  moreover have "postSigningPayload wireExt (wirePost [18, 32, 0] (replicate 64 3)) = Inr [0]"
    using wireMarshal_eqs(2)
    by (simp add: postSigningPayload_def marshalAs_def wireExt_def wirePost_def)
  ultimately show ?thesis
    using that
    by (simp add: ValidatePost.simps wirePost_def Ed25519PublicKeySize_def checkSigned_None
        validateTimestamp_def toInt64_def init_vglobals_def MaxFutureSkew_def DefaultMaxPastAge_def
        msec_def Ed25519SignatureSize_def verifyCID_None ComputeCID_def exampleSum_def wireExt_def)
qed

abbreviation wireSealed :: Post where
  "wireSealed \<equiv> wirePost [18, 32, 0] (replicate 64 3)"

lemma wirePost_sealed:
  "\<exists>s. sealPost wireExt exampleKeys ''post'' ''store in CAS'' (wirePost [] []) wireNode =
     (Inr wireSealed, wireNode\<lparr>nd_fs := s\<rparr>)"
proof -
  let ?p = wireSealed
  have upd: "(wirePost [] [])\<lparr>po_Signature := replicate 64 3, po_Id := [18, 32, 0]\<rparr> = ?p"
    "(wirePost [] [])\<lparr>po_Id := [], po_Signature := []\<rparr> = wirePost [] []"
    by (simp_all add: wirePost_def)
  have steps: "signingPayloadPost wireExt (wirePost [] []) = Inr [0]"
    "SignProtoMessage wireExt (Some exampleKeys) [0] = Inr (replicate 64 3)"
    "ComputeCID (x_sum wireExt) [0] = Inr [18, 32, 0]" "x_marshal wireExt (MPost ?p) = Inr [1]"
    by (simp_all add: signingPayloadPost_def marshalAs_def upd wireExt_def wireMarshal_eqs
        SignProtoMessage_def exampleKeys_def PrivateKeySize_def ComputeCID_def exampleSum_def)
  obtain s where put: "casE (\<lambda>b. Put b [18, 32, 0] [1]) wireNode = (Inr (), wireNode\<lparr>nd_fs := s\<rparr>)"
    using Put_live [OF exampleFs_live, of "[18, 32, 0]" "[1]"]
    by (auto simp: casE_run wireNode_def postNode_simps)
  have check: "checkE (\<lambda>g now. ValidatePost wireExt g now (Some ?p) (Some (x_verify wireExt))) wireNode =
      (Inr (), wireNode)"
    using wirePost_valid [OF refl] postNode_simps(2)
    by (simp add: checkE_def wireNode_def postNode_simps(1) nowNanos_def)
  have "sealPost wireExt exampleKeys ''post'' ''store in CAS'' (wirePost [] []) wireNode =
      (Inr ?p, wireNode\<lparr>nd_fs := s\<rparr>)"
    using put check steps upd by (simp add: sealPost_def Let_def)
  then show ?thesis by blast
qed

lemma wirePost_created:
  "\<exists>n'. CreatePost wireExt exampleService ''hello'' [] [] wireNode =
     (Inr (wirePost [18, 32, 0] (replicate 64 3)), n')"
proof -
  let ?p = "wirePost [18, 32, 0] (replicate 64 3)"
  have act: "activeIdentity (sv_identity exampleService) = Inr exampleKeys"
    by (simp add: exampleService_def exampleKeys_def activeIdentity_def PublicKeyBytes_def isAllZero_def)
  have ok: "ValidatePostContent ''hello'' = Inr ()"
    using RuneCountInString_le [of "''hello''"] by (simp add: ValidatePostContent_def MaxPostContentChars_def)
  have post0: "\<lparr>po_Id = [], po_Author = PublicKeyBytes exampleKeys, po_Timestamp = nowMillis wireNode,
      po_Content = ''hello'', po_MediaCids = [], po_ReplyTo = [], po_RepostOf = [], po_Tags = [],
      po_Signature = []\<rparr> = wirePost [] []"
    by (simp add: wirePost_def exampleKeys_def PublicKeyBytes_def nowMillis_def wireNode_def postNode_def
        exampleNode_def emptyDB_def)
  obtain s where seal: "sealPost wireExt exampleKeys ''post'' ''store in CAS'' (wirePost [] []) wireNode =
      (Inr ?p, wireNode\<lparr>nd_fs := s\<rparr>)"
    using wirePost_sealed by blast
  have flds: "po_Tags ?p = []" "po_ReplyTo ?p = []" "po_RepostOf ?p = []" "po_Id ?p = [18, 32, 0]"
    "po_Author ?p = replicate 32 1"
    by (simp_all add: wirePost_def)
  let ?n1 = "wireNode\<lparr>nd_fs := s\<rparr>"
  have "\<exists>db'. WithTransaction (storePostTx ?p [] []) (nd_db ?n1) = (Inr (), db') \<and> nofault db'"
    by (simp add: wireNode_def postNode_def exampleNode_def emptyDB_def WithTransaction_def storePostTx_def
        InsertPostTx_def stmtInsertPost_def flds execE_def run_wrapE run_seqE tick_def exampleProfileRow_def
        nofault_def)
  then obtain n2 where tx: "dbE (WithTransaction (storePostTx ?p [] [])) ?n1 = (Inr (), n2)"
    and q: "quiet (\<lambda>_. None) n2"
    by (auto simp: dbE_run quiet_def wireNode_def postNode_def exampleNode_def)
  have "sure (quiet (\<lambda>_. None)) (wrapE ''track post content''
      (dbE (TrackContentForAuthor (po_Id ?p) (po_Author ?p))))"
    by (intro triple_wrapE sure_quiet calm.track)
  from sure_run [OF this q] obtain n3 where
    n3: "wrapE ''track post content'' (dbE (TrackContentForAuthor (po_Id ?p) (po_Author ?p))) n2 = (Inr (), n3)"
    and q3: "quiet (\<lambda>_. None) n3" by auto
  have "sure (quiet (\<lambda>_. None)) (logE (publishPost wireExt (Some ?p)))"
    unfolding publishPost_def option.case
    by (intro sure_logE mild_publish) (auto simp: noPanics_def wireExt_def wireMarshal_def)
  from sure_run [OF this q3] obtain n4 where
    n4: "logE (publishPost wireExt (Some ?p)) n3 = (Inr (), n4)" by auto
  note runs = seal tx n3 n4
  have "CreatePost wireExt exampleService ''hello'' [] [] wireNode = (Inr ?p, n4)"
    using runs by (simp add: CreatePost_def act ok hello_tags post0)
  then show ?thesis by blast
qed

theorem local_post_reaches_peers_witness:
  "\<exists>d nb'. HandleMessage wireExt exampleFetchers d postNode = (Inr (), nb') \<and>
    (\<exists>p\<in>set (posts (nd_db nb')). p_Content p = ''hello'')"
proof -
  let ?p = "wirePost [18, 32, 0] (replicate 64 3)"
  obtain n' where c: "CreatePost wireExt exampleService ''hello'' [] [] wireNode = (Inr ?p, n')"
    using wirePost_created by blast
  have w: "nd_publisher wireNode" "nd_pubFaults wireNode = (\<lambda>_. None)"
    by (simp_all add: wireNode_def postNode_def exampleNode_def)
  have wire: "\<forall>m raw. x_marshal wireExt m = Inr raw \<longrightarrow>
      (\<exists>d. x_marshalEnvelope wireExt m = Inr d \<and> x_unmarshalEnvelope wireExt d = Inr (Some m))"
    using wireMarshal_eqs(3) by (fastforce simp: wireExt_def)
  have cids: "\<forall>d c. x_sum wireExt d = Inr c \<longrightarrow> c \<noteq> []" by (auto simp: wireExt_def exampleSum_def)
  have ts: "validateTimestamp (nd_globals postNode) (nowNanos postNode) (po_Timestamp ?p) = None"
    by (simp add: postNode_simps validateTimestamp_def toInt64_def init_vglobals_def MaxFutureSkew_def
        DefaultMaxPastAge_def msec_def wirePost_def)
  have peer: "\<not> hasKey p_CID (po_Id ?p) (posts (nd_db postNode))"
    "hasKey pf_Pubkey (po_Author ?p) (profiles (nd_db postNode))" "nofault (nd_db postNode)"
    "live (nd_base postNode) (po_Id ?p) (nd_fs postNode)"
    by (simp_all add: postNode_simps wirePost_def exampleProfileRow_def nofault_def exampleFs_live)
  from local_post_reaches_peers [OF c w wire cids ts peer, of exampleFetchers] show ?thesis by blast
qed

section \<open>Hashtags\<close>

text \<open>\<open>isTag s t\<close>: a \<open>#\<close> in \<open>s\<close> is followed by the maximal run \<open>t\<close> of word characters.\<close>

definition isTag :: "string \<Rightarrow> string \<Rightarrow> bool" where
  "isTag s t \<longleftrightarrow> t \<noteq> [] \<and> (\<forall>c\<in>set t. isWordChar c) \<and>
     (\<exists>pre suf. s = pre @ CHR ''#'' # t @ suf \<and> (suf = [] \<or> \<not> isWordChar (hd suf)))"

lemma hash_no_word: "\<not> isWordChar CHR ''#''"
  by (simp add: isWordChar_def)

lemma takeWhile_run:
  "\<forall>c\<in>set t. P c \<Longrightarrow> suf = [] \<or> \<not> P (hd suf) \<Longrightarrow> takeWhile P (t @ suf) = t"
  by (cases suf) (simp_all add: takeWhile_append2)

lemma isTag_Cons:
  "isTag (c # cs) t \<longleftrightarrow>
     c = CHR ''#'' \<and> t \<noteq> [] \<and> t = takeWhile isWordChar cs \<or> isTag cs t"
proof
  assume "isTag (c # cs) t"
  then obtain pre suf where t: "t \<noteq> []" "\<forall>c\<in>set t. isWordChar c" "suf = [] \<or> \<not> isWordChar (hd suf)"
    and eq: "c # cs = pre @ CHR ''#'' # t @ suf" by (auto simp: isTag_def)
  show "c = CHR ''#'' \<and> t \<noteq> [] \<and> t = takeWhile isWordChar cs \<or> isTag cs t"
  proof (cases pre)
    case Nil
    with eq have "c = CHR ''#''" "cs = t @ suf" by simp_all
    with t takeWhile_run [OF t(2,3)] show ?thesis by simp
  next
    case (Cons a pre')
    with eq t show ?thesis by (auto simp: isTag_def)
  qed
next
  assume "c = CHR ''#'' \<and> t \<noteq> [] \<and> t = takeWhile isWordChar cs \<or> isTag cs t"
  then show "isTag (c # cs) t"
  proof
    assume run: "c = CHR ''#'' \<and> t \<noteq> [] \<and> t = takeWhile isWordChar cs"
    then have "c # cs = [] @ CHR ''#'' # t @ dropWhile isWordChar cs" by simp
    moreover have "dropWhile isWordChar cs = [] \<or> \<not> isWordChar (hd (dropWhile isWordChar cs))"
      using hd_dropWhile by blast
    ultimately show ?thesis using run set_takeWhileD unfolding isTag_def by metis
  next
    assume "isTag cs t"
    then show ?thesis unfolding isTag_def by (metis append_Cons)
  qed
qed

text \<open>A tag does not begin inside the run of another.\<close>

lemma isTag_dropWhile: "isTag (dropWhile isWordChar cs) t \<longleftrightarrow> isTag cs t"
proof (induction cs)
  case (Cons c cs)
  show ?case
  proof (cases "isWordChar c")
    case True
    then have "c \<noteq> CHR ''#''" using hash_no_word by auto
    with True Cons show ?thesis by (simp add: isTag_Cons)
  qed simp
qed simp

lemma hashtagMatches_exact: "set (hashtagMatches s) = {t. isTag s t}"
proof (induction s rule: hashtagMatches.induct)
  case 1
  show ?case by (simp add: isTag_def)
next
  case (2 c cs)
  then show ?case
    by (cases "c = CHR ''#'' \<and> takeWhile isWordChar cs \<noteq> []") (auto simp: isTag_Cons isTag_dropWhile)
qed

definition smallTags :: "string list \<Rightarrow> string set" where
  "smallTags ms = {map toLower m |m. m \<in> set ms \<and> length m \<le> maxTagLength}"

lemma smallTags_Cons:
  "smallTags (m # ms) = (if length m \<le> maxTagLength then insert (map toLower m) (smallTags ms) else smallTags ms)"
  by (auto simp: smallTags_def)

lemma collectTags_exact:
  assumes "distinct tags" "length tags < maxTagsPerPost"
  shows "distinct (collectTags ms (set tags) tags) \<and>
    length (collectTags ms (set tags) tags) \<le> maxTagsPerPost \<and>
    set tags \<subseteq> set (collectTags ms (set tags) tags) \<and>
    set (collectTags ms (set tags) tags) \<subseteq> set tags \<union> smallTags ms \<and>
    (set (collectTags ms (set tags) tags) = set tags \<union> smallTags ms \<or>
     length (collectTags ms (set tags) tags) = maxTagsPerPost)"
  using assms
proof (induction ms arbitrary: tags)
  case Nil
  then show ?case by (simp add: smallTags_def)
next
  case (Cons m ms)
  let ?t = "map toLower m"
  consider "maxTagLength < length m" | "length m \<le> maxTagLength" "?t \<in> set tags"
    | "length m \<le> maxTagLength" "?t \<notin> set tags" by linarith
  then show ?case
  proof cases
    case 1
    with Cons show ?thesis by (simp add: smallTags_Cons)
  next
    case 2
    with Cons show ?thesis by (auto simp: smallTags_Cons)
  next
    case 3
    show ?thesis
    proof (cases "maxTagsPerPost \<le> Suc (length tags)")
      case True
      with 3 Cons.prems show ?thesis by (auto simp: smallTags_Cons)
    next
      case False
      with 3 Cons.prems Cons.IH [of "tags @ [?t]"] show ?thesis
        by (simp add: smallTags_Cons Let_def)
    qed
  qed
qed

text \<open>
  The hashtags of a post are those of its text: \<open>extractHashtags\<close> returns at most 20 different tags,
  each the lower-case form of a maximal run of at most 100 word characters that follows a \<open>#\<close>, and all
  of these unless the 20 are reached.
\<close>

theorem hashtags_exact:
  "distinct (extractHashtags s) \<and> length (extractHashtags s) \<le> 20 \<and>
   set (extractHashtags s) \<subseteq> {map toLower t |t. isTag s t \<and> length t \<le> 100} \<and>
   (set (extractHashtags s) = {map toLower t |t. isTag s t \<and> length t \<le> 100} \<or>
    length (extractHashtags s) = 20)"
proof -
  have "smallTags (hashtagMatches s) = {map toLower t |t. isTag s t \<and> length t \<le> 100}"
    by (simp add: smallTags_def hashtagMatches_exact maxTagLength_def)
  with collectTags_exact [of "[]" "hashtagMatches s"] show ?thesis
    by (simp add: extractHashtags_def maxTagsPerPost_def)
qed

end
