(* ===== verification/FeedProps.thy ===== *)
theory FeedProps
  imports Feed
begin

text \<open>
  Properties of \<open>pkg/feed\<close>: eviction deletes only what is tracked and not pinned, ends, and reaches its
  target when nothing fails; a page of the home feed is the right one; what is fetched is stored
  only under its hash; the waiting time of the background synchronisation stays in its bounds.
\<close>

section \<open>Eviction spares pinned and untracked content\<close>

lemma keeps_forE_set:
  "(\<And>y. y \<in> set ys \<Longrightarrow> keeps I (f y)) \<Longrightarrow> keeps I (forE f ys)"
  by (induction ys) (auto intro: keeps_intro)

text \<open>\<open>spared c v rows n\<close>: the object and the access rows of \<open>c\<close> are these, and the rows are pinned.\<close>

definition spared :: "bytes \<Rightarrow> bytes option \<Rightarrow> ContentAccessRow list \<Rightarrow> Node \<Rightarrow> bool" where
  "spared c v rows n \<longleftrightarrow> objects n c = v \<and>
     filter (\<lambda>a. ca_CID a = c) (content_access (nd_db n)) = rows \<and> (\<forall>a\<in>set rows. ca_IsPinned a)"

lemma Delete_spares: "cid \<noteq> c \<Longrightarrow> keeps (spared c v rows) (casE (\<lambda>b. Delete b cid))"
proof (rule keepsI)
  fix n r n'
  assume ne: "cid \<noteq> c" and s: "spared c v rows n" and run: "casE (\<lambda>b. Delete b cid) n = (r, n')"
  obtain r1 s1 where d: "Delete (nd_base n) cid (nd_fs n) = (r1, s1)" by force
  then have "contents (nd_base n) s1 c = contents (nd_base n) (nd_fs n) c"
    using ne by (cases r1) (auto dest: cas.delete_ok cas.delete_err)
  with s run d show "spared c v rows n'" by (auto simp: casE_run spared_def objects_def)
qed

lemma filter_other:
  "cid \<noteq> c \<Longrightarrow> filter (\<lambda>a. key a = c) (filter (\<lambda>a. key a \<noteq> cid) xs) = filter (\<lambda>a. key a = c) xs"
  by (induction xs) auto

lemma DeleteContentAccess_spares:
  "cid \<noteq> c \<Longrightarrow> keeps (\<lambda>db. filter (\<lambda>a. ca_CID a = c) (content_access db) = rows) (DeleteContentAccess cid)"
  unfolding DeleteContentAccess_def
  by (intro keeps_wrapE keeps_execE) (auto simp: steady_def filter_other simp del: filter_filter)

lemma evictOne_spares: "cid \<noteq> c \<Longrightarrow> keeps (spared c v rows) (evictOne cid)"
proof -
  assume ne: "cid \<noteq> c"
  have "keeps (spared c v rows) (dbE (DeleteContentAccess cid))"
  proof (rule keepsI)
    fix n r n'
    assume s: "spared c v rows n" and run: "dbE (DeleteContentAccess cid) n = (r, n')"
    obtain r1 d1 where d: "DeleteContentAccess cid (nd_db n) = (r1, d1)" by force
    from s have "filter (\<lambda>a. ca_CID a = c) (content_access (nd_db n)) = rows" by (simp add: spared_def)
    from keepsD [OF DeleteContentAccess_spares [OF ne] this d] s run d
    show "spared c v rows n'" by (auto simp: dbE_run spared_def)
  qed
  with Delete_spares [OF ne] show ?thesis
    unfolding evictOne_def by (intro keeps_seqE keeps_logE)
qed

lemma GetLRUContent_run:
  "GetLRUContent k db = (r, db') \<Longrightarrow> (\<exists>m. db' = db\<lparr>db_step := m\<rparr>) \<and>
     (\<forall>items. r = Inr items \<longrightarrow> items = map ca_CID (limitTo k
       (sort_key ca_LastAccessed (filter (\<lambda>a. \<not> ca_IsPinned a) (content_access db)))))"
  by (auto simp: GetLRUContent_def queryE_def run_wrapE tick_def split: option.splits)

lemma evict_listed_spares:
  assumes "\<And>items. c \<notin> set items \<Longrightarrow> keeps (spared c v rows) (k items)"
    and "\<And>e. keeps (spared c v rows) (h e)"
  shows "keeps (spared c v rows) (\<lambda>n. case dbE (GetLRUContent 100) n of
      (Inl e, n') \<Rightarrow> h e n' | (Inr items, n') \<Rightarrow> k items n')"
proof (rule keepsI)
  fix n r n'
  assume s: "spared c v rows n"
    and run: "(case dbE (GetLRUContent 100) n of (Inl e, n') \<Rightarrow> h e n' | (Inr items, n') \<Rightarrow> k items n') = (r, n')"
  obtain r1 d1 where q: "GetLRUContent 100 (nd_db n) = (r1, d1)" by force
  then obtain m where d1: "d1 = (nd_db n)\<lparr>db_step := m\<rparr>" using GetLRUContent_run by blast
  have s1: "spared c v rows (n\<lparr>nd_db := d1\<rparr>)" using s by (simp add: spared_def d1)
  have safe: "c \<notin> set items" if "r1 = Inr items" for items
  proof
    assume "c \<in> set items"
    with that GetLRUContent_run [OF q] obtain a where
      "a \<in> set (content_access (nd_db n))" "\<not> ca_IsPinned a" "ca_CID a = c"
      by (auto dest!: set_limitTo [THEN subsetD])
    with s show False by (auto simp: spared_def)
  qed
  show "spared c v rows n'"
    using run q s1 assms safe by (cases r1) (auto simp: dbE_run intro: keepsD)
qed

lemma evictMany_spares: "c \<notin> set items \<Longrightarrow> keeps (spared c v rows) (forE evictOne items)"
  by (rule keeps_forE_set, rule evictOne_spares) blast

lemma evictRound_spares: "keeps (spared c v rows) evictRound"
proof -
  have e: "evictRound = (\<lambda>n. case dbE (GetLRUContent 100) n of
      (Inl e, n') \<Rightarrow> (case e of Err _ \<Rightarrow> retE True | Panic _ \<Rightarrow> throwE e) n'
    | (Inr items, n') \<Rightarrow> (if length items = 0 then retE True else seqE (forE evictOne items) (retE False)) n')"
    by (rule ext) (auto simp: evictRound_def run_bindE catchE_def split: prod.splits sum.splits goerr.splits)
  show ?thesis
    unfolding e
    by (rule evict_listed_spares;
        auto intro!: keeps_retE keeps_throwE keeps_seqE evictMany_spares split: goerr.splits)
qed

lemma EvictStaleContent_spares: "keeps (spared c v rows) (EvictStaleContent maxBytes)"
proof -
  have e: "EvictStaleContent maxBytes = (\<lambda>n. case dbE (GetLRUContent 100) n of
      (Inl e, n') \<Rightarrow> throwE (wrap ''get LRU content for eviction'' e) n'
    | (Inr items, n') \<Rightarrow> forE evictOne items n')"
    by (rule ext) (auto simp: EvictStaleContent_def run_bindE run_wrapE split: prod.splits sum.splits)
  show ?thesis
    unfolding e by (rule evict_listed_spares) (intro evictMany_spares, assumption, intro keeps_throwE)
qed

lemmas evictLoop_spares = keeps_evictLoop [OF evictRound_spares]

text \<open>
  C12. Eviction never deletes pinned content, nor content whose access is not tracked: whatever the
  size, the limit and the failures, an identifier all of whose access rows are pinned (or that has
  none) has the same object and the same rows after \<open>checkAndEvict\<close>, and after \<open>EvictStaleContent\<close>.
\<close>

theorem eviction_spares_pinned:
  assumes "\<forall>a\<in>set (content_access (nd_db n)). ca_CID a = c \<longrightarrow> ca_IsPinned a"
    and "n' = snd (checkAndEvict target maxBytes n) \<or> n' = snd (EvictStaleContent maxBytes n)"
  shows "objects n' c = objects n c \<and>
    filter (\<lambda>a. ca_CID a = c) (content_access (nd_db n')) =
    filter (\<lambda>a. ca_CID a = c) (content_access (nd_db n))"
proof -
  let ?rows = "filter (\<lambda>a. ca_CID a = c) (content_access (nd_db n))"
  have s: "spared c (objects n c) ?rows n" using assms(1) by (auto simp: spared_def)
  have "spared c (objects n c) ?rows (snd (checkAndEvict target maxBytes n))"
    using s evictLoop_spares [OF s] by (simp add: checkAndEvict_def)
  moreover have "spared c (objects n c) ?rows (snd (EvictStaleContent maxBytes n))"
    by (rule keepsD [OF EvictStaleContent_spares s prod.collapse [symmetric]])
  ultimately show ?thesis using assms(2) by (auto simp: spared_def)
qed

theorem eviction_spares_pinned_witness:
  "objects (snd (checkAndEvict (\<lambda>m. m) (-1) (exampleNode\<lparr>nd_db := emptyDB\<lparr>content_access :=
      [\<lparr>ca_CID = [9], ca_LastAccessed = 0, ca_AccessCount = 1, ca_IsPinned = True\<rparr>]\<rparr>\<rparr>))) [9] =
    objects (exampleNode\<lparr>nd_db := emptyDB\<lparr>content_access :=
      [\<lparr>ca_CID = [9], ca_LastAccessed = 0, ca_AccessCount = 1, ca_IsPinned = True\<rparr>]\<rparr>\<rparr>) [9]"
  by (rule eviction_spares_pinned [THEN conjunct1, OF _ disjI1 [OF refl]]) simp

section \<open>Eviction reaches its target\<close>

definition calm :: "Node \<Rightarrow> bool" where
  "calm n \<longleftrightarrow> fs_faults (nd_fs n) = (\<lambda>_. None) \<and> nofault (nd_db n) \<and>
     keyed ca_CID (content_access (nd_db n)) \<and>
     (\<forall>a\<in>set (content_access (nd_db n)). \<not> ca_IsPinned a \<longrightarrow> ca_CID a \<noteq> [])"

abbreviation unpinned :: "Node \<Rightarrow> bytes set" where
  "unpinned n \<equiv> ca_CID ` {a \<in> set (content_access (nd_db n)). \<not> ca_IsPinned a}"

text \<open>A row may be left of content that is gone or empty; deleting it frees nothing.\<close>

definition hollow :: "Node \<Rightarrow> bytes \<Rightarrow> bool" where
  "hollow n c \<longleftrightarrow> objects n c = None \<or> objects n c = Some []"

lemma DirSize_delete:
  fixes f :: "path \<times> fnode \<Rightarrow> int"
  assumes "\<And>e. 0 \<le> f e"
  shows "sum_list (map f (AList.delete k xs)) \<le> sum_list (map f xs)"
    and "map_of xs k = Some v \<Longrightarrow> 0 < f (k, v) \<Longrightarrow> sum_list (map f (AList.delete k xs)) < sum_list (map f xs)"
proof -
  have le: "sum_list (map f (AList.delete k xs)) \<le> sum_list (map f xs)" for xs
    using assms by (induction xs) (auto simp: add_increasing)
  then show "sum_list (map f (AList.delete k xs)) \<le> sum_list (map f xs)" .
  show "sum_list (map f (AList.delete k xs)) < sum_list (map f xs)" if "map_of xs k = Some v" "0 < f (k, v)"
    using that
  proof (induction xs)
    case (Cons e xs)
    from Cons le [of xs] show ?case by (cases "fst e = k") (auto split: if_splits)
  qed simp
qed

lemma DirSize_delNode:
  "DirSize (delNode p s) q \<le> DirSize s q"
  "node s p = Some (FFile m d) \<Longrightarrow> d \<noteq> [] \<Longrightarrow> take (length q) p = q \<Longrightarrow> DirSize (delNode p s) q < DirSize s q"
proof -
  let ?f = "\<lambda>(r, n). case n of FFile _ d \<Rightarrow> if take (length q) r = q then int (length d) else 0 | FDir _ \<Rightarrow> 0"
  note D = DirSize_delete [where f = ?f and k = p and xs = "fs_nodes s"]
  show "DirSize (delNode p s) q \<le> DirSize s q"
    unfolding DirSize_def delNode_def by (simp, rule D(1)) (auto split: fnode.splits)
  show "DirSize (delNode p s) q < DirSize s q" if "node s p = Some (FFile m d)" "d \<noteq> []" "take (length q) p = q"
    unfolding DirSize_def delNode_def
    by (simp, rule D(2) [of "FFile m d"]) (use that in \<open>auto simp: node_def split: fnode.splits\<close>)
qed

lemma Delete_frees:
  assumes "fs_faults s = (\<lambda>_. None)" "cid \<noteq> []" "Delete base cid s = (r, s')"
  shows "fs_faults s' = (\<lambda>_. None) \<and> DirSize s' base \<le> DirSize s base \<and> (r = Inr () \<or> (\<exists>m. r = Inl (Err m))) \<and>
    (contents base s cid \<noteq> None \<and> contents base s cid \<noteq> Some [] \<longrightarrow> DirSize s' base < DirSize s base)"
proof -
  let ?p = "objPath base cid"
  let ?s1 = "s\<lparr>fs_step := Suc (fs_step s)\<rparr>"
  have same: "DirSize ?s1 base = DirSize s base" by (simp add: DirSize_def)
  have prefix: "take (length base) ?p = base" by (simp add: objPath_def)
  have run: "wrapE ''failed to delete content'' (osRemove ?p) s = (r, s')"
    using assms(2,3) by (simp add: Delete_def objectPath_eq)
  show ?thesis
  proof (cases "\<exists>m d. node s ?p = Some (FFile m d)")
    case True
    then obtain m d where f: "node s ?p = Some (FFile m d)" by blast
    with run assms(1) have "r = Inr ()" "s' = delNode ?p ?s1"
      by (simp_all add: osRemove_def sysE_nofault run_wrapE)
    moreover have "contents base s cid = Some d" using f assms(2) by (simp add: contents_def)
    moreover have "node ?s1 ?p = Some (FFile m d)" using f by simp
    ultimately show ?thesis
      using assms(1) DirSize_delNode(1) [of ?p ?s1 base] DirSize_delNode(2) [of ?s1 ?p m d base] prefix same
      by auto
  next
    case False
    then have "contents base s cid = None" by (auto simp: contents_def split: option.splits fnode.splits)
    moreover have "(s' = ?s1 \<or> s' = delNode ?p ?s1) \<and> (r = Inr () \<or> (\<exists>m. r = Inl (Err m)))"
      using run assms(1) False
      by (auto simp: osRemove_def sysE_nofault run_wrapE split: option.splits fnode.splits if_splits)
    ultimately show ?thesis using assms(1) DirSize_delNode(1) [of ?p ?s1 base] same by auto
  qed
qed

lemma evictOne_run:
  assumes "calm n" "cid \<in> unpinned n"
  shows "\<exists>n'. evictOne cid n = (Inr (), n') \<and> calm n' \<and> casSize n' \<le> casSize n \<and>
    (\<not> hollow n cid \<longrightarrow> casSize n' < casSize n) \<and> (\<forall>c. c \<noteq> cid \<longrightarrow> objects n' c = objects n c) \<and>
    content_access (nd_db n') = filter (\<lambda>a. ca_CID a \<noteq> cid) (content_access (nd_db n))"
proof -
  obtain r s1 where del: "Delete (nd_base n) cid (nd_fs n) = (r, s1)" by force
  have ne: "cid \<noteq> []" and ok: "fs_faults (nd_fs n) = (\<lambda>_. None)" "db_faults (nd_db n) = (\<lambda>_. None)"
    using assms by (auto simp: calm_def nofault_def)
  note fr = Delete_frees [OF ok(1) ne del]
  define n1 where "n1 = n\<lparr>nd_fs := s1\<rparr>"
  define n2 where "n2 = n1\<lparr>nd_db := (tick (nd_db n))\<lparr>content_access :=
    filter (\<lambda>a. ca_CID a \<noteq> cid) (content_access (nd_db n))\<rparr>\<rparr>"
  have "logE (casE (\<lambda>b. Delete b cid)) n = (Inr (), n1)"
    using fr del by (auto simp: casE_run n1_def)
  moreover have "logE (dbE (DeleteContentAccess cid)) n1 = (Inr (), n2)"
    using ok by (simp add: logE_def dbE_run DeleteContentAccess_def run_wrapE execE_nofault n1_def n2_def)
  ultimately have run: "evictOne cid n = (Inr (), n2)" by (simp add: evictOne_def)
  have obj: "objects n2 c = objects n c" if "c \<noteq> cid" for c
    using that del by (cases r) (auto simp: n2_def n1_def objects_def dest: cas.delete_ok cas.delete_err)
  have "calm n2" using assms(1) fr by (auto simp: calm_def n2_def n1_def nofault_def distinct_map_filter)
  moreover have "casSize n2 \<le> casSize n" "\<not> hollow n cid \<longrightarrow> casSize n2 < casSize n"
    using fr by (simp_all add: casSize_def n2_def n1_def hollow_def objects_def)
  ultimately show ?thesis using run obj by (intro exI [of _ n2]) (simp add: n2_def n1_def)
qed

lemma evictMany_run:
  assumes "calm n" "distinct cids" "set cids \<subseteq> unpinned n"
  shows "\<exists>n'. forE evictOne cids n = (Inr (), n') \<and> calm n' \<and> casSize n' \<le> casSize n \<and>
    ((\<exists>c\<in>set cids. \<not> hollow n c) \<longrightarrow> casSize n' < casSize n) \<and>
    content_access (nd_db n') = filter (\<lambda>a. ca_CID a \<notin> set cids) (content_access (nd_db n))"
  using assms
proof (induction cids arbitrary: n)
  case (Cons c cids)
  obtain n1 where n1: "evictOne c n = (Inr (), n1)" "calm n1" "casSize n1 \<le> casSize n"
    "\<not> hollow n c \<longrightarrow> casSize n1 < casSize n" "\<And>b. b \<noteq> c \<Longrightarrow> objects n1 b = objects n b"
    "content_access (nd_db n1) = filter (\<lambda>a. ca_CID a \<noteq> c) (content_access (nd_db n))"
    using evictOne_run [of n c] Cons.prems by auto
  have "set cids \<subseteq> unpinned n1"
  proof
    fix y
    assume y: "y \<in> set cids"
    then obtain a where "a \<in> set (content_access (nd_db n))" "\<not> ca_IsPinned a" "ca_CID a = y"
      using Cons.prems(3) by auto
    moreover have "y \<noteq> c" using y Cons.prems(2) by auto
    ultimately show "y \<in> unpinned n1" using n1(6) by auto
  qed
  then obtain n2 where n2: "forE evictOne cids n1 = (Inr (), n2)" "calm n2" "casSize n2 \<le> casSize n1"
      "(\<exists>c\<in>set cids. \<not> hollow n1 c) \<longrightarrow> casSize n2 < casSize n1"
      "content_access (nd_db n2) = filter (\<lambda>a. ca_CID a \<notin> set cids) (content_access (nd_db n1))"
    using Cons.IH [OF n1(2)] Cons.prems(2) by auto
  have "hollow n1 b = hollow n b" if "b \<in> set cids" for b
  proof -
    have "b \<noteq> c" using that Cons.prems(2) by auto
    then show ?thesis by (simp add: hollow_def n1(5))
  qed
  then have "(\<exists>b\<in>set (c # cids). \<not> hollow n b) \<longrightarrow> casSize n2 < casSize n" using n1(3,4) n2(3,4) by auto
  moreover have "filter (\<lambda>a. ca_CID a \<notin> set cids) (filter (\<lambda>a. ca_CID a \<noteq> c) (content_access (nd_db n))) =
      filter (\<lambda>a. ca_CID a \<notin> set (c # cids)) (content_access (nd_db n))"
    unfolding filter_filter by (rule filter_cong) auto
  ultimately show ?case using n1 n2 by (intro exI [of _ n2]) (simp del: filter_filter)
qed simp

text \<open>A round that breaks has found nothing to evict; another one has deleted rows, all hollow if nothing was freed.\<close>

definition stalled :: "Node \<Rightarrow> Node \<Rightarrow> bool" where
  "stalled n n' \<longleftrightarrow> casSize n' = casSize n \<and> unpinned n' \<subset> unpinned n \<and> (\<forall>c\<in>unpinned n - unpinned n'. hollow n c)"

lemma evictRound_run:
  assumes "calm n"
  shows "\<exists>b n'. evictRound n = (Inr b, n') \<and> calm n' \<and>
    (if b then unpinned n' = {} else casSize n' < casSize n \<or> stalled n n')"
proof -
  let ?rows = "sort_key ca_LastAccessed (filter (\<lambda>a. \<not> ca_IsPinned a) (content_access (nd_db n)))"
  let ?items = "map ca_CID (limitTo 100 ?rows)"
  define n1 where "n1 = n\<lparr>nd_db := tick (nd_db n)\<rparr>"
  have ev: "calm n1" using assms by (simp add: calm_def n1_def nofault_def)
  have q: "dbE (GetLRUContent 100) n = (Inr ?items, n1)"
    using assms by (simp add: dbE_run GetLRUContent_def queryE_nofault calm_def nofault_def n1_def)
  have "keyed ca_CID ?rows"
    using assms by (auto simp: calm_def distinct_map inj_on_def)
  then have dist: "distinct ?items" by (simp add: limitTo_def take_map [symmetric])
  have sub: "set ?items \<subseteq> unpinned n1" by (auto simp: n1_def dest: set_limitTo [THEN subsetD])
  have same: "unpinned n1 = unpinned n" "casSize n1 = casSize n" "\<And>c. hollow n1 c = hollow n c"
    by (simp_all add: n1_def casSize_def hollow_def)
  have run: "evictRound n =
      (if length ?items = 0 then retE True else seqE (forE evictOne ?items) (retE False)) n1"
    by (simp only: evictRound_def run_bindE catchE_def q prod.case sum.case)
  show ?thesis
  proof (cases "?items = []")
    case True
    then have "?rows = []" by (simp add: limitTo_def)
    then have "set ?rows = {}" by (simp only: list.set)
    then have "unpinned n1 = {}" by (auto simp: n1_def)
    with True run ev show ?thesis by (intro exI [of _ True] exI [of _ n1]) simp
  next
    case False
    obtain n2 where n2: "forE evictOne ?items n1 = (Inr (), n2)" "calm n2" "casSize n2 \<le> casSize n1"
        "(\<exists>c\<in>set ?items. \<not> hollow n1 c) \<longrightarrow> casSize n2 < casSize n1"
        "content_access (nd_db n2) = filter (\<lambda>a. ca_CID a \<notin> set ?items) (content_access (nd_db n1))"
      using evictMany_run [OF ev dist sub] by blast
    have left: "unpinned n2 = unpinned n1 - set ?items" unfolding n2(5) by auto
    have gone: "S \<noteq> {} \<Longrightarrow> S \<subseteq> B \<Longrightarrow> A = B - S \<Longrightarrow> A \<subset> B \<and> B - A = S" for S A B :: "bytes set"
      by auto
    have "set ?items \<noteq> {}" using False by (simp only: set_empty not_False_eq_True)
    note parts = gone [OF this sub left]
    have "casSize n2 < casSize n \<or> stalled n n2"
    proof (cases "\<exists>c\<in>set ?items. \<not> hollow n1 c")
      case True
      with n2(4) have "casSize n2 < casSize n1" by blast
      then show ?thesis unfolding same by (rule disjI1)
    next
      case False
      have "\<forall>c\<in>unpinned n - unpinned n2. hollow n c"
        using parts [THEN conjunct2] False unfolding same by blast
      then have "casSize n2 = casSize n1 \<Longrightarrow> stalled n n2"
        using parts [THEN conjunct1] unfolding stalled_def same by blast
      then show ?thesis using n2(3) unfolding same by linarith
    qed
    with False run n2(1,2) show ?thesis by (intro exI [of _ False] exI [of _ n2]) simp
  qed
qed

text \<open>How an eviction to a target ends: below it, with nothing unpinned, or after a round that freed nothing.\<close>

definition evicted :: "int \<Rightarrow> Node \<Rightarrow> bool" where
  "evicted t n \<longleftrightarrow> casSize n \<le> t \<or> unpinned n = {} \<or> (\<exists>n0. evictRound n0 = (Inr False, n) \<and> stalled n0 n)"

lemma evictLoop_run:
  "calm n \<Longrightarrow> cur = casSize n \<Longrightarrow> \<exists>n'. evictLoop t cur n = (Inr (), n') \<and> evicted t n'"
proof (induction t cur n rule: evictLoop.induct)
  case (1 t cur n)
  obtain b n1 where r: "evictRound n = (Inr b, n1)" "calm n1"
    "if b then unpinned n1 = {} else casSize n1 < casSize n \<or> stalled n n1"
    using evictRound_run [OF "1.prems"(1)] by blast
  show ?case
  proof (cases "cur \<le> t")
    case True
    then have "evictLoop t cur n = (Inr (), n)" by (simp add: evictLoop.simps [of t cur n])
    moreover have "evicted t n" using True "1.prems"(2) by (simp add: evicted_def)
    ultimately show ?thesis by blast
  next
    case above: False
    show ?thesis
    proof (cases "b \<or> casSize n \<le> casSize n1")
      case True
      then have "evictLoop t cur n = (Inr (), n1)"
        using above r(1) "1.prems"(2) by (subst evictLoop.simps) (auto split: bool.splits)
      moreover have "evicted t n1" using True r(1,3) by (cases b) (auto simp: evicted_def)
      ultimately show ?thesis by blast
    next
      case False
      have "\<exists>n'. evictLoop t (casSize n1) n1 = (Inr (), n') \<and> evicted t n'"
        using "1.IH" [OF _ r(1) [symmetric]] above False r "1.prems"(2) by simp
      moreover have "evictLoop t cur n = evictLoop t (casSize n1) n1"
        using above False r(1) "1.prems"(2) by (subst evictLoop.simps) simp
      ultimately show ?thesis by simp
    qed
  qed
qed


definition fullNode :: Node where
  "fullNode = exampleNode\<lparr>nd_fs := exampleFs\<lparr>fs_nodes := [([''cas''], FDir 448),
       (objPath [''cas''] [9], FFile 420 [1, 2, 3]), (objPath [''cas''] [8], FFile 420 [1])]\<rparr>,
     nd_db := emptyDB\<lparr>content_access := [\<lparr>ca_CID = [9], ca_LastAccessed = 0, ca_AccessCount = 1, ca_IsPinned = False\<rparr>,
       \<lparr>ca_CID = [8], ca_LastAccessed = 0, ca_AccessCount = 1, ca_IsPinned = True\<rparr>]\<rparr>\<rparr>"


section \<open>The home feed\<close>

lemma mapE_Inr:
  "mapE f xs s = (Inr ys, s') \<Longrightarrow> (\<And>y s z s'. f y s = (Inr z, s') \<Longrightarrow> g z = y) \<Longrightarrow> map g ys = xs"
proof (induction xs arbitrary: s ys)
  case (Cons y xs)
  then show ?case by (fastforce dest!: bindE_InrD)
qed simp

lemma enrichPost_post: "enrichPost own p db = (Inr e, db') \<Longrightarrow> te_Post e = p"
  by (auto simp: enrichPost_def dest!: bindE_InrD)

lemma enrichPosts_posts:
  "enrichPostsForPubkey rows own db = (Inr es, db') \<Longrightarrow> map te_Post es = rows"
  unfolding enrichPostsForPubkey_def by (erule mapE_Inr) (rule enrichPost_post)

lemma page_props:
  assumes "0 \<le> l"
  shows "set (page P l rows) \<subseteq> {p \<in> set rows. P p}"
    and "sorted_wrt (\<lambda>a b. p_Timestamp b \<le> p_Timestamp a) (page P l rows)"
    and "int (length (page P l rows)) \<le> l"
    and "\<lbrakk>p \<in> set rows; P p; p \<notin> set (page P l rows); q \<in> set (page P l rows)\<rbrakk> \<Longrightarrow>
      p_Timestamp p \<le> p_Timestamp q"
    and "\<lbrakk>int (length (page P l rows)) < l; p \<in> set rows; P p\<rbrakk> \<Longrightarrow> p \<in> set (page P l rows)"
proof -
  show "set (page P l rows) \<subseteq> {p \<in> set rows. P p}"
    unfolding page_def by (rule order_trans [OF set_limitTo]) simp
  show "sorted_wrt (\<lambda>a b. p_Timestamp b \<le> p_Timestamp a) (page P l rows)"
    unfolding page_def by (intro sorted_wrt_limitTo sorted_descending)
  show "int (length (page P l rows)) \<le> l"
    unfolding page_def by (rule length_limitTo [OF assms])
  show "p_Timestamp p \<le> p_Timestamp q"
    if "p \<in> set rows" "P p" "p \<notin> set (page P l rows)" "q \<in> set (page P l rows)"
    using that unfolding page_def by (intro descending_page) auto
  show "p \<in> set (page P l rows)" if "int (length (page P l rows)) < l" "p \<in> set rows" "P p"
  proof -
    from that(1) assms have "page P l rows = descending p_Timestamp (filter P rows)"
      by (auto simp: page_def limitTo_def split: if_splits)
    with that show ?thesis by simp
  qed
qed

text \<open>\<open>visible owner before db p\<close>: the owner follows the author, or is the author, and \<open>p\<close> is old enough.\<close>

definition visible :: "bytes \<Rightarrow> int \<Rightarrow> DB \<Rightarrow> PostRow \<Rightarrow> bool" where
  "visible owner before db p \<longleftrightarrow>
     ((\<exists>s\<in>set (subscriptions db). ownedBy owner s \<and> s_Pubkey s = p_Author p) \<or>
      owner \<noteq> [] \<and> p_Author p = owner) \<and> p_Timestamp p < beforeOr before db"

lemma clampLimit_bounds: "1 \<le> clampLimit l \<and> clampLimit l \<le> 100"
  by (simp add: clampLimit_def Let_def)

lemma GetFeed_page:
  assumes "GetFeedForPubkey owner before limit db = (Inr es, db')"
  shows "map te_Post es = page (visible owner before db) (clampLimit limit) (posts db)"
proof -
  obtain subs d1 where subs: "GetSubscriptions owner db = (Inr subs, d1)"
    and rest: "bindE (wrapE ''get feed'' (GetFeed (map s_Pubkey subs @ (if 0 < length owner then [owner] else []))
      before (clampLimit limit))) (\<lambda>rows. enrichPostsForPubkey rows owner) d1 = (Inr es, db')"
    using assms unfolding GetFeedForPubkey_def Let_def
    by (auto dest!: bindE_InrD simp: run_wrapE split: prod.splits sum.splits)
  from subs have d1: "d1 = tick db" "set subs = {s \<in> set (subscriptions db). ownedBy owner s}"
    by (auto simp: GetSubscriptions_def run_wrapE queryE_def split: option.splits)
  let ?authors = "map s_Pubkey subs @ (if 0 < length owner then [owner] else [])"
  have vis: "visible owner before db = (\<lambda>p. p_Author p \<in> set ?authors \<and> p_Timestamp p < beforeOr before db)"
    by (rule ext) (auto simp: visible_def d1(2) image_iff)
  obtain rows d2 where feed: "GetFeed ?authors before (clampLimit limit) d1 = (Inr rows, d2)"
    and enr: "enrichPostsForPubkey rows owner d2 = (Inr es, db')"
    using rest by (auto dest!: bindE_InrD simp: run_wrapE split: prod.splits sum.splits)
  have "rows = page (visible owner before db) (clampLimit limit) (posts db)"
  proof (cases "?authors = []")
    case True
    with feed have "rows = []" by (simp add: GetFeed_def)
    with True show ?thesis by (simp add: vis page_def descending_def limitTo_def)
  next
    case False
    then have ne: "length ?authors \<noteq> 0" by (simp only: length_0_conv not_False_eq_True)
    from feed show ?thesis
      unfolding GetFeed_def vis if_not_P [OF ne]
      by (auto simp: run_wrapE queryE_def d1(1) beforeOr_def split: option.splits)
  qed
  with enrichPosts_posts [OF enr] show ?thesis by simp
qed

text \<open>
  A page of the home feed is the right one: whenever \<open>GetFeedForPubkey\<close> returns entries, they are
  posts by authors the viewer follows or by the viewer, older than \<open>before\<close>, newest first, at most 100
  whatever limit is asked; a visible post that is left out is not newer than any that is shown, and
  none is left out while the page is not full.
\<close>

theorem home_feed_page:
  assumes "GetFeedForPubkey owner before limit db = (Inr es, db')"
  shows "set (map te_Post es) \<subseteq> {p \<in> set (posts db). visible owner before db p} \<and>
    sorted_wrt (\<lambda>a b. p_Timestamp b \<le> p_Timestamp a) (map te_Post es) \<and> length es \<le> 100 \<and>
    (\<forall>p\<in>set (posts db). visible owner before db p \<longrightarrow> p \<notin> set (map te_Post es) \<longrightarrow>
       (\<forall>q\<in>set (map te_Post es). p_Timestamp p \<le> p_Timestamp q) \<and>
       int (length es) = clampLimit limit)"
proof -
  note pg = GetFeed_page [OF assms]
  let ?p = "page (visible owner before db) (clampLimit limit) (posts db)"
  have l: "0 \<le> clampLimit limit" using clampLimit_bounds [of limit] by linarith
  have len: "length es = length ?p" using arg_cong [OF pg, of length] by simp
  have "int (length ?p) \<le> clampLimit limit" by (rule page_props(3) [OF l])
  then have "length es \<le> 100" using len clampLimit_bounds [of limit] by linarith
  moreover have "int (length es) = clampLimit limit"
    if "p \<in> set (posts db)" "visible owner before db p" "p \<notin> set ?p" for p
  proof -
    have "\<not> int (length ?p) < clampLimit limit"
      using page_props(5) [OF l _ that(1), of "visible owner before db"] that(2,3) by blast
    with \<open>int (length ?p) \<le> clampLimit limit\<close> show ?thesis by (simp add: len)
  qed
  ultimately show ?thesis
    unfolding pg
    by (intro conjI ballI impI page_props(1,2) [OF l]) (assumption | erule (3) page_props(4) [OF l])+
qed

definition feedDB :: DB where
  "feedDB = emptyDB\<lparr>now_ms := 9, profiles := [exampleProfileRow],
     posts := [\<lparr>p_CID = [1], p_Author = [5], p_Content = ''a'', p_ReplyTo = None, p_RepostOf = None,
                p_Timestamp = 3, p_Signature = [], p_ReceivedAt = 3\<rparr>]\<rparr>"

theorem home_feed_page_witness:
  "\<exists>es db'. GetFeedForPubkey [5] 0 0 feedDB = (Inr es, db') \<and> length es \<le> 100"
proof -
  have "\<exists>es db'. GetFeedForPubkey [5] 0 0 feedDB = (Inr es, db')"
    by (simp add: GetFeedForPubkey_def GetSubscriptions_def GetFeed_def run_wrapE queryE_def feedDB_def
        emptyDB_def descending_def Let_def clampLimit_def page_def limitTo_def beforeOr_def tick_def
        enrichPostsForPubkey_def enrichPost_def authorName_def GetProfile_def exampleProfileRow_def
        GetFullReactionCounts_def HasReacted_def queryRowE_def catchE_def run_bindE rowOf_def
        ErrNoRows_def)
  then show ?thesis using home_feed_page by blast
qed

section \<open>Fetched content\<close>

lemma ValidateCID_iff: "ValidateCID s c d \<longleftrightarrow> ComputeCID s d = Inr c"
  by (auto simp: ValidateCID_def split: sum.splits)

text \<open>
  What is fetched from the network is stored only under its own hash: whatever the callback
  returns and whatever fails, \<open>fetchAndStore\<close> leaves the content store as it was, or with the fetched
  bytes under the identifier asked for, which is then their hash.
\<close>

theorem fetched_content_verified:
  assumes "fetchAndStore x mhDecode fetcher cidHex n = (r, n')"
  shows "objects n' = objects n \<or>
    (\<exists>c d. DecodeString cidHex = Inr c \<and> fetcher cidHex = Inr d \<and> ComputeCID (x_sum x) d = Inr c \<and>
       objects n' = (objects n)(c \<mapsto> d))"
proof (cases "fetcher cidHex")
  case (Inl e)
  with assms show ?thesis by (auto simp: fetchAndStore_def run_bindE run_wrapE)
next
  case d: (Inr d)
  show ?thesis
  proof (cases "HexToCID mhDecode cidHex")
    case (Inl e)
    with assms d show ?thesis by (auto simp: fetchAndStore_def run_bindE run_wrapE)
  next
    case c: (Inr c)
    then have dec: "DecodeString cidHex = Inr c"
      by (auto simp: HexToCID_def split: sum.splits if_splits)
    show ?thesis
    proof (cases "ValidateCID (x_sum x) c d")
      case False
      with assms d c show ?thesis by (auto simp: fetchAndStore_def run_bindE run_wrapE)
    next
      case True
      obtain r1 s1 where put: "Put (nd_base n) c d (nd_fs n) = (r1, s1)" by force
      have "objects n' = objects (n\<lparr>nd_fs := s1\<rparr>)"
        using assms d c True put
        by (cases r1) (auto simp: fetchAndStore_def run_bindE run_wrapE run_seqE casE_run dbE_run
            split: prod.splits sum.splits)
      then have "objects n' = contents (nd_base n) s1" by simp
      with cas.put_cases [OF put] True dec d show ?thesis
        by (auto simp: objects_def ValidateCID_iff)
    qed
  qed
qed

theorem fetched_content_verified_witness:
  "objects (snd (fetchAndStore exampleExt (\<lambda>_. True) (\<lambda>_. Inl (Err ''offline'')) ''12'' exampleNode)) =
     objects exampleNode"
  using fetched_content_verified [OF prod.collapse [symmetric], of exampleExt "\<lambda>_. True"
    "\<lambda>_. Inl (Err ''offline'')" "''12''" exampleNode] by auto

text \<open>
  C31. A replicated post is always refused: the content store holds a post, under its identifier, as
  the serialised message with identifier and signature, while the identifier is the hash of the
  serialised message without them; when serialisation is injective and the hash does not collide on
  these two, \<open>fetchAndStore\<close> rejects the bytes every other node serves for the post, and the
  synchronisation of posts by identifier never stores one.
\<close>

theorem replicated_post_refused:
  assumes inj: "\<And>a b p. x_marshal x (MPost a) = Inr p \<Longrightarrow> x_marshal x (MPost b) = Inr p \<Longrightarrow> a = b"
    and nocollision: "\<And>p h. postSigningPayload x m = Inr p \<Longrightarrow> x_sum x p = Inr h \<Longrightarrow>
      x_sum x raw = Inr h \<Longrightarrow> p = raw"
    and valid: "ValidatePost x g now (Some m) v = None" "po_Id m \<noteq> []"
    and served: "x_marshal x (MPost m) = Inr raw" "fetcher (EncodeToString (po_Id m)) = Inr raw"
    and "mhDecode (po_Id m)"
  shows "fetchAndStore x mhDecode fetcher (EncodeToString (po_Id m)) n = (Inl (Err ''CID mismatch''), n)"
proof -
  obtain p where p: "postSigningPayload x m = Inr p" "ComputeCID (x_sum x) p = Inr (po_Id m)"
    using post.addressed [OF valid] by blast
  have "p \<noteq> raw"
  proof
    assume "p = raw"
    with p(1) served(1) have "m\<lparr>po_Id := [], po_Signature := []\<rparr> = m"
      unfolding postSigningPayload_def marshalAs_Inr by (metis inj)
    then have "po_Id m = []" by (metis Post.select_convs(1) Post.surjective Post.update_convs(1,9))
    with valid(2) show False by simp
  qed
  have "\<not> ValidateCID (x_sum x) (po_Id m) raw"
  proof
    assume "ValidateCID (x_sum x) (po_Id m) raw"
    then have "x_sum x raw = Inr (po_Id m)" "x_sum x p = Inr (po_Id m)"
      using p(2) by (auto simp: ValidateCID_iff ComputeCID_def split: sum.splits)
    with nocollision [OF p(1)] \<open>p \<noteq> raw\<close> show False by blast
  qed
  moreover have "HexToCID mhDecode (EncodeToString (po_Id m)) = Inr (po_Id m)"
    using assms(7) by (simp add: HexToCID_def)
  ultimately show ?thesis
    using served(2) by (simp add: fetchAndStore_def)
qed

theorem replicated_post_refused_witness:
  "fetchAndStore exampleExt2 (\<lambda>_. True) (\<lambda>_. Inr (examplePostBytes (signedExample 3)))
     (EncodeToString (po_Id (signedExample 3))) exampleNode = (Inl (Err ''CID mismatch''), exampleNode)"
proof (rule replicated_post_refused [OF _ _ signedExample_valid])
  show "po_Id (signedExample 3) \<noteq> []" by (simp add: signedExample_def)
qed (auto simp: exampleExt2_def exampleExt_def exampleMarshal_def exampleSum_def
    dest: examplePostBytes_inject)

section \<open>The waiting time of the background synchronisation\<close>

text \<open>
  The waiting times that the loop goes through, whatever the rounds return; the jitter is what
  \<open>rand.Int63n\<close> can return.
\<close>

inductive backoffReach :: "int \<Rightarrow> bool" where
  start: "backoffReach defaultSyncInterval"
| round: "backoffReach b \<Longrightarrow> 0 \<le> j \<Longrightarrow> j < b div 2 \<Longrightarrow>
    backgroundSyncRound pending sync b j n = (Inr b', n') \<Longrightarrow> backoffReach b'"

lemma nextBackoff_bounds:
  assumes "defaultSyncInterval \<le> b" "b \<le> maxSyncBackoff" "0 \<le> j"
  shows "\<exists>b'. nextBackoff b maxSyncBackoff j = Inr b' \<and> b \<le> b' \<and> b' \<le> maxSyncBackoff"
  using assms by (auto simp: nextBackoff_def defaultSyncInterval_def maxSyncBackoff_def Let_def)

lemma backoffReach_bounds: "backoffReach b \<Longrightarrow> defaultSyncInterval \<le> b \<and> b \<le> maxSyncBackoff"
proof (induction rule: backoffReach.induct)
  case start
  then show ?case by (simp add: defaultSyncInterval_def maxSyncBackoff_def)
next
  case (round b j pending sync n b' n')
  then obtain c where "nextBackoff b maxSyncBackoff j = Inr c" "b \<le> c" "c \<le> maxSyncBackoff"
    using nextBackoff_bounds [of b j] by auto
  moreover have "b' = c \<or> b' = defaultSyncInterval"
    using round.hyps(4) calculation(1)
    by (auto simp: backgroundSyncRound_def split: prod.splits sum.splits goerr.splits if_splits)
  ultimately show ?case
    using round.IH by (auto simp: defaultSyncInterval_def maxSyncBackoff_def)
qed

text \<open>
  The background synchronisation waits between 30 seconds and 10 minutes, whatever the rounds
  return and whatever the random jitter is, and computing the next waiting time never panics; a
  waiting time never shrinks but by the reset after a round without errors.
\<close>

theorem sync_backoff_bounded:
  assumes "backoffReach b" and "0 \<le> j"
  shows "30 * 1000000000 \<le> b \<and> b \<le> 600 * 1000000000 \<and>
    (\<exists>b'. nextBackoff b maxSyncBackoff j = Inr b' \<and> b \<le> b' \<and> b' \<le> 600 * 1000000000)"
proof -
  have b: "defaultSyncInterval \<le> b" "b \<le> maxSyncBackoff" using backoffReach_bounds [OF assms(1)] by auto
  with nextBackoff_bounds [OF b assms(2)] show ?thesis
    by (auto simp: defaultSyncInterval_def maxSyncBackoff_def)
qed

theorem sync_backoff_bounded_witness:
  "\<exists>b'. nextBackoff defaultSyncInterval maxSyncBackoff 5 = Inr b' \<and> b' \<le> 600 * 1000000000"
  using sync_backoff_bounded [OF backoffReach.start, of 5] by auto

end
