(* ===== verification/Sniff.thy ===== *)
theory Sniff
  imports Chunking
begin

text \<open>
  \<open>http.DetectContentType\<close> of Go's standard library, by which uploaded and served media get their type: the
  signatures of \<open>net/http/sniff.go\<close> are tried in order on the first 512 bytes.
\<close>

definition ascii :: "string \<Rightarrow> bytes" where
  "ascii s = map (\<lambda>c. of_nat (of_char c)) s"

text \<open>A signature: HTML, exact, masked (bytes, mask, whether white space is skipped), MP4, text; and its type.\<close>

datatype sniffSig =
    HTMLSig string
  | ExactSig bytes string
  | MaskedSig bytes bytes bool string
  | MP4Sig
  | TextSig

definition isWS :: "byte \<Rightarrow> bool" where
  "isWS b \<longleftrightarrow> b \<in> {9, 10, 12, 13, 32}"

definition isTT :: "byte \<Rightarrow> bool" where
  "isTT b \<longleftrightarrow> b \<in> {32, 62}"

text \<open>\<open>db & 0xDF\<close> where the signature has a letter.\<close>

fun htmlMatch :: "bytes \<Rightarrow> bytes \<Rightarrow> bool" where
  "htmlMatch [] [] = False"
| "htmlMatch [] (d # ds) = isTT d"
| "htmlMatch (b # bs) [] = False"
| "htmlMatch (b # bs) (d # ds) = (b = (if 65 \<le> b \<and> b \<le> 90 then and d 223 else d) \<and> htmlMatch bs ds)"

fun maskMatch :: "bytes \<Rightarrow> bytes \<Rightarrow> bytes \<Rightarrow> bool" where
  "maskMatch [] pat ds = True"
| "maskMatch (m # ms) (p # ps) (d # ds) = (and d m = p \<and> maskMatch ms ps ds)"
| "maskMatch _ _ _ = False"

definition beUint32 :: "bytes \<Rightarrow> nat" where
  "beUint32 ds = unat (ds ! 0) * 2 ^ 24 + unat (ds ! 1) * 2 ^ 16 + unat (ds ! 2) * 2 ^ 8 + unat (ds ! 3)"

text \<open>The brands of an MP4 file, from byte 8 in steps of four; bytes 12 to 15 are the version.\<close>

definition mp4Match :: "bytes \<Rightarrow> bool" where
  "mp4Match ds = (if length ds < 12 then False
     else let boxSize = beUint32 ds in
       if length ds < boxSize \<or> boxSize mod 4 \<noteq> 0 then False
       else if take 4 (drop 4 ds) \<noteq> ascii ''ftyp'' then False
       else list_ex (\<lambda>k. let st = 8 + 4 * k in st < boxSize \<and> st \<noteq> 12 \<and> take 3 (drop st ds) = ascii ''mp4'') [0..<boxSize div 4])"

definition binaryByte :: "byte \<Rightarrow> bool" where
  "binaryByte b \<longleftrightarrow> b \<le> 8 \<or> b = 11 \<or> 14 \<le> b \<and> b \<le> 26 \<or> 28 \<le> b \<and> b \<le> 31"

fun sigMatch :: "sniffSig \<Rightarrow> bytes \<Rightarrow> nat \<Rightarrow> string option" where
  "sigMatch (HTMLSig h) ds firstNonWS = (if htmlMatch (ascii h) (drop firstNonWS ds) then Some ''text/html; charset=utf-8'' else None)"
| "sigMatch (ExactSig sig ct) ds firstNonWS = (if take (length sig) ds = sig then Some ct else None)"
| "sigMatch (MaskedSig msk pat skipWS ct) ds firstNonWS =
     (if maskMatch msk pat (if skipWS then drop firstNonWS ds else ds) then Some ct else None)"
| "sigMatch MP4Sig ds firstNonWS = (if mp4Match ds then Some ''video/mp4'' else None)"
| "sigMatch TextSig ds firstNonWS =
     (if list_ex binaryByte (drop firstNonWS ds) then None else Some ''text/plain; charset=utf-8'')"

definition riff :: "string \<Rightarrow> string \<Rightarrow> sniffSig" where
  "riff form ct = MaskedSig (replicate 4 255 @ replicate 4 0 @ replicate (length form) 255) (ascii ''RIFF'' @ replicate 4 0 @ ascii form) False ct"

definition sniffSignatures :: "sniffSig list" where
  "sniffSignatures =
     map HTMLSig [''<!DOCTYPE HTML'', ''<HTML'', ''<HEAD'', ''<SCRIPT'', ''<IFRAME'', ''<H1'', ''<DIV'', ''<FONT'', ''<TABLE'', ''<A'',
       ''<STYLE'', ''<TITLE'', ''<B'', ''<BODY'', ''<BR'', ''<P'', ''<!--''] @
     [MaskedSig (replicate 5 255) (ascii ''<?xml'') True ''text/xml; charset=utf-8'',
      ExactSig (ascii ''%PDF-'') ''application/pdf'',
      ExactSig (ascii ''%!PS-Adobe-'') ''application/postscript'',
      MaskedSig [255, 255, 0, 0] [254, 255, 0, 0] False ''text/plain; charset=utf-16be'',
      MaskedSig [255, 255, 0, 0] [255, 254, 0, 0] False ''text/plain; charset=utf-16le'',
      MaskedSig [255, 255, 255, 0] [239, 187, 191, 0] False ''text/plain; charset=utf-8'',
      ExactSig [0, 0, 1, 0] ''image/x-icon'',
      ExactSig [0, 0, 2, 0] ''image/x-icon'',
      ExactSig (ascii ''BM'') ''image/bmp'',
      ExactSig (ascii ''GIF87a'') ''image/gif'',
      ExactSig (ascii ''GIF89a'') ''image/gif'',
      riff ''WEBPVP'' ''image/webp'',
      ExactSig ([137] @ ascii ''PNG'' @ [13, 10, 26, 10]) ''image/png'',
      ExactSig [255, 216, 255] ''image/jpeg'',
      MaskedSig (replicate 4 255 @ replicate 4 0 @ replicate 4 255) (ascii ''FORM'' @ replicate 4 0 @ ascii ''AIFF'') False ''audio/aiff'',
      MaskedSig (replicate 3 255) (ascii ''ID3'') False ''audio/mpeg'',
      MaskedSig (replicate 5 255) (ascii ''OggS'' @ [0]) False ''application/ogg'',
      MaskedSig (replicate 8 255) (ascii ''MThd'' @ [0, 0, 0, 6]) False ''audio/midi'',
      riff ''AVI '' ''video/avi'',
      riff ''WAVE'' ''audio/wave'',
      MP4Sig,
      ExactSig [26, 69, 223, 163] ''video/webm'',
      MaskedSig (replicate 34 0 @ [255, 255]) (replicate 34 0 @ ascii ''LP'') False ''application/vnd.ms-fontobject'',
      ExactSig [0, 1, 0, 0] ''font/ttf'',
      ExactSig (ascii ''OTTO'') ''font/otf'',
      ExactSig (ascii ''ttcf'') ''font/collection'',
      ExactSig (ascii ''wOFF'') ''font/woff'',
      ExactSig (ascii ''wOF2'') ''font/woff2'',
      ExactSig [31, 139, 8] ''application/x-gzip'',
      ExactSig (ascii ''PK'' @ [3, 4]) ''application/zip'',
      ExactSig (ascii ''Rar!'' @ [26, 7, 0]) ''application/x-rar-compressed'',
      ExactSig (ascii ''Rar!'' @ [26, 7, 1, 0]) ''application/x-rar-compressed'',
      ExactSig ([0] @ ascii ''asm'') ''application/wasm'',
      TextSig]"

fun firstMatch :: "sniffSig list \<Rightarrow> bytes \<Rightarrow> nat \<Rightarrow> string" where
  "firstMatch [] ds n = ''application/octet-stream''"
| "firstMatch (s # ss) ds n = (case sigMatch s ds n of None \<Rightarrow> firstMatch ss ds n | Some ct \<Rightarrow> ct)"

definition DetectContentType :: "bytes \<Rightarrow> string" where
  "DetectContentType data = (let ds = take 512 data in
     firstMatch sniffSignatures ds (length (takeWhile isWS ds)))"

section \<open>The types it can find\<close>

fun sigType :: "sniffSig \<Rightarrow> string" where
  "sigType (HTMLSig h) = ''text/html; charset=utf-8''"
| "sigType (ExactSig s ct) = ct"
| "sigType (MaskedSig m p w ct) = ct"
| "sigType MP4Sig = ''video/mp4''"
| "sigType TextSig = ''text/plain; charset=utf-8''"

lemma sigMatch_type: "sigMatch s ds n = Some ct \<Longrightarrow> ct = sigType s"
  by (cases s) (auto split: if_splits)

lemma firstMatch_types: "firstMatch ss ds n \<in> insert ''application/octet-stream'' (set (map sigType ss))"
  by (induction ss) (auto dest: sigMatch_type split: option.splits)

lemma DetectContentType_types: "DetectContentType data \<in> insert ''application/octet-stream'' (set (map sigType sniffSignatures))"
  unfolding DetectContentType_def Let_def by (rule firstMatch_types)

text \<open>Of the media types that are supported, WAV and Ogg go by other names in the standard library.\<close>

lemma never_detected: "DetectContentType data \<notin> {''audio/ogg'', ''audio/wav''}"
proof -
  have "list_all (\<lambda>ct. ct \<notin> {''audio/ogg'', ''audio/wav''}) (''application/octet-stream'' # map sigType sniffSignatures)"
    by code_simp
  then show ?thesis using DetectContentType_types [of data] unfolding list_all_iff set_simps by blast
qed

lemma detects_examples:
  "DetectContentType (ascii ''OggS'' @ [0, 2]) = ''application/ogg''"
  "DetectContentType (ascii ''RIFF'' @ [36, 0, 0, 0] @ ascii ''WAVEfmt '') = ''audio/wave''"
  "DetectContentType (ascii ''ID3'' @ [4]) = ''audio/mpeg''"
  "DetectContentType [255, 251, 144, 0] = ''application/octet-stream''"
  "DetectContentType (ascii ''hello'') = ''text/plain; charset=utf-8''"
  by code_simp+

end
