(* ===== verification/Exchange.thy ===== *)
theory Exchange
  imports ContentStore
begin

text \<open>
  The exchange of content between peers: the wire protocol and its two ends (\<open>pkg/p2p/bitswap_fetch.go\<close>,
  \<open>bitswap_serve.go\<close>), and the bookkeeping of what is provided, fetched and backed off (\<open>bitswap.go\<close>).
  libp2p's streams, the DHT and the multihash package are the record \<open>exchange_env\<close>. A stream is what
  the other side sends before it ends, and what was written to it, of which any part may get through.
\<close>

section \<open>Lengths on the wire\<close>

definition be32 :: "32 word \<Rightarrow> bytes" where
  "be32 n = [ucast (drop_bit 24 n), ucast (drop_bit 16 n), ucast (drop_bit 8 n), ucast n]"

definition fromBe32 :: "bytes \<Rightarrow> 32 word" where
  "fromBe32 h = or (or (push_bit 24 (ucast (h ! 0))) (push_bit 16 (ucast (h ! 1))))
     (or (push_bit 8 (ucast (h ! 2))) (ucast (h ! 3)))"

definition maxContentSize :: nat where "maxContentSize = MaxMediaSize"
definition maxProviders :: nat where "maxProviders = 20"
definition contentFetchFailureBackoff :: int where "contentFetchFailureBackoff = 15 * 1000000000"
definition contentFetchConcurrency :: nat where "contentFetchConcurrency = 4"

section \<open>Streams\<close>

text \<open>After \<open>st_in\<close> comes the error \<open>st_end\<close>, \<open>EOF\<close> or a reset; with \<open>st_room\<close> only that many bytes can be written.\<close>

record stream =
  st_in :: bytes
  st_end :: goerr
  st_out :: bytes
  st_room :: "nat option"
  st_broken :: goerr

definition EOF :: goerr where "EOF = Err ''EOF''"

definition streamReadFull :: "nat \<Rightarrow> (stream, bytes) go" where
  "streamReadFull n = (\<lambda>s. if n \<le> length (st_in s) then (Inr (take n (st_in s)), s\<lparr>st_in := drop n (st_in s)\<rparr>)
     else (Inl (st_end s), s\<lparr>st_in := []\<rparr>))"

definition streamWrite :: "bytes \<Rightarrow> (stream, unit) go" where
  "streamWrite b = (\<lambda>s. case st_room s of
      None \<Rightarrow> (Inr (), s\<lparr>st_out := st_out s @ b\<rparr>)
    | Some k \<Rightarrow>
        if length b \<le> k then (Inr (), s\<lparr>st_out := st_out s @ b, st_room := Some (k - length b)\<rparr>)
        else (Inl (st_broken s), s\<lparr>st_out := st_out s @ take k b, st_room := Some 0\<rparr>))"

section \<open>Serving (\<open>bitswap_serve.go\<close>)\<close>

text \<open>A source without a reader has \<open>so_Reader = None\<close>.\<close>

record ContentSource =
  so_Reader :: "reader option"
  so_Size :: int

type_synonym ContentServer = "string \<Rightarrow> ContentSource option \<times> bool"

definition readCIDFromStream :: "(stream, bytes) go" where
  "readCIDFromStream =
     bindE (streamReadFull 4) (\<lambda>header.
     let cidLen = fromBe32 header in
     if cidLen = 0 \<or> 1024 < cidLen then throwE (Err ''invalid CID length'')
     else streamReadFull (unat cidLen))"

text \<open>\<open>io.CopyN\<close> copies what the reader delivers, at most \<open>size\<close> bytes, and fails if that is less.\<close>

definition CopyN :: "reader \<Rightarrow> nat \<Rightarrow> (stream, unit) go" where
  "CopyN r sz =
     seqE (streamWrite (take sz (r_data r)))
       (if sz \<le> length (r_data r) then retE ()
        else throwE (case r_err r of None \<Rightarrow> EOF | Some e \<Rightarrow> e))"

definition writeContentResponse :: "reader \<Rightarrow> int \<Rightarrow> (stream, unit) go" where
  "writeContentResponse r sz =
     (if sz \<le> 0 then throwE (Err ''invalid content size'')
      else if int maxContentSize < sz then throwE (Err ''content too large to serve'')
      else let dataLen = word_of_int sz :: 32 word in
        seqE (wrapE ''writing response length'' (streamWrite (be32 dataLen)))
             (wrapE ''writing response data'' (CopyN r (nat sz))))"

definition writeEmptyResponse :: "(stream, unit) go" where
  "writeEmptyResponse = logE (streamWrite [0, 0, 0, 0])"

text \<open>\<open>deadline\<close> is the outcome of \<open>SetDeadline\<close>. What fails is only logged.\<close>

definition handleContentStream :: "goerr option \<Rightarrow> ContentServer option \<Rightarrow> (stream, unit) go" where
  "handleContentStream deadline server = (case deadline of
      Some _ \<Rightarrow> retE ()
    | None \<Rightarrow> bindE (okE readCIDFromStream) (\<lambda>r. case r of
        None \<Rightarrow> retE ()
      | Some cidBytes \<Rightarrow> (case server of
          None \<Rightarrow> writeEmptyResponse
        | Some srv \<Rightarrow> (case srv (EncodeToString cidBytes) of
            (Some source, True) \<Rightarrow> (case so_Reader source of
                None \<Rightarrow> writeEmptyResponse
              | Some reader \<Rightarrow> logE (writeContentResponse reader (so_Size source)))
          | _ \<Rightarrow> writeEmptyResponse))))"

section \<open>Fetching from a peer (\<open>bitswap_fetch.go\<close>)\<close>

text \<open>
  The other end of a stream that was opened: the outcomes of \<open>SetDeadline\<close> and \<open>CloseWrite\<close>, how much of
  the request gets through, and the answer to what did. \<open>xe_DHT\<close> yields the peers a lookup finds,
  \<open>xe_mhDecode\<close> the code and the length of a multihash, \<open>xe_mhSum\<close> the multihash of some bytes.
\<close>

record remote =
  rm_deadline :: "goerr option"
  rm_room :: "nat option"
  rm_broken :: goerr
  rm_closeWrite :: "goerr option"
  rm_answer :: "bytes \<Rightarrow> bytes"
  rm_end :: goerr

record exchange_env =
  xe_self :: string
  xe_DHT :: "bytes \<Rightarrow> string list"
  xe_decodePeer :: "string \<Rightarrow> goerr + string"
  xe_dial :: "string \<Rightarrow> goerr + remote"
  xe_mhDecode :: "bytes \<Rightarrow> goerr + nat \<times> int"
  xe_mhSum :: "bytes \<Rightarrow> nat \<Rightarrow> int \<Rightarrow> goerr + bytes"

text \<open>The CIDv1 around the bytes is of package \<open>cid\<close>; the lookup has the multihash as its argument.\<close>

definition hexToCid :: "exchange_env \<Rightarrow> string \<Rightarrow> goerr + bytes" where
  "hexToCid env cidHex = (case DecodeString cidHex of
      Inl e \<Rightarrow> Inl (wrap ''decoding hex CID'' e)
    | Inr b \<Rightarrow> (case xe_mhDecode env b of Inl e \<Rightarrow> Inl (wrap ''invalid multihash'' e) | Inr _ \<Rightarrow> Inr b))"

definition FindProviders :: "exchange_env \<Rightarrow> string \<Rightarrow> goerr + string list" where
  "FindProviders env cidHex = (case hexToCid env cidHex of
      Inl e \<Rightarrow> Inl (wrap ''converting CID for provider lookup'' e)
    | Inr c \<Rightarrow> Inr (filter (\<lambda>pid. pid \<noteq> xe_self env) (take maxProviders (xe_DHT env c))))"

definition writeCIDRequest :: "bytes \<Rightarrow> (stream, unit) go" where
  "writeCIDRequest cidBytes =
     seqE (wrapE ''writing CID length'' (streamWrite (be32 (word_of_nat (length cidBytes)))))
          (wrapE ''writing CID'' (streamWrite cidBytes))"

definition readContentResponseLength :: "(stream, 32 word) go" where
  "readContentResponseLength =
     bindE (wrapE ''reading response length'' (streamReadFull 4)) (\<lambda>header.
     let respLen = fromBe32 header in
     if respLen = 0 then throwE (Err ''provider does not have the content'')
     else if word_of_nat maxContentSize < respLen then throwE (Err ''response too large'')
     else retE respLen)"

definition readContentResponse :: "(stream, bytes) go" where
  "readContentResponse =
     bindE readContentResponseLength (\<lambda>respLen. wrapE ''reading content'' (streamReadFull (unat respLen)))"

definition validateContentHash :: "exchange_env \<Rightarrow> bytes \<Rightarrow> bytes \<Rightarrow> goerr option" where
  "validateContentHash env data cidBytes = (case xe_mhDecode env cidBytes of
      Inl e \<Rightarrow> Some (wrap ''decoding multihash for validation'' e)
    | Inr (code, len) \<Rightarrow> (case xe_mhSum env data code len of
        Inl e \<Rightarrow> Some (wrap ''computing hash for validation'' e)
      | Inr computed \<Rightarrow> if computed \<noteq> cidBytes then Some (Err ''content hash mismatch'') else None))"

text \<open>The stream after the request was written and the write side closed, the same in both ways of fetching.\<close>

definition requestStream :: "exchange_env \<Rightarrow> string \<Rightarrow> bytes \<Rightarrow> goerr + stream" where
  "requestStream env pid cidBytes = (case xe_dial env pid of
      Inl e \<Rightarrow> Inl (wrap ''opening stream'' e)
    | Inr rm \<Rightarrow> (case rm_deadline rm of
        Some e \<Rightarrow> Inl (wrap ''setting stream deadline'' e)
      | None \<Rightarrow> (case writeCIDRequest cidBytes \<lparr>st_in = [], st_end = rm_end rm, st_out = [], st_room = rm_room rm,
            st_broken = rm_broken rm\<rparr> of
          (Inl e, _) \<Rightarrow> Inl e
        | (Inr _, s) \<Rightarrow> (case rm_closeWrite rm of
            Some e \<Rightarrow> Inl (wrap ''closing write side'' e)
          | None \<Rightarrow> Inr (s\<lparr>st_in := rm_answer rm (st_out s)\<rparr>)))))"

definition fetchFromPeer :: "exchange_env \<Rightarrow> string \<Rightarrow> bytes \<Rightarrow> goerr + bytes" where
  "fetchFromPeer env pid cidBytes = (case requestStream env pid cidBytes of
      Inl e \<Rightarrow> Inl e
    | Inr s \<Rightarrow> (case fst (readContentResponse s) of
        Inl e \<Rightarrow> Inl e
      | Inr data \<Rightarrow> (case validateContentHash env data cidBytes of Some e \<Rightarrow> Inl e | None \<Rightarrow> Inr data)))"

fun tryProviders :: "exchange_env \<Rightarrow> string list \<Rightarrow> bytes \<Rightarrow> goerr \<Rightarrow> goerr + bytes" where
  "tryProviders env [] cidBytes lastErr = Inl (wrap ''all providers failed for CID'' lastErr)"
| "tryProviders env (providerID # ps) cidBytes lastErr = (case xe_decodePeer env providerID of
      Inl e \<Rightarrow> tryProviders env ps cidBytes (wrap ''decoding provider peer ID'' e)
    | Inr pid \<Rightarrow> (case fetchFromPeer env pid cidBytes of
        Inl e \<Rightarrow> tryProviders env ps cidBytes (wrap ''fetching from peer'' e)
      | Inr data \<Rightarrow> Inr data))"

text \<open>The body that \<open>FetchContent\<close> hands to \<open>fetchShared\<close>; the hook \<open>fetchRemote\<close> is only set by tests.\<close>

definition remoteFetch :: "exchange_env \<Rightarrow> string \<Rightarrow> bytes \<Rightarrow> goerr + bytes" where
  "remoteFetch env cidHex cidBytes = (case FindProviders env cidHex of
      Inl e \<Rightarrow> Inl (wrap ''finding providers'' e)
    | Inr providers \<Rightarrow>
        if providers = [] then Inl (Err ''no providers found for CID'')
        else tryProviders env providers cidBytes (Err ''<nil>''))"

subsection \<open>Into a temporary file\<close>

record FetchedContentFile =
  fc_Path :: path
  fc_Size :: int

text \<open>\<open>os.CreateTemp("", "xleaks-fetch-*")\<close>, with the random part of the file system's model.\<close>

definition createFetchFile :: "path \<Rightarrow> (fs, path) go" where
  "createFetchFile dir = callE (\<lambda>s.
     let t = dir @ [''xleaks-fetch-'' @ fs_suffix s (fs_step s)] in
     case node s dir of
       Some (FDir _) \<Rightarrow> (if node s t = None then (Inr t, setNode t (FFile 384 []) s)
                        else (Inl (Err ''file exists''), s))
     | _ \<Rightarrow> (Inl (Err ''no such file or directory''), s))"

text \<open>
  \<open>SumStream\<close> reads to the end of the limited stream, writing what it reads to the file; an error of the
  stream or of a write ends it.
\<close>

definition readContentResponseToFile ::
  "exchange_env \<Rightarrow> stream \<Rightarrow> path \<Rightarrow> bytes \<Rightarrow> (fs, int) go" where
  "readContentResponseToFile env s dst cidBytes = (case readContentResponseLength s of
      (Inl e, _) \<Rightarrow> throwE e
    | (Inr respLen, s1) \<Rightarrow> (case xe_mhDecode env cidBytes of
        Inl e \<Rightarrow> throwE (wrap ''decoding multihash for validation'' e)
      | Inr (code, len) \<Rightarrow>
          let data = take (unat respLen) (st_in s1) in
          bindE (wrapE ''computing hash for validation''
              (seqE (fileWrite dst data)
                 (if length data < unat respLen \<and> st_end s1 \<noteq> EOF then throwE (st_end s1)
                  else liftE (xe_mhSum env data code len)))) (\<lambda>computed.
          if length data \<noteq> unat respLen then throwE (Err ''short content read'')
          else if computed \<noteq> cidBytes then throwE (Err ''content hash mismatch'')
          else retE (int (unat respLen)))))"

definition fetchFromPeerToTempFile ::
  "exchange_env \<Rightarrow> path \<Rightarrow> string \<Rightarrow> bytes \<Rightarrow> (fs, FetchedContentFile) go" where
  "fetchFromPeerToTempFile env tmpDir pid cidBytes = (case requestStream env pid cidBytes of
      Inl e \<Rightarrow> throwE e
    | Inr s \<Rightarrow>
        bindE (wrapE ''creating temp fetch file'' (createFetchFile tmpDir)) (\<lambda>temp.
        seqE (catchE (osChmod temp 384) (\<lambda>e.
            seqE (logE fileClose) (seqE (logE (osRemove temp))
              (throwE (wrap ''setting temp fetch file permissions'' e)))))
       (catchE
          (bindE (readContentResponseToFile env s temp cidBytes) (\<lambda>sz.
           seqE (wrapE ''syncing temp fetch file'' fileSync)
          (seqE (wrapE ''closing temp fetch file'' fileClose)
                (retE \<lparr>fc_Path = temp, fc_Size = sz\<rparr>))))
          (\<lambda>e. seqE (logE fileClose) (seqE (logE (osRemove temp)) (throwE e))))))"

fun tryProvidersToTempFile ::
  "exchange_env \<Rightarrow> path \<Rightarrow> string list \<Rightarrow> bytes \<Rightarrow> goerr \<Rightarrow> (fs, FetchedContentFile) go" where
  "tryProvidersToTempFile env tmpDir [] cidBytes lastErr = throwE (wrap ''all providers failed for CID'' lastErr)"
| "tryProvidersToTempFile env tmpDir (providerID # ps) cidBytes lastErr = (case xe_decodePeer env providerID of
      Inl e \<Rightarrow> tryProvidersToTempFile env tmpDir ps cidBytes (wrap ''decoding provider peer ID'' e)
    | Inr pid \<Rightarrow> catchE (fetchFromPeerToTempFile env tmpDir pid cidBytes)
        (\<lambda>e. tryProvidersToTempFile env tmpDir ps cidBytes (wrap ''fetching from peer'' e)))"

definition remoteFetchToFile :: "exchange_env \<Rightarrow> path \<Rightarrow> string \<Rightarrow> bytes \<Rightarrow> (fs, FetchedContentFile) go" where
  "remoteFetchToFile env tmpDir cidHex cidBytes = (case FindProviders env cidHex of
      Inl e \<Rightarrow> throwE (wrap ''finding providers'' e)
    | Inr providers \<Rightarrow>
        if providers = [] then throwE (Err ''no providers found for CID'')
        else tryProvidersToTempFile env tmpDir providers cidBytes (Err ''<nil>''))"

section \<open>The state of the exchange (\<open>bitswap.go\<close>)\<close>

text \<open>
  A call of \<open>FetchContent\<close> (\<open>ca_Shared\<close>) or of \<open>FetchContentToTempFile\<close> is in one of these phases: it waits
  for the fetch another call has started, waits for a slot of the semaphore, fetches, has fetched but not
  yet recorded the result, or has returned. Each operation below is what a call does under the mutex or
  in one operation on the semaphore; calls interleave in any order.
\<close>

datatype 'r phase = Joined | Waiting | Running | Fetched "goerr + 'r" | Returned "goerr + 'r"

record 'r call =
  ca_CID :: string
  ca_Shared :: bool
  ca_Phase :: "'r phase"

record 'r ContentExchange =
  ce_provided :: "string \<Rightarrow> bool"
  ce_fetchInFlight :: "string \<rightharpoonup> nat"
  ce_fetchFailures :: "string \<rightharpoonup> int"
  ce_fetchSlots :: nat
  ce_calls :: "nat \<rightharpoonup> 'r call"

definition NewContentExchange :: "'r ContentExchange" where
  "NewContentExchange = \<lparr>ce_provided = (\<lambda>_. False), ce_fetchInFlight = Map.empty, ce_fetchFailures = Map.empty,
     ce_fetchSlots = 0, ce_calls = Map.empty\<rparr>"

definition Unprovide :: "string \<Rightarrow> 'r ContentExchange \<Rightarrow> 'r ContentExchange" where
  "Unprovide cidHex ce = ce\<lparr>ce_provided := (ce_provided ce)(cidHex := False)\<rparr>"

definition HasContent :: "string \<Rightarrow> 'r ContentExchange \<Rightarrow> bool" where
  "HasContent cidHex ce = ce_provided ce cidHex"

text \<open>The order of the list that \<open>ProvidedCIDs\<close> returns is that of a map iteration.\<close>

definition ProvidedCIDs :: "'r ContentExchange \<Rightarrow> string set" where
  "ProvidedCIDs ce = {c. ce_provided ce c}"

definition FetchLocal :: "(string \<Rightarrow> goerr + bytes option) option \<Rightarrow> string \<Rightarrow> goerr + bytes option" where
  "FetchLocal fetcher cidHex = (case fetcher of None \<Rightarrow> Inr None | Some f \<Rightarrow> f cidHex)"

text \<open>\<open>announce\<close> is the outcome of the DHT's \<open>Provide\<close>; the record is made before it is asked.\<close>

definition Provide ::
  "exchange_env \<Rightarrow> (bytes \<Rightarrow> goerr option) \<Rightarrow> string \<Rightarrow> 'r ContentExchange \<Rightarrow> goerr option \<times> 'r ContentExchange" where
  "Provide env announce cidHex ce =
     (case hexToCid env cidHex of
        Inl e \<Rightarrow> Some (wrap ''converting CID for DHT provide'' e)
      | Inr c \<Rightarrow> map_option (wrap ''announcing CID to DHT'') (announce c),
      ce\<lparr>ce_provided := (ce_provided ce)(cidHex := True)\<rparr>)"

definition ErrFetchBackoffActive :: goerr where
  "ErrFetchBackoffActive = Err ''content fetch temporarily backed off after recent failure''"

definition checkFetchBackoffLocked :: "string \<Rightarrow> int \<Rightarrow> 'r ContentExchange \<Rightarrow> goerr option \<times> 'r ContentExchange" where
  "checkFetchBackoffLocked cidHex now ce = (case ce_fetchFailures ce cidHex of
      None \<Rightarrow> (None, ce)
    | Some until \<Rightarrow>
        if now < until then (Some ErrFetchBackoffActive, ce)
        else (None, ce\<lparr>ce_fetchFailures := (ce_fetchFailures ce)(cidHex := None)\<rparr>))"

definition recordFetchResultLocked :: "string \<Rightarrow> goerr + 'r \<Rightarrow> int \<Rightarrow> 'r ContentExchange \<Rightarrow> 'r ContentExchange" where
  "recordFetchResultLocked cidHex res now ce = (case res of
      Inl _ \<Rightarrow> ce\<lparr>ce_fetchFailures := (ce_fetchFailures ce)(cidHex \<mapsto> now + contentFetchFailureBackoff)\<rparr>
    | Inr _ \<Rightarrow> ce\<lparr>ce_fetchFailures := (ce_fetchFailures ce)(cidHex := None)\<rparr>)"

text \<open>
  \<open>FetchContent\<close> up to \<open>fetchShared\<close>: the local copy, which ends the call, or the identifier to fetch.
\<close>

definition FetchContentLocally ::
  "(string \<Rightarrow> goerr + bytes option) option \<Rightarrow> string \<Rightarrow> (goerr + bytes) + bytes" where
  "FetchContentLocally cas cidHex =
     (case (case cas of None \<Rightarrow> None | Some f \<Rightarrow> (case f cidHex of Inl _ \<Rightarrow> None | Inr d \<Rightarrow> d)) of
        Some data \<Rightarrow> Inl (Inr data)
      | None \<Rightarrow> (case DecodeString cidHex of
          Inl e \<Rightarrow> Inl (Inl (wrap ''decoding CID hex'' e))
        | Inr cidBytes \<Rightarrow> Inr cidBytes))"

definition setCall :: "nat \<Rightarrow> string \<Rightarrow> bool \<Rightarrow> 'r phase \<Rightarrow> 'r ContentExchange \<Rightarrow> 'r ContentExchange" where
  "setCall i cidHex shared ph ce =
     ce\<lparr>ce_calls := (ce_calls ce)(i \<mapsto> \<lparr>ca_CID = cidHex, ca_Shared = shared, ca_Phase = ph\<rparr>)\<rparr>"

definition startShared :: "int \<Rightarrow> nat \<Rightarrow> string \<Rightarrow> 'r ContentExchange \<Rightarrow> 'r ContentExchange" where
  "startShared now i cidHex ce = (case checkFetchBackoffLocked cidHex now ce of
      (Some e, ce1) \<Rightarrow> setCall i cidHex True (Returned (Inl e)) ce1
    | (None, ce1) \<Rightarrow> (case ce_fetchInFlight ce1 cidHex of
        Some _ \<Rightarrow> setCall i cidHex True Joined ce1
      | None \<Rightarrow> setCall i cidHex True Waiting
          (ce1\<lparr>ce_fetchInFlight := (ce_fetchInFlight ce1)(cidHex \<mapsto> i)\<rparr>)))"

definition startToFile :: "int \<Rightarrow> nat \<Rightarrow> string \<Rightarrow> 'r ContentExchange \<Rightarrow> 'r ContentExchange" where
  "startToFile now i cidHex ce = (case DecodeString cidHex of
      Inl e \<Rightarrow> setCall i cidHex False (Returned (Inl (wrap ''decoding CID hex'' e))) ce
    | Inr _ \<Rightarrow> (case checkFetchBackoffLocked cidHex now ce of
        (Some e, ce1) \<Rightarrow> setCall i cidHex False (Returned (Inl e)) ce1
      | (None, ce1) \<Rightarrow> setCall i cidHex False Waiting ce1))"

definition acquireSlot :: "nat \<Rightarrow> 'r call \<Rightarrow> 'r ContentExchange \<Rightarrow> 'r ContentExchange" where
  "acquireSlot i c ce = setCall i (ca_CID c) (ca_Shared c) Running (ce\<lparr>ce_fetchSlots := ce_fetchSlots ce + 1\<rparr>)"

definition releaseSlot :: "nat \<Rightarrow> 'r call \<Rightarrow> goerr + 'r \<Rightarrow> 'r ContentExchange \<Rightarrow> 'r ContentExchange" where
  "releaseSlot i c res ce =
     setCall i (ca_CID c) (ca_Shared c) (Fetched res) (ce\<lparr>ce_fetchSlots := ce_fetchSlots ce - 1\<rparr>)"

text \<open>The result is recorded, the flight ends, and \<open>close(call.done)\<close> wakes all that joined it.\<close>

definition publishResult :: "int \<Rightarrow> nat \<Rightarrow> 'r call \<Rightarrow> goerr + 'r \<Rightarrow> 'r ContentExchange \<Rightarrow> 'r ContentExchange" where
  "publishResult now i c res ce =
     (let ce1 = recordFetchResultLocked (ca_CID c) res now
        (if ca_Shared c then ce\<lparr>ce_fetchInFlight := (ce_fetchInFlight ce)(ca_CID c := None)\<rparr> else ce) in
      ce1\<lparr>ce_calls := (\<lambda>j. case ce_calls ce1 j of
          None \<Rightarrow> None
        | Some d \<Rightarrow> Some (if j = i \<or> ca_Shared c \<and> ca_CID d = ca_CID c \<and> ca_Phase d = Joined
            then d\<lparr>ca_Phase := Returned res\<rparr> else d))\<rparr>)"

text \<open>
  The steps; \<open>e\<close> is the error of a context that ended, \<open>outcome\<close> what the fetch of an identifier (by a
  shared call or not) can return.
\<close>

inductive fetchStep ::
  "(bool \<Rightarrow> string \<Rightarrow> goerr + 'r \<Rightarrow> bool) \<Rightarrow> 'r ContentExchange \<Rightarrow> 'r ContentExchange \<Rightarrow> bool" for outcome where
  start: "ce_calls ce i = None \<Longrightarrow> fetchStep outcome ce (startShared now i cidHex ce)"
| startFile: "ce_calls ce i = None \<Longrightarrow> fetchStep outcome ce (startToFile now i cidHex ce)"
| acquire: "ce_calls ce i = Some c \<Longrightarrow> ca_Phase c = Waiting \<Longrightarrow> ce_fetchSlots ce < contentFetchConcurrency \<Longrightarrow>
    fetchStep outcome ce (acquireSlot i c ce)"
| cancelled: "ce_calls ce i = Some c \<Longrightarrow> ca_Phase c = Waiting \<Longrightarrow>
    fetchStep outcome ce (setCall i (ca_CID c) (ca_Shared c) (Fetched (Inl e)) ce)"
| fetched: "ce_calls ce i = Some c \<Longrightarrow> ca_Phase c = Running \<Longrightarrow> outcome (ca_Shared c) (ca_CID c) res \<Longrightarrow>
    fetchStep outcome ce (releaseSlot i c res ce)"
| publish: "ce_calls ce i = Some c \<Longrightarrow> ca_Phase c = Fetched res \<Longrightarrow> fetchStep outcome ce (publishResult now i c res ce)"
| leave: "ce_calls ce i = Some c \<Longrightarrow> ca_Phase c = Joined \<Longrightarrow>
    fetchStep outcome ce (setCall i (ca_CID c) (ca_Shared c) (Returned (Inl e)) ce)"

inductive fetchReachable :: "(bool \<Rightarrow> string \<Rightarrow> goerr + 'r \<Rightarrow> bool) \<Rightarrow> 'r ContentExchange \<Rightarrow> bool" for outcome where
  init: "fetchReachable outcome NewContentExchange"
| step: "fetchReachable outcome ce \<Longrightarrow> fetchStep outcome ce ce' \<Longrightarrow> fetchReachable outcome ce'"

end
