(* ===== verification/Listings.thy ===== *)
theory Listings
  imports AccessRepo GoText "HOL-Library.List_Lexorder"
begin

text \<open>
  The listings of the repositories that order or match text as SQLite does: the alphabetical listing of
  profiles (\<open>pkg/storage/profiles_repo.go\<close>) and the search of posts by a pattern of \<open>LIKE\<close>
  (\<open>pkg/storage/posts_repo.go\<close>), which is shown to find what contains the query.
\<close>

section \<open>Profiles by name\<close>

text \<open>The collation is \<open>BINARY\<close>: the order of the bytes.\<close>

definition byteOrder :: "string \<Rightarrow> nat list" where
  "byteOrder s = map of_char s"

definition GetAllProfiles :: "(DB, ProfileRow list) go" where
  "GetAllProfiles = wrapE ''get all profiles'' (queryE (\<lambda>db.
     sort_key (\<lambda>p. byteOrder (pf_DisplayName p)) (profiles db)))"

section \<open>Posts by a pattern\<close>

text \<open>
  \<open>LIKE\<close> goes through the text rune by rune, takes \<open>%\<close> for any runes and \<open>_\<close> for one, and folds the case
  of ASCII letters. A rune is a byte with, if it is at least 192, the continuation bytes that follow.
\<close>

definition continuation :: "char \<Rightarrow> bool" where
  "continuation c = (let n = (of_char c :: nat) in 128 \<le> n \<and> n < 192)"

fun skipRune :: "string \<Rightarrow> string" where
  "skipRune [] = []"
| "skipRune (c # cs) = (if 192 \<le> (of_char c :: nat) then dropWhile continuation cs else cs)"

lemma skipRune_less: "s \<noteq> [] \<Longrightarrow> length (skipRune s) < length s"
  by (cases s) (auto simp: less_Suc_eq_le length_dropWhile_le)

function sqlLike :: "string \<Rightarrow> string \<Rightarrow> bool" where
  "sqlLike [] s = (s = [])"
| "sqlLike (p # ps) [] = (p = CHR ''%'' \<and> sqlLike ps [])"
| "sqlLike (p # ps) (c # cs) =
     (if p = CHR ''%'' then sqlLike ps (c # cs) \<or> sqlLike (p # ps) (skipRune (c # cs))
      else if p = CHR ''_'' then sqlLike ps (skipRune (c # cs))
      else lowerChar c = lowerChar p \<and> sqlLike ps cs)"
  by pat_completeness auto
termination
proof (relation "measure (\<lambda>(p, s). length p + length s)", goal_cases)
  case (4 p ps c cs)
  then show ?case using skipRune_less [of "c # cs"] by simp
next
  case (5 p ps c cs)
  then show ?case using skipRune_less [of "c # cs"] by simp
qed simp_all

definition SearchPostsByContent :: "string \<Rightarrow> int \<Rightarrow> (DB, PostRow list) go" where
  "SearchPostsByContent query limit = wrapE ''search posts by content'' (queryE (\<lambda>db.
     page (\<lambda>p. sqlLike (''%'' @ query @ ''%'') (p_Content p)) limit (posts db)))"

section \<open>What a search finds\<close>

definition wildcard :: "char \<Rightarrow> bool" where
  "wildcard c \<longleftrightarrow> c = CHR ''%'' \<or> c = CHR ''_''"

lemma lowerChar_continuation: "lowerChar c = lowerChar d \<Longrightarrow> continuation c = continuation d"
proof -
  have "continuation (lowerChar c) = continuation c" for c
  proof (cases "65 \<le> (of_char c :: nat) \<and> (of_char c :: nat) \<le> 90")
    case True
    then have "(of_char (char_of (of_char c + 32 :: nat)) :: nat) = of_char c + 32" by simp
    with True show ?thesis by (simp add: lowerChar_def continuation_def Let_def)
  next
    case False
    then show ?thesis by (auto simp: lowerChar_def Let_def)
  qed
  then show "lowerChar c = lowerChar d \<Longrightarrow> continuation c = continuation d" by metis
qed

lemma like_rest: "sqlLike ''%'' s"
proof (induction "length s" arbitrary: s rule: less_induct)
  case less
  show ?case
  proof (cases s)
    case (Cons c cs)
    have "sqlLike ''%'' (skipRune (c # cs))" by (rule less) (use Cons skipRune_less [of "c # cs"] in simp)
    then show ?thesis unfolding Cons sqlLike.simps(3) by simp
  qed simp
qed

lemma like_prefix:
  "\<forall>c\<in>set q. \<not> wildcard c \<Longrightarrow> sqlLike (q @ ''%'') s \<longleftrightarrow> HasPrefix (ToLowerASCII s) (ToLowerASCII q)"
proof (induction q arbitrary: s)
  case Nil
  then show ?case using like_rest by (simp add: HasPrefix_def ToLowerASCII_def)
next
  case (Cons c q)
  then show ?case by (cases s) (auto simp: wildcard_def HasPrefix_def ToLowerASCII_def)
qed

lemma Contains_dropWhile:
  assumes "q \<noteq> []" "\<not> continuation (hd q)"
  shows "containsString (ToLowerASCII (dropWhile continuation s)) (ToLowerASCII q) = containsString (ToLowerASCII s) (ToLowerASCII q)"
proof (induction s)
  case (Cons c s)
  show ?case
  proof (cases "continuation c")
    case True
    then have "lowerChar c \<noteq> lowerChar (hd q)" using assms(2) lowerChar_continuation by metis
    then have "\<not> HasPrefix (ToLowerASCII (c # s)) (ToLowerASCII q)"
      using assms(1) by (cases q) (auto simp: HasPrefix_def ToLowerASCII_def)
    then have "containsString (ToLowerASCII (c # s)) (ToLowerASCII q) = containsString (ToLowerASCII s) (ToLowerASCII q)"
      by (simp add: ToLowerASCII_def)
    with Cons True show ?thesis by (simp del: containsString.simps)
  qed simp
qed simp

lemma Contains_skipRune:
  assumes "q \<noteq> []" "\<not> continuation (hd q)" "s \<noteq> []"
  shows "containsString (ToLowerASCII s) (ToLowerASCII q) \<longleftrightarrow>
    HasPrefix (ToLowerASCII s) (ToLowerASCII q) \<or> containsString (ToLowerASCII (skipRune s)) (ToLowerASCII q)"
proof (cases s)
  case (Cons c cs)
  then show ?thesis
    using Contains_dropWhile [OF assms(1,2), of cs] by (simp add: ToLowerASCII_def)
qed (use assms(3) in simp)

text \<open>
  A query without the wildcards of \<open>LIKE\<close> finds exactly the posts whose content contains it, the
  case of ASCII letters aside.
\<close>

theorem like_finds_substrings:
  assumes "\<forall>c\<in>set query. \<not> wildcard c" "query = [] \<or> \<not> continuation (hd query)"
  shows "sqlLike (''%'' @ query @ ''%'') content \<longleftrightarrow> containsString (ToLowerASCII content) (ToLowerASCII query)"
proof (cases "query = []")
  case True
  have "sqlLike ''%%'' content" by (cases content) (auto simp: like_rest simp del: sqlLike.simps(3) intro: sqlLike.simps(3) [THEN iffD2])
  moreover have "containsString s []" for s by (cases s) (simp_all add: HasPrefix_def)
  ultimately show ?thesis using True by (simp add: ToLowerASCII_def)
next
  case False
  show ?thesis
  proof (induction "length content" arbitrary: content rule: less_induct)
    case less
    show ?case
    proof (cases "content = []")
      case True
      then show ?thesis using False like_prefix [OF assms(1), of "[]"]
        by (simp add: HasPrefix_def ToLowerASCII_def)
    next
      case ne: False
      have "sqlLike (''%'' @ query @ ''%'') content \<longleftrightarrow> sqlLike (query @ ''%'') content \<or>
          sqlLike (''%'' @ query @ ''%'') (skipRune content)" using ne by (cases content) simp_all
      then show ?thesis
        using less [OF skipRune_less [OF ne]] like_prefix [OF assms(1)] assms(2) False
          Contains_skipRune [OF False _ ne] by blast
    qed
  qed
qed

theorem like_finds_substrings_witness:
  "sqlLike (''%'' @ ''Leak'' @ ''%'') ''no LEAKS'' \<longleftrightarrow> containsString (ToLowerASCII ''no LEAKS'') (ToLowerASCII ''Leak'')"
  by (rule like_finds_substrings) (simp_all add: wildcard_def continuation_def)

text \<open>The wildcards of a query are not escaped: a search for \<open>100%\<close> finds what has no percent sign.\<close>

lemma like_wildcard: "sqlLike (''%'' @ ''1%'' @ ''%'') ''21'' \<and> \<not> containsString ''21'' ''1%''"
  by (simp add: lowerChar_def Let_def HasPrefix_def)

end
