(* ===== verification/Tokens.thy ===== *)
theory Tokens
  imports Identity
begin

text \<open>
  The bearer credentials of the HTTP interface: one-time tickets for web sockets
  (\<open>pkg/api/ws_ticket.go\<close>), browser access sessions (\<open>pkg/api/browser_auth.go\<close>) and the
  sessions of the web user interface (\<open>pkg/web/session.go\<close>). The locale \<open>credential\<close> is what they
  have in common; it shows that a credential is accepted only on the strength of an earlier grant.
  Random bytes are arguments, times are in nanoseconds. A Go map is an association list with distinct
  keys, and \<open>iter\<close> is the order in which a loop over it visits the entries.
\<close>

section \<open>Tables of expiring tokens\<close>

text \<open>\<open>b := make([]byte, 32); rand.Read(b)\<close>, with a source of random bytes.\<close>

type_synonym randomness = "nat \<Rightarrow> byte"

definition randomBytes :: "randomness \<Rightarrow> bytes" where
  "randomBytes src = map src [0..<32]"

text \<open>The state of \<open>WSTicketManager\<close> and of \<open>BrowserAuthManager\<close>.\<close>

record TokenTable =
  tt_tokens :: "(string \<times> int) list"
  tt_ttl :: int
  tt_maxCount :: int

definition second :: int where "second = 1000000000"
definition defaultWSTicketTTL :: int where "defaultWSTicketTTL = 60 * second"
definition maxWSTickets :: int where "maxWSTickets = 4096"
definition defaultBrowserAuthTTL :: int where "defaultBrowserAuthTTL = 24 * 3600 * second"
definition maxBrowserAuthSessions :: int where "maxBrowserAuthSessions = 4096"

definition NewWSTicketManager :: "int \<Rightarrow> TokenTable" where
  "NewWSTicketManager ttl = \<lparr>tt_tokens = [], tt_ttl = (if ttl \<le> 0 then defaultWSTicketTTL else ttl),
     tt_maxCount = maxWSTickets\<rparr>"

definition NewBrowserAuthManager :: "int \<Rightarrow> TokenTable" where
  "NewBrowserAuthManager ttl = \<lparr>tt_tokens = [], tt_ttl = (if ttl \<le> 0 then defaultBrowserAuthTTL else ttl),
     tt_maxCount = maxBrowserAuthSessions\<rparr>"

definition deleteKey :: "'k \<Rightarrow> ('k \<times> 'v) list \<Rightarrow> ('k \<times> 'v) list" where
  "deleteKey k m = filter (\<lambda>e. fst e \<noteq> k) m"

definition putKey :: "'k \<Rightarrow> 'v \<Rightarrow> ('k \<times> 'v) list \<Rightarrow> ('k \<times> 'v) list" where
  "putKey k v m = deleteKey k m @ [(k, v)]"

text \<open>The loop deletes entries of the map it ranges over, which Go allows: it visits the others.\<close>

definition cleanupExpiredLocked :: "int \<Rightarrow> (string \<times> int) list \<Rightarrow> (string \<times> int) list" where
  "cleanupExpiredLocked now m = filter (\<lambda>e. now < snd e) m"

fun oldestLoop :: "(string \<times> int) list \<Rightarrow> (string \<times> int) option \<Rightarrow> (string \<times> int) option" where
  "oldestLoop [] best = best"
| "oldestLoop ((token, expiresAt) # es) best = oldestLoop es (case best of
      None \<Rightarrow> Some (token, expiresAt)
    | Some (t, e) \<Rightarrow> if expiresAt < e then Some (token, expiresAt) else Some (t, e))"

type_synonym order = "(string \<times> int) list \<Rightarrow> (string \<times> int) list"

definition evictOldestLocked :: "order \<Rightarrow> (string \<times> int) list \<Rightarrow> (string \<times> int) list" where
  "evictOldestLocked iter m = (case oldestLoop (iter m) None of
      None \<Rightarrow> m
    | Some (token, _) \<Rightarrow> deleteKey token m)"

text \<open>\<open>Issue\<close>, the same in both managers up to the default of the bound.\<close>

definition issueToken :: "int \<Rightarrow> order \<Rightarrow> goerr + randomness \<Rightarrow> int \<Rightarrow> TokenTable \<Rightarrow> (goerr + string) \<times> TokenTable" where
  "issueToken defaultMax iter rnd now tt = (case rnd of
      Inl e \<Rightarrow> (Inl e, tt)
    | Inr b \<Rightarrow>
        let token = EncodeToString (randomBytes b);
            m = cleanupExpiredLocked now (tt_tokens tt);
            mx = (if tt_maxCount tt \<le> 0 then defaultMax else tt_maxCount tt);
            m' = (if mx \<le> int (length m) then evictOldestLocked iter m else m)
        in (Inr token, tt\<lparr>tt_tokens := putKey token (now + tt_ttl tt) m', tt_maxCount := mx\<rparr>))"

definition WSTicket_Issue :: "order \<Rightarrow> goerr + randomness \<Rightarrow> int \<Rightarrow> TokenTable \<Rightarrow> (goerr + string) \<times> TokenTable" where
  "WSTicket_Issue = issueToken maxWSTickets"

definition BrowserAuth_Issue :: "order \<Rightarrow> goerr + randomness \<Rightarrow> int \<Rightarrow> TokenTable \<Rightarrow> (goerr + string) \<times> TokenTable" where
  "BrowserAuth_Issue = issueToken maxBrowserAuthSessions"

definition ValidateAndConsume :: "string \<Rightarrow> int \<Rightarrow> TokenTable \<Rightarrow> bool \<times> TokenTable" where
  "ValidateAndConsume ticket now tt =
     (if ticket = '''' then (False, tt)
      else let m = cleanupExpiredLocked now (tt_tokens tt) in
        case map_of m ticket of
          None \<Rightarrow> (False, tt\<lparr>tt_tokens := deleteKey ticket m\<rparr>)
        | Some expiresAt \<Rightarrow>
            if \<not> now < expiresAt then (False, tt\<lparr>tt_tokens := deleteKey ticket m\<rparr>)
            else (True, tt\<lparr>tt_tokens := deleteKey ticket m\<rparr>))"

datatype browserAuthSessionState =
    browserAuthSessionMissing
  | browserAuthSessionValid
  | browserAuthSessionStale

definition sessionState :: "string \<Rightarrow> int \<Rightarrow> TokenTable \<Rightarrow> browserAuthSessionState \<times> TokenTable" where
  "sessionState token now tt =
     (if token = '''' then (browserAuthSessionMissing, tt)
      else let m = cleanupExpiredLocked now (tt_tokens tt) in
        case map_of m token of
          None \<Rightarrow> (browserAuthSessionStale, tt\<lparr>tt_tokens := deleteKey token m\<rparr>)
        | Some expiresAt \<Rightarrow>
            if \<not> now < expiresAt then (browserAuthSessionStale, tt\<lparr>tt_tokens := deleteKey token m\<rparr>)
            else (browserAuthSessionValid, tt\<lparr>tt_tokens := putKey token (now + tt_ttl tt) m\<rparr>))"

definition BrowserAuth_Validate :: "string \<Rightarrow> int \<Rightarrow> TokenTable \<Rightarrow> bool \<times> TokenTable" where
  "BrowserAuth_Validate token now tt =
     (case sessionState token now tt of (st, tt') \<Rightarrow> (st = browserAuthSessionValid, tt'))"

text \<open>\<open>cookie\<close> is the value of the request's cookie, if it has one.\<close>

definition CookieState ::
  "string option \<Rightarrow> int \<Rightarrow> TokenTable \<Rightarrow> (browserAuthSessionState \<times> string) \<times> TokenTable" where
  "CookieState cookie now tt = (case cookie of
      None \<Rightarrow> ((browserAuthSessionMissing, ''''), tt)
    | Some value \<Rightarrow>
        if value = '''' then ((browserAuthSessionMissing, ''''), tt)
        else case sessionState value now tt of (st, tt') \<Rightarrow> ((st, value), tt'))"

definition ValidateRequest :: "string option \<Rightarrow> int \<Rightarrow> TokenTable \<Rightarrow> bool \<times> TokenTable" where
  "ValidateRequest cookie now tt =
     (case CookieState cookie now tt of ((st, _), tt') \<Rightarrow> (st = browserAuthSessionValid, tt'))"

definition Revoke :: "string \<Rightarrow> TokenTable \<Rightarrow> bool \<times> TokenTable" where
  "Revoke token tt =
     (if token = '''' then (False, tt)
      else (map_of (tt_tokens tt) token \<noteq> None, tt\<lparr>tt_tokens := deleteKey token (tt_tokens tt)\<rparr>))"

section \<open>Sessions of the web interface\<close>

record UserSession =
  us_Token :: string
  us_KeyPair :: KeyPair
  us_PubkeyHex :: string
  us_CreatedAt :: int
  us_LastSeen :: int

record SessionManager =
  sm_sessions :: "(string \<times> UserSession) list"
  sm_maxCount :: int

definition sessionMaxAge :: int where "sessionMaxAge = 24 * 3600 * second"
definition maxWebSessions :: int where "maxWebSessions = 4096"

definition NewSessionManager :: SessionManager where
  "NewSessionManager = \<lparr>sm_sessions = [], sm_maxCount = maxWebSessions\<rparr>"

definition cleanupExpiredSessionsLocked ::
  "int \<Rightarrow> (string \<times> UserSession) list \<Rightarrow> (string \<times> UserSession) list" where
  "cleanupExpiredSessionsLocked now m = filter (\<lambda>e. \<not> sessionMaxAge < now - us_LastSeen (snd e)) m"

fun oldestSessionLoop ::
  "(string \<times> UserSession) list \<Rightarrow> (string \<times> UserSession) option \<Rightarrow> (string \<times> UserSession) option" where
  "oldestSessionLoop [] best = best"
| "oldestSessionLoop ((token, sess) # es) best = oldestSessionLoop es (case best of
      None \<Rightarrow> Some (token, sess)
    | Some (t, oldest) \<Rightarrow>
        if us_LastSeen sess < us_LastSeen oldest \<or>
           us_LastSeen sess = us_LastSeen oldest \<and> us_CreatedAt sess < us_CreatedAt oldest
        then Some (token, sess) else Some (t, oldest))"

type_synonym sorder = "(string \<times> UserSession) list \<Rightarrow> (string \<times> UserSession) list"

definition evictOldestSessionLocked ::
  "sorder \<Rightarrow> (string \<times> UserSession) list \<Rightarrow> (string \<times> UserSession) list" where
  "evictOldestSessionLocked iter m = (case oldestSessionLoop (iter m) None of
      None \<Rightarrow> m
    | Some (token, _) \<Rightarrow> deleteKey token m)"

definition SessionManager_Create ::
  "sorder \<Rightarrow> (goerr + randomness) \<times> KeyPair \<Rightarrow> int \<Rightarrow> SessionManager \<Rightarrow> (goerr + string) \<times> SessionManager" where
  "SessionManager_Create iter arg now sm = (case arg of (rnd, kp) \<Rightarrow> (case rnd of
      Inl e \<Rightarrow> (Inl e, sm)
    | Inr b \<Rightarrow>
        let token = EncodeToString (randomBytes b);
            m = cleanupExpiredSessionsLocked now (sm_sessions sm);
            mx = (if sm_maxCount sm \<le> 0 then maxWebSessions else sm_maxCount sm);
            m' = (if mx \<le> int (length m) then evictOldestSessionLocked iter m else m)
        in (Inr token, sm\<lparr>sm_sessions := putKey token
             \<lparr>us_Token = token, us_KeyPair = kp, us_PubkeyHex = EncodeToString (PublicKeyBytes kp),
              us_CreatedAt = now, us_LastSeen = now\<rparr> m', sm_maxCount := mx\<rparr>)))"

text \<open>\<open>Get\<close> touches the session it returns; it does not look at its age.\<close>

definition SessionManager_Get :: "string \<Rightarrow> int \<Rightarrow> SessionManager \<Rightarrow> UserSession option \<times> SessionManager" where
  "SessionManager_Get token now sm = (case map_of (sm_sessions sm) token of
      None \<Rightarrow> (None, sm)
    | Some sess \<Rightarrow>
        (Some (sess\<lparr>us_LastSeen := now\<rparr>),
         sm\<lparr>sm_sessions := map (\<lambda>e. if fst e = token then (token, sess\<lparr>us_LastSeen := now\<rparr>) else e)
              (sm_sessions sm)\<rparr>))"

definition GetFromRequest ::
  "string option \<Rightarrow> int \<Rightarrow> SessionManager \<Rightarrow> UserSession option \<times> SessionManager" where
  "GetFromRequest cookie now sm = (case cookie of
      None \<Rightarrow> (None, sm)
    | Some value \<Rightarrow> if value = '''' then (None, sm) else SessionManager_Get value now sm)"

definition SessionManager_Destroy :: "string \<Rightarrow> SessionManager \<Rightarrow> SessionManager" where
  "SessionManager_Destroy token sm = sm\<lparr>sm_sessions := deleteKey token (sm_sessions sm)\<rparr>"

text \<open>The second component is the value of the cookie that is set, if one is.\<close>

definition RotateForRequest ::
  "sorder \<Rightarrow> goerr + randomness \<Rightarrow> int \<Rightarrow> string option \<Rightarrow> KeyPair \<Rightarrow> SessionManager
     \<Rightarrow> (goerr + string) \<times> string option \<times> SessionManager" where
  "RotateForRequest iter rnd now cookie kp sm = (case SessionManager_Create iter (rnd, kp) now sm of
      (Inl e, sm') \<Rightarrow> (Inl e, None, sm')
    | (Inr token, sm') \<Rightarrow>
        (Inr token, Some token,
         case cookie of
           None \<Rightarrow> sm'
         | Some value \<Rightarrow>
             if value \<noteq> '''' \<and> value \<noteq> token then SessionManager_Destroy value sm' else sm'))"

section \<open>Credentials\<close>

text \<open>
  A request issues a credential, presents one, or does something else of type \<open>'o\<close>, such as revoking
  one. A run gives the events of a sequence of requests at given times.
\<close>

datatype ('r, 'o) tokenOp = TIssue 'r | TPresent string | TOther 'o

datatype 'o tokenEvent = EFailed | EIssued string | EPresented string bool | EOther 'o

fun tokenRun ::
  "('r \<Rightarrow> int \<Rightarrow> 's \<Rightarrow> (goerr + string) \<times> 's) \<Rightarrow> (string \<Rightarrow> int \<Rightarrow> 's \<Rightarrow> bool \<times> 's) \<Rightarrow>
   ('o \<Rightarrow> int \<Rightarrow> 's \<Rightarrow> 's) \<Rightarrow> (int \<times> ('r, 'o) tokenOp) list \<Rightarrow> 's \<Rightarrow> (int \<times> 'o tokenEvent) list" where
  "tokenRun issue present other [] s = []"
| "tokenRun issue present other ((now, TIssue r) # ops) s = (case issue r now s of
      (Inl e, s') \<Rightarrow> (now, EFailed) # tokenRun issue present other ops s'
    | (Inr t, s') \<Rightarrow> (now, EIssued t) # tokenRun issue present other ops s')"
| "tokenRun issue present other ((now, TPresent t) # ops) s = (case present t now s of
      (b, s') \<Rightarrow> (now, EPresented t b) # tokenRun issue present other ops s')"
| "tokenRun issue present other ((now, TOther x) # ops) s =
     (now, EOther x) # tokenRun issue present other ops (other x now s)"

text \<open>
  \<open>granted ends renew fresh h t now\<close>: the history \<open>h\<close> has a grant of \<open>t\<close>, its issue or, when using it
  renews it, an accepted use, that is fresh at \<open>now\<close>, and nothing after it has ended the credential: no
  request that revokes it, no refusal and, for a credential that is not renewed, no use.
\<close>

definition keepsToken :: "('o \<Rightarrow> string \<Rightarrow> bool) \<Rightarrow> bool \<Rightarrow> string \<Rightarrow> 'o tokenEvent \<Rightarrow> bool" where
  "keepsToken ends renew t ev \<longleftrightarrow> (case ev of
      EOther x \<Rightarrow> \<not> ends x t
    | EPresented t' b \<Rightarrow> t' = t \<longrightarrow> b \<and> renew
    | _ \<Rightarrow> True)"

lemma keepsToken_simps [simp, intro]:
  "keepsToken ends renew t EFailed" "keepsToken ends renew t (EIssued u)"
  "t \<noteq> u \<or> b \<and> renew \<Longrightarrow> keepsToken ends renew t (EPresented u b)"
  "\<not> ends x t \<Longrightarrow> keepsToken ends renew t (EOther x)"
  by (auto simp: keepsToken_def)

definition granted :: "('o \<Rightarrow> string \<Rightarrow> bool) \<Rightarrow> bool \<Rightarrow> (int \<Rightarrow> int \<Rightarrow> bool) \<Rightarrow>
    (int \<times> 'o tokenEvent) list \<Rightarrow> string \<Rightarrow> int \<Rightarrow> bool" where
  "granted ends renew fresh h t now \<longleftrightarrow> (\<exists>p1 i ev p2. h = p1 @ (i, ev) # p2 \<and>
     (ev = EIssued t \<or> renew \<and> ev = EPresented t True) \<and> fresh i now \<and>
     (\<forall>e\<in>set p2. keepsToken ends renew t (snd e)))"

lemma granted_new:
  assumes "fresh i now" "ev = EIssued t \<or> renew \<and> ev = EPresented t True"
  shows "granted ends renew fresh (h @ [(i, ev)]) t now"
  unfolding granted_def using assms
  by (intro exI [of _ h] exI [of _ i] exI [of _ ev] exI [of _ "[]"]) auto

lemma granted_still:
  assumes "granted ends renew fresh h t now" "keepsToken ends renew t ev"
  shows "granted ends renew fresh (h @ [(i, ev)]) t now"
proof -
  from assms(1) obtain p1 j g p2 where "h = p1 @ (j, g) # p2" "g = EIssued t \<or> renew \<and> g = EPresented t True"
    "fresh j now" "\<forall>e\<in>set p2. keepsToken ends renew t (snd e)" unfolding granted_def by blast
  with assms(2) show ?thesis
    unfolding granted_def
    by (intro exI [of _ p1] exI [of _ j] exI [of _ g] exI [of _ "p2 @ [(i, ev)]"]) auto
qed

text \<open>
  What a manager of credentials promises: \<open>live s t now\<close> says that \<open>t\<close> would be accepted at \<open>now\<close>; an
  operation makes live only what it grants, and what ends a credential leaves it dead.
\<close>

locale credential =
  fixes issue :: "'r \<Rightarrow> int \<Rightarrow> 's \<Rightarrow> (goerr + string) \<times> 's"
    and present :: "string \<Rightarrow> int \<Rightarrow> 's \<Rightarrow> bool \<times> 's"
    and other :: "'o \<Rightarrow> int \<Rightarrow> 's \<Rightarrow> 's"
    and ends :: "'o \<Rightarrow> string \<Rightarrow> bool"
    and consistent :: "'s \<Rightarrow> bool"
    and live :: "'s \<Rightarrow> string \<Rightarrow> int \<Rightarrow> bool"
    and fresh :: "int \<Rightarrow> int \<Rightarrow> bool"
    and renew :: bool
  assumes issue_inv: "consistent s \<Longrightarrow> issue r now s = (res, s') \<Longrightarrow> consistent s'"
    and present_inv: "consistent s \<Longrightarrow> present t now s = (b, s') \<Longrightarrow> consistent s'"
    and other_inv: "consistent s \<Longrightarrow> consistent (other x now s)"
    and issue_ok: "consistent s \<Longrightarrow> issue r now s = (Inr t, s') \<Longrightarrow> live s' t' when \<Longrightarrow>
      live s t' when \<or> t' = t \<and> fresh now when"
    and issue_err: "consistent s \<Longrightarrow> issue r now s = (Inl e, s') \<Longrightarrow> live s' t' when \<Longrightarrow> live s t' when"
    and present_sound: "consistent s \<Longrightarrow> present t now s = (True, s') \<Longrightarrow> live s t now"
    and present_live: "consistent s \<Longrightarrow> present t now s = (b, s') \<Longrightarrow> live s' t' when \<Longrightarrow>
      t' \<noteq> t \<and> live s t' when \<or> t' = t \<and> b \<and> renew \<and> fresh now when"
    and other_live: "consistent s \<Longrightarrow> live (other x now s) t' when \<Longrightarrow> \<not> ends x t' \<and> live s t' when"
begin

abbreviation backed :: "(int \<times> 'o tokenEvent) list \<Rightarrow> 's \<Rightarrow> bool" where
  "backed h s \<equiv> consistent s \<and> (\<forall>t now. live s t now \<longrightarrow> granted ends renew fresh h t now)"

lemma issue_backed:
  assumes "backed h s" "issue r now s = (Inr t, s')"
  shows "backed (h @ [(now, EIssued t)]) s'"
proof (intro conjI allI impI)
  show "granted ends renew fresh (h @ [(now, EIssued t)]) u at" if "live s' u at" for u at
    using issue_ok [OF _ assms(2) that] assms(1) by (auto intro: granted_new granted_still)
qed (use assms issue_inv in blast)

lemma failed_backed:
  assumes "backed h s" "issue r now s = (Inl e, s')"
  shows "backed (h @ [(now, EFailed)]) s'"
proof (intro conjI allI impI)
  show "granted ends renew fresh (h @ [(now, EFailed)]) u at" if "live s' u at" for u at
    using issue_err [OF _ assms(2) that] assms(1) by (auto intro: granted_still)
qed (use assms issue_inv in blast)

lemma present_backed:
  assumes "backed h s" "present t now s = (b, s')"
  shows "backed (h @ [(now, EPresented t b)]) s'"
proof (intro conjI allI impI)
  show "granted ends renew fresh (h @ [(now, EPresented t b)]) u at" if "live s' u at" for u at
    using present_live [OF _ assms(2) that] assms(1) by (auto intro: granted_new granted_still)
qed (use assms present_inv in blast)

lemma other_backed:
  assumes "backed h s"
  shows "backed (h @ [(now, EOther x)]) (other x now s)"
proof (intro conjI allI impI)
  show "granted ends renew fresh (h @ [(now, EOther x)]) u at" if "live (other x now s) u at" for u at
    using other_live [OF _ that] assms by (auto intro: granted_still)
qed (use assms other_inv in blast)

lemma run_step:
  assumes bk: "backed h s"
  shows "\<exists>ev s1. tokenRun issue present other ((at, oper) # ops) s =
      (at, ev) # tokenRun issue present other ops s1 \<and> backed (h @ [(at, ev)]) s1 \<and>
    (\<forall>t. ev = EPresented t True \<longrightarrow> live s t at)"
proof (cases oper)
  case (TIssue r)
  obtain res s1 where i: "issue r at s = (res, s1)" by force
  show ?thesis
  proof (cases res)
    case (Inl e)
    have "backed (h @ [(at, EFailed)]) s1" using bk i Inl by (intro failed_backed) simp_all
    then show ?thesis
      by (intro exI [of _ EFailed] exI [of _ s1]) (simp add: TIssue i Inl)
  next
    case (Inr t)
    have "backed (h @ [(at, EIssued t)]) s1" using bk i Inr by (intro issue_backed) simp_all
    then show ?thesis
      by (intro exI [of _ "EIssued t"] exI [of _ s1]) (simp add: TIssue i Inr)
  qed
next
  case (TPresent t)
  obtain b s1 where p: "present t at s = (b, s1)" by force
  have "backed (h @ [(at, EPresented t b)]) s1" using bk p by (rule present_backed)
  moreover have "b \<longrightarrow> live s t at" using bk p by (auto intro: present_sound)
  ultimately show ?thesis
    by (intro exI [of _ "EPresented t b"] exI [of _ s1]) (simp add: TPresent p)
next
  case (TOther x)
  have "backed (h @ [(at, EOther x)]) (other x at s)" using bk by (rule other_backed)
  then show ?thesis
    by (intro exI [of _ "EOther x"] exI [of _ "other x at s"]) (simp add: TOther)
qed

lemma uses_granted:
  assumes "backed h s" "tokenRun issue present other ops s = pre @ (now, EPresented t True) # suf"
  shows "granted ends renew fresh (h @ pre) t now"
  using assms
proof (induction ops arbitrary: s h pre)
  case (Cons top ops)
  obtain at oper where top: "top = (at, oper)" by force
  from run_step [OF Cons.prems(1), of at oper ops] obtain ev s1 where
    step: "tokenRun issue present other (top # ops) s = (at, ev) # tokenRun issue present other ops s1"
    and bk: "backed (h @ [(at, ev)]) s1" and use: "\<And>t. ev = EPresented t True \<Longrightarrow> live s t at"
    unfolding top by blast
  have eq: "(at, ev) # tokenRun issue present other ops s1 = pre @ (now, EPresented t True) # suf"
    using step Cons.prems(2) by simp
  show ?case
  proof (cases pre)
    case Nil
    with eq have "ev = EPresented t True" "at = now" by simp_all
    with use [OF this(1)] Cons.prems(1) Nil show ?thesis by simp
  next
    case (Cons e pre')
    with eq have "tokenRun issue present other ops s1 = pre' @ (now, EPresented t True) # suf" "e = (at, ev)"
      by simp_all
    with Cons.IH [OF bk this(1)] Cons show ?thesis by simp
  qed
qed simp

end

section \<open>Interpretations\<close>

lemma set_deleteKey [simp]: "set (deleteKey k m) = {e \<in> set m. fst e \<noteq> k}"
  by (auto simp: deleteKey_def)

lemma set_putKey [simp]: "set (putKey k v m) = insert (k, v) {e \<in> set m. fst e \<noteq> k}"
  by (auto simp: putKey_def)

lemma set_cleanup [simp]: "set (cleanupExpiredLocked now m) = {e \<in> set m. now < snd e}"
  by (auto simp: cleanupExpiredLocked_def)

lemma set_evict: "set (evictOldestLocked iter m) \<subseteq> set m"
  by (auto simp: evictOldestLocked_def split: option.splits)

text \<open>A token is live while an entry of it has not expired.\<close>

definition tokenLive :: "TokenTable \<Rightarrow> string \<Rightarrow> int \<Rightarrow> bool" where
  "tokenLive tt t now \<longleftrightarrow> (\<exists>e. (t, e) \<in> set (tt_tokens tt) \<and> now < e)"

definition lives :: "int \<Rightarrow> TokenTable \<Rightarrow> bool" where
  "lives ttl tt \<longleftrightarrow> tt_ttl tt = ttl \<and> (\<forall>e. ('''', e) \<notin> set (tt_tokens tt))"

lemma randomBytes_ne [simp]: "randomBytes src \<noteq> []"
  by (simp add: randomBytes_def)

lemma token_ne [simp]: "EncodeToString (randomBytes src) \<noteq> ''''" "'''' \<noteq> EncodeToString (randomBytes src)"
proof -
  have "length (EncodeToString (randomBytes src)) = 64" by (simp add: randomBytes_def)
  then show "EncodeToString (randomBytes src) \<noteq> ''''" by fastforce
  then show "'''' \<noteq> EncodeToString (randomBytes src)" by metis
qed

definition within :: "int \<Rightarrow> int \<Rightarrow> int \<Rightarrow> bool" where
  "within ttl i now \<longleftrightarrow> now < i + ttl"

lemma issueToken_shape:
  "issueToken mx iter (Inl e) now tt = (Inl e, tt)"
  "\<exists>n m. set m \<subseteq> set (tt_tokens tt) \<and>
     issueToken mx iter (Inr b) now tt = (Inr (EncodeToString (randomBytes b)),
       tt\<lparr>tt_tokens := putKey (EncodeToString (randomBytes b)) (now + tt_ttl tt) m, tt_maxCount := n\<rparr>)"
proof -
  let ?m = "cleanupExpiredLocked now (tt_tokens tt)"
  have "set (evictOldestLocked iter ?m) \<subseteq> set (tt_tokens tt)" "set ?m \<subseteq> set (tt_tokens tt)"
    using set_evict [of iter ?m] by auto
  then show "\<exists>n m. set m \<subseteq> set (tt_tokens tt) \<and>
     issueToken mx iter (Inr b) now tt = (Inr (EncodeToString (randomBytes b)),
       tt\<lparr>tt_tokens := putKey (EncodeToString (randomBytes b)) (now + tt_ttl tt) m, tt_maxCount := n\<rparr>)"
    by (simp only: issueToken_def Let_def sum.case split: if_splits) blast
qed (simp add: issueToken_def)

lemma issueToken_cases:
  assumes "issueToken mx iter r now tt = (res, tt')"
  obtains (failed) e where "res = Inl e" "tt' = tt"
  | (issued) t n m where "res = Inr t" "t \<noteq> ''''" "set m \<subseteq> set (tt_tokens tt)"
      "tt' = tt\<lparr>tt_tokens := putKey t (now + tt_ttl tt) m, tt_maxCount := n\<rparr>"
proof (cases r)
  case (Inl e)
  with assms show ?thesis by (intro failed [of e]) (simp_all add: issueToken_shape)
next
  case (Inr b)
  obtain n m where m: "set m \<subseteq> set (tt_tokens tt)" and eq: "issueToken mx iter (Inr b) now tt =
      (Inr (EncodeToString (randomBytes b)),
       tt\<lparr>tt_tokens := putKey (EncodeToString (randomBytes b)) (now + tt_ttl tt) m, tt_maxCount := n\<rparr>)"
    using issueToken_shape(2) [of tt mx iter b now] by blast
  have "res = Inr (EncodeToString (randomBytes b))"
    "tt' = tt\<lparr>tt_tokens := putKey (EncodeToString (randomBytes b)) (now + tt_ttl tt) m, tt_maxCount := n\<rparr>"
    using eq assms Inr by simp_all
  with m show ?thesis by (intro issued [OF _ token_ne(1)])
qed

lemma issueToken_laws:
  "lives ttl tt \<Longrightarrow> issueToken mx iter r now tt = (res, tt') \<Longrightarrow> lives ttl tt'"
  "lives ttl tt \<Longrightarrow> issueToken mx iter r now tt = (Inr t, tt') \<Longrightarrow> tokenLive tt' t' at \<Longrightarrow>
     tokenLive tt t' at \<or> t' = t \<and> within ttl now at"
  "issueToken mx iter r now tt = (Inl e, tt') \<Longrightarrow> tokenLive tt' t' at \<Longrightarrow> tokenLive tt t' at"
  by (erule issueToken_cases; auto simp: lives_def tokenLive_def within_def)+

lemma map_of_cleanup:
  "map_of (cleanupExpiredLocked now m) t = Some e \<Longrightarrow> (t, e) \<in> set m \<and> now < e"
  using map_of_SomeD [of "cleanupExpiredLocked now m" t e] by simp

lemma ValidateAndConsume_laws:
  "lives ttl tt \<Longrightarrow> ValidateAndConsume t now tt = (b, tt') \<Longrightarrow> lives ttl tt'"
  "ValidateAndConsume t now tt = (True, tt') \<Longrightarrow> tokenLive tt t now"
  "lives ttl tt \<Longrightarrow> ValidateAndConsume t now tt = (b, tt') \<Longrightarrow> tokenLive tt' t' at \<Longrightarrow>
     t' \<noteq> t \<and> tokenLive tt t' at"
  by (auto simp: ValidateAndConsume_def lives_def tokenLive_def Let_def dest: map_of_cleanup
      split: if_splits option.splits)

lemma sessionState_laws:
  "lives ttl tt \<Longrightarrow> BrowserAuth_Validate t now tt = (b, tt') \<Longrightarrow> lives ttl tt'"
  "BrowserAuth_Validate t now tt = (True, tt') \<Longrightarrow> tokenLive tt t now"
  "lives ttl tt \<Longrightarrow> BrowserAuth_Validate t now tt = (b, tt') \<Longrightarrow> tokenLive tt' t' at \<Longrightarrow>
     t' \<noteq> t \<and> tokenLive tt t' at \<or> t' = t \<and> b \<and> within ttl now at"
  by (auto simp: BrowserAuth_Validate_def sessionState_def lives_def tokenLive_def within_def Let_def
      dest: map_of_cleanup split: if_splits option.splits)

lemma Revoke_laws:
  "lives ttl tt \<Longrightarrow> lives ttl (snd (Revoke t tt))"
  "lives ttl tt \<Longrightarrow> tokenLive (snd (Revoke t tt)) t' at \<Longrightarrow> t \<noteq> t' \<and> tokenLive tt t' at"
  by (cases "t = ''''"; auto simp: lives_def Revoke_def tokenLive_def)+

text \<open>A ticket cannot be revoked: the manager has no other operation.\<close>

interpretation tickets: credential "WSTicket_Issue iter" ValidateAndConsume "\<lambda>(_ :: unit) _ tt. tt" "\<lambda>_ _. False"
  "lives ttl" tokenLive "within ttl" False for iter ttl
  unfolding WSTicket_Issue_def
  apply unfold_locales
  subgoal by (rule issueToken_laws)
  subgoal by (rule ValidateAndConsume_laws)
  subgoal by assumption
  subgoal by (rule issueToken_laws)
  subgoal by (rule issueToken_laws)
  subgoal by (rule ValidateAndConsume_laws)
  subgoal by (frule (2) ValidateAndConsume_laws) simp
  subgoal by simp
  done

interpretation browser: credential "BrowserAuth_Issue iter" BrowserAuth_Validate
  "\<lambda>t _ tt. snd (Revoke t tt)" "(=)" "lives ttl" tokenLive "within ttl" True for iter ttl
  unfolding BrowserAuth_Issue_def
  apply unfold_locales
  subgoal by (rule issueToken_laws)
  subgoal by (rule sessionState_laws)
  subgoal by (rule Revoke_laws)
  subgoal by (rule issueToken_laws)
  subgoal by (rule issueToken_laws)
  subgoal by (rule sessionState_laws)
  subgoal by (frule (2) sessionState_laws) blast
  subgoal by (rule Revoke_laws)
  done

text \<open>A session is live while it is in the map: \<open>Get\<close> does not look at its age.\<close>

definition sessionLive :: "SessionManager \<Rightarrow> string \<Rightarrow> int \<Rightarrow> bool" where
  "sessionLive sm t now \<longleftrightarrow> t \<in> fst ` set (sm_sessions sm)"

definition presentSession :: "string \<Rightarrow> int \<Rightarrow> SessionManager \<Rightarrow> bool \<times> SessionManager" where
  "presentSession t now sm = (case SessionManager_Get t now sm of (r, sm') \<Rightarrow> (r \<noteq> None, sm'))"

lemma set_evictSession: "set (evictOldestSessionLocked iter m) \<subseteq> set m"
  by (auto simp: evictOldestSessionLocked_def split: option.splits)

definition endSession :: "string option \<Rightarrow> int \<Rightarrow> SessionManager \<Rightarrow> SessionManager" where
  "endSession x now sm = (case x of
      None \<Rightarrow> sm\<lparr>sm_sessions := cleanupExpiredSessionsLocked now (sm_sessions sm)\<rparr>
    | Some t \<Rightarrow> SessionManager_Destroy t sm)"

lemma Create_live:
  assumes "SessionManager_Create iter r now sm = (res, sm')" "sessionLive sm' t' at"
  shows "sessionLive sm t' at \<or> res = Inr t'"
proof -
  obtain rnd kp where r: "r = (rnd, kp)" by force
  let ?m = "cleanupExpiredSessionsLocked now (sm_sessions sm)"
  have "set (evictOldestSessionLocked iter ?m) \<subseteq> set (sm_sessions sm)" "set ?m \<subseteq> set (sm_sessions sm)"
    using set_evictSession [of iter ?m] by (auto simp: cleanupExpiredSessionsLocked_def)
  with assms show ?thesis
    by (cases rnd; cases "(if sm_maxCount sm \<le> 0 then maxWebSessions else sm_maxCount sm) \<le> int (length ?m)")
      (auto simp: SessionManager_Create_def r Let_def sessionLive_def image_iff)
qed

lemma touched_keys: "fst ` set (map (\<lambda>e. if fst e = k then (k, v) else e) m) = fst ` set m"
  by (induction m) auto

lemma presentSession_live:
  assumes "presentSession t now sm = (b, sm')"
  shows "b \<longleftrightarrow> sessionLive sm t now" and "sessionLive sm' t' at \<longleftrightarrow> sessionLive sm t' at"
proof -
  have "(b \<longleftrightarrow> sessionLive sm t now) \<and> (sessionLive sm' t' at \<longleftrightarrow> sessionLive sm t' at)"
  proof (cases "map_of (sm_sessions sm) t")
    case None
    with assms show ?thesis
      by (auto simp: presentSession_def SessionManager_Get_def sessionLive_def map_of_eq_None_iff)
  next
    case (Some sess)
    then have "t \<in> fst ` set (sm_sessions sm)" by (metis map_of_eq_None_iff option.distinct(1))
    moreover have "b" "sm_sessions sm' = map (\<lambda>e. if fst e = t then (t, sess\<lparr>us_LastSeen := now\<rparr>) else e)
        (sm_sessions sm)"
      using assms Some by (auto simp: presentSession_def SessionManager_Get_def)
    ultimately show ?thesis by (simp only: sessionLive_def touched_keys simp_thms)
  qed
  then show "b \<longleftrightarrow> sessionLive sm t now" "sessionLive sm' t' at \<longleftrightarrow> sessionLive sm t' at" by simp_all
qed

interpretation websessions: credential "SessionManager_Create iter" presentSession endSession
  "\<lambda>x t. x = Some t" "\<lambda>_. True" sessionLive "\<lambda>_ _. True" True for iter
  apply unfold_locales
  subgoal by simp
  subgoal by simp
  subgoal by simp
  subgoal by (drule Create_live, assumption) auto
  subgoal by (drule Create_live, assumption) auto
  subgoal by (drule presentSession_live(1)) simp
  subgoal for sm t now b sm' t' at
    using presentSession_live(1) [of t now sm b sm'] presentSession_live(2) [of t now sm b sm' t' at] by (cases "t' = t") (auto simp: sessionLive_def)
  subgoal
    by (auto simp: endSession_def SessionManager_Destroy_def cleanupExpiredSessionsLocked_def sessionLive_def
        split: option.splits)
  done

section \<open>Refinement of a map of grants\<close>

text \<open>
  The abstract manager is a map from credentials to their expiry: it never cleans up, never evicts and
  compares a time on use.
\<close>

type_synonym grants = "string \<rightharpoonup> int"

definition grantIssue :: "int \<Rightarrow> goerr + randomness \<Rightarrow> int \<Rightarrow> grants \<Rightarrow> (goerr + string) \<times> grants" where
  "grantIssue ttl rnd now m = (case rnd of
      Inl e \<Rightarrow> (Inl e, m)
    | Inr b \<Rightarrow> (Inr (EncodeToString (randomBytes b)), m(EncodeToString (randomBytes b) \<mapsto> now + ttl)))"

definition grantPresent :: "bool \<Rightarrow> int \<Rightarrow> string \<Rightarrow> int \<Rightarrow> grants \<Rightarrow> bool \<times> grants" where
  "grantPresent renew ttl t now m = (case m t of
      None \<Rightarrow> (False, m)
    | Some e \<Rightarrow> if now < e then (True, m(t := (if renew then Some (now + ttl) else None))) else (False, m))"

definition issues :: "(int \<times> ('r, 'o) tokenOp) list \<Rightarrow> nat" where
  "issues ops = length (filter (\<lambda>e. case snd e of TIssue _ \<Rightarrow> True | _ \<Rightarrow> False) ops)"

lemma issues_simps [simp]:
  "issues [] = 0" "issues ((at, TIssue r) # ops) = Suc (issues ops)"
  "issues ((at, TPresent t) # ops) = issues ops" "issues ((at, TOther x) # ops) = issues ops"
  by (simp_all add: issues_def)

text \<open>A simulation that holds while there are \<open>k\<close> free places gives equal runs with at most \<open>k\<close> issues.\<close>

locale token_simulation =
  fixes issue :: "'r \<Rightarrow> int \<Rightarrow> 's \<Rightarrow> (goerr + string) \<times> 's"
    and present :: "string \<Rightarrow> int \<Rightarrow> 's \<Rightarrow> bool \<times> 's"
    and other :: "'o \<Rightarrow> int \<Rightarrow> 's \<Rightarrow> 's"
    and issueA :: "'r \<Rightarrow> int \<Rightarrow> 'a \<Rightarrow> (goerr + string) \<times> 'a"
    and presentA :: "string \<Rightarrow> int \<Rightarrow> 'a \<Rightarrow> bool \<times> 'a"
    and otherA :: "'o \<Rightarrow> int \<Rightarrow> 'a \<Rightarrow> 'a"
    and rel :: "int \<Rightarrow> nat \<Rightarrow> 's \<Rightarrow> 'a \<Rightarrow> bool"
  assumes sim_issue: "rel now (Suc k) s a \<Longrightarrow> now \<le> at \<Longrightarrow>
      \<exists>res s' a'. issue r at s = (res, s') \<and> issueA r at a = (res, a') \<and> rel at k s' a'"
    and sim_present: "rel now k s a \<Longrightarrow> now \<le> at \<Longrightarrow>
      \<exists>b s' a'. present t at s = (b, s') \<and> presentA t at a = (b, a') \<and> rel at k s' a'"
    and sim_other: "rel now k s a \<Longrightarrow> now \<le> at \<Longrightarrow> rel at k (other x at s) (otherA x at a)"
begin

lemma runs_agree:
  assumes "rel now k s a" "sorted (now # map fst ops)" "issues ops \<le> k"
  shows "tokenRun issue present other ops s = tokenRun issueA presentA otherA ops a"
  using assms
proof (induction ops arbitrary: now k s a)
  case (Cons top ops)
  obtain at oper where top: "top = (at, oper)" by force
  from Cons.prems(2) have le: "now \<le> at" and srt: "sorted (at # map fst ops)" by (simp_all add: top)
  show ?case
  proof (cases oper)
    case (TIssue r)
    with Cons.prems(3) obtain k' where k: "k = Suc k'" "issues ops \<le> k'" by (cases k) (auto simp: top)
    with sim_issue [OF _ le, of k' s a r] Cons.prems(1) obtain res s' a'
      where "issue r at s = (res, s')" "issueA r at a = (res, a')" "rel at k' s' a'" by blast
    with Cons.IH [OF _ srt k(2)] show ?thesis by (cases res) (simp_all add: top TIssue)
  next
    case (TPresent t)
    from sim_present [OF Cons.prems(1) le] obtain b s' a'
      where "present t at s = (b, s')" "presentA t at a = (b, a')" "rel at k s' a'" by blast
    with Cons.IH [OF _ srt] Cons.prems(3) show ?thesis by (simp add: top TPresent)
  next
    case (TOther x)
    with Cons.IH [OF sim_other [OF Cons.prems(1) le] srt] Cons.prems(3) show ?thesis by (simp add: top)
  qed
qed simp

end

text \<open>The two agree on the entries that have not expired.\<close>

definition tokensRel :: "int \<Rightarrow> int \<Rightarrow> int \<Rightarrow> nat \<Rightarrow> TokenTable \<Rightarrow> grants \<Rightarrow> bool" where
  "tokensRel mx ttl now k tt m \<longleftrightarrow> tt_ttl tt = ttl \<and> tt_maxCount tt = mx \<and> 0 < mx \<and>
     int (length (tt_tokens tt) + k) \<le> mx \<and> distinct (map fst (tt_tokens tt)) \<and> m '''' = None \<and>
     (\<forall>t e. now < e \<longrightarrow> (map_of (tt_tokens tt) t = Some e) = (m t = Some e))"

lemma map_of_deleteKey: "map_of (deleteKey k m) t = (if t = k then None else map_of m t)"
  by (induction m) (auto simp: deleteKey_def)

lemma map_of_putKey: "map_of (putKey k v m) t = (if t = k then Some v else map_of m t)"
  by (auto simp: putKey_def map_add_def map_of_deleteKey split: option.splits)

lemma distinct_filter_keys: "distinct (map fst m) \<Longrightarrow> distinct (map fst (filter P m))"
  by (induction m) auto

lemma distinct_putKey: "distinct (map fst m) \<Longrightarrow> distinct (map fst (putKey k v m))"
  by (auto simp: putKey_def deleteKey_def distinct_filter_keys)

lemma map_of_cleanup_iff:
  "distinct (map fst m) \<Longrightarrow> map_of (cleanupExpiredLocked now m) t = Some e \<longleftrightarrow> map_of m t = Some e \<and> now < e"
  by (auto simp: cleanupExpiredLocked_def distinct_filter_keys)

lemma length_deleteKey: "length (deleteKey k m) \<le> length m"
  by (simp add: deleteKey_def)

lemma length_cleanup: "length (cleanupExpiredLocked now m) \<le> length m"
  by (simp add: cleanupExpiredLocked_def)

lemma length_putKey: "map_of m k = Some w \<Longrightarrow> length (putKey k v m) \<le> length m"
proof -
  assume "map_of m k = Some w"
  then have "(k, w) \<in> set m" by (rule map_of_SomeD)
  then have "length (filter (\<lambda>e. fst e \<noteq> k) m) < length m" by (auto intro: length_filter_less)
  then show ?thesis by (simp add: putKey_def deleteKey_def)
qed

lemma tokensRel_cleanup:
  assumes "tokensRel mx ttl now k tt m" "now \<le> at"
  shows "tokensRel mx ttl at k (tt\<lparr>tt_tokens := cleanupExpiredLocked at (tt_tokens tt)\<rparr>) m"
  using assms length_cleanup [of at "tt_tokens tt"]
  by (auto simp: tokensRel_def map_of_cleanup_iff) (simp_all add: cleanupExpiredLocked_def distinct_filter_keys)

lemma sim_issueToken:
  assumes "tokensRel mx ttl now (Suc k) tt m" "now \<le> at"
  shows "\<exists>res tt' m'. issueToken mx iter r at tt = (res, tt') \<and> grantIssue ttl r at m = (res, m') \<and>
    tokensRel mx ttl at k tt' m'"
proof (cases r)
  case (Inl e)
  with assms show ?thesis by (auto simp: issueToken_def grantIssue_def tokensRel_def)
next
  case (Inr b)
  let ?c = "cleanupExpiredLocked at (tt_tokens tt)" and ?t = "EncodeToString (randomBytes b)"
  have c: "tokensRel mx ttl at (Suc k) (tt\<lparr>tt_tokens := ?c\<rparr>) m" using assms by (rule tokensRel_cleanup)
  have "length (putKey ?t (at + ttl) ?c) \<le> Suc (length ?c)"
    using length_deleteKey [of ?t ?c] by (simp add: putKey_def)
  with c show ?thesis
    by (auto simp: Inr issueToken_def grantIssue_def tokensRel_def Let_def map_of_putKey distinct_putKey)
qed

lemma distinct_deleteKey: "distinct (map fst m) \<Longrightarrow> distinct (map fst (deleteKey k m))"
  by (simp add: deleteKey_def distinct_filter_keys)

lemma tokensRel_delete:
  assumes "tokensRel mx ttl at k tt m"
  shows "tokensRel mx ttl at k (tt\<lparr>tt_tokens := deleteKey t (tt_tokens tt)\<rparr>) (m(t := None))"
    and "(\<And>e. m t = Some e \<Longrightarrow> e \<le> at) \<Longrightarrow>
      tokensRel mx ttl at k (tt\<lparr>tt_tokens := deleteKey t (tt_tokens tt)\<rparr>) m"
  using assms length_deleteKey [of t "tt_tokens tt"]
  by (auto simp: tokensRel_def map_of_deleteKey distinct_deleteKey)

lemma tokensRel_renew:
  assumes "tokensRel mx ttl at k tt m" "map_of (tt_tokens tt) t = Some w" "t \<noteq> ''''"
  shows "tokensRel mx ttl at k (tt\<lparr>tt_tokens := putKey t (at + ttl) (tt_tokens tt)\<rparr>) (m(t \<mapsto> at + ttl))"
  using assms length_putKey [OF assms(2), of "at + ttl"]
  by (auto simp: tokensRel_def map_of_putKey distinct_putKey)

text \<open>What a cleaned table says of a credential, and the map with it.\<close>

lemma tokensRel_lookup:
  assumes "tokensRel mx ttl now k tt m" "now \<le> at"
  shows "map_of (cleanupExpiredLocked at (tt_tokens tt)) t = Some e \<longleftrightarrow> m t = Some e \<and> at < e"
  using assms by (auto simp: tokensRel_def map_of_cleanup_iff)

lemma tokensRel_missing:
  assumes "tokensRel mx ttl now k tt m" "now \<le> at"
  shows "map_of (cleanupExpiredLocked at (tt_tokens tt)) t = None \<longleftrightarrow> (\<forall>e. m t = Some e \<longrightarrow> e \<le> at)"
  using tokensRel_lookup [OF assms, of t] by (metis linorder_not_le not_None_eq)

lemma sim_consume:
  assumes r: "tokensRel mx ttl now k tt m" and le: "now \<le> at"
  shows "\<exists>b tt' m'. ValidateAndConsume t at tt = (b, tt') \<and> grantPresent False ttl t at m = (b, m') \<and>
    tokensRel mx ttl at k tt' m'"
proof (cases "t = ''''")
  case True
  with assms show ?thesis by (auto simp: ValidateAndConsume_def grantPresent_def tokensRel_def)
next
  case False
  let ?c = "cleanupExpiredLocked at (tt_tokens tt)"
  note c = tokensRel_cleanup [OF r le]
  show ?thesis
  proof (cases "map_of ?c t")
    case None
    then have "\<And>e. m t = Some e \<Longrightarrow> e \<le> at" by (simp add: tokensRel_missing [OF r le])
    with None False tokensRel_delete(2) [OF c, of t] show ?thesis
      by (cases "m t") (auto simp: ValidateAndConsume_def grantPresent_def Let_def)
  next
    case (Some e)
    then have "m t = Some e" "at < e" by (simp_all add: tokensRel_lookup [OF r le])
    with Some False tokensRel_delete(1) [OF c, of t] show ?thesis
      by (auto simp: ValidateAndConsume_def grantPresent_def Let_def)
  qed
qed

lemma sim_validate:
  assumes r: "tokensRel mx ttl now k tt m" and le: "now \<le> at"
  shows "\<exists>b tt' m'. BrowserAuth_Validate t at tt = (b, tt') \<and> grantPresent True ttl t at m = (b, m') \<and>
    tokensRel mx ttl at k tt' m'"
proof (cases "t = ''''")
  case True
  with assms show ?thesis
    by (auto simp: BrowserAuth_Validate_def sessionState_def grantPresent_def tokensRel_def)
next
  case False
  let ?c = "cleanupExpiredLocked at (tt_tokens tt)"
  note c = tokensRel_cleanup [OF r le]
  have ttl: "tt_ttl tt = ttl" using r by (simp add: tokensRel_def)
  show ?thesis
  proof (cases "map_of ?c t")
    case None
    then have "\<And>e. m t = Some e \<Longrightarrow> e \<le> at" by (simp add: tokensRel_missing [OF r le])
    with None False tokensRel_delete(2) [OF c, of t] show ?thesis
      by (cases "m t") (auto simp: BrowserAuth_Validate_def sessionState_def grantPresent_def Let_def)
  next
    case (Some e)
    then have "m t = Some e" "at < e" by (simp_all add: tokensRel_lookup [OF r le])
    with Some False ttl tokensRel_renew [OF c, of t e] show ?thesis
      by (auto simp: BrowserAuth_Validate_def sessionState_def grantPresent_def Let_def)
  qed
qed

lemma sim_revoke:
  assumes "tokensRel mx ttl now k tt m" "now \<le> at"
  shows "tokensRel mx ttl at k (snd (Revoke t tt)) (m(t := None))"
proof -
  have r: "tokensRel mx ttl at k tt m" using assms by (auto simp: tokensRel_def)
  show ?thesis
  proof (cases "t = ''''")
    case True
    with r show ?thesis by (auto simp: Revoke_def tokensRel_def fun_upd_idem)
  next
    case False
    with tokensRel_delete(1) [OF r, of t] show ?thesis by (simp add: Revoke_def)
  qed
qed

interpretation ticket_grants: token_simulation "WSTicket_Issue iter" ValidateAndConsume "\<lambda>(_ :: unit) _ tt. tt"
  "grantIssue ttl" "grantPresent False ttl" "\<lambda>_ _ m. m" "tokensRel maxWSTickets ttl" for iter ttl
  unfolding WSTicket_Issue_def
  apply unfold_locales
  subgoal by (rule sim_issueToken)
  subgoal by (rule sim_consume)
  subgoal by (auto simp: tokensRel_def)
  done

interpretation browser_grants: token_simulation "BrowserAuth_Issue iter" BrowserAuth_Validate
  "\<lambda>t _ tt. snd (Revoke t tt)" "grantIssue ttl" "grantPresent True ttl" "\<lambda>t _ m. m(t := None)"
  "tokensRel maxBrowserAuthSessions ttl" for iter ttl
  unfolding BrowserAuth_Issue_def
  apply unfold_locales
  subgoal by (rule sim_issueToken)
  subgoal by (rule sim_validate)
  subgoal by (rule sim_revoke)
  done

section \<open>Properties of the credentials\<close>

lemma New_lives: "lives (tt_ttl (NewWSTicketManager ttl)) (NewWSTicketManager ttl)"
    "lives (tt_ttl (NewBrowserAuthManager ttl)) (NewBrowserAuthManager ttl)"
  by (simp_all add: lives_def NewWSTicketManager_def NewBrowserAuthManager_def)

lemma New_dead: "\<not> tokenLive (NewWSTicketManager ttl) t now" "\<not> tokenLive (NewBrowserAuthManager ttl) t now"
  by (simp_all add: tokenLive_def NewWSTicketManager_def NewBrowserAuthManager_def)

text \<open>
  C27. A web socket ticket is accepted only if it was issued before, less than its lifetime ago, and
  was not presented since: it is good for one connection, whatever tickets are issued, presented,
  expire or are evicted in between.
\<close>

theorem ws_ticket_used_once:
  assumes "tokenRun (WSTicket_Issue iter) ValidateAndConsume (\<lambda>(_ :: unit) _ tt. tt) ops
      (NewWSTicketManager ttl) = pre @ (now, EPresented t True) # suf"
  shows "\<exists>p1 i p2. pre = p1 @ (i, EIssued t) # p2 \<and> now < i + tt_ttl (NewWSTicketManager ttl) \<and>
    (\<forall>e\<in>set p2. \<forall>b. snd e \<noteq> EPresented t b)"
proof -
  let ?ttl = "tt_ttl (NewWSTicketManager ttl)"
  have "granted (\<lambda>_ _. False) False (within ?ttl) ([] @ pre) t now"
    using assms New_lives(1) New_dead(1) by (intro tickets.uses_granted) auto
  then obtain p1 i p2 where "pre = p1 @ (i, EIssued t) # p2" "within ?ttl i now"
    and keep: "\<forall>e\<in>set p2. keepsToken (\<lambda>(_ :: unit) _. False) False t (snd e)"
    unfolding granted_def by auto
  moreover from keep have "\<forall>e\<in>set p2. \<forall>b. snd e \<noteq> EPresented t b"
    by (auto simp: keepsToken_def split: tokenEvent.splits)
  ultimately show ?thesis by (auto simp: within_def)
qed

theorem ws_ticket_used_once_witness:
  "let t = EncodeToString (randomBytes (\<lambda>i. of_nat i)) in
   \<exists>p1 i p2. [(0 :: int, EIssued t :: unit tokenEvent)] = p1 @ (i, EIssued t) # p2 \<and>
     5 < i + tt_ttl (NewWSTicketManager 10)"
  unfolding Let_def
  using ws_ticket_used_once [of "\<lambda>m. m" "[(0, TIssue (Inr (\<lambda>i. of_nat i))),
      (5, TPresent (EncodeToString (randomBytes (\<lambda>i. of_nat i)))),
      (6, TPresent (EncodeToString (randomBytes (\<lambda>i. of_nat i))))]" 10
      "[(0, EIssued (EncodeToString (randomBytes (\<lambda>i. of_nat i))))]" 5
      "EncodeToString (randomBytes (\<lambda>i. of_nat i))"
      "[(6, EPresented (EncodeToString (randomBytes (\<lambda>i. of_nat i))) False)]"]
  by (simp add: WSTicket_Issue_def issueToken_def NewWSTicketManager_def ValidateAndConsume_def
      cleanupExpiredLocked_def putKey_def deleteKey_def maxWSTickets_def Let_def) blast

text \<open>
  A browser access session is accepted only on the strength of a grant, its issue or an earlier
  accepted use, that lies less than its lifetime back and after which it was neither refused nor
  revoked.
\<close>

theorem browser_session_backed:
  assumes "tokenRun (BrowserAuth_Issue iter) BrowserAuth_Validate (\<lambda>t _ tt. snd (Revoke t tt)) ops
      (NewBrowserAuthManager ttl) = pre @ (now, EPresented t True) # suf"
  shows "\<exists>p1 i ev p2. pre = p1 @ (i, ev) # p2 \<and> (ev = EIssued t \<or> ev = EPresented t True) \<and>
    now < i + tt_ttl (NewBrowserAuthManager ttl) \<and>
    (\<forall>e\<in>set p2. snd e \<noteq> EOther t \<and> snd e \<noteq> EPresented t False)"
proof -
  let ?ttl = "tt_ttl (NewBrowserAuthManager ttl)"
  have "granted (=) True (within ?ttl) ([] @ pre) t now"
    using assms New_lives(2) New_dead(2) by (intro browser.uses_granted) auto
  then obtain p1 i ev p2 where "pre = p1 @ (i, ev) # p2" "ev = EIssued t \<or> ev = EPresented t True"
    "within ?ttl i now" and keep: "\<forall>e\<in>set p2. keepsToken (=) True t (snd e)"
    unfolding granted_def by auto
  moreover from keep have "\<forall>e\<in>set p2. snd e \<noteq> EOther t \<and> snd e \<noteq> EPresented t False"
    by (auto simp: keepsToken_def split: tokenEvent.splits)
  ultimately show ?thesis by (auto simp: within_def)
qed

theorem browser_session_backed_witness:
  "let t = EncodeToString (randomBytes (\<lambda>i. of_nat i)) in
   \<exists>p1 i ev p2. [(0 :: int, EIssued t :: string tokenEvent), (5, EPresented t True)] = p1 @ (i, ev) # p2 \<and>
     (ev = EIssued t \<or> ev = EPresented t True) \<and> 12 < i + tt_ttl (NewBrowserAuthManager 10)"
proof -
  let ?t = "EncodeToString (randomBytes (\<lambda>i. of_nat i))"
  have "tokenRun (BrowserAuth_Issue (\<lambda>m. m)) BrowserAuth_Validate (\<lambda>t _ tt. snd (Revoke t tt))
      [(0, TIssue (Inr (\<lambda>i. of_nat i))), (5, TPresent ?t), (12, TPresent ?t), (13, TOther ?t)]
      (NewBrowserAuthManager 10) =
    [(0, EIssued ?t), (5, EPresented ?t True)] @ (12, EPresented ?t True) # [(13, EOther ?t)]"
    by (simp add: BrowserAuth_Issue_def issueToken_def NewBrowserAuthManager_def BrowserAuth_Validate_def
      sessionState_def cleanupExpiredLocked_def putKey_def deleteKey_def maxBrowserAuthSessions_def
      Revoke_def Let_def)
  from browser_session_backed [OF this] show ?thesis
    unfolding Let_def by blast
qed

text \<open>
  C28. Refinement: as long as no more than 4096 sessions have been issued, as many as a table holds before it
  evicts live ones, the browser access manager, which deletes what has expired on every call, answers every
  sequence of requests in the order of time exactly as a plain map from sessions to expiry times does; a session
  that is used is renewed, one that is revoked is gone.
\<close>

theorem browser_sessions_refine_grants:
  assumes "sorted (start # map fst ops)" "issues ops \<le> 4096"
  shows "tokenRun (BrowserAuth_Issue iter) BrowserAuth_Validate (\<lambda>t _ tt. snd (Revoke t tt)) ops
      (NewBrowserAuthManager ttl) =
    tokenRun (grantIssue (tt_ttl (NewBrowserAuthManager ttl)))
      (grantPresent True (tt_ttl (NewBrowserAuthManager ttl))) (\<lambda>t _ m. m(t := None)) ops Map.empty"
  by (rule browser_grants.runs_agree [OF _ assms])
    (simp add: tokensRel_def NewBrowserAuthManager_def maxBrowserAuthSessions_def)

theorem browser_sessions_refine_grants_witness:
  "tokenRun (BrowserAuth_Issue (\<lambda>m. m)) BrowserAuth_Validate (\<lambda>t _ tt. snd (Revoke t tt))
     [(0, TIssue (Inr (\<lambda>i. of_nat i))), (3, TPresent (EncodeToString (randomBytes (\<lambda>i. of_nat i)))), (4, TOther (EncodeToString (randomBytes (\<lambda>i. of_nat i))))] (NewBrowserAuthManager 10) =
   tokenRun (grantIssue 10) (grantPresent True 10) (\<lambda>t _ m. m(t := None))
     [(0, TIssue (Inr (\<lambda>i. of_nat i))), (3, TPresent (EncodeToString (randomBytes (\<lambda>i. of_nat i)))), (4, TOther (EncodeToString (randomBytes (\<lambda>i. of_nat i))))] Map.empty"
proof -
  have "tt_ttl (NewBrowserAuthManager 10) = 10" by (simp add: NewBrowserAuthManager_def)
  with browser_sessions_refine_grants [of 0
      "[(0, TIssue (Inr (\<lambda>i. of_nat i))), (3, TPresent (EncodeToString (randomBytes (\<lambda>i. of_nat i)))), (4, TOther (EncodeToString (randomBytes (\<lambda>i. of_nat i))))]" "\<lambda>m. m" 10]
  show ?thesis by simp
qed

text \<open>The same holds of tickets.\<close>

lemma tickets_refine_grants:
  assumes "sorted (start # map fst ops)" "issues ops \<le> 4096"
  shows "tokenRun (WSTicket_Issue iter) ValidateAndConsume (\<lambda>(_ :: unit) _ tt. tt) ops (NewWSTicketManager ttl) =
    tokenRun (grantIssue (tt_ttl (NewWSTicketManager ttl)))
      (grantPresent False (tt_ttl (NewWSTicketManager ttl))) (\<lambda>_ _ m. m) ops Map.empty"
  by (rule ticket_grants.runs_agree [OF _ assms])
    (simp add: tokensRel_def NewWSTicketManager_def maxWSTickets_def)

text \<open>
  Signing in replaces the session: after \<open>RotateForRequest\<close> the new cookie is the new token, it
  gives the session of the key pair that signed in, and the old cookie gives none.
\<close>

theorem rotated_session:
  assumes "RotateForRequest iter rnd now (Some old) kp sm = (Inr token, cookie, sm')" "old \<noteq> token"
  shows "cookie = Some token \<and> fst (GetFromRequest (Some old) at sm') = None \<and>
    fst (GetFromRequest cookie at sm') = Some \<lparr>us_Token = token, us_KeyPair = kp,
      us_PubkeyHex = EncodeToString (PublicKeyBytes kp), us_CreatedAt = now, us_LastSeen = at\<rparr>"
proof -
  obtain sm1 where c: "SessionManager_Create iter (rnd, kp) now sm = (Inr token, sm1)"
    and cookie: "cookie = Some token"
    and sm': "sm' = (if old = '''' then sm1 else SessionManager_Destroy old sm1)"
    using assms by (auto simp: RotateForRequest_def split: prod.splits sum.splits)
  from c obtain b where "rnd = Inr b" and t: "token = EncodeToString (randomBytes b)"
    by (cases rnd) (auto simp: SessionManager_Create_def Let_def)
  with c have "map_of (sm_sessions sm1) token = Some \<lparr>us_Token = token, us_KeyPair = kp,
      us_PubkeyHex = EncodeToString (PublicKeyBytes kp), us_CreatedAt = now, us_LastSeen = now\<rparr>"
    by (auto simp: SessionManager_Create_def Let_def map_of_putKey)
  with sm' t assms(2) show ?thesis
    by (simp add: cookie GetFromRequest_def SessionManager_Get_def SessionManager_Destroy_def map_of_deleteKey)
qed

theorem rotated_session_witness:
  "let kp = \<lparr>kp_PrivateKey = [1], kp_PublicKey = [2]\<rparr>; t = EncodeToString (randomBytes (\<lambda>_. 0));
       sm' = snd (snd (RotateForRequest (\<lambda>m. m) (Inr (\<lambda>_. 0)) 5 (Some ''ab'') kp NewSessionManager)) in
   Some t = Some t \<and> fst (GetFromRequest (Some ''ab'') 6 sm') = None \<and>
    fst (GetFromRequest (Some t) 6 sm') = Some \<lparr>us_Token = t, us_KeyPair = kp,
      us_PubkeyHex = EncodeToString (PublicKeyBytes kp), us_CreatedAt = 5, us_LastSeen = 6\<rparr>"
proof -
  have ne: "''ab'' \<noteq> EncodeToString (randomBytes (\<lambda>_. 0))"
  proof
    assume eq: "''ab'' = EncodeToString (randomBytes (\<lambda>_. 0))"
    have "length (EncodeToString (randomBytes (\<lambda>_. 0))) = 64" by (simp add: randomBytes_def)
    then show False by (simp flip: eq)
  qed
  have "RotateForRequest (\<lambda>m. m) (Inr (\<lambda>_. 0)) 5 (Some ''ab'') \<lparr>kp_PrivateKey = [1], kp_PublicKey = [2]\<rparr>
      NewSessionManager = (Inr (EncodeToString (randomBytes (\<lambda>_. 0))), Some (EncodeToString (randomBytes (\<lambda>_. 0))),
        snd (snd (RotateForRequest (\<lambda>m. m) (Inr (\<lambda>_. 0)) 5 (Some ''ab'')
          \<lparr>kp_PrivateKey = [1], kp_PublicKey = [2]\<rparr> NewSessionManager)))"
    by (simp add: RotateForRequest_def SessionManager_Create_def NewSessionManager_def Let_def)
  from rotated_session [OF this ne, of 6] show ?thesis unfolding Let_def by simp
qed

end
