(* ===== verification/WebAccess.thy ===== *)
theory WebAccess
  imports Tokens Limits GoText
begin

text \<open>
  Who reaches the HTTP interface: the middlewares of \<open>pkg/api/middleware\<close> (\<open>auth.go\<close>, \<open>browser.go\<close>,
  \<open>cors.go\<close>, \<open>security.go\<close>, \<open>cache.go\<close>, \<open>ratelimit.go\<close>), the sessions and the login page of
  \<open>pkg/api/browser_auth.go\<close>, their composition in \<open>pkg/api/server.go\<close>, and the protection of forms of
  the web user interface (\<open>pkg/web/csrf.go\<close>, \<open>cookies.go\<close>, \<open>form.go\<close>). A handler takes a request, the
  response written so far and the state of the server. Parsing of URLs and of IP addresses, and the
  template of the login page are the record \<open>http_env\<close>; logging and metrics are left out.
\<close>

section \<open>Requests, responses, handlers\<close>

text \<open>
  Header names are in canonical form; \<open>rq_Form\<close> is the outcome of \<open>ParseForm\<close>. \<open>rq_EscapedPath\<close> is
  \<open>URL.EscapedPath\<close>, which \<open>rq_Path\<close> is decoded from, and \<open>rq_RawQuery\<close> what \<open>rq_Query\<close> is parsed from.
\<close>

record HttpRequest =
  rq_Method :: string
  rq_Path :: string
  rq_EscapedPath :: string
  rq_RequestURI :: string
  rq_RawQuery :: string
  rq_Query :: "(string \<times> string) list"
  rq_Host :: string
  rq_RemoteAddr :: string
  rq_TLS :: bool
  rq_Header :: "(string \<times> string) list"
  rq_Form :: "goerr + (string \<times> string) list"
  rq_csrf :: "string option"

definition firstOf :: "(string \<times> string) list \<Rightarrow> string \<Rightarrow> string" where
  "firstOf m k = (case map_of m k of None \<Rightarrow> '''' | Some v \<Rightarrow> v)"

definition hget :: "HttpRequest \<Rightarrow> string \<Rightarrow> string" where
  "hget r k = firstOf (rq_Header r) k"

definition hset :: "string \<Rightarrow> string \<Rightarrow> HttpRequest \<Rightarrow> HttpRequest" where
  "hset k v r = r\<lparr>rq_Header := (k, v) # filter (\<lambda>e. fst e \<noteq> k) (rq_Header r)\<rparr>"

definition qget :: "HttpRequest \<Rightarrow> string \<Rightarrow> string" where
  "qget r k = firstOf (rq_Query r) k"

text \<open>\<open>r.Cookie(name)\<close> for a name that is a token: \<open>readCookies\<close> of package \<open>net/http\<close>.\<close>

definition asciiSpace :: "char \<Rightarrow> bool" where
  "asciiSpace c \<longleftrightarrow> c \<in> {CHR 0x20, CHR 0x09, CHR 0x0A, CHR 0x0D}"

definition TrimString :: "string \<Rightarrow> string" where
  "TrimString s = rev (dropWhile asciiSpace (rev (dropWhile asciiSpace s)))"

definition validCookieValueByte :: "char \<Rightarrow> bool" where
  "validCookieValueByte c \<longleftrightarrow> (let n = (of_char c :: nat) in
     32 \<le> n \<and> n < 127 \<and> n \<noteq> 34 \<and> n \<noteq> 59 \<and> n \<noteq> 92)"

definition parseCookieValue :: "string \<Rightarrow> string option" where
  "parseCookieValue raw =
     (let v = (if 1 < length raw \<and> hd raw = CHR 0x22 \<and> last raw = CHR 0x22 then butlast (tl raw) else raw)
      in if list_all validCookieValueByte v then Some v else None)"

definition cookiePart :: "string \<Rightarrow> string \<Rightarrow> string option" where
  "cookiePart name part = (let p = TrimString part;
      (n, v) = (case cutByte (CHR 0x3D) p of None \<Rightarrow> (p, '''') | Some (n, v) \<Rightarrow> (n, v)) in
      if p \<noteq> '''' \<and> TrimString n = name then parseCookieValue v else None)"

definition cookieValue :: "HttpRequest \<Rightarrow> string \<Rightarrow> string option" where
  "cookieValue r name =
     (case List.map_filter (cookiePart name) (concat (map (\<lambda>e. splitByte (CHR 0x3B) (TrimString (snd e)))
         (filter (\<lambda>e. fst e = ''Cookie'') (rq_Header r)))) of
        [] \<Rightarrow> None
      | v # _ \<Rightarrow> Some v)"

record Cookie =
  ck_Name :: string
  ck_Value :: string
  ck_Path :: string
  ck_MaxAge :: int
  ck_HttpOnly :: bool
  ck_Secure :: bool
  ck_SameSite :: string

text \<open>
  A response: the header of a response on the wire is fixed once the status is written, that of a
  buffered one only when it is flushed. The \<open>Set-Cookie\<close> lines are \<open>rs_Cookies\<close>.
\<close>

record Response =
  rs_Status :: "nat option"
  rs_Header :: "(string \<times> string) list"
  rs_Cookies :: "Cookie list"
  rs_Body :: "string list"
  rs_Buffered :: bool

definition open_header :: "Response \<Rightarrow> bool" where
  "open_header w \<longleftrightarrow> rs_Status w = None \<or> rs_Buffered w"

definition setHeader :: "string \<Rightarrow> string \<Rightarrow> Response \<Rightarrow> Response" where
  "setHeader k v w = (if open_header w
     then w\<lparr>rs_Header := (k, v) # filter (\<lambda>e. fst e \<noteq> k) (rs_Header w)\<rparr> else w)"

definition setCookie :: "Cookie \<Rightarrow> Response \<Rightarrow> Response" where
  "setCookie c w = (if open_header w then w\<lparr>rs_Cookies := rs_Cookies w @ [c]\<rparr> else w)"

definition writeHeader :: "nat \<Rightarrow> Response \<Rightarrow> Response" where
  "writeHeader code w = (case rs_Status w of None \<Rightarrow> w\<lparr>rs_Status := Some code\<rparr> | Some _ \<Rightarrow> w)"

definition writeBody :: "string \<Rightarrow> Response \<Rightarrow> Response" where
  "writeBody s w = (let w1 = writeHeader 200 w in w1\<lparr>rs_Body := rs_Body w1 @ [s]\<rparr>)"

definition httpError :: "string \<Rightarrow> nat \<Rightarrow> Response \<Rightarrow> Response" where
  "httpError msg code w = writeBody (msg @ [CHR 0x0A]) (writeHeader code
     (setHeader ''X-Content-Type-Options'' ''nosniff''
       (setHeader ''Content-Type'' ''text/plain; charset=utf-8'' w)))"

text \<open>\<open>http.Redirect\<close> to an absolute path; the cleaning of the path and the body are left out.\<close>

definition httpRedirect :: "string \<Rightarrow> Response \<Rightarrow> Response" where
  "httpRedirect target w = writeHeader 303 (setHeader ''Location'' target w)"

definition noStore :: "Response \<Rightarrow> Response" where
  "noStore w = setHeader ''Expires'' ''0'' (setHeader ''Pragma'' ''no-cache''
     (setHeader ''Cache-Control'' ''no-store, max-age=0'' w))"

text \<open>The state of the server: \<open>sv_app\<close> is that of the router. Every reading of the clock takes the next of \<open>sv_clock\<close>.\<close>

record 'a Srv =
  sv_clock :: "nat \<Rightarrow> int"
  sv_reads :: nat
  sv_rand :: "nat \<Rightarrow> goerr + randomness"
  sv_draws :: nat
  sv_wsTickets :: "TokenTable option"
  sv_browserAuth :: TokenTable
  sv_authLimiter :: RouteRateLimiter
  sv_routeLimiter :: RouteRateLimiter
  sv_app :: 'a

type_synonym 'a handler = "HttpRequest \<Rightarrow> Response \<Rightarrow> 'a Srv \<Rightarrow> Response \<times> 'a Srv"

definition srvNow :: "'a Srv \<Rightarrow> int" where
  "srvNow s = sv_clock s (sv_reads s)"

definition tickClock :: "'a Srv \<Rightarrow> 'a Srv" where
  "tickClock s = s\<lparr>sv_reads := sv_reads s + 1\<rparr>"

record URL =
  url_Scheme :: string
  url_Host :: string
  url_Path :: string
  url_RequestURI :: "string \<Rightarrow> string"

text \<open>
  \<open>url_RequestURI\<close> has the path as an argument, which the code may change before it asks for the URI.
  \<open>he_CleanURL\<close> is the string of the URL with a path and a query alone; \<open>he_muxConnect\<close> is the answer of the
  mux itself to a \<open>CONNECT\<close> request without a path, which depends on the version of the library.
\<close>

record http_env =
  he_ParseIP :: "string \<Rightarrow> bytes option"
  he_ParseURL :: "string \<Rightarrow> URL option"
  he_QueryEscape :: "string \<Rightarrow> string"
  he_authPage :: "string \<Rightarrow> string \<Rightarrow> string"
  he_iter :: order
  he_CleanURL :: "string \<Rightarrow> string \<Rightarrow> string"
  he_muxConnect :: "HttpRequest \<Rightarrow> Response \<Rightarrow> Response"

section \<open>Package strings and net, as far as they are used here\<close>

text \<open>
  \<open>strings.ToLower\<close>, for comparing with ASCII text: two runes outside ASCII have a lower case in it,
  U+0130 and U+212A; the others are left as they are.
\<close>

fun lowerRunes :: "nat list \<Rightarrow> nat list" where
  "lowerRunes [] = []"
| "lowerRunes (c # cs) =
     (if c = 196 \<and> take 1 cs = [176] then 105 # lowerRunes (drop 1 cs)
      else if c = 226 \<and> take 2 cs = [132, 170] then 107 # lowerRunes (drop 2 cs)
      else (if 65 \<le> c \<and> c \<le> 90 then c + 32 else c) # lowerRunes cs)"

definition ToLower :: "string \<Rightarrow> string" where
  "ToLower s = map char_of (lowerRunes (map of_char s))"

definition trimQuotes :: "string \<Rightarrow> string" where
  "trimQuotes s = rev (dropWhile ((=) (CHR 0x22)) (rev (dropWhile ((=) (CHR 0x22)) s)))"

fun natDigits :: "nat \<Rightarrow> string" where
  "natDigits n = (if n < 10 then [char_of (48 + n)] else natDigits (n div 10) @ [char_of (48 + n mod 10)])"

declare natDigits.simps [simp del]

definition Itoa :: "int \<Rightarrow> string" where
  "Itoa i = (if i < 0 then ''-'' @ natDigits (nat (- i)) else natDigits (nat i))"

text \<open>The host of \<open>net.SplitHostPort\<close>, or nothing for its errors.\<close>

definition SplitHost :: "string \<Rightarrow> string option" where
  "SplitHost s =
     (if CHR 0x3A \<notin> set s then None
      else let i = length s - 1 - length (takeWhile (\<lambda>c. c \<noteq> CHR 0x3A) (rev s)) in
        if hd s = CHR 0x5B then
          (if CHR 0x5D \<notin> set s then None
           else let e = length (takeWhile (\<lambda>c. c \<noteq> CHR 0x5D) s) in
             if e + 1 \<noteq> i then None
             else if CHR 0x5B \<in> set (tl s) \<or> CHR 0x5D \<in> set (drop (e + 1) s) then None
             else Some (take (e - 1) (tl s)))
        else let host = take i s in
          if CHR 0x3A \<in> set host \<or> CHR 0x5B \<in> set s \<or> CHR 0x5D \<in> set s then None
          else Some host)"

text \<open>\<open>IP.IsLoopback\<close> of an address of 16 bytes: 127.0.0.0/8 embedded in IPv6, or ::1.\<close>

definition IsLoopback :: "bytes \<Rightarrow> bool" where
  "IsLoopback ip \<longleftrightarrow> (take 12 ip = replicate 10 0 @ [255, 255] \<and> ip ! 12 = 127) \<or> ip = replicate 15 0 @ [1]"

definition loopbackAddr :: "http_env \<Rightarrow> string \<Rightarrow> bool" where
  "loopbackAddr env host = (case he_ParseIP env host of None \<Rightarrow> False | Some ip \<Rightarrow> IsLoopback ip)"

section \<open>The origin of a request (\<open>browser.go\<close>)\<close>

definition forwardedField :: "string \<Rightarrow> string \<Rightarrow> string option" where
  "forwardedField key field = (case cutByte (CHR 0x3D) field of
      None \<Rightarrow> None
    | Some (name, val) \<Rightarrow>
        if \<not> EqualFold (TrimSpace name) key then None else Some (TrimSpace (trimQuotes (TrimSpace val))))"

definition forwardedFields :: "string \<Rightarrow> string \<Rightarrow> string list" where
  "forwardedFields forwarded key =
     List.map_filter (forwardedField key) (concat (map (splitByte (CHR 0x3B)) (splitByte (CHR 0x2C) forwarded)))"

definition parseForwardedPair :: "string \<Rightarrow> string \<Rightarrow> string" where
  "parseForwardedPair forwarded key = (case forwardedFields forwarded key of [] \<Rightarrow> '''' | v # _ \<Rightarrow> v)"

definition beforeComma :: "string \<Rightarrow> string" where
  "beforeComma s = takeWhile (\<lambda>c. c \<noteq> CHR 0x2C) s"

definition forwardedScheme :: "HttpRequest \<Rightarrow> string" where
  "forwardedScheme r = (let f = parseForwardedPair (hget r ''Forwarded'') ''proto'' in
     if f \<noteq> '''' then f
     else let scheme = TrimSpace (hget r ''X-Forwarded-Proto'') in
       if scheme = '''' then ''''
       else let s = ToLower (TrimSpace (beforeComma scheme)) in
         if s = ''http'' \<or> s = ''https'' then s else '''')"

definition forwardedHost :: "HttpRequest \<Rightarrow> string" where
  "forwardedHost r = (let f = parseForwardedPair (hget r ''Forwarded'') ''host'' in
     if f \<noteq> '''' then f
     else TrimSpace (beforeComma (TrimSpace (hget r ''X-Forwarded-Host''))))"

definition requestScheme :: "HttpRequest \<Rightarrow> string" where
  "requestScheme r = (if rq_TLS r then ''https''
     else let scheme = forwardedScheme r in if scheme \<noteq> '''' then scheme else ''http'')"

definition requestHost :: "HttpRequest \<Rightarrow> string" where
  "requestHost r = (let host = forwardedHost r in if host \<noteq> '''' then host else rq_Host r)"

definition sameOrigin :: "HttpRequest \<Rightarrow> string \<Rightarrow> string \<Rightarrow> bool" where
  "sameOrigin r scheme host \<longleftrightarrow> EqualFold (requestScheme r) scheme \<and> EqualFold (requestHost r) host"

definition sameOriginURL :: "http_env \<Rightarrow> HttpRequest \<Rightarrow> string \<Rightarrow> bool" where
  "sameOriginURL env r rawURL = (case he_ParseURL env rawURL of
      None \<Rightarrow> False
    | Some u \<Rightarrow> if url_Scheme u = '''' \<or> url_Host u = '''' then False else sameOrigin r (url_Scheme u) (url_Host u))"

definition OriginAllowed :: "http_env \<Rightarrow> HttpRequest \<Rightarrow> string \<Rightarrow> bool" where
  "OriginAllowed env r origin =
     (if origin = '''' \<or> origin = ''null'' then False else sameOriginURL env r origin)"

definition browserCSRFCookieName :: string where "browserCSRFCookieName = ''xleaks_csrf''"
definition browserCSRFHeaderName :: string where "browserCSRFHeaderName = ''X-Csrf-Token''"
definition browserCSRFTokenLen :: nat where "browserCSRFTokenLen = 32"

definition validBrowserCSRFToken :: "string \<Rightarrow> bool" where
  "validBrowserCSRFToken token \<longleftrightarrow> length token = browserCSRFTokenLen * 2 \<and>
     (case DecodeString token of Inl _ \<Rightarrow> False | Inr _ \<Rightarrow> True)"

definition isSafeMethod :: "string \<Rightarrow> bool" where
  "isSafeMethod verb \<longleftrightarrow> verb \<in> {''GET'', ''HEAD'', ''OPTIONS''}"

definition requiresBrowserCSRF :: "HttpRequest \<Rightarrow> bool" where
  "requiresBrowserCSRF r =
     (if \<not> HasPrefix (rq_Path r) ''/api/'' then False
      else if isSafeMethod (rq_Method r) then False
      else hget r ''Origin'' \<noteq> '''' \<or> hget r ''Referer'' \<noteq> '''' \<or> hget r ''Sec-Fetch-Site'' \<noteq> '''' \<or>
        hget r ''Cookie'' \<noteq> '''')"

definition BrowserGuard :: "http_env \<Rightarrow> 'a handler \<Rightarrow> 'a handler" where
  "BrowserGuard env next = (\<lambda>r w s.
     if ToLower (TrimSpace (hget r ''Sec-Fetch-Site'')) = ''cross-site'' then (httpError ''Forbidden'' 403 w, s)
     else let origin = TrimSpace (hget r ''Origin'') in
       if origin \<noteq> '''' \<and> \<not> OriginAllowed env r origin then (httpError ''Forbidden'' 403 w, s)
     else let referer = TrimSpace (hget r ''Referer'') in
       if referer \<noteq> '''' \<and> \<not> sameOriginURL env r referer then (httpError ''Forbidden'' 403 w, s)
     else if requiresBrowserCSRF r then
       (case cookieValue r browserCSRFCookieName of
          None \<Rightarrow> (httpError ''Forbidden'' 403 w, s)
        | Some cookie \<Rightarrow>
            if \<not> validBrowserCSRFToken cookie then (httpError ''Forbidden'' 403 w, s)
            else let token = TrimSpace (hget r browserCSRFHeaderName) in
              if \<not> validBrowserCSRFToken token \<or> token \<noteq> cookie then (httpError ''Forbidden'' 403 w, s)
              else next r w s)
     else next r w s)"

section \<open>Local access and tokens (\<open>auth.go\<close>)\<close>

definition LocalOnly :: "http_env \<Rightarrow> bool \<Rightarrow> 'a handler \<Rightarrow> 'a handler" where
  "LocalOnly env allowForwarded next = (\<lambda>r w s. case SplitHost (rq_RemoteAddr r) of
      None \<Rightarrow> (httpError ''Forbidden'' 403 w, s)
    | Some host \<Rightarrow>
        if \<not> loopbackAddr env host then (httpError ''Forbidden: API only accessible from localhost'' 403 w, s)
        else if \<not> allowForwarded \<and> TrimSpace (hget r ''X-Forwarded-For'') \<noteq> ''''
          then (httpError ''Forbidden: proxied API access requires token auth'' 403 w, s)
        else if \<not> allowForwarded \<and> TrimSpace (hget r ''Forwarded'') \<noteq> ''''
          then (httpError ''Forbidden: proxied API access requires token auth'' 403 w, s)
        else next r w s)"

definition bearer :: "string \<Rightarrow> string" where "bearer token = ''Bearer '' @ token"

definition isWebSocketHandshake :: "HttpRequest \<Rightarrow> bool" where
  "isWebSocketHandshake r \<longleftrightarrow> EqualFold (TrimSpace (hget r ''Upgrade'')) ''websocket'' \<and>
     (\<exists>part\<in>set (splitByte (CHR 0x2C) (hget r ''Connection'')). EqualFold (TrimSpace part) ''upgrade'')"

text \<open>\<open>validateWebSocketTicket\<close> is a function on the server's state, or nil.\<close>

type_synonym 'a ticketCheck = "(string \<Rightarrow> 'a Srv \<Rightarrow> bool \<times> 'a Srv) option"

definition TokenAuthWithWebSocketTicket :: "string \<Rightarrow> 'a ticketCheck \<Rightarrow> 'a handler \<Rightarrow> 'a handler" where
  "TokenAuthWithWebSocketTicket token validateWebSocketTicket next = (\<lambda>r w s.
     if token = '''' then next r w s
     else if rq_Method r = ''OPTIONS'' then next r w s
     else if hget r ''Authorization'' = bearer token then next r w s
     else if isWebSocketHandshake r then
       (let (ok, s1) = (case validateWebSocketTicket of
            None \<Rightarrow> (False, s) | Some check \<Rightarrow> check (qget r ''ws_ticket'') s) in
        if ok then next r w s1
        else if qget r ''token'' = token then next r w s1
        else (httpError ''Unauthorized'' 401 w, s1))
     else (httpError ''Unauthorized'' 401 w, s))"

definition TokenAuth :: "string \<Rightarrow> 'a handler \<Rightarrow> 'a handler" where
  "TokenAuth token = TokenAuthWithWebSocketTicket token None"

text \<open>The method value \<open>wsTickets.ValidateAndConsume\<close>, also of a nil manager.\<close>

definition consumeTicket :: "string \<Rightarrow> 'a Srv \<Rightarrow> bool \<times> 'a Srv" where
  "consumeTicket ticket s = (case sv_wsTickets s of
      None \<Rightarrow> (False, s)
    | Some tt \<Rightarrow> (case ValidateAndConsume ticket (srvNow s) tt of
        (ok, tt') \<Rightarrow> (ok, tickClock (s\<lparr>sv_wsTickets := Some tt'\<rparr>))))"

section \<open>Rate limiting (\<open>ratelimit.go\<close>)\<close>

definition extractIP :: "http_env \<Rightarrow> HttpRequest \<Rightarrow> string" where
  "extractIP env r = (case SplitHost (rq_RemoteAddr r) of
      None \<Rightarrow> rq_RemoteAddr r
    | Some host \<Rightarrow>
        let xff = TrimSpace (hget r ''X-Forwarded-For'');
            candidate = TrimSpace (beforeComma xff);
            xri = TrimSpace (hget r ''X-Real-Ip'') in
        if loopbackAddr env host then
          if xff \<noteq> '''' \<and> he_ParseIP env candidate \<noteq> None then candidate
          else if xri \<noteq> '''' \<and> he_ParseIP env xri \<noteq> None then xri
          else host
        else host)"

text \<open>The limiter is a part of the state, given by its selector and its update.\<close>

definition rateLimited ::
  "http_env \<Rightarrow> ('a Srv \<Rightarrow> RouteRateLimiter) \<Rightarrow> (RouteRateLimiter \<Rightarrow> 'a Srv \<Rightarrow> 'a Srv) \<Rightarrow> 'a handler \<Rightarrow> 'a handler" where
  "rateLimited env sel upd next = (\<lambda>r w s.
     case Middleware (\<lambda>k. sv_clock s (sv_reads s + k)) (extractIP env r) (rq_Method r) (rq_Path r) (sel s) of
       (Inl retryAfter, rl) \<Rightarrow>
         (httpError ''Too Many Requests'' 429 (setHeader ''Retry-After'' (Itoa retryAfter) w),
          upd rl (s\<lparr>sv_reads := sv_reads s + 4\<rparr>))
     | (Inr _, rl) \<Rightarrow> next r w (upd rl (s\<lparr>sv_reads := sv_reads s + 4\<rparr>)))"

section \<open>Headers of all responses (\<open>cors.go\<close>, \<open>security.go\<close>, \<open>cache.go\<close>)\<close>

definition CORS :: "http_env \<Rightarrow> 'a handler \<Rightarrow> 'a handler" where
  "CORS env next = (\<lambda>r w s.
     let origin = hget r ''Origin'';
         w1 = (if origin \<noteq> '''' \<and> OriginAllowed env r origin
           then setHeader ''Access-Control-Allow-Credentials'' ''true'' (setHeader ''Vary'' ''Origin''
             (setHeader ''Access-Control-Allow-Origin'' origin w))
           else w);
         w2 = setHeader ''Access-Control-Allow-Headers'' ''Content-Type, Authorization, X-CSRF-Token''
           (setHeader ''Access-Control-Allow-Methods'' ''GET, POST, PUT, DELETE, OPTIONS'' w1)
     in if rq_Method r = ''OPTIONS'' then
          if origin \<noteq> '''' \<and> \<not> OriginAllowed env r origin then (httpError ''Forbidden'' 403 w2, s)
          else (writeHeader 204 w2, s)
        else next r w2 s)"

definition defaultContentSecurityPolicy :: string where
  "defaultContentSecurityPolicy = ''default-src 'self'; script-src 'self' 'unsafe-inline' https://cdn.tailwindcss.com https://unpkg.com; style-src 'self' 'unsafe-inline'; img-src 'self' data: blob:; font-src 'self' data:; connect-src 'self' ws: wss:; media-src 'self' blob:; object-src 'none'; base-uri 'self'; form-action 'self'; frame-ancestors 'none'' @ [CHR 0x27]"

definition SecurityHeaders :: "'a handler \<Rightarrow> 'a handler" where
  "SecurityHeaders next = (\<lambda>r w s. next r
     (setHeader ''Cross-Origin-Opener-Policy'' ''same-origin''
     (setHeader ''Permissions-Policy'' ''camera=(), microphone=(), geolocation=()''
     (setHeader ''X-Frame-Options'' ''DENY''
     (setHeader ''X-Content-Type-Options'' ''nosniff''
     (setHeader ''Referrer-Policy'' ''same-origin''
     (setHeader ''Content-Security-Policy'' defaultContentSecurityPolicy w)))))) s)"

definition NoStore :: "'a handler \<Rightarrow> 'a handler" where
  "NoStore next = (\<lambda>r w s. next r (noStore w) s)"

section \<open>Browser access (\<open>browser_auth.go\<close>)\<close>

definition browserAuthCookieName :: string where "browserAuthCookieName = ''xleaks_browser_auth''"
definition browserAuthExpiredHeader :: string where "browserAuthExpiredHeader = ''X-Xleaks-Browser-Auth''"
definition browserAuthExpiredValue :: string where "browserAuthExpiredValue = ''expired''"

definition browserAuthForwardedPair :: "string \<Rightarrow> string \<Rightarrow> string" where
  "browserAuthForwardedPair forwarded key = (case forwardedFields forwarded key of [] \<Rightarrow> '''' | v # _ \<Rightarrow> v)"

definition browserAuthForwardedProto :: "HttpRequest \<Rightarrow> string" where
  "browserAuthForwardedProto r = (let f = browserAuthForwardedPair (hget r ''Forwarded'') ''proto'' in
     if f \<noteq> '''' then f
     else let proto = TrimSpace (hget r ''X-Forwarded-Proto'') in
       if proto = '''' then ''''
       else let s = ToLower (TrimSpace (beforeComma proto)) in
         if s = ''http'' \<or> s = ''https'' then s else '''')"

definition browserAuthRequestIsSecure :: "HttpRequest \<Rightarrow> bool" where
  "browserAuthRequestIsSecure r = (if rq_TLS r then True
     else let proto = browserAuthForwardedProto r in
       if proto \<noteq> '''' then EqualFold proto ''https'' else False)"

definition authTokensEqual :: "string \<Rightarrow> string \<Rightarrow> bool" where
  "authTokensEqual actual expected =
     (if length actual \<noteq> length expected \<or> expected = '''' then False else actual = expected)"

definition isBrowserHTMLRequest :: "HttpRequest \<Rightarrow> bool" where
  "isBrowserHTMLRequest r =
     (if EqualFold (TrimSpace (hget r ''Hx-Request'')) ''true'' then False
      else if EqualFold (TrimSpace (hget r ''X-Requested-With'')) ''XMLHttpRequest'' then False
      else if rq_Method r \<noteq> ''GET'' \<and> rq_Method r \<noteq> ''HEAD'' then False
      else if ToLower (TrimSpace (hget r ''Sec-Fetch-Mode'')) = ''navigate'' then True
      else containsString (ToLower (hget r ''Accept'')) ''text/html'')"

definition shouldBootstrapBrowserSession :: "HttpRequest \<Rightarrow> bool" where
  "shouldBootstrapBrowserSession r =
     (if \<not> isBrowserHTMLRequest r then False
      else if rq_Path r = ''/health'' \<or> rq_Path r = ''/metrics'' then False
      else \<not> HasPrefix (rq_Path r) ''/api/'')"

definition safeBrowserRedirectPath :: "http_env \<Rightarrow> string \<Rightarrow> string" where
  "safeBrowserRedirectPath env raw0 = (let raw = TrimSpace raw0 in
     if raw = '''' then ''/''
     else case he_ParseURL env raw of
         None \<Rightarrow> ''/''
       | Some u \<Rightarrow>
           if url_Scheme u \<noteq> '''' \<or> url_Host u \<noteq> '''' then ''/''
           else let p = (if url_Path u = '''' then ''/'' else url_Path u) in
             if \<not> HasPrefix p ''/'' \<or> HasPrefix p ''//'' then ''/''
             else if p = ''/auth/token'' then ''/''
             else url_RequestURI u p)"

text \<open>The cookie of \<open>SetCookie\<close> and \<open>ClearCookie\<close>.\<close>

definition authCookie :: "HttpRequest \<Rightarrow> string \<Rightarrow> int \<Rightarrow> Cookie" where
  "authCookie r val maxAge = \<lparr>ck_Name = browserAuthCookieName, ck_Value = val, ck_Path = ''/'',
     ck_MaxAge = maxAge, ck_HttpOnly = True, ck_Secure = browserAuthRequestIsSecure r, ck_SameSite = ''Lax''\<rparr>"

definition BrowserAuth_SetCookie :: "TokenTable \<Rightarrow> HttpRequest \<Rightarrow> string \<Rightarrow> Response \<Rightarrow> Response" where
  "BrowserAuth_SetCookie ba r token w = setCookie (authCookie r token (tt_ttl ba div second)) w"

definition BrowserAuth_ClearCookie :: "HttpRequest \<Rightarrow> Response \<Rightarrow> Response" where
  "BrowserAuth_ClearCookie r w = setCookie (authCookie r '''' (- 1)) w"

definition srvCookieState :: "HttpRequest \<Rightarrow> 'a Srv \<Rightarrow> (browserAuthSessionState \<times> string) \<times> 'a Srv" where
  "srvCookieState r s = (case CookieState (cookieValue r browserAuthCookieName) (srvNow s) (sv_browserAuth s) of
      (res, ba) \<Rightarrow> (res, tickClock (s\<lparr>sv_browserAuth := ba\<rparr>)))"

definition srvIssue :: "http_env \<Rightarrow> 'a Srv \<Rightarrow> (goerr + string) \<times> 'a Srv" where
  "srvIssue env s = (case BrowserAuth_Issue (he_iter env) (sv_rand s (sv_draws s)) (srvNow s) (sv_browserAuth s) of
      (res, ba) \<Rightarrow> (res, tickClock (s\<lparr>sv_browserAuth := ba, sv_draws := sv_draws s + 1\<rparr>)))"

definition srvRevoke :: "string \<Rightarrow> 'a Srv \<Rightarrow> 'a Srv" where
  "srvRevoke token s = s\<lparr>sv_browserAuth := snd (Revoke token (sv_browserAuth s))\<rparr>"

definition errorParagraph :: "string \<Rightarrow> string \<Rightarrow> string" where
  "errorParagraph color message = ''<p style='' @ [CHR 0x22] @ ''color:'' @ color @ '';margin:0 0 16px 0;'' @ [CHR 0x22] @
     ''>'' @ message @ ''</p>''"

definition authErrorHTML :: "string \<Rightarrow> string" where
  "authErrorHTML errorCode = (let c = ToLower (TrimSpace errorCode) in
     if c = ''invalid'' then errorParagraph ''#ef4444'' ''Invalid access token.''
     else if c = ''expired'' then errorParagraph ''#f59e0b'' ''Browser access expired. Enter the access token again.''
     else if c = ''logged_out''
       then errorParagraph ''#10b981'' ''Browser access locked. Enter the access token again to continue.''
     else '''')"

definition renderBrowserAuthPage :: "http_env \<Rightarrow> string \<Rightarrow> string \<Rightarrow> Response \<Rightarrow> Response" where
  "renderBrowserAuthPage env nextPath errorCode w =
     writeBody (he_authPage env nextPath (authErrorHTML errorCode))
       (setHeader ''Content-Type'' ''text/html; charset=utf-8'' (noStore w))"

section \<open>The server (\<open>server.go\<close>)\<close>

definition newBufferedResponseWriter :: Response where
  "newBufferedResponseWriter = \<lparr>rs_Status = None, rs_Header = [], rs_Cookies = [], rs_Body = [], rs_Buffered = True\<rparr>"

definition StatusCode :: "Response \<Rightarrow> nat" where
  "StatusCode w = (case rs_Status w of None \<Rightarrow> 200 | Some code \<Rightarrow> code)"

definition FlushTo :: "Response \<Rightarrow> Response \<Rightarrow> Response" where
  "FlushTo b dst =
     (let h = fold (\<lambda>e. setHeader (fst e) (snd e)) (rev (rs_Header b)) dst;
          c = (if rs_Cookies b \<noteq> [] \<and> open_header h then h\<lparr>rs_Cookies := rs_Cookies b\<rparr> else h);
          d = writeHeader (StatusCode b) c
      in d\<lparr>rs_Body := rs_Body d @ rs_Body b\<rparr>)"

definition browserSessionAuth :: "http_env \<Rightarrow> string \<Rightarrow> 'a handler \<Rightarrow> 'a handler" where
  "browserSessionAuth env apiToken next = (\<lambda>r w s.
     if apiToken = '''' \<or> rq_Method r = ''OPTIONS'' then next r w s
     else case srvCookieState r s of ((st, sessionToken), s1) \<Rightarrow>
       if hget r ''Authorization'' = bearer apiToken then
         if shouldBootstrapBrowserSession r \<and> st \<noteq> browserAuthSessionValid then
           (case srvIssue env s1 of
              (Inr token, s2) \<Rightarrow> next r (BrowserAuth_SetCookie (sv_browserAuth s2) r token w) s2
            | (Inl _, s2) \<Rightarrow> next r w s2)
         else next r w s1
       else if st = browserAuthSessionValid then
         let clone = hset ''Authorization'' (bearer apiToken) r in
         if rq_Method r = ''POST'' \<and> rq_Path r = ''/logout'' then
           (case next clone newBufferedResponseWriter s1 of (b, s2) \<Rightarrow>
              if StatusCode b < 400 then
                let b1 = BrowserAuth_ClearCookie r b;
                    b2 = (if StatusCode b1 = 303
                      then setHeader ''Location'' ''/auth/token?error=logged_out&next=%2F'' b1 else b1)
                in (FlushTo b2 w, srvRevoke sessionToken s2)
              else (FlushTo b w, s2))
         else next clone w s1
       else if st = browserAuthSessionStale then
         let nextPath = safeBrowserRedirectPath env (rq_RequestURI r);
             w1 = BrowserAuth_ClearCookie r w in
         if shouldBootstrapBrowserSession r then
           (httpRedirect (''/auth/token?error=expired&next='' @ he_QueryEscape env nextPath) w1, s1)
         else (httpError ''Browser access expired'' 401
                (setHeader browserAuthExpiredHeader browserAuthExpiredValue (noStore w1)), s1)
       else if shouldBootstrapBrowserSession r then
         (httpRedirect (''/auth/token?next='' @ he_QueryEscape env (safeBrowserRedirectPath env (rq_RequestURI r))) w, s1)
       else next r w s1)"

definition loginPage :: "http_env \<Rightarrow> 'a handler" where
  "loginPage env = (\<lambda>r w s.
     let nextPath = safeBrowserRedirectPath env (qget r ''next'') in
     case srvCookieState r s of ((st, _), s1) \<Rightarrow>
       if st = browserAuthSessionValid then (httpRedirect nextPath w, s1)
       else let errorCode = ToLower (TrimSpace (qget r ''error'')) in
         if st = browserAuthSessionStale
         then (renderBrowserAuthPage env nextPath (if errorCode = '''' then ''expired'' else errorCode)
                 (BrowserAuth_ClearCookie r w), s1)
         else (renderBrowserAuthPage env nextPath errorCode w, s1))"

definition loginHandler :: "http_env \<Rightarrow> string \<Rightarrow> 'a handler" where
  "loginHandler env apiToken = (\<lambda>r w s. case rq_Form r of
      Inl _ \<Rightarrow> (httpError ''Bad request'' 400 w, s)
    | Inr form \<Rightarrow>
        let nextPath = safeBrowserRedirectPath env (firstOf form ''next'') in
        if \<not> authTokensEqual (firstOf form ''token'') apiToken then
          (httpRedirect (''/auth/token?error=invalid&next='' @ he_QueryEscape env nextPath) w, s)
        else case srvIssue env s of
            (Inl _, s1) \<Rightarrow> (httpError ''Internal Server Error'' 500 w, s1)
          | (Inr sessionToken, s1) \<Rightarrow>
              (httpRedirect nextPath (BrowserAuth_SetCookie (sv_browserAuth s1) r sessionToken w), s1))"

definition minute :: int where "minute = 60 * second"

definition newAuthLimiter :: RouteRateLimiter where
  "newAuthLimiter = SetGlobalLimit 30 minute (AddLimit ''POST /auth/token'' 5 minute NewRouteRateLimiter)"

text \<open>The limits of \<open>NewRouter\<close> in \<open>router.go\<close>.\<close>

definition newRouterLimiter :: RouteRateLimiter where
  "newRouterLimiter = SetGlobalLimit 300 minute (AddLimit ''GET'' 120 minute
    (AddLimit ''POST /api/identity/export'' 10 minute (AddLimit ''POST /api/identity/unlock'' 10 minute
    (AddLimit ''POST /api/identity/import'' 5 minute (AddLimit ''POST /api/identity/create'' 5 minute
    (AddLimit ''POST /api/media'' 5 minute (AddLimit ''POST /api/dm'' 30 minute
    (AddLimit ''POST /api/reactions'' 30 minute (AddLimit ''POST /api/posts'' 10 minute NewRouteRateLimiter)))))))))"

definition apiRouter :: "http_env \<Rightarrow> 'a handler \<Rightarrow> 'a handler" where
  "apiRouter env routes = rateLimited env sv_routeLimiter (\<lambda>rl s. s\<lparr>sv_routeLimiter := rl\<rparr>) routes"

text \<open>The route \<open>POST /api/ws-ticket\<close>; the body is the ticket, without its JSON encoding.\<close>

definition IssueHandler :: "http_env \<Rightarrow> TokenTable \<Rightarrow> 'a handler" where
  "IssueHandler env tt = (\<lambda>r w s.
     case WSTicket_Issue (he_iter env) (sv_rand s (sv_draws s)) (srvNow s) tt of
       (Inl _, tt') \<Rightarrow> (httpError ''failed to issue websocket ticket'' 500 w,
          tickClock (s\<lparr>sv_wsTickets := Some tt', sv_draws := sv_draws s + 1\<rparr>))
     | (Inr ticket, tt') \<Rightarrow> (writeBody ticket (setHeader ''Content-Type'' ''application/json'' (noStore w)),
          tickClock (s\<lparr>sv_wsTickets := Some tt', sv_draws := sv_draws s + 1\<rparr>)))"

record ServerConfig =
  sc_APIToken :: string
  sc_EnableWebSocket :: bool

definition newSrv :: "ServerConfig \<Rightarrow> (nat \<Rightarrow> int) \<Rightarrow> (nat \<Rightarrow> goerr + randomness) \<Rightarrow> 'a \<Rightarrow> 'a Srv" where
  "newSrv cfg clock rand app = \<lparr>sv_clock = clock, sv_reads = 0, sv_rand = rand, sv_draws = 0,
     sv_wsTickets = (if sc_EnableWebSocket cfg then Some (NewWSTicketManager defaultWSTicketTTL) else None),
     sv_browserAuth = NewBrowserAuthManager defaultBrowserAuthTTL, sv_authLimiter = newAuthLimiter,
     sv_routeLimiter = newRouterLimiter, sv_app = app\<rparr>"

definition mainHandler :: "http_env \<Rightarrow> string \<Rightarrow> 'a handler \<Rightarrow> 'a handler" where
  "mainHandler env apiToken router =
     (let h1 = BrowserGuard env (LocalOnly env (apiToken \<noteq> '''') router);
          h2 = (if apiToken \<noteq> ''''
            then browserSessionAuth env apiToken (TokenAuthWithWebSocketTicket apiToken (Some consumeTicket) h1)
            else h1)
      in CORS env h2)"

definition metricsChain :: "http_env \<Rightarrow> string \<Rightarrow> 'a handler \<Rightarrow> 'a handler" where
  "metricsChain env apiToken metrics =
     (let h = LocalOnly env (apiToken \<noteq> '''') metrics in if apiToken \<noteq> '''' then TokenAuth apiToken h else h)"

text \<open>
  \<open>cleanPath\<close> of \<open>http.ServeMux\<close>: \<open>path.Clean\<close> of the rooted path, its trailing slash put back. A pattern
  without wildcards is matched segment by segment, each decoded, so that an escaped slash does not separate
  segments.
\<close>

definition cleanPath :: "string \<Rightarrow> string" where
  "cleanPath p = (if p = '''' then ''/'' else
     let q = (if hd p = CHR 0x2F then p else CHR 0x2F # p);
         segments = cleanInto [] (splitByte (CHR 0x2F) q);
         np = (if segments = [] then ''/'' else concat (map (\<lambda>x. CHR 0x2F # x) segments))
     in if last q = CHR 0x2F \<and> np \<noteq> ''/'' then np @ ''/'' else np)"

definition muxMatch :: "string \<Rightarrow> HttpRequest \<Rightarrow> bool" where
  "muxMatch pat r \<longleftrightarrow> rq_Path r = pat \<and> count_list (rq_EscapedPath r) (CHR 0x2F) = count_list pat (CHR 0x2F)"

definition movedPermanently :: "string \<Rightarrow> Response \<Rightarrow> Response" where
  "movedPermanently target w = writeHeader 301 (setHeader ''Location'' target w)"

text \<open>
  The mux answers a request for \<open>*\<close> with 400 and redirects an unclean path, \<open>CONNECT\<close> requests aside. A pattern
  with the method GET also matches HEAD; other methods fall through to \<open>/\<close>, which matches every path.
\<close>

definition topMux :: "http_env \<Rightarrow> string \<Rightarrow> 'a handler \<Rightarrow> 'a handler \<Rightarrow> 'a handler \<Rightarrow> 'a handler" where
  "topMux env apiToken health metrics router = (\<lambda>r w s.
     let getLike = rq_Method r = ''GET'' \<or> rq_Method r = ''HEAD'';
         path = cleanPath (rq_EscapedPath r) in
     if rq_RequestURI r = ''*'' then (writeHeader 400 (setHeader ''Connection'' ''close'' w), s)
     else if rq_Method r = ''CONNECT'' \<and> rq_EscapedPath r = '''' then (he_muxConnect env r w, s)
     else if rq_Method r \<noteq> ''CONNECT'' \<and> path \<noteq> rq_EscapedPath r then
       (movedPermanently (he_CleanURL env path (rq_RawQuery r)) w, s)
     else if apiToken \<noteq> '''' \<and> muxMatch ''/auth/token'' r \<and> getLike then NoStore (loginPage env) r w s
     else if apiToken \<noteq> '''' \<and> muxMatch ''/auth/token'' r \<and> rq_Method r = ''POST'' then
       NoStore (rateLimited env sv_authLimiter (\<lambda>rl s. s\<lparr>sv_authLimiter := rl\<rparr>) (loginHandler env apiToken)) r w s
     else if muxMatch ''/health'' r \<and> getLike then health r w s
     else if muxMatch ''/metrics'' r \<and> getLike then metricsChain env apiToken metrics r w s
     else mainHandler env apiToken router r w s)"

definition serve :: "http_env \<Rightarrow> ServerConfig \<Rightarrow> 'a handler \<Rightarrow> 'a handler \<Rightarrow> 'a handler \<Rightarrow> 'a handler" where
  "serve env cfg health metrics router =
     SecurityHeaders (topMux env (sc_APIToken cfg) health metrics router)"

section \<open>Forms of the web user interface (\<open>csrf.go\<close>, \<open>cookies.go\<close>, \<open>form.go\<close>)\<close>

definition forwardedHeaderValue :: "string \<Rightarrow> string \<Rightarrow> string" where
  "forwardedHeaderValue forwarded key =
     (case filter (\<lambda>v. v \<noteq> '''') (map ToLower (forwardedFields forwarded key)) of [] \<Rightarrow> '''' | v # _ \<Rightarrow> v)"

definition forwardedProto :: "HttpRequest \<Rightarrow> string" where
  "forwardedProto r = (let f = forwardedHeaderValue (hget r ''Forwarded'') ''proto'' in
     if f \<noteq> '''' then f
     else let proto = TrimSpace (hget r ''X-Forwarded-Proto'') in
       if proto = '''' then ''''
       else let s = ToLower (TrimSpace (beforeComma proto)) in
         if s = ''http'' \<or> s = ''https'' then s else '''')"

definition requestIsSecure :: "HttpRequest \<Rightarrow> bool" where
  "requestIsSecure r = (if rq_TLS r then True
     else let proto = forwardedProto r in if proto = '''' then False else EqualFold proto ''https'')"

definition csrfCookieName :: string where "csrfCookieName = ''xleaks_csrf''"
definition csrfHeaderName :: string where "csrfHeaderName = ''X-Csrf-Token''"
definition csrfTokenLen :: nat where "csrfTokenLen = 32"

definition validCSRFToken :: "string \<Rightarrow> bool" where
  "validCSRFToken token \<longleftrightarrow> length token = csrfTokenLen * 2 \<and>
     (case DecodeString token of Inl _ \<Rightarrow> False | Inr _ \<Rightarrow> True)"

definition csrfTokenFromRequest :: "HttpRequest \<Rightarrow> string" where
  "csrfTokenFromRequest r = (case rq_csrf r of
      Some token \<Rightarrow> if validCSRFToken token then token else (case cookieValue r csrfCookieName of
          None \<Rightarrow> '''' | Some c \<Rightarrow> if validCSRFToken c then c else '''')
    | None \<Rightarrow> (case cookieValue r csrfCookieName of None \<Rightarrow> '''' | Some c \<Rightarrow> if validCSRFToken c then c else ''''))"

definition generateCSRFToken :: "'a Srv \<Rightarrow> (goerr + string) \<times> 'a Srv" where
  "generateCSRFToken s = (case sv_rand s (sv_draws s) of
      Inl e \<Rightarrow> (Inl e, s\<lparr>sv_draws := sv_draws s + 1\<rparr>)
    | Inr b \<Rightarrow> (Inr (EncodeToString (map b [0..<csrfTokenLen])), s\<lparr>sv_draws := sv_draws s + 1\<rparr>))"

definition setCSRFCookie :: "HttpRequest \<Rightarrow> string \<Rightarrow> Response \<Rightarrow> Response" where
  "setCSRFCookie r token w = setCookie \<lparr>ck_Name = csrfCookieName, ck_Value = token, ck_Path = ''/'',
     ck_MaxAge = sessionMaxAge div second, ck_HttpOnly = True, ck_Secure = requestIsSecure r,
     ck_SameSite = ''Strict''\<rparr> w"

definition withToken :: "string \<Rightarrow> HttpRequest \<Rightarrow> HttpRequest" where
  "withToken token r = r\<lparr>rq_csrf := Some token\<rparr>"

definition ensureCSRFCookie :: "'a handler \<Rightarrow> 'a handler" where
  "ensureCSRFCookie next = (\<lambda>r w s.
     let token = csrfTokenFromRequest r;
         pass = (\<lambda>token w s. next (if validCSRFToken token then withToken token r else r) w s) in
     if \<not> validCSRFToken token \<and> isSafeMethod (rq_Method r) then
       (case generateCSRFToken s of
          (Inl _, s1) \<Rightarrow> (httpError ''Internal Server Error'' 500 w, s1)
        | (Inr token', s1) \<Rightarrow> pass token' (setCSRFCookie r token' w) s1)
     else pass token w s)"

definition formBodyTooLarge :: "goerr \<Rightarrow> bool" where
  "formBodyTooLarge e \<longleftrightarrow> e = Err ''form body too large''"

definition requireCSRF :: "'a handler \<Rightarrow> 'a handler" where
  "requireCSRF next = (\<lambda>r w s.
     if isSafeMethod (rq_Method r) then next r w s
     else case cookieValue r csrfCookieName of
         None \<Rightarrow> (httpError ''Forbidden'' 403 w, s)
       | Some cookie \<Rightarrow>
           if \<not> validCSRFToken cookie then (httpError ''Forbidden'' 403 w, s)
           else let header = TrimSpace (hget r csrfHeaderName);
                    check = (\<lambda>token. if \<not> validCSRFToken token \<or> token \<noteq> cookie
                      then (httpError ''Forbidden'' 403 w, s) else next (withToken cookie r) w s) in
             if header \<noteq> '''' then check header
             else case rq_Form r of
                 Inl e \<Rightarrow> if formBodyTooLarge e then (httpError ''Request Entity Too Large'' 413 w, s)
                   else (httpError ''Forbidden'' 403 w, s)
               | Inr form \<Rightarrow> check (TrimSpace (firstOf form ''csrf_token'')))"

text \<open>The chain of \<open>Routes\<close> in \<open>pkg/web/handler.go\<close>; \<open>limitFormBody\<close> is in the outcome of \<open>ParseForm\<close>.\<close>

definition webRoutes :: "'a handler \<Rightarrow> 'a handler" where
  "webRoutes pages = NoStore (ensureCSRFCookie (requireCSRF pages))"

end
