(* ===== verification/Indexer.thy ===== *)
theory Indexer
  imports Listings WebAccess "HOL-Library.Product_Lexorder"
begin

text \<open>
  Indexer nodes: the client that asks them and caches their answers (\<open>pkg/indexer/client.go\<close>), the
  trending engine and the statistics they compute (\<open>trending.go\<close>, \<open>stats.go\<close>, \<open>api.go\<close>), and the search,
  trending and explore endpoints of a node, which fall back on its own database
  (\<open>pkg/api/handlers/search.go\<close>). HTTP and JSON are the record \<open>index_env\<close>, full-text search is a
  library behind the requests.
\<close>

section \<open>Answers\<close>

text \<open>A \<open>float64\<close> of a score is an integer times a power of two; conversions of small integers are exact.\<close>

type_synonym float64 = "int \<times> int"

definition float64_of :: "int \<Rightarrow> float64" where
  "float64_of n = (n, 0)"

record ClientSearchHit =
  ch_ID :: string
  ch_Type :: string
  ch_Score :: float64
  ch_Content :: string
  ch_Author :: string
  ch_Name :: string
  ch_Bio :: string

record ClientSearchResponse =
  sr_Results :: "ClientSearchHit list"
  sr_Total :: int

record ClientTrendingPost =
  tp_CID :: string
  tp_Author :: string
  tp_Content :: string
  tp_LikeCount :: int
  tp_RepostCount :: int
  tp_ReplyCount :: int
  tp_Score :: float64
  tp_Timestamp :: int

record ClientTrendingTag =
  tt_Tag :: string
  tt_Count :: int

record ClientTrendingResponse =
  tr_Posts :: "ClientTrendingPost list"
  tr_Tags :: "ClientTrendingTag list"
  tr_Window :: string

record ClientPublisher =
  cp_Pubkey :: string
  cp_FollowerCount :: int
  cp_FollowingCount :: int
  cp_DisplayName :: string
  cp_Bio :: string

section \<open>The client (\<open>client.go\<close>)\<close>

text \<open>What the cache holds is an \<open>interface{}\<close> of one of three types; a wrong type assertion panics.\<close>

datatype cachedData =
    CSearch ClientSearchResponse
  | CTrending ClientTrendingResponse
  | CPublishers "ClientPublisher list"

record cachedResponse =
  cr_data :: cachedData
  cr_expiresAt :: int

record IndexerClient =
  ic_known :: "string list"
  ic_cache :: "(string \<times> cachedResponse) list"
  ic_cacheTTL :: int
  ic_maxCacheEntries :: int

definition defaultIndexerClientCacheTTL :: int where "defaultIndexerClientCacheTTL = 60 * 1000000000"
definition maxIndexerClientCacheEntries :: int where "maxIndexerClientCacheEntries = 1024"
definition maxIndexerClientResponseBytes :: nat where "maxIndexerClientResponseBytes = 2 ^ 20"

definition NewIndexerClient :: IndexerClient where
  "NewIndexerClient = \<lparr>ic_known = [], ic_cache = [], ic_cacheTTL = defaultIndexerClientCacheTTL,
     ic_maxCacheEntries = maxIndexerClientCacheEntries\<rparr>"

text \<open>
  The world of the client. \<open>ie_get\<close>: the status and the body that a server answers to a path with
  parameters, or the error of the request. \<open>ie_decode\<close>: decoding one JSON object into a map, which may add
  keys and then fail, and what a second decoding finds, \<open>None\<close> for the end of the data, \<open>Some None\<close> for
  another value. The others decode a member; they too may fail after some elements.
\<close>

type_synonym rawmap = "string \<rightharpoonup> bytes"

record index_env =
  ie_get :: "string \<Rightarrow> string \<Rightarrow> (string \<times> string) list \<Rightarrow> goerr + nat \<times> reader"
  ie_decode :: "bytes \<Rightarrow> rawmap \<Rightarrow> goerr option \<times> rawmap \<times> goerr option option"
  ie_hits :: "bytes \<Rightarrow> goerr option \<times> ClientSearchHit list"
  ie_total :: "bytes \<Rightarrow> goerr option \<times> int"
  ie_posts :: "bytes \<Rightarrow> goerr option \<times> ClientTrendingPost list"
  ie_tags :: "bytes \<Rightarrow> goerr option \<times> ClientTrendingTag list"
  ie_publishers :: "bytes \<Rightarrow> goerr option \<times> ClientPublisher list"

definition AddIndexer :: "string \<Rightarrow> IndexerClient \<Rightarrow> IndexerClient" where
  "AddIndexer baseURL c = (if baseURL \<in> set (ic_known c) then c else c\<lparr>ic_known := ic_known c @ [baseURL]\<rparr>)"

definition SetIndexers :: "string list \<Rightarrow> IndexerClient \<Rightarrow> IndexerClient" where
  "SetIndexers urls c = c\<lparr>ic_known := urls\<rparr>"

definition Available :: "IndexerClient \<Rightarrow> bool" where
  "Available c \<longleftrightarrow> 0 < length (ic_known c)"

definition evictExpiredEntries :: "int \<Rightarrow> IndexerClient \<Rightarrow> IndexerClient" where
  "evictExpiredEntries now c = c\<lparr>ic_cache := filter (\<lambda>(k, e). \<not> cr_expiresAt e < now) (ic_cache c)\<rparr>"

definition getFromCache :: "int \<Rightarrow> string \<Rightarrow> (IndexerClient, cachedData option) go" where
  "getFromCache now key = (\<lambda>c. case map_of (ic_cache c) key of
      None \<Rightarrow> (Inr None, c)
    | Some entry \<Rightarrow>
        if cr_expiresAt entry < now then (Inr None, c\<lparr>ic_cache := AList.delete key (ic_cache c)\<rparr>)
        else (Inr (Some (cr_data entry)), c))"

text \<open>The entry that expires first; among equals the choice is that of a map iteration.\<close>

fun oldestEntry :: "(string \<times> cachedResponse) list \<Rightarrow> (string \<times> cachedResponse) option" where
  "oldestEntry [] = None"
| "oldestEntry ((k, e) # es) = (case oldestEntry es of
      None \<Rightarrow> Some (k, e)
    | Some (k', e') \<Rightarrow> if cr_expiresAt e' < cr_expiresAt e then Some (k', e') else Some (k, e))"

definition evictOldestEntryLocked :: "(string \<times> cachedResponse) list \<Rightarrow> (string \<times> cachedResponse) list" where
  "evictOldestEntryLocked cache = (case oldestEntry cache of None \<Rightarrow> cache | Some (k, _) \<Rightarrow> AList.delete k cache)"

definition putInCache :: "int \<Rightarrow> string \<Rightarrow> cachedData \<Rightarrow> IndexerClient \<Rightarrow> IndexerClient" where
  "putInCache now key data c =
     (let ttl = (if ic_cacheTTL c \<le> 0 then defaultIndexerClientCacheTTL else ic_cacheTTL c);
          mx = (if ic_maxCacheEntries c \<le> 0 then maxIndexerClientCacheEntries else ic_maxCacheEntries c);
          live = filter (\<lambda>(k, e). \<not> cr_expiresAt e < now) (ic_cache c);
          kept = (if map_of live key = None \<and> mx \<le> int (length live) then evictOldestEntryLocked live else live)
      in c\<lparr>ic_cache := AList.update key \<lparr>cr_data = data, cr_expiresAt = now + ttl\<rparr> kept,
           ic_cacheTTL := ttl, ic_maxCacheEntries := mx\<rparr>)"

subsection \<open>Requests\<close>

definition decodeIndexerResponse :: "index_env \<Rightarrow> reader \<Rightarrow> rawmap \<Rightarrow> goerr option \<times> rawmap" where
  "decodeIndexerResponse env body result =
     (let data = take (maxIndexerClientResponseBytes + 1) (r_data body) in
      if length data < maxIndexerClientResponseBytes + 1 \<and> r_err body \<noteq> None then (r_err body, result)
      else if maxIndexerClientResponseBytes < length data then (Some (Err ''response too large''), result)
      else case ie_decode env data result of
          (Some e, raw, _) \<Rightarrow> (Some e, raw)
        | (None, raw, None) \<Rightarrow> (None, raw)
        | (None, raw, Some None) \<Rightarrow> (Some (Err ''unexpected trailing data in response''), raw)
        | (None, raw, Some (Some e)) \<Rightarrow> (Some e, raw))"

fun tryIndexers ::
  "index_env \<Rightarrow> string \<Rightarrow> (string \<times> string) list \<Rightarrow> string list \<Rightarrow> goerr \<Rightarrow> rawmap \<Rightarrow> goerr option \<times> rawmap" where
  "tryIndexers env path params [] lastErr result = (Some (wrap ''all indexers unavailable'' lastErr), result)"
| "tryIndexers env path params (base # bases) lastErr result = (case ie_get env base path params of
      Inl e \<Rightarrow> tryIndexers env path params bases e result
    | Inr (status, body) \<Rightarrow>
        if status \<noteq> 200 then tryIndexers env path params bases (Err ''indexer returned status'') result
        else case decodeIndexerResponse env body result of
            (Some e, raw) \<Rightarrow> tryIndexers env path params bases e raw
          | (None, raw) \<Rightarrow> (None, raw))"

definition queryIndexer ::
  "index_env \<Rightarrow> string \<Rightarrow> (string \<times> string) list \<Rightarrow> IndexerClient \<Rightarrow> goerr option \<times> rawmap" where
  "queryIndexer env path params c =
     (if ic_known c = [] then (Some (Err ''no indexer nodes available''), Map.empty)
      else tryIndexers env path params (ic_known c) (Err ''<nil>'') Map.empty)"

definition jsonMember :: "rawmap \<Rightarrow> string \<Rightarrow> (bytes \<Rightarrow> goerr option \<times> 'a) \<Rightarrow> 'a \<Rightarrow> 'a" where
  "jsonMember raw key unmarshal dflt = (case raw key of None \<Rightarrow> dflt | Some b \<Rightarrow> snd (unmarshal b))"

definition searchKey :: "string \<Rightarrow> string \<Rightarrow> int \<Rightarrow> int \<Rightarrow> string" where
  "searchKey kind query pageNo pageSize =
     ''search:'' @ kind @ '':'' @ query @ '':'' @ Itoa pageNo @ '':'' @ Itoa pageSize"

definition trendingKey :: "string \<Rightarrow> int \<Rightarrow> string" where
  "trendingKey window limit = ''trending:'' @ window @ '':'' @ Itoa limit"

definition exploreKey :: "int \<Rightarrow> string" where
  "exploreKey limit = ''explore:publishers:'' @ Itoa limit"

definition searchParams :: "string \<Rightarrow> string \<Rightarrow> int \<Rightarrow> int \<Rightarrow> (string \<times> string) list" where
  "searchParams kind query pageNo pageSize =
     [(''q'', query), (''type'', kind), (''page'', Itoa pageNo), (''page_size'', Itoa pageSize)]"

text \<open>\<open>SearchPosts\<close> and \<open>SearchUsers\<close> have the same statements but for the kind, \<open>posts\<close> or \<open>users\<close>.\<close>

definition searchRemote ::
  "index_env \<Rightarrow> int \<Rightarrow> int \<Rightarrow> string \<Rightarrow> string \<Rightarrow> int \<Rightarrow> int \<Rightarrow> (IndexerClient, ClientSearchResponse) go" where
  "searchRemote env now now' kind query pageNo pageSize =
     (let cacheKey = searchKey kind query pageNo pageSize in
      bindE (getFromCache now cacheKey) (\<lambda>cached. case cached of
        Some (CSearch r) \<Rightarrow> retE r
      | Some _ \<Rightarrow> throwE (Panic ''interface conversion'')
      | None \<Rightarrow> bindE (getE (queryIndexer env ''/api/search'' (searchParams kind query pageNo pageSize))) (\<lambda>(err, raw).
          case err of
            Some e \<Rightarrow> throwE e
          | None \<Rightarrow>
              let resp = \<lparr>sr_Results = jsonMember raw ''results'' (ie_hits env) [], sr_Total = jsonMember raw ''total'' (ie_total env) 0\<rparr> in
              seqE (modifyE (putInCache now' cacheKey (CSearch resp))) (retE resp))))"

definition Client_SearchPosts ::
  "index_env \<Rightarrow> int \<Rightarrow> int \<Rightarrow> string \<Rightarrow> int \<Rightarrow> int \<Rightarrow> (IndexerClient, ClientSearchResponse) go" where
  "Client_SearchPosts env now now' query pageNo pageSize = searchRemote env now now' ''posts'' query pageNo pageSize"

definition Client_SearchUsers ::
  "index_env \<Rightarrow> int \<Rightarrow> int \<Rightarrow> string \<Rightarrow> int \<Rightarrow> int \<Rightarrow> (IndexerClient, ClientSearchResponse) go" where
  "Client_SearchUsers env now now' query pageNo pageSize = searchRemote env now now' ''users'' query pageNo pageSize"

definition Client_GetTrending ::
  "index_env \<Rightarrow> int \<Rightarrow> int \<Rightarrow> string \<Rightarrow> int \<Rightarrow> (IndexerClient, ClientTrendingResponse) go" where
  "Client_GetTrending env now now' window limit =
     (let cacheKey = trendingKey window limit;
          params = (\<lambda>kind. [(''window'', window), (''limit'', Itoa limit), (''type'', kind)]) in
      bindE (getFromCache now cacheKey) (\<lambda>cached. case cached of
        Some (CTrending r) \<Rightarrow> retE r
      | Some _ \<Rightarrow> throwE (Panic ''interface conversion'')
      | None \<Rightarrow>
          bindE (getE (queryIndexer env ''/api/trending'' (params ''posts''))) (\<lambda>(err1, raw1).
          bindE (getE (queryIndexer env ''/api/trending'' (params ''tags''))) (\<lambda>(err2, raw2).
          let resp = \<lparr>tr_Posts = (if err1 = None then jsonMember raw1 ''posts'' (ie_posts env) [] else []),
                      tr_Tags = (if err2 = None then jsonMember raw2 ''tags'' (ie_tags env) [] else []), tr_Window = window\<rparr> in
          seqE (modifyE (putInCache now' cacheKey (CTrending resp))) (retE resp)))))"

definition Client_GetExplorePublishers :: "index_env \<Rightarrow> int \<Rightarrow> int \<Rightarrow> int \<Rightarrow> (IndexerClient, ClientPublisher list) go" where
  "Client_GetExplorePublishers env now now' limit =
     (let cacheKey = exploreKey limit in
      bindE (getFromCache now cacheKey) (\<lambda>cached. case cached of
        Some (CPublishers r) \<Rightarrow> retE r
      | Some _ \<Rightarrow> throwE (Panic ''interface conversion'')
      | None \<Rightarrow> bindE (getE (queryIndexer env ''/api/explore/publishers'' [(''limit'', Itoa limit)])) (\<lambda>(err, raw).
          case err of
            Some e \<Rightarrow> throwE e
          | None \<Rightarrow> let publishers = jsonMember raw ''publishers'' (ie_publishers env) [] in
              seqE (modifyE (putInCache now' cacheKey (CPublishers publishers))) (retE publishers))))"

end
