(* ===== verification/Config.thy ===== *)
theory Config
  imports Indexer Feed "HOL-Library.AList"
begin

text \<open>
  The configuration of a node (\<open>pkg/config/config.go\<close>, \<open>bootstrap_peers.go\<close>): its defaults, limits, loading
  and saving, the checks of an address the interface listens on (\<open>cmd/xleaks/api_security.go\<close>), and the
  update through the interface (\<open>pkg/api/handlers/node.go\<close>). TOML is a parameter; the file system has no
  symbolic links, so that a path is saved to where it points.
\<close>

section \<open>The configuration\<close>

record NodeConfig =
  nc_DataDir :: string
  nc_Mode :: string
  nc_MaxStorageGB :: int

record NetworkConfig =
  wc_ListenAddresses :: "string list"
  wc_BootstrapPeers :: "string list"
  wc_RelayAddresses :: "string list"
  wc_EnableRelay :: bool
  wc_EnableMDNS :: bool
  wc_EnableHolePunching :: bool
  wc_MaxPeers :: int
  wc_BandwidthLimitMbps :: int

record APIConfig =
  ac_ListenAddress :: string
  ac_EnableWebSocket :: bool
  ac_EnableWebUI :: bool
  ac_AllowRemoteWebUI :: bool

record IndexerConfig =
  xc_PublicAPIAddress :: string
  xc_MaxIndexedPublishers :: int
  xc_TrendingWindows :: "string list"
  xc_KnownIndexers :: "string list"

record MediaConfig =
  mc_MaxUploadSizeMB :: int
  mc_AutoFetchMedia :: bool
  mc_ThumbnailQuality :: int

record LoggingConfig =
  lc_Level :: string
  lc_File :: string
  lc_MaxSizeMB :: int
  lc_MaxBackups :: int

record Config =
  cf_Node :: NodeConfig
  cf_Network :: NetworkConfig
  cf_API :: APIConfig
  cf_Indexer :: IndexerConfig
  cf_Media :: MediaConfig
  cf_PassphraseMinLength :: int
  cf_Logging :: LoggingConfig

definition defaultBootstrapPeers :: "string list" where
  "defaultBootstrapPeers =
     [''/dns4/xleaks.org/tcp/7460/p2p/12D3KooWSy7rrdGY2AbGPHgHMgJkuuDxiZp88TSsiFGNnpSgiSto'',
      ''/dns4/xleaks.org/udp/7460/quic-v1/p2p/12D3KooWSy7rrdGY2AbGPHgHMgJkuuDxiZp88TSsiFGNnpSgiSto'']"

definition defaultKnownIndexers :: "string list" where
  "defaultKnownIndexers = [''http://xleaks.org:7471'']"

definition MinUserStorageGB :: int where "MinUserStorageGB = 1"

text \<open>\<open>dedupeStrings\<close>: the empty string is dropped too.\<close>

fun dedupeLoop :: "string list \<Rightarrow> string set \<Rightarrow> string list \<Rightarrow> string list" where
  "dedupeLoop [] seen out = out"
| "dedupeLoop (v # vs) seen out =
     (if v = '''' then dedupeLoop vs seen out
      else if v \<in> seen then dedupeLoop vs seen out
      else dedupeLoop vs (insert v seen) (out @ [v]))"

definition dedupeStrings :: "string list \<Rightarrow> string list" where
  "dedupeStrings values = dedupeLoop values {} []"

text \<open>
  A candidate of the file of peers: its content, or the error of reading it, \<open>None\<close> if it does not exist;
  \<open>parse\<close> decodes the addresses.
\<close>

fun loadBootstrapPeersFromFile ::
  "(bytes \<Rightarrow> goerr + string list) \<Rightarrow> (goerr + bytes) option list \<Rightarrow> goerr + string list" where
  "loadBootstrapPeersFromFile parse [] = Inr []"
| "loadBootstrapPeersFromFile parse (None # cs) = loadBootstrapPeersFromFile parse cs"
| "loadBootstrapPeersFromFile parse (Some (Inl e) # cs) = Inl (wrap ''read bootstrap peers file'' e)"
| "loadBootstrapPeersFromFile parse (Some (Inr data) # cs) = (case parse data of
      Inl e \<Rightarrow> Inl (wrap ''parse bootstrap peers file'' e)
    | Inr addrs \<Rightarrow>
        let peers = filter (\<lambda>a. a \<noteq> '''') (map TrimSpace addrs) in
        if peers \<noteq> [] then Inr (dedupeStrings peers) else loadBootstrapPeersFromFile parse cs)"

definition DefaultBootstrapPeers :: "goerr + string list \<Rightarrow> string list" where
  "DefaultBootstrapPeers filePeers = dedupeStrings (case filePeers of
      Inl _ \<Rightarrow> defaultBootstrapPeers | Inr ps \<Rightarrow> defaultBootstrapPeers @ ps)"

definition DefaultKnownIndexers :: "string list" where
  "DefaultKnownIndexers = defaultKnownIndexers"

definition DefaultConfig :: "goerr + string list \<Rightarrow> Config" where
  "DefaultConfig filePeers =
     \<lparr>cf_Node = \<lparr>nc_DataDir = ''~/.xleaks'', nc_Mode = ''user'', nc_MaxStorageGB = 5\<rparr>,
      cf_Network = \<lparr>wc_ListenAddresses = [''/ip4/0.0.0.0/tcp/7460'', ''/ip4/0.0.0.0/udp/7460/quic-v1''],
        wc_BootstrapPeers = DefaultBootstrapPeers filePeers, wc_RelayAddresses = [], wc_EnableRelay = True, wc_EnableMDNS = True,
        wc_EnableHolePunching = True, wc_MaxPeers = 100, wc_BandwidthLimitMbps = 0\<rparr>,
      cf_API = \<lparr>ac_ListenAddress = ''127.0.0.1:7470'', ac_EnableWebSocket = True, ac_EnableWebUI = True, ac_AllowRemoteWebUI = False\<rparr>,
      cf_Indexer = \<lparr>xc_PublicAPIAddress = ''0.0.0.0:7471'', xc_MaxIndexedPublishers = 100000,
        xc_TrendingWindows = [''1h'', ''6h'', ''24h'', ''7d''], xc_KnownIndexers = DefaultKnownIndexers\<rparr>,
      cf_Media = \<lparr>mc_MaxUploadSizeMB = 100, mc_AutoFetchMedia = False, mc_ThumbnailQuality = 80\<rparr>,
      cf_PassphraseMinLength = 8,
      cf_Logging = \<lparr>lc_Level = ''info'', lc_File = ''~/.xleaks/logs/xleaks.log'', lc_MaxSizeMB = 50, lc_MaxBackups = 3\<rparr>\<rparr>"

definition IsIndexer :: "Config \<Rightarrow> bool" where
  "IsIndexer c \<longleftrightarrow> nc_Mode (cf_Node c) = ''indexer''"

definition MinRequiredStorageGBForMode :: "string \<Rightarrow> int" where
  "MinRequiredStorageGBForMode mode = (if EqualFold (TrimSpace mode) ''indexer'' then 0 else MinUserStorageGB)"

definition ValidateStorageLimitForMode :: "string \<Rightarrow> int \<Rightarrow> goerr option" where
  "ValidateStorageLimitForMode mode storageGB =
     (if storageGB < 0 then Some (Err ''storage_limit_gb must be 0 or greater'')
      else if storageGB < MinRequiredStorageGBForMode mode then Some (Err ''storage_limit_gb is too small in user mode'')
      else None)"

definition ValidateStorageLimit :: "Config \<Rightarrow> goerr option" where
  "ValidateStorageLimit c = ValidateStorageLimitForMode (nc_Mode (cf_Node c)) (nc_MaxStorageGB (cf_Node c))"

text \<open>The products are taken in \<open>int64\<close>.\<close>

definition MaxStorageBytes :: "Config \<Rightarrow> int" where
  "MaxStorageBytes c = (if nc_MaxStorageGB (cf_Node c) \<le> 0 then 0
     else signed_take_bit 63 (nc_MaxStorageGB (cf_Node c) * 1024 * 1024 * 1024))"

definition MaxUploadBytes :: "Config \<Rightarrow> int" where
  "MaxUploadBytes c =
     (let sizeMB = (if mc_MaxUploadSizeMB (cf_Media c) \<le> 0 then 100 else mc_MaxUploadSizeMB (cf_Media c))
      in signed_take_bit 63 (sizeMB * 1024 * 1024))"

definition Cfg_ThumbnailJPEGQuality :: "Config \<Rightarrow> int" where
  "Cfg_ThumbnailJPEGQuality c =
     (let quality = mc_ThumbnailQuality (cf_Media c) in
      if quality < 10 then 10 else if 100 < quality then 100 else quality)"

definition PassphraseMinLen :: "Config \<Rightarrow> int" where
  "PassphraseMinLen c = (if cf_PassphraseMinLength c \<le> 0 then 8 else cf_PassphraseMinLength c)"

section \<open>Files\<close>

text \<open>A path is expanded by \<open>expandHome\<close> before it reaches these; \<open>decode\<close> decodes into the defaults.\<close>

definition Load :: "(Config \<Rightarrow> bytes \<Rightarrow> goerr + Config) \<Rightarrow> Config \<Rightarrow> path \<Rightarrow> (fs, Config) go" where
  "Load decode defaults p = (\<lambda>s. case callE (getE (\<lambda>s. node s p)) s of
      (Inl e, s') \<Rightarrow> (Inl (wrap ''failed to read config'' e), s')
    | (Inr None, s') \<Rightarrow> (Inr defaults, s')
    | (Inr (Some (FDir _)), s') \<Rightarrow> (Inl (wrap ''failed to read config'' (Err ''is a directory'')), s')
    | (Inr (Some (FFile _ data)), s') \<Rightarrow> (case decode defaults data of
          Inl e \<Rightarrow> (Inl (wrap ''failed to parse config'' e), s')
        | Inr c \<Rightarrow> (Inr c, s')))"

definition config_syncDirectory :: "path \<Rightarrow> (fs, unit) go" where
  "config_syncDirectory p =
     seqE (wrapE ''open directory'' (osOpen p)) (wrapE ''sync directory'' fileSync)"

definition ensurePrivateDir :: "path \<Rightarrow> (fs, unit) go" where
  "ensurePrivateDir p =
     bindE (wrapE ''stat directory'' (osStat p)) (\<lambda>info. case info of
       Some (FFile _ _) \<Rightarrow> throwE (Err ''not a directory'')
     | Some (FDir m) \<Rightarrow> whenE (m \<noteq> 448) (wrapE ''set directory permissions'' (osChmod p 448))
     | None \<Rightarrow>
         seqE (wrapE ''create directory'' (osMkdirAll p 448))
        (seqE (wrapE ''set directory permissions'' (osChmod p 448))
              (wrapE ''sync parent directory'' (config_syncDirectory (butlast p)))))"

definition configFileMode :: "path \<Rightarrow> (fs, nat) go" where
  "configFileMode p =
     bindE (wrapE ''failed to stat config file'' (osStat p)) (\<lambda>info. case info of
       None \<Rightarrow> retE 384
     | Some (FDir _) \<Rightarrow> throwE (Err ''config path must be a regular file'')
     | Some (FFile mode _) \<Rightarrow> retE mode)"

definition resolveSavePath :: "path \<Rightarrow> (fs, path) go" where
  "resolveSavePath p = wrapE ''failed to inspect config path'' (bindE (osStat p) (\<lambda>_. retE p))"

definition SaveConfig :: "(Config \<Rightarrow> goerr + bytes) \<Rightarrow> Config \<Rightarrow> path \<Rightarrow> (fs, unit) go" where
  "SaveConfig encode c p =
     bindE (resolveSavePath p) (\<lambda>savePath.
     let dir = butlast savePath in
     seqE (wrapE ''failed to create config directory'' (ensurePrivateDir dir))
    (bindE (configFileMode savePath) (\<lambda>mode.
     bindE (wrapE ''failed to create temp config file'' (osCreateTemp dir (last savePath))) (\<lambda>tempPath.
     deferE
       (seqE (wrapE ''failed to set config file permissions'' (osChmod tempPath mode))
       (seqE (wrapE ''failed to encode config'' (bindE (liftE (encode c)) (fileWrite tempPath)))
       (seqE (wrapE ''failed to sync config file'' fileSync)
       (seqE (wrapE ''failed to close config file'' fileClose)
       (seqE (wrapE ''failed to replace config file'' (osRename tempPath savePath))
             (wrapE ''failed to sync config directory'' (config_syncDirectory dir)))))))
       (osRemove tempPath)))))"

section \<open>Exposure of the interface\<close>

text \<open>The same function in \<open>cmd/xleaks\<close> and in \<open>pkg/api/handlers\<close>.\<close>

definition isLoopbackListenAddress :: "http_env \<Rightarrow> string \<Rightarrow> bool" where
  "isLoopbackListenAddress env listenAddr = (case SplitHost (TrimSpace listenAddr) of
      None \<Rightarrow> False
    | Some h \<Rightarrow>
        let host = TrimSpace h in
        if host = '''' then False
        else if EqualFold host ''localhost'' then True
        else loopbackAddr env host)"

definition validateAPIExposure :: "http_env \<Rightarrow> string \<Rightarrow> string \<Rightarrow> goerr option" where
  "validateAPIExposure env listenAddr token =
     (if token \<noteq> '''' \<or> isLoopbackListenAddress env listenAddr then None
      else Some (Err ''refusing to start without token auth''))"

definition validateWebUIExposure :: "http_env \<Rightarrow> string \<Rightarrow> bool \<Rightarrow> bool \<Rightarrow> bool \<Rightarrow> goerr option" where
  "validateWebUIExposure env listenAddr apiTokenConfigured enableWebUI allowRemoteWebUI =
     (if \<not> enableWebUI \<or> isLoopbackListenAddress env listenAddr then None
      else if \<not> apiTokenConfigured then Some (Err ''refusing to expose web UI without API token auth'')
      else if allowRemoteWebUI then None
      else Some (Err ''refusing to expose web UI without api.allow_remote_web_ui = true''))"

definition validateWebUIConfig :: "http_env \<Rightarrow> string \<Rightarrow> bool \<Rightarrow> bool \<Rightarrow> bool \<Rightarrow> goerr option" where
  "validateWebUIConfig env listenAddr apiTokenConfigured enableWebUI allowRemoteWebUI =
     (if \<not> enableWebUI \<or> isLoopbackListenAddress env listenAddr then None
      else if \<not> apiTokenConfigured then Some (Err ''enable_web_ui requires API token auth'')
      else if \<not> allowRemoteWebUI then Some (Err ''enable_web_ui requires allow_remote_web_ui to be true'')
      else None)"

section \<open>The update through the interface (\<open>node.go\<close>)\<close>

text \<open>
  A decoded JSON value; a number is a \<open>float64\<close>. \<open>ce_int\<close> is the conversion of an integral number outside
  the range of \<open>int\<close>, which depends on the machine.
\<close>

datatype jsonValue =
    JNull | JBool bool | JNumber float64 | JText string | JArray "jsonValue list" | JObject "(string \<times> jsonValue) list"

text \<open>The parts of a parsed URL, \<open>ru_String\<close> its text.\<close>

record RequestURI =
  ru_Scheme :: string
  ru_Host :: string
  ru_RawQuery :: string
  ru_Fragment :: string
  ru_String :: string

record config_env =
  ce_http :: http_env
  ce_encode :: "Config \<Rightarrow> goerr + bytes"
  ce_int :: "int \<Rightarrow> int"
  ce_multiaddr :: "string \<Rightarrow> bool"
  ce_ParseRequestURI :: "string \<Rightarrow> RequestURI option"

definition TrimRightSlash :: "string \<Rightarrow> string" where
  "TrimRightSlash s = rev (dropWhile (\<lambda>c. c = CHR ''/'') (rev s))"

definition allowedNodeConfigUpdateKeys :: "string list" where
  "allowedNodeConfigUpdateKeys =
     [''max_connections'', ''storage_limit_gb'', ''enable_relay'', ''enable_mdns'', ''enable_hole_punching'',
      ''bandwidth_limit_mbps'', ''bootstrap_peers'', ''known_indexers'', ''enable_websocket'', ''enable_web_ui'',
      ''allow_remote_web_ui'', ''auto_fetch_media'', ''max_upload_size_mb'', ''thumbnail_quality'', ''log_level'']"

definition validateAllowedUpdateKeys :: "(string \<rightharpoonup> jsonValue) \<Rightarrow> string list \<Rightarrow> bool" where
  "validateAllowedUpdateKeys updates allowed \<longleftrightarrow> dom updates \<subseteq> set allowed"

definition integral :: "float64 \<Rightarrow> int option" where
  "integral x = (case x of (m, e) \<Rightarrow>
     if 0 \<le> e then Some (m * 2 ^ nat e)
     else if m mod 2 ^ nat (- e) = 0 then Some (m div 2 ^ nat (- e)) else None)"

definition optionalIntField :: "config_env \<Rightarrow> (string \<rightharpoonup> jsonValue) \<Rightarrow> string \<Rightarrow> goerr + int option" where
  "optionalIntField env updates key = (case updates key of
      None \<Rightarrow> Inr None
    | Some (JNumber x) \<Rightarrow> (case integral x of
          None \<Rightarrow> Inl (Err ''field must be an integer'')
        | Some n \<Rightarrow> Inr (Some (if - (2 ^ 63) \<le> n \<and> n < 2 ^ 63 then n else ce_int env n)))
    | Some _ \<Rightarrow> Inl (Err ''field must be an integer''))"

definition optionalBoolField :: "(string \<rightharpoonup> jsonValue) \<Rightarrow> string \<Rightarrow> goerr + bool option" where
  "optionalBoolField updates key = (case updates key of
      None \<Rightarrow> Inr None
    | Some (JBool b) \<Rightarrow> Inr (Some b)
    | Some _ \<Rightarrow> Inl (Err ''field must be a boolean''))"

fun toStringSlice :: "jsonValue list \<Rightarrow> string list option" where
  "toStringSlice [] = Some []"
| "toStringSlice (JText s # vs) = map_option ((#) s) (toStringSlice vs)"
| "toStringSlice (_ # vs) = None"

definition optionalStringSliceField :: "(string \<rightharpoonup> jsonValue) \<Rightarrow> string \<Rightarrow> goerr + string list option" where
  "optionalStringSliceField updates key = (case updates key of
      None \<Rightarrow> Inr None
    | Some (JArray vs) \<Rightarrow> (case toStringSlice vs of
          None \<Rightarrow> Inl (Err ''field must be an array of strings'')
        | Some ss \<Rightarrow> Inr (Some ss))
    | Some _ \<Rightarrow> Inl (Err ''field must be an array of strings''))"

definition optionalLogLevelField :: "(string \<rightharpoonup> jsonValue) \<Rightarrow> string \<Rightarrow> goerr + string option" where
  "optionalLogLevelField updates key = (case updates key of
      None \<Rightarrow> Inr None
    | Some (JText s) \<Rightarrow>
        let level = ToLower (TrimSpace s) in
        if level \<in> {''debug'', ''info'', ''warn'', ''warning'', ''error''}
        then Inr (Some (if level = ''warning'' then ''warn'' else level))
        else Inl (Err ''field must be one of debug, info, warn, warning, or error'')
    | Some _ \<Rightarrow> Inl (Err ''field must be a string''))"

definition normalizeStringSlice :: "string list \<Rightarrow> string list" where
  "normalizeStringSlice items = dedupeLoop (map TrimSpace items) {} []"

definition validateBootstrapPeers :: "config_env \<Rightarrow> string list \<Rightarrow> bool" where
  "validateBootstrapPeers env peers \<longleftrightarrow> (\<forall>p\<in>set peers. ce_multiaddr env p)"

fun normalizeIndexerURLs :: "config_env \<Rightarrow> string list \<Rightarrow> string set \<Rightarrow> string list \<Rightarrow> goerr + string list" where
  "normalizeIndexerURLs env [] seen out = Inr out"
| "normalizeIndexerURLs env (u # us) seen out =
     (let rawURL = TrimSpace u in
      if rawURL = '''' then normalizeIndexerURLs env us seen out
      else case ce_ParseRequestURI env rawURL of
          None \<Rightarrow> Inl (Err ''known_indexers contains an invalid URL'')
        | Some parsed \<Rightarrow>
            if ru_Host parsed = '''' then Inl (Err ''known_indexers contains an invalid URL'')
            else if ru_Scheme parsed \<noteq> ''http'' \<and> ru_Scheme parsed \<noteq> ''https''
              then Inl (Err ''known_indexers must use http or https URLs'')
            else if ru_RawQuery parsed \<noteq> '''' \<or> ru_Fragment parsed \<noteq> ''''
              then Inl (Err ''known_indexers must be base URLs without query or fragment'')
            else let canonical = TrimRightSlash (ru_String parsed) in
              if canonical \<in> seen then normalizeIndexerURLs env us seen out
              else normalizeIndexerURLs env us (insert canonical seen) (out @ [canonical]))"

text \<open>
  The assignments of the update to the clone \<open>next\<close> of the configuration, in the order of the code; the flag
  is \<open>refreshIndexers\<close>. An error is the answer to a bad request.
\<close>

definition optField :: "goerr + 'v option \<Rightarrow> ('v \<Rightarrow> ('s, unit) go) \<Rightarrow> ('s, unit) go" where
  "optField field assign = bindE (liftE field) (\<lambda>o'. case o' of None \<Rightarrow> retE () | Some v \<Rightarrow> assign v)"

definition setNodeCfg :: "(NodeConfig \<Rightarrow> NodeConfig) \<Rightarrow> (Config \<times> bool, unit) go" where
  "setNodeCfg f = modifyE (\<lambda>(c, b). (c\<lparr>cf_Node := f (cf_Node c)\<rparr>, b))"

definition setNetworkCfg :: "(NetworkConfig \<Rightarrow> NetworkConfig) \<Rightarrow> (Config \<times> bool, unit) go" where
  "setNetworkCfg f = modifyE (\<lambda>(c, b). (c\<lparr>cf_Network := f (cf_Network c)\<rparr>, b))"

definition setAPICfg :: "(APIConfig \<Rightarrow> APIConfig) \<Rightarrow> (Config \<times> bool, unit) go" where
  "setAPICfg f = modifyE (\<lambda>(c, b). (c\<lparr>cf_API := f (cf_API c)\<rparr>, b))"

definition setMediaCfg :: "(MediaConfig \<Rightarrow> MediaConfig) \<Rightarrow> (Config \<times> bool, unit) go" where
  "setMediaCfg f = modifyE (\<lambda>(c, b). (c\<lparr>cf_Media := f (cf_Media c)\<rparr>, b))"

definition checkNext :: "(Config \<Rightarrow> goerr option) \<Rightarrow> (Config \<times> bool, unit) go" where
  "checkNext f = (\<lambda>(c, b). case f c of None \<Rightarrow> (Inr (), (c, b)) | Some e \<Rightarrow> (Inl e, (c, b)))"

definition checkUpdated :: "config_env \<Rightarrow> bool \<Rightarrow> (Config \<times> bool, unit) go" where
  "checkUpdated env apiTokenConfigured =
     seqE (checkNext (\<lambda>c. validateWebUIConfig (ce_http env) (ac_ListenAddress (cf_API c)) apiTokenConfigured
        (ac_EnableWebUI (cf_API c)) (ac_AllowRemoteWebUI (cf_API c))))
          (checkNext ValidateStorageLimit)"

definition applyUpdates :: "config_env \<Rightarrow> bool \<Rightarrow> (string \<rightharpoonup> jsonValue) \<Rightarrow> (Config \<times> bool, unit) go" where
  "applyUpdates env apiTokenConfigured updates =
     seqE (if validateAllowedUpdateKeys updates allowedNodeConfigUpdateKeys then retE () else throwE (Err ''unknown config fields''))
    (seqE (optField (optionalIntField env updates ''max_connections'') (\<lambda>n.
        if n < 1 then throwE (Err ''max_connections must be at least 1'') else setNetworkCfg (\<lambda>c. c\<lparr>wc_MaxPeers := n\<rparr>)))
    (seqE (optField (optionalIntField env updates ''storage_limit_gb'') (\<lambda>n. setNodeCfg (\<lambda>c. c\<lparr>nc_MaxStorageGB := n\<rparr>)))
    (seqE (optField (optionalBoolField updates ''enable_relay'') (\<lambda>b. setNetworkCfg (\<lambda>c. c\<lparr>wc_EnableRelay := b\<rparr>)))
    (seqE (optField (optionalBoolField updates ''enable_mdns'') (\<lambda>b. setNetworkCfg (\<lambda>c. c\<lparr>wc_EnableMDNS := b\<rparr>)))
    (seqE (optField (optionalBoolField updates ''enable_hole_punching'') (\<lambda>b. setNetworkCfg (\<lambda>c. c\<lparr>wc_EnableHolePunching := b\<rparr>)))
    (seqE (optField (optionalIntField env updates ''bandwidth_limit_mbps'') (\<lambda>n.
        if n < 0 then throwE (Err ''bandwidth_limit_mbps must be 0 or greater'') else setNetworkCfg (\<lambda>c. c\<lparr>wc_BandwidthLimitMbps := n\<rparr>)))
    (seqE (optField (optionalStringSliceField updates ''bootstrap_peers'') (\<lambda>ps. let peers = normalizeStringSlice ps in
        if validateBootstrapPeers env peers then setNetworkCfg (\<lambda>c. c\<lparr>wc_BootstrapPeers := peers\<rparr>)
        else throwE (Err ''bootstrap_peers contains an invalid multiaddr'')))
    (seqE (optField (optionalStringSliceField updates ''known_indexers'') (\<lambda>us.
        bindE (liftE (normalizeIndexerURLs env us {} [])) (\<lambda>indexers.
          modifyE (\<lambda>(c, _). (c\<lparr>cf_Indexer := cf_Indexer c\<lparr>xc_KnownIndexers := indexers\<rparr>\<rparr>, True)))))
    (seqE (optField (optionalBoolField updates ''enable_websocket'') (\<lambda>b. setAPICfg (\<lambda>c. c\<lparr>ac_EnableWebSocket := b\<rparr>)))
    (seqE (optField (optionalBoolField updates ''enable_web_ui'') (\<lambda>b. setAPICfg (\<lambda>c. c\<lparr>ac_EnableWebUI := b\<rparr>)))
    (seqE (optField (optionalBoolField updates ''allow_remote_web_ui'') (\<lambda>b. setAPICfg (\<lambda>c. c\<lparr>ac_AllowRemoteWebUI := b\<rparr>)))
    (seqE (optField (optionalBoolField updates ''auto_fetch_media'') (\<lambda>b. setMediaCfg (\<lambda>c. c\<lparr>mc_AutoFetchMedia := b\<rparr>)))
    (seqE (optField (optionalIntField env updates ''max_upload_size_mb'') (\<lambda>n.
        if n < 1 then throwE (Err ''max_upload_size_mb must be at least 1'') else setMediaCfg (\<lambda>c. c\<lparr>mc_MaxUploadSizeMB := n\<rparr>)))
    (seqE (optField (optionalIntField env updates ''thumbnail_quality'') (\<lambda>n.
        if n < 10 \<or> 100 < n then throwE (Err ''thumbnail_quality must be between 10 and 100'')
        else setMediaCfg (\<lambda>c. c\<lparr>mc_ThumbnailQuality := n\<rparr>)))
    (seqE (optField (optionalLogLevelField updates ''log_level'') (\<lambda>l.
        modifyE (\<lambda>(c, b). (c\<lparr>cf_Logging := cf_Logging c\<lparr>lc_Level := l\<rparr>\<rparr>, b))))
          (checkUpdated env apiTokenConfigured))))))))))))))))"

text \<open>
  What the handler works on: the configuration, the disk, the indexer client and the limit of the replicator
  that \<open>onStorageLimitChange\<close> sets; the last two if they are set.
\<close>

record NodeSettings =
  ns_cfg :: Config
  ns_fs :: fs
  ns_client :: "IndexerClient option"
  ns_limit :: "int option"

definition UpdateNodeConfig ::
  "config_env \<Rightarrow> bool \<Rightarrow> path option \<Rightarrow> (string \<rightharpoonup> jsonValue) \<Rightarrow> (NodeSettings, nat) go" where
  "UpdateNodeConfig env apiTokenConfigured cfgPath updates = (\<lambda>s.
     case applyUpdates env apiTokenConfigured updates (ns_cfg s, False) of
       (Inl e, _) \<Rightarrow> (Inr 400, s)
     | (Inr _, (next, refreshIndexers)) \<Rightarrow>
         (case (case cfgPath of None \<Rightarrow> (Inr (), ns_fs s) | Some p \<Rightarrow> SaveConfig (ce_encode env) next p (ns_fs s)) of
            (Inl e, disk) \<Rightarrow> (Inr 500, s\<lparr>ns_fs := disk\<rparr>)
          | (Inr _, disk) \<Rightarrow> (Inr 200, s\<lparr>ns_fs := disk, ns_cfg := next,
              ns_client := (if refreshIndexers then map_option (SetIndexers (xc_KnownIndexers (cf_Indexer next))) (ns_client s)
                            else ns_client s),
              ns_limit := map_option (\<lambda>_. SetStorageLimit (MaxStorageBytes next)) (ns_limit s)\<rparr>)))"

end
