(* ===== verification/Media.thy ===== *)
theory Media
  imports Sniff Social Exchange Config
begin

text \<open>
  Media over the HTTP interface (\<open>pkg/api/handlers/media.go\<close>, the helpers of \<open>handlers.go\<close>): the staging of an
  upload in a temporary file, its chunks, its copy in the content store, the rows and the signed message for
  it, and the media that are served. Image metadata and thumbnails (\<open>pkg/content/metadata.go\<close>, \<open>thumbnail.go\<close>)
  are over the image packages as parameters.
\<close>

section \<open>Answers\<close>

text \<open>A handler answers with an error, its status and message, or with a status and a body.\<close>

datatype 'a reply = Refused nat string | Replied nat 'a

text \<open>\<open>if err != nil { respondError(...); return }\<close>\<close>

definition orReply :: "('s, 'a) go \<Rightarrow> nat \<Rightarrow> string \<Rightarrow> ('a \<Rightarrow> ('s, 'b reply) go) \<Rightarrow> ('s, 'b reply) go" where
  "orReply m status msg k = bindE (okE m) (\<lambda>r. case r of None \<Rightarrow> retE (Refused status msg) | Some x \<Rightarrow> k x)"

definition isUsableKeyPair :: "KeyPair option \<Rightarrow> bool" where
  "isUsableKeyPair kpo = (case kpo of
      None \<Rightarrow> False
    | Some kp \<Rightarrow> length (PublicKeyBytes kp) \<noteq> 0 \<and> (\<exists>b\<in>set (PublicKeyBytes kp). b \<noteq> 0))"

text \<open>The identity holder's key pair if it is usable, else the handler's own.\<close>

definition currentKeyPair :: "KeyPair option \<Rightarrow> KeyPair option \<Rightarrow> KeyPair option" where
  "currentKeyPair holder own =
     (if isUsableKeyPair holder then holder else if isUsableKeyPair own then own else None)"

definition hexOrEmpty :: "bytes \<Rightarrow> string" where
  "hexOrEmpty b = (if length b = 0 then '''' else EncodeToString b)"

section \<open>Images\<close>

text \<open>
  \<open>me_decodeConfig\<close> is \<open>image.DecodeConfig\<close>, with the width, the height and the format; \<open>me_decode\<close> is
  \<open>image.Decode\<close>, \<open>me_bounds\<close> the size of a decoded image, \<open>me_scale\<close> its resizing, \<open>me_jpeg\<close> the encoder with
  a quality, \<open>me_placeholder\<close> the image drawn for a video. \<open>me_tooLarge\<close> recognises the error of a body that is
  larger than its limit. \<open>me_temp\<close> is the directory of temporary files.
\<close>

record 'img media_env =
  me_decodeConfig :: "reader \<Rightarrow> goerr + int \<times> int \<times> string"
  me_decode :: "reader \<Rightarrow> goerr + 'img"
  me_bounds :: "'img \<Rightarrow> int \<times> int"
  me_scale :: "int \<Rightarrow> int \<Rightarrow> 'img \<Rightarrow> 'img"
  me_jpeg :: "'img \<Rightarrow> int \<Rightarrow> goerr + bytes"
  me_placeholder :: 'img
  me_tooLarge :: "goerr \<Rightarrow> bool"
  me_temp :: path

record MediaMetadata =
  mm_Width :: "32 word"
  mm_Height :: "32 word"
  mm_Duration :: "32 word"
  mm_MimeType :: string

definition ExtractImageMetadataReader :: "'img media_env \<Rightarrow> reader \<Rightarrow> goerr + MediaMetadata" where
  "ExtractImageMetadataReader env r = (case me_decodeConfig env r of
      Inl e \<Rightarrow> Inl e
    | Inr (w, h, format) \<Rightarrow> (case ValidateImageDimensions w h of
          Some e \<Rightarrow> Inl e
        | None \<Rightarrow> Inr \<lparr>mm_Width = word_of_int w, mm_Height = word_of_int h, mm_Duration = 0, mm_MimeType = ''image/'' @ format\<rparr>))"

definition ExtractImageMetadata :: "'img media_env \<Rightarrow> bytes \<Rightarrow> goerr + MediaMetadata" where
  "ExtractImageMetadata env data = ExtractImageMetadataReader env \<lparr>r_data = data, r_err = None\<rparr>"

definition ExtractMediaMetadata :: "'img media_env \<Rightarrow> bytes \<Rightarrow> string \<Rightarrow> MediaMetadata option" where
  "ExtractMediaMetadata env data mimeType =
     (let basic = \<lparr>mm_Width = 0, mm_Height = 0, mm_Duration = 0, mm_MimeType = mimeType\<rparr> in
      if HasPrefix mimeType ''image/'' then (case ExtractImageMetadata env data of
          Inl _ \<Rightarrow> Some basic
        | Inr m \<Rightarrow> Some (if mm_MimeType m = '''' then m\<lparr>mm_MimeType := mimeType\<rparr> else m))
      else if HasPrefix mimeType ''video/'' \<or> HasPrefix mimeType ''audio/'' then Some basic
      else None)"

definition ThumbnailMaxWidth :: int where "ThumbnailMaxWidth = 320"
definition ThumbnailMaxSize :: nat where "ThumbnailMaxSize = 100 * 1024"
definition ThumbnailJPEGQuality :: int where "ThumbnailJPEGQuality = 80"

definition clampThumbnailQuality :: "int \<Rightarrow> int" where
  "clampThumbnailQuality quality = (if quality < 10 then 10 else if 100 < quality then 100 else quality)"

text \<open>The loop over the quality: the last encoding stays, even when it is too large.\<close>

function encodeLoop :: "'img media_env \<Rightarrow> 'img \<Rightarrow> int \<Rightarrow> bytes \<Rightarrow> goerr + bytes" where
  "encodeLoop env src quality buf =
     (if quality < 10 then Inr buf
      else case me_jpeg env src quality of
          Inl e \<Rightarrow> Inl (wrap ''failed to encode thumbnail'' e)
        | Inr b \<Rightarrow> if length b \<le> ThumbnailMaxSize then Inr b else encodeLoop env src (quality - 10) b)"
  by pat_completeness auto
termination
  by (relation "measure (\<lambda>(env, src, q, b). nat (q + 1))") auto

declare encodeLoop.simps [simp del]

definition encodeThumbnail :: "ext \<Rightarrow> 'img media_env \<Rightarrow> 'img \<Rightarrow> int \<Rightarrow> goerr + bytes \<times> bytes" where
  "encodeThumbnail x env src quality = (case encodeLoop env src (clampThumbnailQuality quality) [] of
      Inl e \<Rightarrow> Inl e
    | Inr thumbData \<Rightarrow> (case ComputeCID (x_sum x) thumbData of
          Inl e \<Rightarrow> Inl (wrap ''failed to compute thumbnail CID'' e)
        | Inr cid \<Rightarrow> Inr (thumbData, cid)))"

definition GenerateThumbnailWithQualityReader :: "ext \<Rightarrow> 'img media_env \<Rightarrow> reader \<Rightarrow> int \<Rightarrow> goerr + bytes \<times> bytes" where
  "GenerateThumbnailWithQualityReader x env r quality = (case me_decodeConfig env r of
      Inl e \<Rightarrow> Inl (wrap ''failed to decode image config'' e)
    | Inr (w, h, _) \<Rightarrow> (case ValidateImageDimensions w h of
          Some e \<Rightarrow> Inl e
        | None \<Rightarrow> (case me_decode env r of
              Inl e \<Rightarrow> Inl (wrap ''failed to decode image'' e)
            | Inr src \<Rightarrow> (case me_bounds env src of (srcWidth, srcHeight) \<Rightarrow>
                let newWidth = (if srcWidth < ThumbnailMaxWidth then srcWidth else ThumbnailMaxWidth) in
                if srcWidth = 0 then Inl (Panic ''integer divide by zero'')
                else encodeThumbnail x env (me_scale env newWidth ((srcHeight * newWidth) div srcWidth) src) quality))))"

definition generateVideoPlaceholderThumbnail :: "ext \<Rightarrow> 'img media_env \<Rightarrow> int \<Rightarrow> goerr + bytes \<times> bytes" where
  "generateVideoPlaceholderThumbnail x env quality = encodeThumbnail x env (me_placeholder env) quality"

definition GenerateMediaThumbnailReader :: "ext \<Rightarrow> 'img media_env \<Rightarrow> reader \<Rightarrow> string \<Rightarrow> int \<Rightarrow> goerr + bytes \<times> bytes" where
  "GenerateMediaThumbnailReader x env r mimeType quality =
     (if HasPrefix mimeType ''image/'' then GenerateThumbnailWithQualityReader x env r quality
      else if HasPrefix mimeType ''video/'' then generateVideoPlaceholderThumbnail x env quality
      else Inl (Err ''thumbnail generation unsupported''))"

definition isImageMime :: "string \<Rightarrow> bool" where
  "isImageMime mime \<longleftrightarrow> mime \<in> {''image/jpeg'', ''image/png'', ''image/gif'', ''image/webp''}"

definition isVideoMime :: "string \<Rightarrow> bool" where
  "isVideoMime mime \<longleftrightarrow> mime \<in> {''video/mp4'', ''video/webm''}"

section \<open>Staging an upload\<close>

text \<open>A part of a multipart body: its names, what the reads of it deliver and the error they end with.\<close>

record mpPart =
  pt_FormName :: string
  pt_FileName :: string
  pt_reads :: "bytes list"
  pt_err :: "goerr option"

text \<open>The body: the error of opening it, its parts, and the error after them, \<open>None\<close> for the end.\<close>

record multipart =
  mp_open :: "goerr option"
  mp_parts :: "mpPart list"
  mp_end :: "goerr option"

record stagedUpload =
  su_Path :: path
  su_Filename :: string
  su_Size :: int
  su_Sniff :: bytes

definition errUploadedFileTooLarge :: goerr where "errUploadedFileTooLarge = Err ''uploaded file too large''"
definition errMissingUploadedFile :: goerr where "errMissingUploadedFile = Err ''missing file upload''"
definition errEmptyUploadedFile :: goerr where "errEmptyUploadedFile = Err ''empty file''"

definition tooLargeOr :: "'img media_env \<Rightarrow> goerr \<Rightarrow> goerr \<Rightarrow> goerr" where
  "tooLargeOr env e e' = (if me_tooLarge env e then errUploadedFileTooLarge else e')"

definition createUploadFile :: "path \<Rightarrow> (fs, path) go" where
  "createUploadFile dir = callE (\<lambda>s.
     let t = dir @ [''xleaks-upload-'' @ fs_suffix s (fs_step s)] in
     case node s dir of
       Some (FDir _) \<Rightarrow> (if node s t = None then (Inr t, setNode t (FFile 384 []) s)
                        else (Inl (Err ''file exists''), s))
     | _ \<Rightarrow> (Inl (Err ''no such file or directory''), s))"

fun copyReads :: "int \<Rightarrow> path \<Rightarrow> bytes list \<Rightarrow> int \<Rightarrow> bytes \<Rightarrow> (fs, int \<times> bytes) go" where
  "copyReads maxUploadBytes tmp [] sz sniff = retE (sz, sniff)"
| "copyReads maxUploadBytes tmp (b # bs) sz sniff =
     (if length b = 0 then copyReads maxUploadBytes tmp bs sz sniff
      else if maxUploadBytes < sz + int (length b) then throwE errUploadedFileTooLarge
      else seqE (wrapE ''write temp upload file'' (fileWrite tmp b))
        (copyReads maxUploadBytes tmp bs (sz + int (length b))
          (if length sniff < 512 then sniff @ take (512 - length sniff) b else sniff)))"

definition copyMultipartPartToTempFile ::
  "'img media_env \<Rightarrow> mpPart \<Rightarrow> int \<Rightarrow> (fs, stagedUpload) go" where
  "copyMultipartPartToTempFile env part maxUploadBytes =
     bindE (wrapE ''create temp upload file'' (createUploadFile (me_temp env))) (\<lambda>tmp.
     catchE
       (bindE (copyReads maxUploadBytes tmp (pt_reads part) 0 []) (\<lambda>(sz, sniff).
        seqE (case pt_err part of
            None \<Rightarrow> retE ()
          | Some e \<Rightarrow> throwE (tooLargeOr env e (wrap ''read uploaded file'' e)))
       (seqE (wrapE ''sync temp upload file'' fileSync)
       (seqE (wrapE ''close temp upload file'' fileClose)
         (retE \<lparr>su_Path = tmp, su_Filename = pt_FileName part, su_Size = sz, su_Sniff = sniff\<rparr>)))))
       (\<lambda>e. seqE (logE fileClose) (seqE (logE (osRemove tmp)) (throwE e))))"

fun stageParts ::
  "'img media_env \<Rightarrow> int \<Rightarrow> goerr option \<Rightarrow> mpPart list \<Rightarrow> stagedUpload option \<Rightarrow> (fs, stagedUpload) go" where
  "stageParts env maxUploadBytes mpEnd [] upload = (case mpEnd of
      Some e \<Rightarrow> throwE (tooLargeOr env e e)
    | None \<Rightarrow> (case upload of
          None \<Rightarrow> throwE errMissingUploadedFile
        | Some u \<Rightarrow> if su_Size u = 0 then throwE errEmptyUploadedFile else retE u))"
| "stageParts env maxUploadBytes mpEnd (part # parts) upload =
     (if pt_FormName part \<noteq> ''file'' \<or> pt_FileName part = '''' then (case pt_err part of
          Some e \<Rightarrow> throwE (tooLargeOr env e e)
        | None \<Rightarrow> stageParts env maxUploadBytes mpEnd parts upload)
      else if upload \<noteq> None then throwE (Err ''multiple file uploads are not supported'')
      else bindE (copyMultipartPartToTempFile env part maxUploadBytes) (\<lambda>u.
        stageParts env maxUploadBytes mpEnd parts (Some u)))"

definition stageUploadedFile :: "'img media_env \<Rightarrow> multipart \<Rightarrow> int \<Rightarrow> (fs, stagedUpload) go" where
  "stageUploadedFile env mp maxUploadBytes = (case mp_open mp of
      Some e \<Rightarrow> throwE (tooLargeOr env e e)
    | None \<Rightarrow> stageParts env maxUploadBytes (mp_end mp) (mp_parts mp) None)"

section \<open>Storing an upload\<close>

text \<open>An open file as a reader: a failing call delivers a part of the content and the error.\<close>

definition openedFile :: "path \<Rightarrow> (fs, reader) go" where
  "openedFile p = (\<lambda>s.
     let data = (case node s p of Some (FFile _ d) \<Rightarrow> d | _ \<Rightarrow> []);
         s1 = s\<lparr>fs_step := Suc (fs_step s)\<rparr> in
     case fs_faults s (fs_step s) of
       Some (e, k) \<Rightarrow> (Inr \<lparr>r_data = take k data, r_err = Some e\<rparr>, s1)
     | None \<Rightarrow> (Inr \<lparr>r_data = data, r_err = None\<rparr>, s1))"

definition openReader :: "path \<Rightarrow> (fs, reader) go" where
  "openReader p = seqE (bindE (osOpen p) (\<lambda>_. retE ())) (openedFile p)"

text \<open>The loop that stores the chunks; they keep their identifier and index only.\<close>

function storeChunksLoop :: "ext \<Rightarrow> path \<Rightarrow> reader \<Rightarrow> Chunk list \<Rightarrow> nat \<Rightarrow> (fs, Chunk list) go" where
  "storeChunksLoop x base r chunks index =
     (case ReadFull ChunkSize r of (buf, err, r') \<Rightarrow>
        if 0 < length buf then (case ComputeCID (x_sum x) buf of
            Inl e \<Rightarrow> throwE e
          | Inr cid \<Rightarrow> seqE (Put base cid buf)
              (let chunks' = chunks @ [\<lparr>c_CID = cid, c_Index = index, c_Data = []\<rparr>] in
               case err of
                 None \<Rightarrow> storeChunksLoop x base r' chunks' (index + 1)
               | Some (ReadFailed e) \<Rightarrow> throwE e
               | Some _ \<Rightarrow> retE chunks'))
        else (case err of
            None \<Rightarrow> storeChunksLoop x base r' chunks index
          | Some (ReadFailed e) \<Rightarrow> throwE e
          | Some _ \<Rightarrow> retE chunks))"
  by pat_completeness auto
termination
  by (relation "measure (\<lambda>(x, base, r, cs, i). length (r_data r))")
     (auto simp: ReadFull_def ChunkSize_def split: if_splits)

declare storeChunksLoop.simps [simp del]

definition storeMediaChunksFromFile :: "ext \<Rightarrow> path \<Rightarrow> path \<Rightarrow> (fs, Chunk list) go" where
  "storeMediaChunksFromFile x base p = bindE (openReader p) (\<lambda>r. storeChunksLoop x base r [] 0)"

definition ComputeCIDReader :: "ext \<Rightarrow> reader \<Rightarrow> goerr + bytes" where
  "ComputeCIDReader x r = (case r_err r of
      Some e \<Rightarrow> Inl (wrap ''failed to compute multihash'' e)
    | None \<Rightarrow> ComputeCID (x_sum x) (r_data r))"

definition computeFileCID :: "ext \<Rightarrow> path \<Rightarrow> (fs, bytes) go" where
  "computeFileCID x p = bindE (openReader p) (\<lambda>r. liftE (ComputeCIDReader x r))"

definition storeMediaFileFromPath :: "path \<Rightarrow> bytes \<Rightarrow> path \<Rightarrow> (fs, unit) go" where
  "storeMediaFileFromPath base cid p = bindE (openReader p) (PutReader base cid)"

definition generateMediaThumbnailFromPath ::
  "ext \<Rightarrow> 'img media_env \<Rightarrow> path \<Rightarrow> string \<Rightarrow> int \<Rightarrow> (fs, bytes \<times> bytes) go" where
  "generateMediaThumbnailFromPath x env p mimeType quality =
     (if isVideoMime mimeType
      then liftE (GenerateMediaThumbnailReader x env \<lparr>r_data = [], r_err = None\<rparr> mimeType quality)
      else bindE (openReader p) (\<lambda>r. liftE (GenerateMediaThumbnailReader x env r mimeType quality)))"

definition signMediaObject ::
  "ext \<Rightarrow> KeyPair \<Rightarrow> bytes \<Rightarrow> string \<Rightarrow> Chunk list \<Rightarrow> bytes \<Rightarrow> 32 word \<Rightarrow> 32 word \<Rightarrow> 32 word \<Rightarrow> int \<Rightarrow> 64 word
     \<Rightarrow> (Node, MediaObject) go" where
  "signMediaObject x kp cid mimeType chunks thumbnailCID width height duration timestamp sz =
     (let obj = \<lparr>mo_Cid = cid, mo_Author = PublicKeyBytes kp, mo_MimeType = mimeType, mo_Size = sz,
        mo_ChunkCount = of_nat (length chunks), mo_ChunkCids = map c_CID chunks, mo_Width = width, mo_Height = height,
        mo_Duration = duration, mo_ThumbnailCid = thumbnailCID, mo_Timestamp = word_of_int timestamp, mo_Signature = []\<rparr> in
      bindE (liftE (x_marshal x (MMediaObject obj))) (\<lambda>payload.
      bindE (liftE (SignProtoMessage x (Some kp) payload)) (\<lambda>sig.
      let signed = obj\<lparr>mo_Signature := sig\<rparr> in
      seqE (checkE (\<lambda>g now. ValidateMediaObject x g now (Some signed) (Some (x_verify x)))) (retE signed))))"

text \<open>The identifiers that \<open>provideContent\<close> announces, one after the other.\<close>

definition provideCIDs :: "bytes \<Rightarrow> bytes \<Rightarrow> Chunk list \<Rightarrow> string list" where
  "provideCIDs fileCID thumbnailCID chunks = map EncodeToString (filter (\<lambda>c. length c \<noteq> 0)
     (fileCID # (if 0 < length thumbnailCID then [thumbnailCID] else []) @ map c_CID chunks))"

section \<open>The upload (\<open>UploadMedia\<close>)\<close>

record MediaHandler =
  mh_held :: "KeyPair option"
  mh_own :: "KeyPair option"
  mh_cfg :: "Config option"

text \<open>The body of the answer, the message that was signed and the identifiers that are announced.\<close>

record uploadReply =
  up_cid :: bytes
  up_mimeType :: string
  up_size :: int
  up_chunks :: "Chunk list"
  up_width :: "32 word"
  up_height :: "32 word"
  up_thumbnail :: bytes
  up_filename :: string
  up_object :: MediaObject
  up_provided :: "string list"

definition multipartUploadOverheadBytes :: int where "multipartUploadOverheadBytes = 2 ^ 20"

definition uploadLimit :: "MediaHandler \<Rightarrow> int" where
  "uploadLimit h = (case mh_cfg h of
      None \<Rightarrow> int MaxMediaSize
    | Some c \<Rightarrow> let configured = MaxUploadBytes c in
        if 0 < configured \<and> configured < int MaxMediaSize then configured else int MaxMediaSize)"

definition thumbnailQuality :: "MediaHandler \<Rightarrow> int" where
  "thumbnailQuality h = (case mh_cfg h of None \<Rightarrow> ThumbnailJPEGQuality | Some c \<Rightarrow> Cfg_ThumbnailJPEGQuality c)"

definition stagingReply :: "goerr \<Rightarrow> uploadReply reply" where
  "stagingReply e =
     (if e = errUploadedFileTooLarge then Refused 413 ''uploaded file too large''
      else if e = errMissingUploadedFile then Refused 400 ''missing file upload''
      else if e = errEmptyUploadedFile then Refused 400 ''empty file''
      else Refused 400 ''failed to read uploaded file'')"

text \<open>From the staged file to the chunks, its identifier and its copy; the thumbnail; the rows.\<close>

definition inspectImage :: "'img media_env \<Rightarrow> string \<Rightarrow> path \<Rightarrow> (32 word \<times> 32 word \<Rightarrow> (Node, 'b reply) go) \<Rightarrow> (Node, 'b reply) go" where
  "inspectImage env mimeType p k =
     (if isImageMime mimeType
      then orReply (fsE (openReader p)) 500 ''failed to inspect uploaded media'' (\<lambda>r.
           orReply (liftE (ExtractImageMetadataReader env r)) 400 ''invalid image'' (\<lambda>meta. k (mm_Width meta, mm_Height meta)))
      else k (0, 0))"

definition storeThumbnail :: "ext \<Rightarrow> 'img media_env \<Rightarrow> path \<Rightarrow> string \<Rightarrow> int \<Rightarrow> (Node, bytes) go" where
  "storeThumbnail x env p mimeType quality =
     (if isImageMime mimeType \<or> isVideoMime mimeType
      then bindE (okE (fsE (generateMediaThumbnailFromPath x env p mimeType quality))) (\<lambda>r. case r of
             None \<Rightarrow> retE []
           | Some (thumbData, thumbCID) \<Rightarrow> bindE (okE (casE (\<lambda>b. Put b thumbCID thumbData))) (\<lambda>ok.
               retE (if ok = None then [] else thumbCID)))
      else retE [])"

definition recordMedia ::
  "bytes \<Rightarrow> KeyPair \<Rightarrow> string \<Rightarrow> int \<Rightarrow> Chunk list \<Rightarrow> 32 word \<Rightarrow> 32 word \<Rightarrow> bytes \<Rightarrow> int
     \<Rightarrow> (unit \<Rightarrow> (Node, 'b reply) go) \<Rightarrow> (Node, 'b reply) go" where
  "recordMedia fileCID kp mimeType sz chunks width height thumbnailCID timestamp k =
     orReply (dbE (InsertMediaObject fileCID (PublicKeyBytes kp) mimeType (word_of_int sz) (of_nat (length chunks))
         width height 0 thumbnailCID timestamp)) 500 ''failed to store media metadata'' (\<lambda>_.
     orReply (dbE (SetMediaFetched fileCID)) 500 ''failed to update media fetch state'' (\<lambda>_.
     orReply (dbE (TrackContentForMedia fileCID fileCID)) 500 ''failed to track media content'' (\<lambda>_.
     orReply (whenE (0 < length thumbnailCID) (dbE (TrackContentForMedia thumbnailCID fileCID)))
         500 ''failed to track media thumbnail'' (\<lambda>_.
     orReply (forE (\<lambda>c. dbE (TrackContentForMedia (c_CID c) fileCID)) chunks) 500 ''failed to track media chunk'' k))))"

definition storeUpload ::
  "ext \<Rightarrow> 'img media_env \<Rightarrow> MediaHandler \<Rightarrow> KeyPair \<Rightarrow> stagedUpload \<Rightarrow> (Node, uploadReply reply) go" where
  "storeUpload x env h kp upload =
     (let mimeType = DetectContentType (su_Sniff upload) in
      case ValidateMediaType mimeType of
        Some _ \<Rightarrow> retE (Refused 400 ''unsupported media type'')
      | None \<Rightarrow>
          inspectImage env mimeType (su_Path upload) (\<lambda>(width, height).
          orReply (casE (\<lambda>b. storeMediaChunksFromFile x b (su_Path upload))) 500 ''failed to store media chunks'' (\<lambda>chunks.
          orReply (fsE (computeFileCID x (su_Path upload))) 500 ''failed to compute file CID'' (\<lambda>fileCID.
          orReply (casE (\<lambda>b. storeMediaFileFromPath b fileCID (su_Path upload))) 500 ''failed to store media file'' (\<lambda>_.
          bindE (storeThumbnail x env (su_Path upload) mimeType (thumbnailQuality h)) (\<lambda>thumbnailCID.
          bindE (getE (\<lambda>n. now_ms (nd_db n))) (\<lambda>timestamp.
          recordMedia fileCID kp mimeType (su_Size upload) chunks width height thumbnailCID timestamp (\<lambda>_.
          orReply (signMediaObject x kp fileCID mimeType chunks thumbnailCID width height 0 timestamp (word_of_int (su_Size upload)))
              500 ''failed to sign media metadata'' (\<lambda>obj.
          seqE (logE (PublishMediaObject x (Some obj)))
            (retE (Replied 201 \<lparr>up_cid = fileCID, up_mimeType = mimeType, up_size = su_Size upload, up_chunks = chunks,
               up_width = width, up_height = height, up_thumbnail = thumbnailCID, up_filename = su_Filename upload,
               up_object = obj, up_provided = provideCIDs fileCID thumbnailCID chunks\<rparr>)))))))))))"

definition UploadMedia ::
  "ext \<Rightarrow> 'img media_env \<Rightarrow> MediaHandler \<Rightarrow> (int \<Rightarrow> multipart) \<Rightarrow> (Node, uploadReply reply) go" where
  "UploadMedia x env h body = (case currentKeyPair (mh_held h) (mh_own h) of
      None \<Rightarrow> retE (Refused 401 ''identity is locked or not initialized'')
    | Some kp \<Rightarrow>
        let maxUploadBytes = uploadLimit h in
        bindE (catchE (bindE (fsE (stageUploadedFile env (body (maxUploadBytes + multipartUploadOverheadBytes)) maxUploadBytes))
            (\<lambda>u. retE (Inr u))) (\<lambda>e. retE (Inl e))) (\<lambda>staged. case staged of
          Inl e \<Rightarrow> retE (stagingReply e)
        | Inr upload \<Rightarrow> deferE (storeUpload x env h kp upload) (fsE (osRemove (su_Path upload)))))"

end
