(* ===== verification/MediaServe.thy ===== *)
theory MediaServe
  imports Media
begin

text \<open>
  The media that the HTTP interface serves (\<open>pkg/api/handlers/media.go\<close>): content of the store, or content
  fetched from peers into a temporary file, which is put into the store if that succeeds and served from the
  temporary file if it does not.
\<close>

section \<open>Sources\<close>

text \<open>An open file: its content, the size it is served with, the temporary file to remove at its end.\<close>

record contentSource =
  cs_data :: bytes
  cs_size :: int
  cs_remove :: "path option"

definition closeSource :: "contentSource \<Rightarrow> (Node, unit) go" where
  "closeSource src = seqE (logE (fsE fileClose)) (case cs_remove src of
      None \<Rightarrow> retE () | Some p \<Rightarrow> logE (fsE (osRemove p)))"

text \<open>
  \<open>FetchContentToTempFile\<close> of the exchange as one call: \<open>refused\<close> is the error of the back-off or of waiting for
  a slot, if any (the states of the calls are in Exchange).
\<close>

definition FetchContentToTempFile ::
  "goerr option \<Rightarrow> exchange_env \<Rightarrow> path \<Rightarrow> string \<Rightarrow> (fs, FetchedContentFile) go" where
  "FetchContentToTempFile refused env tmpDir cidHex = (case DecodeString cidHex of
      Inl e \<Rightarrow> throwE (wrap ''decoding CID hex'' e)
    | Inr cidBytes \<Rightarrow> (case refused of
          Some e \<Rightarrow> throwE e
        | None \<Rightarrow> remoteFetchToFile env tmpDir cidHex cidBytes))"

text \<open>The exchange of the host, if the node has one, with what it refuses.\<close>

type_synonym exchange = "(goerr option \<times> exchange_env) option"

definition tryE :: "('s, 'a) go \<Rightarrow> ('s, goerr + 'a) go" where
  "tryE m = catchE (bindE m (\<lambda>v. retE (Inr v))) (\<lambda>e. retE (Inl e))"

definition statOpened :: "path \<Rightarrow> (fs, contentSource) go" where
  "statOpened p = callE (\<lambda>s. case node s p of
      Some (FFile _ d) \<Rightarrow> (Inr \<lparr>cs_data = d, cs_size = int (length d), cs_remove = None\<rparr>, s)
    | Some (FDir _) \<Rightarrow> (Inr \<lparr>cs_data = [], cs_size = 0, cs_remove = None\<rparr>, s)
    | None \<Rightarrow> (Inl (Err ''no such file or directory''), s))"

definition openStoredContent :: "bytes \<Rightarrow> (Node, contentSource) go" where
  "openStoredContent cidBytes = casE (\<lambda>b. bindE (OpenContent b cidBytes) (\<lambda>p.
     catchE (statOpened p) (\<lambda>e. seqE (logE fileClose) (throwE e))))"

definition trackContentAccess :: "bytes \<Rightarrow> (Node, unit) go" where
  "trackContentAccess cidBytes = logE (dbE (TrackContentAccess cidBytes False))"

definition cacheFetchedContent :: "bytes \<Rightarrow> path \<Rightarrow> (Node, unit) go" where
  "cacheFetchedContent cidBytes p = casE (\<lambda>b. bindE (openReader p) (PutReader b cidBytes))"

definition openFetched :: "FetchedContentFile \<Rightarrow> (Node, contentSource) go" where
  "openFetched fetched = fsE (seqE (bindE (osOpen (fc_Path fetched)) (\<lambda>_. retE ())) (\<lambda>s.
     (Inr \<lparr>cs_data = (case node s (fc_Path fetched) of Some (FFile _ d) \<Rightarrow> d | _ \<Rightarrow> []), cs_size = fc_Size fetched,
           cs_remove = Some (fc_Path fetched)\<rparr>, s)))"

definition openContent :: "exchange \<Rightarrow> path \<Rightarrow> bytes \<Rightarrow> (Node, contentSource) go" where
  "openContent ce tmpDir cidBytes =
     bindE (tryE (openStoredContent cidBytes)) (\<lambda>stored. case stored of
       Inr source \<Rightarrow> seqE (trackContentAccess cidBytes) (retE source)
     | Inl err \<Rightarrow> (case ce of
         None \<Rightarrow> throwE err
       | Some (refused, env) \<Rightarrow>
           bindE (fsE (FetchContentToTempFile refused env tmpDir (EncodeToString cidBytes))) (\<lambda>fetched.
           bindE (okE (cacheFetchedContent cidBytes (fc_Path fetched))) (\<lambda>put.
           bindE (if put = None then retE None else okE (openStoredContent cidBytes)) (\<lambda>opened. case opened of
             Some source \<Rightarrow>
               seqE (logE (fsE (osRemove (fc_Path fetched)))) (seqE (trackContentAccess cidBytes) (retE source))
           | None \<Rightarrow>
               seqE (trackContentAccess cidBytes)
              (catchE (openFetched fetched) (\<lambda>e. seqE (logE (fsE (osRemove (fc_Path fetched)))) (throwE e))))))))"

text \<open>The type: the one of the row if there is one, else sniffed; seeking and reading may fail.\<close>

definition seekE :: "(Node, unit) go" where
  "seekE = fsE (callE (retE ()))"

definition detectContentType :: "contentSource \<Rightarrow> string \<Rightarrow> (Node, string) go" where
  "detectContentType source fallback =
     (if fallback \<noteq> '''' then seqE seekE (retE fallback)
      else seqE seekE (seqE (fsE (callE (retE ()))) (seqE seekE (retE (DetectContentType (take 512 (cs_data source)))))))"

section \<open>Handlers\<close>

text \<open>\<open>parseHexParam\<close>: a parameter of the route, decoded; its errors are client-safe request errors.\<close>

definition decodeHexField :: "string \<Rightarrow> string \<Rightarrow> goerr + bytes" where
  "decodeHexField val field =
     (if val = '''' then Inl (Err (''invalid '' @ field @ '' hex''))
      else case DecodeString val of Inl e \<Rightarrow> Inl (Err (''invalid '' @ field @ '' hex'')) | Inr b \<Rightarrow> Inr b)"

definition parseHexParam :: "string \<Rightarrow> string \<Rightarrow> goerr + bytes" where
  "parseHexParam param name =
     (if param = '''' then Inl (Err (''missing '' @ name @ '' parameter'')) else decodeHexField param name)"

definition orBadRequest :: "goerr + 'a \<Rightarrow> ('a \<Rightarrow> ('s, 'b reply) go) \<Rightarrow> ('s, 'b reply) go" where
  "orBadRequest r k = (case r of Inr v \<Rightarrow> k v | Inl (Err msg) \<Rightarrow> retE (Refused 400 msg) | Inl e \<Rightarrow> throwE e)"

definition mediaRow :: "bytes \<Rightarrow> (Node, MediaObjectRow option) go" where
  "mediaRow cidBytes = bindE (okE (dbE (GetMediaObject cidBytes))) (\<lambda>r. retE (case r of None \<Rightarrow> None | Some m \<Rightarrow> m))"

definition mimeOf :: "MediaObjectRow option \<Rightarrow> string" where
  "mimeOf media = (case media of None \<Rightarrow> '''' | Some m \<Rightarrow> m_MimeType m)"

definition withSource ::
  "(Node, contentSource) go \<Rightarrow> nat \<Rightarrow> string \<Rightarrow> (contentSource \<Rightarrow> (Node, 'b reply) go) \<Rightarrow> (Node, 'b reply) go" where
  "withSource m status msg k = orReply m status msg (\<lambda>source. deferE (k source) (closeSource source))"

definition GetMedia :: "exchange \<Rightarrow> path \<Rightarrow> string \<Rightarrow> (Node, (string \<times> bytes) reply) go" where
  "GetMedia ce tmpDir param = orBadRequest (parseHexParam param ''cid'') (\<lambda>cidBytes.
     bindE (mediaRow cidBytes) (\<lambda>media.
     withSource (openContent ce tmpDir cidBytes) 404 ''media data not available'' (\<lambda>source.
     seqE (whenE (media \<noteq> None) (logE (dbE (TrackContentForMedia cidBytes cidBytes))))
       (orReply (detectContentType source (mimeOf media)) 500 ''failed to read media data'' (\<lambda>mimeType.
        retE (Replied 200 (mimeType, cs_data source)))))))"

text \<open>The thumbnail that is stored for the media, or one made now.\<close>

definition makeThumbnail ::
  "ext \<Rightarrow> 'img media_env \<Rightarrow> int \<Rightarrow> exchange \<Rightarrow> bytes \<Rightarrow> MediaObjectRow option \<Rightarrow> (Node, (string \<times> bytes) reply) go" where
  "makeThumbnail x env quality ce cidBytes media =
     withSource (openContent ce (me_temp env) cidBytes) 404 ''thumbnail data not available'' (\<lambda>source.
     orReply (detectContentType source (mimeOf media)) 500 ''thumbnail data not available'' (\<lambda>mimeType.
     if \<not> isImageMime mimeType \<and> \<not> isVideoMime mimeType then retE (Refused 404 ''no thumbnail available'')
     else orReply (bindE (fsE (callE (getE (\<lambda>_. \<lparr>r_data = cs_data source, r_err = None\<rparr>)))) (\<lambda>r.
            liftE (GenerateMediaThumbnailReader x env r mimeType quality))) 404 ''no thumbnail available'' (\<lambda>(thumbData, _).
          retE (Replied 200 (''image/jpeg'', thumbData)))))"

definition GetMediaThumbnail ::
  "ext \<Rightarrow> 'img media_env \<Rightarrow> int \<Rightarrow> exchange \<Rightarrow> string \<Rightarrow> (Node, (string \<times> bytes) reply) go" where
  "GetMediaThumbnail x env quality ce param = orBadRequest (parseHexParam param ''cid'') (\<lambda>cidBytes.
     bindE (mediaRow cidBytes) (\<lambda>media. case media of
       Some m \<Rightarrow> (case m_ThumbnailCID m of
           Some (t # ts) \<Rightarrow> bindE (okE (openContent ce (me_temp env) (t # ts))) (\<lambda>r. case r of
               Some source \<Rightarrow> deferE
                 (seqE (logE (dbE (TrackContentForMedia (t # ts) (m_CID m)))) (retE (Replied 200 (''image/jpeg'', cs_data source))))
                 (closeSource source)
             | None \<Rightarrow> makeThumbnail x env quality ce cidBytes media)
         | _ \<Rightarrow> makeThumbnail x env quality ce cidBytes media)
     | None \<Rightarrow> makeThumbnail x env quality ce cidBytes media))"

record mediaStatus =
  ms_cid :: bytes
  ms_mimeType :: string
  ms_size :: int
  ms_chunkCount :: int
  ms_width :: int
  ms_height :: int
  ms_duration :: int
  ms_thumbnail :: string
  ms_fullyFetched :: bool

definition GetMediaStatus :: "'img media_env \<Rightarrow> exchange \<Rightarrow> string \<Rightarrow> (Node, mediaStatus reply) go" where
  "GetMediaStatus env ce param = orBadRequest (parseHexParam param ''cid'') (\<lambda>cidBytes.
     bindE (mediaRow cidBytes) (\<lambda>media. case media of
       Some m \<Rightarrow> retE (Replied 200 \<lparr>ms_cid = m_CID m, ms_mimeType = m_MimeType m, ms_size = m_Size m,
         ms_chunkCount = m_ChunkCount m, ms_width = m_Width m, ms_height = m_Height m, ms_duration = m_Duration m,
         ms_thumbnail = (case m_ThumbnailCID m of None \<Rightarrow> '''' | Some t \<Rightarrow> hexOrEmpty t), ms_fullyFetched = m_FullyFetched m\<rparr>)
     | None \<Rightarrow> withSource (openContent ce (me_temp env) cidBytes) 404 ''media not found'' (\<lambda>source.
         orReply (detectContentType source '''') 500 ''media not found'' (\<lambda>mimeType.
         bindE (if isImageMime mimeType then fsE (okE (callE (getE (\<lambda>_. ())))) else retE None) (\<lambda>readable.
         let dims = (if isImageMime mimeType \<and> readable \<noteq> None
               then (case ExtractImageMetadata env (cs_data source) of
                   Inl _ \<Rightarrow> (0, 0) | Inr meta \<Rightarrow> (uint (mm_Width meta), uint (mm_Height meta)))
               else (0, 0)) in
         retE (Replied 200 \<lparr>ms_cid = cidBytes, ms_mimeType = mimeType, ms_size = cs_size source, ms_chunkCount = 1,
           ms_width = fst dims, ms_height = snd dims, ms_duration = 0, ms_thumbnail = '''', ms_fullyFetched = True\<rparr>))))))"

end
