(* ===== verification/Gossip.thy ===== *)
theory Gossip
  imports Listings Social Limits Handlers Exchange
begin

text \<open>
  The topics of a host (\<open>pkg/p2p/pubsub.go\<close>) and their wiring to the node: which topics it reads, what it
  does with a message, and how it serves content (\<open>cmd/xleaks/main.go\<close>). GossipSub is a schedule of
  failures: the n-th call of one of its functions fails with \<open>h_faults n\<close>, if that is an error.
\<close>

section \<open>Topics\<close>

text \<open>
  A handle always has a topic; it has a subscription and the cancel function of a read loop
  (\<open>th_reads\<close>) unless \<open>Publish\<close> made it.
\<close>

record topicHandle =
  th_reads :: bool

record Host =
  h_pubsub :: bool
  h_topics :: "string \<rightharpoonup> topicHandle"
  h_faults :: "nat \<Rightarrow> goerr option"
  h_calls :: nat
  h_sent :: "(string \<times> bytes) list"

definition gossipE :: "(Host, unit) go" where
  "gossipE = (\<lambda>h. (case h_faults h (h_calls h) of Some e \<Rightarrow> Inl e | None \<Rightarrow> Inr (),
     h\<lparr>h_calls := Suc (h_calls h)\<rparr>))"

definition setTopic :: "string \<Rightarrow> bool \<Rightarrow> (Host, unit) go" where
  "setTopic topic reads = modifyE (\<lambda>h. h\<lparr>h_topics := (h_topics h)(topic \<mapsto> \<lparr>th_reads = reads\<rparr>)\<rparr>)"

definition notInitialized :: goerr where
  "notInitialized = Err ''pubsub not initialized; call InitPubSub first''"

definition InitPubSub :: "(Host, unit) go" where
  "InitPubSub = seqE (wrapE ''creating GossipSub'' gossipE) (modifyE (\<lambda>h. h\<lparr>h_pubsub := True\<rparr>))"

definition Host_Subscribe :: "string \<Rightarrow> (Host, unit) go" where
  "Host_Subscribe topic =
     bindE (getE h_pubsub) (\<lambda>ready. if \<not> ready then throwE notInitialized else
     bindE (getE (\<lambda>h. h_topics h topic)) (\<lambda>th. case th of
       Some _ \<Rightarrow> throwE (Err ''already subscribed to topic'')
     | None \<Rightarrow>
         seqE (wrapE ''joining topic'' gossipE)
        (seqE (catchE gossipE (\<lambda>e. seqE (logE gossipE) (throwE (wrap ''subscribing to topic'' e))))
              (setTopic topic True))))"

definition EnsureSubscribed :: "string \<Rightarrow> (Host, unit) go" where
  "EnsureSubscribed topic =
     bindE (getE (\<lambda>h. h_topics h topic \<noteq> None)) (\<lambda>exists.
     if exists then retE () else Host_Subscribe topic)"

definition Host_Unsubscribe :: "string \<Rightarrow> (Host, unit) go" where
  "Host_Unsubscribe topic =
     bindE (getE (\<lambda>h. h_topics h topic)) (\<lambda>th. case th of
       None \<Rightarrow> throwE (Err ''not subscribed to topic'')
     | Some _ \<Rightarrow>
         seqE (catchE gossipE (\<lambda>e. seqE (modifyE (\<lambda>h. h\<lparr>h_topics := (h_topics h)(topic := None)\<rparr>))
                                         (throwE (wrap ''closing topic'' e))))
              (modifyE (\<lambda>h. h\<lparr>h_topics := (h_topics h)(topic := None)\<rparr>)))"

definition sendE :: "string \<Rightarrow> bytes \<Rightarrow> (Host, unit) go" where
  "sendE topic data = seqE gossipE (modifyE (\<lambda>h. h\<lparr>h_sent := h_sent h @ [(topic, data)]\<rparr>))"

text \<open>\<open>others\<close> is what other goroutines do between the look at the table and the second, locked one.\<close>

definition Host_Publish :: "(Host \<Rightarrow> Host) \<Rightarrow> string \<Rightarrow> bytes \<Rightarrow> (Host, unit) go" where
  "Host_Publish others topic data =
     bindE (getE h_pubsub) (\<lambda>ready. if \<not> ready then throwE notInitialized else
     bindE (getE (\<lambda>h. h_topics h topic)) (\<lambda>th. case th of
       Some _ \<Rightarrow> sendE topic data
     | None \<Rightarrow>
         seqE (wrapE ''joining topic for publish'' gossipE)
        (seqE (modifyE others)
        (bindE (getE (\<lambda>h. h_topics h topic)) (\<lambda>existing. case existing of
           Some _ \<Rightarrow> seqE (logE gossipE) (sendE topic data)
         | None \<Rightarrow> seqE (setTopic topic False) (sendE topic data))))))"

text \<open>\<open>Host.Close\<close>, as far as the topics go.\<close>

definition closeTopics :: "Host \<Rightarrow> Host" where
  "closeTopics h = h\<lparr>h_topics := Map.empty\<rparr>"

text \<open>What a topic delivers goes to the handler if the topic is read, except the host's own messages.\<close>

definition readLoop :: "string \<Rightarrow> (string \<Rightarrow> bytes \<Rightarrow> ('s, unit) go) \<Rightarrow> (string \<times> bytes) list \<Rightarrow> ('s, unit) go" where
  "readLoop self handler msgs =
     forE (\<lambda>(receivedFrom, data). if receivedFrom = self then retE () else handler receivedFrom data) msgs"

section \<open>The wiring of the node (\<open>cmd/xleaks/main.go\<close>)\<close>

record Wired =
  wi_node :: Node
  wi_host :: Host
  wi_currentDMTopic :: string

definition nodeE :: "(Node, 'a) go \<Rightarrow> (Wired, 'a) go" where
  "nodeE m = onE wi_node (\<lambda>n w. w\<lparr>wi_node := n\<rparr>) m"

definition hostE :: "(Host, 'a) go \<Rightarrow> (Wired, 'a) go" where
  "hostE m = onE wi_host (\<lambda>h w. w\<lparr>wi_host := h\<rparr>) m"

definition newTopicSubscriber :: "string \<Rightarrow> (Host, unit) go" where
  "newTopicSubscriber topic = (if topic = '''' then retE () else EnsureSubscribed topic)"

definition ensureObservedTopicSubscriptions :: "ext \<Rightarrow> bytes \<Rightarrow> bool \<Rightarrow> (Host, unit) go" where
  "ensureObservedTopicSubscriptions x data subscribePublisherPosts =
     (if length data = 0 then retE () else
      bindE (liftE (x_unmarshalEnvelope x data)) (\<lambda>payload. case payload of
        Some (MPost post) \<Rightarrow>
          seqE (newTopicSubscriber (FollowsTopic (EncodeToString (po_Author post))))
               (whenE (0 < length (po_Id post)) (newTopicSubscriber (ReactionsTopic (EncodeToString (po_Id post)))))
      | Some (MProfile profile) \<Rightarrow>
          seqE (whenE subscribePublisherPosts (newTopicSubscriber (PostsTopic (EncodeToString (pr_Author profile)))))
               (newTopicSubscriber (FollowsTopic (EncodeToString (pr_Author profile))))
      | Some (MFollowEvent event) \<Rightarrow>
          seqE (whenE subscribePublisherPosts
                 (seqE (newTopicSubscriber (PostsTopic (EncodeToString (fe_Author event))))
                       (whenE (0 < length (fe_Target event))
                         (newTopicSubscriber (PostsTopic (EncodeToString (fe_Target event)))))))
               (newTopicSubscriber (FollowsTopic (EncodeToString (fe_Author event))))
      | _ \<Rightarrow> retE ()))"

text \<open>The handler of every topic: a message that cannot be processed is logged, as is a failed subscription.\<close>

definition messageHandler :: "ext \<Rightarrow> fetchers \<Rightarrow> bool \<Rightarrow> bytes \<Rightarrow> (Wired, unit) go" where
  "messageHandler x ft subscribePublisherPosts data =
     bindE (okE (nodeE (HandleMessage x ft data))) (\<lambda>r. case r of
       None \<Rightarrow> retE ()
     | Some _ \<Rightarrow> logE (hostE (ensureObservedTopicSubscriptions x data subscribePublisherPosts)))"

definition wireOwnTopics :: "KeyPair option \<Rightarrow> (Host, unit) go" where
  "wireOwnTopics kp =
     seqE (logE (newTopicSubscriber GlobalTopic))
    (seqE (logE (newTopicSubscriber ProfilesTopic))
          (case kp of
             None \<Rightarrow> retE ()
           | Some k \<Rightarrow> whenE (0 < length (PublicKeyBytes k))
               (logE (newTopicSubscriber (DMTopic (EncodeToString (PublicKeyBytes k)))))))"

definition seedKnownFollowSubscriptions :: "(Wired, unit) go" where
  "seedKnownFollowSubscriptions =
     bindE (okE (nodeE (dbE GetAllProfiles))) (\<lambda>r. case r of
       None \<Rightarrow> retE ()
     | Some ps \<Rightarrow> forE (\<lambda>p. if length (pf_Pubkey p) = 0 then retE ()
         else logE (hostE (newTopicSubscriber (FollowsTopic (EncodeToString (pf_Pubkey p)))))) ps)"

text \<open>The topics of the publishers among \<open>keys\<close> that were not \<open>seen\<close> yet, and what has been seen then.\<close>

fun seedPublishers :: "bytes list \<Rightarrow> string set \<Rightarrow> (Wired, string set) go" where
  "seedPublishers [] seen = retE seen"
| "seedPublishers (k # ks) seen =
     (let pubkeyHex = EncodeToString k in
      if length k = 0 \<or> pubkeyHex \<in> seen then seedPublishers ks seen
      else seqE (logE (hostE (newTopicSubscriber (PostsTopic pubkeyHex)))) (seedPublishers ks (insert pubkeyHex seen)))"

definition seedKnownPublisherSubscriptions :: "(Wired, unit) go" where
  "seedKnownPublisherSubscriptions =
     bindE (okE (nodeE (dbE GetAllProfiles))) (\<lambda>r.
     bindE (case r of None \<Rightarrow> retE {} | Some ps \<Rightarrow> seedPublishers (map pf_Pubkey ps) {}) (\<lambda>seen.
     bindE (okE (nodeE (dbE (GetAllPosts 0 10000)))) (\<lambda>r. case r of
       None \<Rightarrow> retE ()
     | Some ps \<Rightarrow> seqE (seedPublishers (map p_Author ps) seen) (retE ()))))"

text \<open>The direct-message topic follows the active identity.\<close>

definition syncDMTopic :: "KeyPair option \<Rightarrow> (Wired, unit) go" where
  "syncDMTopic kp =
     seqE (bindE (getE wi_currentDMTopic) (\<lambda>t. whenE (t \<noteq> '''')
             (seqE (logE (hostE (Host_Unsubscribe t))) (modifyE (\<lambda>w. w\<lparr>wi_currentDMTopic := ''''\<rparr>)))))
          (case kp of
             None \<Rightarrow> retE ()
           | Some k \<Rightarrow> whenE (0 < length (PublicKeyBytes k))
               (let topic = DMTopic (EncodeToString (PublicKeyBytes k)) in
                bindE (okE (hostE (newTopicSubscriber topic))) (\<lambda>r. case r of
                  None \<Rightarrow> retE ()
                | Some _ \<Rightarrow> modifyE (\<lambda>w. w\<lparr>wi_currentDMTopic := topic\<rparr>))))"

definition backfillPinnedContent :: "(DB, unit) go" where
  "backfillPinnedContent =
     bindE GetIdentities (\<lambda>ids.
     seqE (forE (\<lambda>i. SetPinnedForAuthor (id_Pubkey i) True) ids)
    (bindE (GetSubscriptions []) (\<lambda>subs.
       forE (\<lambda>k. bindE (ShouldPinAuthor k) (\<lambda>pin. SetPinnedForAuthor k pin))
         (rev (remdups (rev (map s_Pubkey subs)))))))"

text \<open>
  The publisher of the services is the host. \<open>nd_published\<close> lists the calls of \<open>Publish\<close> in their order and
  \<open>nd_pubFaults\<close> their outcomes; \<open>publishingE\<close> adds what they make of the host.
\<close>

definition publishAll :: "(string \<times> bytes) list \<Rightarrow> Host \<Rightarrow> Host" where
  "publishAll msgs h = fold (\<lambda>(topic, data) h. snd (Host_Publish (\<lambda>h. h) topic data h)) msgs h"

definition publishingE :: "(Node, 'a) go \<Rightarrow> (Wired, 'a) go" where
  "publishingE m = (\<lambda>w. case m (wi_node w) of (r, n) \<Rightarrow>
     (r, w\<lparr>wi_node := n,
           wi_host := publishAll (drop (length (nd_published (wi_node w))) (nd_published n)) (wi_host w)\<rparr>))"

text \<open>The like and the post of the HTTP interface (\<open>pkg/api/handlers\<close>), once the request is decoded.\<close>

definition api_CreateReaction :: "ext \<Rightarrow> Service \<Rightarrow> bytes \<Rightarrow> (Wired, Reaction) go" where
  "api_CreateReaction x sv targetCID =
     bindE (publishingE (CreateReaction x sv targetCID)) (\<lambda>reaction.
     seqE (logE (hostE (newTopicSubscriber (ReactionsTopic (EncodeToString targetCID))))) (retE reaction))"

text \<open>The content that the node serves to its peers; \<open>dirSize\<close> is the size that the system gives a directory.\<close>

definition nodeContentServer :: "(bytes \<Rightarrow> bool) \<Rightarrow> int \<Rightarrow> path \<Rightarrow> fs \<Rightarrow> ContentServer" where
  "nodeContentServer mhDecode dirSize basePath s cidHex = (case HexToCID mhDecode cidHex of
      Inl _ \<Rightarrow> (None, False)
    | Inr cidBytes \<Rightarrow> (case OpenContent basePath cidBytes s of
        (Inl _, _) \<Rightarrow> (None, False)
      | (Inr p, s1) \<Rightarrow> (case osStat p s1 of
          (Inr (Some (FFile _ d)), _) \<Rightarrow> (Some \<lparr>so_Reader = Some \<lparr>r_data = d, r_err = None\<rparr>, so_Size = int (length d)\<rparr>, True)
        | (Inr (Some (FDir _)), _) \<Rightarrow> (Some \<lparr>so_Reader = Some \<lparr>r_data = [], r_err = Some (Err ''is a directory'')\<rparr>, so_Size = dirSize\<rparr>, True)
        | _ \<Rightarrow> (None, False))))"

end
