(* ===== verification/Keystore.thy ===== *)
theory Keystore
  imports ContentStore PeopleRepo Identity GoText Address
begin

text \<open>
  The keys of a node's owner: their encryption under a passphrase (\<open>pkg/identity/keystore.go\<close>), mnemonics
  (\<open>mnemonic.go\<close>), the files they are kept in (\<open>fileio.go\<close>, \<open>holder_migrate.go\<close>) and the holder of the
  active identity (\<open>holder.go\<close>, \<open>holder_multi.go\<close>, \<open>export.go\<close>) with its operations. Argon2id, AES-GCM, the
  JSON encoding of an encrypted key, BIP39 and PBKDF2 are the fields of the record \<open>keyring\<close>; random
  bytes and random mnemonics are arguments. Times are \<open>now_ms\<close> of the database.
\<close>

section \<open>Encrypted keys (\<open>keystore.go\<close>)\<close>

record Argon2Params =
  ap_Time :: "32 word"
  ap_Memory :: "32 word"
  ap_Threads :: "8 word"

record EncryptedKey =
  ek_Salt :: bytes
  ek_Nonce :: bytes
  ek_Ciphertext :: bytes
  ek_Argon2Params :: Argon2Params

text \<open>
  \<open>kr_argon\<close> has the passphrase, the salt and the parameters as arguments and yields 32 bytes; \<open>kr_seal\<close>
  and \<open>kr_open\<close> have the key, the nonce and the text; \<open>kr_pbkdf2\<close> has the password and the salt.
\<close>

record keyring =
  kr_argon :: "bytes \<Rightarrow> bytes \<Rightarrow> Argon2Params \<Rightarrow> bytes"
  kr_seal :: "bytes \<Rightarrow> bytes \<Rightarrow> bytes \<Rightarrow> bytes"
  kr_open :: "bytes \<Rightarrow> bytes \<Rightarrow> bytes \<Rightarrow> bytes option"
  kr_marshal :: "EncryptedKey \<Rightarrow> goerr + bytes"
  kr_unmarshal :: "bytes \<Rightarrow> goerr + EncryptedKey"
  kr_validMnemonic :: "string \<Rightarrow> bool"
  kr_pbkdf2 :: "bytes \<Rightarrow> bytes \<Rightarrow> bytes"

text \<open>\<open>argon2.IDKey\<close> panics without a round or a thread, \<open>Open\<close> of the cipher on a nonce of a wrong size.\<close>

definition IDKey :: "keyring \<Rightarrow> string \<Rightarrow> bytes \<Rightarrow> Argon2Params \<Rightarrow> goerr + bytes" where
  "IDKey kr passphrase salt params =
     (if ap_Time params < 1 then Inl (Panic ''argon2: number of rounds too small'')
      else if ap_Threads params < 1 then Inl (Panic ''argon2: parallelism degree too low'')
      else Inr (kr_argon kr (stringToBytes passphrase) salt params))"

definition gcmNonceSize :: nat where "gcmNonceSize = 12"

definition gcmOpen :: "keyring \<Rightarrow> bytes \<Rightarrow> bytes \<Rightarrow> bytes \<Rightarrow> goerr + bytes" where
  "gcmOpen kr key nonce ciphertext =
     (if length nonce \<noteq> gcmNonceSize then Inl (Panic ''crypto/cipher: incorrect nonce length given to GCM'')
      else case kr_open kr key nonce ciphertext of
        None \<Rightarrow> Inl (Err ''cipher: message authentication failed'')
      | Some plaintext \<Rightarrow> Inr plaintext)"

definition keyParams :: Argon2Params where
  "keyParams = \<lparr>ap_Time = 3, ap_Memory = 64 * 1024, ap_Threads = 4\<rparr>"

definition EncryptPrivateKey ::
  "keyring \<Rightarrow> goerr + bytes \<Rightarrow> goerr + bytes \<Rightarrow> bytes \<Rightarrow> string \<Rightarrow> goerr + EncryptedKey" where
  "EncryptPrivateKey kr rndSalt rndNonce privateKey passphrase =
     (if length privateKey \<noteq> PrivateKeySize then Inl (Err ''invalid private key size'')
      else case rndSalt of
        Inl e \<Rightarrow> Inl (wrap ''failed to generate salt'' e)
      | Inr salt \<Rightarrow>
     (case IDKey kr passphrase salt keyParams of
        Inl e \<Rightarrow> Inl e
      | Inr key \<Rightarrow>
     (case rndNonce of
        Inl e \<Rightarrow> Inl (wrap ''failed to generate nonce'' e)
      | Inr nonce \<Rightarrow> Inr \<lparr>ek_Salt = salt, ek_Nonce = nonce, ek_Ciphertext = kr_seal kr key nonce privateKey,
          ek_Argon2Params = keyParams\<rparr>)))"

definition DecryptPrivateKey :: "keyring \<Rightarrow> EncryptedKey option \<Rightarrow> string \<Rightarrow> goerr + bytes" where
  "DecryptPrivateKey kr key passphrase = (case key of
      None \<Rightarrow> Inl (Err ''encrypted key is nil'')
    | Some enc \<Rightarrow>
     (case IDKey kr passphrase (ek_Salt enc) (ek_Argon2Params enc) of
        Inl e \<Rightarrow> Inl e
      | Inr k \<Rightarrow>
     (case gcmOpen kr k (ek_Nonce enc) (ek_Ciphertext enc) of
        Inl e \<Rightarrow> Inl (wrap ''decryption failed (wrong passphrase?)'' e)
      | Inr plaintext \<Rightarrow>
          if length plaintext \<noteq> PrivateKeySize then Inl (Err ''decrypted key has invalid size'')
          else Inr plaintext)))"

section \<open>Files (\<open>fileio.go\<close>)\<close>

text \<open>The rest of the function is that of \<open>pkg/content/fileio.go\<close>, statement by statement.\<close>

definition writeOwnerOnlyFile :: "path \<Rightarrow> bytes \<Rightarrow> (fs, unit) go" where
  "writeOwnerOnlyFile p data =
     seqE (wrapE ''create parent directory'' (osMkdirAll (butlast p) 448)) (writeFileAtomic p data 384)"

definition renameFileAndSync :: "path \<Rightarrow> path \<Rightarrow> (fs, unit) go" where
  "renameFileAndSync oldPath newPath =
     seqE (wrapE ''rename file'' (osRename oldPath newPath))
          (wrapE ''sync directory'' (syncDirectory (butlast newPath)))"

definition removeFileAndSync :: "path \<Rightarrow> (fs, unit) go" where
  "removeFileAndSync p =
     seqE (wrapE ''remove file'' (osRemove p)) (wrapE ''sync directory'' (syncDirectory (butlast p)))"

text \<open>\<open>os.ReadFile\<close> where the code asks \<open>os.IsNotExist\<close> of its error, which is \<open>None\<close>; \<open>os.ReadDir\<close>, in any order.\<close>

definition readIfExists :: "path \<Rightarrow> (fs, bytes option) go" where
  "readIfExists p = callE (\<lambda>s. case node s p of
      None \<Rightarrow> (Inr None, s)
    | Some (FDir _) \<Rightarrow> (Inl (Err ''is a directory''), s)
    | Some (FFile _ d) \<Rightarrow> (Inr (Some d), s))"

definition osReadDir :: "path \<Rightarrow> (fs, string list) go" where
  "osReadDir p = callE (\<lambda>s. case node s p of
      Some (FDir _) \<Rightarrow> (Inr (map (last \<circ> fst) (filter (\<lambda>e. fst e \<noteq> [] \<and> butlast (fst e) = p) (fs_nodes s))), s)
    | Some (FFile _ _) \<Rightarrow> (Inl (Err ''not a directory''), s)
    | None \<Rightarrow> (Inl (Err ''no such file or directory''), s))"

definition SaveEncryptedKey :: "keyring \<Rightarrow> EncryptedKey option \<Rightarrow> path \<Rightarrow> (fs, unit) go" where
  "SaveEncryptedKey kr key p = (case key of
      None \<Rightarrow> throwE (Err ''encrypted key is nil'')
    | Some enc \<Rightarrow>
        bindE (wrapE ''failed to marshal encrypted key'' (liftE (kr_marshal kr enc))) (\<lambda>data.
        wrapE ''failed to write encrypted key'' (writeOwnerOnlyFile p data)))"

definition LoadEncryptedKey :: "keyring \<Rightarrow> path \<Rightarrow> (fs, EncryptedKey) go" where
  "LoadEncryptedKey kr p =
     bindE (wrapE ''failed to read encrypted key'' (osReadFile p)) (\<lambda>data.
     wrapE ''failed to unmarshal encrypted key'' (liftE (kr_unmarshal kr data)))"

section \<open>Mnemonics (\<open>mnemonic.go\<close>)\<close>

definition MnemonicToSeed :: "keyring \<Rightarrow> string \<Rightarrow> string \<Rightarrow> goerr + bytes" where
  "MnemonicToSeed kr mnemonic passphrase =
     (let m = TrimSpace mnemonic in
      if \<not> kr_validMnemonic kr m then Inl (Err ''invalid mnemonic'')
      else Inr (take 32 (kr_pbkdf2 kr (stringToBytes m) (stringToBytes (''mnemonic'' @ passphrase)))))"

definition ValidateMnemonic :: "keyring \<Rightarrow> string \<Rightarrow> bool" where
  "ValidateMnemonic kr mnemonic = kr_validMnemonic kr (TrimSpace mnemonic)"

section \<open>The holder\<close>

text \<open>The \<open>Holder\<close> with the disk and the database it works on; \<open>ho_hasDB\<close> says that \<open>SetDB\<close> was called.\<close>

record Holder =
  ho_kp :: "KeyPair option"
  ho_fs :: fs
  ho_db :: DB
  ho_hasDB :: bool

abbreviation fsE :: "(fs, 'a) go \<Rightarrow> (Holder, 'a) go" where
  "fsE m \<equiv> onE ho_fs (\<lambda>s h. h\<lparr>ho_fs := s\<rparr>) m"

abbreviation hdbE :: "(DB, 'a) go \<Rightarrow> (Holder, 'a) go" where
  "hdbE m \<equiv> onE ho_db (\<lambda>d h. h\<lparr>ho_db := d\<rparr>) m"

definition DefaultDisplayName :: string where "DefaultDisplayName = ''Anonymous''"

definition keysDir :: "path \<Rightarrow> path" where "keysDir dataDir = dataDir @ [''identity'', ''keys'']"
definition activeFilePath :: "path \<Rightarrow> path" where "activeFilePath dataDir = dataDir @ [''identity'', ''active'']"
definition legacyKeyPath :: "path \<Rightarrow> path" where "legacyKeyPath dataDir = dataDir @ [''identity'', ''primary.key'']"

definition keyFilePath :: "path \<Rightarrow> string \<Rightarrow> path" where
  "keyFilePath dataDir pubkeyHex = joinPath (keysDir dataDir) (pubkeyHex @ ''.key'')"

definition GetKey :: "Holder \<Rightarrow> KeyPair option" where "GetKey h = ho_kp h"

definition SetKey :: "KeyPair option \<Rightarrow> (Holder, unit) go" where
  "SetKey kp = modifyE (\<lambda>h. h\<lparr>ho_kp := kp\<rparr>)"

definition IsUnlocked :: "Holder \<Rightarrow> bool" where "IsUnlocked h \<longleftrightarrow> ho_kp h \<noteq> None"

definition LockIdentity :: "(Holder, unit) go" where
  "LockIdentity = modifyE (\<lambda>h. h\<lparr>ho_kp := None\<rparr>)"

definition HasIdentity :: "path \<Rightarrow> (Holder, bool) go" where
  "HasIdentity dataDir =
     bindE (okE (fsE (osReadDir (keysDir dataDir)))) (\<lambda>entries.
     if (case entries of None \<Rightarrow> False | Some es \<Rightarrow> 0 < length es) then retE True
     else bindE (okE (fsE (osStat (legacyKeyPath dataDir)))) (\<lambda>info.
       retE (case info of Some (Some _) \<Rightarrow> True | _ \<Rightarrow> False)))"

subsection \<open>The layout of the files (\<open>holder_migrate.go\<close>)\<close>

definition readActivePubkeyHex :: "path \<Rightarrow> (Holder, string) go" where
  "readActivePubkeyHex dataDir =
     bindE (wrapE ''read active file'' (fsE (osReadFile (activeFilePath dataDir)))) (\<lambda>data.
     let pubkeyHex = bytesToString data in
     if pubkeyHex = '''' then throwE (Err ''active file is empty'') else retE pubkeyHex)"

definition writeActivePubkeyHex :: "path \<Rightarrow> string \<Rightarrow> (Holder, unit) go" where
  "writeActivePubkeyHex dataDir pubkeyHex =
     seqE (wrapE ''create identity directory'' (fsE (osMkdirAll (dataDir @ [''identity'']) 448)))
          (fsE (writeOwnerOnlyFile (activeFilePath dataDir) (stringToBytes pubkeyHex)))"

definition migrationPubkeyHex :: "path \<Rightarrow> (Holder, string) go" where
  "migrationPubkeyHex dataDir = (\<lambda>h. case ho_kp h of
      Some kp \<Rightarrow> (Inr (EncodeToString (PublicKeyBytes kp)), h)
    | None \<Rightarrow> bindE (okE (fsE (osReadFile (activeFilePath dataDir)))) (\<lambda>data. case data of
        Some d \<Rightarrow> if 0 < length d then retE (bytesToString d) else retE ''legacy''
      | None \<Rightarrow> retE ''legacy'') h)"

text \<open>\<open>!os.IsNotExist(err)\<close> holds for an existing file and for any other error of \<open>Stat\<close>.\<close>

definition copyLegacyKey :: "path \<Rightarrow> path \<Rightarrow> (Holder, unit) go" where
  "copyLegacyKey legacyPath newPath =
     bindE (okE (fsE (osStat newPath))) (\<lambda>info.
     if info \<noteq> Some None then retE ()
     else bindE (wrapE ''read legacy key'' (fsE (osReadFile legacyPath))) (\<lambda>data.
       wrapE ''write migrated key'' (fsE (writeOwnerOnlyFile newPath data))))"

definition migrateIfNeeded :: "path \<Rightarrow> (Holder, unit) go" where
  "migrateIfNeeded dataDir =
     bindE (okE (fsE (osStat (legacyKeyPath dataDir)))) (\<lambda>info.
     if info = Some None then retE ()
     else bindE (migrationPubkeyHex dataDir) (\<lambda>pubkeyHex.
       seqE (wrapE ''create keys directory'' (fsE (osMkdirAll (keysDir dataDir) 448)))
      (seqE (copyLegacyKey (legacyKeyPath dataDir) (keyFilePath dataDir pubkeyHex))
      (seqE (logE (fsE (osRemove (legacyKeyPath dataDir))))
            (whenE (pubkeyHex \<noteq> ''legacy'')
              (bindE (okE (fsE (osStat (activeFilePath dataDir)))) (\<lambda>active.
               whenE (active = Some None)
                 (logE (fsE (writeOwnerOnlyFile (activeFilePath dataDir) (stringToBytes pubkeyHex)))))))))))"

subsection \<open>Unlocking (\<open>holder.go\<close>)\<close>

definition resolveActivePubkey :: "path \<Rightarrow> (Holder, string) go" where
  "resolveActivePubkey dataDir =
     catchE (readActivePubkeyHex dataDir) (\<lambda>err.
       bindE (okE (fsE (osReadDir (keysDir dataDir)))) (\<lambda>entries. case entries of
         Some [name] \<Rightarrow>
           if length name < 4 then throwE (Panic ''slice bounds out of range'')
           else retE (take (length name - 4) name)
       | _ \<Rightarrow> throwE (wrap ''no active identity set'' err)))"

definition filesEqual :: "path \<Rightarrow> path \<Rightarrow> (Holder, bool option) go" where
  "filesEqual pathA pathB =
     bindE (wrapE ''read'' (fsE (osReadFile pathA))) (\<lambda>dataA.
     bindE (fsE (readIfExists pathB)) (\<lambda>dataB.
     retE (case dataB of None \<Rightarrow> None | Some d \<Rightarrow> Some (dataA = d))))"

text \<open>The rollback of a rename after the active file could not be written.\<close>

definition undoRename :: "path \<Rightarrow> path \<Rightarrow> goerr \<Rightarrow> (Holder, unit) go" where
  "undoRename newPath keyPath err =
     bindE (okE (fsE (renameFileAndSync newPath keyPath))) (\<lambda>r. case r of
       None \<Rightarrow> throwE (wrap ''update active identity (rollback failed)'' err)
     | Some _ \<Rightarrow> throwE (wrap ''update active identity'' err))"

definition fixMigratedKeyName :: "path \<Rightarrow> KeyPair \<Rightarrow> string \<Rightarrow> path \<Rightarrow> (Holder, unit) go" where
  "fixMigratedKeyName dataDir kp pubkeyHex keyPath =
     (let actualPubkeyHex = EncodeToString (PublicKeyBytes kp);
          newPath = keyFilePath dataDir actualPubkeyHex in
      if pubkeyHex = actualPubkeyHex then retE ()
      else bindE (wrapE ''inspect existing key destination'' (filesEqual keyPath newPath)) (\<lambda>same.
        case same of
          Some False \<Rightarrow> throwE (Err ''destination key file already exists with different contents'')
        | Some True \<Rightarrow>
            seqE (wrapE ''update active identity'' (writeActivePubkeyHex dataDir actualPubkeyHex))
                 (wrapE ''remove duplicate migrated key'' (fsE (removeFileAndSync keyPath)))
        | None \<Rightarrow>
            seqE (wrapE ''rename migrated key'' (fsE (renameFileAndSync keyPath newPath)))
                 (catchE (writeActivePubkeyHex dataDir actualPubkeyHex) (undoRename newPath keyPath))))"

definition ensureIdentityRegistered :: "KeyPair \<Rightarrow> (Holder, unit) go" where
  "ensureIdentityRegistered kp = (\<lambda>h.
     if \<not> ho_hasDB h then (Inr (), h)
     else bindE (okE (hdbE (IdentityExists (PublicKeyBytes kp)))) (\<lambda>exists.
       seqE (whenE (exists = Some False)
              (bindE (getE (\<lambda>h. now_ms (ho_db h))) (\<lambda>now.
               logE (hdbE (InsertIdentity (PublicKeyBytes kp) DefaultDisplayName True now)))))
            (logE (hdbE (SetActiveIdentity (PublicKeyBytes kp))))) h)"

definition Unlock :: "keyring \<Rightarrow> path \<Rightarrow> string \<Rightarrow> (Holder, KeyPair) go" where
  "Unlock kr dataDir passphrase =
     seqE (logE (migrateIfNeeded dataDir))
    (bindE (resolveActivePubkey dataDir) (\<lambda>pubkeyHex.
     bindE (wrapE ''load key'' (fsE (LoadEncryptedKey kr (keyFilePath dataDir pubkeyHex)))) (\<lambda>enc.
     bindE (wrapE ''decrypt key'' (liftE (DecryptPrivateKey kr (Some enc) passphrase))) (\<lambda>privKey.
     bindE (liftE (KeyPairFromPrivateKey privKey)) (\<lambda>kp.
     seqE (wrapE ''finalize migrated key path''
            (fixMigratedKeyName dataDir kp pubkeyHex (keyFilePath dataDir pubkeyHex)))
    (seqE (ensureIdentityRegistered kp)
    (seqE (SetKey (Some kp))
          (retE kp))))))))"

subsection \<open>Several identities (\<open>holder_multi.go\<close>)\<close>

definition registerIdentityInDB :: "KeyPair \<Rightarrow> (Holder, unit) go" where
  "registerIdentityInDB kp = (\<lambda>h.
     if \<not> ho_hasDB h then (Inr (), h)
     else bindE (okE (hdbE CountIdentities)) (\<lambda>count.
       let isFirst = (case count of Some n \<Rightarrow> \<not> 0 < n | None \<Rightarrow> True) in
       bindE (getE (\<lambda>h. now_ms (ho_db h))) (\<lambda>now.
       seqE (logE (hdbE (InsertIdentity (PublicKeyBytes kp) DefaultDisplayName isFirst now)))
            (whenE isFirst (logE (hdbE (SetActiveIdentity (PublicKeyBytes kp))))))) h)"

definition saveKeyAndRegister ::
  "keyring \<Rightarrow> path \<Rightarrow> goerr + bytes \<Rightarrow> goerr + bytes \<Rightarrow> KeyPair \<Rightarrow> string \<Rightarrow> (Holder, unit) go" where
  "saveKeyAndRegister kr dataDir rndSalt rndNonce kp passphrase =
     bindE (wrapE ''encrypt key'' (liftE (EncryptPrivateKey kr rndSalt rndNonce (kp_PrivateKey kp) passphrase)))
       (\<lambda>enc.
     seqE (wrapE ''create keys directory'' (fsE (osMkdirAll (keysDir dataDir) 448)))
    (seqE (wrapE ''save key'' (fsE (SaveEncryptedKey kr (Some enc)
            (keyFilePath dataDir (EncodeToString (PublicKeyBytes kp))))))
          (registerIdentityInDB kp)))"

definition setActiveInDB :: "bytes \<Rightarrow> (Holder, unit) go" where
  "setActiveInDB pubkey = (\<lambda>h. if \<not> ho_hasDB h then (Inr (), h) else logE (hdbE (SetActiveIdentity pubkey)) h)"

definition activateIdentity :: "path \<Rightarrow> KeyPair \<Rightarrow> (Holder, unit) go" where
  "activateIdentity dataDir kp =
     seqE (logE (writeActivePubkeyHex dataDir (EncodeToString (PublicKeyBytes kp))))
    (seqE (setActiveInDB (PublicKeyBytes kp))
          (SetKey (Some kp)))"

text \<open>\<open>rndMnemonic\<close> is the outcome of the two calls of BIP39, with their errors already wrapped.\<close>

definition CreateAndSave :: "crypto \<Rightarrow> keyring \<Rightarrow> path \<Rightarrow> goerr + string \<Rightarrow> goerr + bytes \<Rightarrow> goerr + bytes
    \<Rightarrow> string \<Rightarrow> (Holder, KeyPair \<times> string) go" where
  "CreateAndSave cr kr dataDir rndMnemonic rndSalt rndNonce passphrase =
     seqE (logE (migrateIfNeeded dataDir))
    (bindE (wrapE ''generate mnemonic'' (liftE rndMnemonic)) (\<lambda>mnemonic.
     bindE (wrapE ''derive seed'' (liftE (MnemonicToSeed kr mnemonic ''''))) (\<lambda>seed.
     bindE (wrapE ''generate key pair'' (liftE (KeyPairFromSeed cr seed))) (\<lambda>kp.
     seqE (saveKeyAndRegister kr dataDir rndSalt rndNonce kp passphrase)
    (seqE (activateIdentity dataDir kp)
          (retE (kp, mnemonic)))))))"

definition ImportAndSave :: "crypto \<Rightarrow> keyring \<Rightarrow> path \<Rightarrow> goerr + bytes \<Rightarrow> goerr + bytes \<Rightarrow> string
    \<Rightarrow> string \<Rightarrow> (Holder, KeyPair) go" where
  "ImportAndSave cr kr dataDir rndSalt rndNonce mnemonic passphrase =
     seqE (logE (migrateIfNeeded dataDir))
     (if \<not> ValidateMnemonic kr mnemonic then throwE (Err ''invalid mnemonic'')
      else bindE (wrapE ''derive seed'' (liftE (MnemonicToSeed kr mnemonic ''''))) (\<lambda>seed.
        bindE (wrapE ''generate key pair'' (liftE (KeyPairFromSeed cr seed))) (\<lambda>kp.
        seqE (saveKeyAndRegister kr dataDir rndSalt rndNonce kp passphrase)
       (seqE (activateIdentity dataDir kp)
             (retE kp)))))"

definition SwitchIdentity :: "keyring \<Rightarrow> path \<Rightarrow> string \<Rightarrow> string \<Rightarrow> (Holder, unit) go" where
  "SwitchIdentity kr dataDir pubkeyHex passphrase =
     (let keyPath = keyFilePath dataDir pubkeyHex in
      bindE (okE (fsE (osStat keyPath))) (\<lambda>info.
      if info = Some None then throwE (Err ''identity key file not found'')
      else bindE (wrapE ''load key'' (fsE (LoadEncryptedKey kr keyPath))) (\<lambda>enc.
        bindE (wrapE ''decrypt key'' (liftE (DecryptPrivateKey kr (Some enc) passphrase))) (\<lambda>privKey.
        bindE (liftE (KeyPairFromPrivateKey privKey)) (\<lambda>kp.
        seqE (wrapE ''failed to update active file'' (writeActivePubkeyHex dataDir pubkeyHex))
       (seqE (case DecodeString pubkeyHex of Inl e \<Rightarrow> retE () | Inr pubkeyBytes \<Rightarrow> setActiveInDB pubkeyBytes)
             (SetKey (Some kp))))))))"

record IdentityInfo =
  ii_PubkeyHex :: string
  ii_Address :: string
  ii_DisplayName :: string
  ii_IsActive :: bool
  ii_CreatedAt :: int

text \<open>\<open>address, _ := PubKeyToAddress(...)\<close>.\<close>

definition addressOr :: "bytes \<Rightarrow> string" where
  "addressOr pubkey = (case PubKeyToAddress pubkey of Inl _ \<Rightarrow> '''' | Inr address \<Rightarrow> address)"

definition listIdentitiesWithoutDB :: "Holder \<Rightarrow> IdentityInfo list" where
  "listIdentitiesWithoutDB h = (case ho_kp h of
      None \<Rightarrow> []
    | Some kp \<Rightarrow> [\<lparr>ii_PubkeyHex = EncodeToString (PublicKeyBytes kp), ii_Address = addressOr (PublicKeyBytes kp),
        ii_DisplayName = DefaultDisplayName, ii_IsActive = True, ii_CreatedAt = 0\<rparr>])"

definition ListIdentities :: "(Holder, IdentityInfo list) go" where
  "ListIdentities = (\<lambda>h.
     if \<not> ho_hasDB h then (Inr (listIdentitiesWithoutDB h), h)
     else bindE (wrapE ''list identities'' (hdbE GetIdentities)) (\<lambda>rows.
       retE (map (\<lambda>row. \<lparr>ii_PubkeyHex = EncodeToString (id_Pubkey row), ii_Address = addressOr (id_Pubkey row),
         ii_DisplayName = id_DisplayName row, ii_IsActive = id_IsActive row,
         ii_CreatedAt = id_CreatedAt row\<rparr>) rows)) h)"

definition ExportIdentity :: "keyring \<Rightarrow> path \<Rightarrow> string \<Rightarrow> (Holder, EncryptedKey) go" where
  "ExportIdentity kr dataDir pubkeyHex =
     wrapE ''load key'' (fsE (LoadEncryptedKey kr (keyFilePath dataDir pubkeyHex)))"

definition ExportActiveIdentity :: "keyring \<Rightarrow> path \<Rightarrow> (Holder, EncryptedKey \<times> string) go" where
  "ExportActiveIdentity kr dataDir =
     bindE (resolveActivePubkey dataDir) (\<lambda>pubkeyHex.
     bindE (ExportIdentity kr dataDir pubkeyHex) (\<lambda>enc. retE (enc, pubkeyHex)))"

text \<open>\<open>render\<close> is \<open>json.MarshalIndent\<close> of the three fields.\<close>

definition MarshalExportIdentity ::
  "(string \<Rightarrow> string \<Rightarrow> EncryptedKey \<Rightarrow> goerr + bytes) \<Rightarrow> string \<Rightarrow> EncryptedKey \<Rightarrow> goerr + bytes \<times> string" where
  "MarshalExportIdentity render pubkeyHex enc = (case DecodeString pubkeyHex of
      Inl e \<Rightarrow> Inl (wrap ''decode pubkey'' e)
    | Inr pubkeyBytes \<Rightarrow>
   (case PubKeyToAddress pubkeyBytes of
      Inl e \<Rightarrow> Inl (wrap ''derive address'' e)
    | Inr address \<Rightarrow>
   (case render pubkeyHex address enc of
      Inl e \<Rightarrow> Inl (wrap ''marshal export identity'' e)
    | Inr body \<Rightarrow> Inr (body, pubkeyHex @ ''.xleaks-key.json''))))"

end
