(* ===== verification/LocalWriters.thy ===== *)
theory LocalWriters
  imports MediaServe Gossip Keystore
begin

text \<open>
  The places of the web pages and of the HTTP interface that write rows themselves, unsigned, beside the
  social services: the repost button (\<open>pkg/web/partials.go\<close>), the profile that every identity gets
  (\<open>pkg/web/handler.go\<close>, \<open>pkg/web/onboarding.go\<close>, \<open>pkg/api/handlers/identity.go\<close>) and the fall-back of the
  profile update (\<open>pkg/api/handlers/profile.go\<close>). A form is the outcome of parsing it; the key pair of the
  session and the one held by the node are arguments. A page that is rendered is its status and its message.
\<close>

section \<open>The repost button\<close>

text \<open>The callback that \<open>cmd/xleaks/setup_web.go\<close> installs: the service with the identity of the node.\<close>

definition webRepostPost :: "ext \<Rightarrow> Service \<Rightarrow> string \<Rightarrow> (Node, string) go" where
  "webRepostPost x sv targetCIDHex = (case DecodeString targetCIDHex of
      Inl e \<Rightarrow> throwE (wrap ''invalid target CID'' e)
    | Inr targetCID \<Rightarrow> bindE (CreateRepost x sv targetCID) (\<lambda>post. retE (EncodeToString (po_Id post))))"

text \<open>The row that marks the post as reposted by the key of the session; its identifier is that of a made-up content.\<close>

definition repostMark :: "ext \<Rightarrow> KeyPair \<Rightarrow> bytes \<Rightarrow> (Node, unit) go" where
  "repostMark x kp targetBytes =
     (let pubkey = PublicKeyBytes kp;
          repostData = stringToBytes ''repost:'' @ pubkey @ targetBytes;
          cid = (case ComputeCID (x_sum x) repostData of Inl _ \<Rightarrow> [] | Inr c \<Rightarrow> c) in
      bindE (getE (\<lambda>n. now_ms (nd_db n))) (\<lambda>now.
        logE (dbE (InsertReaction cid pubkey targetBytes ''repost'' now))))"

definition repostsShown :: "bytes \<Rightarrow> (Node, int reply) go" where
  "repostsShown targetBytes = bindE (okE (dbE (GetFullReactionCounts targetBytes)))
     (\<lambda>r. retE (Replied 200 (case r of None \<Rightarrow> 0 | Some (_, _, reposts) \<Rightarrow> reposts)))"

definition handleRepost ::
  "ext \<Rightarrow> (string \<Rightarrow> (Node, string) go) option \<Rightarrow> KeyPair option \<Rightarrow> goerr + (string \<times> string) list
     \<Rightarrow> (Node, int reply) go" where
  "handleRepost x repostPost session form = (case form of
      Inl e \<Rightarrow> retE (if formBodyTooLarge e then Refused 413 ''Request Entity Too Large'' else Refused 400 ''Bad request'')
    | Inr f \<Rightarrow>
        let target = TrimSpace (firstOf f ''target'') in
        if target = '''' then retE (Refused 400 ''missing target'')
        else case DecodeString target of
            Inl _ \<Rightarrow> retE (Refused 400 ''invalid target'')
          | Inr targetBytes \<Rightarrow> (case session of
                None \<Rightarrow> retE (Refused 401 ''not logged in'')
              | Some kp \<Rightarrow> (case repostPost of
                    None \<Rightarrow> retE (Refused 500 ''reposts not configured'')
                  | Some post \<Rightarrow>
                      bindE (dbE (HasReacted (PublicKeyBytes kp) targetBytes ''repost'')) (\<lambda>already.
                      if already then repostsShown targetBytes
                      else seqE (logE (post target)) (seqE (repostMark x kp targetBytes) (repostsShown targetBytes))))))"

section \<open>The profile of an identity\<close>

text \<open>\<open>ensureProfile\<close> after a login; an error of the look-up counts as no profile.\<close>

definition ensureProfile :: "KeyPair option \<Rightarrow> (Node, unit) go" where
  "ensureProfile active = (case active of
      None \<Rightarrow> retE ()
    | Some kp \<Rightarrow>
        bindE (okE (dbE (GetProfile (PublicKeyBytes kp)))) (\<lambda>r.
        whenE (case r of Some (Some _) \<Rightarrow> False | _ \<Rightarrow> True)
          (bindE (getE (\<lambda>n. now_ms (nd_db n))) (\<lambda>now.
             logE (dbE (UpsertProfile (PublicKeyBytes kp) ''Anonymous'' '''' [] [] '''' 1 now))))))"

text \<open>The profile that \<open>CreateIdentity\<close> and \<open>ImportIdentity\<close> of the HTTP interface write for the new key pair.\<close>

definition defaultProfile :: "KeyPair \<Rightarrow> (Node, unit) go" where
  "defaultProfile kp = bindE (getE (\<lambda>n. now_ms (nd_db n))) (\<lambda>now.
     logE (dbE (UpsertProfile (PublicKeyBytes kp) DefaultDisplayName '''' [] [] '''' 1 now)))"

definition profileValidationMessage :: "goerr \<Rightarrow> string" where
  "profileValidationMessage e =
     (if e = Err ''display_name is required'' then ''display_name is required''
      else if e = Err ''display_name must not exceed 50 characters'' then ''display_name must not exceed 50 characters''
      else if e = Err ''bio must not exceed 500 characters'' then ''bio must not exceed 500 characters''
      else if e = Err ''website must not exceed 200 characters'' then ''website must not exceed 200 characters''
      else ''Invalid profile fields'')"

text \<open>The last page of the onboarding: the key pair of the session, else the unlocked one.\<close>

definition handleSetProfile ::
  "KeyPair option \<Rightarrow> KeyPair option \<Rightarrow> goerr + (string \<times> string) list \<Rightarrow> (Node, string reply) go" where
  "handleSetProfile session active form = (case form of
      Inl e \<Rightarrow> retE (if formBodyTooLarge e then Refused 413 ''Request Entity Too Large'' else Refused 400 ''Bad request'')
    | Inr f \<Rightarrow>
        let name = TrimSpace (firstOf f ''display_name'');
            displayName = (if name = '''' then ''Anonymous'' else name) in
        case ValidateProfileFields displayName '''' '''' of
          Inl e \<Rightarrow> retE (Replied 200 (profileValidationMessage e))
        | Inr _ \<Rightarrow>
            seqE (case (case session of Some kp \<Rightarrow> Some kp | None \<Rightarrow> active) of
                None \<Rightarrow> retE ()
              | Some kp \<Rightarrow> bindE (getE (\<lambda>n. now_ms (nd_db n))) (\<lambda>now.
                  logE (dbE (UpsertProfile (PublicKeyBytes kp) displayName '''' [] [] '''' 2 now))))
              (retE (Replied 303 ''/'')))"

section \<open>The profile update of the HTTP interface\<close>

record updateProfileRequest =
  uq_DisplayName :: string
  uq_DisplayName2 :: string
  uq_Bio :: string
  uq_Website :: string
  uq_AvatarCID :: string
  uq_BannerCID :: string

definition getDisplayName :: "updateProfileRequest \<Rightarrow> string" where
  "getDisplayName r = (if uq_DisplayName r \<noteq> '''' then uq_DisplayName r else uq_DisplayName2 r)"

definition decodeOptionalHexField :: "string \<Rightarrow> string \<Rightarrow> goerr + bytes" where
  "decodeOptionalHexField val field = (if val = '''' then Inr [] else decodeHexField val field)"

text \<open>
  \<open>UpdateProfile\<close>: the service signs and publishes a profile; when that fails for any reason, the row is
  written as it is, without a signature. The answer is the version of the row. The body is the outcome of
  parsing it.
\<close>

definition Handler_UpdateProfile ::
  "ext \<Rightarrow> Service \<Rightarrow> KeyPair option \<Rightarrow> KeyPair option \<Rightarrow> goerr + updateProfileRequest \<Rightarrow> (Node, (64 word) reply) go" where
  "Handler_UpdateProfile x sv active own body = (case currentKeyPair active own of
      None \<Rightarrow> retE (Refused 401 ''identity is locked or not initialized'')
    | Some kp \<Rightarrow>
        orBadRequest body (\<lambda>req.
        orBadRequest (decodeOptionalHexField (uq_AvatarCID req) ''avatar_cid'') (\<lambda>avatarCID.
        orBadRequest (decodeOptionalHexField (uq_BannerCID req) ''banner_cid'') (\<lambda>bannerCID.
        let displayName = getDisplayName req in
        orBadRequest (ValidateProfileFields displayName (uq_Bio req) (uq_Website req)) (\<lambda>_.
        orReply (dbE (ProfileService_GetProfile (PublicKeyBytes kp))) 500 ''failed to load profile'' (\<lambda>existing.
        bindE (okE (case existing of
            None \<Rightarrow> CreateProfile x sv displayName (uq_Bio req) (uq_Website req) avatarCID bannerCID
          | Some _ \<Rightarrow> UpdateProfile x sv displayName (uq_Bio req) (uq_Website req) avatarCID bannerCID)) (\<lambda>profile.
        case profile of
          Some p \<Rightarrow> retE (Replied 200 (pr_Version p))
        | None \<Rightarrow>
            let version = (case existing of None \<Rightarrow> 1 | Some p \<Rightarrow> pr_Version p + 1) in
            bindE (getE (\<lambda>n. now_ms (nd_db n))) (\<lambda>now.
            orReply (dbE (UpsertProfile (PublicKeyBytes kp) displayName (uq_Bio req) avatarCID bannerCID (uq_Website req)
                version now)) 500 ''failed to update profile'' (\<lambda>_. retE (Replied 200 version))))))))))"

section \<open>A repost that failed\<close>

lemma CreateRepost_unknown:
  assumes "db_faults (nd_db n) = (\<lambda>_. None)" "\<not> hasKey p_CID c (posts (nd_db n))"
  shows "\<exists>e n'. CreateRepost x sv c n = (Inl (Err e), n') \<and> nd_published n' = nd_published n \<and>
    nd_db n' = (nd_db n)\<lparr>db_step := db_step (nd_db n')\<rparr>"
proof -
  have none: "rowOf p_CID c (posts (nd_db n)) = None"
    using assms(2) by (simp add: rowOf_None)
  show ?thesis
  proof (cases "activeIdentity (sv_identity sv)")
    case (Inl e)
    then obtain m where "e = Err m" by (auto simp: activeIdentity_def split: option.splits if_splits)
    with Inl show ?thesis by (intro exI [of _ m] exI [of _ n]) (simp add: CreateRepost_def run_bindE)
  next
    case (Inr kp)
    then show ?thesis
      using assms(1) none
      by (intro exI [of _ "''original post not found''"] exI [of _ "n\<lparr>nd_db := tick (nd_db n)\<rparr>"])
         (simp add: CreateRepost_def run_bindE dbE_run PostExists_def queryRowE_def queryE_nofault catchE_def
            ErrNoRows_def tick_def)
  qed
qed

lemma repostsShown_run:
  assumes "db_faults (nd_db n) = (\<lambda>_. None)"
  shows "\<exists>shown n'. repostsShown c n = (Inr (Replied 200 shown), n') \<and> nd_db n' = tick (nd_db n) \<and>
    nd_published n' = nd_published n"
  using assms
  by (cases "rowOf rc_PostCID c (reaction_counts (nd_db n))")
     (simp_all add: repostsShown_def run_bindE okE_def catchE_def dbE_run GetFullReactionCounts_def queryE_nofault)

text \<open>
  C40. The repost button marks what it did not do: for a post that the node does not have, the service
  refuses the repost, yet the page answers 200, no post is stored and nothing is published, and the reaction of
  type \<open>repost\<close> that shows the post as reposted by the key of the session, and that makes every later click
  do nothing, is in the database. (The database does not fail, the key has no such reaction yet, and the
  identifier made for it is not in use.)
\<close>

theorem failed_repost_is_marked:
  assumes "db_faults (nd_db n) = (\<lambda>_. None)"
    and "DecodeString (TrimSpace (firstOf f ''target'')) = Inr c" "c \<noteq> []"
    and "\<not> hasKey p_CID c (posts (nd_db n))"
    and "\<not> hasKey reactionKey (PublicKeyBytes kp, c, ''repost'') (reactions (nd_db n))"
    and "ComputeCID (x_sum x) (stringToBytes ''repost:'' @ PublicKeyBytes kp @ c) = Inr k"
    and "\<not> hasKey r_CID k (reactions (nd_db n))"
  shows "\<exists>shown n'. handleRepost x (Some (webRepostPost x sv)) (Some kp) (Inr f) n = (Inr (Replied 200 shown), n') \<and>
    posts (nd_db n') = posts (nd_db n) \<and> nd_published n' = nd_published n \<and>
    hasKey reactionKey (PublicKeyBytes kp, c, ''repost'') (reactions (nd_db n')) \<and>
    fst (HasReacted (PublicKeyBytes kp) c ''repost'' (nd_db n')) = Inr True"
proof -
  let ?n1 = "n\<lparr>nd_db := tick (nd_db n)\<rparr>"
  let ?row = "\<lparr>r_CID = k, r_Author = PublicKeyBytes kp, r_Target = c, r_ReactionType = ''repost'', r_Timestamp = now_ms (nd_db n)\<rparr>"
  have target: "TrimSpace (firstOf f ''target'') \<noteq> ''''" using assms(2,3) by auto
  have "rowOf reactionKey (PublicKeyBytes kp, c, ''repost'') (reactions (nd_db n)) = None"
    using assms(5) by (simp add: rowOf_None)
  then have asked: "dbE (HasReacted (PublicKeyBytes kp) c ''repost'') n = (Inr False, ?n1)"
    using assms(1) by (simp add: dbE_run HasReacted_def queryRowE_def queryE_nofault run_bindE catchE_def ErrNoRows_def tick_def)
  obtain e n2 where made: "CreateRepost x sv c ?n1 = (Inl (Err e), n2)" "nd_published n2 = nd_published n"
    "nd_db n2 = (nd_db n)\<lparr>db_step := db_step (nd_db n2)\<rparr>"
    using CreateRepost_unknown [of ?n1 c x sv] assms(1,4) by (auto simp: tick_def)
  have post: "logE (webRepostPost x sv (TrimSpace (firstOf f ''target''))) ?n1 = (Inr (), n2)"
    using made(1) assms(2) by (simp add: logE_def webRepostPost_def run_bindE)
  have db2: "db_faults (nd_db n2) = (\<lambda>_. None)" "reactions (nd_db n2) = reactions (nd_db n)"
    "posts (nd_db n2) = posts (nd_db n)" "now_ms (nd_db n2) = now_ms (nd_db n)"
    using assms(1) by (subst made(3), simp)+
  define n3 where "n3 = n2\<lparr>nd_db := (tick (nd_db n2))\<lparr>reactions := reactions (nd_db n) @ [?row]\<rparr>\<rparr>"
  have mark: "repostMark x kp c n2 = (Inr (), n3)"
    using db2 assms(5,6,7)
    by (simp add: repostMark_def run_bindE logE_def dbE_run InsertReaction_def run_wrapE execE_nofault
        stmtInsertReaction_def reactionKey_def Let_def n3_def)
  have "db_faults (nd_db n3) = (\<lambda>_. None)" using db2(1) by (simp add: n3_def)
  then obtain shown n4 where last: "repostsShown c n3 = (Inr (Replied 200 shown), n4)" "nd_db n4 = tick (nd_db n3)"
      "nd_published n4 = nd_published n3"
    using repostsShown_run by blast
  have "handleRepost x (Some (webRepostPost x sv)) (Some kp) (Inr f) n = (Inr (Replied 200 shown), n4)"
    using target assms(2) asked post mark last(1) by (simp add: handleRepost_def run_bindE run_seqE)
  moreover have key: "hasKey reactionKey (PublicKeyBytes kp, c, ''repost'') (reactions (nd_db n4))"
    by (simp add: last(2) n3_def hasKey_def reactionKey_def)
  moreover have "fst (HasReacted (PublicKeyBytes kp) c ''repost'' (nd_db n4)) = Inr True"
  proof -
    obtain r where "rowOf reactionKey (PublicKeyBytes kp, c, ''repost'') (reactions (nd_db n4)) = Some r"
      using key rowOf_None [of reactionKey _ "reactions (nd_db n4)"] by (metis not_None_eq)
    then show ?thesis
      using db2(1) by (simp add: HasReacted_def queryRowE_def queryE_nofault run_bindE catchE_def last(2) n3_def tick_def)
  qed
  ultimately show ?thesis
    using made(2) last(2,3) db2(3) by (intro exI [of _ shown] exI [of _ n4]) (simp add: n3_def)
qed

theorem failed_repost_is_marked_witness:
  "\<exists>shown n'. handleRepost exampleExt (Some (webRepostPost exampleExt \<lparr>sv_identity = None, sv_notifications = False, sv_cas = False\<rparr>))
      (Some \<lparr>kp_PrivateKey = [], kp_PublicKey = replicate 32 1\<rparr>) (Inr [(''target'', ''0a'')]) exampleNode = (Inr (Replied 200 shown), n') \<and>
    fst (HasReacted (replicate 32 1) [10] ''repost'' (nd_db n')) = Inr True"
proof -
  have "DecodeString (TrimSpace (firstOf [(''target'', ''0a'')] ''target'')) = Inr [10]" by code_simp
  moreover have "\<exists>k. ComputeCID (x_sum exampleExt) d = Inr k" for d
    by (simp add: ComputeCID_def exampleExt_def exampleSum_def)
  ultimately show ?thesis
    using failed_repost_is_marked [of exampleNode "[(''target'', ''0a'')]" "[10]"
        "\<lparr>kp_PrivateKey = [], kp_PublicKey = replicate 32 1\<rparr>" exampleExt]
    by (fastforce simp: exampleNode_def emptyDB_def hasKey_def PublicKeyBytes_def)
qed

end
