(* ===== verification/System.thy ===== *)
theory System
  imports SocialProps FeedProps LocalWriters
begin

text \<open>
  The whole node: the messages it receives, the downloads it runs, what its user does through the
  services, the media handlers and the pages that write rows themselves, the maintenance of the content
  store and the synchronisation, in any order and with any outcome, one operation after the other. The
  locale \<open>service_writer\<close> says what the storage has to keep for the operations of the services to keep
  it, \<open>local_writer\<close> what for the rows written without a signature; \<open>system_invariant\<close> adds the messages
  and gives the invariants of every reachable state. What concurrent operations do to the counters, whose
  statements can fall between one another, is the subject of Recount.
\<close>

section \<open>Operations of a node\<close>

text \<open>
  The callbacks into the network of the synchronisation are the record \<open>network\<close>; the repository
  operations that the HTTP handlers call directly are \<open>NIdentity\<close> to \<open>NDMRead\<close>; \<open>NUpload\<close> to \<open>NStatus\<close>
  are the media handlers, \<open>NRepost\<close> to \<open>NPutProfile\<close> the unsigned writers of LocalWriters, \<open>NBackfill\<close>
  the pinning at the start of the node.
\<close>

record 'img network =
  nw_mhDecode :: "bytes \<Rightarrow> bool"
  nw_discover :: "(string \<Rightarrow> goerr + string list) option"
  nw_fetch :: "(string \<Rightarrow> goerr + bytes) option"
  nw_media :: "'img media_env"

type_synonym webForm = "goerr + (string \<times> string) list"

datatype nodeOp =
    NMessage bytes
  | NJob MediaObject
  | NCreatePost Service string "bytes list" bytes
  | NCreateRepost Service bytes
  | NCreateReaction Service "KeyPair option" bytes
  | NCreateProfile Service "KeyPair option" string string string bytes bytes
  | NUpdateProfile Service "KeyPair option" string string string bytes bytes
  | NFollow "KeyPair option" bytes
  | NUnfollow "KeyPair option" bytes
  | NSendDM "goerr + bytes" Service "KeyPair option" bytes string
  | NReload bytes
  | NPin bytes
  | NUnpin bytes
  | NReplicate bytes
  | NEvictStale int
  | NEvict int int
  | NSync "nat \<Rightarrow> bool" bytes
  | NIdentity bytes string bool int
  | NActivate bytes
  | NAcceptTerms bytes string
  | NReadAll bytes
  | NRead bytes int
  | NDMRead bytes
  | NUpload MediaHandler "int \<Rightarrow> multipart"
  | NMedia exchange string
  | NThumbnail int exchange string
  | NStatus exchange string
  | NRepost Service "KeyPair option" webForm
  | NEnsureProfile "KeyPair option"
  | NDefaultProfile KeyPair
  | NSetProfile "KeyPair option" "KeyPair option" webForm
  | NPutProfile Service "KeyPair option" "KeyPair option" "goerr + updateProfileRequest"
  | NBackfill

definition voidE :: "('s, 'a) go \<Rightarrow> ('s, unit) go" where
  "voidE m = bindE m (\<lambda>_. retE ())"

text \<open>A started download runs once.\<close>

definition runJob :: "fetchers \<Rightarrow> MediaObject \<Rightarrow> (Node, unit) go" where
  "runJob ft m = bindE (getE nd_jobs) (\<lambda>jobs.
     whenE (m \<in> set jobs)
       (seqE (modifyE (\<lambda>n. n\<lparr>nd_jobs := remove1 m (nd_jobs n)\<rparr>)) (prefetchJob ft m)))"

fun runNodeOp :: "ext \<Rightarrow> crypto \<Rightarrow> fetchers \<Rightarrow> 'img network \<Rightarrow> nodeOp \<Rightarrow> (Node, unit) go" where
  "runNodeOp x cr ft nw (NMessage d) = HandleMessage x ft d"
| "runNodeOp x cr ft nw (NJob m) = runJob ft m"
| "runNodeOp x cr ft nw (NCreatePost sv t ms rt) = voidE (CreatePost x sv t ms rt)"
| "runNodeOp x cr ft nw (NCreateRepost sv c) = voidE (CreateRepost x sv c)"
| "runNodeOp x cr ft nw (NCreateReaction sv kp c) = voidE (CreateReactionAs x sv kp c)"
| "runNodeOp x cr ft nw (NCreateProfile sv kp dn b w av bn) = voidE (CreateProfileAs x sv kp dn b w av bn)"
| "runNodeOp x cr ft nw (NUpdateProfile sv kp dn b w av bn) = voidE (UpdateProfileAs x sv kp dn b w av bn)"
| "runNodeOp x cr ft nw (NFollow kp t) = voidE (FollowAs x kp t)"
| "runNodeOp x cr ft nw (NUnfollow kp t) = voidE (UnfollowAs x kp t)"
| "runNodeOp x cr ft nw (NSendDM rnd sv kp r t) = voidE (SendDMAs x cr rnd sv kp r t)"
| "runNodeOp x cr ft nw (NReload k) = ReloadSubscriptions k"
| "runNodeOp x cr ft nw (NPin c) = PinContent c"
| "runNodeOp x cr ft nw (NUnpin c) = UnpinContent c"
| "runNodeOp x cr ft nw (NReplicate k) = FetchMissingContent x (nw_mhDecode nw) (nw_fetch nw) k"
| "runNodeOp x cr ft nw (NEvictStale mb) = EvictStaleContent mb"
| "runNodeOp x cr ft nw (NEvict target mb) = checkAndEvict (\<lambda>_. target) mb"
| "runNodeOp x cr ft nw (NSync cancelled k) =
     SyncPublisher x (nw_mhDecode nw) (nw_discover nw) (nw_fetch nw) cancelled k"
| "runNodeOp x cr ft nw (NIdentity k dn act t) = dbE (InsertIdentity k dn act t)"
| "runNodeOp x cr ft nw (NActivate k) = dbE (SetActiveIdentity k)"
| "runNodeOp x cr ft nw (NAcceptTerms k v) = dbE (AcceptTerms k v)"
| "runNodeOp x cr ft nw (NReadAll k) = dbE (MarkAllRead k)"
| "runNodeOp x cr ft nw (NRead k i) = dbE (MarkRead k i)"
| "runNodeOp x cr ft nw (NDMRead c) = dbE (MarkDMRead c)"
| "runNodeOp x cr ft nw (NUpload h body) = voidE (UploadMedia x (nw_media nw) h body)"
| "runNodeOp x cr ft nw (NMedia ce c) = voidE (GetMedia ce (me_temp (nw_media nw)) c)"
| "runNodeOp x cr ft nw (NThumbnail q ce c) = voidE (GetMediaThumbnail x (nw_media nw) q ce c)"
| "runNodeOp x cr ft nw (NStatus ce c) = voidE (GetMediaStatus (nw_media nw) ce c)"
| "runNodeOp x cr ft nw (NRepost sv kp form) = voidE (handleRepost x (Some (webRepostPost x sv)) kp form)"
| "runNodeOp x cr ft nw (NEnsureProfile kp) = ensureProfile kp"
| "runNodeOp x cr ft nw (NDefaultProfile kp) = defaultProfile kp"
| "runNodeOp x cr ft nw (NSetProfile kp active form) = voidE (handleSetProfile kp active form)"
| "runNodeOp x cr ft nw (NPutProfile sv active own body) = voidE (Handler_UpdateProfile x sv active own body)"
| "runNodeOp x cr ft nw NBackfill = dbE backfillPinnedContent"

text \<open>
  \<open>sysReach F\<close>: the states reached from an empty node whose database fails as \<open>F\<close> says, the clock, the
  validators' variables and the settings changing in between in any way.
\<close>

inductive sysReach ::
  "ext \<Rightarrow> crypto \<Rightarrow> fetchers \<Rightarrow> 'img network \<Rightarrow> (nat \<Rightarrow> goerr option) \<Rightarrow> Node \<Rightarrow> bool" for x cr ft nw F where
  init: "nd_db n = emptyDB\<lparr>now_ms := t, db_faults := F\<rparr> \<Longrightarrow> sysReach x cr ft nw F n"
| op: "sysReach x cr ft nw F n \<Longrightarrow> runNodeOp x cr ft nw op n = (r, n') \<Longrightarrow> sysReach x cr ft nw F n'"
| environment: "sysReach x cr ft nw F n \<Longrightarrow>
    sysReach x cr ft nw F (n\<lparr>nd_db := (nd_db n)\<lparr>now_ms := t\<rparr>, nd_nanos := ns, nd_globals := g,
      nd_autoFetchMedia := b, nd_publisher := p\<rparr>)"

section \<open>The contract of the local operations\<close>

locale service_writer = people_writer I x for I :: "DB \<Rightarrow> bool" and x :: ext +
  assumes storePostTx: "po_ReplyTo p = rt \<Longrightarrow> po_RepostOf p = [] \<Longrightarrow>
      keeps I (WithTransaction (storePostTx p ms rt))"
    and storeRepostTx: "po_ReplyTo p = [] \<Longrightarrow> po_RepostOf p = oc \<Longrightarrow>
      keeps I (WithTransaction (storeRepostTx p oc))"
    and storeReactionTx: "re_Target r = tg \<Longrightarrow> keeps I (WithTransaction (storeReactionTx r tg))"
    and storeDM: "keeps I (InsertDM c a rc en nc ts)"
    and subscribe: "keeps I (AddSubscription ow k ts)" "keeps I (RemoveSubscription ow k)"
      "keeps I (MarkSyncCompleted ow k)"
    and access: "keeps I (SetContentPinned c b)" "keeps I (DeleteContentAccess c)"
      "keeps I (SetPinnedForAuthor a b)"
    and identity: "keeps I (InsertIdentity k dn b ts)" "keeps I (SetActiveIdentity k)"
      "keeps I (AcceptTerms k v)"
    and reading: "keeps I (MarkAllRead k)" "keeps I (MarkRead k i)" "keeps I (MarkDMRead c)"
begin

lemma steady_query: "keeps I (queryE q)" "keeps I (queryRowE q')"
  by (rule keeps_queryE [OF steady]) (rule keeps_queryRowE [OF steady])

lemma topic: "keeps (onDB I) (topicE isSet b k)"
  by (rule keepsI) (auto simp: topicE_def onDB_def Let_def split: if_splits option.splits)

lemma subscribers: "keeps (onDB I) (modifyE (\<lambda>n. n\<lparr>nd_subscribers := f n\<rparr>))"
  by (rule keeps_modifyE) (simp add: onDB_def)

lemmas local_steps = steps keeps_intro subscribe access topic subscribers steady_query

lemma notifyParent: "keeps (onDB I) (notifyParent p r)"
  unfolding notifyParent_def by (intro local_steps)

lemma CreatePost: "keeps (onDB I) (CreatePost x sv body ms rt)"
  unfolding CreatePost_def
  by (rule keeps_bindE [OF keeps_liftE], rule keeps_seqE [OF keeps_liftE],
      rule keeps_bindE [OF keeps_getE], rule keeps_bind_fact [OF keeps_sealPost],
      erule sealPost_keeps_fields, rule keeps_seqE [OF keeps_dbE [OF storePostTx]], simp, simp,
      intro local_steps notifyParent)

lemma CreateRepost: "keeps (onDB I) (CreateRepost x sv oc)"
  unfolding CreateRepost_def
  by (rule keeps_bindE [OF keeps_liftE], rule keeps_bindE, intro steps, rule keeps_if,
      rule keeps_throwE, rule keeps_bindE [OF keeps_getE], rule keeps_bind_fact [OF keeps_sealPost],
      erule sealPost_keeps_fields, rule keeps_seqE [OF keeps_dbE [OF storeRepostTx]], simp, simp,
      intro local_steps)

lemma CreateReactionAs: "keeps (onDB I) (CreateReactionAs x sv kpo tg)"
proof -
  have "keeps (onDB I) (createReactionWith x sv kp tg)" for kp
    unfolding createReactionWith_def Let_def
    by (rule keeps_bindE [OF keeps_getE] keeps_bindE [OF keeps_wrapE [OF keeps_liftE]])+
       (rule keeps_seqE [OF keeps_persistE], rule keeps_seqE [OF keeps_dbE [OF storeReactionTx]], simp,
        intro local_steps)
  then show ?thesis unfolding CreateReactionAs_def by (intro keeps_intro)
qed

lemma SendDMAs: "keeps (onDB I) (SendDMAs x cr rnd sv kpo r t)"
  unfolding SendDMAs_def sendDMWith_def Let_def by (intro local_steps storeDM)

lemma signAndStoreProfile: "keeps (onDB I) (signAndStoreProfile x sv kp p0)"
  unfolding signAndStoreProfile_def Let_def
  by (rule keeps_bindE [OF keeps_wrapE [OF keeps_liftE]], rule keeps_bindE [OF keeps_wrapE [OF keeps_liftE]],
      rule keeps_checked, drule acceptedI(3) [unfolded verifySignature_def],
      (intro local_steps UpsertProfile; assumption)+)

lemma GetProfile: "keeps (onDB I) (dbE (GetProfile k))"
  unfolding GetProfile_def by (intro local_steps)

lemma profiles:
  "keeps (onDB I) (CreateProfileAs x sv kpo dn b w av bn)"
  "keeps (onDB I) (UpdateProfileAs x sv kpo dn b w av bn)"
  unfolding CreateProfileAs_def UpdateProfileAs_def createProfileWith_def updateProfileWith_def Let_def
  by (intro keeps_intro GetProfile signAndStoreProfile)+

lemma changeFollowState: "keeps (onDB I) (changeFollowState x kp tg act)"
proof -
  have m: "keeps (onDB I) (Manager_Follow a k ts)" "keeps (onDB I) (Manager_Unfollow a k)" for a k ts
    unfolding Manager_Follow_def Manager_Unfollow_def Let_def by (intro local_steps)+
  show ?thesis
    unfolding changeFollowState_def Let_def
    by (rule keeps_bindE [OF keeps_getE], rule keeps_bindE [OF keeps_wrapE [OF keeps_liftE]],
        rule keeps_bindE [OF keeps_wrapE [OF keeps_liftE]],
        rule keeps_checked, drule acceptedI(4) [unfolded verifySignature_def],
        (intro local_steps m InsertFollowEvent; assumption)+)
qed

lemma follows: "keeps (onDB I) (FollowAs x kpo tg)" "keeps (onDB I) (UnfollowAs x kpo tg)"
  unfolding FollowAs_def UnfollowAs_def by (intro keeps_intro changeFollowState)+

lemma ReloadSubscriptions: "keeps (onDB I) (ReloadSubscriptions k)"
  unfolding ReloadSubscriptions_def GetSubscriptions_def Let_def by (intro local_steps)

lemma fetchAndStore: "keeps (onDB I) (fetchAndStore x md f c)"
  unfolding fetchAndStore_def by (intro local_steps)

lemma FetchMissingContent: "keeps (onDB I) (FetchMissingContent x md f k)"
  unfolding FetchMissingContent_def GetPostsByAuthor_def by (intro local_steps fetchAndStore)

lemma SyncPublisher: "keeps (onDB I) (SyncPublisher x md dc f cn k)"
proof -
  have "keeps (onDB I) (case r of Inl e \<Rightarrow> retE False | Inr c \<Rightarrow> casE (\<lambda>b. Has b c))"
    for r :: "goerr + bytes"
    by (cases r) (auto intro: keeps_intro)
  then have "keeps (onDB I) (syncItem x md g cn item)" for g item
    unfolding syncItem_def by (intro local_steps fetchAndStore)
  then show ?thesis unfolding SyncPublisher_def MarkSyncComplete_def by (intro local_steps)
qed

lemma evictOne: "keeps (onDB I) (evictOne c)"
  unfolding evictOne_def by (intro local_steps)

lemma LRU: "keeps (onDB I) (dbE (GetLRUContent m))"
  unfolding GetLRUContent_def by (intro local_steps)

lemma evictRound: "keeps (onDB I) evictRound"
  unfolding evictRound_def by (intro keeps_intro LRU evictOne)

lemma runJob: "keeps (onDB I) (runJob ft m)"
proof -
  have "keeps (onDB I) (modifyE (\<lambda>n. n\<lparr>nd_jobs := f n\<rparr>))" for f
    by (rule keeps_modifyE) (simp add: onDB_def)
  then show ?thesis unfolding runJob_def by (intro keeps_intro prefetchJob)
qed

lemma voidE: "keeps (onDB I) m \<Longrightarrow> keeps (onDB I) (voidE m)"
  unfolding voidE_def by (intro keeps_intro)

end

lemma keeps_case_sum [keeps_intro]:
  "(\<And>e. keeps I (f e)) \<Longrightarrow> (\<And>v. keeps I (g v)) \<Longrightarrow> keeps I (case r of Inl e \<Rightarrow> f e | Inr v \<Rightarrow> g v)"
  by (simp split: sum.splits)

lemma keeps_case_list [keeps_intro]:
  "keeps I m \<Longrightarrow> (\<And>y ys. keeps I (g y ys)) \<Longrightarrow> keeps I (case l of [] \<Rightarrow> m | y # ys \<Rightarrow> g y ys)"
  by (simp split: list.splits)

lemma keeps_orReply [keeps_intro]:
  "keeps I m \<Longrightarrow> (\<And>v. keeps I (k v)) \<Longrightarrow> keeps I (orReply m st msg k)"
  unfolding orReply_def by (intro keeps_intro; assumption)

lemma keeps_orBadRequest [keeps_intro]: "(\<And>v. keeps I (k v)) \<Longrightarrow> keeps I (orBadRequest r k)"
  unfolding orBadRequest_def by (auto intro: keeps_intro split: sum.splits goerr.splits)

text \<open>The rows that are written without a message: media rows, profiles and the marks of reposts.\<close>

locale local_writer = service_writer I x for I :: "DB \<Rightarrow> bool" and x :: ext +
  assumes mediaRow: "keeps I (InsertMediaObject c a mt sz n w h du th ts)"
    and profileRow: "keeps I (UpsertProfile k dn bi av bn ws v ts)"
    and markRow: "keeps I (InsertReaction c a tg ''repost'' ts)"
begin

lemmas media_steps = local_steps keeps_intro

lemma publishMedia: "keeps (onDB I) (PublishMediaObject x m)"
proof -
  have "keeps (onDB I) (publishE t d)" for t d
    by (rule keepsI) (auto simp: publishE_def onDB_def Let_def split: option.splits)
  then show ?thesis unfolding PublishMediaObject_def publishEnvelope_def by (intro media_steps)
qed

lemma checkMedia: "keeps (onDB I) (checkE v)"
  unfolding checkE_def by (rule keepsI) (auto split: option.splits)

lemma signMediaObject: "keeps (onDB I) (signMediaObject x kp c mt chunks th w h du ts sz)"
  unfolding signMediaObject_def Let_def by (intro media_steps checkMedia)

lemma recordMedia:
  "(\<And>u. keeps (onDB I) (k u)) \<Longrightarrow> keeps (onDB I) (recordMedia c kp mt sz chunks w h th ts k)"
  unfolding recordMedia_def by (intro media_steps mediaRow; assumption)

lemma inspectImage:
  "(\<And>d. keeps (onDB I) (k d)) \<Longrightarrow> keeps (onDB I) (inspectImage env mt p k)"
  unfolding inspectImage_def by (intro media_steps; assumption)

lemma storeThumbnail: "keeps (onDB I) (storeThumbnail x env p mt q)"
  unfolding storeThumbnail_def by (intro media_steps)

lemma UploadMedia: "keeps (onDB I) (UploadMedia x env h body)"
proof -
  have "keeps (onDB I) (storeUpload x env h kp up)" for kp up
    unfolding storeUpload_def Let_def
    by (cases "ValidateMediaType (DetectContentType (su_Sniff up))")
       (simp_all add: keeps_retE, intro inspectImage media_steps storeThumbnail recordMedia signMediaObject publishMedia)
  then show ?thesis unfolding UploadMedia_def Let_def by (intro media_steps)
qed

lemma openContent: "keeps (onDB I) (openContent ce tmp c)"
  unfolding openContent_def openStoredContent_def trackContentAccess_def cacheFetchedContent_def openFetched_def tryE_def
  by (intro media_steps)

lemma withSource:
  "keeps (onDB I) m \<Longrightarrow> (\<And>s. keeps (onDB I) (k s)) \<Longrightarrow> keeps (onDB I) (withSource m st msg k)"
  unfolding withSource_def closeSource_def by (intro media_steps; assumption)

lemma detectContentType: "keeps (onDB I) (detectContentType s f)"
  unfolding detectContentType_def seekE_def by (intro media_steps)

lemma readRow: "keeps (onDB I) (mediaRow c)"
  unfolding mediaRow_def GetMediaObject_def by (intro media_steps)

lemma makeThumbnail: "keeps (onDB I) (makeThumbnail x env q ce c m)"
  unfolding makeThumbnail_def by (intro withSource openContent media_steps detectContentType)

lemma serving:
  "keeps (onDB I) (GetMedia ce tmp p)" "keeps (onDB I) (GetMediaThumbnail x env q ce p)"
  "keeps (onDB I) (GetMediaStatus env ce p)"
  unfolding GetMedia_def GetMediaThumbnail_def GetMediaStatus_def Let_def closeSource_def
  by (intro withSource openContent media_steps detectContentType readRow makeThumbnail)+

lemma handleRepost: "keeps (onDB I) (handleRepost x (Some (webRepostPost x sv)) kp form)"
proof -
  have "keeps (onDB I) (webRepostPost x sv t)" for t
    unfolding webRepostPost_def by (intro media_steps CreateRepost)
  moreover have "keeps (onDB I) (repostMark x k t)" for k t
    unfolding repostMark_def Let_def by (intro media_steps markRow)
  moreover have "keeps (onDB I) (repostsShown t)" for t
    unfolding repostsShown_def GetFullReactionCounts_def by (intro media_steps)
  moreover have "keeps I (HasReacted a t ''repost'')" for a t
    unfolding HasReacted_def by (intro media_steps)
  ultimately show ?thesis unfolding handleRepost_def Let_def option.case by (intro media_steps)
qed

lemma writeProfiles:
  "keeps (onDB I) (ensureProfile kp)" "keeps (onDB I) (defaultProfile kp')"
  "keeps (onDB I) (handleSetProfile kp kp2 form)"
  unfolding ensureProfile_def defaultProfile_def handleSetProfile_def Let_def
  by (intro media_steps GetProfile profileRow)+

lemma readProfile: "keeps (onDB I) (dbE (ProfileService_GetProfile k))"
  unfolding ProfileService_GetProfile_def GetProfile_def by (intro local_steps)

lemma serviceProfiles:
  "keeps (onDB I) (CreateProfile x sv dn b w av bn)" "keeps (onDB I) (UpdateProfile x sv dn b w av bn)"
  unfolding CreateProfile_def UpdateProfile_def createProfileWith_def updateProfileWith_def Let_def
  by (intro keeps_intro GetProfile signAndStoreProfile)+

lemma Handler_UpdateProfile: "keeps (onDB I) (Handler_UpdateProfile x sv active own body)"
  unfolding Handler_UpdateProfile_def Let_def by (intro keeps_intro keeps_dbE readProfile serviceProfiles profileRow)

lemma backfillPinnedContent: "keeps (onDB I) (dbE backfillPinnedContent)"
  unfolding backfillPinnedContent_def GetIdentities_def GetSubscriptions_def by (intro local_steps)

lemma runNodeOp:
  assumes "\<And>d. keeps (onDB I) (HandleMessage x ft d)"
  shows "keeps (onDB I) (runNodeOp x cr ft nw op)"
  using assms
  by (cases op)
     (simp_all add: voidE CreatePost CreateRepost CreateReactionAs profiles follows SendDMAs runJob
       ReloadSubscriptions PinContent_def UnpinContent_def keeps_wrapE keeps_dbE access
       FetchMissingContent EvictStaleContent_def keeps_bindE LRU keeps_forE evictOne
       keeps_checkAndEvict [OF evictRound]
       SyncPublisher identity reading UploadMedia serving handleRepost writeProfiles Handler_UpdateProfile
       backfillPinnedContent)

end

locale system_invariant = local_writer I x for I :: "DB \<Rightarrow> bool" and x :: ext +
  fixes F :: "nat \<Rightarrow> goerr option"
  assumes messages: "keeps (onDB I) (HandleMessage x ft d)"
    and initial: "I (emptyDB\<lparr>now_ms := t, db_faults := F\<rparr>)"
    and clock: "I db \<Longrightarrow> I (db\<lparr>now_ms := t\<rparr>)"
begin

lemma reachable: "sysReach x cr ft nw F n \<Longrightarrow> I (nd_db n)"
proof (induction rule: sysReach.induct)
  case (init n t)
  then show ?case by (simp only: initial)
next
  case (op n oper r n')
  then have "onDB I n" by (simp add: onDB_def)
  with op.hyps(2) keepsD [OF runNodeOp [OF messages]] have "onDB I n'" by blast
  then show ?case by (simp add: onDB_def)
next
  case (environment n t ns g b p)
  then show ?case by (simp add: clock)
qed

end

section \<open>Interpretations\<close>

text \<open>Frames of the operations that only local actions use, in the manner of \<open>keeps_frame\<close>.\<close>

lemma keeps_frame_local:
  assumes st: "steady I"
  shows
    "(\<And>db t. I db \<Longrightarrow> I (db\<lparr>subscriptions := t\<rparr>)) \<Longrightarrow> keeps I (AddSubscription ow k ts)"
    "(\<And>db t. I db \<Longrightarrow> I (db\<lparr>subscriptions := t\<rparr>)) \<Longrightarrow> keeps I (RemoveSubscription ow k)"
    "(\<And>db t. I db \<Longrightarrow> I (db\<lparr>subscriptions := t\<rparr>)) \<Longrightarrow> keeps I (MarkSyncCompleted ow k)"
    "(\<And>db t. I db \<Longrightarrow> I (db\<lparr>content_access := t\<rparr>)) \<Longrightarrow> keeps I (SetContentPinned c b)"
    "(\<And>db t. I db \<Longrightarrow> I (db\<lparr>content_access := t\<rparr>)) \<Longrightarrow> keeps I (DeleteContentAccess c)"
    "(\<And>db t. I db \<Longrightarrow> I (db\<lparr>content_access := t\<rparr>)) \<Longrightarrow> keeps I (SetPinnedForAuthor a b)"
    "(\<And>db t. I db \<Longrightarrow> I (db\<lparr>identities := t\<rparr>)) \<Longrightarrow> keeps I (InsertIdentity k dn b ts)"
    "(\<And>db t. I db \<Longrightarrow> I (db\<lparr>identities := t\<rparr>)) \<Longrightarrow> keeps I (SetActiveIdentity k)"
    "(\<And>db t. I db \<Longrightarrow> I (db\<lparr>terms_acceptance := t\<rparr>)) \<Longrightarrow> keeps I (AcceptTerms k v)"
    "(\<And>db t. I db \<Longrightarrow> I (db\<lparr>direct_messages := t\<rparr>)) \<Longrightarrow> keeps I (MarkDMRead c)"
  unfolding AddSubscription_def RemoveSubscription_def MarkSyncCompleted_def SetContentPinned_def
    DeleteContentAccess_def SetPinnedForAuthor_def InsertIdentity_def SetActiveIdentity_def
    AcceptTerms_def MarkDMRead_def
  by (intro keeps_intro keeps_WithTransaction [OF st] keeps_queryE [OF st] keeps_execE [OF st];
      auto simp: stmtPinAll_def)+

lemma keeps_frame_tx:
  assumes st: "steady I" and "\<And>db t. I db \<Longrightarrow> I (db\<lparr>posts := t\<rparr>)" "\<And>db t. I db \<Longrightarrow> I (db\<lparr>reactions := t\<rparr>)"
    "\<And>db t. I db \<Longrightarrow> I (db\<lparr>post_tags := t\<rparr>)" "\<And>db t. I db \<Longrightarrow> I (db\<lparr>post_media := t\<rparr>)"
    "\<And>db t. I db \<Longrightarrow> I (db\<lparr>reaction_counts := t\<rparr>)"
  shows "keeps I (WithTransaction (storePostTx p ms rt))" "keeps I (WithTransaction (storeRepostTx p oc))"
    "keeps I (WithTransaction (storeReactionTx r tg))"
  unfolding storePostTx_def storeRepostTx_def storeReactionTx_def InsertPostTx_def InsertPostTagsTx_def
    InsertPostMediaTx_def InsertReactionTx_def UpdateReactionCountTx_def
  by (intro keeps_WithTransaction [OF st] keeps_intro keeps_queryE [OF st] keeps_execE [OF st];
      use assms in \<open>auto simp: stmtInsertPost_def stmtInsertTags_def stmtInsertPostMedia_def
        stmtInsertReaction_def stmtUpsertCounts_def Let_def split: if_splits\<close>)+

lemma storePostTx_dbInv:
  "keeps dbInv (WithTransaction (storePostTx p ms rt))"
  "keeps dbInv (WithTransaction (storeRepostTx p oc))"
  "keeps dbInv (WithTransaction (storeReactionTx r tg))"
  unfolding storePostTx_def storeRepostTx_def storeReactionTx_def
  by (intro keeps_WithTransaction [OF steady_dbInv] keeps_intro db_keeps)+

interpretation sys_wellformed: system_invariant dbInv x F for x F
  by unfold_locales
     (simp_all add: storePostTx_dbInv db_keeps wellformed.HandleMessage,
      simp_all add: dbInv_def emptyDB_def)

lemma markRow_exact: "keeps (exactBut {}) (InsertReaction c a tg ''repost'' ts)"
  unfolding InsertReaction_def
  by (intro keeps_wrapE keeps_execE [OF steady_exactBut])
     (auto simp: stmtInsertReaction_def Let_def exactBut_def exactFor_def nofault_def countLikes_def
        countReplies_def countReposts_def split: if_splits)

lemma reading_noSelf: "keeps noSelf (MarkAllRead k)" "keeps noSelf (MarkRead k i)"
  unfolding MarkAllRead_def MarkRead_def
  by (intro keeps_intro keeps_execE [OF steady_noSelf]; fastforce simp: noSelf_def)+

lemma noSelf_initial: "noSelf (emptyDB\<lparr>now_ms := t, db_faults := F\<rparr>)"
  by (simp add: noSelf_def emptyDB_def)

interpretation sys_others: system_invariant noSelf x F for x F
  by unfold_locales
     (simp_all add: others.HandleMessage reading_noSelf noSelf_initial others.clock,
      ((rule keeps_frame [OF steady_noSelf] keeps_frame_local [OF steady_noSelf]
          keeps_frame_tx [OF steady_noSelf]); simp add: noSelf_def)+)

lemma keeps_exactBut:
  "keeps (exactOff {}) m \<Longrightarrow> keeps (\<lambda>db. db_faults db = (\<lambda>_. None)) m \<Longrightarrow> keeps (exactBut {}) m"
  by (simp add: keeps_def exactBut_def exactOff_def nofault_def)

lemma reading_exact: "keeps (exactBut {}) (MarkAllRead k)" "keeps (exactBut {}) (MarkRead k i)"
  unfolding MarkAllRead_def MarkRead_def
  by (intro keeps_intro keeps_execE [OF steady_exactBut], drule sum.inject(2) [THEN iffD1], hypsubst,
      erule exactBut_frameD; simp)+

lemma transactions_exact:
  "po_ReplyTo p = rt \<Longrightarrow> po_RepostOf p = [] \<Longrightarrow> keeps (exactBut {}) (WithTransaction (storePostTx p ms rt))"
  "po_ReplyTo p = [] \<Longrightarrow> po_RepostOf p = oc \<Longrightarrow> keeps (exactBut {}) (WithTransaction (storeRepostTx p oc))"
  "re_Target r = tg \<Longrightarrow> keeps (exactBut {}) (WithTransaction (storeReactionTx r tg))"
proof -
  note sched = keeps_frame_tx [OF steady_schedule]
  have tx: "keeps (exactBut {}) (WithTransaction fn)"
    if "inTx (exactOff {}) fn (\<lambda>_. exactOff {})" "keeps (\<lambda>db. db_faults db = (\<lambda>_. None)) (WithTransaction fn)"
    for fn
    using keeps_triple [OF WithTransaction_triple [OF steady_exactOff steady_exactOff that(1)]] that(2)
    by (rule keeps_exactBut)
  show "keeps (exactBut {}) (WithTransaction (storePostTx p ms rt))"
    if "po_ReplyTo p = rt" "po_RepostOf p = []"
    using that by (intro tx storePostTx_exact sched) simp_all
  show "keeps (exactBut {}) (WithTransaction (storeRepostTx p oc))"
    if "po_ReplyTo p = []" "po_RepostOf p = oc"
    using that by (intro tx storeRepostTx_exact sched) simp_all
  show "keeps (exactBut {}) (WithTransaction (storeReactionTx r tg))" if "re_Target r = tg"
    using that by (intro tx storeReactionTx_exact sched) simp_all
qed

interpretation sys_counters: system_invariant "exactBut {}" x "\<lambda>_. None" for x
proof (unfold_locales)
  show "exactBut {} (emptyDB\<lparr>now_ms := t, db_faults := \<lambda>_. None\<rparr>)" for t
    by (simp add: exactBut_def nofault_def exactFor_def storedCounts_def emptyDB_def rowOf_def
        countLikes_def countReplies_def countReposts_def countRows_def)
  show "exactBut {} (db\<lparr>now_ms := t\<rparr>)" if "exactBut {} db" for db t
    using that by (rule exactBut_frameD) simp_all
qed (simp_all only: transactions_exact reading_exact HandleMessage_exact markRow_exact,
     ((rule keeps_frame [OF steady_exactBut] keeps_frame_local [OF steady_exactBut]);
      erule exactBut_frameD; simp)+)

section \<open>Properties\<close>

text \<open>
  C2. A node does not notify its user of the user's own action: in every state that it reaches from an empty
  database, by messages from the network, downloads, posts, reposts, reactions, profiles, follows and direct
  messages of its users, uploads and requests for media, the pages and handlers that write rows themselves,
  eviction and synchronisation, one after the other in any order, whatever is received and whatever fails,
  every notification has an owner, who is not its actor.
\<close>

theorem never_notifies_self:
  assumes "sysReach x cr ft nw F n"
  shows "\<forall>nt\<in>set (notifications (nd_db n)). \<exists>owner. n_OwnerPubkey nt = Some owner \<and> owner \<noteq> n_Actor nt"
  using sys_others.reachable [OF assms] by (simp add: noSelf_def)

text \<open>
  The constraints of the schema hold in these states as well. SQLite enforces them, and so do the statements of
  PostsRepo and PeopleRepo: this says that the model is consistent, and nothing of the code.
\<close>

lemma system_keeps_schema: "sysReach x cr ft nw F n \<Longrightarrow> dbInv (nd_db n)"
  by (rule sys_wellformed.reachable)

definition exampleNetwork :: "nat network" where
  "exampleNetwork = \<lparr>nw_mhDecode = (\<lambda>_. True), nw_discover = None, nw_fetch = None,
     nw_media = \<lparr>me_decodeConfig = (\<lambda>_. Inl (Err ''format'')), me_decode = (\<lambda>_. Inl (Err ''format'')), me_bounds = (\<lambda>i. (1, 1)),
       me_scale = (\<lambda>_ _ i. i), me_jpeg = (\<lambda>_ _. Inl (Err ''jpeg'')), me_placeholder = 0, me_tooLarge = (\<lambda>_. False),
       me_temp = [''tmp'']\<rparr>\<rparr>"

text \<open>The node of \<open>exampleFollow\<close>, to which a key that follows another is announced.\<close>

theorem never_notifies_self_witness:
  "map (\<lambda>nt. (n_Actor nt, n_OwnerPubkey nt)) (notifications (nd_db followedNode)) = [(replicate 32 1, Some (replicate 32 2))] \<and>
   list_all (\<lambda>nt. \<exists>owner. n_OwnerPubkey nt = Some owner \<and> owner \<noteq> n_Actor nt) (notifications (nd_db followedNode))"
proof -
  have "sysReach followExt exampleCrypto exampleFetchers exampleNetwork (\<lambda>_. None) exampleNode"
    by (rule sysReach.init [where t = 0]) (simp add: exampleNode_def emptyDB_def)
  then have "sysReach followExt exampleCrypto exampleFetchers exampleNetwork (\<lambda>_. None) followedNode"
    unfolding followedNode_def
    by (rule sysReach.op [where op = "NMessage []" and r = "fst (HandleMessage followExt exampleFetchers [] exampleNode)"]) simp
  then have "list_all (\<lambda>nt. \<exists>owner. n_OwnerPubkey nt = Some owner \<and> owner \<noteq> n_Actor nt) (notifications (nd_db followedNode))"
    unfolding list_all_iff by (rule never_notifies_self)
  moreover have "map (\<lambda>nt. (n_Actor nt, n_OwnerPubkey nt)) (notifications (nd_db followedNode)) =
      [(replicate 32 1, Some (replicate 32 2))]" by code_simp
  ultimately show ?thesis by blast
qed

text \<open>
  The counters shown with a post are exact as long as the operations run one after the other: in every state
  reached so on a database that does not fail, and with any failures of the file system and the network, what
  \<open>GetFullReactionCounts\<close> returns for an identifier is the number of likes, replies and reposts of it in the
  tables, also for an identifier whose post was never received. Recount shows what is left of this when
  messages are handled concurrently.
\<close>

lemma system_counters_exact:
  assumes "sysReach x cr ft nw (\<lambda>_. None) n"
  shows "fst (GetFullReactionCounts c (nd_db n)) =
    Inr (countLikes c (nd_db n), countReplies c (nd_db n), countReposts c (nd_db n))"
proof -
  have "exactBut {} (nd_db n)" using assms by (rule sys_counters.reachable)
  then have "exactFor c (nd_db n)" "db_faults (nd_db n) = (\<lambda>_. None)"
    by (simp_all add: exactBut_def nofault_def)
  then show ?thesis
    by (auto simp: GetFullReactionCounts_def run_bindE queryE_nofault exactFor_def storedCounts_def
        split: option.splits)
qed

end
