(* ===== verification/Recount.thy ===== *)
theory Recount
  imports System
begin

text \<open>
  The counters of a post under concurrency. Every topic has a goroutine that handles its messages one after
  the other (\<open>readLoop\<close> of \<open>pkg/p2p/pubsub.go\<close>), requests of the user have goroutines of their own, nothing
  orders them, and \<open>UpdateReactionCount\<close> (\<open>pkg/storage/reactions_repo.go\<close>) is four statements outside a
  transaction. Here the statements of the goroutines on posts, reactions and their counts fall between one
  another in any order.
\<close>

section \<open>Goroutines\<close>

text \<open>
  A statement on these tables, with what was counted before it; \<open>SOther\<close> stands for the statements on other
  tables whose failure ends a handler. A transaction of the services is one statement.
\<close>

datatype stmt =
    SInsertPost Post
  | SInsertReaction Reaction
  | SOther
  | SCountLikes bytes
  | SCountReplies bytes int
  | SCountReposts bytes int int
  | SUpsert bytes int int int
  | SPostTx Post "bytes list" bytes
  | SRepostTx Post bytes
  | SReactionTx Reaction bytes

text \<open>The statements of \<open>handlePost\<close>, \<open>handleReaction\<close> and, a reaction without a recount, the repost button.\<close>

definition recountOf :: "bytes \<Rightarrow> stmt list" where
  "recountOf c = (if c = [] then [] else [SCountLikes c])"

definition postStatements :: "Post \<Rightarrow> stmt list" where
  "postStatements p = SInsertPost p # replicate (length (po_MediaCids p)) SOther @
     SOther # recountOf (po_ReplyTo p) @ recountOf (po_RepostOf p)"

definition reactionStatements :: "Reaction \<Rightarrow> stmt list" where
  "reactionStatements r = [SInsertReaction r, SOther, SCountLikes (re_Target r)]"

text \<open>
  One statement of a goroutine with the statements left after it. An error of an insertion ends the handler,
  one of the four statements of a recount ends the recount, which the handler only logs.
\<close>

definition orStop :: "(goerr + unit) \<times> DB \<Rightarrow> stmt list \<Rightarrow> stmt list \<times> DB" where
  "orStop r left = (case r of (Inr _, db) \<Rightarrow> (left, db) | (Inl _, db) \<Rightarrow> ([], db))"

definition counted :: "(goerr + int) \<times> DB \<Rightarrow> (int \<Rightarrow> stmt) \<Rightarrow> stmt list \<Rightarrow> stmt list \<times> DB" where
  "counted r next left = (case r of (Inr n, db) \<Rightarrow> (next n # left, db) | (Inl _, db) \<Rightarrow> (left, db))"

fun runStmt :: "stmt \<Rightarrow> stmt list \<Rightarrow> DB \<Rightarrow> stmt list \<times> DB" where
  "runStmt (SInsertPost p) left db = orStop (InsertPost (po_Id p) (po_Author p) (po_Content p) (po_ReplyTo p)
     (po_RepostOf p) (toInt64 (po_Timestamp p)) (po_Signature p) db) left"
| "runStmt (SInsertReaction r) left db = orStop (InsertReaction (re_Id r) (re_Author r) (re_Target r)
     (re_ReactionType r) (toInt64 (re_Timestamp r)) db) left"
| "runStmt SOther left db = orStop (queryE (\<lambda>_. ()) db) left"
| "runStmt (SCountLikes c) left db = counted (queryE (countLikes c) db) (SCountReplies c) left"
| "runStmt (SCountReplies c l) left db = counted (queryE (countReplies c) db) (SCountReposts c l) left"
| "runStmt (SCountReposts c l r) left db = counted (queryE (countReposts c) db) (SUpsert c l r) left"
| "runStmt (SUpsert c l r p) left db = (left, snd (execE (stmtUpsertCounts c l r p) db))"
| "runStmt (SPostTx p ms rt) left db = (left, snd (WithTransaction (storePostTx p ms rt) db))"
| "runStmt (SRepostTx p oc) left db = (left, snd (WithTransaction (storeRepostTx p oc) db))"
| "runStmt (SReactionTx r tg) left db = (left, snd (WithTransaction (storeReactionTx r tg) db))"

text \<open>
  \<open>recountReach db0 db gs\<close>: from \<open>db0\<close> on, the database is \<open>db\<close> and the goroutines, each with its topic if it
  reads one, have the statements \<open>gs\<close> left. A topic delivers its next message when the last is handled; what
  other statements do to the other tables, and the failures to come, may change at any time.
\<close>

inductive recountReach :: "DB \<Rightarrow> DB \<Rightarrow> (string option \<times> stmt list) list \<Rightarrow> bool" for db0 where
  init: "recountReach db0 db0 []"
| post: "recountReach db0 db gs \<Longrightarrow> (\<And>s left. (Some topic, s # left) \<notin> set gs) \<Longrightarrow>
    recountReach db0 db (gs @ [(Some topic, postStatements p)])"
| reaction: "recountReach db0 db gs \<Longrightarrow> (\<And>s left. (Some topic, s # left) \<notin> set gs) \<Longrightarrow>
    recountReach db0 db (gs @ [(Some topic, reactionStatements r)])"
| request: "recountReach db0 db gs \<Longrightarrow>
    s \<in> {SPostTx p ms (po_ReplyTo p), SRepostTx p (po_RepostOf p), SReactionTx r (re_Target r), SInsertReaction r} \<Longrightarrow>
    recountReach db0 db (gs @ [(None, [s])])"
| run: "recountReach db0 db gs \<Longrightarrow> i < length gs \<Longrightarrow> gs ! i = (t, s # left) \<Longrightarrow> runStmt s left db = (left', db') \<Longrightarrow>
    recountReach db0 db' (gs[i := (t, left')])"
| others: "recountReach db0 db gs \<Longrightarrow> posts db' = posts db \<Longrightarrow> reactions db' = reactions db \<Longrightarrow>
    reaction_counts db' = reaction_counts db \<Longrightarrow> recountReach db0 db' gs"

text \<open>Without other statements in between, the four statements are \<open>UpdateReactionCount\<close>.\<close>

lemma recount_alone:
  assumes "nofault db"
  shows "\<exists>r1 r2 r3 db1 db2 db3 db4. runStmt (SCountLikes c) left db = (r1 # left, db1) \<and> runStmt r1 left db1 = (r2 # left, db2) \<and>
    runStmt r2 left db2 = (r3 # left, db3) \<and> runStmt r3 left db3 = (left, db4) \<and> UpdateReactionCount c db = (Inr (), db4)"
  using assms
  by (simp add: nofault_def counted_def queryE_nofault execE_nofault UpdateReactionCount_def run_bindE run_wrapE
      stmtUpsertCounts_def Let_def)

section \<open>Counts never exceed the rows\<close>

definition rowCounts :: "bytes \<Rightarrow> DB \<Rightarrow> int \<times> int \<times> int" where
  "rowCounts c db = (countLikes c db, countReplies c db, countReposts c db)"

definition notAbove :: "int \<times> int \<times> int \<Rightarrow> int \<times> int \<times> int \<Rightarrow> bool" where
  "notAbove a b \<longleftrightarrow> fst a \<le> fst b \<and> fst (snd a) \<le> fst (snd b) \<and> snd (snd a) \<le> snd (snd b)"

lemma notAbove_trans: "notAbove a b \<Longrightarrow> notAbove b c \<Longrightarrow> notAbove a c"
  by (auto simp: notAbove_def)

text \<open>\<open>covers f\<close>: no stored count is above the rows, and neither is what \<open>f\<close> says was counted.\<close>

definition covers :: "(bytes \<Rightarrow> int \<times> int \<times> int) \<Rightarrow> DB \<Rightarrow> bool" where
  "covers f db \<longleftrightarrow> (\<forall>c. notAbove (f c) (rowCounts c db) \<and> notAbove (storedCounts c (reaction_counts db)) (rowCounts c db))"

lemma covers_frame:
  "covers f db \<Longrightarrow> posts db' = posts db \<Longrightarrow> reactions db' = reactions db \<Longrightarrow> reaction_counts db' = reaction_counts db \<Longrightarrow> covers f db'"
  by (simp add: covers_def rowCounts_def countLikes_def countReplies_def countReposts_def)

lemma steady_covers: "steady (covers f)"
  by (simp add: steady_def covers_def rowCounts_def countLikes_def countReplies_def countReposts_def)

lemma covers_grow:
  assumes "covers f db" "\<And>c. notAbove (rowCounts c db) (rowCounts c db')" "reaction_counts db' = reaction_counts db"
  shows "covers f db'"
  using assms unfolding covers_def by (metis notAbove_trans)

lemma stmtInsertPost_covers: "covers f db \<Longrightarrow> stmtInsertPost c a t rt ro ts sg db = Inr db' \<Longrightarrow> covers f db'"
  by (erule covers_grow)
     (auto simp: stmtInsertPost_def rowCounts_def notAbove_def countLikes_def countReplies_def countReposts_def split: if_splits)

lemma stmtInsertReaction_covers: "covers f db \<Longrightarrow> stmtInsertReaction c a tg ty ts db = Inr db' \<Longrightarrow> covers f db'"
  by (erule covers_grow)
     (auto simp: stmtInsertReaction_def Let_def rowCounts_def notAbove_def countLikes_def countReplies_def countReposts_def
        split: if_splits)

lemma stmtUpsertCounts_covers:
  assumes "covers f db" "notAbove (l, r, p) (rowCounts c db)" "stmtUpsertCounts c l r p db = Inr db'"
  shows "covers f db'"
proof -
  have db': "db' = db\<lparr>reaction_counts := upsertRow rc_PostCID
      (\<lambda>q. \<lparr>rc_PostCID = c, rc_Likes = l, rc_Replies = r, rc_Reposts = p\<rparr>\<lparr>rc_PostCID := rc_PostCID q\<rparr>)
      \<lparr>rc_PostCID = c, rc_Likes = l, rc_Replies = r, rc_Reposts = p\<rparr> (reaction_counts db)\<rparr>"
    using assms(3) by (simp add: stmtUpsertCounts_def Let_def)
  have same: "rowCounts d db' = rowCounts d db" for d
    by (simp add: db' rowCounts_def countLikes_def countReplies_def countReposts_def)
  have "storedCounts d (reaction_counts db') = (if d = c then (l, r, p) else storedCounts d (reaction_counts db))" for d
    by (auto simp: db' storedCounts_def rowOf_upsert split: option.splits)
  then show ?thesis using assms(1,2) unfolding covers_def same by simp
qed

lemma covers_statements:
  "keeps (covers f) (InsertPost c a t rt ro ts sg)" "keeps (covers f) (InsertReaction c a tg ty ts)"
  "keeps (covers f) (InsertPostTx c a t rt ro ts sg)" "keeps (covers f) (InsertReactionTx c a tg ty ts)"
  "keeps (covers f) (queryE q)"
  unfolding InsertPost_def InsertReaction_def InsertPostTx_def InsertReactionTx_def
  by (intro keeps_wrapE keeps_execE [OF steady_covers] keeps_queryE [OF steady_covers];
      erule (1) stmtInsertPost_covers stmtInsertReaction_covers)+

lemma covers_recountTx: "keeps (covers f) (UpdateReactionCountTx c)"
proof (rule keepsI)
  fix db r db'
  assume i: "covers f db" and run: "UpdateReactionCountTx c db = (r, db')"
  have tick: "covers f (tick db)" if "covers f db" for db using that steady_covers by (simp add: steady_tick)
  have same: "countLikes c (tick d) = countLikes c d" "countReplies c (tick d) = countReplies c d"
    "countReposts c (tick d) = countReposts c d" for d
    by (simp_all add: tick_def countLikes_def countReplies_def countReposts_def)
  have up: "notAbove (countLikes c db, countReplies c db, countReposts c db) (rowCounts c d)"
    if "d = tick (tick (tick (tick db)))" for d
    by (simp add: that rowCounts_def notAbove_def same)
  have last: "covers f db'" if "stmtUpsertCounts c (countLikes c db) (countReplies c db) (countReposts c db) (tick (tick (tick (tick db)))) = Inr db'"
    by (rule stmtUpsertCounts_covers [OF _ up [OF refl] that]) (intro tick i)
  show "covers f db'"
    using run i last
    by (auto simp: UpdateReactionCountTx_def run_bindE run_wrapE queryE_def execE_def same tick
        split: option.splits sum.splits intro: tick)
qed

lemma covers_transactions:
  "keeps (covers f) (WithTransaction (storePostTx p ms rt))" "keeps (covers f) (WithTransaction (storeRepostTx p oc))"
  "keeps (covers f) (WithTransaction (storeReactionTx r tg))"
proof -
  have "keeps (covers f) (InsertPostTagsTx c ts)" "keeps (covers f) (InsertPostMediaTx c m i)" for c ts m i
    unfolding InsertPostTagsTx_def InsertPostMediaTx_def
    by (intro keeps_intro keeps_execE [OF steady_covers];
        erule covers_frame; auto simp: stmtInsertTags_def stmtInsertPostMedia_def)+
  note parts = this covers_statements covers_recountTx
  show "keeps (covers f) (WithTransaction (storePostTx p ms rt))" "keeps (covers f) (WithTransaction (storeRepostTx p oc))"
    "keeps (covers f) (WithTransaction (storeReactionTx r tg))"
    unfolding storePostTx_def storeRepostTx_def storeReactionTx_def
    by (intro keeps_WithTransaction [OF steady_covers] keeps_intro parts)+
qed

text \<open>What a goroutine has counted and not yet stored.\<close>

fun countedOf :: "stmt \<Rightarrow> bytes \<Rightarrow> int \<times> int \<times> int" where
  "countedOf (SCountReplies c l) d = (if d = c then (l, 0, 0) else (0, 0, 0))"
| "countedOf (SCountReposts c l r) d = (if d = c then (l, r, 0) else (0, 0, 0))"
| "countedOf (SUpsert c l r p) d = (if d = c then (l, r, p) else (0, 0, 0))"
| "countedOf _ d = (0, 0, 0)"

definition coversAll :: "DB \<Rightarrow> (string option \<times> stmt list) list \<Rightarrow> bool" where
  "coversAll db gs \<longleftrightarrow> (\<forall>g\<in>set gs. \<forall>s\<in>set (snd g). covers (countedOf s) db) \<and> covers (\<lambda>_. (0, 0, 0)) db"

lemma rowCounts_pos: "notAbove (0, 0, 0) (rowCounts c db)"
  by (simp add: notAbove_def rowCounts_def countLikes_def countReplies_def countReposts_def countRows_def)

lemma covers_none: "covers f db \<Longrightarrow> covers (\<lambda>_. (0, 0, 0)) db"
  by (simp add: covers_def rowCounts_pos)

lemma fresh_statements:
  "s \<in> set (postStatements p) \<Longrightarrow> countedOf s = (\<lambda>_. (0, 0, 0))"
  "s \<in> set (reactionStatements r) \<Longrightarrow> countedOf s = (\<lambda>_. (0, 0, 0))"
  "s \<in> {SPostTx p ms rt, SRepostTx p oc, SReactionTx r tg, SInsertReaction r} \<Longrightarrow> countedOf s = (\<lambda>_. (0, 0, 0))"
  by (auto simp: postStatements_def reactionStatements_def recountOf_def fun_eq_iff split: if_splits)

lemma covers_tick: "covers f (tick db) = covers f db"
  by (rule steady_tick [OF steady_covers])

lemma rowCounts_tick: "rowCounts c (tick db) = rowCounts c db"
  by (simp add: rowCounts_def tick_def countLikes_def countReplies_def countReposts_def)

lemma runStmt_covers:
  assumes "runStmt s left db = (left', db')" "covers (countedOf s) db" "covers f db"
  shows "covers f db'"
proof (cases s)
  case (SUpsert c l r p)
  have "notAbove (l, r, p) (rowCounts c (tick db))"
    using assms(2) SUpsert by (auto simp: rowCounts_tick covers_def dest: spec [of _ c])
  moreover have "covers f (tick db)" using assms(3) by (simp add: covers_tick)
  moreover have "db' = snd (execE (stmtUpsertCounts c l r p) db)" using assms(1) SUpsert by simp
  ultimately show ?thesis
    using stmtUpsertCounts_covers by (auto simp: execE_def split: option.splits sum.splits)
qed (use assms(1,3) in \<open>auto simp: orStop_def counted_def split: prod.splits sum.splits
      dest: keepsD [OF covers_statements(1)] keepsD [OF covers_statements(2)] keepsD [OF covers_statements(5)]
      intro: keepsD [OF covers_transactions(1) _ prod.collapse [symmetric]]
        keepsD [OF covers_transactions(2) _ prod.collapse [symmetric]] keepsD [OF covers_transactions(3) _ prod.collapse [symmetric]]\<close>)

lemma covers_counted:
  assumes "covers (countedOf s) db" "covers f db"
    "\<And>c. notAbove (countedOf s' c) (countedOf s c) \<or> notAbove (countedOf s' c) (rowCounts c db)"
  shows "covers (countedOf s') db"
  using assms unfolding covers_def by (metis notAbove_trans)

lemma counted_next:
  assumes "counted (queryE q db) next left = (left', db')" "s \<in> set left'"
  shows "s \<in> set left \<or> (s = next (q (tick db)) \<and> db' = tick db)"
  using assms by (auto simp: counted_def queryE_def split: option.splits)

lemma runStmt_pending:
  assumes "runStmt s left db = (left', db')" "covers (countedOf s) db" "s' \<in> set left'"
  shows "s' \<in> set left \<or> covers (countedOf s') db'"
proof -
  have here: "covers (countedOf s) (tick db)" using assms(2) by (simp add: covers_tick)
  then have rows: "notAbove (countedOf s c) (rowCounts c (tick db))" for c by (simp add: covers_def)
  show ?thesis
  proof (cases s)
    case (SCountLikes c)
    then have "s' \<in> set left \<or> (s' = SCountReplies c (countLikes c (tick db)) \<and> db' = tick db)"
      using assms counted_next by (metis runStmt.simps(4))
    moreover have "covers (countedOf (SCountReplies c (countLikes c (tick db)))) (tick db)"
      by (rule covers_counted [OF here here]) (use rowCounts_pos in \<open>auto simp: notAbove_def rowCounts_def\<close>)
    ultimately show ?thesis by blast
  next
    case (SCountReplies c l)
    then have "s' \<in> set left \<or> (s' = SCountReposts c l (countReplies c (tick db)) \<and> db' = tick db)"
      using assms counted_next by (metis runStmt.simps(5))
    moreover have "covers (countedOf (SCountReposts c l (countReplies c (tick db)))) (tick db)"
      by (rule covers_counted [OF here here]) (use rows [of c] SCountReplies rowCounts_pos in \<open>auto simp: notAbove_def rowCounts_def\<close>)
    ultimately show ?thesis by blast
  next
    case (SCountReposts c l r)
    then have "s' \<in> set left \<or> (s' = SUpsert c l r (countReposts c (tick db)) \<and> db' = tick db)"
      using assms counted_next by (metis runStmt.simps(6))
    moreover have "covers (countedOf (SUpsert c l r (countReposts c (tick db)))) (tick db)"
      by (rule covers_counted [OF here here]) (use rows [of c] SCountReposts rowCounts_pos in \<open>auto simp: notAbove_def rowCounts_def\<close>)
    ultimately show ?thesis by blast
  qed (use assms(1,3) in \<open>auto simp: orStop_def split: prod.splits sum.splits\<close>)
qed

lemma coversAll_reach:
  "recountReach db0 db gs \<Longrightarrow> covers (\<lambda>_. (0, 0, 0)) db0 \<Longrightarrow> coversAll db gs"
proof (induction rule: recountReach.induct)
  case init
  then show ?case by (simp add: coversAll_def)
next
  case (post db gs topic p)
  then show ?case by (auto simp: coversAll_def fresh_statements(1))
next
  case (reaction db gs topic r)
  then show ?case by (auto simp: coversAll_def fresh_statements(2))
next
  case (request db gs s p ms r)
  then show ?case using fresh_statements(3) [OF request.hyps(2)] by (auto simp: coversAll_def)
next
  case (run db gs i t s left left' db')
  then have all: "coversAll db gs" by blast
  have mine: "(t, s # left) \<in> set gs" using run.hyps(2,3) by (metis nth_mem)
  then have s: "covers (countedOf s) db" using all by (force simp: coversAll_def)
  have keep: "covers f db \<Longrightarrow> covers f db'" for f by (rule runStmt_covers [OF run.hyps(4) s])
  have "covers (countedOf s') db'" if "g \<in> set (gs[i := (t, left')])" "s' \<in> set (snd g)" for g s'
  proof (cases "g \<in> set gs")
    case True
    then show ?thesis using all that(2) keep by (auto simp: coversAll_def)
  next
    case False
    then have "g = (t, left')" using that(1) set_update_subset_insert by fastforce
    then have "s' \<in> set left \<or> covers (countedOf s') db'" using runStmt_pending [OF run.hyps(4) s] that(2) by auto
    then show ?thesis using all mine keep by (force simp: coversAll_def)
  qed
  then show ?case using all keep by (auto simp: coversAll_def)
next
  case (others db gs db')
  have "covers f db \<Longrightarrow> covers f db'" for f by (erule covers_frame) (fact others.hyps)+
  then show ?case using others by (auto simp: coversAll_def)
qed

text \<open>
  C3. The counters never say more than there is: from a database in which no stored count is above the number
  of its rows, and however the statements of concurrent messages, of requests of the user and of their recounts
  fall between one another and fail, what \<open>GetFullReactionCounts\<close> returns for an identifier is at most the
  number of likes, of replies and of reposts of it in the tables.
\<close>

theorem recounts_never_overcount:
  assumes "\<forall>c. notAbove (storedCounts c (reaction_counts db0)) (rowCounts c db0)"
    and "recountReach db0 db gs" and "fst (GetFullReactionCounts c db) = Inr (likes, replies, reposts)"
  shows "likes \<le> countLikes c db \<and> replies \<le> countReplies c db \<and> reposts \<le> countReposts c db"
proof -
  have "covers (\<lambda>_. (0, 0, 0)) db0" using assms(1) by (simp add: covers_def rowCounts_pos)
  from coversAll_reach [OF assms(2) this] have "notAbove (storedCounts c (reaction_counts db)) (rowCounts c db)"
    by (simp add: coversAll_def covers_def)
  moreover have "storedCounts c (reaction_counts db) = (likes, replies, reposts)"
    using assms(3) by (auto simp: GetFullReactionCounts_def run_bindE queryE_def storedCounts_def split: option.splits)
  ultimately show ?thesis by (simp add: notAbove_def rowCounts_def)
qed

section \<open>A count that stays behind\<close>

text \<open>Goroutine \<open>i\<close> runs its next statement.\<close>

definition runAt :: "nat \<Rightarrow> DB \<times> (string option \<times> stmt list) list \<Rightarrow> DB \<times> (string option \<times> stmt list) list" where
  "runAt i w = (case w of (db, gs) \<Rightarrow>
     if i < length gs then (case gs ! i of
         (t, s # left) \<Rightarrow> (case runStmt s left db of (left', db') \<Rightarrow> (db', gs[i := (t, left')]))
       | _ \<Rightarrow> w)
     else w)"

lemma runAt_reach: "recountReach db0 (fst w) (snd w) \<Longrightarrow> recountReach db0 (fst (runAt i w)) (snd (runAt i w))"
  by (cases w) (auto simp: runAt_def split: prod.splits list.splits intro: recountReach.run)

lemma schedule_reach:
  "recountReach db0 (fst w) (snd w) \<Longrightarrow> recountReach db0 (fst (fold runAt is w)) (snd (fold runAt is w))"
  by (induction "is" arbitrary: w) (auto simp: runAt_reach)

lemma runStmt_faults: "runStmt s left db = (left', db') \<Longrightarrow> db_faults db = F \<Longrightarrow> db_faults db' = F"
proof -
  define J where "J = (\<lambda>db :: DB. db_faults db = F)"
  assume run: "runStmt s left db = (left', db')" and "db_faults db = F"
  then have i: "J db" by (simp add: J_def)
  have st: "steady J" by (simp add: steady_def J_def)
  note frames = keeps_frame [OF st] keeps_frame_tx [OF st] keeps_queryE [OF st]
  have keeps: "keeps J (InsertPost c a t rt ro ts sg)" "keeps J (InsertReaction c a tg ty ts)" "keeps J (queryE q)" "keeps J (queryE q')"
    "keeps J (execE (stmtUpsertCounts d l r p))" "keeps J (WithTransaction (storePostTx po ms rt))"
    "keeps J (WithTransaction (storeRepostTx po oc))" "keeps J (WithTransaction (storeReactionTx re tg))"
    for c a t rt ro ts sg tg ty q and q' :: "DB \<Rightarrow> unit" and d l r p po ms oc re
    by (intro frames keeps_execE [OF st]; auto simp: J_def stmtUpsertCounts_def Let_def)+
  have "J db'" using run i
    by (cases s)
       (auto simp: orStop_def counted_def split: prod.splits sum.splits dest: keepsD [OF keeps(1)] keepsD [OF keeps(2)]
         keepsD [OF keeps(3)] keepsD [OF keeps(4)] intro: keepsD [OF keeps(5) _ prod.collapse [symmetric]]
         keepsD [OF keeps(6) _ prod.collapse [symmetric]] keepsD [OF keeps(7) _ prod.collapse [symmetric]]
         keepsD [OF keeps(8) _ prod.collapse [symmetric]])
  then show "db_faults db' = F" by (simp add: J_def)
qed

lemma fold_faults: "db_faults (fst w) = F \<Longrightarrow> db_faults (fst (fold runAt is w)) = F"
proof (induction "is" arbitrary: w)
  case (Cons i ks)
  have "db_faults (fst (runAt i w)) = F"
    using Cons.prems by (cases w) (auto simp: runAt_def split: prod.splits list.splits dest: runStmt_faults)
  then show ?case using Cons.IH by simp
qed simp

text \<open>Two authors answer the same post; the counts of the first are read before the row of the second is there.\<close>

definition replyBy :: "8 word \<Rightarrow> Post" where
  "replyBy a = \<lparr>po_Id = [a, a], po_Author = [a], po_Timestamp = 0, po_Content = ''hi'', po_MediaCids = [],
     po_ReplyTo = [9], po_RepostOf = [], po_Tags = [], po_Signature = []\<rparr>"

definition profileRow :: "8 word \<Rightarrow> ProfileRow" where
  "profileRow a = \<lparr>pf_Pubkey = [a], pf_DisplayName = ''x'', pf_Bio = '''', pf_AvatarCID = None, pf_BannerCID = None,
     pf_Website = '''', pf_Version = 1, pf_UpdatedAt = 0\<rparr>"

definition repliesStart :: DB where
  "repliesStart = emptyDB\<lparr>profiles := [profileRow 1, profileRow 2]\<rparr>"

definition repliesEnd :: "DB \<times> (string option \<times> stmt list) list" where
  "repliesEnd = fold runAt [0, 0, 0, 0, 1, 1, 1, 1, 1, 1, 0, 0]
     (repliesStart, [(Some (PostsTopic ''01''), postStatements (replyBy 1)), (Some (PostsTopic ''02''), postStatements (replyBy 2))])"

lemma repliesEnd_reach: "recountReach repliesStart (fst repliesEnd) (snd repliesEnd)"
proof -
  have "recountReach repliesStart repliesStart ([] @ [(Some (PostsTopic ''01''), postStatements (replyBy 1))])"
    by (rule recountReach.post [OF recountReach.init]) simp
  then have "recountReach repliesStart repliesStart (([] @ [(Some (PostsTopic ''01''), postStatements (replyBy 1))]) @
      [(Some (PostsTopic ''02''), postStatements (replyBy 2))])"
    by (rule recountReach.post) (simp add: PostsTopic_def)
  then show ?thesis unfolding repliesEnd_def by (intro schedule_reach) simp
qed


theorem recounts_never_overcount_witness:
  "fst (GetFullReactionCounts [9] (fst repliesEnd)) = Inr (0, 1, 0) \<and> 1 \<le> countReplies [9] (fst repliesEnd)"
proof -
  have "\<forall>c. notAbove (storedCounts c (reaction_counts repliesStart)) (rowCounts c repliesStart)"
    by (simp add: repliesStart_def emptyDB_def storedCounts_def rowOf_def notAbove_def rowCounts_def countLikes_def
        countReplies_def countReposts_def countRows_def)
  moreover have "fst (GetFullReactionCounts [9] (fst repliesEnd)) = Inr (0, 1, 0)" by code_simp
  ultimately show ?thesis using recounts_never_overcount [OF _ repliesEnd_reach, of "[9]" 0 1 0] by blast
qed

end
