(* ===== verification/Threads.thy ===== *)
theory Threads
  imports StorageInv Validators
begin

text \<open>
  Comment threads: the recursive query of \<open>GetAllDescendantReplies\<close> (\<open>pkg/storage/posts_repo.go\<close>) and the
  tree that \<open>GetThread\<close> and \<open>assembleChildren\<close> build from it (\<open>pkg/social/threads.go\<close>). A query that does
  not return has the value \<open>None\<close>. The properties show that it returns unless a post is below itself, and
  that the tree then holds every reply below the root exactly once.
\<close>

section \<open>The recursive query\<close>

definition repliesTo :: "PostRow list \<Rightarrow> bytes \<Rightarrow> PostRow list" where
  "repliesTo rows c = filter (\<lambda>p. p_ReplyTo p = Some c) rows"

text \<open>
  \<open>WITH RECURSIVE thread(cid) AS (SELECT ... UNION ALL SELECT ...)\<close>: rows are taken from a queue, added to
  the result, and the rows of the recursive part for them are put into the queue. \<open>UNION ALL\<close> does not
  look for duplicates.
\<close>

partial_function (option) threadLoop :: "PostRow list \<Rightarrow> bytes list \<Rightarrow> bytes list \<Rightarrow> bytes list option" where
  "threadLoop rows queue thread = (case queue of
      [] \<Rightarrow> Some thread
    | c # rest \<Rightarrow> threadLoop rows (rest @ map p_CID (repliesTo rows c)) (thread @ [c]))"

lemma threadLoop_simps:
  "threadLoop rows [] thread = Some thread"
  "threadLoop rows (c # rest) thread = threadLoop rows (rest @ map p_CID (repliesTo rows c)) (thread @ [c])"
  by (subst threadLoop.simps; simp)+

text \<open>The join of the thread with the posts, in the order of time.\<close>

definition threadRows :: "PostRow list \<Rightarrow> bytes list \<Rightarrow> PostRow list" where
  "threadRows rows thread = sort_key p_Timestamp (concat (map (\<lambda>c. filter (\<lambda>p. p_CID p = c) rows) thread))"

definition GetAllDescendantReplies :: "bytes \<Rightarrow> (DB, PostRow list option) go" where
  "GetAllDescendantReplies rootCID = wrapE ''get all descendant replies'' (queryE (\<lambda>db.
     map_option (threadRows (posts db)) (threadLoop (posts db) (map p_CID (repliesTo (posts db) rootCID)) [])))"

section \<open>The tree\<close>

datatype ThreadNode = ThreadNode (tn_Post: Post) (tn_Children: "ThreadNode list") (tn_ReplyCount: nat)
  (tn_LikeCount: int)

definition postRowToProto :: "PostRow \<Rightarrow> Post" where
  "postRowToProto row = \<lparr>po_Id = p_CID row, po_Author = p_Author row, po_Timestamp = word_of_int (p_Timestamp row),
     po_Content = p_Content row, po_MediaCids = [],
     po_ReplyTo = (case p_ReplyTo row of None \<Rightarrow> [] | Some c \<Rightarrow> c),
     po_RepostOf = (case p_RepostOf row of None \<Rightarrow> [] | Some c \<Rightarrow> c),
     po_Tags = [], po_Signature = p_Signature row\<rparr>"

text \<open>\<open>childrenMap\<close>, built by appending each reply to the list of its parent.\<close>

definition childrenMapOf :: "PostRow list \<Rightarrow> string \<Rightarrow> PostRow list" where
  "childrenMapOf allReplies = fold (\<lambda>reply m.
     let parentHex = EncodeToString (case p_ReplyTo reply of None \<Rightarrow> [] | Some c \<Rightarrow> c)
     in m(parentHex := m parentHex @ [reply])) allReplies (\<lambda>_. [])"

definition likesOf :: "(string \<times> int \<times> int \<times> int) list \<Rightarrow> string \<Rightarrow> int" where
  "likesOf reactionCounts cidHex = (case map_of reactionCounts cidHex of None \<Rightarrow> 0 | Some (likes, _) \<Rightarrow> likes)"

text \<open>
  The recursion over the map, with \<open>n\<close> for the depth of the call stack: \<open>None\<close> when it is exceeded.
  \<open>assembleAll\<close> is the loop over the replies.
\<close>

fun assembleChildren :: "nat \<Rightarrow> Post \<Rightarrow> int \<Rightarrow> (string \<Rightarrow> PostRow list) \<Rightarrow> (string \<times> int \<times> int \<times> int) list
    \<Rightarrow> ThreadNode option"
  and assembleAll :: "nat \<Rightarrow> PostRow list \<Rightarrow> (string \<Rightarrow> PostRow list) \<Rightarrow> (string \<times> int \<times> int \<times> int) list
    \<Rightarrow> ThreadNode list option" where
  "assembleChildren 0 post likes childrenMap reactionCounts = None"
| "assembleChildren (Suc n) post likes childrenMap reactionCounts =
     (let replies = childrenMap (EncodeToString (po_Id post))
      in map_option (\<lambda>children. ThreadNode post children (length replies) likes)
           (assembleAll n replies childrenMap reactionCounts))"
| "assembleAll n [] childrenMap reactionCounts = Some []"
| "assembleAll n (r # replies) childrenMap reactionCounts =
     Option.bind (assembleChildren n (postRowToProto r) (likesOf reactionCounts (EncodeToString (p_CID r)))
       childrenMap reactionCounts) (\<lambda>child.
     map_option ((#) child) (assembleAll n replies childrenMap reactionCounts))"

text \<open>\<open>PostService.GetThread\<close>; a stack of one frame more than there are replies is always deep enough.\<close>

definition PostService_GetThread :: "bytes \<Rightarrow> (DB, ThreadNode option) go" where
  "PostService_GetThread postCID =
     bindE (wrapE ''get root post'' (GetPost postCID)) (\<lambda>rootRow.
     bindE (wrapE ''batch fetch replies'' (GetAllDescendantReplies postCID)) (\<lambda>replies. case replies of
       None \<Rightarrow> retE None
     | Some allReplies \<Rightarrow>
         bindE (wrapE ''batch fetch reaction counts''
           (GetReactionCountsBatch (postCID # map p_CID allReplies))) (\<lambda>reactionCounts.
         retE (assembleChildren (Suc (length allReplies)) (postRowToProto rootRow)
           (likesOf reactionCounts (EncodeToString postCID)) (childrenMapOf allReplies) reactionCounts))))"

section \<open>What the query returns\<close>

text \<open>The posts below a post, as a specification.\<close>

inductive below :: "PostRow list \<Rightarrow> bytes \<Rightarrow> bytes \<Rightarrow> bool" for rows root where
  direct: "p \<in> set rows \<Longrightarrow> p_ReplyTo p = Some root \<Longrightarrow> below rows root (p_CID p)"
| deeper: "below rows root c \<Longrightarrow> p \<in> set rows \<Longrightarrow> p_ReplyTo p = Some c \<Longrightarrow> below rows root (p_CID p)"

lemma below_reply: "p \<in> set rows \<Longrightarrow> p_ReplyTo p = Some c \<Longrightarrow> c = root \<or> below rows root c \<Longrightarrow> below rows root (p_CID p)"
  by (auto intro: below.intros)

lemma below_is_reply: "below rows root c \<Longrightarrow> \<exists>p\<in>set rows. p_CID p = c \<and> p_ReplyTo p \<noteq> None"
  by (induction rule: below.induct) auto

lemma below_trans: "below rows c d \<Longrightarrow> below rows b c \<Longrightarrow> below rows b d"
  by (induction rule: below.induct) (auto intro: below.intros)

lemma set_repliesTo [simp]: "p \<in> set (repliesTo rows c) \<longleftrightarrow> p \<in> set rows \<and> p_ReplyTo p = Some c"
  by (auto simp: repliesTo_def)

text \<open>
  The state of the loop: the thread and the queue hold posts below the root, no post twice; a post is in
  one of them as soon as what it replies to is in the thread, and not before.
\<close>

definition threadInv :: "PostRow list \<Rightarrow> bytes \<Rightarrow> bytes list \<Rightarrow> bytes list \<Rightarrow> bool" where
  "threadInv rows root queue thread \<longleftrightarrow> distinct (thread @ queue) \<and>
     (\<forall>c\<in>set (thread @ queue). below rows root c) \<and>
     (\<forall>p\<in>set rows. \<forall>c. p_ReplyTo p = Some c \<longrightarrow> p_CID p \<in> set (thread @ queue) \<longleftrightarrow> c = root \<or> c \<in> set thread)"

lemma keyed_eq: "keyed p_CID rows \<Longrightarrow> p \<in> set rows \<Longrightarrow> q \<in> set rows \<Longrightarrow> p_CID p = p_CID q \<Longrightarrow> p = q"
  by (metis rowOf_unique option.inject)

lemma distinct_replies: "keyed p_CID rows \<Longrightarrow> distinct (map p_CID (repliesTo rows c))"
  unfolding repliesTo_def by (induction rows) auto

lemma CID_replies:
  assumes "keyed p_CID rows" "p \<in> set rows"
  shows "p_CID p \<in> set (map p_CID (repliesTo rows c)) \<longleftrightarrow> p_ReplyTo p = Some c"
proof
  assume "p_CID p \<in> set (map p_CID (repliesTo rows c))"
  then obtain q where "q \<in> set (repliesTo rows c)" "p_CID p = p_CID q" by auto
  with keyed_eq [OF assms, of q] show "p_ReplyTo p = Some c" by simp
qed (use assms in simp)

lemma threadInv_start:
  assumes "keyed p_CID rows"
  shows "threadInv rows root (map p_CID (repliesTo rows root)) []"
  unfolding threadInv_def using distinct_replies [OF assms] CID_replies [OF assms]
  by (simp del: set_map) (auto intro: below.direct)

lemma threadInv_step:
  assumes k: "keyed p_CID rows" and acyc: "\<not> below rows root root" and inv: "threadInv rows root (c # rest) thread"
  shows "threadInv rows root (rest @ map p_CID (repliesTo rows c)) (thread @ [c])"
proof -
  from inv have c: "below rows root c" "c \<notin> set thread" "c \<notin> set rest"
    and reached: "\<And>p d. p \<in> set rows \<Longrightarrow> p_ReplyTo p = Some d \<Longrightarrow>
      p_CID p \<in> set (thread @ c # rest) \<longleftrightarrow> d = root \<or> d \<in> set thread"
    by (auto simp: threadInv_def)
  from acyc c(1) have ne: "c \<noteq> root" by blast
  have "p_CID p \<notin> set (thread @ c # rest)" if "p \<in> set (repliesTo rows c)" for p
    using that reached [of p c] ne c(2) by simp
  then have fresh: "set (map p_CID (repliesTo rows c)) \<inter> set (thread @ c # rest) = {}"
    by (simp only: disjoint_iff set_map) blast
  have "distinct ((thread @ [c]) @ rest @ map p_CID (repliesTo rows c))"
    using inv fresh distinct_replies [OF k, of c] by (auto simp: threadInv_def simp del: set_map)
  moreover have "\<forall>d\<in>set ((thread @ [c]) @ rest @ map p_CID (repliesTo rows c)). below rows root d"
    using inv c(1) by (auto simp: threadInv_def intro: below.deeper)
  moreover have "p_CID p \<in> set ((thread @ [c]) @ rest @ map p_CID (repliesTo rows c)) \<longleftrightarrow>
      d = root \<or> d \<in> set (thread @ [c])" if "p \<in> set rows" "p_ReplyTo p = Some d" for p d
  proof (cases "d = c")
    case True
    with that show ?thesis by simp
  next
    case False
    then have "p_CID p \<notin> set (map p_CID (repliesTo rows c))"
      using that CID_replies [OF k that(1)] by simp
    with reached [OF that] False show ?thesis by (simp del: set_map)
  qed
  ultimately show ?thesis unfolding threadInv_def by blast
qed

lemma below_posts: "below rows root c \<Longrightarrow> c \<in> set (map p_CID rows)"
  by (induction rule: below.induct) auto

text \<open>The loop ends: its thread is duplicate free and among the posts. It ends with all that is below.\<close>

lemma threadLoop_ends:
  assumes "keyed p_CID rows" "\<not> below rows root root" "threadInv rows root queue thread"
  shows "\<exists>thread'. threadLoop rows queue thread = Some thread' \<and> threadInv rows root [] thread'"
  using assms(3)
proof (induction "length rows - length thread" arbitrary: queue thread rule: less_induct)
  case less
  show ?case
  proof (cases queue)
    case Nil
    with less.prems show ?thesis by (simp add: threadLoop_simps)
  next
    case (Cons c rest)
    have "set (thread @ queue) \<subseteq> set (map p_CID rows)"
      using less.prems below_posts [of rows root] unfolding threadInv_def by blast
    then have "card (set (thread @ queue)) \<le> card (set (map p_CID rows))"
      by (rule card_mono [rotated]) (rule finite_set)
    then have "length (thread @ queue) \<le> length rows"
      using less.prems assms(1) by (simp add: threadInv_def distinct_card del: set_append set_map)
    then have lt: "length rows - length (thread @ [c]) < length rows - length thread" by (simp add: Cons)
    have "threadInv rows root (rest @ map p_CID (repliesTo rows c)) (thread @ [c])"
      using assms(1,2) less.prems unfolding Cons by (rule threadInv_step)
    from less.hyps [OF lt this] show ?thesis by (simp add: Cons threadLoop_simps)
  qed
qed

lemma threadInv_end:
  assumes "threadInv rows root [] thread"
  shows "distinct thread" "c \<in> set thread \<longleftrightarrow> below rows root c"
proof -
  show "distinct thread" using assms by (simp add: threadInv_def)
  have "below rows root c \<Longrightarrow> c \<in> set thread"
    by (induction rule: below.induct) (use assms in \<open>auto simp: threadInv_def\<close>)
  with assms show "c \<in> set thread \<longleftrightarrow> below rows root c" by (auto simp: threadInv_def)
qed

lemma set_threadRows: "set (threadRows rows thread) = {p \<in> set rows. p_CID p \<in> set thread}"
  by (auto simp: threadRows_def)

lemma keyed_threadRows:
  assumes "keyed p_CID rows" "distinct thread"
  shows "keyed p_CID (threadRows rows thread)"
proof -
  have one: "map p_CID (filter (\<lambda>p. p_CID p = c) rows) = (if c \<in> set (map p_CID rows) then [c] else [])" for c
    using assms(1) by (induction rows) auto
  have "map p_CID (concat (map (\<lambda>c. filter (\<lambda>p. p_CID p = c) rows) thread)) =
      filter (\<lambda>c. c \<in> set (map p_CID rows)) thread"
    by (induction thread) (simp_all add: one del: set_map)
  then have "distinct (map p_CID (concat (map (\<lambda>c. filter (\<lambda>p. p_CID p = c) rows) thread)))"
    using assms(2) by simp
  then show ?thesis
    unfolding threadRows_def by (simp add: distinct_map del: map_concat)
qed

lemma sorted_threadRows: "sorted (map p_Timestamp (threadRows rows thread))"
  by (simp add: threadRows_def)

section \<open>What the tree holds\<close>

lemma childrenMapOf_eq:
  "childrenMapOf rs h = filter (\<lambda>r. EncodeToString (case p_ReplyTo r of None \<Rightarrow> [] | Some c \<Rightarrow> c) = h) rs"
proof -
  have "fold (\<lambda>reply m. let parentHex = EncodeToString (case p_ReplyTo reply of None \<Rightarrow> [] | Some c \<Rightarrow> c)
      in m(parentHex := m parentHex @ [reply])) rs m h =
    m h @ filter (\<lambda>r. EncodeToString (case p_ReplyTo r of None \<Rightarrow> [] | Some c \<Rightarrow> c) = h) rs" for m
    by (induction rs arbitrary: m) (auto simp: Let_def)
  then show ?thesis by (simp add: childrenMapOf_def)
qed

lemma childrenMapOf_replies:
  assumes "\<forall>r\<in>set rs. p_ReplyTo r \<noteq> None"
  shows "childrenMapOf rs (EncodeToString c) = repliesTo rs c"
  unfolding childrenMapOf_eq repliesTo_def using assms by (intro filter_cong) auto

lemma below_top: "below rows b c \<longleftrightarrow> (\<exists>r\<in>set (repliesTo rows b). c = p_CID r \<or> below rows (p_CID r) c)"
proof
  assume "below rows b c"
  then show "\<exists>r\<in>set (repliesTo rows b). c = p_CID r \<or> below rows (p_CID r) c"
    by (induction rule: below.induct) (auto intro: below.intros)
qed (auto intro: below.direct, metis below.direct below_trans)

lemma below_bottom:
  assumes "keyed p_CID rows" "below rows b (p_CID p)" "p \<in> set rows"
  shows "\<exists>c. p_ReplyTo p = Some c \<and> (c = b \<or> below rows b c)"
  using assms(2)
proof (cases rule: below.cases)
  case (direct q)
  with keyed_eq [OF assms(1) _ assms(3), of q] show ?thesis by auto
next
  case (deeper c q)
  with keyed_eq [OF assms(1) _ assms(3), of q] show ?thesis by auto
qed

text \<open>Below a post that is not below itself no post is.\<close>

lemma below_acyclic:
  assumes k: "keyed p_CID rows" and "\<not> below rows root root" and "below rows root c"
  shows "\<not> below rows c c"
  using assms(3)
proof (induction rule: below.induct)
  case (direct p)
  show ?case
  proof
    assume "below rows (p_CID p) (p_CID p)"
    with below_bottom [OF k this direct(1)] direct have "root = p_CID p \<or> below rows (p_CID p) root" by auto
    with direct assms(2) show False by (metis below.direct below_trans)
  qed
next
  case (deeper c p)
  show ?case
  proof
    assume "below rows (p_CID p) (p_CID p)"
    with below_bottom [OF k this deeper(2)] deeper have "c = p_CID p \<or> below rows (p_CID p) c" by auto
    with deeper show False by (metis below.direct below_trans)
  qed
qed

text \<open>Two posts above the same one are above one another.\<close>

lemma below_linear:
  assumes k: "keyed p_CID rows" and "below rows a x" "x = b \<or> below rows b x"
  shows "a = b \<or> below rows a b \<or> below rows b a"
  using assms(2,3)
proof (induction rule: below.induct)
  case (direct p)
  with below_bottom [OF k _ direct(1), of b] show ?case by (auto intro: below.direct)
next
  case (deeper c p)
  with below_bottom [OF k _ deeper(2), of b] show ?case by (auto intro: below.deeper)
qed

fun threadNodes :: "ThreadNode \<Rightarrow> ThreadNode list" where
  "threadNodes (ThreadNode post children n likes) = ThreadNode post children n likes # concat (map threadNodes children)"

abbreviation nodeId :: "ThreadNode \<Rightarrow> bytes" where
  "nodeId t \<equiv> po_Id (tn_Post t)"

lemma postRowToProto_Id [simp]: "po_Id (postRowToProto r) = p_CID r"
  by (simp add: postRowToProto_def)

lemma assembleAll_Some:
  "assembleAll n rs m rc = Some ts \<longleftrightarrow> list_all2 (\<lambda>r t. assembleChildren n (postRowToProto r)
     (likesOf rc (EncodeToString (p_CID r))) m rc = Some t) rs ts"
  by (induction rs arbitrary: ts) (auto simp: list_all2_Cons1 bind_eq_Some_conv)

lemma assembleAll_None:
  "assembleAll n rs m rc = None \<longleftrightarrow> (\<exists>r\<in>set rs. assembleChildren n (postRowToProto r)
     (likesOf rc (EncodeToString (p_CID r))) m rc = None)"
  by (induction rs) (auto simp: bind_eq_None_conv)

text \<open>A node as it should be: it counts its children, which are the replies to it in the order of time.\<close>

definition nodeOK :: "PostRow list \<Rightarrow> (string \<times> int \<times> int \<times> int) list \<Rightarrow> ThreadNode \<Rightarrow> bool" where
  "nodeOK rs rc u \<longleftrightarrow> tn_ReplyCount u = length (tn_Children u) \<and>
     map tn_Post (tn_Children u) = map postRowToProto (repliesTo rs (nodeId u)) \<and>
     tn_LikeCount u = likesOf rc (EncodeToString (nodeId u))"

lemma assembleChildren_Some:
  assumes "\<forall>r\<in>set rs. p_ReplyTo r \<noteq> None"
    "assembleChildren (Suc n) post likes (childrenMapOf rs) rc = Some t"
  obtains ts where "t = ThreadNode post ts (length ts) likes"
    "list_all2 (\<lambda>r u. assembleChildren n (postRowToProto r) (likesOf rc (EncodeToString (p_CID r)))
       (childrenMapOf rs) rc = Some u) (repliesTo rs (po_Id post)) ts"
  using assms(2) list_all2_lengthD
  by (auto simp: childrenMapOf_replies [OF assms(1)] Let_def assembleAll_Some)

lemma assembled:
  assumes "\<forall>r\<in>set rs. p_ReplyTo r \<noteq> None"
    "assembleChildren n post likes (childrenMapOf rs) rc = Some t"
    "likes = likesOf rc (EncodeToString (po_Id post))"
  shows "tn_Post t = post \<and> set (map nodeId (threadNodes t)) = insert (po_Id post) {c. below rs (po_Id post) c} \<and>
    (\<forall>u\<in>set (threadNodes t). nodeOK rs rc u)"
  using assms(2,3)
proof (induction n arbitrary: post likes t)
  case (Suc n)
  from assembleChildren_Some [OF assms(1) Suc.prems(1)] obtain ts
    where t: "t = ThreadNode post ts (length ts) likes"
      and kids: "list_all2 (\<lambda>r u. assembleChildren n (postRowToProto r) (likesOf rc (EncodeToString (p_CID r)))
        (childrenMapOf rs) rc = Some u) (repliesTo rs (po_Id post)) ts" .
  have ok: "list_all2 (\<lambda>r u. tn_Post u = postRowToProto r \<and>
      set (map nodeId (threadNodes u)) = insert (p_CID r) {c. below rs (p_CID r) c} \<and>
      (\<forall>v\<in>set (threadNodes u). nodeOK rs rc v)) (repliesTo rs (po_Id post)) ts"
    by (rule list_all2_mono [OF kids], drule Suc.IH) simp_all
  have posts: "map tn_Post ts = map postRowToProto (repliesTo rs (po_Id post))"
    using ok by (induction rule: list_all2_induct) auto
  have ids: "set (map nodeId (concat (map threadNodes ts))) =
      (\<Union>r\<in>set (repliesTo rs (po_Id post)). insert (p_CID r) {c. below rs (p_CID r) c})"
    using ok by (induction rule: list_all2_induct) auto
  have nodes: "\<forall>u\<in>set (concat (map threadNodes ts)). nodeOK rs rc u"
    using ok by (induction rule: list_all2_induct) auto
  have "(\<Union>r\<in>set (repliesTo rs (po_Id post)). insert (p_CID r) {c. below rs (p_CID r) c}) =
      {c. below rs (po_Id post) c}"
    by (subst below_top) blast
  with ids nodes posts Suc.prems(2) show ?case
    by (simp add: t nodeOK_def del: set_map set_concat)
qed simp

lemma siblings_disjoint:
  assumes k: "keyed p_CID rs" and acyc: "\<not> below rs b b"
    and q: "q \<in> set (repliesTo rs b)" and r: "r \<in> set (repliesTo rs b)" and ne: "p_CID q \<noteq> p_CID r"
    and x: "x = p_CID q \<or> below rs (p_CID q) x"
  shows "x \<noteq> p_CID r \<and> \<not> below rs (p_CID r) x"
proof -
  have no: "\<not> below rs (p_CID u) (p_CID v)" if "u \<in> set (repliesTo rs b)" "v \<in> set (repliesTo rs b)" for u v
  proof
    assume "below rs (p_CID u) (p_CID v)"
    with below_bottom [OF k this] that have "b = p_CID u \<or> below rs (p_CID u) b" by auto
    moreover have "below rs b (p_CID u)" using that(1) by (auto intro: below.direct)
    ultimately show False using acyc below_trans by metis
  qed
  show ?thesis
  proof (rule ccontr)
    assume c: "\<not> (x \<noteq> p_CID r \<and> \<not> below rs (p_CID r) x)"
    have "p_CID q = p_CID r \<or> below rs (p_CID q) (p_CID r) \<or> below rs (p_CID r) (p_CID q)"
      using x c below_linear [OF k, of "p_CID q" x "p_CID r"] by blast
    with no [OF q r] no [OF r q] ne show False by blast
  qed
qed

lemma assembled_all:
  assumes "\<forall>r\<in>set rs. p_ReplyTo r \<noteq> None"
    and "list_all2 (\<lambda>r u. assembleChildren n (postRowToProto r) (likesOf rc (EncodeToString (p_CID r)))
        (childrenMapOf rs) rc = Some u) qs us"
  shows "set (map nodeId (concat (map threadNodes us))) =
    (\<Union>r\<in>set qs. insert (p_CID r) {c. below rs (p_CID r) c})"
  using assms(2)
proof (induction rule: list_all2_induct)
  case (Cons q qs u us)
  have "set (map nodeId (threadNodes u)) = insert (p_CID q) {c. below rs (p_CID q) c}"
    using assembled [OF assms(1) Cons.hyps(1)] by simp
  with Cons.IH show ?case by (simp del: set_concat)
qed simp

lemma assembled_distinct:
  assumes k: "keyed p_CID rs" and r: "\<forall>r\<in>set rs. p_ReplyTo r \<noteq> None"
    and "assembleChildren n post likes (childrenMapOf rs) rc = Some t"
    and "likes = likesOf rc (EncodeToString (po_Id post))"
    and acyc: "\<not> below rs (po_Id post) (po_Id post)"
  shows "distinct (map nodeId (threadNodes t))"
  using assms(3,4) acyc
proof (induction n arbitrary: post likes t)
  case (Suc n)
  from assembleChildren_Some [OF r Suc.prems(1)] obtain ts
    where t: "t = ThreadNode post ts (length ts) likes"
      and kids: "list_all2 (\<lambda>r u. assembleChildren n (postRowToProto r) (likesOf rc (EncodeToString (p_CID r)))
        (childrenMapOf rs) rc = Some u) (repliesTo rs (po_Id post)) ts" .
  have safe: "\<not> below rs (p_CID q) (p_CID q)" if "q \<in> set (repliesTo rs (po_Id post))" for q
    using that below_acyclic [OF k Suc.prems(3), of "p_CID q"] by (auto intro: below.direct)
  have dis: "distinct (map nodeId (concat (map threadNodes us)))"
    if "list_all2 (\<lambda>r u. assembleChildren n (postRowToProto r) (likesOf rc (EncodeToString (p_CID r)))
        (childrenMapOf rs) rc = Some u) qs us" "keyed p_CID qs" "set qs \<subseteq> set (repliesTo rs (po_Id post))" for qs us
    using that
  proof (induction rule: list_all2_induct)
    case (Cons q qs u us)
    have q: "q \<in> set (repliesTo rs (po_Id post))" "\<not> below rs (p_CID q) (p_CID q)"
      using Cons.prems safe by auto
    have "distinct (map nodeId (threadNodes u))"
      using Suc.IH [OF Cons.hyps(1)] q(2) by simp
    moreover have "set (map nodeId (threadNodes u)) = insert (p_CID q) {c. below rs (p_CID q) c}"
      using assembled [OF r Cons.hyps(1)] by simp
    moreover note assembled_all [OF r Cons.hyps(2)]
    moreover have "insert (p_CID q) {c. below rs (p_CID q) c} \<inter>
        (\<Union>r\<in>set qs. insert (p_CID r) {c. below rs (p_CID r) c}) = {}"
    proof -
      have "x \<noteq> p_CID r' \<and> \<not> below rs (p_CID r') x"
        if "r' \<in> set qs" "x = p_CID q \<or> below rs (p_CID q) x" for r' x
      proof (rule siblings_disjoint [OF k Suc.prems(3) q(1) _ _ that(2)])
        show "r' \<in> set (repliesTo rs (po_Id post))" "p_CID q \<noteq> p_CID r'" using that(1) Cons.prems by auto
      qed
      then show ?thesis by blast
    qed
    ultimately show ?case using Cons.IH Cons.prems by simp
  qed simp
  have "keyed p_CID (repliesTo rs (po_Id post))" by (rule distinct_replies [OF k])
  from dis [OF kids this] have "distinct (map nodeId (concat (map threadNodes ts)))" by simp
  moreover have "po_Id post \<notin> set (map nodeId (concat (map threadNodes ts)))"
    unfolding assembled_all [OF r kids] using Suc.prems(3) below_top [of rs "po_Id post" "po_Id post"] by blast
  ultimately show ?case by (simp add: t del: set_concat)
qed simp

text \<open>A stack of one frame more than there are posts below is deep enough.\<close>

lemma assembleChildren_returns:
  assumes k: "keyed p_CID rs" and r: "\<forall>r\<in>set rs. p_ReplyTo r \<noteq> None"
    and "\<not> below rs (po_Id post) (po_Id post)" "card {c. below rs (po_Id post) c} \<le> n"
  shows "assembleChildren (Suc n) post likes (childrenMapOf rs) rc \<noteq> None"
  using assms(3,4)
proof (induction n arbitrary: post likes)
  case 0
  have "finite {c. below rs (po_Id post) c}"
    by (rule finite_subset [of _ "set (map p_CID rs)"]) (auto dest: below_posts)
  with 0 have "\<nexists>c. below rs (po_Id post) c" by auto
  then have "repliesTo rs (po_Id post) = []"
    unfolding repliesTo_def by (auto simp: filter_empty_conv intro: below.direct)
  then show ?case by (simp add: childrenMapOf_replies [OF r] Let_def)
next
  case (Suc n)
  have "assembleChildren (Suc n) (postRowToProto q) l (childrenMapOf rs) rc \<noteq> None"
    if q: "q \<in> set (repliesTo rs (po_Id post))" for q l
  proof (rule Suc.IH)
    have up: "below rs (po_Id post) (p_CID q)" using q by (auto intro: below.direct)
    show na: "\<not> below rs (po_Id (postRowToProto q)) (po_Id (postRowToProto q))"
      using below_acyclic [OF k Suc.prems(1) up] by simp
    have "{c. below rs (p_CID q) c} \<subset> {c. below rs (po_Id post) c}"
      using up na by (auto intro: below_trans)
    moreover have "finite {c. below rs (po_Id post) c}"
      by (rule finite_subset [of _ "set (map p_CID rs)"]) (auto dest: below_posts)
    ultimately have "card {c. below rs (p_CID q) c} < card {c. below rs (po_Id post) c}"
      by (rule psubset_card_mono [rotated])
    with Suc.prems(2) show "card {c. below rs (po_Id (postRowToProto q)) c} \<le> n" by simp
  qed
  then have "assembleAll (Suc n) (repliesTo rs (po_Id post)) (childrenMapOf rs) rc \<noteq> None"
    by (auto simp: assembleAll_None simp del: assembleChildren.simps)
  then show ?case by (simp add: childrenMapOf_replies [OF r] Let_def)
qed

section \<open>The thread of a post\<close>

text \<open>The rows of a thread stand for the posts below its root.\<close>

lemma threadRows_below:
  assumes k: "keyed p_CID rows" and inv: "threadInv rows root [] thread"
  defines "rs \<equiv> threadRows rows thread"
  shows "\<forall>r\<in>set rs. p_ReplyTo r \<noteq> None" "below rs root c \<longleftrightarrow> below rows root c"
    "c = root \<or> below rows root c \<Longrightarrow> set (repliesTo rs c) = {p \<in> set rows. p_ReplyTo p = Some c}"
proof -
  have set_rs: "p \<in> set rs \<longleftrightarrow> p \<in> set rows \<and> below rows root (p_CID p)" for p
    by (simp add: rs_def set_threadRows threadInv_end(2) [OF inv])
  show "\<forall>r\<in>set rs. p_ReplyTo r \<noteq> None"
    using below_bottom [OF k] by (fastforce simp: set_rs)
  show "set (repliesTo rs c) = {p \<in> set rows. p_ReplyTo p = Some c}" if "c = root \<or> below rows root c"
    using that by (auto simp: set_rs intro: below_reply)
  have "below rs root d \<Longrightarrow> below rows root d" for d
    by (induction rule: below.induct) (auto simp: set_rs)
  moreover have "below rows root d \<Longrightarrow> below rs root d" for d
  proof (induction rule: below.induct)
    case (direct p)
    then have "p \<in> set rs" by (simp add: set_rs below.direct)
    then show ?case using direct(2) by (rule below.direct)
  next
    case (deeper c p)
    then have "p \<in> set rs" by (auto simp: set_rs intro: below.deeper)
    then show ?case using deeper(4,3) by (auto intro: below.deeper)
  qed
  ultimately show "below rs root c \<longleftrightarrow> below rows root c" by blast
qed

lemma likesOf_batch:
  assumes "c \<in> S"
  shows "likesOf (map (\<lambda>r. (EncodeToString (rc_PostCID r), rc_Likes r, rc_Replies r, rc_Reposts r))
      (filter (\<lambda>r. rc_PostCID r \<in> S) rows)) (EncodeToString c) =
    (case rowOf rc_PostCID c rows of None \<Rightarrow> 0 | Some r \<Rightarrow> rc_Likes r)"
  using assms unfolding likesOf_def rowOf_def by (induction rows) auto

text \<open>A successful run of the three queries.\<close>

lemma GetThread_Inr:
  assumes "PostService_GetThread cid db = (Inr r, db')"
  obtains root where "rowOf p_CID cid (posts db) = Some root"
    "r = Option.bind (map_option (threadRows (posts db))
        (threadLoop (posts db) (map p_CID (repliesTo (posts db) cid)) [])) (\<lambda>rs.
      assembleChildren (Suc (length rs)) (postRowToProto root)
        (likesOf (map (\<lambda>r. (EncodeToString (rc_PostCID r), rc_Likes r, rc_Replies r, rc_Reposts r))
          (filter (\<lambda>r. rc_PostCID r \<in> set (cid # map p_CID rs)) (reaction_counts db))) (EncodeToString cid))
        (childrenMapOf rs)
        (map (\<lambda>r. (EncodeToString (rc_PostCID r), rc_Likes r, rc_Replies r, rc_Reposts r))
          (filter (\<lambda>r. rc_PostCID r \<in> set (cid # map p_CID rs)) (reaction_counts db))))"
  using assms
  unfolding PostService_GetThread_def GetPost_def GetAllDescendantReplies_def GetReactionCountsBatch_def
    queryRowE_def queryE_def go_defs
  by (auto split: option.splits sum.splits prod.splits simp del: assembleChildren.simps)

text \<open>
  C29. \<open>GetThread\<close> returns for a post that is not below itself, and the tree it returns holds the post
  and every post below it exactly once; each node lists as its children all the replies to its post, in
  the order of time, and carries their number and the materialised count of its likes.
\<close>

theorem thread_complete:
  assumes k: "keyed p_CID (posts db)" and acyc: "\<not> below (posts db) cid cid"
    and run: "PostService_GetThread cid db = (Inr r, db')"
  shows "\<exists>t. r = Some t \<and> distinct (map nodeId (threadNodes t)) \<and>
    set (map nodeId (threadNodes t)) = insert cid {c. below (posts db) cid c} \<and>
    (\<forall>u\<in>set (threadNodes t). \<exists>rs. map tn_Post (tn_Children u) = map postRowToProto rs \<and> distinct rs \<and>
       set rs = {p \<in> set (posts db). p_ReplyTo p = Some (nodeId u)} \<and> sorted (map p_Timestamp rs) \<and>
       tn_ReplyCount u = length rs \<and>
       tn_LikeCount u = (case rowOf rc_PostCID (nodeId u) (reaction_counts db) of
          None \<Rightarrow> 0 | Some rc \<Rightarrow> rc_Likes rc))"
proof -
  let ?rows = "posts db"
  obtain thread where loop: "threadLoop ?rows (map p_CID (repliesTo ?rows cid)) [] = Some thread"
    and inv: "threadInv ?rows cid [] thread"
    using threadLoop_ends [OF k acyc threadInv_start [OF k]] by blast
  define rs where "rs = threadRows ?rows thread"
  define rc where "rc = map (\<lambda>r. (EncodeToString (rc_PostCID r), rc_Likes r, rc_Replies r, rc_Reposts r))
    (filter (\<lambda>r. rc_PostCID r \<in> set (cid # map p_CID rs)) (reaction_counts db))"
  obtain root where root: "p_CID root = cid" and r: "r = assembleChildren (Suc (length rs)) (postRowToProto root)
      (likesOf rc (EncodeToString cid)) (childrenMapOf rs) rc"
    using run by (rule GetThread_Inr) (auto simp: loop rs_def rc_def dest: rowOf_SomeD simp del: assembleChildren.simps)
  note reply = threadRows_below(1) [OF k inv, folded rs_def]
    and bel = threadRows_below(2) [OF k inv, folded rs_def]
    and kids = threadRows_below(3) [OF k inv, folded rs_def]
  have krs: "keyed p_CID rs" unfolding rs_def by (rule keyed_threadRows [OF k threadInv_end(1) [OF inv]])
  have acyc': "\<not> below rs (po_Id (postRowToProto root)) (po_Id (postRowToProto root))"
    using acyc by (simp add: root bel)
  have sub: "{c. below rs cid c} \<subseteq> set (map p_CID rs)" by (auto dest: below_posts)
  have "card {c. below rs cid c} \<le> card (set (map p_CID rs))"
    by (rule card_mono [OF _ sub]) (rule finite_set)
  also have "\<dots> \<le> length rs" using card_length [of "map p_CID rs"] by simp
  finally have "r \<noteq> None"
    unfolding r using acyc' by (intro assembleChildren_returns [OF krs reply]) (simp_all add: root)
  then obtain t where t: "r = Some t" by blast
  note run' = r [unfolded t, symmetric]
  have l: "likesOf rc (EncodeToString cid) = likesOf rc (EncodeToString (po_Id (postRowToProto root)))"
    by (simp add: root)
  note all = assembled [OF reply run' l]
  have ids: "set (map nodeId (threadNodes t)) = insert cid {c. below ?rows cid c}"
    using all by (simp add: root bel)
  have "\<exists>qs. map tn_Post (tn_Children u) = map postRowToProto qs \<and> distinct qs \<and>
       set qs = {p \<in> set ?rows. p_ReplyTo p = Some (nodeId u)} \<and> sorted (map p_Timestamp qs) \<and>
       tn_ReplyCount u = length qs \<and>
       tn_LikeCount u = (case rowOf rc_PostCID (nodeId u) (reaction_counts db) of
          None \<Rightarrow> 0 | Some rc \<Rightarrow> rc_Likes rc)" if u: "u \<in> set (threadNodes t)" for u
  proof (intro exI [of _ "repliesTo rs (nodeId u)"] conjI)
    have ok: "nodeOK rs rc u" using all u by blast
    have "nodeId u \<in> insert cid {c. below ?rows cid c}" using ids u by auto
    then have i: "nodeId u = cid \<or> below ?rows cid (nodeId u)" by blast
    show m: "map tn_Post (tn_Children u) = map postRowToProto (repliesTo rs (nodeId u))"
      using ok by (simp add: nodeOK_def)
    show "tn_ReplyCount u = length (repliesTo rs (nodeId u))"
      using ok map_eq_imp_length_eq [OF m] by (simp only: nodeOK_def)
    show "distinct (repliesTo rs (nodeId u))" using distinct_replies [OF krs] by (simp add: distinct_map)
    show "set (repliesTo rs (nodeId u)) = {p \<in> set ?rows. p_ReplyTo p = Some (nodeId u)}" using i by (rule kids)
    show "sorted (map p_Timestamp (repliesTo rs (nodeId u)))"
      using sorted_threadRows [of ?rows thread] unfolding repliesTo_def rs_def by (rule sorted_filter)
    have "nodeId u \<in> set (cid # map p_CID rs)"
      using i sub by (auto simp: bel)
    then show "tn_LikeCount u = (case rowOf rc_PostCID (nodeId u) (reaction_counts db) of
        None \<Rightarrow> 0 | Some rc \<Rightarrow> rc_Likes rc)"
      using ok by (simp only: nodeOK_def rc_def likesOf_batch)
  qed
  with ids t assembled_distinct [OF krs reply run' l acyc'] show ?thesis by blast
qed

definition exampleRow :: "bytes \<Rightarrow> bytes option \<Rightarrow> int \<Rightarrow> PostRow" where
  "exampleRow cid replyTo at = \<lparr>p_CID = cid, p_Author = [9], p_Content = ''text'', p_ReplyTo = replyTo,
     p_RepostOf = None, p_Timestamp = at, p_Signature = [], p_ReceivedAt = at\<rparr>"

definition exampleThread :: DB where
  "exampleThread = emptyDB\<lparr>posts := [exampleRow [1] None 5, exampleRow [2] (Some [1]) 8,
     exampleRow [3] (Some [1]) 7, exampleRow [4] (Some [2]) 9, exampleRow [5] None 9]\<rparr>"

lemma exampleThread_acyclic: "\<not> below (posts exampleThread) [1] [1]"
  using below_is_reply [of "posts exampleThread" "[1]" "[1]"] by (auto simp: exampleThread_def exampleRow_def)

lemma exampleThread_runs: "\<exists>r db'. PostService_GetThread [1] exampleThread = (Inr r, db')"
  unfolding PostService_GetThread_def GetPost_def GetAllDescendantReplies_def GetReactionCountsBatch_def
    queryRowE_def queryE_def go_defs
  by (auto simp: exampleThread_def exampleRow_def emptyDB_def rowOf_def split: option.splits
      simp del: assembleChildren.simps)

theorem thread_complete_witness:
  "\<exists>t db'. PostService_GetThread [1] exampleThread = (Inr (Some t), db') \<and> distinct (map nodeId (threadNodes t)) \<and>
     {[1], [2], [3], [4]} \<subseteq> set (map nodeId (threadNodes t)) \<and> [5] \<notin> set (map nodeId (threadNodes t))"
proof -
  have k: "keyed p_CID (posts exampleThread)" by (simp add: exampleThread_def exampleRow_def)
  obtain r db' where run: "PostService_GetThread [1] exampleThread = (Inr r, db')"
    using exampleThread_runs by blast
  from thread_complete [OF k exampleThread_acyclic run] obtain t
    where t: "r = Some t" "distinct (map nodeId (threadNodes t))"
      and ids: "set (map nodeId (threadNodes t)) = insert [1] {c. below (posts exampleThread) [1] c}"
    by blast
  have direct: "below (posts exampleThread) [1] [2]" "below (posts exampleThread) [1] [3]"
    using below.direct [of "exampleRow [2] (Some [1]) 8" "posts exampleThread" "[1]"]
      below.direct [of "exampleRow [3] (Some [1]) 7" "posts exampleThread" "[1]"]
    by (simp_all add: exampleThread_def exampleRow_def)
  have deep: "below (posts exampleThread) [1] [4]"
    using below.deeper [OF direct(1), of "exampleRow [4] (Some [2]) 9"]
    by (simp add: exampleThread_def exampleRow_def)
  have "\<not> below (posts exampleThread) [1] [5]"
      using below_is_reply [of "posts exampleThread" "[1]" "[5]"] by (auto simp: exampleThread_def exampleRow_def)
  with ids direct deep have "{[1], [2], [3], [4]} \<subseteq> set (map nodeId (threadNodes t))"
    "[5] \<notin> set (map nodeId (threadNodes t))" by auto
  with t run show ?thesis by blast
qed

end
