(* ===== verification/KeystoreProps.thy ===== *)
theory KeystoreProps
  imports Keystore
begin

text \<open>
  Properties of the key store: an identity is unlocked only from a stored file and with its passphrase,
  a failed unlock changes nothing, and no encrypted key is lost by unlocking, whatever system call
  fails; where the code does lose a key, a theorem says so.
\<close>

section \<open>What the disk holds\<close>

text \<open>A temporary file ends in \<open>.tmp-\<close> and a random part without a dot.\<close>

definition isTemp :: "path \<Rightarrow> bool" where
  "isTemp p \<longleftrightarrow> (\<exists>a b. last p = a @ ''.tmp-'' @ b \<and> CHR ''.'' \<notin> set b)"

definition fileData :: "fs \<Rightarrow> path \<Rightarrow> bytes option" where
  "fileData s p = (case node s p of Some (FFile _ d) \<Rightarrow> Some d | _ \<Rightarrow> None)"

text \<open>No component of a path has a slash.\<close>

definition plain :: "string \<Rightarrow> bool" where
  "plain c \<longleftrightarrow> CHR 0x2F \<notin> set c"

definition plainPath :: "path \<Rightarrow> bool" where
  "plainPath p \<longleftrightarrow> (\<forall>c\<in>set p. plain c)"

lemma plainPath_simps [simp]:
  "plainPath []" "plainPath (c # p) = (plain c \<and> plainPath p)" "plainPath (p @ q) = (plainPath p \<and> plainPath q)"
  by (auto simp: plainPath_def)

lemma plainPath_parts: "plainPath p \<Longrightarrow> plainPath (butlast p)" "plainPath p \<Longrightarrow> plainPath (take k p)"
    "plainPath p \<Longrightarrow> p \<noteq> [] \<Longrightarrow> plain (last p)"
  by (auto simp: plainPath_def dest: in_set_butlastD in_set_takeD)

text \<open>The contents of all files but temporary ones are \<open>F\<close>; every name is one that a file system has.\<close>

definition filesAre :: "(path \<Rightarrow> bytes option) \<Rightarrow> fs \<Rightarrow> bool" where
  "filesAre F s \<longleftrightarrow> (\<forall>k. CHR ''.'' \<notin> set (fs_suffix s k) \<and> plain (fs_suffix s k)) \<and>
     (\<forall>p. node s p \<noteq> None \<longrightarrow> plainPath p) \<and> (\<forall>p. \<not> isTemp p \<longrightarrow> fileData s p = F p)"

lemma fileData_step [simp]: "fileData (s\<lparr>fs_step := k\<rparr>) p = fileData s p"
  by (simp add: fileData_def)

lemma filesAre_step [simp]: "filesAre F (s\<lparr>fs_step := k\<rparr>) = filesAre F s"
  by (simp add: filesAre_def)

lemma fileData_setNode [simp]:
  "fileData (setNode p n s) q = (if q = p then (case n of FFile _ d \<Rightarrow> Some d | FDir _ \<Rightarrow> None) else fileData s q)"
  "fileData (delNode p s) q = (if q = p then None else fileData s q)"
  by (simp_all add: fileData_def)

lemma fs_suffix_append [simp]: "fs_suffix (appendFile p d s) = fs_suffix s"
  by (simp add: appendFile_def split: option.splits fnode.splits)

lemma filesAre_temp [simp]:
  "isTemp t \<Longrightarrow> plainPath t \<Longrightarrow> filesAre F s \<Longrightarrow> filesAre F (setNode t n s)"
  "isTemp t \<Longrightarrow> filesAre F s \<Longrightarrow> filesAre F (delNode t s)"
  "isTemp t \<Longrightarrow> filesAre F s \<Longrightarrow> filesAre F (appendFile t d s)"
  by (auto simp: filesAre_def appendFile_def split: option.splits fnode.splits)

lemma keeps_filesAre_call:
  "(\<And>s. snd (m s) = s) \<Longrightarrow> keeps (filesAre F) (callE m)"
  by (rule keeps_callE) (simp_all add: keeps_def)

lemma keeps_filesAre_reads [keeps_intro]:
  "keeps (filesAre F) (osStat p)" "keeps (filesAre F) (osOpen p)" "keeps (filesAre F) (osReadFile p)"
  "keeps (filesAre F) (readIfExists p)" "keeps (filesAre F) (osReadDir p)"
  "keeps (filesAre F) fileSync" "keeps (filesAre F) fileClose"
  unfolding osStat_def osOpen_def osReadFile_def fileSync_def fileClose_def readIfExists_def osReadDir_def
  by (rule keeps_filesAre_call; simp add: run_bindE split: option.splits fnode.splits)+

lemma keeps_filesAre_syncDirectory [keeps_intro]: "keeps (filesAre F) (syncDirectory p)"
  unfolding syncDirectory_def by (intro keeps_intro)

lemma fileData_Some: "node s p = Some (FFile m d) \<Longrightarrow> fileData s p = Some d"
  by (simp add: fileData_def)

lemma fileData_None: "node s p = None \<Longrightarrow> fileData s p = None" "node s p = Some (FDir m) \<Longrightarrow> fileData s p = None"
  by (simp_all add: fileData_def)

lemma keeps_filesAre_osMkdir:
  assumes "plainPath p"
  shows "keeps (filesAre F) (osMkdir mode p)"
  unfolding osMkdir_def
proof (rule keeps_callE, rule keepsI)
  fix s r s'
  assume "filesAre F s" "bindE (getE (\<lambda>s. node s p)) (\<lambda>n. case n of
      None \<Rightarrow> modifyE (setNode p (FDir mode))
    | Some (FFile m d) \<Rightarrow> throwE (Err ''not a directory'')
    | Some (FDir m) \<Rightarrow> retE ()) s = (r, s')"
  then show "filesAre F s'"
    using fileData_None(1) [of s p] assms
    by (auto simp: run_bindE filesAre_def split: option.splits fnode.splits if_splits)
qed simp

lemma keeps_filesAre_osMkdirAll [keeps_intro]:
  assumes "plainPath p"
  shows "keeps (filesAre F) (osMkdirAll p mode)"
proof -
  have "keeps (filesAre F) (forE (osMkdir mode) ps)" if "\<forall>q\<in>set ps. plainPath q" for ps
    using that
  proof (induction ps)
    case (Cons q qs)
    then show ?case unfolding forE.simps by (intro keeps_seqE keeps_filesAre_osMkdir) simp_all
  qed (simp only: forE.simps keeps_retE)
  with assms show ?thesis by (simp add: osMkdirAll_def plainPath_parts)
qed

lemma keeps_filesAre_removeTemp: "isTemp t \<Longrightarrow> keeps (filesAre F) (osRemove t)"
  unfolding osRemove_def by (rule keeps_callE) (auto simp: keeps_def split: option.splits fnode.splits)

section \<open>What a write, a rename and a removal do\<close>

definition tempAt :: "(path \<Rightarrow> bytes option) \<Rightarrow> path \<Rightarrow> fnode \<Rightarrow> fs \<Rightarrow> bool" where
  "tempAt F t n s \<longleftrightarrow> filesAre F s \<and> isTemp t \<and> plainPath t \<and> node s t = Some n"

lemma tempAt_step [simp]: "tempAt F t n (s\<lparr>fs_step := k\<rparr>) = tempAt F t n s"
  by (simp add: tempAt_def)

lemma filesAre_suffix:
  "filesAre F s \<Longrightarrow> isTemp (dir @ [b @ ''.tmp-'' @ fs_suffix s k])"
  "filesAre F s \<Longrightarrow> plainPath dir \<Longrightarrow> plain b \<Longrightarrow> plainPath (dir @ [b @ ''.tmp-'' @ fs_suffix s k])"
  unfolding isTemp_def filesAre_def
  by (intro exI [of _ b] exI [of _ "fs_suffix s k"]) (simp_all add: plain_def)

lemma create_temp:
  "plainPath dir \<Longrightarrow> plain b \<Longrightarrow> triple (filesAre F) (osCreateTemp dir b) (\<lambda>t. tempAt F t (FFile 384 [])) (filesAre F)"
  unfolding osCreateTemp_def
  by (rule triple_sysE)
     (auto simp: triple_def tempAt_def Let_def filesAre_suffix [simplified] split: option.splits fnode.splits if_splits)

lemma chmod_temp: "triple (tempAt F t (FFile m d)) (osChmod t mode) (\<lambda>_. tempAt F t (FFile mode d)) (filesAre F)"
  unfolding osChmod_def by (rule triple_sysE) (auto simp: triple_def tempAt_def run_bindE)

lemma write_temp:
  "triple (tempAt F t (FFile m d0)) (fileWrite t d) (\<lambda>_. tempAt F t (FFile m (d0 @ d))) (filesAre F)"
  unfolding fileWrite_def
  by (rule triple_sysE) (auto simp: triple_def tempAt_def, simp add: appendFile_def)

lemma noop_temp: "triple (tempAt F t n) (callE (retE ())) (\<lambda>_. tempAt F t n) (filesAre F)"
  by (rule triple_sysE) (auto simp: triple_def tempAt_def)

lemma rename_temp:
  assumes "\<not> isTemp p" "plainPath p"
  shows "triple (tempAt F t (FFile m d)) (osRename t p) (\<lambda>_. filesAre (F(p \<mapsto> d))) (filesAre F)"
  unfolding osRename_def
  by (rule triple_sysE) (use assms in \<open>auto simp: triple_def tempAt_def filesAre_def split: option.splits fnode.splits\<close>)

lemma writeFileAtomic_files:
  assumes p: "\<not> isTemp p" and q: "plainPath p" "p \<noteq> []"
  shows "triple (filesAre F) (writeFileAtomic p d mode) (\<lambda>_. filesAre (F(p \<mapsto> d)))
     (\<lambda>s. filesAre F s \<or> filesAre (F(p \<mapsto> d)) s)" (is "triple _ _ ?Q ?E")
proof -
  have err: "triple P m Q (filesAre F) \<Longrightarrow> triple P m Q ?E" for P Q and m :: "(fs, 'b) go"
    by (erule triple_conseq) auto
  have keepE: "keeps ?E (osRemove t)" if "isTemp t" for t
    using keeps_filesAre_removeTemp [OF that] by (auto simp: keeps_def)
  have inner: "triple (tempAt F t (FFile 384 []))
      (seqE (wrapE w1 (osChmod t mode)) (seqE (wrapE w2 (fileWrite t d)) (seqE (wrapE w3 fileSync)
        (seqE (wrapE w4 fileClose) (seqE (wrapE w5 (osRename t p)) (wrapE w6 (syncDirectory dir)))))))
      ?Q ?E" for t w1 w2 w3 w4 w5 w6 dir
    unfolding fileSync_def fileClose_def
    by (rule triple_seqE [OF triple_wrapE [OF err [OF chmod_temp]]],
        rule triple_seqE [OF triple_wrapE [OF err [OF write_temp]]],
        rule triple_seqE [OF triple_wrapE [OF err [OF noop_temp]]],
        rule triple_seqE [OF triple_wrapE [OF err [OF noop_temp]]],
        rule triple_seqE [OF triple_wrapE [OF err [OF rename_temp [OF p q(1)]]]],
        rule triple_wrapE, rule triple_conseq [OF triple_keeps [OF keeps_filesAre_syncDirectory]])
       auto
  show ?thesis
    unfolding writeFileAtomic_def writeAtomically_def Let_def
  proof (rule triple_bindE [OF triple_wrapE [OF err [OF create_temp [OF plainPath_parts(1) [OF q(1)] plainPath_parts(3) [OF q]]]]])
    fix t
    show "triple (tempAt F t (FFile 384 [])) (deferE
        (seqE (wrapE ''set file permissions'' (osChmod t mode)) (seqE (wrapE ''write file'' (fileWrite t d))
        (seqE (wrapE ''sync file'' fileSync) (seqE (wrapE ''close file'' fileClose)
        (seqE (wrapE ''replace file'' (osRename t p)) (wrapE ''sync directory'' (syncDirectory (butlast p))))))))
        (osRemove t)) ?Q ?E"
    proof (cases "isTemp t")
      case True
      show ?thesis by (rule triple_deferE [OF inner keeps_filesAre_removeTemp [OF True] keepE [OF True]])
    next
      case False
      then show ?thesis by (simp add: triple_def tempAt_def)
    qed
  qed
qed

lemma writeOwnerOnlyFile_files:
  assumes "\<not> isTemp p" "plainPath p" "p \<noteq> []"
  shows "triple (filesAre F) (writeOwnerOnlyFile p d) (\<lambda>_. filesAre (F(p \<mapsto> d)))
     (\<lambda>s. filesAre F s \<or> filesAre (F(p \<mapsto> d)) s)"
  unfolding writeOwnerOnlyFile_def
  by (rule triple_seqE [OF triple_wrapE [OF triple_conseq [OF triple_keeps [OF keeps_filesAre_osMkdirAll]]]
        writeFileAtomic_files [OF assms]]) (use assms in \<open>auto simp: plainPath_parts\<close>)

lemma rename_files:
  assumes "\<not> isTemp a" "\<not> isTemp b" "a \<noteq> b" "plainPath b"
  shows "triple (filesAre F) (renameFileAndSync a b) (\<lambda>_. filesAre (F(b := F a, a := None)))
     (\<lambda>s. filesAre F s \<or> filesAre (F(b := F a, a := None)) s)"
proof -
  have "triple (filesAre F) (osRename a b) (\<lambda>_. filesAre (F(b := F a, a := None))) (filesAre F)"
    unfolding osRename_def
    by (rule triple_sysE, simp, rule tripleI)
      (use assms in \<open>auto simp: filesAre_def fileData_Some fileData_None split: option.splits fnode.splits if_splits\<close>)
  then show ?thesis
    unfolding renameFileAndSync_def
    by (intro triple_seqE [where R = "filesAre (F(b := F a, a := None))"] triple_wrapE
        triple_conseq [OF triple_keeps [OF keeps_filesAre_syncDirectory]])
      (auto elim: triple_conseq)
qed

lemma remove_files:
  assumes "\<not> isTemp p"
  shows "triple (filesAre F) (osRemove p) (\<lambda>_. filesAre (F(p := None))) (filesAre F)"
    and "triple (filesAre F) (removeFileAndSync p) (\<lambda>_. filesAre (F(p := None)))
     (\<lambda>s. filesAre F s \<or> filesAre (F(p := None)) s)"
proof -
  show rm: "triple (filesAre F) (osRemove p) (\<lambda>_. filesAre (F(p := None))) (filesAre F)"
    unfolding osRemove_def
    by (rule triple_sysE, simp, rule tripleI)
      (use assms in \<open>auto simp: filesAre_def fileData_Some fileData_None split: option.splits fnode.splits if_splits\<close>)
  then show "triple (filesAre F) (removeFileAndSync p) (\<lambda>_. filesAre (F(p := None)))
     (\<lambda>s. filesAre F s \<or> filesAre (F(p := None)) s)"
    unfolding removeFileAndSync_def
    by (intro triple_seqE [where R = "filesAre (F(p := None))"] triple_wrapE
        triple_conseq [OF triple_keeps [OF keeps_filesAre_syncDirectory]])
      (auto elim: triple_conseq)
qed

section \<open>Rules for the holder\<close>

abbreviation on :: "(fs \<Rightarrow> bool) \<Rightarrow> Holder \<Rightarrow> bool" where
  "on P h \<equiv> P (ho_fs h)"

lemma triple_fsE: "triple P m Q E \<Longrightarrow> triple (on P) (fsE m) (\<lambda>x. on (Q x)) (on E)"
  unfolding triple_def onE_def by (auto split: prod.splits)

lemma triple_ex: "(\<And>F. triple (A F) m Q E) \<Longrightarrow> triple (\<lambda>s. \<exists>F. A F s) m Q E"
  unfolding triple_def by blast

lemma log_triple:
  assumes "triple P m Q E" "\<And>x s. Q x s \<Longrightarrow> R s" "\<And>s. E s \<Longrightarrow> R s" "\<And>s. E s \<Longrightarrow> E' s"
  shows "triple P (logE m) (\<lambda>_. R) E'"
  using assms unfolding triple_def logE_def by (auto split: prod.splits sum.splits goerr.splits)

text \<open>A call that keeps the files, whatever they are, keeps every condition on them.\<close>

lemma read_triple:
  assumes "\<And>F. keeps (filesAre F) m" "\<And>s. P s \<Longrightarrow> \<exists>F. filesAre F s \<and> C F"
    and "\<And>F s. filesAre F s \<Longrightarrow> C F \<Longrightarrow> P s"
  shows "triple (on P) (fsE m) (\<lambda>_. on P) (on P)"
proof -
  have "keeps P m"
  proof (rule keepsI)
    fix s r s'
    assume "P s" "m s = (r, s')"
    with assms(2) obtain F where "filesAre F s" "C F" by blast
    with keepsD [OF assms(1) _ \<open>m s = (r, s')\<close>] assms(3) show "P s'" by blast
  qed
  then show ?thesis by (intro triple_fsE triple_keeps)
qed

lemma filesAre_node:
  "filesAre F s \<Longrightarrow> node s p = Some (FFile m d) \<Longrightarrow> isTemp p \<or> F p = Some d"
  "filesAre F s \<Longrightarrow> node s p = None \<Longrightarrow> isTemp p \<or> F p = None"
  by (auto simp: filesAre_def fileData_Some fileData_None)

lemma readFile_files:
  "triple (filesAre F) (osReadFile p) (\<lambda>d s. filesAre F s \<and> (isTemp p \<or> F p = Some d)) (filesAre F)"
  unfolding osReadFile_def
  by (rule triple_sysE, simp, rule tripleI)
    (auto simp: run_bindE dest: filesAre_node split: option.splits fnode.splits)

lemma readIfExists_files:
  "triple (filesAre F) (readIfExists p) (\<lambda>d s. filesAre F s \<and> (isTemp p \<or> F p = d)) (filesAre F)"
  unfolding readIfExists_def
  by (rule triple_sysE, simp, rule tripleI)
    (auto dest: filesAre_node split: option.splits fnode.splits)

lemma readDir_files:
  "triple (filesAre F) (osReadDir p) (\<lambda>names s. filesAre F s \<and> (\<forall>n\<in>set names. plain n)) (filesAre F)"
  unfolding osReadDir_def
proof (rule triple_sysE, simp, rule tripleI)
  fix s names s'
  assume f: "filesAre F s" and run: "(case node s p of
      None \<Rightarrow> (Inl (Err ''no such file or directory''), s)
    | Some (FFile m d) \<Rightarrow> (Inl (Err ''not a directory''), s)
    | Some (FDir m) \<Rightarrow> (Inr (map (last \<circ> fst) (filter (\<lambda>e. fst e \<noteq> [] \<and> butlast (fst e) = p) (fs_nodes s))), s)) =
    (Inr names, s')"
  have "plain (last q)" if "(q, n) \<in> set (fs_nodes s)" "q \<noteq> []" for q n
  proof -
    have "q \<in> fst ` set (fs_nodes s)" using that(1) by force
    then have "node s q \<noteq> None" by (simp add: node_def map_of_eq_None_iff)
    with f have "plainPath q" by (simp add: filesAre_def)
    from this that(2) show ?thesis by (rule plainPath_parts)
  qed
  with f run show "filesAre F s' \<and> (\<forall>n\<in>set names. plain n)"
    by (auto split: option.splits fnode.splits)
qed (auto split: option.splits fnode.splits)

section \<open>The places of keys\<close>

lemma splitByte_suffix: "c \<notin> set t \<Longrightarrow> \<exists>us w. splitByte c (s @ t) = us @ [w @ t]"
proof (induction s)
  case Nil
  then show ?case by (intro exI [of _ "[]"]) simp
next
  case (Cons a s)
  then obtain us w where e: "splitByte c (s @ t) = us @ [w @ t]" by blast
  show ?case
  proof (cases "a = c")
    case True
    with e show ?thesis by (intro exI [of _ "[] # us"] exI [of _ w]) simp
  next
    case False
    show ?thesis
    proof (cases us)
      case Nil
      with e False show ?thesis by (intro exI [of _ "[]"] exI [of _ "a # w"]) simp
    next
      case (Cons u us')
      with e False show ?thesis by (intro exI [of _ "(a # u) # us'"] exI [of _ w]) simp
    qed
  qed
qed

lemma splitByte_plain: "w \<in> set (splitByte c s) \<Longrightarrow> c \<notin> set w"
  by (induction s arbitrary: w) (auto split: if_splits list.splits)

lemma cleanInto_snoc: "x \<noteq> '''' \<Longrightarrow> x \<noteq> ''.'' \<Longrightarrow> x \<noteq> ''..'' \<Longrightarrow> cleanInto base (us @ [x]) = cleanInto base us @ [x]"
  by (induction us arbitrary: base) auto

lemma cleanInto_plain: "plainPath base \<Longrightarrow> \<forall>w\<in>set us. plain w \<Longrightarrow> plainPath (cleanInto base us)"
  by (induction us arbitrary: base) (auto simp: plainPath_parts)

lemma keyFilePath_shape:
  assumes "plainPath dir"
  shows "\<exists>q w. keyFilePath dir h = q @ [w @ ''.key''] \<and> plainPath q \<and> plain w"
proof -
  obtain us w where e: "splitByte (CHR 0x2F) (h @ ''.key'') = us @ [w @ ''.key'']"
    using splitByte_suffix [of "CHR 0x2F" "''.key''" h] by auto
  have "plain v" if "v \<in> set (us @ [w @ ''.key''])" for v
    using splitByte_plain [of v "CHR 0x2F" "h @ ''.key''"] that unfolding e plain_def by blast
  from this [of "w @ ''.key''"] this have "\<forall>v\<in>set us. plain v" "plain w" by (simp_all add: plain_def)
  moreover have "keyFilePath dir h = cleanInto (keysDir dir) us @ [w @ ''.key'']"
    unfolding keyFilePath_def joinPath_def e by (rule cleanInto_snoc) (auto dest: arg_cong [of _ _ length])
  moreover have "plainPath (keysDir dir)" using assms by (simp add: keysDir_def plain_def)
  ultimately show ?thesis using cleanInto_plain by blast
qed

lemma keyFilePath_eq: "plain h \<Longrightarrow> keyFilePath dir h = keysDir dir @ [h @ ''.key'']"
  unfolding keyFilePath_def by (rule joinPath_plain) (auto simp: plain_def dest: arg_cong [of _ _ length])

lemma key_not_temp: "\<not> isTemp (q @ [w @ ''.key''])"
proof
  assume "isTemp (q @ [w @ ''.key''])"
  then obtain a b where e: "w @ ''.key'' = a @ ''.tmp-'' @ b" and b: "CHR ''.'' \<notin> set b" by (auto simp: isTemp_def)
  have "takeWhile (\<lambda>c. c \<noteq> CHR ''.'') (rev b @ ''-pmt.'' @ rev a) = rev b @ ''-pmt''"
    by (subst takeWhile_append2) (use b in auto)
  with arg_cong [OF e, of "\<lambda>s. takeWhile (\<lambda>c. c \<noteq> CHR ''.'') (rev s)"]
  have "rev b @ ''-pmt'' = ''yek''" by simp
  from arg_cong [OF this, of length] show False by simp
qed

text \<open>The encrypted keys: the files of the keys directory and the one of the old layout.\<close>

definition keyPlace :: "path \<Rightarrow> path \<Rightarrow> bool" where
  "keyPlace dir p \<longleftrightarrow> p = legacyKeyPath dir \<or> (\<exists>w. plain w \<and> p = keysDir dir @ [w @ ''.key''])"

lemma places_not_temp [simp]:
  "\<not> isTemp (keyFilePath dir h)" if "plainPath dir"
  using keyFilePath_shape [OF that, of h] key_not_temp by auto

lemma places [simp]:
  "\<not> isTemp (legacyKeyPath dir)" "\<not> isTemp (activeFilePath dir)"
  "plainPath (legacyKeyPath dir) = plainPath dir" "plainPath (activeFilePath dir) = plainPath dir"
  "plainPath (keysDir dir) = plainPath dir" "activeFilePath dir \<noteq> []" "legacyKeyPath dir \<noteq> activeFilePath dir"
  "\<not> keyPlace dir (activeFilePath dir)" "keyPlace dir (legacyKeyPath dir)"
proof -
  show "\<not> isTemp (legacyKeyPath dir)"
    using key_not_temp [of "dir @ [''identity'']" "''primary''"] by (simp add: legacyKeyPath_def)
  have "''active'' \<noteq> a @ ''.tmp-'' @ b" for a b
  proof
    assume e: "''active'' = a @ ''.tmp-'' @ b"
    have "CHR ''.'' \<in> set (a @ ''.tmp-'' @ b)" by simp
    then have "CHR ''.'' \<in> set ''active''" by (simp only: e)
    then show False by simp
  qed
  then show "\<not> isTemp (activeFilePath dir)" by (simp add: isTemp_def activeFilePath_def)
qed (auto simp: legacyKeyPath_def activeFilePath_def keysDir_def plain_def keyPlace_def)

section \<open>Unlocking loses no key\<close>

text \<open>
  \<open>idle dir F0\<close>: the files are \<open>F0\<close> but for the active file, which is a name; \<open>kept dir F0\<close>: every key
  of \<open>F0\<close> is still in a key file.
\<close>

definition idleFiles :: "path \<Rightarrow> (path \<Rightarrow> bytes option) \<Rightarrow> (path \<Rightarrow> bytes option) \<Rightarrow> bool" where
  "idleFiles dir F0 F \<longleftrightarrow> (\<forall>p. p \<noteq> activeFilePath dir \<longrightarrow> F p = F0 p) \<and>
     (\<forall>d. F (activeFilePath dir) = Some d \<longrightarrow> plain (bytesToString d))"

definition idle :: "path \<Rightarrow> (path \<Rightarrow> bytes option) \<Rightarrow> fs \<Rightarrow> bool" where
  "idle dir F0 s \<longleftrightarrow> (\<exists>F. filesAre F s \<and> idleFiles dir F0 F)"

definition keptFiles :: "path \<Rightarrow> (path \<Rightarrow> bytes option) \<Rightarrow> (path \<Rightarrow> bytes option) \<Rightarrow> bool" where
  "keptFiles dir F0 F \<longleftrightarrow> (\<forall>p d. keyPlace dir p \<longrightarrow> F0 p = Some d \<longrightarrow> (\<exists>q. keyPlace dir q \<and> F q = Some d))"

definition kept :: "path \<Rightarrow> (path \<Rightarrow> bytes option) \<Rightarrow> fs \<Rightarrow> bool" where
  "kept dir F0 s \<longleftrightarrow> (\<exists>F. filesAre F s \<and> keptFiles dir F0 F)"

lemma idle_kept: "idleFiles dir F0 F \<Longrightarrow> keptFiles dir F0 F"
  unfolding idleFiles_def keptFiles_def by (metis places(8))

lemma keptI: "filesAre F s \<Longrightarrow> keptFiles dir F0 F \<Longrightarrow> kept dir F0 s"
  by (auto simp: kept_def)

lemma idleI: "filesAre F s \<Longrightarrow> idleFiles dir F0 F \<Longrightarrow> idle dir F0 s"
  by (auto simp: idle_def)

lemma plain_hex [simp]: "plain (EncodeToString b)" "plain ''legacy''"
  using set_EncodeToString [of b] by (auto simp: plain_def hexDigits_def)

text \<open>From a triple for each content of the disk to one for \<open>idle\<close>.\<close>

lemma idle_triple:
  assumes "\<And>F. idleFiles dir F0 F \<Longrightarrow> triple (filesAre F) m Q E"
  shows "triple (on (idle dir F0)) (fsE m) (\<lambda>x. on (Q x)) (on E)"
  by (rule triple_fsE) (use assms in \<open>auto simp: idle_def triple_def\<close>)

lemma idle_read:
  assumes "\<And>F. keeps (filesAre F) m"
  shows "triple (on (idle dir F0)) (fsE m) (\<lambda>_. on (idle dir F0)) (on (idle dir F0))"
  by (rule idle_triple, rule triple_conseq [OF triple_keeps [OF assms]]) (auto intro: idleI)

lemma idle_okE:
  "triple (on (idle dir F0)) m (\<lambda>_. on (idle dir F0)) (on (idle dir F0)) \<Longrightarrow>
     triple (on (idle dir F0)) (okE m) (\<lambda>_. on (idle dir F0)) (on (idle dir F0))"
  by (erule triple_okE) auto

lemma idle_readActive:
  "triple (on (idle dir F0)) (fsE (osReadFile (activeFilePath dir)))
     (\<lambda>d h. idle dir F0 (ho_fs h) \<and> plain (bytesToString d)) (on (idle dir F0))"
  by (rule idle_triple, rule triple_conseq [OF readFile_files]) (auto intro: idleI simp: idleFiles_def)

lemma migrationPubkeyHex_plain:
  "triple (on (idle dir F0)) (migrationPubkeyHex dir) (\<lambda>x h. idle dir F0 (ho_fs h) \<and> plain x) (on (idle dir F0))"
proof -
  have none: "triple (on (idle dir F0)) (bindE (okE (fsE (osReadFile (activeFilePath dir)))) (\<lambda>data. case data of
      Some d \<Rightarrow> if 0 < length d then retE (bytesToString d) else retE ''legacy''
    | None \<Rightarrow> retE ''legacy'')) (\<lambda>x h. idle dir F0 (ho_fs h) \<and> plain x) (on (idle dir F0))"
    by (rule triple_bindE [OF triple_okE [OF idle_readActive, where
          R = "\<lambda>data h. idle dir F0 (ho_fs h) \<and> (\<forall>d. data = Some d \<longrightarrow> plain (bytesToString d))"]])
      (auto intro!: triple_retE split: option.splits)
  show ?thesis
  proof (rule tripleI)
    fix h x h'
    assume i: "on (idle dir F0) h" and run: "migrationPubkeyHex dir h = (Inr x, h')"
    show "idle dir F0 (ho_fs h') \<and> plain x"
    proof (cases "ho_kp h")
      case None
      with run show ?thesis
        unfolding migrationPubkeyHex_def by (simp only: option.case) (rule tripleD_Inr [OF none i])
    next
      case (Some kp)
      with run i show ?thesis by (auto simp: migrationPubkeyHex_def)
    qed
  next
    fix h e h'
    assume i: "on (idle dir F0) h" and run: "migrationPubkeyHex dir h = (Inl e, h')"
    show "on (idle dir F0) h'"
    proof (cases "ho_kp h")
      case None
      with run show ?thesis
        unfolding migrationPubkeyHex_def by (simp only: option.case) (rule tripleD_Inl [OF none i])
    next
      case (Some kp)
      with run show ?thesis by (simp add: migrationPubkeyHex_def)
    qed
  qed
qed

lemma triple_pure: "(c \<Longrightarrow> triple P m Q E) \<Longrightarrow> triple (\<lambda>h. P h \<and> c) m Q E"
  by (auto simp: triple_def)

lemma writeActive_idle:
  assumes "plainPath dir" "plain x"
  shows "triple (on (idle dir F0)) (fsE (writeOwnerOnlyFile (activeFilePath dir) (stringToBytes x)))
     (\<lambda>_. on (idle dir F0)) (on (idle dir F0))"
proof (rule idle_triple, rule triple_conseq [OF writeOwnerOnlyFile_files])
  fix F s
  assume F: "idleFiles dir F0 F"
  then have F': "idleFiles dir F0 (F(activeFilePath dir \<mapsto> stringToBytes x))"
    using assms(2) by (simp add: idleFiles_def)
  then show "filesAre (F(activeFilePath dir \<mapsto> stringToBytes x)) s \<Longrightarrow> idle dir F0 s" by (rule idleI [rotated])
  show "filesAre F s \<or> filesAre (F(activeFilePath dir \<mapsto> stringToBytes x)) s \<Longrightarrow> idle dir F0 s"
    using F F' by (auto intro: idleI)
qed (use assms(1) in simp_all)

lemma copyLegacyKey_idle:
  assumes "F0 (legacyKeyPath dir) = None"
  shows "triple (on (idle dir F0)) (copyLegacyKey (legacyKeyPath dir) p) (\<lambda>_. on (idle dir F0)) (on (idle dir F0))"
proof -
  have no: "triple (on (idle dir F0)) (fsE (osReadFile (legacyKeyPath dir))) (\<lambda>_ _. False) (on (idle dir F0))"
    by (rule idle_triple, rule triple_conseq [OF readFile_files])
      (use assms in \<open>auto intro: idleI simp: idleFiles_def\<close>)
  have step: "triple (on (idle dir F0)) (bindE (wrapE ''read legacy key'' (fsE (osReadFile (legacyKeyPath dir)))) f)
      (\<lambda>_. on (idle dir F0)) (on (idle dir F0))" for f :: "bytes \<Rightarrow> (Holder, unit) go"
    by (rule triple_bindE [OF triple_wrapE [OF no]]) (simp add: triple_def)
  show ?thesis
    unfolding copyLegacyKey_def
    by (rule triple_bindE [OF idle_okE [OF idle_read]], rule keeps_intro) (simp add: triple_retE step)
qed

lemma migrate_idle:
  assumes "plainPath dir" "F0 (legacyKeyPath dir) = None"
  shows "triple (on (idle dir F0)) (migrateIfNeeded dir) (\<lambda>_. on (idle dir F0)) (on (idle dir F0))"
proof -
  have rm: "triple (on (idle dir F0)) (fsE (osRemove (legacyKeyPath dir))) (\<lambda>_. on (idle dir F0)) (on (idle dir F0))"
    by (rule idle_triple, rule triple_conseq [OF remove_files(1)])
      (use assms(2) in \<open>auto intro: idleI simp: idleFiles_def fun_upd_idem\<close>)
  have mk: "triple (on (idle dir F0)) (fsE (osMkdirAll (keysDir dir) 448)) (\<lambda>_. on (idle dir F0)) (on (idle dir F0))"
    using assms(1) by (intro idle_read keeps_filesAre_osMkdirAll) simp
  show ?thesis
    unfolding migrateIfNeeded_def
  proof (rule triple_bindE [OF idle_okE [OF idle_read]], rule keeps_intro)
    fix info
    have act: "triple (on (idle dir F0)) (whenE (x \<noteq> ''legacy'')
        (bindE (okE (fsE (osStat (activeFilePath dir)))) (\<lambda>active.
         whenE (active = Some None)
           (logE (fsE (writeOwnerOnlyFile (activeFilePath dir) (stringToBytes x)))))))
        (\<lambda>_. on (idle dir F0)) (on (idle dir F0))" if "plain x" for x
      unfolding whenE_def
      by (auto intro!: triple_retE triple_bindE [OF idle_okE [OF idle_read]] keeps_intro
          log_triple [OF writeActive_idle [OF assms(1) that]])
    have "triple (on (idle dir F0)) (bindE (migrationPubkeyHex dir) (\<lambda>pubkeyHex.
       seqE (wrapE ''create keys directory'' (fsE (osMkdirAll (keysDir dir) 448)))
      (seqE (copyLegacyKey (legacyKeyPath dir) (keyFilePath dir pubkeyHex))
      (seqE (logE (fsE (osRemove (legacyKeyPath dir))))
            (whenE (pubkeyHex \<noteq> ''legacy'')
              (bindE (okE (fsE (osStat (activeFilePath dir)))) (\<lambda>active.
               whenE (active = Some None)
                 (logE (fsE (writeOwnerOnlyFile (activeFilePath dir) (stringToBytes pubkeyHex)))))))))))
       (\<lambda>_. on (idle dir F0)) (on (idle dir F0))"
      by (rule triple_bindE [OF migrationPubkeyHex_plain], rule triple_pure,
          rule triple_seqE [OF triple_wrapE [OF mk]], rule triple_seqE [OF copyLegacyKey_idle],
          rule assms(2), rule triple_seqE [OF log_triple [OF rm]], assumption, assumption, assumption)
        (rule act)
    then show "triple (on (idle dir F0)) (if info = Some None then retE () else
        bindE (migrationPubkeyHex dir) (\<lambda>pubkeyHex.
         seqE (wrapE ''create keys directory'' (fsE (osMkdirAll (keysDir dir) 448)))
        (seqE (copyLegacyKey (legacyKeyPath dir) (keyFilePath dir pubkeyHex))
        (seqE (logE (fsE (osRemove (legacyKeyPath dir))))
              (whenE (pubkeyHex \<noteq> ''legacy'')
                (bindE (okE (fsE (osStat (activeFilePath dir)))) (\<lambda>active.
                 whenE (active = Some None)
                   (logE (fsE (writeOwnerOnlyFile (activeFilePath dir) (stringToBytes pubkeyHex)))))))))))
       (\<lambda>_. on (idle dir F0)) (on (idle dir F0))"
      by (simp add: triple_retE)
  qed
qed

lemma resolve_plain:
  "triple (on (idle dir F0)) (resolveActivePubkey dir) (\<lambda>x h. idle dir F0 (ho_fs h) \<and> plain x) (on (idle dir F0))"
proof -
  have active: "triple (on (idle dir F0)) (readActivePubkeyHex dir) (\<lambda>x h. idle dir F0 (ho_fs h) \<and> plain x)
      (on (idle dir F0))"
    unfolding readActivePubkeyHex_def Let_def
    by (rule triple_bindE [OF triple_wrapE [OF idle_readActive]], rule triple_pure)
      (auto intro!: triple_retE triple_throwE)
  have names: "triple (on (idle dir F0)) (okE (fsE (osReadDir (keysDir dir))))
      (\<lambda>r h. idle dir F0 (ho_fs h) \<and> (\<forall>ns. r = Some ns \<longrightarrow> (\<forall>n\<in>set ns. plain n))) (on (idle dir F0))"
    by (rule triple_okE [OF idle_triple, OF triple_conseq [OF readDir_files]]) (auto intro: idleI)
  have sub: "plain (take k n)" if "plain n" for k n
    using that by (auto simp: plain_def dest: in_set_takeD)
  have fallback: "triple (on (idle dir F0)) (bindE (okE (fsE (osReadDir (keysDir dir)))) (\<lambda>entries. case entries of
         Some [name] \<Rightarrow>
           if length name < 4 then throwE (Panic ''slice bounds out of range'')
           else retE (take (length name - 4) name)
       | _ \<Rightarrow> throwE err)) (\<lambda>x h. idle dir F0 (ho_fs h) \<and> plain x) (on (idle dir F0))" for err
    by (rule triple_bindE [OF names], rule triple_pure)
      (auto intro!: triple_retE triple_throwE sub split: option.splits list.splits)
  show ?thesis
    unfolding resolveActivePubkey_def
    by (rule triple_catchE [OF active fallback])
qed

lemma kept_rules:
  "keptFiles dir F0 F \<Longrightarrow> keptFiles dir F0 (F(activeFilePath dir := v))"
  "keptFiles dir F0 F \<Longrightarrow> keyPlace dir b \<Longrightarrow> F b = None \<Longrightarrow> a \<noteq> b \<Longrightarrow> keptFiles dir F0 (F(b := F a, a := None))"
  "keptFiles dir F0 F \<Longrightarrow> keyPlace dir b \<Longrightarrow> F a = F b \<Longrightarrow> a \<noteq> b \<Longrightarrow> keptFiles dir F0 (F(a := None))"
proof -
  assume k: "keptFiles dir F0 F"
  show "keptFiles dir F0 (F(activeFilePath dir := v))"
    using k unfolding keptFiles_def by (metis fun_upd_other places(8))
  show "keptFiles dir F0 (F(b := F a, a := None))" if "keyPlace dir b" "F b = None" "a \<noteq> b"
    using k that unfolding keptFiles_def by (metis fun_upd_apply option.distinct(1))
  show "keptFiles dir F0 (F(a := None))" if "keyPlace dir b" "F a = F b" "a \<noteq> b"
    using k that unfolding keptFiles_def by (metis fun_upd_apply)
qed

lemma filesEqual_files:
  assumes "\<not> isTemp a" "\<not> isTemp b"
  shows "triple (on (filesAre F)) (filesEqual a b)
     (\<lambda>r h. filesAre F (ho_fs h) \<and> F a \<noteq> None \<and> (r = None \<longrightarrow> F b = None) \<and>
       (r = Some True \<longrightarrow> F a = F b)) (on (filesAre F))"
proof -
  have b: "triple (on (filesAre F)) (fsE (readIfExists b)) (\<lambda>d h. filesAre F (ho_fs h) \<and> F b = d) (on (filesAre F))"
    by (rule triple_conseq [OF triple_fsE [OF readIfExists_files]]) (use assms(2) in auto)
  have a: "triple (on (filesAre F)) (fsE (osReadFile a)) (\<lambda>d h. filesAre F (ho_fs h) \<and> F a = Some d) (on (filesAre F))"
    by (rule triple_conseq [OF triple_fsE [OF readFile_files]]) (use assms(1) in auto)
  show ?thesis
    unfolding filesEqual_def
    by (rule triple_bindE [OF triple_wrapE [OF a]], rule triple_pure, rule triple_bindE [OF b], rule triple_pure)
      (auto intro!: triple_retE split: option.splits)
qed

lemma writeActive_files:
  assumes "plainPath dir"
  shows "triple (on (filesAre F)) (writeActivePubkeyHex dir x)
     (\<lambda>_. on (filesAre (F(activeFilePath dir \<mapsto> stringToBytes x))))
     (\<lambda>h. filesAre F (ho_fs h) \<or> filesAre (F(activeFilePath dir \<mapsto> stringToBytes x)) (ho_fs h))"
  unfolding writeActivePubkeyHex_def
  by (rule triple_seqE [OF triple_wrapE [OF triple_conseq [OF triple_fsE [OF triple_keeps
        [OF keeps_filesAre_osMkdirAll]]]] triple_fsE [OF writeOwnerOnlyFile_files]])
    (use assms in \<open>auto simp: plain_def\<close>)

lemma undoRename_kept:
  assumes "keptFiles dir F0 F" "keyPlace dir a" "F a = None" "a \<noteq> b" "\<not> isTemp a" "\<not> isTemp b" "plainPath a"
  shows "triple (on (filesAre F)) (undoRename b a err) Q (on (kept dir F0))"
proof -
  have m: "keptFiles dir F0 (F(a := F b, b := None))" using assms by (intro kept_rules(2)) auto
  have "triple (on (filesAre F)) (okE (fsE (renameFileAndSync b a))) (\<lambda>_. on (kept dir F0)) (on (kept dir F0))"
    by (rule triple_okE [OF triple_fsE [OF rename_files]]) (use assms m in \<open>auto intro: keptI\<close>)
  then show ?thesis
    unfolding undoRename_def
    by (rule triple_bindE) (auto intro: triple_throwE split: option.splits)
qed

lemma keyPlace_key:
  assumes "plainPath dir" "plain z"
  shows "keyPlace dir (keyFilePath dir z)" "\<not> isTemp (keyFilePath dir z)" "plainPath (keyFilePath dir z)"
    "keyFilePath dir z \<noteq> []" "keyFilePath dir z \<noteq> activeFilePath dir"
proof -
  note e = keyFilePath_eq [OF assms(2)]
  have n: "plain (z @ ''.key'')" using assms(2) by (auto simp: plain_def)
  show place: "keyPlace dir (keyFilePath dir z)" unfolding e keyPlace_def using assms(2) by blast
  show "\<not> isTemp (keyFilePath dir z)" using assms(1) by (rule places_not_temp)
  show "plainPath (keyFilePath dir z)" unfolding e using n assms(1) by simp
  show "keyFilePath dir z \<noteq> []" unfolding e by simp
  show "keyFilePath dir z \<noteq> activeFilePath dir" using place places(8) by metis
qed

lemma updateSame_kept:
  assumes dir: "plainPath dir" and k: "keptFiles dir F0 F" and a: "\<not> isTemp a" "a \<noteq> activeFilePath dir"
    and b: "keyPlace dir b" "b \<noteq> activeFilePath dir" and ab: "a \<noteq> b" "F a = F b"
  shows "triple (on (filesAre F)) (seqE (wrapE ''update active identity'' (writeActivePubkeyHex dir y))
       (wrapE ''remove duplicate migrated key'' (fsE (removeFileAndSync a))))
     (\<lambda>_. on (kept dir F0)) (on (kept dir F0))"
proof -
  define F' where "F' = F(activeFilePath dir \<mapsto> stringToBytes y)"
  have act: "keptFiles dir F0 F'" unfolding F'_def by (rule kept_rules(1) [OF k])
  have "F' a = F' b" using a b ab unfolding F'_def by simp
  then have gone: "keptFiles dir F0 (F'(a := None))" by (rule kept_rules(3) [OF act b(1) _ ab(1)])
  have rm: "triple (on (filesAre F')) (wrapE ''remove duplicate migrated key'' (fsE (removeFileAndSync a)))
      (\<lambda>_. on (kept dir F0)) (on (kept dir F0))"
    by (rule triple_wrapE, rule triple_conseq [OF triple_fsE [OF remove_files(2) [OF a(1)]]])
      (use gone act in \<open>auto intro: keptI\<close>)
  have wr: "triple (on (filesAre F)) (wrapE ''update active identity'' (writeActivePubkeyHex dir y))
      (\<lambda>_. on (filesAre F')) (on (kept dir F0))"
    by (rule triple_wrapE, rule triple_conseq [OF writeActive_files [OF dir, of F y]], assumption)
      (use k act in \<open>auto intro: keptI simp: F'_def\<close>)
  show ?thesis by (rule triple_seqE [OF wr rm])
qed

lemma renameKey_kept:
  assumes dir: "plainPath dir" and k: "keptFiles dir F0 F"
    and a: "keyPlace dir a" "\<not> isTemp a" "a \<noteq> activeFilePath dir" "plainPath a" "F a \<noteq> None"
    and b: "keyPlace dir b" "\<not> isTemp b" "b \<noteq> activeFilePath dir" "plainPath b" "F b = None"
    and ab: "a \<noteq> b"
  shows "triple (on (filesAre F)) (seqE (wrapE ''rename migrated key'' (fsE (renameFileAndSync a b)))
       (catchE (writeActivePubkeyHex dir y) (undoRename b a)))
     (\<lambda>_. on (kept dir F0)) (on (kept dir F0))"
proof -
  define G where "G = F(b := F a, a := None)"
  define G' where "G' = G(activeFilePath dir \<mapsto> stringToBytes y)"
  have moved: "keptFiles dir F0 G" unfolding G_def by (rule kept_rules(2) [OF k b(1) b(5) ab])
  have act: "keptFiles dir F0 G'" unfolding G'_def by (rule kept_rules(1) [OF moved])
  have "G a = None" "G' a = None" using a(3) by (simp_all add: G_def G'_def)
  note undo = undoRename_kept [OF moved a(1) this(1) ab a(2) b(2) a(4)]
    undoRename_kept [OF act a(1) this(2) ab a(2) b(2) a(4)]
  have un: "triple (\<lambda>h. filesAre G (ho_fs h) \<or> filesAre G' (ho_fs h)) (undoRename b a err)
      (\<lambda>_. on (kept dir F0)) (on (kept dir F0))" for err
    using undo [of err "\<lambda>_. on (kept dir F0)"] unfolding triple_def by blast
  have wr: "triple (on (filesAre G)) (writeActivePubkeyHex dir y)
      (\<lambda>_. on (kept dir F0)) (\<lambda>h. filesAre G (ho_fs h) \<or> filesAre G' (ho_fs h))"
    by (rule triple_conseq [OF writeActive_files [OF dir, of G y]], assumption)
      (use act in \<open>auto intro: keptI simp: G'_def\<close>)
  have mv: "triple (on (filesAre F)) (wrapE ''rename migrated key'' (fsE (renameFileAndSync a b)))
      (\<lambda>_. on (filesAre G)) (on (kept dir F0))"
    by (rule triple_wrapE, rule triple_conseq [OF triple_fsE [OF rename_files [OF a(2) b(2) ab b(4), of F]]], assumption)
      (use k moved in \<open>auto intro: keptI simp: G_def\<close>)
  show ?thesis
    by (rule triple_seqE [OF mv triple_catchE [OF wr un]]) (use moved act in \<open>auto intro: keptI\<close>)
qed

lemma fixMigratedKeyName_kept:
  assumes dir: "plainPath dir" and x: "plain x"
  shows "triple (on (idle dir F0)) (fixMigratedKeyName dir kp x (keyFilePath dir x)) (\<lambda>_. on (kept dir F0)) (on (kept dir F0))"
proof -
  define y where "y = EncodeToString (PublicKeyBytes kp)"
  define a where "a = keyFilePath dir x"
  define b where "b = keyFilePath dir y"
  have y: "plain y" by (simp add: y_def)
  note a = keyPlace_key [OF dir x, folded a_def] and b = keyPlace_key [OF dir y, folded b_def]
  have fin: "triple (on (filesAre F)) (fixMigratedKeyName dir kp x a) (\<lambda>_. on (kept dir F0)) (on (kept dir F0))"
    if F: "idleFiles dir F0 F" for F
  proof (cases "x = y")
    case True
    have k: "keptFiles dir F0 F" by (rule idle_kept [OF F])
    from True show ?thesis
      unfolding fixMigratedKeyName_def Let_def y_def [symmetric]
      using k by (auto intro!: triple_retE keptI)
  next
    case False
    have k: "keptFiles dir F0 F" by (rule idle_kept [OF F])
    have ab: "a \<noteq> b"
      using False unfolding a_def b_def keyFilePath_eq [OF x] keyFilePath_eq [OF y] by simp
    have eq: "triple (on (filesAre F)) (wrapE ''inspect existing key destination'' (filesEqual a b))
       (\<lambda>r h. filesAre F (ho_fs h) \<and> (F a \<noteq> None \<and> (r = None \<longrightarrow> F b = None) \<and> (r = Some True \<longrightarrow> F a = F b)))
       (on (kept dir F0))"
      by (rule triple_wrapE, rule triple_conseq [OF filesEqual_files [OF a(2) b(2), of F]], assumption)
        (use k in \<open>auto intro: keptI\<close>)
    show ?thesis
      unfolding fixMigratedKeyName_def Let_def y_def [symmetric] b_def [symmetric] if_not_P [OF False]
    proof (rule triple_bindE [OF eq], rule triple_pure)
      fix r
      assume r: "F a \<noteq> None \<and> (r = None \<longrightarrow> F b = None) \<and> (r = Some True \<longrightarrow> F a = F b)"
      show "triple (on (filesAre F)) (case r of
            None \<Rightarrow> seqE (wrapE ''rename migrated key'' (fsE (renameFileAndSync a b)))
              (catchE (writeActivePubkeyHex dir y) (undoRename b a))
          | Some True \<Rightarrow> seqE (wrapE ''update active identity'' (writeActivePubkeyHex dir y))
              (wrapE ''remove duplicate migrated key'' (fsE (removeFileAndSync a)))
          | Some False \<Rightarrow> throwE (Err ''destination key file already exists with different contents''))
         (\<lambda>_. on (kept dir F0)) (on (kept dir F0))"
      proof (cases r)
        case None
        with r have "F a \<noteq> None" "F b = None" by auto
        from renameKey_kept [OF dir k a(1,2,5,3) this(1) b(1,2,5,3) this(2) ab]
        show ?thesis unfolding None option.case .
      next
        case (Some same)
        show ?thesis
        proof (cases same)
          case True
          with Some r have "F a = F b" by simp
          from updateSame_kept [OF dir k a(2,5) b(1,5) ab this]
          show ?thesis unfolding Some option.case by (simp only: True bool.case)
        next
          case False
          have "triple (on (filesAre F)) (throwE e) (\<lambda>_. on (kept dir F0)) (on (kept dir F0))" for e
            by (rule triple_throwE) (use k in \<open>auto intro: keptI\<close>)
          then show ?thesis unfolding Some option.case using False by (simp only: bool.case)
        qed
      qed
    qed
  qed
  show ?thesis
    unfolding a_def [symmetric] using fin by (auto simp: idle_def triple_def)
qed

section \<open>What an unlock keeps and what it returns\<close>

lemma keeps_hdb [keeps_intro]: "keeps (on P) (hdbE m)"
  unfolding keeps_def onE_def by (auto split: prod.splits)

lemma keeps_register: "keeps (on P) (ensureIdentityRegistered kp)"
proof -
  have "keeps (on P) (bindE (okE (hdbE (IdentityExists (PublicKeyBytes kp)))) (\<lambda>exists.
       seqE (whenE (exists = Some False)
              (bindE (getE (\<lambda>h. now_ms (ho_db h))) (\<lambda>now.
               logE (hdbE (InsertIdentity (PublicKeyBytes kp) DefaultDisplayName True now)))))
            (logE (hdbE (SetActiveIdentity (PublicKeyBytes kp))))))"
    by (intro keeps_intro)
  then show ?thesis by (auto simp: keeps_def ensureIdentityRegistered_def)
qed

lemma keeps_SetKey [keeps_intro]: "keeps (on P) (SetKey kp)"
  unfolding SetKey_def by (rule keeps_modifyE) simp

lemma keeps_load [keeps_intro]: "keeps (filesAre F) (LoadEncryptedKey kr p)"
  unfolding LoadEncryptedKey_def by (intro keeps_intro)

lemma finish_kept:
  "triple (on P) (seqE (ensureIdentityRegistered kp) (seqE (SetKey k) (retE kp))) (\<lambda>_. on P) (on P)"
  by (intro triple_keeps keeps_seqE keeps_register keeps_intro)

lemma Unlock_kept:
  assumes dir: "plainPath dir" and legacy: "F0 (legacyKeyPath dir) = None"
  shows "triple (on (idle dir F0)) (Unlock kr dir pass) (\<lambda>_. on (kept dir F0)) (on (kept dir F0))"
proof -
  have weak: "on (kept dir F0) h" if "on (idle dir F0) h" for h
    using that by (auto simp: idle_def intro: keptI idle_kept)
  have body: "triple (on (idle dir F0)) (bindE (wrapE ''load key'' (fsE (LoadEncryptedKey kr (keyFilePath dir x)))) (\<lambda>enc.
     bindE (wrapE ''decrypt key'' (liftE (DecryptPrivateKey kr (Some enc) pass))) (\<lambda>privKey.
     bindE (liftE (KeyPairFromPrivateKey privKey)) (\<lambda>kp.
     seqE (wrapE ''finalize migrated key path'' (fixMigratedKeyName dir kp x (keyFilePath dir x)))
    (seqE (ensureIdentityRegistered kp) (seqE (SetKey (Some kp)) (retE kp)))))))
     (\<lambda>_. on (kept dir F0)) (on (kept dir F0))" if x: "plain x" for x
  proof (rule triple_bindE [where R = "\<lambda>_. on (idle dir F0)"], rule triple_wrapE,
      rule triple_conseq [OF idle_read [of _ dir F0]])
    fix enc
    show "triple (on (idle dir F0)) (bindE (wrapE ''decrypt key'' (liftE (DecryptPrivateKey kr (Some enc) pass))) (\<lambda>privKey.
     bindE (liftE (KeyPairFromPrivateKey privKey)) (\<lambda>kp.
     seqE (wrapE ''finalize migrated key path'' (fixMigratedKeyName dir kp x (keyFilePath dir x)))
    (seqE (ensureIdentityRegistered kp) (seqE (SetKey (Some kp)) (retE kp))))))
     (\<lambda>_. on (kept dir F0)) (on (kept dir F0))"
    proof (rule triple_bindE [where R = "\<lambda>_. on (idle dir F0)"], rule triple_wrapE, rule triple_liftE)
      fix privKey
      show "triple (on (idle dir F0)) (bindE (liftE (KeyPairFromPrivateKey privKey)) (\<lambda>kp.
         seqE (wrapE ''finalize migrated key path'' (fixMigratedKeyName dir kp x (keyFilePath dir x)))
        (seqE (ensureIdentityRegistered kp) (seqE (SetKey (Some kp)) (retE kp)))))
         (\<lambda>_. on (kept dir F0)) (on (kept dir F0))"
        by (rule triple_bindE [where R = "\<lambda>_. on (idle dir F0)"], rule triple_liftE, assumption, erule weak,
            rule triple_seqE [OF triple_wrapE [OF fixMigratedKeyName_kept [OF dir x]] finish_kept])
    qed (assumption, erule weak)
  qed (rule keeps_load, assumption, assumption, erule weak)
  have "triple (on (idle dir F0)) (logE (migrateIfNeeded dir)) (\<lambda>_. on (idle dir F0)) (on (kept dir F0))"
    by (rule log_triple [OF migrate_idle [of dir F0, OF dir legacy]]) (assumption | erule weak)+
  moreover have "triple (on (idle dir F0)) (resolveActivePubkey dir)
      (\<lambda>x h. idle dir F0 (ho_fs h) \<and> plain x) (on (kept dir F0))"
    by (rule triple_conseq [OF resolve_plain]) (assumption | erule weak)+
  ultimately show ?thesis
    unfolding Unlock_def by (rule triple_seqE [OF _ triple_bindE]) (rule triple_pure, rule body)
qed

lemma tripleD: "triple P m Q E \<Longrightarrow> P s \<Longrightarrow> m s = (r, s') \<Longrightarrow> (case r of Inl e \<Rightarrow> E s' | Inr x \<Rightarrow> Q x s')"
  by (cases r) (auto dest: tripleD_Inr tripleD_Inl)

text \<open>
  C26. In a directory without a key of the old layout, and whose active file, if there is one, holds a name
  without a slash, unlocking loses no encrypted key: whatever system call fails on the way, the contents of
  every key file of the directory are afterwards still in a key file of it. Both conditions are needed: a key
  of the old layout can be lost (\<open>migration_loses_key\<close>), and so can one that the active file names by a path
  with a slash, which the switch of identities accepts (\<open>switched_loses_key\<close>).
\<close>

theorem unlock_loses_no_key:
  assumes "plainPath dir" "filesAre (fileData (ho_fs h)) (ho_fs h)" "fileData (ho_fs h) (legacyKeyPath dir) = None"
    and "\<And>d. fileData (ho_fs h) (activeFilePath dir) = Some d \<Longrightarrow> plain (bytesToString d)"
    and "Unlock kr dir pass h = (r, h')" "keyPlace dir p" "fileData (ho_fs h) p = Some d"
  shows "\<exists>q. keyPlace dir q \<and> fileData (ho_fs h') q = Some d"
proof -
  have "on (idle dir (fileData (ho_fs h))) h"
    using assms(2,4) by (auto simp: idle_def idleFiles_def)
  from tripleD [OF Unlock_kept this assms(5)] assms(1,3)
  have "kept dir (fileData (ho_fs h)) (ho_fs h')" by (cases r) auto
  then obtain F where F: "filesAre F (ho_fs h')" and k: "keptFiles dir (fileData (ho_fs h)) F"
    unfolding kept_def by blast
  obtain q where q: "keyPlace dir q" "F q = Some d"
    using k assms(6,7) unfolding keptFiles_def by blast
  have "\<not> isTemp q"
    using q(1) key_not_temp by (auto simp: keyPlace_def)
  with F q show ?thesis by (auto simp: filesAre_def)
qed

text \<open>The contents of a file other than the active one are those that a file had before.\<close>

definition oldFiles :: "path \<Rightarrow> (path \<Rightarrow> bytes option) \<Rightarrow> (path \<Rightarrow> bytes option) \<Rightarrow> bool" where
  "oldFiles dir F0 F \<longleftrightarrow> (\<forall>p d. p \<noteq> activeFilePath dir \<longrightarrow> \<not> isTemp p \<longrightarrow> F p = Some d \<longrightarrow> (\<exists>q. F0 q = Some d))"

definition old :: "path \<Rightarrow> (path \<Rightarrow> bytes option) \<Rightarrow> fs \<Rightarrow> bool" where
  "old dir F0 s \<longleftrightarrow> (\<exists>F. filesAre F s \<and> oldFiles dir F0 F)"

lemma oldI: "filesAre F s \<Longrightarrow> oldFiles dir F0 F \<Longrightarrow> old dir F0 s"
  by (auto simp: old_def)

lemma old_updates:
  "oldFiles dir F0 F \<Longrightarrow> oldFiles dir F0 (F(activeFilePath dir := v))"
  "oldFiles dir F0 F \<Longrightarrow> F0 q = Some d \<Longrightarrow> oldFiles dir F0 (F(p \<mapsto> d))"
  "oldFiles dir F0 F \<Longrightarrow> oldFiles dir F0 (F(p := None))"
  unfolding oldFiles_def by auto

lemma old_triple:
  assumes "\<And>F. oldFiles dir F0 F \<Longrightarrow> triple (filesAre F) m Q E"
  shows "triple (on (old dir F0)) (fsE m) (\<lambda>x. on (Q x)) (on E)"
  by (rule triple_fsE) (use assms in \<open>auto simp: old_def triple_def\<close>)

lemma old_read:
  assumes "\<And>F. keeps (filesAre F) m"
  shows "triple (on (old dir F0)) (fsE m) (\<lambda>_. on (old dir F0)) (on (old dir F0))"
  by (rule old_triple, rule triple_conseq [OF triple_keeps [OF assms]]) (auto intro: oldI)

lemma oldFilesD:
  "oldFiles dir F0 F \<Longrightarrow> F p = Some d \<Longrightarrow> p \<noteq> activeFilePath dir \<Longrightarrow> \<not> isTemp p \<Longrightarrow> \<exists>q. F0 q = Some d"
  by (simp add: oldFiles_def)

lemma old_wr:
  assumes "plainPath dir" "\<And>F. oldFiles dir F0 F \<Longrightarrow> oldFiles dir F0 (F(p \<mapsto> d))"
    and "\<not> isTemp p" "plainPath p" "p \<noteq> []"
  shows "triple (on (old dir F0)) (fsE (writeOwnerOnlyFile p d)) (\<lambda>_. on (old dir F0)) (on (old dir F0))"
proof (rule old_triple, rule triple_conseq [OF writeOwnerOnlyFile_files [OF assms(3-5)]])
  fix F s
  assume F: "oldFiles dir F0 F"
  then show "filesAre (F(p \<mapsto> d)) s \<Longrightarrow> old dir F0 s" by (blast intro: oldI assms(2))
  show "filesAre F s \<or> filesAre (F(p \<mapsto> d)) s \<Longrightarrow> old dir F0 s" using F by (blast intro: oldI assms(2))
qed simp

lemma keeps_old_reads:
  "keeps (on (old dir F0)) (fsE (osStat p))" "keeps (on (old dir F0)) (fsE (osReadFile p))"
  "keeps (on (old dir F0)) (fsE (osReadDir p))"
  by (rule keeps_triple, rule old_read, rule keeps_intro)+

lemma keeps_old_removeLegacy: "keeps (on (old dir F0)) (fsE (osRemove (legacyKeyPath dir)))"
proof (rule keeps_triple, rule old_triple, rule triple_conseq [OF remove_files(1) [OF places(1)]])
  fix F s
  assume F: "oldFiles dir F0 F"
  then show "filesAre (F(legacyKeyPath dir := None)) s \<Longrightarrow> old dir F0 s" by (blast intro: oldI old_updates(3))
  show "filesAre F s \<Longrightarrow> old dir F0 s" using F by (rule oldI [rotated])
qed simp

lemma keeps_old_migrationPubkeyHex: "keeps (on (old dir F0)) (migrationPubkeyHex dir)"
proof -
  have "keeps (on (old dir F0)) (bindE (okE (fsE (osReadFile (activeFilePath dir)))) (\<lambda>data. case data of
      Some d \<Rightarrow> if 0 < length d then retE (bytesToString d) else retE ''legacy''
    | None \<Rightarrow> retE ''legacy''))"
    by (intro keeps_intro keeps_old_reads)
  then show ?thesis
    unfolding migrationPubkeyHex_def by (auto simp: keeps_def split: option.splits)
qed

lemma keeps_old_copyLegacyKey:
  assumes "plainPath dir"
  shows "keeps (on (old dir F0)) (copyLegacyKey (legacyKeyPath dir) (keyFilePath dir x))"
proof -
  let ?p = "keyFilePath dir x"
  have p: "\<not> isTemp ?p" "plainPath ?p" "?p \<noteq> []"
    using keyFilePath_shape [OF assms, of x] key_not_temp by (auto simp: plain_def)
  have rd: "triple (on (old dir F0)) (fsE (osReadFile (legacyKeyPath dir)))
      (\<lambda>d h. old dir F0 (ho_fs h) \<and> (\<exists>q. F0 q = Some d)) (on (old dir F0))"
    by (rule old_triple, rule triple_conseq [OF readFile_files])
      (auto intro: oldI dest: oldFilesD)
  have "triple (on (old dir F0)) (bindE (wrapE ''read legacy key'' (fsE (osReadFile (legacyKeyPath dir)))) (\<lambda>data.
       wrapE ''write migrated key'' (fsE (writeOwnerOnlyFile ?p data))))
     (\<lambda>_. on (old dir F0)) (on (old dir F0))"
    by (rule triple_bindE [OF triple_wrapE [OF rd]], rule triple_pure, rule triple_wrapE)
      (rule old_wr [OF assms _ p], blast intro: old_updates(2))
  from keeps_triple [OF this] show ?thesis
    unfolding copyLegacyKey_def
    by (intro keeps_bindE [OF keeps_okE [OF keeps_old_reads(1)]] keeps_if [OF keeps_retE])
qed

lemma keeps_old_migrate:
  assumes "plainPath dir"
  shows "keeps (on (old dir F0)) (migrateIfNeeded dir)"
proof -
  have mk: "keeps (on (old dir F0)) (fsE (osMkdirAll (keysDir dir) 448))"
    by (rule keeps_triple, rule old_read, rule keeps_filesAre_osMkdirAll) (simp add: assms)
  have act: "keeps (on (old dir F0)) (fsE (writeOwnerOnlyFile (activeFilePath dir) x))" for x
    by (rule keeps_triple, rule old_wr [OF assms]) (use assms in \<open>simp_all add: old_updates\<close>)
  show ?thesis
    unfolding migrateIfNeeded_def
    by (intro keeps_intro keeps_old_reads keeps_old_migrationPubkeyHex keeps_old_removeLegacy
        keeps_old_copyLegacyKey [OF assms] mk act)
qed

lemma keeps_old_resolve: "keeps (on (old dir F0)) (resolveActivePubkey dir)"
  unfolding resolveActivePubkey_def readActivePubkeyHex_def Let_def
  by (intro keeps_intro keeps_old_reads) (auto intro!: keeps_intro split: list.splits)

definition sealed :: "keyring \<Rightarrow> string \<Rightarrow> (path \<Rightarrow> bytes option) \<Rightarrow> bytes \<Rightarrow> bool" where
  "sealed kr pass F priv \<longleftrightarrow> (\<exists>q d enc. F q = Some d \<and> kr_unmarshal kr d = Inr enc \<and>
     DecryptPrivateKey kr (Some enc) pass = Inr priv)"

lemma load_old:
  assumes "plainPath dir"
  shows "triple (on (old dir F0)) (fsE (LoadEncryptedKey kr (keyFilePath dir x)))
    (\<lambda>enc _. \<exists>q d. F0 q = Some d \<and> kr_unmarshal kr d = Inr enc) (\<lambda>_. True)"
proof (rule triple_conseq [OF old_triple])
  fix F
  assume F: "oldFiles dir F0 F"
  have p: "keyFilePath dir x \<noteq> activeFilePath dir"
    using keyFilePath_shape [OF assms, of x]
    by (auto simp: activeFilePath_def dest!: arg_cong [of "_ @ ''.key''" _ "\<lambda>s. last s"])
  show "triple (filesAre F) (LoadEncryptedKey kr (keyFilePath dir x))
     (\<lambda>enc _. \<exists>q d. F0 q = Some d \<and> kr_unmarshal kr d = Inr enc) (\<lambda>_. True)"
    unfolding LoadEncryptedKey_def
  proof (rule triple_bindE [where R = "\<lambda>d _. \<exists>q. F0 q = Some d"])
    show "triple (filesAre F) (wrapE ''failed to read encrypted key'' (osReadFile (keyFilePath dir x)))
        (\<lambda>d _. \<exists>q. F0 q = Some d) (\<lambda>_. True)"
      by (rule triple_wrapE, rule triple_conseq [OF readFile_files [where F = F]])
        (use F p places_not_temp [OF assms] in \<open>auto dest: oldFilesD\<close>)
    show "triple (\<lambda>_. \<exists>q. F0 q = Some d) (wrapE ''failed to unmarshal encrypted key'' (liftE (kr_unmarshal kr d)))
        (\<lambda>enc _. \<exists>q d. F0 q = Some d \<and> kr_unmarshal kr d = Inr enc) (\<lambda>_. True)" for d
      by (rule triple_wrapE, rule triple_liftE) auto
  qed
qed auto

lemma Unlock_sealed:
  assumes "plainPath dir"
  shows "triple (on (old dir F0)) (Unlock kr dir pass)
    (\<lambda>kp h. ho_kp h = Some kp \<and> sealed kr pass F0 (kp_PrivateKey kp)) (\<lambda>_. True)"
proof -
  have fin: "triple (\<lambda>_. sealed kr pass F0 (kp_PrivateKey kp))
      (seqE m (seqE m' (seqE (SetKey (Some kp)) (retE kp))))
      (\<lambda>kp h. ho_kp h = Some kp \<and> sealed kr pass F0 (kp_PrivateKey kp)) (\<lambda>_. True)"
    for kp and m m' :: "(Holder, unit) go"
    by (rule triple_seqE [where R = "\<lambda>_. sealed kr pass F0 (kp_PrivateKey kp)"], simp add: triple_def,
        rule triple_seqE [where R = "\<lambda>_. sealed kr pass F0 (kp_PrivateKey kp)"], simp add: triple_def)
      (auto simp: triple_def seqE_def run_bindE SetKey_def)
  show ?thesis
    unfolding Unlock_def
  proof (rule triple_seqE [where R = "on (old dir F0)"])
    show "triple (on (old dir F0)) (logE (migrateIfNeeded dir)) (\<lambda>_. on (old dir F0)) (\<lambda>_. True)"
      by (rule triple_conseq [OF triple_keeps [OF keeps_logE [OF keeps_old_migrate [OF assms]]]]) auto
    show "triple (on (old dir F0)) (bindE (resolveActivePubkey dir) (\<lambda>x.
       bindE (wrapE ''load key'' (fsE (LoadEncryptedKey kr (keyFilePath dir x)))) (\<lambda>enc.
       bindE (wrapE ''decrypt key'' (liftE (DecryptPrivateKey kr (Some enc) pass))) (\<lambda>privKey.
       bindE (liftE (KeyPairFromPrivateKey privKey)) (\<lambda>kp.
       seqE (wrapE ''finalize migrated key path'' (fixMigratedKeyName dir kp x (keyFilePath dir x)))
      (seqE (ensureIdentityRegistered kp) (seqE (SetKey (Some kp)) (retE kp))))))))
      (\<lambda>kp h. ho_kp h = Some kp \<and> sealed kr pass F0 (kp_PrivateKey kp)) (\<lambda>_. True)"
    proof (rule triple_bindE [where R = "\<lambda>_. on (old dir F0)"])
      show "triple (on (old dir F0)) (resolveActivePubkey dir) (\<lambda>_. on (old dir F0)) (\<lambda>_. True)"
        by (rule triple_conseq [OF triple_keeps [OF keeps_old_resolve]]) auto
      fix x
      have "triple (\<lambda>_. \<exists>q d. F0 q = Some d \<and> kr_unmarshal kr d = Inr enc)
         (bindE (wrapE ''decrypt key'' (liftE (DecryptPrivateKey kr (Some enc) pass))) (\<lambda>privKey.
         bindE (liftE (KeyPairFromPrivateKey privKey)) (\<lambda>kp.
         seqE (wrapE ''finalize migrated key path'' (fixMigratedKeyName dir kp x (keyFilePath dir x)))
        (seqE (ensureIdentityRegistered kp) (seqE (SetKey (Some kp)) (retE kp))))))
         (\<lambda>kp h. ho_kp h = Some kp \<and> sealed kr pass F0 (kp_PrivateKey kp)) (\<lambda>_. True)" for enc
        by (rule triple_bindE [where R = "\<lambda>priv _. sealed kr pass F0 priv"], rule triple_wrapE, rule triple_liftE,
            unfold sealed_def, blast, simp, fold sealed_def,
            rule triple_bindE [where R = "\<lambda>kp _. sealed kr pass F0 (kp_PrivateKey kp)"], rule triple_liftE)
          (auto simp: KeyPairFromPrivateKey_def split: if_splits intro: fin)
      then show "triple (on (old dir F0))
         (bindE (wrapE ''load key'' (fsE (LoadEncryptedKey kr (keyFilePath dir x)))) (\<lambda>enc.
         bindE (wrapE ''decrypt key'' (liftE (DecryptPrivateKey kr (Some enc) pass))) (\<lambda>privKey.
         bindE (liftE (KeyPairFromPrivateKey privKey)) (\<lambda>kp.
         seqE (wrapE ''finalize migrated key path'' (fixMigratedKeyName dir kp x (keyFilePath dir x)))
        (seqE (ensureIdentityRegistered kp) (seqE (SetKey (Some kp)) (retE kp)))))))
         (\<lambda>kp h. ho_kp h = Some kp \<and> sealed kr pass F0 (kp_PrivateKey kp)) (\<lambda>_. True)"
        by (rule triple_bindE [OF triple_wrapE [OF load_old [OF assms]]])
    qed
  qed
qed

section \<open>A failed unlock\<close>

abbreviation sameKey :: "KeyPair option \<Rightarrow> Holder \<Rightarrow> bool" where
  "sameKey k h \<equiv> ho_kp h = k"

lemma keeps_key_calls [keeps_intro]: "keeps (sameKey k) (fsE m)" "keeps (sameKey k) (hdbE m')"
  unfolding keeps_def onE_def by (auto split: prod.splits)

lemma keeps_key_migrate: "keeps (sameKey k) (migrateIfNeeded dir)"
proof -
  have "keeps (sameKey k) (bindE (okE (fsE (osReadFile (activeFilePath dir)))) (\<lambda>data. case data of
      Some d \<Rightarrow> if 0 < length d then retE (bytesToString d) else retE ''legacy''
    | None \<Rightarrow> retE ''legacy''))"
    by (intro keeps_intro)
  then have "keeps (sameKey k) (migrationPubkeyHex dir)"
    unfolding migrationPubkeyHex_def by (auto simp: keeps_def split: option.splits)
  then show ?thesis
    unfolding migrateIfNeeded_def copyLegacyKey_def by (intro keeps_intro)
qed

lemma keeps_key_resolve: "keeps (sameKey k) (resolveActivePubkey dir)"
  unfolding resolveActivePubkey_def readActivePubkeyHex_def Let_def
  by (intro keeps_intro) (auto intro!: keeps_intro split: list.splits)

lemma keeps_key_fix: "keeps (sameKey k) (fixMigratedKeyName dir kp x p)"
  unfolding fixMigratedKeyName_def Let_def filesEqual_def writeActivePubkeyHex_def undoRename_def
  by (intro keeps_intro) (auto intro!: keeps_intro split: bool.splits)

lemma keeps_key_register: "keeps (sameKey k) (ensureIdentityRegistered kp)"
proof -
  have "keeps (sameKey k) (bindE (okE (hdbE (IdentityExists (PublicKeyBytes kp)))) (\<lambda>exists.
       seqE (whenE (exists = Some False)
              (bindE (getE (\<lambda>h. now_ms (ho_db h))) (\<lambda>now.
               logE (hdbE (InsertIdentity (PublicKeyBytes kp) DefaultDisplayName True now)))))
            (logE (hdbE (SetActiveIdentity (PublicKeyBytes kp))))))"
    by (intro keeps_intro)
  then show ?thesis by (auto simp: keeps_def ensureIdentityRegistered_def)
qed

lemma Unlock_failed: "triple (sameKey k) (Unlock kr dir pass) (\<lambda>_ _. True) (sameKey k)"
proof -
  have set: "triple (sameKey k) (seqE (SetKey (Some kp)) (retE kp)) (\<lambda>_ _. True) (sameKey k)" for kp
    by (simp add: triple_def seqE_def run_bindE SetKey_def)
  note step = triple_bindE [where R = "\<lambda>_. sameKey k", OF triple_keeps] triple_seqE [where R = "sameKey k", OF triple_keeps]
  show ?thesis
    unfolding Unlock_def
    by (intro step set keeps_intro keeps_key_migrate keeps_key_resolve keeps_key_fix keeps_key_register)
qed

text \<open>
  C25. An identity is unlocked only with a key that a file of the disk held, that the given passphrase
  decrypts to the private key; then the holder has exactly it, and a failed unlock leaves the holder
  with the identity it had, whatever system call fails and with the old layout of the files or not.
\<close>

theorem unlock_only_with_passphrase:
  assumes "plainPath dir" "filesAre (fileData (ho_fs h)) (ho_fs h)" "Unlock kr dir pass h = (r, h')"
  shows "case r of
      Inl e \<Rightarrow> ho_kp h' = ho_kp h
    | Inr kp \<Rightarrow> ho_kp h' = Some kp \<and> (\<exists>q d enc. fileData (ho_fs h) q = Some d \<and>
        kr_unmarshal kr d = Inr enc \<and> DecryptPrivateKey kr (Some enc) pass = Inr (kp_PrivateKey kp))"
proof -
  have "on (old dir (fileData (ho_fs h))) h"
    using assms(2) by (auto simp: old_def oldFiles_def)
  from tripleD [OF Unlock_sealed [OF assms(1)] this assms(3)] tripleD [OF Unlock_failed refl assms(3)]
  show ?thesis by (cases r) (auto simp: sealed_def)
qed

section \<open>Examples, and two ways a key is lost\<close>

text \<open>A cipher whose key is the passphrase and whose ciphertext is the text; a file is the ciphertext.\<close>

definition exampleKeyring :: keyring where
  "exampleKeyring = \<lparr>kr_argon = (\<lambda>p salt ps. p), kr_seal = (\<lambda>k n t. t),
     kr_open = (\<lambda>k n t. if k = [112] then Some t else None), kr_marshal = (\<lambda>e. Inr (ek_Ciphertext e)),
     kr_unmarshal = (\<lambda>d. Inr \<lparr>ek_Salt = [], ek_Nonce = replicate 12 0, ek_Ciphertext = d,
       ek_Argon2Params = keyParams\<rparr>),
     kr_validMnemonic = (\<lambda>m. True), kr_pbkdf2 = (\<lambda>p s. replicate 64 1)\<rparr>"

definition exampleKey :: "byte \<Rightarrow> bytes" where "exampleKey b = replicate 64 b"

definition exampleHex :: "byte \<Rightarrow> string" where "exampleHex b = EncodeToString (replicate 32 b)"

definition exampleHolder :: "(path \<times> bytes) list \<Rightarrow> Holder" where
  "exampleHolder files = \<lparr>ho_kp = None,
     ho_fs = \<lparr>fs_nodes = [([''d''], FDir 448), ([''d'', ''identity''], FDir 448), (keysDir [''d''], FDir 448)] @
       map (\<lambda>(p, d). (p, FFile 384 d)) files, fs_faults = (\<lambda>_. None), fs_suffix = (\<lambda>_. ''1''), fs_step = 0\<rparr>,
     ho_db = emptyDB, ho_hasDB = False\<rparr>"

definition oneKey :: Holder where
  "oneKey = exampleHolder [(keysDir [''d''] @ [exampleHex 7 @ ''.key''], exampleKey 7)]"

lemma example_filesAre:
  assumes "\<forall>e\<in>set files. plainPath (fst e)"
  shows "filesAre (fileData (ho_fs (exampleHolder files))) (ho_fs (exampleHolder files))"
proof -
  have "plainPath p" if "node (ho_fs (exampleHolder files)) p \<noteq> None" for p
    using that assms
    by (force simp: node_def exampleHolder_def keysDir_def plain_def dest!: map_of_SomeD split: if_splits)
  then show ?thesis by (simp add: filesAre_def exampleHolder_def plain_def)
qed

lemma oneKey_unlocks: "fst (Unlock exampleKeyring [''d''] ''p'' oneKey) = Inr \<lparr>kp_PrivateKey = exampleKey 7, kp_PublicKey = replicate 32 7\<rparr>"
  by code_simp

lemma oneKey_wrong: "case fst (Unlock exampleKeyring [''d''] ''q'' oneKey) of Inl e \<Rightarrow> True | Inr kp \<Rightarrow> False"
  by code_simp

text \<open>The old key file is removed though its contents were not copied: a file was at the new place.\<close>

definition twoKeys :: Holder where
  "twoKeys = exampleHolder [(legacyKeyPath [''d''], exampleKey 7), (activeFilePath [''d''], stringToBytes (exampleHex 7)),
     (keysDir [''d''] @ [exampleHex 7 @ ''.key''], exampleKey 9)]"

definition contents :: "Holder \<Rightarrow> bytes set" where
  "contents h = (\<lambda>e. case snd e of FFile m d \<Rightarrow> d | FDir m \<Rightarrow> []) ` set (fs_nodes (ho_fs h))"

lemma migration_loses_key:
  "exampleKey 7 \<in> contents twoKeys"
  "case migrateIfNeeded [''d''] twoKeys of (r, h) \<Rightarrow> r = Inr () \<and> exampleKey 7 \<notin> contents h"
  by code_simp+

text \<open>
  A pubkey of a form that is a path to the key under another spelling becomes the active name; the next
  unlock takes the key for one to be renamed, finds it in place already and removes it.
\<close>

definition switchedName :: string where "switchedName = ''./'' @ exampleHex 7"

definition switched :: Holder where
  "switched = exampleHolder [(keysDir [''d''] @ [exampleHex 7 @ ''.key''], exampleKey 7),
     (activeFilePath [''d''], stringToBytes switchedName)]"

lemma switch_accepts_path:
  "case SwitchIdentity exampleKeyring [''d''] switchedName ''p'' oneKey of
     (r, h) \<Rightarrow> r = Inr () \<and> fs_nodes (ho_fs h) = fs_nodes (ho_fs switched)"
  by code_simp

lemma switched_loses_key:
  "exampleKey 7 \<in> contents switched"
  "case fixMigratedKeyName [''d''] \<lparr>kp_PrivateKey = exampleKey 7, kp_PublicKey = replicate 32 7\<rparr> switchedName
      (keyFilePath [''d''] switchedName) switched of (r, h) \<Rightarrow> r = Inr () \<and> exampleKey 7 \<notin> contents h"
  by code_simp+

lemma oneKey_files:
  "filesAre (fileData (ho_fs oneKey)) (ho_fs oneKey)" "plainPath [''d'']"
  "fileData (ho_fs oneKey) (legacyKeyPath [''d'']) = None" "fileData (ho_fs oneKey) (activeFilePath [''d'']) = None"
  "keyPlace [''d''] (keysDir [''d''] @ [exampleHex 7 @ ''.key''])"
  "fileData (ho_fs oneKey) (keysDir [''d''] @ [exampleHex 7 @ ''.key'']) = Some (exampleKey 7)"
proof -
  have p: "plain (exampleHex 7)" by (simp add: exampleHex_def)
  then show "filesAre (fileData (ho_fs oneKey)) (ho_fs oneKey)"
    unfolding oneKey_def by (intro example_filesAre) (auto simp: keysDir_def plain_def)
  show "keyPlace [''d''] (keysDir [''d''] @ [exampleHex 7 @ ''.key''])"
    using p unfolding keyPlace_def by blast
qed (simp_all add: plain_def oneKey_def exampleHolder_def fileData_def node_def legacyKeyPath_def
    activeFilePath_def keysDir_def)

theorem unlock_loses_no_key_witness:
  "\<exists>q. keyPlace [''d''] q \<and> fileData (ho_fs (snd (Unlock exampleKeyring [''d''] ''p'' oneKey))) q = Some (exampleKey 7)"
  by (rule unlock_loses_no_key [OF oneKey_files(2,1,3) _ surjective_pairing oneKey_files(5,6)])
    (simp add: oneKey_files(4))

theorem unlock_only_with_passphrase_witness:
  "ho_kp (snd (Unlock exampleKeyring [''d''] ''p'' oneKey)) =
      Some \<lparr>kp_PrivateKey = exampleKey 7, kp_PublicKey = replicate 32 7\<rparr> \<and>
   ho_kp (snd (Unlock exampleKeyring [''d''] ''q'' oneKey)) = None"
proof
  show "ho_kp (snd (Unlock exampleKeyring [''d''] ''p'' oneKey)) =
      Some \<lparr>kp_PrivateKey = exampleKey 7, kp_PublicKey = replicate 32 7\<rparr>"
    using unlock_only_with_passphrase [OF oneKey_files(2,1) surjective_pairing, of exampleKeyring "''p''"] oneKey_unlocks by simp
  show "ho_kp (snd (Unlock exampleKeyring [''d''] ''q'' oneKey)) = None"
    using unlock_only_with_passphrase [OF oneKey_files(2,1) surjective_pairing, of exampleKeyring "''q''"]
      oneKey_wrong by (auto simp: oneKey_def exampleHolder_def split: sum.splits)
qed

end
