(* ===== verification/WebAccessProps.thy ===== *)
theory WebAccessProps
  imports WebAccess
begin

text \<open>
  Properties of the access control: exactly which requests reach the routes of the server, and what a
  browser session and a form of the web interface need.
\<close>

section \<open>Handlers behind a guard\<close>

text \<open>
  \<open>guarded f c\<close>: \<open>f\<close> calls the handler it is given exactly if \<open>c\<close> holds. What it does with the answer is
  some \<open>k\<close> that does not read the clock.
\<close>

definition guarded :: "('a handler \<Rightarrow> Response \<times> 'a Srv) \<Rightarrow> bool \<Rightarrow> bool" where
  "guarded f c \<longleftrightarrow> (\<exists>k r w s res. (\<forall>x. sv_reads (snd (k x)) = sv_reads (snd x)) \<and>
     (\<forall>h. f h = (if c then k (h r w s) else res)))"

named_theorems guarded_intro

lemma guarded_call [guarded_intro]: "guarded (\<lambda>h. h r w s) True"
  unfolding guarded_def by (rule exI [of _ "\<lambda>x. x"]) auto

lemma guarded_refuse [guarded_intro]: "guarded (\<lambda>h. res) False"
  unfolding guarded_def by (rule exI [of _ "\<lambda>x. x"]) auto

lemma guarded_if [guarded_intro]:
  "guarded f c \<Longrightarrow> guarded g d \<Longrightarrow> guarded (\<lambda>h. if b then f h else g h) (if b then c else d)"
  by (cases b) simp_all

lemma guarded_then:
  assumes "guarded f c" "\<And>x. sv_reads (snd (k' x)) = sv_reads (snd x)"
  shows "guarded (\<lambda>h. k' (f h)) c"
proof -
  obtain k r w s res where k: "\<forall>x. sv_reads (snd (k x)) = sv_reads (snd x)"
    "\<forall>h. f h = (if c then k (h r w s) else res)"
    using assms(1) unfolding guarded_def by blast
  then have "\<forall>x. sv_reads (snd ((k' \<circ> k) x)) = sv_reads (snd x)"
    "\<forall>h. k' (f h) = (if c then (k' \<circ> k) (h r w s) else k' res)"
    using assms(2) by simp_all
  then show ?thesis unfolding guarded_def by blast
qed

text \<open>A guarded call depends on the handler exactly if the condition holds.\<close>

lemma guarded_reaches:
  assumes "guarded f c"
  shows "(\<exists>h h'. f h \<noteq> f h') \<longleftrightarrow> c"
proof -
  obtain k r w s res where k: "\<forall>x. sv_reads (snd (k x)) = sv_reads (snd x)"
    "\<forall>h. f h = (if c then k (h r w s) else res)"
    using assms unfolding guarded_def by blast
  show ?thesis
  proof
    assume "\<exists>h h'. f h \<noteq> f h'"
    then show c using k(2) by (cases c) simp_all
  next
    assume c
    let ?h = "\<lambda>n r w s. (w, s\<lparr>sv_reads := n\<rparr>)"
    have "sv_reads (snd (f (?h n))) = n" for n
      using k \<open>c\<close> by simp
    from this [of 0] this [of 1] have "f (?h 0) \<noteq> f (?h 1)" by auto
    then show "\<exists>h h'. f h \<noteq> f h'" by blast
  qed
qed

section \<open>The conditions\<close>

text \<open>What \<open>BrowserGuard\<close>, \<open>LocalOnly\<close> and the checks of the token let through.\<close>

definition browserAllowed :: "http_env \<Rightarrow> HttpRequest \<Rightarrow> bool" where
  "browserAllowed env r \<longleftrightarrow> ToLower (TrimSpace (hget r ''Sec-Fetch-Site'')) \<noteq> ''cross-site'' \<and>
     (let origin = TrimSpace (hget r ''Origin'') in origin = '''' \<or> OriginAllowed env r origin) \<and>
     (let referer = TrimSpace (hget r ''Referer'') in referer = '''' \<or> sameOriginURL env r referer) \<and>
     (requiresBrowserCSRF r \<longrightarrow> (case cookieValue r browserCSRFCookieName of
        None \<Rightarrow> False
      | Some token \<Rightarrow> validBrowserCSRFToken token \<and> TrimSpace (hget r browserCSRFHeaderName) = token))"

definition localPeer :: "http_env \<Rightarrow> bool \<Rightarrow> HttpRequest \<Rightarrow> bool" where
  "localPeer env allowForwarded r \<longleftrightarrow>
     (case SplitHost (rq_RemoteAddr r) of None \<Rightarrow> False | Some host \<Rightarrow> loopbackAddr env host) \<and>
     (allowForwarded \<or> TrimSpace (hget r ''X-Forwarded-For'') = '''' \<and> TrimSpace (hget r ''Forwarded'') = '''')"

text \<open>The session of the request's cookie at the next reading of the clock.\<close>

definition cookieSession :: "HttpRequest \<Rightarrow> 'a Srv \<Rightarrow> browserAuthSessionState" where
  "cookieSession r s = fst (fst (CookieState (cookieValue r browserAuthCookieName) (srvNow s) (sv_browserAuth s)))"

definition ticketValid :: "string \<Rightarrow> int \<Rightarrow> 'a Srv \<Rightarrow> bool" where
  "ticketValid ticket now s \<longleftrightarrow> (case sv_wsTickets s of
      None \<Rightarrow> False | Some tt \<Rightarrow> fst (ValidateAndConsume ticket now tt))"

definition credentialShown :: "string \<Rightarrow> HttpRequest \<Rightarrow> 'a Srv \<Rightarrow> bool" where
  "credentialShown token r s \<longleftrightarrow>
     hget r ''Authorization'' = bearer token \<or>
     cookieSession r s = browserAuthSessionValid \<or>
     (cookieSession r s = browserAuthSessionMissing \<and> \<not> shouldBootstrapBrowserSession r \<and>
      isWebSocketHandshake r \<and>
      (ticketValid (qget r ''ws_ticket'') (sv_clock s (sv_reads s + 1)) s \<or> qget r ''token'' = token))"

definition permitted :: "http_env \<Rightarrow> string \<Rightarrow> HttpRequest \<Rightarrow> 'a Srv \<Rightarrow> bool" where
  "permitted env token r s \<longleftrightarrow> rq_Method r \<noteq> ''OPTIONS'' \<and> browserAllowed env r \<and>
     localPeer env (token \<noteq> '''') r \<and> (token = '''' \<or> credentialShown token r s)"

text \<open>Setting the \<open>Authorization\<close> header changes nothing else.\<close>

lemma hget_hset [simp]: "hget (hset k v r) k' = (if k' = k then v else hget r k')"
proof -
  have "map_of (filter (\<lambda>e. fst e \<noteq> k) m) k' = (if k' = k then None else map_of m k')" for m :: "(string \<times> string) list"
    by (induction m) auto
  then show ?thesis by (simp add: hget_def hset_def firstOf_def)
qed

lemma hset_fields [simp]:
  "rq_Method (hset k v r) = rq_Method r" "rq_Path (hset k v r) = rq_Path r" "rq_TLS (hset k v r) = rq_TLS r"
  "rq_Host (hset k v r) = rq_Host r" "rq_RemoteAddr (hset k v r) = rq_RemoteAddr r" "rq_Query (hset k v r) = rq_Query r"
  "qget (hset k v r) q = qget r q"
  by (simp_all add: hset_def qget_def)

lemma cookieValue_hset [simp]: "k \<noteq> ''Cookie'' \<Longrightarrow> cookieValue (hset k v r) name = cookieValue r name"
proof -
  assume "k \<noteq> ''Cookie''"
  then have "filter (\<lambda>e. fst e = ''Cookie'') (filter (\<lambda>e. fst e \<noteq> k) m) = filter (\<lambda>e. fst e = ''Cookie'') m"
    for m :: "(string \<times> string) list"
    by (induction m) auto
  with \<open>k \<noteq> _\<close> show ?thesis by (simp add: cookieValue_def hset_def)
qed

lemma origin_auth [simp]:
  "forwardedScheme (hset ''Authorization'' v r) = forwardedScheme r"
  "forwardedHost (hset ''Authorization'' v r) = forwardedHost r"
  "requestScheme (hset ''Authorization'' v r) = requestScheme r"
  "requestHost (hset ''Authorization'' v r) = requestHost r"
  by (simp_all add: forwardedScheme_def forwardedHost_def requestScheme_def requestHost_def Let_def)

lemma sameOrigin_auth [simp]: "sameOrigin (hset ''Authorization'' v r) = sameOrigin r"
  by (intro ext) (simp add: sameOrigin_def)

lemma sameOriginURL_auth [simp]: "sameOriginURL env (hset ''Authorization'' v r) = sameOriginURL env r"
  by (intro ext) (simp add: sameOriginURL_def split: option.split)

lemma OriginAllowed_auth [simp]: "OriginAllowed env (hset ''Authorization'' v r) = OriginAllowed env r"
  by (intro ext) (simp add: OriginAllowed_def)

lemma browserAllowed_auth [simp]: "browserAllowed env (hset ''Authorization'' v r) = browserAllowed env r"
  by (simp add: browserAllowed_def requiresBrowserCSRF_def browserCSRFHeaderName_def Let_def split: option.split)

lemma localPeer_auth [simp]: "localPeer env a (hset ''Authorization'' v r) = localPeer env a r"
  by (simp add: localPeer_def)

section \<open>The layers\<close>

lemma BrowserGuard_run:
  "BrowserGuard env next r w s = (if browserAllowed env r then next r w s else (httpError ''Forbidden'' 403 w, s))"
  by (auto simp: BrowserGuard_def browserAllowed_def Let_def split: option.splits)

lemma LocalOnly_guarded:
  "guarded (\<lambda>h. LocalOnly env a h r w s) (localPeer env a r)"
proof (cases "SplitHost (rq_RemoteAddr r)")
  case None
  then show ?thesis by (simp add: LocalOnly_def localPeer_def guarded_refuse)
next
  case (Some host)
  have "guarded (\<lambda>h. LocalOnly env a h r w s)
     (if \<not> loopbackAddr env host then False
      else if \<not> a \<and> TrimSpace (hget r ''X-Forwarded-For'') \<noteq> '''' then False
      else if \<not> a \<and> TrimSpace (hget r ''Forwarded'') \<noteq> '''' then False else True)"
    unfolding LocalOnly_def Some option.case by (intro guarded_intro)
  with Some show ?thesis by (auto simp: localPeer_def cong: if_cong split: if_splits)
qed

lemma inner_guarded:
  "guarded (\<lambda>h. BrowserGuard env (LocalOnly env a h) r w s) (browserAllowed env r \<and> localPeer env a r)"
proof -
  have "guarded (\<lambda>h. BrowserGuard env (LocalOnly env a h) r w s)
     (if browserAllowed env r then localPeer env a r else False)"
    unfolding BrowserGuard_run by (intro guarded_intro LocalOnly_guarded)
  then show ?thesis by (cases "browserAllowed env r") simp_all
qed

text \<open>Behind the check of the token, for a request without a browser session.\<close>

definition tokenShown :: "string \<Rightarrow> HttpRequest \<Rightarrow> 'a Srv \<Rightarrow> bool" where
  "tokenShown token r s \<longleftrightarrow> hget r ''Authorization'' = bearer token \<or>
     (isWebSocketHandshake r \<and> (ticketValid (qget r ''ws_ticket'') (srvNow s) s \<or> qget r ''token'' = token))"

lemma consumeTicket_ok: "fst (consumeTicket t s) = ticketValid t (srvNow s) s"
  by (simp add: consumeTicket_def ticketValid_def split: option.splits prod.splits)

abbreviation guardedRoutes :: "http_env \<Rightarrow> bool \<Rightarrow> 'a handler \<Rightarrow> 'a handler" where
  "guardedRoutes env a h \<equiv> BrowserGuard env (LocalOnly env a h)"

definition reachable :: "http_env \<Rightarrow> bool \<Rightarrow> HttpRequest \<Rightarrow> bool" where
  "reachable env a r \<longleftrightarrow> browserAllowed env r \<and> localPeer env a r"

lemma inner_guarded': "guarded (\<lambda>h. guardedRoutes env a h r w s) (reachable env a r)"
  unfolding reachable_def by (rule inner_guarded)

lemma token_guarded:
  assumes "token \<noteq> ''''" "rq_Method r \<noteq> ''OPTIONS''"
  shows "guarded (\<lambda>h. TokenAuthWithWebSocketTicket token (Some consumeTicket) (guardedRoutes env a h) r w s)
    (reachable env a r \<and> tokenShown token r s)"
proof -
  obtain ok s1 where c: "consumeTicket (qget r ''ws_ticket'') s = (ok, s1)" by (cases "consumeTicket (qget r ''ws_ticket'') s")
  then have ok: "ok = ticketValid (qget r ''ws_ticket'') (srvNow s) s"
    using consumeTicket_ok [of "qget r ''ws_ticket''" s] by simp
  have "guarded (\<lambda>h. TokenAuthWithWebSocketTicket token (Some consumeTicket) (guardedRoutes env a h) r w s)
    (if hget r ''Authorization'' = bearer token then reachable env a r
     else if isWebSocketHandshake r then
       (if ok then reachable env a r else if qget r ''token'' = token then reachable env a r else False)
     else False)"
    unfolding TokenAuthWithWebSocketTicket_def if_not_P [OF assms(1)] if_not_P [OF assms(2)] option.case c Let_def
      prod.case
    by (intro guarded_intro inner_guarded')
  moreover have "(if hget r ''Authorization'' = bearer token then reachable env a r
     else if isWebSocketHandshake r then
       (if ok then reachable env a r else if qget r ''token'' = token then reachable env a r else False)
     else False) = (reachable env a r \<and> tokenShown token r s)"
    unfolding tokenShown_def ok by auto
  ultimately show ?thesis by simp
qed

lemma session_guarded:
  assumes "token \<noteq> ''''" "rq_Method r \<noteq> ''OPTIONS''"
  shows "guarded (\<lambda>h. browserSessionAuth env token
      (TokenAuthWithWebSocketTicket token (Some consumeTicket) (guardedRoutes env a h)) r w s)
    (reachable env a r \<and> credentialShown token r s)"
proof -
  let ?T = "\<lambda>h. TokenAuthWithWebSocketTicket token (Some consumeTicket) (guardedRoutes env a h)"
  obtain st tok s1 where c: "srvCookieState r s = ((st, tok), s1)" by (cases "srvCookieState r s") auto
  then have st: "st = cookieSession r s" and s1: "sv_wsTickets s1 = sv_wsTickets s" "srvNow s1 = sv_clock s (sv_reads s + 1)"
    by (auto simp: srvCookieState_def cookieSession_def tickClock_def srvNow_def split: prod.splits)
  obtain res s2 where i: "srvIssue env s1 = (res, s2)" by (cases "srvIssue env s1")
  let ?c = "hset ''Authorization'' (bearer token) r"
  have m: "rq_Method ?c \<noteq> ''OPTIONS''" using assms(2) by simp
  have clone: "guarded (\<lambda>h. ?T h ?c w s) (reachable env a r)" for w :: Response and s :: "'a Srv"
    using token_guarded [OF assms(1) m, of env a w s] by (simp add: tokenShown_def reachable_def)
  have logout: "guarded (\<lambda>h. case ?T h ?c newBufferedResponseWriter s1 of (b, s2) \<Rightarrow>
       if StatusCode b < 400 then
         let b1 = BrowserAuth_ClearCookie r b;
             b2 = (if StatusCode b1 = 303
               then setHeader ''Location'' ''/auth/token?error=logged_out&next=%2F'' b1 else b1)
         in (FlushTo b2 w, srvRevoke tok s2)
       else (FlushTo b w, s2)) (reachable env a r)"
    by (rule guarded_then [OF clone]) (auto simp: Let_def srvRevoke_def split: prod.splits)
  have bear: "guarded (\<lambda>h. if shouldBootstrapBrowserSession r \<and> st \<noteq> browserAuthSessionValid then
           (case srvIssue env s1 of
              (Inr token, s2) \<Rightarrow> ?T h r (BrowserAuth_SetCookie (sv_browserAuth s2) r token w) s2
            | (Inl _, s2) \<Rightarrow> ?T h r w s2)
         else ?T h r w s1)
       (reachable env a r \<and> hget r ''Authorization'' = bearer token)"
    if "hget r ''Authorization'' = bearer token"
  proof -
    have t: "guarded (\<lambda>h. ?T h r w s) (reachable env a r \<and> hget r ''Authorization'' = bearer token)"
      for w :: Response and s :: "'a Srv"
      using token_guarded [OF assms, of env a w s] that by (simp add: tokenShown_def)
    show ?thesis
      unfolding i by (cases "shouldBootstrapBrowserSession r \<and> st \<noteq> browserAuthSessionValid"; cases res)
        (simp_all only: simp_thms if_True if_False prod.case sum.case t)
  qed
  have other: "guarded (\<lambda>h. ?T h r w s1) (reachable env a r \<and> isWebSocketHandshake r \<and>
      (ticketValid (qget r ''ws_ticket'') (sv_clock s (sv_reads s + 1)) s \<or> qget r ''token'' = token))"
    if "hget r ''Authorization'' \<noteq> bearer token"
    using token_guarded [OF assms, of env a w s1] that
    by (simp add: tokenShown_def s1 ticketValid_def)
  show ?thesis
  proof (cases "hget r ''Authorization'' = bearer token")
    case True
    then show ?thesis
      using bear assms by (simp add: browserSessionAuth_def c credentialShown_def)
  next
    case no: False
    show ?thesis
    proof (cases st)
      case browserAuthSessionMissing
      with no other assms st [symmetric] show ?thesis
        by (cases "shouldBootstrapBrowserSession r")
          (simp_all add: browserSessionAuth_def c credentialShown_def guarded_refuse)
    next
      case browserAuthSessionValid
      with no guarded_if [where b = "rq_Method r = ''POST'' \<and> rq_Path r = ''/logout''", OF logout clone [of w s1]]
        assms st [symmetric] show ?thesis
        by (simp add: browserSessionAuth_def c credentialShown_def Let_def)
    next
      case browserAuthSessionStale
      with no assms st [symmetric] show ?thesis
        by (cases "shouldBootstrapBrowserSession r")
          (simp_all add: browserSessionAuth_def c credentialShown_def guarded_refuse Let_def)
    qed
  qed
qed

lemma main_guarded: "guarded (\<lambda>h. mainHandler env token h r w s) (permitted env token r s)"
proof -
  have cors: "guarded (\<lambda>h. CORS env (g h) r w s) (rq_Method r \<noteq> ''OPTIONS'' \<and> c)"
    if "\<And>w. guarded (\<lambda>h. g h r w s) c" for c and g :: "'a handler \<Rightarrow> 'a handler"
    unfolding CORS_def Let_def
    by (cases "rq_Method r = ''OPTIONS''") (simp_all add: that guarded_refuse)
  show ?thesis
  proof (cases "token = ''''")
    case True
    have "guarded (\<lambda>h. CORS env (guardedRoutes env False h) r w s) (rq_Method r \<noteq> ''OPTIONS'' \<and> reachable env False r)"
      by (rule cors) (rule inner_guarded')
    with True show ?thesis by (simp add: mainHandler_def permitted_def Let_def reachable_def)
  next
    case no: False
    show ?thesis
    proof (cases "rq_Method r = ''OPTIONS''")
      case True
      then show ?thesis by (simp add: mainHandler_def CORS_def permitted_def guarded_refuse Let_def)
    next
      case False
      have "guarded (\<lambda>h. CORS env (browserSessionAuth env token
           (TokenAuthWithWebSocketTicket token (Some consumeTicket) (guardedRoutes env True h))) r w s)
         (rq_Method r \<noteq> ''OPTIONS'' \<and> (reachable env True r \<and> credentialShown token r s))"
        by (rule cors) (rule session_guarded [OF no False])
      with no False show ?thesis by (simp add: mainHandler_def permitted_def Let_def reachable_def conj_assoc)
    qed
  qed
qed

text \<open>What the mux answers itself, and what it gives to the other handlers.\<close>

definition muxAnswers :: "HttpRequest \<Rightarrow> bool" where
  "muxAnswers r \<longleftrightarrow> rq_RequestURI r = ''*'' \<or>
     (if rq_Method r = ''CONNECT'' then rq_EscapedPath r = '''' else cleanPath (rq_EscapedPath r) \<noteq> rq_EscapedPath r)"

definition ownHandler :: "string \<Rightarrow> HttpRequest \<Rightarrow> bool" where
  "ownHandler token r \<longleftrightarrow>
     (muxMatch ''/auth/token'' r \<and> token \<noteq> '''' \<and> rq_Method r \<in> {''GET'', ''HEAD'', ''POST''}) \<or>
     ((muxMatch ''/health'' r \<or> muxMatch ''/metrics'' r) \<and> rq_Method r \<in> {''GET'', ''HEAD''})"

text \<open>
  C23. A request reaches the routes of the server, so that the outcome depends on what they do, exactly when
  the mux does not answer it itself (a request for \<open>*\<close>, an unclean path, which is redirected, a \<open>CONNECT\<close>
  without a path), it is not one for the login page of a server with a token, the health check or the metrics
  with a method that they have, it is no preflight, comes from a loopback address, is not a cross-site or
  cross-origin request, shows the CSRF token if it changes something and comes from a browser, and shows a
  credential if the server has a token: the token, a valid browser session, or on a web socket handshake
  without a session a valid ticket or the token. Without a token no request that a proxy forwarded reaches them.
\<close>

theorem api_access_exact:
  "(\<exists>router router'. serve env cfg health metrics router r w s \<noteq> serve env cfg health metrics router' r w s)
     \<longleftrightarrow> \<not> muxAnswers r \<and> \<not> ownHandler (sc_APIToken cfg) r \<and> permitted env (sc_APIToken cfg) r s"
proof (rule guarded_reaches)
  let ?c = "permitted env (sc_APIToken cfg) r s"
  have mux: "guarded (\<lambda>h. topMux env (sc_APIToken cfg) health metrics h r w s)
      (\<not> muxAnswers r \<and> \<not> ownHandler (sc_APIToken cfg) r \<and> ?c)" for w
  proof (cases "muxAnswers r \<or> ownHandler (sc_APIToken cfg) r")
    case True
    then have "topMux env (sc_APIToken cfg) health metrics h r w s = topMux env (sc_APIToken cfg) health metrics h' r w s" for h h'
      by (auto simp: topMux_def muxAnswers_def ownHandler_def Let_def split: if_splits)
    then have same: "(\<lambda>h. topMux env (sc_APIToken cfg) health metrics h r w s) =
        (\<lambda>h. topMux env (sc_APIToken cfg) health metrics undefined r w s)" by (intro ext)
    have "(\<not> muxAnswers r \<and> \<not> ownHandler (sc_APIToken cfg) r \<and> ?c) = False" using True by blast
    then show ?thesis by (subst same) (simp only: guarded_refuse)
  next
    case False
    then have "(\<lambda>h. topMux env (sc_APIToken cfg) health metrics h r w s) = (\<lambda>h. mainHandler env (sc_APIToken cfg) h r w s)"
      by (auto simp: topMux_def muxAnswers_def ownHandler_def Let_def fun_eq_iff split: if_splits)
    with False main_guarded show ?thesis by simp
  qed
  then show "guarded (\<lambda>h. serve env cfg health metrics h r w s) (\<not> muxAnswers r \<and> \<not> ownHandler (sc_APIToken cfg) r \<and> ?c)"
    by (simp only: serve_def SecurityHeaders_def)
qed

section \<open>Forms of the web interface\<close>

definition csrfShown :: "HttpRequest \<Rightarrow> bool" where
  "csrfShown r \<longleftrightarrow> (case cookieValue r csrfCookieName of
      None \<Rightarrow> False
    | Some cookie \<Rightarrow> validCSRFToken cookie \<and>
        (let header = TrimSpace (hget r csrfHeaderName) in
         if header \<noteq> '''' then header = cookie
         else case rq_Form r of Inl _ \<Rightarrow> False | Inr form \<Rightarrow> TrimSpace (firstOf form ''csrf_token'') = cookie))"

lemma withToken_simps [simp]:
  "cookieValue (withToken t r) name = cookieValue r name" "hget (withToken t r) k = hget r k"
  "rq_Method (withToken t r) = rq_Method r" "rq_Form (withToken t r) = rq_Form r"
  by (simp_all add: withToken_def cookieValue_def hget_def)

lemma csrfShown_withToken [simp]: "csrfShown (withToken t r) = csrfShown r"
  by (simp add: csrfShown_def Let_def split: option.split)

lemma requireCSRF_run:
  "requireCSRF next r w s = (if isSafeMethod (rq_Method r) then next r w s
     else if csrfShown r then next (withToken (the (cookieValue r csrfCookieName)) r) w s
     else requireCSRF (\<lambda>r w s. (w, s)) r w s)"
  by (auto simp: requireCSRF_def csrfShown_def Let_def split: option.splits sum.splits)

lemma requireCSRF_guarded: "guarded (\<lambda>h. requireCSRF h r w s) (isSafeMethod (rq_Method r) \<or> csrfShown r)"
proof -
  have "guarded (\<lambda>h. requireCSRF h r w s)
      (if isSafeMethod (rq_Method r) then True else if csrfShown r then True else False)"
    by (subst requireCSRF_run) (intro guarded_intro)
  then show ?thesis by (cases "isSafeMethod (rq_Method r)"; cases "csrfShown r") simp_all
qed

definition tokenAvailable :: "HttpRequest \<Rightarrow> 'a Srv \<Rightarrow> bool" where
  "tokenAvailable r s \<longleftrightarrow> validCSRFToken (csrfTokenFromRequest r) \<or>
     (case sv_rand s (sv_draws s) of Inl _ \<Rightarrow> False | Inr _ \<Rightarrow> True)"

text \<open>
  A request reaches the pages of the web interface exactly if it only reads and a CSRF token is
  known or can be drawn, or it repeats the valid CSRF token of its cookie in the header or, without the
  header, in a form that can be parsed.
\<close>

theorem web_forms_exact:
  "(\<exists>pages pages'. webRoutes pages r w s \<noteq> webRoutes pages' r w s) \<longleftrightarrow>
     (if isSafeMethod (rq_Method r) then tokenAvailable r s else csrfShown r)"
proof (rule guarded_reaches)
  let ?c = "isSafeMethod (rq_Method r) \<or> csrfShown r"
  have pass: "guarded (\<lambda>h. requireCSRF h (if b then withToken t r else r) w s) ?c" for b t and w :: Response and s :: "'a Srv"
    using requireCSRF_guarded [of "withToken t r" w s] requireCSRF_guarded [of r w s] by simp
  obtain res s1 where g: "generateCSRFToken s = (res, s1)" by (cases "generateCSRFToken s")
  have r: "(case res of Inl _ \<Rightarrow> False | Inr _ \<Rightarrow> True) = (case sv_rand s (sv_draws s) of Inl _ \<Rightarrow> False | Inr _ \<Rightarrow> True)"
    using g by (auto simp: generateCSRFToken_def split: sum.splits)
  show "guarded (\<lambda>h. webRoutes h r w s) (if isSafeMethod (rq_Method r) then tokenAvailable r s else csrfShown r)"
  proof (cases "\<not> validCSRFToken (csrfTokenFromRequest r) \<and> isSafeMethod (rq_Method r)")
    case True
    then show ?thesis
      using pass r by (cases res) (simp_all add: webRoutes_def NoStore_def ensureCSRFCookie_def Let_def g
          guarded_refuse tokenAvailable_def)
  next
    case False
    then have e: "ensureCSRFCookie next r w s = next (if validCSRFToken (csrfTokenFromRequest r)
        then withToken (csrfTokenFromRequest r) r else r) w s" for "next" and w :: Response and s :: "'a Srv"
      by (auto simp: ensureCSRFCookie_def Let_def)
    have "(if isSafeMethod (rq_Method r) then tokenAvailable r s else csrfShown r) = ?c"
      using False by (auto simp: tokenAvailable_def)
    then show ?thesis using pass by (simp add: webRoutes_def NoStore_def e del: if_split)
  qed
qed

section \<open>Browser sessions\<close>

definition sessionsOf :: "'a Srv \<Rightarrow> string set" where
  "sessionsOf s = fst ` set (tt_tokens (sv_browserAuth s))"

text \<open>\<open>mints H c\<close>: the handler adds browser sessions only for requests with \<open>c\<close>.\<close>

definition mints :: "'a handler \<Rightarrow> (HttpRequest \<Rightarrow> bool) \<Rightarrow> bool" where
  "mints H c \<longleftrightarrow> (\<forall>r w s. c r \<or> sessionsOf (snd (H r w s)) \<subseteq> sessionsOf s)"

lemma mintsD: "mints H c \<Longrightarrow> \<not> c r \<Longrightarrow> sessionsOf (snd (H r w s)) \<subseteq> sessionsOf s"
  by (auto simp: mints_def)

lemma deleteKey_keys: "fst ` set (deleteKey k m) \<subseteq> fst ` set m"
  by (auto simp: deleteKey_def)

lemma cleanup_keys: "fst ` set (cleanupExpiredLocked now m) \<subseteq> fst ` set m"
  by (auto simp: cleanupExpiredLocked_def)

lemma putKey_keys: "fst ` set (putKey k v m) \<subseteq> insert k (fst ` set m)"
  using deleteKey_keys [of k m] by (auto simp: putKey_def)

lemma sessionState_keys: "fst ` set (tt_tokens (snd (sessionState token now tt))) \<subseteq> fst ` set (tt_tokens tt)"
proof (cases "token = ''''")
  case True
  then show ?thesis by (simp add: sessionState_def)
next
  case False
  let ?m = "cleanupExpiredLocked now (tt_tokens tt)"
  have gone: "fst ` set (deleteKey token ?m) \<subseteq> fst ` set (tt_tokens tt)"
    by (rule order_trans [OF deleteKey_keys cleanup_keys])
  show ?thesis
  proof (cases "map_of ?m token")
    case None
    with False gone show ?thesis by (simp add: sessionState_def Let_def)
  next
    case (Some e)
    then have "token \<in> fst ` set ?m" by (metis domI dom_map_of_conv_image_fst)
    then have "fst ` set (putKey token v ?m) \<subseteq> fst ` set (tt_tokens tt)" for v
      using putKey_keys [of token v ?m] cleanup_keys [of now "tt_tokens tt"] by blast
    with False Some gone show ?thesis by (simp add: sessionState_def Let_def)
  qed
qed

lemma srvCookieState_keys: "sessionsOf (snd (srvCookieState r s)) \<subseteq> sessionsOf s"
proof -
  have "fst ` set (tt_tokens (snd (CookieState c now tt))) \<subseteq> fst ` set (tt_tokens tt)" for c now tt
    using sessionState_keys [of "the c" now tt]
    by (cases "sessionState (the c) now tt"; cases c) (simp_all add: CookieState_def)
  from this [of "cookieValue r browserAuthCookieName" "srvNow s" "sv_browserAuth s"]
  show ?thesis
    by (cases "CookieState (cookieValue r browserAuthCookieName) (srvNow s) (sv_browserAuth s)")
      (simp add: srvCookieState_def sessionsOf_def tickClock_def)
qed

lemma srvRevoke_keys: "sessionsOf (srvRevoke t s) \<subseteq> sessionsOf s"
  using deleteKey_keys by (auto simp: srvRevoke_def sessionsOf_def Revoke_def)

lemma consumeTicket_keys [simp]: "sessionsOf (snd (consumeTicket t s)) = sessionsOf s"
  by (simp add: consumeTicket_def sessionsOf_def tickClock_def split: option.splits prod.splits)

lemma mintsI: "(\<And>r w s. \<not> c r \<Longrightarrow> sessionsOf (snd (H r w s)) \<subseteq> sessionsOf s) \<Longrightarrow> mints H c"
  by (auto simp: mints_def)

lemma mints_LocalOnly: "mints H c \<Longrightarrow> mints (LocalOnly env a H) c"
  by (rule mintsI) (simp add: LocalOnly_def mintsD split: option.split)

lemma mints_BrowserGuard: "mints H c \<Longrightarrow> mints (BrowserGuard env H) c"
  by (rule mintsI) (simp add: BrowserGuard_run mintsD)

lemma mints_CORS: "mints H c \<Longrightarrow> mints (CORS env H) c"
  by (rule mintsI) (simp add: CORS_def Let_def mintsD)

lemma mints_tokenAuth:
  assumes "mints H c" "\<And>check t s. v = Some check \<Longrightarrow> sessionsOf (snd (check t s)) \<subseteq> sessionsOf s"
  shows "mints (TokenAuthWithWebSocketTicket token v H) c"
proof (rule mintsI)
  fix r w s
  assume c: "\<not> c r"
  obtain ok s1 where t: "(case v of None \<Rightarrow> (False, s) | Some check \<Rightarrow> check (qget r ''ws_ticket'') s) = (ok, s1)"
    by (cases "case v of None \<Rightarrow> (False, s) | Some check \<Rightarrow> check (qget r ''ws_ticket'') s")
  have s1: "sessionsOf s1 \<subseteq> sessionsOf s"
  proof (cases v)
    case None
    with t show ?thesis by simp
  next
    case (Some check)
    from assms(2) [OF this, of "qget r ''ws_ticket''" s] t Some show ?thesis by simp
  qed
  have h: "sessionsOf (snd (H r w s')) \<subseteq> sessionsOf s'" for s' by (rule mintsD [OF assms(1) c])
  then have "sessionsOf (snd (H r w s1)) \<subseteq> sessionsOf s" using s1 by (rule order_trans)
  with h s1 show "sessionsOf (snd (TokenAuthWithWebSocketTicket token v H r w s)) \<subseteq> sessionsOf s"
    unfolding TokenAuthWithWebSocketTicket_def t Let_def prod.case by simp
qed

lemma mints_browserSession:
  fixes H :: "'a handler"
  assumes "mints H (\<lambda>_. False)"
  shows "mints (browserSessionAuth env token H) (\<lambda>r. hget r ''Authorization'' = bearer token)"
proof (rule mintsI)
  fix r w and s :: "'a Srv"
  assume c: "hget r ''Authorization'' \<noteq> bearer token"
  have h: "sessionsOf (snd (H r' w' s')) \<subseteq> sessionsOf s'" for r' w' s' by (rule mintsD [OF assms]) simp
  obtain st tok s1 where t: "srvCookieState r s = ((st, tok), s1)" by (cases "srvCookieState r s") auto
  then have s1: "sessionsOf s1 \<subseteq> sessionsOf s" using srvCookieState_keys [of r s] by simp
  then have h1: "sessionsOf (snd (H r' w' s1)) \<subseteq> sessionsOf s" for r' w' using h order_trans by blast
  obtain b s2 where b: "H (hset ''Authorization'' (bearer token) r) newBufferedResponseWriter s1 = (b, s2)"
    by (cases "H (hset ''Authorization'' (bearer token) r) newBufferedResponseWriter s1")
  with h1 have s2: "sessionsOf s2 \<subseteq> sessionsOf s" by (metis snd_conv)
  then have "sessionsOf (srvRevoke tok s2) \<subseteq> sessionsOf s" using srvRevoke_keys order_trans by blast
  with s1 s2 h h1 c show "sessionsOf (snd (browserSessionAuth env token H r w s)) \<subseteq> sessionsOf s"
    unfolding browserSessionAuth_def t prod.case Let_def b by simp
qed

lemma srvCookieState_sub: "srvCookieState r s = (x, s1) \<Longrightarrow> sessionsOf s1 \<subseteq> sessionsOf s"
  using srvCookieState_keys [of r s] by simp

lemma mints_loginPage: "mints (loginPage env) (\<lambda>_. False)"
  by (rule mintsI) (auto simp: loginPage_def Let_def split: prod.splits dest!: srvCookieState_sub)

definition showsToken :: "string \<Rightarrow> HttpRequest \<Rightarrow> bool" where
  "showsToken token r \<longleftrightarrow> token \<noteq> '''' \<and> (hget r ''Authorization'' = bearer token \<or>
     rq_Path r = ''/auth/token'' \<and> rq_Method r = ''POST'' \<and>
     (\<exists>form. rq_Form r = Inr form \<and> firstOf form ''token'' = token))"

lemma mints_login:
  "mints (rateLimited env sv_authLimiter (\<lambda>rl s. s\<lparr>sv_authLimiter := rl\<rparr>) (loginHandler env token))
     (\<lambda>r. \<exists>form. rq_Form r = Inr form \<and> firstOf form ''token'' = token)"
  by (rule mintsI)
    (auto simp: rateLimited_def loginHandler_def authTokensEqual_def sessionsOf_def Let_def split: prod.splits sum.splits)

text \<open>
  C24. A browser session comes into being only for a request that shows the API token, in its
  \<open>Authorization\<close> header or in the form of the login page, and never on a server without a token;
  whatever the routes, the health check and the metrics do, as long as they leave the sessions alone.
\<close>

theorem browser_session_needs_token:
  assumes "\<And>r w s. sv_browserAuth (snd (router r w s)) = sv_browserAuth s"
    and "\<And>r w s. sv_browserAuth (snd (health r w s)) = sv_browserAuth s"
    and "\<And>r w s. sv_browserAuth (snd (metrics r w s)) = sv_browserAuth s"
    and "serve env cfg health metrics router r w s = (w', s')"
    and "map_of (tt_tokens (sv_browserAuth s)) t = None" "map_of (tt_tokens (sv_browserAuth s')) t \<noteq> None"
  shows "showsToken (sc_APIToken cfg) r"
proof (rule ccontr)
  let ?tok = "sc_APIToken cfg"
  assume no: "\<not> showsToken ?tok r"
  have quiet: "mints h (\<lambda>_. False)" if "\<And>r w s. sv_browserAuth (snd (h r w s)) = sv_browserAuth s"
    for h :: "'a handler"
    using that by (auto simp: mints_def sessionsOf_def)
  have inner: "mints (BrowserGuard env (LocalOnly env a router)) (\<lambda>_. False)" for a
    by (intro mints_BrowserGuard mints_LocalOnly quiet assms(1))
  have main: "sessionsOf (snd (mainHandler env ?tok router r w s)) \<subseteq> sessionsOf s" for w
  proof (cases "?tok = ''''")
    case True
    from mintsD [OF mints_CORS [OF inner]] True show ?thesis by (simp add: mainHandler_def)
  next
    case False
    with no have c: "hget r ''Authorization'' \<noteq> bearer ?tok" by (simp add: showsToken_def)
    have "mints (CORS env (browserSessionAuth env ?tok (TokenAuthWithWebSocketTicket ?tok (Some consumeTicket)
        (BrowserGuard env (LocalOnly env True router))))) (\<lambda>r. hget r ''Authorization'' = bearer ?tok)"
      by (intro mints_CORS mints_browserSession mints_tokenAuth inner) auto
    from mintsD [OF this c] False show ?thesis by (simp add: mainHandler_def)
  qed
  have "mints metrics (\<lambda>_. False)" by (rule quiet [OF assms(3)])
  then have met: "mints (metricsChain env ?tok metrics) (\<lambda>_. False)"
    unfolding metricsChain_def TokenAuth_def Let_def by (auto intro!: mints_tokenAuth mints_LocalOnly)
  have health: "sessionsOf (snd (health r w s)) \<subseteq> sessionsOf s" for w
    by (rule mintsD [OF quiet]) (simp_all add: assms(2))
  have metrics: "sessionsOf (snd (metricsChain env ?tok metrics r w s)) \<subseteq> sessionsOf s" for w
    by (rule mintsD [OF met]) simp
  have page: "sessionsOf (snd (loginPage env r w s)) \<subseteq> sessionsOf s" for w
    by (rule mintsD [OF mints_loginPage]) simp
  have login: "sessionsOf (snd (rateLimited env sv_authLimiter (\<lambda>rl s. s\<lparr>sv_authLimiter := rl\<rparr>)
      (loginHandler env ?tok) r w s)) \<subseteq> sessionsOf s" if "rq_Path r = ''/auth/token''" "rq_Method r = ''POST''" "?tok \<noteq> ''''" for w
    by (rule mintsD [OF mints_login]) (use no that in \<open>simp add: showsToken_def\<close>)
  have "sessionsOf (snd (serve env cfg health metrics router r w s)) \<subseteq> sessionsOf s"
    unfolding serve_def SecurityHeaders_def topMux_def NoStore_def Let_def muxMatch_def
    by (simp add: main health metrics page login)
  with assms(4) have "sessionsOf s' \<subseteq> sessionsOf s" by simp
  with assms(5,6) show False by (auto simp: sessionsOf_def map_of_eq_None_iff)
qed

section \<open>Examples\<close>

definition exampleEnv :: http_env where
  "exampleEnv = \<lparr>he_ParseIP = (\<lambda>h. if h = ''::1'' then Some (replicate 15 0 @ [1]) else None), he_ParseURL = (\<lambda>_. None),
     he_QueryEscape = (\<lambda>s. s), he_authPage = (\<lambda>n e. n @ e), he_iter = (\<lambda>m. m),
     he_CleanURL = (\<lambda>p q. if q = '''' then p else p @ ''?'' @ q), he_muxConnect = (\<lambda>r. writeHeader 404)\<rparr>"

definition exampleSrv :: "unit Srv" where
  "exampleSrv = newSrv \<lparr>sc_APIToken = ''t'', sc_EnableWebSocket = True\<rparr> int (\<lambda>n. Inr (\<lambda>i. of_nat n)) ()"

definition exampleRequest :: "string \<Rightarrow> string \<Rightarrow> (string \<times> string) list \<Rightarrow> HttpRequest" where
  "exampleRequest verb path header = \<lparr>rq_Method = verb, rq_Path = path, rq_EscapedPath = path, rq_RequestURI = path,
     rq_RawQuery = '''', rq_Query = [],
     rq_Host = ''h'', rq_RemoteAddr = ''[::1]:80'', rq_TLS = False, rq_Header = header,
     rq_Form = Inr [(''token'', ''t'')], rq_csrf = None\<rparr>"

definition emptyResponse :: Response where
  "emptyResponse = \<lparr>rs_Status = None, rs_Header = [], rs_Cookies = [], rs_Body = [], rs_Buffered = False\<rparr>"

definition okHandler :: "unit handler" where "okHandler = (\<lambda>r w s. (writeHeader 200 w, s))"

definition exampleAnswer :: "HttpRequest \<Rightarrow> Response \<times> unit Srv" where
  "exampleAnswer r = serve exampleEnv \<lparr>sc_APIToken = ''t'', sc_EnableWebSocket = True\<rparr> okHandler okHandler okHandler
     r emptyResponse exampleSrv"

lemma example_permitted:
  "permitted exampleEnv ''t'' (exampleRequest ''GET'' ''/api/feed'' [(''Authorization'', ''Bearer t'')]) exampleSrv"
  "\<not> permitted exampleEnv ''t'' (exampleRequest ''GET'' ''/api/feed'' []) exampleSrv"
  by code_simp+

lemma example_muxed:
  "\<not> muxAnswers (exampleRequest ''GET'' ''/api/feed'' [])" "\<not> ownHandler ''t'' (exampleRequest ''GET'' ''/api/feed'' [])"
  "muxAnswers (exampleRequest ''GET'' ''/api//feed'' [])" "muxAnswers (exampleRequest ''GET'' ''/api/../feed/'' [])"
  by code_simp+

lemma example_login:
  "map_of (tt_tokens (sv_browserAuth (snd (exampleAnswer (exampleRequest ''POST'' ''/auth/token'' [])))))
     (EncodeToString (replicate 32 0)) \<noteq> None"
proof -
  let ?r = "exampleRequest ''POST'' ''/auth/token'' []"
  have "case Middleware int (extractIP exampleEnv ?r) ''POST'' ''/auth/token'' newAuthLimiter of
      (Inr _, _) \<Rightarrow> True | _ \<Rightarrow> False"
    by code_simp
  then obtain x rl where m: "Middleware int (extractIP exampleEnv ?r) ''POST'' ''/auth/token'' newAuthLimiter = (Inr x, rl)"
    by (auto split: prod.splits sum.splits)
  have r: "rq_Method ?r = ''POST''" "rq_Path ?r = ''/auth/token''" "rq_Form ?r = Inr [(''token'', ''t'')]"
    by (simp_all add: exampleRequest_def)
  have mux: "muxMatch ''/auth/token'' ?r" "cleanPath (rq_EscapedPath ?r) = rq_EscapedPath ?r" "rq_RequestURI ?r \<noteq> ''*''"
    by code_simp+
  have s: "sv_clock exampleSrv = int" "sv_reads exampleSrv = 0" "sv_authLimiter exampleSrv = newAuthLimiter"
    by (simp_all add: exampleSrv_def newSrv_def)
  obtain w where "exampleAnswer ?r = loginHandler exampleEnv ''t'' ?r w (exampleSrv\<lparr>sv_reads := 4, sv_authLimiter := rl\<rparr>)"
    using m mux by (simp add: exampleAnswer_def serve_def SecurityHeaders_def topMux_def NoStore_def rateLimited_def r s)
  moreover have "EncodeToString (randomBytes (\<lambda>i. of_nat 0)) = EncodeToString (replicate 32 0)"
    by code_simp
  ultimately show ?thesis
    by (simp add: loginHandler_def r firstOf_def authTokensEqual_def srvIssue_def BrowserAuth_Issue_def issueToken_def
        exampleSrv_def newSrv_def NewBrowserAuthManager_def cleanupExpiredLocked_def putKey_def deleteKey_def
        maxBrowserAuthSessions_def tickClock_def Let_def)
qed

theorem browser_session_needs_token_witness:
  "showsToken ''t'' (exampleRequest ''POST'' ''/auth/token'' [])"
proof -
  have "showsToken (sc_APIToken \<lparr>sc_APIToken = ''t'', sc_EnableWebSocket = True\<rparr>) (exampleRequest ''POST'' ''/auth/token'' [])"
  proof (rule browser_session_needs_token)
    show "serve exampleEnv \<lparr>sc_APIToken = ''t'', sc_EnableWebSocket = True\<rparr> okHandler okHandler okHandler
       (exampleRequest ''POST'' ''/auth/token'' []) emptyResponse exampleSrv =
      (fst (exampleAnswer (exampleRequest ''POST'' ''/auth/token'' [])),
       snd (exampleAnswer (exampleRequest ''POST'' ''/auth/token'' [])))"
      by (simp add: exampleAnswer_def)
  next
    show "map_of (tt_tokens (sv_browserAuth exampleSrv)) (EncodeToString (replicate 32 0)) = None"
      by (simp add: exampleSrv_def newSrv_def NewBrowserAuthManager_def)
  qed (simp_all add: okHandler_def example_login)
  then show ?thesis by simp
qed

end
