(* ===== verification/ExchangeProps.thy ===== *)
theory ExchangeProps
  imports Exchange
begin

text \<open>
  Properties of the content exchange: what is fetched has the hash that was asked for, an honest provider
  among any others is enough, fetches are bounded and shared, and no call waits for ever.
\<close>

section \<open>The wire protocol\<close>

lemma byte_at:
  "bit (push_bit k (ucast (ucast (drop_bit k n :: 32 word) :: 8 word) :: 32 word)) i \<longleftrightarrow>
     i < 32 \<and> k \<le> i \<and> i < k + 8 \<and> bit n i"
  by (auto simp: bit_simps dest: bit_imp_le_length)

lemma fromBe32_be32 [simp]: "fromBe32 (be32 n) = n"
proof (rule bit_word_eqI)
  fix i
  assume i: "i < LENGTH(32)"
  have n: "h ! 0 = (a :: byte)" "h ! 1 = b" "h ! 2 = c" "h ! 3 = d" if "h = [a, b, c, d]" for h a b c d
    using that by simp_all
  have "bit (fromBe32 (be32 n)) i \<longleftrightarrow>
      bit (push_bit 24 (ucast (ucast (drop_bit 24 n) :: byte) :: 32 word)) i \<or>
      bit (push_bit 16 (ucast (ucast (drop_bit 16 n) :: byte) :: 32 word)) i \<or>
      bit (push_bit 8 (ucast (ucast (drop_bit 8 n) :: byte) :: 32 word)) i \<or>
      bit (push_bit 0 (ucast (ucast (drop_bit 0 n) :: byte) :: 32 word)) i"
    unfolding fromBe32_def n [OF be32_def] bit_or_iff by simp
  also have "\<dots> \<longleftrightarrow> bit n i"
    unfolding byte_at using i by auto
  finally show "bit (fromBe32 (be32 n)) i \<longleftrightarrow> bit n i" .
qed

lemma length_be32 [simp]: "length (be32 n) = 4"
  by (simp add: be32_def)

lemma streamReadFull_append: "n = length a \<Longrightarrow> st_in s = a @ b \<Longrightarrow> streamReadFull n s = (Inr a, s\<lparr>st_in := b\<rparr>)"
  by (simp add: streamReadFull_def)

lemma streamWrite_room [simp]: "st_room s = None \<Longrightarrow> streamWrite b s = (Inr (), s\<lparr>st_out := st_out s @ b\<rparr>)"
  by (simp add: streamWrite_def)

lemma unat_of_length: "n < 2 ^ 32 \<Longrightarrow> unat (word_of_nat n :: 32 word) = n"
  by (simp add: unat_of_nat take_bit_nat_eq_self)

lemma word_zero: "n < 2 ^ 32 \<Longrightarrow> (word_of_nat n :: 32 word) = 0 \<longleftrightarrow> n = 0"
  by (metis unat_0 unat_of_length unat_eq_zero of_nat_0)

text \<open>A provider that has the content: it answers as \<open>handleContentStream\<close> does, and nothing breaks.\<close>

definition honest :: "exchange_env \<Rightarrow> string \<Rightarrow> ContentServer \<Rightarrow> bool" where
  "honest env pid srv \<longleftrightarrow> (\<exists>rm. xe_dial env pid = Inr rm \<and> rm_deadline rm = None \<and> rm_room rm = None \<and>
     rm_closeWrite rm = None \<and> rm_answer rm = (\<lambda>req. st_out (snd (handleContentStream None (Some srv)
       \<lparr>st_in = req, st_end = EOF, st_out = [], st_room = None, st_broken = EOF\<rparr>))))"

definition serves :: "ContentServer \<Rightarrow> bytes \<Rightarrow> bytes \<Rightarrow> bool" where
  "serves srv cid data \<longleftrightarrow> srv (EncodeToString cid) =
     (Some \<lparr>so_Reader = Some \<lparr>r_data = data, r_err = None\<rparr>, so_Size = int (length data)\<rparr>, True)"

lemma maxContentSize_word: "maxContentSize < 2 ^ 32"
  by (simp add: maxContentSize_def MaxMediaSize_def)

lemma answer_of_server:
  assumes "serves srv cid data" "0 < length cid" "length cid \<le> 1024" "0 < length data" "length data \<le> maxContentSize"
    and "st_in s = be32 (word_of_nat (length cid)) @ cid" "st_out s = []" "st_room s = None"
  shows "st_out (snd (handleContentStream None (Some srv) s)) = be32 (word_of_nat (length data)) @ data"
proof -
  let ?n = "word_of_nat (length cid) :: 32 word"
  have n: "unat ?n = length cid" using assms(3) by (intro unat_of_length) simp
  have nz: "?n \<noteq> 0" "\<not> 1024 < ?n"
    using assms(2,3) n by (auto simp: word_less_nat_alt unat_eq_zero)
  have rd: "readCIDFromStream s = (Inr cid, s\<lparr>st_in := []\<rparr>)"
    using nz n assms(6) by (simp add: readCIDFromStream_def run_bindE Let_def streamReadFull_append [where a = "be32 ?n" and b = cid]
        streamReadFull_append [where a = cid and b = "[]"])
  show ?thesis
    using assms(1,4,5,7,8) maxContentSize_word
    by (simp add: handleContentStream_def run_bindE okE_def catchE_def rd serves_def logE_def writeContentResponse_def
        seqE_def run_wrapE CopyN_def Let_def)
qed

lemma fetch_from_honest:
  assumes "honest env pid srv" "serves srv cid data" "0 < length cid" "length cid \<le> 1024"
    and "0 < length data" "length data \<le> maxContentSize" "validateContentHash env data cid = None"
  shows "fetchFromPeer env pid cid = Inr data"
proof -
  obtain rm where rm: "xe_dial env pid = Inr rm" "rm_deadline rm = None" "rm_room rm = None" "rm_closeWrite rm = None"
    "rm_answer rm = (\<lambda>req. st_out (snd (handleContentStream None (Some srv)
       \<lparr>st_in = req, st_end = EOF, st_out = [], st_room = None, st_broken = EOF\<rparr>)))"
    using assms(1) unfolding honest_def by blast
  let ?d = "word_of_nat (length data) :: 32 word"
  have d: "unat ?d = length data" using assms(6) maxContentSize_word by (intro unat_of_length) simp
  have dz: "?d \<noteq> 0" "\<not> word_of_nat maxContentSize < ?d"
    using assms(5,6) d maxContentSize_word by (auto simp: word_less_nat_alt word_zero unat_of_length)
  have ans: "rm_answer rm (be32 (word_of_nat (length cid)) @ cid) = be32 ?d @ data"
    unfolding rm(5) by (rule answer_of_server [OF assms(2-6)]) simp_all
  show ?thesis
    using dz d ans assms(7)
    by (simp add: fetchFromPeer_def requestStream_def rm(1-4) writeCIDRequest_def seqE_def run_bindE run_wrapE
        readContentResponse_def readContentResponseLength_def streamReadFull_append [where a = "be32 ?d" and b = data]
        streamReadFull_append [where a = data and b = "[]"] Let_def)
qed

section \<open>What is fetched has the hash that was asked for\<close>

definition hashes :: "exchange_env \<Rightarrow> bytes \<Rightarrow> bytes \<Rightarrow> bool" where
  "hashes env data cid \<longleftrightarrow> (\<exists>code len. xe_mhDecode env cid = Inr (code, len) \<and> xe_mhSum env data code len = Inr cid)"

lemma validate_hashes: "validateContentHash env data cid = None \<longleftrightarrow> hashes env data cid"
  by (auto simp: validateContentHash_def hashes_def split: sum.splits prod.splits if_splits)

lemma streamReadFull_length: "streamReadFull n s = (Inr d, s') \<Longrightarrow> length d = n"
  by (auto simp: streamReadFull_def split: if_splits)

lemma responseLength_bounds:
  assumes "readContentResponseLength s = (Inr n, s')"
  shows "0 < unat n" "unat n \<le> maxContentSize"
  using assms maxContentSize_word
  by (auto simp: readContentResponseLength_def run_bindE run_wrapE Let_def word_less_nat_alt unat_of_length
      unat_gt_0 split: prod.splits sum.splits if_splits)

lemma fetchFromPeer_hashes:
  assumes "fetchFromPeer env pid cid = Inr data"
  shows "hashes env data cid \<and> 0 < length data \<and> length data \<le> maxContentSize"
proof -
  obtain s where s: "fst (readContentResponse s) = Inr data" "validateContentHash env data cid = None"
    using assms by (auto simp: fetchFromPeer_def split: sum.splits option.splits)
  obtain s' where "readContentResponse s = (Inr data, s')" using s(1) by (cases "readContentResponse s") auto
  then obtain n s1 where n: "readContentResponseLength s = (Inr n, s1)" "streamReadFull (unat n) s1 = (Inr data, s')"
    by (auto simp: readContentResponse_def run_bindE run_wrapE split: prod.splits sum.splits)
  from streamReadFull_length [OF n(2)] responseLength_bounds [OF n(1)] s(2) show ?thesis
    by (simp add: validate_hashes)
qed

lemma tryProviders_hashes:
  "tryProviders env ps cid err = Inr data \<Longrightarrow> hashes env data cid \<and> 0 < length data \<and> length data \<le> maxContentSize"
  by (induction env ps cid err rule: tryProviders.induct)
    (auto dest: fetchFromPeer_hashes split: sum.splits)

lemma tryProviders_honest:
  assumes "xe_decodePeer env p = Inr pid" "fetchFromPeer env pid cid = Inr data"
  shows "p \<in> set ps \<Longrightarrow> \<exists>d. tryProviders env ps cid err = Inr d"
  using assms by (induction env ps cid err rule: tryProviders.induct) (auto split: sum.splits)

lemma remoteFetch_honest:
  assumes "DecodeString cidHex = Inr cid" "p \<in> set (take maxProviders (xe_DHT env cid))" "p \<noteq> xe_self env"
    and "xe_decodePeer env p = Inr pid" "honest env pid srv" "serves srv cid data"
    and "0 < length cid" "length cid \<le> 1024" "0 < length data" "length data \<le> maxContentSize"
    and "hashes env data cid"
  shows "\<exists>d. remoteFetch env cidHex cid = Inr d \<and> hashes env d cid"
proof -
  let ?ps = "filter (\<lambda>pid. pid \<noteq> xe_self env) (take maxProviders (xe_DHT env cid))"
  have "fetchFromPeer env pid cid = Inr data"
    by (rule fetch_from_honest [OF assms(5-10)]) (use assms(11) in \<open>simp add: validate_hashes\<close>)
  from tryProviders_honest [OF assms(4) this, of ?ps "Err ''<nil>''"] assms(2,3)
  obtain d where d: "tryProviders env ?ps cid (Err ''<nil>'') = Inr d" by auto
  obtain m where "xe_mhDecode env cid = Inr m" using assms(11) by (auto simp: hashes_def)
  then have "FindProviders env cidHex = Inr ?ps"
    by (simp add: FindProviders_def hexToCid_def assms(1))
  moreover have "?ps \<noteq> []" using assms(2,3) by (auto simp: filter_empty_conv)
  ultimately have "remoteFetch env cidHex cid = Inr d"
    using d by (simp add: remoteFetch_def del: filter_True)
  with tryProviders_hashes [OF d] show ?thesis by blast
qed

text \<open>
  If one of the providers the DHT finds for an identifier is a node that serves the content and
  whose connection works, then the fetch returns, whatever the other providers answer, bytes with the
  hash that was asked for.
\<close>

theorem one_honest_provider_suffices:
  assumes "DecodeString cidHex = Inr cid" "p \<in> set (take maxProviders (xe_DHT env cid))" "p \<noteq> xe_self env"
    and "xe_decodePeer env p = Inr pid" "honest env pid srv" "serves srv cid data"
    and "0 < length cid" "length cid \<le> 1024" "0 < length data" "length data \<le> maxContentSize"
    and "hashes env data cid"
  shows "\<exists>d. remoteFetch env cidHex cid = Inr d \<and> hashes env d cid"
  by (rule remoteFetch_honest [OF assms])

section \<open>The calls in progress\<close>

fun busy :: "'r phase \<Rightarrow> bool" where
  "busy Joined = False"
| "busy (Returned _) = False"
| "busy _ = True"

definition runningCalls :: "(nat \<rightharpoonup> 'r call) \<Rightarrow> nat set" where
  "runningCalls calls = {i. \<exists>c. calls i = Some c \<and> ca_Phase c = Running}"

lemma runningCalls_upd [simp]:
  "runningCalls (calls(i \<mapsto> c)) = (if ca_Phase c = Running then insert i (runningCalls calls) else runningCalls calls - {i})"
  by (auto simp: runningCalls_def)

lemma runningCalls_sub: "runningCalls calls \<subseteq> dom calls"
  by (auto simp: runningCalls_def)

text \<open>The slots taken are those of the calls that fetch; a flight is that of the one shared call that is busy.\<close>

definition slotsOk :: "'r ContentExchange \<Rightarrow> bool" where
  "slotsOk ce \<longleftrightarrow> finite (dom (ce_calls ce)) \<and> ce_fetchSlots ce = card (runningCalls (ce_calls ce)) \<and>
     ce_fetchSlots ce \<le> contentFetchConcurrency"

definition flightsOk :: "'r ContentExchange \<Rightarrow> bool" where
  "flightsOk ce \<longleftrightarrow>
     (\<forall>cid i. ce_fetchInFlight ce cid = Some i \<longleftrightarrow>
        (\<exists>c. ce_calls ce i = Some c \<and> ca_Shared c \<and> ca_CID c = cid \<and> busy (ca_Phase c))) \<and>
     (\<forall>i c. ce_calls ce i = Some c \<and> ca_Phase c = Joined \<longrightarrow> ca_Shared c \<and> ce_fetchInFlight ce (ca_CID c) \<noteq> None)"

definition resultsOk :: "(bool \<Rightarrow> string \<Rightarrow> goerr + 'r \<Rightarrow> bool) \<Rightarrow> 'r ContentExchange \<Rightarrow> bool" where
  "resultsOk outcome ce \<longleftrightarrow> (\<forall>i c d. ce_calls ce i = Some c \<and> (ca_Phase c = Fetched (Inr d) \<or> ca_Phase c = Returned (Inr d)) \<longrightarrow>
     outcome (ca_Shared c) (ca_CID c) (Inr d))"

lemma flightsOkD:
  assumes "flightsOk ce" "ce_calls ce i = Some c"
  shows "ca_Shared c \<Longrightarrow> busy (ca_Phase c) \<Longrightarrow> ce_fetchInFlight ce (ca_CID c) = Some i"
    and "ca_Phase c = Joined \<Longrightarrow> ca_Shared c \<and> ce_fetchInFlight ce (ca_CID c) \<noteq> None"
  using assms unfolding flightsOk_def by auto

subsection \<open>Each operation keeps the invariant\<close>

definition fetchInv :: "(bool \<Rightarrow> string \<Rightarrow> goerr + 'r \<Rightarrow> bool) \<Rightarrow> 'r ContentExchange \<Rightarrow> bool" where
  "fetchInv outcome ce \<longleftrightarrow> slotsOk ce \<and> flightsOk ce \<and> resultsOk outcome ce"

lemma fetchInv_failures [simp]: "fetchInv outcome (ce\<lparr>ce_fetchFailures := f\<rparr>) = fetchInv outcome ce"
  by (simp add: fetchInv_def slotsOk_def flightsOk_def resultsOk_def)

lemma checkBackoff_inv:
  "checkFetchBackoffLocked cid now ce = (r, ce1) \<Longrightarrow>
     fetchInv outcome ce1 = fetchInv outcome ce \<and> ce_calls ce1 = ce_calls ce \<and> ce_fetchInFlight ce1 = ce_fetchInFlight ce"
  by (auto simp: checkFetchBackoffLocked_def split: option.splits if_splits)

lemma setCall_new:
  assumes "fetchInv outcome ce" "ce_calls ce i = None" "ph \<noteq> Running" "\<not> busy ph \<or> \<not> sh"
    and "ph = Joined \<Longrightarrow> sh \<and> ce_fetchInFlight ce cid \<noteq> None" "\<And>d. ph \<noteq> Fetched (Inr d)" "\<And>d. ph \<noteq> Returned (Inr d)"
  shows "fetchInv outcome (setCall i cid sh ph ce)"
proof -
  have "i \<notin> runningCalls (ce_calls ce)" using assms(2) by (simp add: runningCalls_def)
  then have "slotsOk (setCall i cid sh ph ce)"
    using assms(1,3) by (simp add: fetchInv_def slotsOk_def setCall_def)
  moreover have "ce_fetchInFlight ce c \<noteq> Some i" for c
    using assms(1,2) by (auto simp: fetchInv_def flightsOk_def)
  then have "flightsOk (setCall i cid sh ph ce)"
    using assms(1,2,4,5) by (auto simp: fetchInv_def flightsOk_def setCall_def)
  moreover have "resultsOk outcome (setCall i cid sh ph ce)"
    using assms(1,6,7) by (auto simp: fetchInv_def resultsOk_def setCall_def)
  ultimately show ?thesis by (simp add: fetchInv_def)
qed

lemma setCall_leader:
  assumes "fetchInv outcome ce" "ce_calls ce i = None" "ce_fetchInFlight ce cid = None"
  shows "fetchInv outcome (setCall i cid True Waiting (ce\<lparr>ce_fetchInFlight := (ce_fetchInFlight ce)(cid \<mapsto> i)\<rparr>))"
    (is "fetchInv outcome ?ce")
proof -
  have "i \<notin> runningCalls (ce_calls ce)" using assms(2) by (simp add: runningCalls_def)
  then have "slotsOk ?ce"
    using assms(1) by (simp add: fetchInv_def slotsOk_def setCall_def)
  moreover have none: "ca_CID c \<noteq> cid" if "ce_calls ce j = Some c" "ca_Shared c" "busy (ca_Phase c)" for j c
    using that assms(1,3) flightsOkD(1) [of ce j c] by (auto simp: fetchInv_def)
  have "ce_fetchInFlight ce c \<noteq> Some i" for c
    using assms(1,2) by (auto simp: fetchInv_def flightsOk_def)
  then have "flightsOk ?ce"
    using assms(1-3) by (auto simp: fetchInv_def flightsOk_def setCall_def dest: none)
  moreover have "resultsOk outcome ?ce"
    using assms(1) by (auto simp: fetchInv_def resultsOk_def setCall_def)
  ultimately show ?thesis by (simp add: fetchInv_def)
qed

lemma setCall_busy:
  assumes "fetchInv outcome ce" "ce_calls ce i = Some c" "busy (ca_Phase c)" "busy ph"
    and "\<And>d. ph = Fetched (Inr d) \<Longrightarrow> outcome (ca_Shared c) (ca_CID c) (Inr d)"
  shows "flightsOk (setCall i (ca_CID c) (ca_Shared c) ph ce)" "resultsOk outcome (setCall i (ca_CID c) (ca_Shared c) ph ce)"
proof -
  have "ph \<noteq> Joined" "ca_Phase c \<noteq> Joined" "\<And>r. ph \<noteq> Returned r" using assms(3,4) by auto
  then show "flightsOk (setCall i (ca_CID c) (ca_Shared c) ph ce)"
    using assms(1-4) by (auto simp: fetchInv_def flightsOk_def setCall_def)
  show "resultsOk outcome (setCall i (ca_CID c) (ca_Shared c) ph ce)"
    using assms(1,5) \<open>\<And>r. ph \<noteq> Returned r\<close> by (auto simp: fetchInv_def resultsOk_def setCall_def)
qed

lemma ops_slots [simp]:
  "flightsOk (ce\<lparr>ce_fetchSlots := n\<rparr>) = flightsOk ce" "resultsOk outcome (ce\<lparr>ce_fetchSlots := n\<rparr>) = resultsOk outcome ce"
  by (simp_all add: flightsOk_def resultsOk_def)

lemma acquireSlot_eq:
  "acquireSlot i c ce = (setCall i (ca_CID c) (ca_Shared c) Running ce)\<lparr>ce_fetchSlots := ce_fetchSlots ce + 1\<rparr>"
  by (simp add: acquireSlot_def setCall_def)

lemma releaseSlot_eq:
  "releaseSlot i c res ce = (setCall i (ca_CID c) (ca_Shared c) (Fetched res) ce)\<lparr>ce_fetchSlots := ce_fetchSlots ce - 1\<rparr>"
  by (simp add: releaseSlot_def setCall_def)

lemma acquireSlot_inv:
  assumes "fetchInv outcome ce" "ce_calls ce i = Some c" "ca_Phase c = Waiting" "ce_fetchSlots ce < contentFetchConcurrency"
  shows "fetchInv outcome (acquireSlot i c ce)"
proof -
  have "finite (runningCalls (ce_calls ce))"
    using assms(1) finite_subset [OF runningCalls_sub] by (auto simp: fetchInv_def slotsOk_def)
  moreover have "i \<notin> runningCalls (ce_calls ce)" using assms(2,3) by (simp add: runningCalls_def)
  ultimately have "slotsOk (acquireSlot i c ce)"
    using assms(1,4) by (simp add: fetchInv_def slotsOk_def acquireSlot_def setCall_def)
  with setCall_busy [OF assms(1,2), of Running] assms(3) show ?thesis
    by (simp add: fetchInv_def acquireSlot_eq)
qed

lemma releaseSlot_inv:
  assumes "fetchInv outcome ce" "ce_calls ce i = Some c" "ca_Phase c = Running" "outcome (ca_Shared c) (ca_CID c) res"
  shows "fetchInv outcome (releaseSlot i c res ce)"
proof -
  have "i \<in> runningCalls (ce_calls ce)" using assms(2,3) by (simp add: runningCalls_def)
  then have "slotsOk (releaseSlot i c res ce)"
    using assms(1) by (auto simp: fetchInv_def slotsOk_def releaseSlot_def setCall_def card_Diff_singleton)
  with setCall_busy [OF assms(1,2), of "Fetched res"] assms(3,4) show ?thesis
    by (auto simp: fetchInv_def releaseSlot_eq)
qed

lemma cancel_inv:
  assumes "fetchInv outcome ce" "ce_calls ce i = Some c" "ca_Phase c = Waiting"
  shows "fetchInv outcome (setCall i (ca_CID c) (ca_Shared c) (Fetched (Inl e)) ce)"
proof -
  have "i \<notin> runningCalls (ce_calls ce)" using assms(2,3) by (simp add: runningCalls_def)
  then have "slotsOk (setCall i (ca_CID c) (ca_Shared c) (Fetched (Inl e)) ce)"
    using assms(1) by (simp add: fetchInv_def slotsOk_def setCall_def)
  with setCall_busy [OF assms(1,2), of "Fetched (Inl e)"] assms(3) show ?thesis
    by (simp add: fetchInv_def)
qed

lemma leave_inv:
  assumes "fetchInv outcome ce" "ce_calls ce i = Some c" "ca_Phase c = Joined"
  shows "fetchInv outcome (setCall i (ca_CID c) (ca_Shared c) (Returned (Inl e)) ce)"
proof -
  have "i \<notin> runningCalls (ce_calls ce)" using assms(2,3) by (simp add: runningCalls_def)
  then have "slotsOk (setCall i (ca_CID c) (ca_Shared c) (Returned (Inl e)) ce)"
    using assms(1) by (simp add: fetchInv_def slotsOk_def setCall_def)
  moreover have "flightsOk (setCall i (ca_CID c) (ca_Shared c) (Returned (Inl e)) ce)"
    using assms by (auto simp: fetchInv_def flightsOk_def setCall_def)
  moreover have "resultsOk outcome (setCall i (ca_CID c) (ca_Shared c) (Returned (Inl e)) ce)"
    using assms(1) by (auto simp: fetchInv_def resultsOk_def setCall_def)
  ultimately show ?thesis by (simp add: fetchInv_def)
qed

text \<open>What \<open>publishResult\<close> makes of the calls and the flights.\<close>

lemma publishResult_calls:
  "ce_calls (publishResult now i c res ce) = (\<lambda>j. case ce_calls ce j of None \<Rightarrow> None
     | Some d \<Rightarrow> Some (if j = i \<or> ca_Shared c \<and> ca_CID d = ca_CID c \<and> ca_Phase d = Joined
         then d\<lparr>ca_Phase := Returned res\<rparr> else d))"
  "ce_fetchInFlight (publishResult now i c res ce) =
     (if ca_Shared c then (ce_fetchInFlight ce)(ca_CID c := None) else ce_fetchInFlight ce)"
  "ce_fetchSlots (publishResult now i c res ce) = ce_fetchSlots ce"
  by (simp_all add: publishResult_def Let_def recordFetchResultLocked_def cong: option.case_cong split: sum.splits)

lemma publishResult_inv:
  assumes inv: "fetchInv outcome ce" and i: "ce_calls ce i = Some c" "ca_Phase c = Fetched res"
  shows "fetchInv outcome (publishResult now i c res ce)" (is "fetchInv outcome ?ce")
proof -
  have fl: "flightsOk ce" using inv by (simp add: fetchInv_def)
  have "dom (ce_calls ?ce) = dom (ce_calls ce)"
    by (auto simp: publishResult_calls split: option.splits)
  moreover have "runningCalls (ce_calls ?ce) = runningCalls (ce_calls ce)"
    using i by (auto simp: publishResult_calls runningCalls_def split: option.splits)
  ultimately have "slotsOk ?ce"
    using inv by (simp add: fetchInv_def slotsOk_def publishResult_calls(3))
  moreover have "flightsOk ?ce"
    unfolding flightsOk_def
  proof (rule conjI; intro allI impI)
    fix cid j
    have "ce_fetchInFlight ce cid = Some j \<longleftrightarrow>
        (\<exists>c. ce_calls ce j = Some c \<and> ca_Shared c \<and> ca_CID c = cid \<and> busy (ca_Phase c))"
      using fl by (simp add: flightsOk_def)
    moreover have "(\<exists>d. ce_calls ?ce j = Some d \<and> ca_Shared d \<and> ca_CID d = cid \<and> busy (ca_Phase d)) \<longleftrightarrow>
        j \<noteq> i \<and> (\<exists>d. ce_calls ce j = Some d \<and> ca_Shared d \<and> ca_CID d = cid \<and> busy (ca_Phase d))"
    proof (cases "ce_calls ce j")
      case (Some d)
      then show ?thesis by (cases "ca_Phase d") (simp_all add: publishResult_calls)
    qed (simp add: publishResult_calls)
    moreover have "ce_fetchInFlight ce cid = Some i \<longleftrightarrow> ca_Shared c \<and> ca_CID c = cid"
      using fl i unfolding flightsOk_def by simp
    then have "ce_fetchInFlight ce cid = Some j \<Longrightarrow> j \<noteq> i \<longleftrightarrow> \<not> (ca_Shared c \<and> ca_CID c = cid)"
      by auto
    moreover have "ce_fetchInFlight ?ce cid = Some j \<longleftrightarrow>
        ce_fetchInFlight ce cid = Some j \<and> \<not> (ca_Shared c \<and> ca_CID c = cid)"
      by (simp add: publishResult_calls(2))
    ultimately show "ce_fetchInFlight ?ce cid = Some j \<longleftrightarrow>
        (\<exists>d. ce_calls ?ce j = Some d \<and> ca_Shared d \<and> ca_CID d = cid \<and> busy (ca_Phase d))"
      by blast
  next
    fix j d
    assume "ce_calls ?ce j = Some d \<and> ca_Phase d = Joined"
    then have d: "ce_calls ce j = Some d" "ca_Phase d = Joined" "\<not> (ca_Shared c \<and> ca_CID d = ca_CID c)"
      using i by (auto simp: publishResult_calls split: option.splits if_splits)
    then show "ca_Shared d \<and> ce_fetchInFlight ?ce (ca_CID d) \<noteq> None"
      using flightsOkD(2) [OF fl d(1)] by (auto simp: publishResult_calls)
  qed
  moreover have out: "outcome (ca_Shared c) (ca_CID c) res" if "res = Inr d" for d
    using inv i that by (auto simp: fetchInv_def resultsOk_def)
  have "resultsOk outcome ?ce"
    unfolding resultsOk_def
  proof (intro allI impI, elim conjE)
    fix j d' r
    assume "ce_calls ?ce j = Some d'" and r: "ca_Phase d' = Fetched (Inr r) \<or> ca_Phase d' = Returned (Inr r)"
    then obtain d where d: "ce_calls ce j = Some d"
      and d': "d' = (if j = i \<or> ca_Shared c \<and> ca_CID d = ca_CID c \<and> ca_Phase d = Joined
         then d\<lparr>ca_Phase := Returned res\<rparr> else d)"
      by (auto simp: publishResult_calls split: option.splits)
    show "outcome (ca_Shared d') (ca_CID d') (Inr r)"
    proof (cases "j = i \<or> ca_Shared c \<and> ca_CID d = ca_CID c \<and> ca_Phase d = Joined")
      case True
      then have "ca_Shared d = ca_Shared c \<and> ca_CID d = ca_CID c" using d i(1) flightsOkD(2) [OF fl d] by auto
      moreover have "res = Inr r" using True d' r by auto
      ultimately show ?thesis using True d' out [of r] by simp
    next
      case False
      with d d' r inv show ?thesis by (simp add: fetchInv_def resultsOk_def)
    qed
  qed
  ultimately show ?thesis by (simp add: fetchInv_def)
qed

lemma startShared_inv:
  assumes "fetchInv outcome ce" "ce_calls ce i = None"
  shows "fetchInv outcome (startShared now i cid ce)"
proof -
  obtain r ce1 where b: "checkFetchBackoffLocked cid now ce = (r, ce1)" by fastforce
  have inv: "fetchInv outcome ce1" "ce_calls ce1 i = None" using checkBackoff_inv [OF b] assms by auto
  show ?thesis
  proof (cases r)
    case (Some e)
    with b show ?thesis by (auto simp: startShared_def intro!: setCall_new [OF inv])
  next
    case None
    with b show ?thesis
      by (auto simp: startShared_def split: option.splits intro!: setCall_new [OF inv] setCall_leader [OF inv])
  qed
qed

lemma startToFile_inv:
  assumes "fetchInv outcome ce" "ce_calls ce i = None"
  shows "fetchInv outcome (startToFile now i cid ce)"
proof -
  obtain r ce1 where b: "checkFetchBackoffLocked cid now ce = (r, ce1)" by fastforce
  have inv: "fetchInv outcome ce1" "ce_calls ce1 i = None" using checkBackoff_inv [OF b] assms by auto
  show ?thesis
    by (auto simp: startToFile_def b split: sum.splits option.splits
        intro!: setCall_new [OF inv] setCall_new [OF assms])
qed

lemma fetchStep_inv: "fetchStep outcome ce ce' \<Longrightarrow> fetchInv outcome ce \<Longrightarrow> fetchInv outcome ce'"
  by (induction rule: fetchStep.induct)
    (simp_all add: startShared_inv startToFile_inv acquireSlot_inv cancel_inv releaseSlot_inv publishResult_inv leave_inv)

lemma reachable_inv: "fetchReachable outcome ce \<Longrightarrow> fetchInv outcome ce"
proof (induction rule: fetchReachable.induct)
  case init
  then show ?case
    by (simp add: fetchInv_def slotsOk_def flightsOk_def resultsOk_def NewContentExchange_def runningCalls_def)
next
  case (step ce ce')
  then show ?case using fetchStep_inv by blast
qed

text \<open>
  At every moment, whatever calls of \<open>FetchContent\<close> and \<open>FetchContentToTempFile\<close> run and however
  they interleave and fail: the slots of the semaphore that are taken are exactly the fetches that run, at
  most four; and an identifier is in flight exactly when one call of \<open>FetchContent\<close> works on it, never
  two, and every call that waits for another's result waits for one that is still at work.
\<close>

theorem fetches_bounded_and_shared:
  assumes "fetchReachable outcome ce"
  shows "ce_fetchSlots ce = card {i. \<exists>c. ce_calls ce i = Some c \<and> ca_Phase c = Running} \<and> ce_fetchSlots ce \<le> 4 \<and>
    (\<forall>cid. \<forall>i j. (\<exists>c d. ce_calls ce i = Some c \<and> ce_calls ce j = Some d \<and> ca_Shared c \<and> ca_Shared d \<and>
       ca_CID c = cid \<and> ca_CID d = cid \<and> busy (ca_Phase c) \<and> busy (ca_Phase d)) \<longrightarrow> i = j) \<and>
    (\<forall>j d. ce_calls ce j = Some d \<and> ca_Phase d = Joined \<longrightarrow>
       (\<exists>i c. ce_calls ce i = Some c \<and> ca_Shared c \<and> ca_CID c = ca_CID d \<and> busy (ca_Phase c)))"
proof -
  have inv: "slotsOk ce" "flightsOk ce" using reachable_inv [OF assms] by (simp_all add: fetchInv_def)
  have one: "i = j" if "ce_calls ce i = Some c" "ce_calls ce j = Some d" "ca_Shared c" "ca_Shared d"
    "ca_CID c = cid" "ca_CID d = cid" "busy (ca_Phase c)" "busy (ca_Phase d)" for i j c d cid
    using flightsOkD(1) [OF inv(2) that(1)] flightsOkD(1) [OF inv(2) that(2)] that by simp
  have "\<exists>i c. ce_calls ce i = Some c \<and> ca_Shared c \<and> ca_CID c = ca_CID d \<and> busy (ca_Phase c)"
    if "ce_calls ce j = Some d" "ca_Phase d = Joined" for j d
  proof -
    from flightsOkD(2) [OF inv(2) that] obtain i where "ce_fetchInFlight ce (ca_CID d) = Some i" by auto
    then show ?thesis using inv(2) unfolding flightsOk_def by blast
  qed
  then show ?thesis
    using inv(1) one unfolding slotsOk_def runningCalls_def contentFetchConcurrency_def by blast
qed

subsection \<open>Every caller gets what it asked for\<close>

text \<open>What the body of \<open>FetchContent\<close> can return while the network changes and the multihash package does not.\<close>

definition networkOutcome ::
  "(bytes \<Rightarrow> goerr + nat \<times> int) \<Rightarrow> (bytes \<Rightarrow> nat \<Rightarrow> int \<Rightarrow> goerr + bytes) \<Rightarrow> bool \<Rightarrow> string \<Rightarrow> goerr + bytes \<Rightarrow> bool" where
  "networkOutcome mhDecode mhSum shared cidHex res \<longleftrightarrow> (shared \<longrightarrow>
     (\<exists>e. res = Inl e) \<or> (\<exists>env cid. xe_mhDecode env = mhDecode \<and> xe_mhSum env = mhSum \<and>
        DecodeString cidHex = Inr cid \<and> res = remoteFetch env cidHex cid))"

lemma remoteFetch_hashes:
  "remoteFetch env cidHex cid = Inr data \<Longrightarrow> hashes env data cid \<and> 0 < length data \<and> length data \<le> maxContentSize"
  by (auto simp: remoteFetch_def dest: tryProviders_hashes split: sum.splits if_splits)

text \<open>
  C19. Whatever the peers answer, and however the calls interleave, a call of \<open>FetchContent\<close> that returns
  bytes from the network, its own fetch's or those of a call it joined, returns a non-empty content
  within the size limit whose multihash is the identifier that this call asked for.
\<close>

theorem fetched_is_requested:
  assumes "fetchReachable (networkOutcome mhDecode mhSum) ce"
    and "ce_calls ce i = Some c" "ca_Shared c" "ca_Phase c = Returned (Inr data)"
  shows "\<exists>cid code len. DecodeString (ca_CID c) = Inr cid \<and> mhDecode cid = Inr (code, len) \<and>
    mhSum data code len = Inr cid \<and> 0 < length data \<and> length data \<le> MaxMediaSize"
proof -
  have "networkOutcome mhDecode mhSum (ca_Shared c) (ca_CID c) (Inr data)"
    using reachable_inv [OF assms(1)] assms(2,4) by (simp add: fetchInv_def resultsOk_def)
  then obtain env cid where env: "xe_mhDecode env = mhDecode" "xe_mhSum env = mhSum" "DecodeString (ca_CID c) = Inr cid"
    "remoteFetch env (ca_CID c) cid = Inr data"
    using assms(3) by (auto simp: networkOutcome_def)
  from remoteFetch_hashes [OF env(4)] env(1-3) show ?thesis
    by (auto simp: hashes_def maxContentSize_def)
qed

subsection \<open>No call waits for ever\<close>

text \<open>The steps of calls under way when no context ends and no call comes.\<close>

inductive workStep ::
  "(bool \<Rightarrow> string \<Rightarrow> goerr + 'r \<Rightarrow> bool) \<Rightarrow> 'r ContentExchange \<Rightarrow> 'r ContentExchange \<Rightarrow> bool" for outcome where
  acquire: "ce_calls ce i = Some c \<Longrightarrow> ca_Phase c = Waiting \<Longrightarrow> ce_fetchSlots ce < contentFetchConcurrency \<Longrightarrow>
    workStep outcome ce (acquireSlot i c ce)"
| fetched: "ce_calls ce i = Some c \<Longrightarrow> ca_Phase c = Running \<Longrightarrow> outcome (ca_Shared c) (ca_CID c) res \<Longrightarrow>
    workStep outcome ce (releaseSlot i c res ce)"
| publish: "ce_calls ce i = Some c \<Longrightarrow> ca_Phase c = Fetched res \<Longrightarrow> workStep outcome ce (publishResult now i c res ce)"

lemma workStep_fetchStep: "workStep outcome ce ce' \<Longrightarrow> fetchStep outcome ce ce'"
  by (induction rule: workStep.induct) (blast intro: fetchStep.intros)+

fun toDo :: "'r phase \<Rightarrow> nat" where
  "toDo Waiting = 3"
| "toDo Running = 2"
| "toDo (Fetched _) = 1"
| "toDo Joined = 1"
| "toDo (Returned _) = 0"

definition workLeft :: "'r ContentExchange \<Rightarrow> nat" where
  "workLeft ce = (\<Sum>i\<in>dom (ce_calls ce). toDo (ca_Phase (the (ce_calls ce i))))"

lemma workLeft_less:
  assumes "finite (dom (ce_calls ce))" "dom (ce_calls ce') = dom (ce_calls ce)" "i \<in> dom (ce_calls ce)"
    and "\<And>j. j \<in> dom (ce_calls ce) \<Longrightarrow> toDo (ca_Phase (the (ce_calls ce' j))) \<le> toDo (ca_Phase (the (ce_calls ce j)))"
    and "toDo (ca_Phase (the (ce_calls ce' i))) < toDo (ca_Phase (the (ce_calls ce i)))"
  shows "workLeft ce' < workLeft ce"
  unfolding workLeft_def assms(2) by (rule sum_strict_mono_ex1) (use assms in auto)

lemma setCall_work:
  assumes "finite (dom (ce_calls ce))" "ce_calls ce i = Some c" "toDo ph < toDo (ca_Phase c)"
    and "ce_calls ce' = ce_calls (setCall i (ca_CID c) (ca_Shared c) ph ce)"
  shows "workLeft ce' < workLeft ce \<and> dom (ce_calls ce') = dom (ce_calls ce)"
proof -
  have d: "dom (ce_calls ce') = dom (ce_calls ce)" using assms(2,4) by (auto simp: setCall_def)
  have "workLeft ce' < workLeft ce"
    by (rule workLeft_less [where i = i]) (use assms d in \<open>auto simp: setCall_def\<close>)
  with d show ?thesis by simp
qed

lemma workStep_work:
  "workStep outcome ce ce' \<Longrightarrow> finite (dom (ce_calls ce)) \<Longrightarrow>
     workLeft ce' < workLeft ce \<and> dom (ce_calls ce') = dom (ce_calls ce)"
proof (induction rule: workStep.induct)
  case (acquire ce i c)
  then show ?case by (intro setCall_work [where ph = Running]) (auto simp: acquireSlot_eq)
next
  case (fetched ce i c res)
  then show ?case by (intro setCall_work [where ph = "Fetched res"]) (auto simp: releaseSlot_eq)
next
  case (publish ce i c res now)
  have d: "dom (ce_calls (publishResult now i c res ce)) = dom (ce_calls ce)"
    by (auto simp: publishResult_calls split: option.splits)
  have "workLeft (publishResult now i c res ce) < workLeft ce"
    by (rule workLeft_less [where i = i]) (use publish d in \<open>auto simp: publishResult_calls\<close>)
  with d show ?case by simp
qed

lemma workLeft_bound: "finite (dom (ce_calls ce)) \<Longrightarrow> workLeft ce \<le> 3 * card (dom (ce_calls ce))"
proof -
  have "toDo ph \<le> 3" for ph :: "'a phase" by (cases ph) auto
  then have "workLeft ce \<le> (\<Sum>i\<in>dom (ce_calls ce). 3)" unfolding workLeft_def by (rule sum_mono)
  then show ?thesis by simp
qed

lemma work_goes_on:
  assumes "fetchInv outcome ce" "ce_calls ce i = Some c" "\<forall>r. ca_Phase c \<noteq> Returned r"
    and "\<And>sh cid. \<exists>res. outcome sh cid res"
  shows "\<exists>ce'. workStep outcome ce ce'"
proof -
  have step: "\<exists>ce'. workStep outcome ce ce'" if "ce_calls ce j = Some d" "busy (ca_Phase d)" for j d
  proof (cases "ca_Phase d")
    case Waiting
    show ?thesis
    proof (cases "ce_fetchSlots ce < contentFetchConcurrency")
      case True
      with that Waiting show ?thesis by (blast intro: workStep.acquire)
    next
      case False
      then have "card (runningCalls (ce_calls ce)) \<noteq> 0"
        using assms(1) by (simp add: fetchInv_def slotsOk_def contentFetchConcurrency_def)
      then have "runningCalls (ce_calls ce) \<noteq> {}" by auto
      then obtain k b where "ce_calls ce k = Some b" "ca_Phase b = Running"
        by (auto simp: runningCalls_def)
      then show ?thesis using assms(4) by (blast intro: workStep.fetched)
    qed
  next
    case Running
    with that assms(4) show ?thesis by (blast intro: workStep.fetched)
  next
    case (Fetched r)
    with that show ?thesis by (blast intro: workStep.publish)
  qed (use that in auto)
  show ?thesis
  proof (cases "busy (ca_Phase c)")
    case False
    then have "ca_Phase c = Joined" using assms(3) by (cases "ca_Phase c") auto
    with assms(1,2) obtain j where "ce_fetchInFlight ce (ca_CID c) = Some j"
      by (auto simp: fetchInv_def dest: flightsOkD(2))
    then obtain d where "ce_calls ce j = Some d" "busy (ca_Phase d)"
      using assms(1) unfolding fetchInv_def flightsOk_def by blast
    then show ?thesis by (rule step)
  qed (rule step [OF assms(2)])
qed

text \<open>
  C20. Calls of the exchange never block each other for ever: if every fetch that runs ends with some
  outcome, then from any reachable state, with no call added and no context ending, the calls make at
  most three steps each, and they stop only when every call has returned.
\<close>

theorem every_call_returns:
  assumes "fetchReachable outcome ce" "\<And>sh cid. \<exists>res. outcome sh cid res"
    and "(workStep outcome ^^ n) ce ce'"
  shows "n \<le> 3 * card (dom (ce_calls ce)) \<and>
    ((\<exists>ce''. workStep outcome ce' ce'') \<or> (\<forall>c\<in>ran (ce_calls ce'). \<exists>r. ca_Phase c = Returned r))"
proof -
  have run: "fetchReachable outcome b \<and> n + workLeft b \<le> workLeft ce" if "(workStep outcome ^^ n) ce b" for n b
    using that
  proof (induction n arbitrary: b)
    case 0
    then show ?case using assms(1) by simp
  next
    case (Suc n)
    then obtain a where a: "(workStep outcome ^^ n) ce a" "workStep outcome a b" by auto
    have "finite (dom (ce_calls a))"
      using reachable_inv Suc.IH [OF a(1)] by (auto simp: fetchInv_def slotsOk_def)
    with workStep_work [OF a(2)] Suc.IH [OF a(1)] workStep_fetchStep [OF a(2)] show ?case
      by (auto intro: fetchReachable.step)
  qed
  have "finite (dom (ce_calls ce))"
    using reachable_inv [OF assms(1)] by (simp add: fetchInv_def slotsOk_def)
  from workLeft_bound [OF this] run [OF assms(3)] have "n \<le> 3 * card (dom (ce_calls ce))" by simp
  moreover have "\<exists>ce''. workStep outcome ce' ce''" if "c \<in> ran (ce_calls ce')" "\<nexists>r. ca_Phase c = Returned r" for c
    using that run [OF assms(3)] work_goes_on [OF reachable_inv _ _ assms(2)] by (fastforce simp: ran_def)
  ultimately show ?thesis by blast
qed

section \<open>Fetching into a temporary file\<close>

definition holdsBytes :: "path \<Rightarrow> bytes \<Rightarrow> fs \<Rightarrow> bool" where
  "holdsBytes t d s \<longleftrightarrow> (\<exists>m. node s t = Some (FFile m d))"

lemma holdsBytes_step [simp]: "holdsBytes t d (s\<lparr>fs_step := k\<rparr>) = holdsBytes t d s"
  by (simp add: holdsBytes_def)

lemma fetchFile_created: "triple (\<lambda>_. True) (createFetchFile dir) (\<lambda>t. holdsBytes t []) (\<lambda>_. True)"
  unfolding createFetchFile_def
  by (rule triple_sysE) (auto simp: triple_def Let_def holdsBytes_def split: option.splits fnode.splits if_splits)

lemma fetchFile_calls:
  "triple (holdsBytes t d) (osChmod t m) (\<lambda>_. holdsBytes t d) (\<lambda>_. True)"
  "triple (holdsBytes t d0) (fileWrite t d) (\<lambda>_. holdsBytes t (d0 @ d)) (\<lambda>_. True)"
  "triple (holdsBytes t d) fileSync (\<lambda>_. holdsBytes t d) (\<lambda>_. True)"
  "triple (holdsBytes t d) fileClose (\<lambda>_. holdsBytes t d) (\<lambda>_. True)"
  unfolding osChmod_def fileWrite_def fileSync_def fileClose_def
  by (rule triple_sysE; auto simp: triple_def holdsBytes_def run_bindE appendFile_def)+

lemma triple_throw_any: "triple P (throwE e) Q (\<lambda>_. True)"
  by (simp add: triple_def)

text \<open>A file of content that was asked for.\<close>

definition fetchedFile :: "exchange_env \<Rightarrow> bytes \<Rightarrow> path \<Rightarrow> int \<Rightarrow> fs \<Rightarrow> bool" where
  "fetchedFile env cid t sz s \<longleftrightarrow> (\<exists>d. holdsBytes t d s \<and> hashes env d cid \<and> sz = int (length d) \<and>
     0 < length d \<and> length d \<le> maxContentSize)"

lemma readToFile_spec:
  "triple (holdsBytes t []) (readContentResponseToFile env st t cid) (\<lambda>sz. fetchedFile env cid t sz) (\<lambda>_. True)"
proof (cases "readContentResponseLength st")
  case (Pair r s1)
  show ?thesis
  proof (cases r)
    case (Inl e)
    with Pair show ?thesis by (simp add: readContentResponseToFile_def triple_throw_any)
  next
    case (Inr n)
    show ?thesis
    proof (cases "xe_mhDecode env cid")
      case (Inl e)
      with Pair Inr show ?thesis by (simp add: readContentResponseToFile_def triple_throw_any)
    next
      case m: (Inr m)
      obtain code len where [simp]: "m = (code, len)" by fastforce
      let ?d = "take (unat n) (st_in s1)"
      have len: "0 < unat n" "unat n \<le> maxContentSize" using responseLength_bounds Pair Inr by auto
      have w: "triple (holdsBytes t []) (wrapE p (seqE (fileWrite t ?d)
          (if length ?d < unat n \<and> st_end s1 \<noteq> EOF then throwE (st_end s1) else liftE (xe_mhSum env ?d code len))))
          (\<lambda>h s. holdsBytes t ?d s \<and> xe_mhSum env ?d code len = Inr h) (\<lambda>_. True)" for p
        by (rule triple_wrapE, rule triple_seqE [OF fetchFile_calls(2)]) (auto simp: triple_def)
      show ?thesis
        unfolding readContentResponseToFile_def Pair Inr m \<open>m = _\<close> prod.case sum.case Let_def
        by (rule triple_bindE [OF w]) (use len in \<open>auto simp: triple_def fetchedFile_def hashes_def m\<close>)
    qed
  qed
qed

lemma fetchPeerFile_spec:
  "triple (\<lambda>_. True) (fetchFromPeerToTempFile env dir pid cid) (\<lambda>f. fetchedFile env cid (fc_Path f) (fc_Size f)) (\<lambda>_. True)"
proof (cases "requestStream env pid cid")
  case (Inl e)
  then show ?thesis by (simp add: fetchFromPeerToTempFile_def triple_throw_any)
next
  case (Inr st)
  have any: "triple P (seqE m (seqE k (throwE e))) Q (\<lambda>_. True)" for P m k e Q
    by (simp add: triple_def seqE_def run_bindE split: prod.splits sum.splits)
  have keep: "triple (fetchedFile env cid t sz) m (\<lambda>_. fetchedFile env cid t sz) (\<lambda>_. True)"
    if "\<And>d. triple (holdsBytes t d) m (\<lambda>_. holdsBytes t d) (\<lambda>_. True)" for t sz m
    using that unfolding triple_def fetchedFile_def by (metis (mono_tags, lifting))
  have finish: "triple (fetchedFile env cid t sz) (seqE (wrapE w1 fileSync) (seqE (wrapE w2 fileClose)
      (retE \<lparr>fc_Path = t, fc_Size = sz\<rparr>))) (\<lambda>f. fetchedFile env cid (fc_Path f) (fc_Size f)) (\<lambda>_. True)" for t sz w1 w2
    by (intro triple_seqE [OF triple_wrapE [OF keep [OF fetchFile_calls(3)]]]
        triple_seqE [OF triple_wrapE [OF keep [OF fetchFile_calls(4)]]]) (simp add: triple_def)
  have chmod: "triple (holdsBytes t []) (catchE (osChmod t 384) h) (\<lambda>_. holdsBytes t []) (\<lambda>_. True)"
    if "\<And>P Q e. triple P (h e) Q (\<lambda>_. True)" for t h
    by (rule triple_catchE [OF fetchFile_calls(1) that]) simp
  have body: "triple (holdsBytes t []) (catchE (bindE (readContentResponseToFile env st t cid) (\<lambda>sz.
      seqE (wrapE w1 fileSync) (seqE (wrapE w2 fileClose) (retE \<lparr>fc_Path = t, fc_Size = sz\<rparr>)))) h)
      (\<lambda>f. fetchedFile env cid (fc_Path f) (fc_Size f)) (\<lambda>_. True)"
    if "\<And>P Q e. triple P (h e) Q (\<lambda>_. True)" for t h w1 w2
    by (rule triple_catchE [OF triple_bindE [OF readToFile_spec finish] that]) simp
  show ?thesis
    unfolding fetchFromPeerToTempFile_def Inr sum.case
    by (rule triple_bindE [OF triple_wrapE [OF fetchFile_created]])
      (rule triple_seqE [OF chmod [OF any] body [OF any]])
qed

lemma tryProvidersFile_spec:
  "triple (\<lambda>_. True) (tryProvidersToTempFile env dir ps cid err)
     (\<lambda>f. fetchedFile env cid (fc_Path f) (fc_Size f)) (\<lambda>_. True)"
  by (induction env dir ps cid err rule: tryProvidersToTempFile.induct)
    (auto simp: triple_def [of _ "Pair _"] split: sum.splits intro!: triple_throw_any triple_catchE [OF fetchPeerFile_spec])

text \<open>
  Whatever the peers answer and whatever system calls fail, a temporary file that
  \<open>FetchContentToTempFile\<close> returns holds a non-empty content within the size limit whose multihash is the
  identifier that was asked for, and the size returned is that of the file.
\<close>

theorem fetched_file_is_requested:
  assumes "remoteFetchToFile env tmpDir cidHex cid s = (Inr f, s')"
  shows "\<exists>m d. node s' (fc_Path f) = Some (FFile m d) \<and> hashes env d cid \<and> fc_Size f = int (length d) \<and>
    0 < length d \<and> length d \<le> MaxMediaSize"
proof -
  have "triple (\<lambda>_. True) (remoteFetchToFile env tmpDir cidHex cid) (\<lambda>f. fetchedFile env cid (fc_Path f) (fc_Size f)) (\<lambda>_. True)"
    by (simp add: remoteFetchToFile_def triple_throw_any tryProvidersFile_spec split: sum.splits)
  with assms have "fetchedFile env cid (fc_Path f) (fc_Size f) s'" unfolding triple_def by fastforce
  then show ?thesis by (auto simp: fetchedFile_def holdsBytes_def maxContentSize_def)
qed

section \<open>A run with two calls\<close>

text \<open>
  Peer \<open>B\<close> cannot be reached, \<open>C\<close> serves two bytes whose identifier is their identity multihash. Two calls
  ask for them: the first fetches, the second joins it.
\<close>

definition demoData :: bytes where "demoData = [7, 8]"
definition demoCID :: bytes where "demoCID = [0, 2, 7, 8]"

definition demoServer :: ContentServer where
  "demoServer h = (if h = EncodeToString demoCID
     then (Some \<lparr>so_Reader = Some \<lparr>r_data = demoData, r_err = None\<rparr>, so_Size = 2\<rparr>, True) else (None, False))"

definition identityDecode :: "bytes \<Rightarrow> goerr + nat \<times> int" where
  "identityDecode b = (case b of k # n # d \<Rightarrow> if k = 0 \<and> n = word_of_nat (length d) then Inr (0, int (length d))
     else Inl (Err ''inconsistent length'') | _ \<Rightarrow> Inl (Err ''multihash too short''))"

definition identitySum :: "bytes \<Rightarrow> nat \<Rightarrow> int \<Rightarrow> goerr + bytes" where
  "identitySum d code n = (if code = 0 then Inr (0 # word_of_nat (length d) # d) else Inl (Err ''unknown code''))"

definition demoEnv :: exchange_env where
  "demoEnv = \<lparr>xe_self = ''A'', xe_DHT = (\<lambda>_. [''A'', ''B'', ''C'']), xe_decodePeer = Inr,
     xe_dial = (\<lambda>p. if p = ''C'' then Inr \<lparr>rm_deadline = None, rm_room = None, rm_broken = EOF, rm_closeWrite = None,
         rm_answer = (\<lambda>req. st_out (snd (handleContentStream None (Some demoServer)
           \<lparr>st_in = req, st_end = EOF, st_out = [], st_room = None, st_broken = EOF\<rparr>))), rm_end = EOF\<rparr>
       else Inl (Err ''no route'')),
     xe_mhDecode = identityDecode, xe_mhSum = identitySum\<rparr>"

lemma demo_decode: "DecodeString (EncodeToString demoCID) = Inr demoCID"
  by simp

lemma demo_honest: "honest demoEnv ''C'' demoServer" "serves demoServer demoCID demoData" "hashes demoEnv demoData demoCID"
  by (simp_all add: honest_def serves_def hashes_def demoEnv_def demoServer_def demoData_def demoCID_def
      identityDecode_def identitySum_def)

theorem one_honest_provider_suffices_witness:
  "\<exists>d. remoteFetch demoEnv (EncodeToString demoCID) demoCID = Inr d \<and> hashes demoEnv d demoCID"
  by (rule one_honest_provider_suffices [of _ _ "''C''" _ "''C''", OF demo_decode _ _ _ demo_honest(1,2) _ _ _ _ demo_honest(3)])
    (simp_all add: demoEnv_def maxProviders_def demoCID_def demoData_def maxContentSize_def MaxMediaSize_def)

definition demoOutcome :: "bool \<Rightarrow> string \<Rightarrow> goerr + bytes \<Rightarrow> bool" where
  "demoOutcome = networkOutcome identityDecode identitySum"

definition demoJoined :: "bytes ContentExchange" where
  "demoJoined = startShared 5 1 (EncodeToString demoCID) (startShared 0 0 (EncodeToString demoCID) NewContentExchange)"

definition demoCall :: "bytes phase \<Rightarrow> bytes call" where
  "demoCall ph = \<lparr>ca_CID = EncodeToString demoCID, ca_Shared = True, ca_Phase = ph\<rparr>"

definition demoRunning :: "bytes ContentExchange" where
  "demoRunning = acquireSlot 0 (demoCall Waiting) demoJoined"

definition demoReturned :: "bytes ContentExchange" where
  "demoReturned = publishResult 9 0 (demoCall (Fetched (Inr demoData))) (Inr demoData)
     (releaseSlot 0 (demoCall Running) (Inr demoData) demoRunning)"

lemmas demo_defs = demoRunning_def demoReturned_def demoJoined_def demoCall_def startShared_def
  checkFetchBackoffLocked_def NewContentExchange_def setCall_def acquireSlot_def releaseSlot_def

lemma demo_calls:
  "ce_calls demoJoined 0 = Some (demoCall Waiting)" "ce_calls demoJoined 1 = Some (demoCall Joined)" "ce_fetchSlots demoJoined = 0"
  "ce_calls demoRunning 0 = Some (demoCall Running)" "ce_calls demoRunning 1 = Some (demoCall Joined)"
  "ce_calls demoReturned 1 = Some (demoCall (Returned (Inr demoData)))"
  by (simp_all add: demo_defs publishResult_calls)

lemma demo_fetch: "remoteFetch demoEnv (EncodeToString demoCID) demoCID = Inr demoData"
proof -
  have "fetchFromPeer demoEnv ''C'' demoCID = Inr demoData"
    by (rule fetch_from_honest [OF demo_honest(1,2)])
      (use demo_honest(3) in \<open>simp_all add: validate_hashes demoCID_def demoData_def maxContentSize_def MaxMediaSize_def\<close>)
  moreover have "fetchFromPeer demoEnv ''B'' demoCID = Inl (wrap ''opening stream'' (Err ''no route''))"
    by (simp add: fetchFromPeer_def requestStream_def demoEnv_def)
  moreover have "FindProviders demoEnv (EncodeToString demoCID) = Inr [''B'', ''C'']"
    by (simp add: FindProviders_def hexToCid_def demo_decode) (simp add: demoEnv_def demoCID_def identityDecode_def maxProviders_def)
  moreover have "xe_decodePeer demoEnv p = Inr p" for p by (simp add: demoEnv_def)
  ultimately show ?thesis by (simp add: remoteFetch_def)
qed

lemma demo_reachable:
  "fetchReachable demoOutcome demoJoined" "fetchReachable demoOutcome demoRunning" "fetchReachable demoOutcome demoReturned"
proof -
  let ?h = "EncodeToString demoCID"
  have s0: "fetchReachable demoOutcome (startShared 0 0 ?h NewContentExchange)"
    by (rule fetchReachable.step [OF fetchReachable.init fetchStep.start]) (simp add: NewContentExchange_def)
  show 1: "fetchReachable demoOutcome demoJoined"
    unfolding demoJoined_def
    by (rule fetchReachable.step [OF s0 fetchStep.start]) (simp add: demo_defs)
  show 2: "fetchReachable demoOutcome demoRunning"
    unfolding demoRunning_def
    by (rule fetchReachable.step [OF 1 fetchStep.acquire])
      (simp_all add: demo_calls demoCall_def contentFetchConcurrency_def)
  have "demoOutcome True ?h (Inr demoData)"
    unfolding demoOutcome_def networkOutcome_def
    by (intro impI disjI2 exI [of _ demoEnv] exI [of _ demoCID]) (simp add: demo_fetch demo_decode, simp add: demoEnv_def)
  then have 3: "fetchReachable demoOutcome (releaseSlot 0 (demoCall Running) (Inr demoData) demoRunning)"
    by (intro fetchReachable.step [OF 2 fetchStep.fetched]) (simp_all add: demo_calls, simp_all add: demoCall_def)
  show "fetchReachable demoOutcome demoReturned"
    unfolding demoReturned_def
    by (rule fetchReachable.step [OF 3 fetchStep.publish]) (simp_all add: demo_defs)
qed

theorem fetches_bounded_and_shared_witness:
  "ce_fetchSlots demoRunning = card {i. \<exists>c. ce_calls demoRunning i = Some c \<and> ca_Phase c = Running} \<and>
   ce_calls demoRunning 1 = Some (demoCall Joined) \<and>
   (\<exists>i c. ce_calls demoRunning i = Some c \<and> ca_Shared c \<and> ca_CID c = EncodeToString demoCID \<and> busy (ca_Phase c))"
proof -
  note inv = fetches_bounded_and_shared [OF demo_reachable(2)]
  have call: "ca_Phase (demoCall Joined) = Joined" "ca_CID (demoCall Joined) = EncodeToString demoCID"
    by (simp_all add: demoCall_def)
  show ?thesis
  proof (intro conjI)
    show "ce_fetchSlots demoRunning = card {i. \<exists>c. ce_calls demoRunning i = Some c \<and> ca_Phase c = Running}"
      by (rule conjunct1 [OF inv])
    show "ce_calls demoRunning 1 = Some (demoCall Joined)" by (rule demo_calls)
    from conjunct2 [OF conjunct2 [OF conjunct2 [OF inv]], rule_format, of 1 "demoCall Joined"] call demo_calls(5)
    show "\<exists>i c. ce_calls demoRunning i = Some c \<and> ca_Shared c \<and> ca_CID c = EncodeToString demoCID \<and> busy (ca_Phase c)"
      by (simp only: simp_thms)
  qed
qed

theorem fetched_is_requested_witness:
  "\<exists>cid code len. DecodeString (EncodeToString demoCID) = Inr cid \<and> identityDecode cid = Inr (code, len) \<and>
     identitySum demoData code len = Inr cid \<and> 0 < length demoData \<and> length demoData \<le> MaxMediaSize"
  using fetched_is_requested [OF demo_reachable(3) [unfolded demoOutcome_def] demo_calls(6)] by (simp add: demoCall_def)

theorem every_call_returns_witness:
  "1 \<le> 3 * card (dom (ce_calls demoJoined)) \<and>
    ((\<exists>ce. workStep demoOutcome demoRunning ce) \<or> (\<forall>c\<in>ran (ce_calls demoRunning). \<exists>r. ca_Phase c = Returned r))"
proof (rule every_call_returns [OF demo_reachable(1)])
  show "\<exists>res. demoOutcome sh cid res" for sh cid by (auto simp: demoOutcome_def networkOutcome_def)
  show "(workStep demoOutcome ^^ 1) demoJoined demoRunning"
    unfolding demoRunning_def relpowp_1
    by (rule workStep.acquire) (simp_all add: demo_calls demoCall_def contentFetchConcurrency_def)
qed

definition demoFs :: fs where
  "demoFs = \<lparr>fs_nodes = [([''tmp''], FDir 448)], fs_faults = (\<lambda>_. None), fs_suffix = (\<lambda>_. ''1''), fs_step = 0\<rparr>"

lemma demo_request:
  "\<exists>s. requestStream demoEnv ''C'' demoCID = Inr s \<and> st_in s = be32 2 @ demoData"
proof -
  have "st_out (snd (handleContentStream None (Some demoServer)
       \<lparr>st_in = be32 (word_of_nat (length demoCID)) @ demoCID, st_end = EOF, st_out = [], st_room = None, st_broken = EOF\<rparr>)) =
     be32 (word_of_nat (length demoData)) @ demoData"
    by (rule answer_of_server [OF demo_honest(2)])
      (simp_all add: demoCID_def demoData_def maxContentSize_def MaxMediaSize_def)
  moreover have "word_of_nat (length demoData) = (2 :: 32 word)" by (simp add: demoData_def)
  ultimately show ?thesis
    by (simp add: requestStream_def demoEnv_def writeCIDRequest_def seqE_def run_bindE run_wrapE)
qed

lemma demo_fetch_file:
  "\<exists>s'. remoteFetchToFile demoEnv [''tmp''] (EncodeToString demoCID) demoCID demoFs =
     (Inr \<lparr>fc_Path = [''tmp'', ''xleaks-fetch-1''], fc_Size = 2\<rparr>, s')"
proof -
  obtain st where st: "requestStream demoEnv ''C'' demoCID = Inr st" "st_in st = be32 2 @ demoData"
    using demo_request by blast
  have len: "readContentResponseLength st = (Inr 2, st\<lparr>st_in := demoData\<rparr>)"
    by (simp add: readContentResponseLength_def run_bindE run_wrapE streamReadFull_append [where a = "be32 2" and b = demoData]
        st(2) Let_def maxContentSize_def MaxMediaSize_def)
  have mh: "xe_mhDecode demoEnv demoCID = Inr (0, 2)" "xe_mhSum demoEnv demoData 0 2 = Inr demoCID"
    by (simp_all add: demoEnv_def identityDecode_def identitySum_def demoCID_def demoData_def)
  have "\<exists>s'. fetchFromPeerToTempFile demoEnv [''tmp''] ''C'' demoCID demoFs =
      (Inr \<lparr>fc_Path = [''tmp'', ''xleaks-fetch-1''], fc_Size = 2\<rparr>, s')"
    by (simp add: fetchFromPeerToTempFile_def st(1) run_bindE run_wrapE seqE_def createFetchFile_def sysE_nofault
        demoFs_def Let_def node_def setNode_def osChmod_def catchE_def readContentResponseToFile_def len mh fileWrite_def
        appendFile_def fileSync_def fileClose_def)
      (simp add: demoData_def mh [unfolded demoData_def] run_bindE run_wrapE sysE_nofault)
  moreover have "requestStream demoEnv ''B'' demoCID = Inl (wrap ''opening stream'' (Err ''no route''))"
    by (simp add: requestStream_def demoEnv_def)
  then have "fetchFromPeerToTempFile demoEnv [''tmp''] ''B'' demoCID = throwE (Err ''opening stream: no route'')"
    by (simp add: fetchFromPeerToTempFile_def)
  moreover have "FindProviders demoEnv (EncodeToString demoCID) = Inr [''B'', ''C'']"
    by (simp add: FindProviders_def hexToCid_def) (simp add: demoEnv_def demoCID_def identityDecode_def maxProviders_def)
  moreover have "xe_decodePeer demoEnv p = Inr p" for p by (simp add: demoEnv_def)
  ultimately show ?thesis by (auto simp: remoteFetchToFile_def catchE_def)
qed

theorem fetched_file_is_requested_witness:
  "\<exists>s' m d. node s' [''tmp'', ''xleaks-fetch-1''] = Some (FFile m d) \<and> hashes demoEnv d demoCID \<and> (2 :: int) = int (length d)"
proof -
  obtain s' where "remoteFetchToFile demoEnv [''tmp''] (EncodeToString demoCID) demoCID demoFs =
     (Inr \<lparr>fc_Path = [''tmp'', ''xleaks-fetch-1''], fc_Size = 2\<rparr>, s')" using demo_fetch_file by blast
  from fetched_file_is_requested [OF this] show ?thesis by auto
qed

end
