(* ===== verification/GossipProps.thy ===== *)
theory GossipProps
  imports Gossip ExchangeProps SocialProps
begin

text \<open>
  Properties of the topics and their wiring: which topics a node reads after it has handled a message,
  that a topic it published to first is never read, and that what one node stores another can fetch.
\<close>

section \<open>What the operations do to the table of topics\<close>

lemma gossipE_topics [simp]: "h_topics (snd (gossipE h)) = h_topics h" "h_pubsub (snd (gossipE h)) = h_pubsub h"
  by (simp_all add: gossipE_def)

lemma gossipE_cases:
  "gossipE h = (Inr (), h\<lparr>h_calls := Suc (h_calls h)\<rparr>) \<or> (\<exists>e. gossipE h = (Inl e, h\<lparr>h_calls := Suc (h_calls h)\<rparr>))"
  by (simp add: gossipE_def split: option.splits)

lemma sendE_topics [simp]: "h_topics (snd (sendE t d h)) = h_topics h" "h_pubsub (snd (sendE t d h)) = h_pubsub h"
  using gossipE_cases [of h] by (auto simp: sendE_def seqE_def run_bindE)

text \<open>A failing subscription changes nothing; one that succeeds adds the topic, read.\<close>

lemma Subscribe_topics:
  "Host_Subscribe t h = (r, h') \<Longrightarrow>
     h_topics h' = h_topics h \<or> h_topics h t = None \<and> r = Inr () \<and> h_topics h' = (h_topics h)(t \<mapsto> \<lparr>th_reads = True\<rparr>)"
  by (auto simp: Host_Subscribe_def gossipE_def setTopic_def run_bindE run_wrapE seqE_def catchE_def logE_def
      split: if_splits option.splits goerr.splits prod.splits)

lemma subscriber_topics:
  assumes "newTopicSubscriber t h = (r, h')"
  shows "h_topics h' = h_topics h \<or> h_topics h t = None \<and> r = Inr () \<and> h_topics h' = (h_topics h)(t \<mapsto> \<lparr>th_reads = True\<rparr>)"
  using assms Subscribe_topics [of t h r h']
  by (auto simp: newTopicSubscriber_def EnsureSubscribed_def run_bindE split: if_splits)

lemma subscriber_works:
  assumes "h_pubsub h" "h_faults h = (\<lambda>_. None)" "t \<noteq> ''''"
  shows "newTopicSubscriber t h = (Inr (), case h_topics h t of
      None \<Rightarrow> h\<lparr>h_topics := (h_topics h)(t \<mapsto> \<lparr>th_reads = True\<rparr>), h_calls := Suc (Suc (h_calls h))\<rparr>
    | Some _ \<Rightarrow> h)"
proof (cases "h_topics h t")
  case None
  then show ?thesis
    using assms by (simp add: newTopicSubscriber_def EnsureSubscribed_def Host_Subscribe_def gossipE_def setTopic_def
        run_bindE run_wrapE seqE_def catchE_def)
qed (use assms(3) in \<open>simp add: newTopicSubscriber_def EnsureSubscribed_def run_bindE\<close>)

lemma Publish_topics:
  "h_topics (snd (Host_Publish (\<lambda>h. h) t d h)) = h_topics h \<or>
   h_topics h t = None \<and> h_topics (snd (Host_Publish (\<lambda>h. h) t d h)) = (h_topics h)(t \<mapsto> \<lparr>th_reads = False\<rparr>)"
  using gossipE_cases [of h]
  by (auto simp: Host_Publish_def run_bindE run_wrapE seqE_def setTopic_def split: if_splits option.splits)

section \<open>What a message makes the node read\<close>

text \<open>The topics that belong to a message: those of its author and, for a post, of its reactions.\<close>

definition observedTopics :: "ext \<Rightarrow> bool \<Rightarrow> bytes \<Rightarrow> string list" where
  "observedTopics x publishers data = (if data = [] then [] else case x_unmarshalEnvelope x data of
      Inr (Some (MPost p)) \<Rightarrow> FollowsTopic (EncodeToString (po_Author p)) #
        (if po_Id p = [] then [] else [ReactionsTopic (EncodeToString (po_Id p))])
    | Inr (Some (MProfile p)) \<Rightarrow> (if publishers then [PostsTopic (EncodeToString (pr_Author p))] else []) @
        [FollowsTopic (EncodeToString (pr_Author p))]
    | Inr (Some (MFollowEvent e)) \<Rightarrow> (if publishers then PostsTopic (EncodeToString (fe_Author e)) #
          (if fe_Target e = [] then [] else [PostsTopic (EncodeToString (fe_Target e))]) else []) @
        [FollowsTopic (EncodeToString (fe_Author e))]
    | _ \<Rightarrow> [])"

lemma topic_names [simp]: "PostsTopic k \<noteq> ''''" "ReactionsTopic k \<noteq> ''''" "FollowsTopic k \<noteq> ''''"
    "[] \<noteq> PostsTopic k" "[] \<noteq> ReactionsTopic k" "[] \<noteq> FollowsTopic k"
  by (simp_all add: PostsTopic_def ReactionsTopic_def FollowsTopic_def)

lemma seqE_retE [simp]: "seqE (retE u) m = m" "seqE m (retE ()) = m"
  by (simp_all add: seqE_def bindE_def retE_def fun_eq_iff split: prod.splits sum.splits)

lemma observed_forE:
  assumes "x_unmarshalEnvelope x data = Inr m"
  shows "ensureObservedTopicSubscriptions x data publishers = forE newTopicSubscriber (observedTopics x publishers data)"
proof -
  have "bindE (liftE (Inr m)) k = k m" for k :: "message option \<Rightarrow> (Host, unit) go" by (rule ext) (simp add: run_bindE)
  then show ?thesis
    using assms by (auto simp: ensureObservedTopicSubscriptions_def observedTopics_def whenE_def seqE_assoc
        split: option.splits message.splits)
qed

lemma subscribe_all:
  assumes "h_pubsub h" "h_faults h = (\<lambda>_. None)" "'''' \<notin> set ts"
  shows "\<exists>k. forE newTopicSubscriber ts h = (Inr (), h\<lparr>h_topics :=
     (\<lambda>t. if t \<in> set ts \<and> h_topics h t = None then Some \<lparr>th_reads = True\<rparr> else h_topics h t), h_calls := k\<rparr>)"
  using assms
proof (induction ts arbitrary: h)
  case Nil
  then show ?case by (intro exI [of _ "h_calls h"]) simp
next
  case (Cons t ts)
  define h1 where "h1 = snd (newTopicSubscriber t h)"
  have t: "newTopicSubscriber t h = (Inr (), h1)"
    and top: "h_topics h1 = (\<lambda>u. if u = t \<and> h_topics h t = None then Some \<lparr>th_reads = True\<rparr> else h_topics h u)"
    and same: "\<And>f k. h1\<lparr>h_topics := f, h_calls := k\<rparr> = h\<lparr>h_topics := f, h_calls := k\<rparr>"
    using subscriber_works [of h t] Cons.prems by (auto simp: h1_def split: option.splits)
  have "h_pubsub h1" "h_faults h1 = (\<lambda>_. None)"
    using subscriber_works [of h t] Cons.prems by (auto simp: h1_def split: option.splits)
  from Cons.IH [OF this] Cons.prems(3) obtain k where
    "forE newTopicSubscriber ts h1 = (Inr (), h1\<lparr>h_topics :=
     (\<lambda>u. if u \<in> set ts \<and> h_topics h1 u = None then Some \<lparr>th_reads = True\<rparr> else h_topics h1 u), h_calls := k\<rparr>)"
    by auto
  moreover have "(\<lambda>u. if u \<in> set ts \<and> h_topics h1 u = None then Some \<lparr>th_reads = True\<rparr> else h_topics h1 u) =
      (\<lambda>u. if u \<in> set (t # ts) \<and> h_topics h u = None then Some \<lparr>th_reads = True\<rparr> else h_topics h u)"
    by (rule ext) (auto simp: top)
  ultimately have "forE newTopicSubscriber (t # ts) h = (Inr (), h\<lparr>h_topics :=
      (\<lambda>u. if u \<in> set (t # ts) \<and> h_topics h u = None then Some \<lparr>th_reads = True\<rparr> else h_topics h u), h_calls := k\<rparr>)"
    by (simp add: seqE_def run_bindE t same)
  then show ?case ..
qed

lemma observedTopics_names: "'''' \<notin> set (observedTopics x publishers data)"
  by (auto simp: observedTopics_def split: sum.splits option.splits message.splits)

lemma HandleMessage_decodes: "HandleMessage x ft data n = (Inr u, n') \<Longrightarrow> \<exists>m. x_unmarshalEnvelope x data = Inr m"
  by (cases "x_unmarshalEnvelope x data") (auto simp: HandleMessage_def run_bindE run_wrapE)

text \<open>
  When a message has been processed and GossipSub does not fail, the node reads the topics that
  belong to it, those of its author and of the reactions to a post: exactly those are added, and
  only where the topic was not in the table yet, in which case its handle stays as it was.
\<close>

theorem observed_topics_exact:
  assumes "HandleMessage x ft data (wi_node w) = (Inr (), n')"
    and "h_pubsub (wi_host w)" "h_faults (wi_host w) = (\<lambda>_. None)"
  shows "\<exists>h'. messageHandler x ft publishers data w = (Inr (), w\<lparr>wi_node := n', wi_host := h'\<rparr>) \<and>
    h_topics h' = (\<lambda>t. if t \<in> set (observedTopics x publishers data) \<and> h_topics (wi_host w) t = None
       then Some \<lparr>th_reads = True\<rparr> else h_topics (wi_host w) t)"
proof -
  obtain m where m: "x_unmarshalEnvelope x data = Inr m" using HandleMessage_decodes [OF assms(1)] by blast
  obtain h' where h': "forE newTopicSubscriber (observedTopics x publishers data) (wi_host w) = (Inr (), h')"
    "h_topics h' = (\<lambda>t. if t \<in> set (observedTopics x publishers data) \<and> h_topics (wi_host w) t = None
       then Some \<lparr>th_reads = True\<rparr> else h_topics (wi_host w) t)"
    using subscribe_all [OF assms(2,3) observedTopics_names [of x publishers data]] by auto
  have "messageHandler x ft publishers data w = (Inr (), w\<lparr>wi_node := n', wi_host := h'\<rparr>)"
    by (simp add: messageHandler_def okE_def catchE_def nodeE_def hostE_def onE_def run_bindE assms(1) logE_def
        observed_forE [OF m] h'(1))
  with h'(2) show ?thesis by blast
qed

section \<open>A topic that was published to first\<close>

datatype hostOp = Ensure string | Pub string bytes | Unsub string | CloseAll

fun runHost :: "hostOp \<Rightarrow> Host \<Rightarrow> Host" where
  "runHost (Ensure t) h = snd (newTopicSubscriber t h)"
| "runHost (Pub t d) h = snd (Host_Publish (\<lambda>h. h) t d h)"
| "runHost (Unsub t) h = snd (Host_Unsubscribe t h)"
| "runHost CloseAll h = closeTopics h"

lemma Unsubscribe_topics: "u \<noteq> t \<Longrightarrow> h_topics (snd (Host_Unsubscribe t h)) u = h_topics h u"
  by (auto simp: Host_Unsubscribe_def gossipE_def run_bindE seqE_def catchE_def split: option.splits goerr.splits)

lemma handle_stays:
  assumes "h_topics h t = Some th" "\<forall>op\<in>set ops. op \<noteq> Unsub t \<and> op \<noteq> CloseAll"
  shows "h_topics (fold runHost ops h) t = Some th"
  using assms
proof (induction ops arbitrary: h)
  case (Cons op ops)
  have "h_topics (runHost op h) t = Some th"
  proof (cases op)
    case (Ensure u)
    then show ?thesis using subscriber_topics [of u h] Cons.prems(1) by (cases "newTopicSubscriber u h") auto
  next
    case (Pub u d)
    then show ?thesis using Publish_topics [of u d h] Cons.prems(1) by auto
  next
    case (Unsub u)
    then show ?thesis using Unsubscribe_topics [of t u h] Cons.prems by auto
  qed (use Cons.prems in simp)
  with Cons show ?case by simp
qed simp

lemma Publish_joins:
  assumes "h_pubsub h" "h_topics h t = None" "h_faults h = (\<lambda>_. None)"
  shows "h_topics (snd (Host_Publish (\<lambda>h. h) t d h)) = (h_topics h)(t \<mapsto> \<lparr>th_reads = False\<rparr>)"
  using assms by (simp add: Host_Publish_def gossipE_def sendE_def setTopic_def run_bindE run_wrapE seqE_def)

definition silent :: "(string \<times> bytes) list \<Rightarrow> Node \<Rightarrow> bool" where
  "silent P n \<longleftrightarrow> nd_publisher n \<and> nd_published n = P"

lemma keeps_silent [keeps_intro]:
  "keeps (silent P) (dbE m)" "keeps (silent P) (casE g)"
  by (auto simp: keeps_def dbE_run casE_run silent_def split: prod.splits)

lemma reaction_published:
  "triple (silent P) (createReactionWith x sv kp cid) (\<lambda>r n. re_Target r = cid \<and>
     (\<forall>d. x_marshalEnvelope x (MReaction r) = Inr d \<longrightarrow> nd_published n = P @ [(ReactionsTopic (EncodeToString cid), d)])) (\<lambda>_. True)"
proof -
  have keep: "triple (silent P) m (\<lambda>_. silent P) (\<lambda>_. True)" if "keeps (silent P) m" for m :: "(Node, 'b) go"
    by (rule triple_conseq [OF triple_keeps [OF that]]) simp_all
  have publish: "triple (silent P) (seqE (logE (publishReaction x (Some r))) (retE r)) (\<lambda>r n. re_Target r = cid \<and>
     (\<forall>d. x_marshalEnvelope x (MReaction r) = Inr d \<longrightarrow> nd_published n = P @ [(ReactionsTopic (EncodeToString cid), d)])) (\<lambda>_. True)"
    if "re_Target r = cid" for r
    using that by (auto simp: triple_def seqE_def logE_def publishReaction_def publishEnvelope_def publishE_def silent_def
        run_bindE run_wrapE Let_def split: prod.splits sum.splits goerr.splits option.splits)
  show ?thesis
    unfolding createReactionWith_def Let_def persistE_def
    by (rule triple_bindE [OF keep], intro keeps_intro)
      (rule triple_bindE [OF keep] triple_seqE [OF keep] publish, (intro keeps_intro | simp))+
qed

text \<open>
  C22. A like made through the HTTP interface on a post whose topic of reactions is not in the table of the host
  is published before the node subscribes, and when the calls of the gossip library succeed, that leaves the
  topic in the table without a read loop: the subscription that follows, and every later one, finds the topic
  and does nothing. Until the topic is unsubscribed or the host closed, no reaction of a peer to that post
  reaches the node by gossip. (The topics of posts that came by gossip since the start of the node, and of those
  opened by themselves in the web pages or the HTTP interface, are in the table with a read loop; the case is a
  post stored before the start that is liked in a list.)
\<close>

theorem liked_posts_not_followed:
  assumes "api_CreateReaction x sv cid w = (Inr reaction, w')"
    and "nd_publisher (wi_node w)" "x_marshalEnvelope x (MReaction reaction) = Inr d"
    and "h_pubsub (wi_host w)" "h_faults (wi_host w) = (\<lambda>_. None)"
    and "h_topics (wi_host w) (ReactionsTopic (EncodeToString cid)) = None"
    and "\<forall>op\<in>set ops. op \<noteq> Unsub (ReactionsTopic (EncodeToString cid)) \<and> op \<noteq> CloseAll"
  shows "h_topics (fold runHost ops (wi_host w')) (ReactionsTopic (EncodeToString cid)) = Some \<lparr>th_reads = False\<rparr>"
proof -
  let ?t = "ReactionsTopic (EncodeToString cid)"
  from bindE_InrD [OF assms(1) [unfolded api_CreateReaction_def]] obtain r w1 where
    w1: "publishingE (CreateReaction x sv cid) w = (Inr r, w1)"
    and rest: "seqE (logE (hostE (newTopicSubscriber ?t))) (retE r) w1 = (Inr reaction, w')" by blast
  from seqE_InrD [OF rest] have r: "r = reaction" and lg: "logE (hostE (newTopicSubscriber ?t)) w1 = (Inr (), w')"
    by auto
  have w': "wi_host w' = snd (newTopicSubscriber ?t (wi_host w1))"
    using arg_cong [OF lg, of snd] by (auto simp: logE_def hostE_def onE_def split: prod.splits sum.splits goerr.splits)
  obtain n where cr: "CreateReaction x sv cid (wi_node w) = (Inr reaction, n)"
    and h1: "wi_host w1 = publishAll (drop (length (nd_published (wi_node w))) (nd_published n)) (wi_host w)"
    using w1 r by (auto simp: publishingE_def split: prod.splits)
  obtain kp where n: "createReactionWith x sv kp cid (wi_node w) = (Inr reaction, n)"
    using cr by (cases "activeIdentity (sv_identity sv)") (simp_all add: CreateReaction_def run_bindE)
  have "nd_published n = nd_published (wi_node w) @ [(?t, d)]"
    using tripleD_Inr [OF reaction_published [of "nd_published (wi_node w)" x sv kp cid] _ n] assms(2,3)
    by (simp add: silent_def)
  then have "h_topics (publishAll (drop (length (nd_published (wi_node w))) (nd_published n)) (wi_host w)) ?t = Some \<lparr>th_reads = False\<rparr>"
    using Publish_joins [OF assms(4,6,5)] by (simp add: publishAll_def)
  then have "h_topics (wi_host w') ?t = Some \<lparr>th_reads = False\<rparr>"
    using handle_stays [of "wi_host w1" ?t _ "[Ensure ?t]"] w' h1 by simp
  then show ?thesis by (rule handle_stays) (rule assms(7))
qed

definition likeExt :: ext where
  "likeExt = \<lparr>x_sum = (\<lambda>d. Inr [18, 32, 7]), x_marshal = (\<lambda>m. Inr [1]), x_marshalEnvelope = (\<lambda>m. Inr [1]),
     x_unmarshalEnvelope = (\<lambda>d. Inr None), x_verify = (\<lambda>a p s. True), x_sign = (\<lambda>k m. replicate 64 3)\<rparr>"

definition likeService :: Service where
  "likeService = \<lparr>sv_identity = Some \<lparr>kp_PrivateKey = replicate 64 1, kp_PublicKey = replicate 32 1\<rparr>,
     sv_notifications = False, sv_cas = False\<rparr>"

definition likeWired :: Wired where
  "likeWired = \<lparr>wi_node = exampleNode\<lparr>nd_publisher := True\<rparr>,
     wi_host = \<lparr>h_pubsub = True, h_topics = Map.empty, h_faults = (\<lambda>_. None), h_calls = 0, h_sent = []\<rparr>,
     wi_currentDMTopic = ''''\<rparr>"

lemma like_runs: "case fst (CreateReaction likeExt likeService [9] (exampleNode\<lparr>nd_publisher := True\<rparr>)) of Inr r \<Rightarrow> True | Inl _ \<Rightarrow> False"
  by code_simp

theorem liked_posts_not_followed_witness:
  "\<exists>w' :: Wired. h_topics (fold runHost [Ensure (ReactionsTopic (EncodeToString [9]))] (wi_host w')) (ReactionsTopic (EncodeToString [9])) =
     Some \<lparr>th_reads = False\<rparr>"
proof -
  have node: "wi_node likeWired = exampleNode\<lparr>nd_publisher := True\<rparr>" by (simp add: likeWired_def)
  obtain r where r: "fst (CreateReaction likeExt likeService [9] (wi_node likeWired)) = Inr r"
    using like_runs node by (auto split: sum.splits)
  have host: "h_pubsub (wi_host likeWired)" "h_faults (wi_host likeWired) = (\<lambda>_. None)"
    "h_topics (wi_host likeWired) t = None" for t
    by (simp_all add: likeWired_def)
  obtain n where "CreateReaction likeExt likeService [9] (wi_node likeWired) = (Inr r, n)" using r by (metis prod.collapse)
  then obtain w1 where w1: "publishingE (CreateReaction likeExt likeService [9]) likeWired = (Inr r, w1)"
    by (simp add: publishingE_def)
  have quiet: "newTopicSubscriber t h = (Inr (), h)" if "h_topics h t \<noteq> None" for t h
    using that by (simp add: newTopicSubscriber_def EnsureSubscribed_def run_bindE)
  have ok: "\<exists>w'. seqE (logE m) (retE r) w1 = (Inr r, w')" if "\<And>p s. m w1 \<noteq> (Inl (Panic p), s)" for m :: "(Wired, unit) go"
    using that by (cases "m w1") (auto simp: seqE_def logE_def run_bindE split: sum.splits goerr.splits)
  have "newTopicSubscriber t h \<noteq> (Inl (Panic p), s)" if "h_faults h = (\<lambda>_. None)" for t h p s
    using that by (auto simp: newTopicSubscriber_def EnsureSubscribed_def Host_Subscribe_def gossipE_def setTopic_def
        notInitialized_def run_bindE run_wrapE seqE_def catchE_def split: option.splits)
  moreover have "h_faults (wi_host w1) = (\<lambda>_. None)"
  proof -
    have "h_faults (snd (Host_Publish (\<lambda>h. h) t d h)) = h_faults h" for t d h
      by (auto simp: Host_Publish_def gossipE_def sendE_def setTopic_def logE_def run_bindE run_wrapE seqE_def
          split: option.splits goerr.splits)
    then have "h_faults (publishAll ms h) = h_faults h" for ms h
      unfolding publishAll_def by (induction ms arbitrary: h) auto
    with w1 host(2) show ?thesis by (auto simp: publishingE_def split: prod.splits)
  qed
  ultimately have "hostE (newTopicSubscriber t) w1 \<noteq> (Inl (Panic p), s)" for t p s
    by (auto simp: hostE_def onE_def split: prod.splits)
  then obtain w' where
    "seqE (logE (hostE (newTopicSubscriber (ReactionsTopic (EncodeToString [9]))))) (retE r) w1 = (Inr r, w')"
    using ok [of "hostE (newTopicSubscriber (ReactionsTopic (EncodeToString [9])))"] by blast
  then have "api_CreateReaction likeExt likeService [9] likeWired = (Inr r, w')"
    unfolding api_CreateReaction_def bindE_def w1 by simp
  then have "h_topics (fold runHost [Ensure (ReactionsTopic (EncodeToString [9]))] (wi_host w')) (ReactionsTopic (EncodeToString [9])) =
     Some \<lparr>th_reads = False\<rparr>"
    by (rule liked_posts_not_followed [where d = "[1]"]) (simp_all add: host node likeExt_def)
  then show ?thesis by (rule exI [of _ w'])
qed

section \<open>What one node stores another can fetch\<close>

lemma server_serves:
  assumes "contents base s cid = Some data" "fs_faults s = (\<lambda>_. None)" "mhDecode cid"
  shows "serves (nodeContentServer mhDecode dirSize base s) cid data"
proof -
  obtain m where m: "cid \<noteq> []" "node s (objPath base cid) = Some (FFile m data)"
    using assms(1) by (auto simp: contents_def split: if_splits option.splits fnode.splits)
  show ?thesis
    using m assms(2,3)
    by (simp add: serves_def nodeContentServer_def HexToCID_def OpenContent_def objectPath_eq osOpen_def osStat_def
        sysE_nofault run_bindE run_wrapE)
qed


section \<open>Instances\<close>

definition readingHost :: Host where
  "readingHost = \<lparr>h_pubsub = True, h_topics = Map.empty, h_faults = (\<lambda>_. None), h_calls = 0, h_sent = []\<rparr>"

lemma example_post_processed: "\<exists>n'. HandleMessage postExt exampleFetchers [1] postNode = (Inr (), n')"
proof -
  have e: "po_Id (signedExample 3) \<noteq> []" "po_Author (signedExample 3) = replicate 32 1"
    by (simp_all add: signedExample_def examplePost_def)
  have m: "x_unmarshalEnvelope postExt [1] = Inr (Some (MPost (signedExample 3)))"
    "x_marshal postExt (MPost (signedExample 3)) = Inr (examplePostBytes (signedExample 3))"
    by (simp_all add: postExt_def exampleExt2_def exampleMarshal_def)
  have v: "ValidatePost postExt (nd_globals postNode) (nowNanos postNode) (Some (signedExample 3))
      (Some (verifySignature postExt)) = None"
    unfolding postNode_simps by (rule signedExample_valid')
  have k: "\<not> hasKey p_CID (po_Id (signedExample 3)) (posts (nd_db postNode))"
    "hasKey pf_Pubkey (po_Author (signedExample 3)) (profiles (nd_db postNode))"
    by (simp_all add: postNode_simps e(2) exampleProfileRow_def)
  have l: "live (nd_base postNode) (po_Id (signedExample 3)) (nd_fs postNode)"
    unfolding postNode_simps by (rule exampleFs_live)
  from post_gets_through [OF m(1) v k(1) e(1) k(2) m(2) postNode_simps(4) l, of exampleFetchers]
  show ?thesis by blast
qed

theorem observed_topics_exact_witness:
  "\<exists>n' h'. messageHandler postExt exampleFetchers False [1] \<lparr>wi_node = postNode, wi_host = readingHost, wi_currentDMTopic = ''''\<rparr> =
      (Inr (), \<lparr>wi_node = n', wi_host = h', wi_currentDMTopic = ''''\<rparr>) \<and>
    h_topics h' (ReactionsTopic (EncodeToString (po_Id (signedExample 3)))) = Some \<lparr>th_reads = True\<rparr>"
proof -
  let ?w = "\<lparr>wi_node = postNode, wi_host = readingHost, wi_currentDMTopic = ''''\<rparr>"
  obtain n' where n': "HandleMessage postExt exampleFetchers [1] (wi_node ?w) = (Inr (), n')"
    using example_post_processed by auto
  have host: "h_pubsub (wi_host ?w)" "h_faults (wi_host ?w) = (\<lambda>_. None)" by (simp_all add: readingHost_def)
  have "ReactionsTopic (EncodeToString (po_Id (signedExample 3))) \<in> set (observedTopics postExt False [1])"
    by (simp add: observedTopics_def postExt_def signedExample_def examplePost_def)
  with observed_topics_exact [OF n' host, of False] show ?thesis by (auto simp: readingHost_def)
qed

definition holderFs :: fs where
  "holderFs = \<lparr>fs_nodes = [(objPath [''cas''] demoCID, FFile 420 demoData)], fs_faults = (\<lambda>_. None),
     fs_suffix = (\<lambda>_. ''1''), fs_step = 0\<rparr>"

definition holderEnv :: exchange_env where
  "holderEnv = demoEnv\<lparr>xe_dial := (\<lambda>p. Inr \<lparr>rm_deadline = None, rm_room = None, rm_broken = EOF, rm_closeWrite = None,
     rm_answer = (\<lambda>req. st_out (snd (handleContentStream None (Some (nodeContentServer (\<lambda>_. True) 4096 [''cas''] holderFs))
       \<lparr>st_in = req, st_end = EOF, st_out = [], st_room = None, st_broken = EOF\<rparr>))), rm_end = EOF\<rparr>)\<rparr>"


end
