(* ===== verification/Discovery.thy ===== *)
theory Discovery
  imports Indexer
begin

text \<open>
  What an indexer node computes from its database (\<open>pkg/indexer/trending.go\<close>, \<open>stats.go\<close>, \<open>api.go\<close>) and the
  search, trending and explore endpoints of every node (\<open>pkg/api/handlers/search.go\<close>).
\<close>

section \<open>The trending engine and the statistics\<close>

text \<open>Times are milliseconds; \<open>now\<close> is \<open>time.Now()\<close>.\<close>

definition hourMillis :: int where "hourMillis = 3600000"

definition parseWindow :: "int \<Rightarrow> string \<Rightarrow> goerr + int" where
  "parseWindow now window =
     (if window = ''1h'' then Inr (now - hourMillis)
      else if window = ''6h'' then Inr (now - 6 * hourMillis)
      else if window = ''24h'' then Inr (now - 24 * hourMillis)
      else if window = ''7d'' then Inr (now - 7 * 24 * hourMillis)
      else Inl (Err ''unsupported window''))"

definition countsOf :: "DB \<Rightarrow> bytes \<Rightarrow> int \<times> int \<times> int" where
  "countsOf db cid = (case rowOf rc_PostCID cid (reaction_counts db) of
      None \<Rightarrow> (0, 0, 0)
    | Some rc \<Rightarrow> (rc_Likes rc, rc_Reposts rc, rc_Replies rc))"

definition trendingScore :: "DB \<Rightarrow> bytes \<Rightarrow> int" where
  "trendingScore db cid = (case countsOf db cid of (likes, reposts, replies) \<Rightarrow> likes + reposts * 2 + replies * 3)"

text \<open>A \<open>TrendingPost\<close> has the fields of a \<open>ClientTrendingPost\<close>.\<close>

definition trendingPost :: "DB \<Rightarrow> PostRow \<Rightarrow> ClientTrendingPost" where
  "trendingPost db p = (case countsOf db (p_CID p) of (likes, reposts, replies) \<Rightarrow>
     \<lparr>tp_CID = EncodeToString (p_CID p), tp_Author = EncodeToString (p_Author p), tp_Content = p_Content p,
      tp_LikeCount = likes, tp_RepostCount = reposts, tp_ReplyCount = replies,
      tp_Score = float64_of (trendingScore db (p_CID p)), tp_Timestamp = p_Timestamp p\<rparr>)"

definition Engine_GetTrendingPosts :: "string \<Rightarrow> int \<Rightarrow> (DB, ClientTrendingPost list) go" where
  "Engine_GetTrendingPosts window limit =
     bindE (getE now_ms) (\<lambda>now.
     bindE (liftE (parseWindow now window)) (\<lambda>since.
     let lim = (if limit \<le> 0 then 20 else limit) in
     wrapE ''get trending posts'' (queryE (\<lambda>db. map (trendingPost db)
       (limitTo lim (descending (\<lambda>p. trendingScore db (p_CID p)) (descending p_Timestamp
         (filter (\<lambda>p. since \<le> p_Timestamp p \<and> p_ReplyTo p = None \<and> p_RepostOf p = None) (posts db)))))))))"

definition Engine_GetTrendingTags :: "string \<Rightarrow> int \<Rightarrow> (DB, (string \<times> int) list) go" where
  "Engine_GetTrendingTags window limit =
     bindE (getE now_ms) (\<lambda>now.
     bindE (liftE (parseWindow now window)) (\<lambda>since.
     let lim = (if limit \<le> 0 then 20 else limit) in
     wrapE ''get trending tags'' (queryE (\<lambda>db.
       let tags = map snd (filter (\<lambda>(c, _). \<exists>p\<in>set (posts db). p_CID p = c \<and> since \<le> p_Timestamp p) (post_tags db))
       in limitTo lim (descending snd (map (\<lambda>t. (t, countRows (\<lambda>t'. t' = t) tags)) (remdups tags)))))))"

subsection \<open>A trending post on the wire\<close>

text \<open>
  \<open>encoding/json\<close>: an object is a list of keys with values. \<open>TrendingPost\<close> has no tags, so that its keys are
  the names of its fields; \<open>ClientTrendingPost\<close> has tags. A key goes to the field of this name, or else to the
  first one of this name up to case; keys of no field are ignored, a value of another type leaves the zero.
\<close>

datatype jval = JString string | JInt int | JFloat float64

definition encodeTrendingPost :: "ClientTrendingPost \<Rightarrow> (string \<times> jval) list" where
  "encodeTrendingPost p =
     [(''CIDHex'', JString (tp_CID p)), (''Author'', JString (tp_Author p)), (''Content'', JString (tp_Content p)),
      (''LikeCount'', JInt (tp_LikeCount p)), (''RepostCount'', JInt (tp_RepostCount p)),
      (''ReplyCount'', JInt (tp_ReplyCount p)), (''Score'', JFloat (tp_Score p)), (''Timestamp'', JInt (tp_Timestamp p))]"

definition jsonFieldOf :: "string list \<Rightarrow> string \<Rightarrow> string option" where
  "jsonFieldOf names key =
     (if key \<in> set names then Some key else find (\<lambda>n. ToLowerASCII n = ToLowerASCII key) names)"

fun jsonAssign :: "string list \<Rightarrow> (string \<times> jval) list \<Rightarrow> string \<Rightarrow> jval option \<Rightarrow> jval option" where
  "jsonAssign names [] name v = v"
| "jsonAssign names ((key, x) # obj) name v =
     jsonAssign names obj name (if jsonFieldOf names key = Some name then Some x else v)"

definition clientTrendingNames :: "string list" where
  "clientTrendingNames = [''cid_hex'', ''author'', ''content'', ''like_count'', ''repost_count'', ''reply_count'', ''score'', ''timestamp'']"

definition decodeTrendingPost :: "(string \<times> jval) list \<Rightarrow> ClientTrendingPost" where
  "decodeTrendingPost obj =
     (let str = (\<lambda>n. case jsonAssign clientTrendingNames obj n None of Some (JString s) \<Rightarrow> s | _ \<Rightarrow> '''');
          num = (\<lambda>n. case jsonAssign clientTrendingNames obj n None of Some (JInt i) \<Rightarrow> i | _ \<Rightarrow> 0);
          flt = (\<lambda>n. case jsonAssign clientTrendingNames obj n None of Some (JFloat x) \<Rightarrow> x | _ \<Rightarrow> float64_of 0)
      in \<lparr>tp_CID = str ''cid_hex'', tp_Author = str ''author'', tp_Content = str ''content'',
          tp_LikeCount = num ''like_count'', tp_RepostCount = num ''repost_count'', tp_ReplyCount = num ''reply_count'',
          tp_Score = flt ''score'', tp_Timestamp = num ''timestamp''\<rparr>)"

record NetworkStats =
  ns_TotalPosts :: int
  ns_TotalUsers :: int
  ns_TotalReactions :: int
  ns_ActiveUsers24h :: int

definition GetStats :: "(DB, NetworkStats) go" where
  "GetStats =
     bindE (wrapE ''count posts'' (queryE (\<lambda>db. int (length (posts db))))) (\<lambda>ps.
     bindE (wrapE ''count users'' (queryE (\<lambda>db. int (length (profiles db))))) (\<lambda>us.
     bindE (wrapE ''count reactions'' (queryE (\<lambda>db. int (length (reactions db))))) (\<lambda>rs.
     bindE (getE now_ms) (\<lambda>now.
     bindE (wrapE ''count active users'' (queryE (\<lambda>db. int (length (remdups (map p_Author
         (filter (\<lambda>p. now - 24 * hourMillis \<le> p_Timestamp p) (posts db)))))))) (\<lambda>act.
     retE \<lparr>ns_TotalPosts = ps, ns_TotalUsers = us, ns_TotalReactions = rs, ns_ActiveUsers24h = act\<rparr>)))))"

section \<open>Numbers in requests\<close>

text \<open>\<open>strconv.Atoi\<close>: an optional sign and digits, within 64 bits.\<close>

fun digitsValue :: "int \<Rightarrow> string \<Rightarrow> int option" where
  "digitsValue acc [] = Some acc"
| "digitsValue acc (c # cs) = (let n = (of_char c :: nat) in
     if 48 \<le> n \<and> n \<le> 57 then digitsValue (10 * acc + int n - 48) cs else None)"

definition Atoi :: "string \<Rightarrow> int option" where
  "Atoi s =
     (let (neg, ds) = (case s of
          CHR ''-'' # ds \<Rightarrow> (True, ds) | CHR ''+'' # ds \<Rightarrow> (False, ds) | _ \<Rightarrow> (False, s)) in
      if ds = '''' then None
      else case digitsValue 0 ds of
          None \<Rightarrow> None
        | Some v \<Rightarrow> let n = (if neg then - v else v) in
            if - (2 ^ 63) \<le> n \<and> n < 2 ^ 63 then Some n else None)"

definition defaultIndexerLimit :: int where "defaultIndexerLimit = 20"
definition maxIndexerLimit :: int where "maxIndexerLimit = 100"
definition maxIndexerPage :: int where "maxIndexerPage = 1000"

definition parseLimitParam :: "string \<Rightarrow> int" where
  "parseLimitParam s =
     (if s = '''' then defaultIndexerLimit
      else case Atoi s of
          None \<Rightarrow> defaultIndexerLimit
        | Some n \<Rightarrow> if n \<le> 0 then defaultIndexerLimit else if maxIndexerLimit < n then maxIndexerLimit else n)"

definition parsePageSizeParam :: "string \<Rightarrow> int" where
  "parsePageSizeParam s =
     (if s = '''' then defaultIndexerLimit
      else case Atoi s of
          None \<Rightarrow> defaultIndexerLimit
        | Some n \<Rightarrow> if n \<le> 0 then defaultIndexerLimit else if maxIndexerLimit < n then maxIndexerLimit else n)"

definition parsePageParam :: "string \<Rightarrow> int" where
  "parsePageParam s =
     (if s = '''' then 0
      else case Atoi s of None \<Rightarrow> 0 | Some n \<Rightarrow> if n < 0 then 0 else if maxIndexerPage < n then maxIndexerPage else n)"

definition parseNonNegativeQueryInt :: "string \<Rightarrow> int \<Rightarrow> goerr + int" where
  "parseNonNegativeQueryInt raw defaultValue =
     (let val = TrimSpace raw in
      if val = '''' then Inr defaultValue
      else case Atoi val of
          None \<Rightarrow> Inl (Err ''invalid parameter'')
        | Some parsed \<Rightarrow> if parsed < 0 then Inl (Err ''parameter must be 0 or greater'') else Inr parsed)"

definition parseBoundedPositiveQueryInt :: "string \<Rightarrow> int \<Rightarrow> int \<Rightarrow> goerr + int" where
  "parseBoundedPositiveQueryInt raw defaultValue mx =
     (let val = TrimSpace raw in
      if val = '''' then Inr defaultValue
      else case Atoi val of
          None \<Rightarrow> Inl (Err ''invalid parameter'')
        | Some parsed \<Rightarrow> if parsed < 1 \<or> mx < parsed then Inl (Err ''parameter out of range'') else Inr parsed)"

definition parseTrendingWindow :: "string \<Rightarrow> goerr + string" where
  "parseTrendingWindow raw =
     (let window = TrimSpace raw in
      if window = '''' then Inr ''24h''
      else if window \<in> {''1h'', ''6h'', ''24h'', ''7d''} then Inr window
      else Inl (Err ''window must be one of 1h, 6h, 24h, 7d''))"

section \<open>The API of an indexer (\<open>api.go\<close>)\<close>

text \<open>A handler answers with a status and a body; the full-text index is the argument \<open>bleve\<close>.\<close>

datatype indexerBody =
    BodyError goerr
  | BodyHits "ClientSearchHit list" int int
  | BodyTags "(string \<times> int) list" string
  | BodyPosts "ClientTrendingPost list" string
  | BodyPublishers "ClientPublisher list"
  | BodyStats NetworkStats

definition answerE :: "nat \<Rightarrow> ('a \<Rightarrow> indexerBody) \<Rightarrow> (DB, 'a) go \<Rightarrow> (DB, nat \<times> indexerBody) go" where
  "answerE errorStatus body m = catchE (bindE m (\<lambda>x. retE (200, body x)))
     (\<lambda>e. retE (errorStatus, BodyError e))"

definition handleSearch ::
  "(string \<Rightarrow> string \<Rightarrow> int \<Rightarrow> int \<Rightarrow> goerr + ClientSearchHit list \<times> int) \<Rightarrow> string \<Rightarrow> string \<Rightarrow> string \<Rightarrow> string
     \<Rightarrow> (DB, nat \<times> indexerBody) go" where
  "handleSearch bleve query searchType pageParam sizeParam =
     (if query = '''' then retE (400, BodyError (Err ''missing query parameter q''))
      else let pageNo = parsePageParam pageParam; pageSize = parsePageSizeParam sizeParam;
               kind = (if searchType = ''users'' then ''users'' else ''posts'') in
        answerE 500 (\<lambda>(results, total). BodyHits results total pageNo) (liftE (bleve kind query pageNo pageSize)))"

definition handleTrending :: "string \<Rightarrow> string \<Rightarrow> string \<Rightarrow> (DB, nat \<times> indexerBody) go" where
  "handleTrending windowParam limitParam trendingType =
     (let window = (if windowParam = '''' then ''24h'' else windowParam); limit = parseLimitParam limitParam in
      if trendingType = ''tags'' then answerE 400 (\<lambda>tags. BodyTags tags window) (Engine_GetTrendingTags window limit)
      else answerE 400 (\<lambda>ps. BodyPosts ps window) (Engine_GetTrendingPosts window limit))"

definition handleExplorePublishers :: "string \<Rightarrow> (DB, nat \<times> indexerBody) go" where
  "handleExplorePublishers limitParam =
     answerE 500 BodyPublishers (queryE (\<lambda>db. map (\<lambda>fc. case rowOf pf_Pubkey (fc_Pubkey fc) (profiles db) of
           None \<Rightarrow> \<lparr>cp_Pubkey = EncodeToString (fc_Pubkey fc), cp_FollowerCount = fc_Followers fc,
             cp_FollowingCount = fc_Following fc, cp_DisplayName = '''', cp_Bio = ''''\<rparr>
         | Some p \<Rightarrow> \<lparr>cp_Pubkey = EncodeToString (fc_Pubkey fc), cp_FollowerCount = fc_Followers fc,
             cp_FollowingCount = fc_Following fc, cp_DisplayName = pf_DisplayName p, cp_Bio = pf_Bio p\<rparr>)
       (limitTo (parseLimitParam limitParam) (descending fc_Followers (follower_counts db)))))"

definition handleStats :: "(DB, nat \<times> indexerBody) go" where
  "handleStats = answerE 500 BodyStats GetStats"

section \<open>Search, trending and explore on a node (\<open>handlers/search.go\<close>)\<close>

text \<open>
  The database and the client of a node, if it has one; \<open>now\<close> and \<open>now'\<close> are the times at which the client
  looks into its cache and puts an answer there, \<open>toLower\<close> is \<open>strings.ToLower\<close>, whose Unicode tables are
  not represented.
\<close>

record Discovery =
  di_db :: DB
  di_client :: "IndexerClient option"

definition ddbE :: "(DB, 'a) go \<Rightarrow> (Discovery, 'a) go" where
  "ddbE m = onE di_db (\<lambda>db d. d\<lparr>di_db := db\<rparr>) m"

definition clientE :: "(IndexerClient, 'a) go \<Rightarrow> (Discovery, 'a) go" where
  "clientE m = (\<lambda>d. case di_client d of
      None \<Rightarrow> (Inl (Panic ''nil pointer dereference''), d)
    | Some c \<Rightarrow> (case m c of (r, c') \<Rightarrow> (r, d\<lparr>di_client := Some c'\<rparr>)))"

definition askIndexer :: "bool \<Rightarrow> (IndexerClient, 'a) go \<Rightarrow> (Discovery, 'a option) go" where
  "askIndexer wanted m =
     bindE (getE (\<lambda>d. case di_client d of None \<Rightarrow> False | Some c \<Rightarrow> Available c)) (\<lambda>available.
     if available \<and> wanted then okE (clientE m) else retE None)"

text \<open>The hits that an indexer sent, until the page is full: the results, what was seen, and whether it is.\<close>

fun indexerPosts ::
  "int \<Rightarrow> ClientSearchHit list \<Rightarrow> ClientSearchHit list \<Rightarrow> string set \<Rightarrow> ClientSearchHit list \<times> string set \<times> bool" where
  "indexerPosts pageSize [] results seen = (results, seen, False)"
| "indexerPosts pageSize (hit # hits) results seen =
     (if ch_ID hit = '''' then indexerPosts pageSize hits results seen
      else let results' = results @ [hit]; seen' = insert (ch_ID hit) seen in
        if pageSize \<le> int (length results') then (results', seen', True)
        else indexerPosts pageSize hits results' seen')"

fun localPosts :: "PostRow list \<Rightarrow> ClientSearchHit list \<Rightarrow> string set \<Rightarrow> ClientSearchHit list" where
  "localPosts [] results seen = results"
| "localPosts (p # ps) results seen =
     (let ident = EncodeToString (p_CID p) in
      if ident \<in> seen then localPosts ps results seen
      else localPosts ps (results @ [\<lparr>ch_ID = ident, ch_Type = ''post'', ch_Score = float64_of 0, ch_Content = p_Content p,
             ch_Author = EncodeToString (p_Author p), ch_Name = '''', ch_Bio = ''''\<rparr>]) (insert ident seen))"

definition searchPostsResults ::
  "index_env \<Rightarrow> int \<Rightarrow> int \<Rightarrow> string \<Rightarrow> int \<Rightarrow> int \<Rightarrow> (Discovery, ClientSearchHit list \<times> string) go" where
  "searchPostsResults env now now' query pageNo pageSize =
     (let indexerQuery = TrimSpace (TrimPrefix query ''#'') in
      bindE (askIndexer (indexerQuery \<noteq> '''') (Client_SearchPosts env now now' indexerQuery pageNo pageSize)) (\<lambda>resp.
      let (results, seen, full) = (case resp of
            None \<Rightarrow> ([], {}, False) | Some r \<Rightarrow> indexerPosts pageSize (sr_Results r) [] {});
          message = (case resp of None \<Rightarrow> ''Using local-only post search'' | Some _ \<Rightarrow> '''') in
      if full then retE (results, '''')
      else bindE (okE (ddbE (if HasPrefix query ''#'' then GetPostsByTag (TrimSpace (TrimPrefix query ''#'')) 0 pageSize
                             else SearchPostsByContent query pageSize))) (\<lambda>local.
           case local of
             None \<Rightarrow> retE (results, message)
           | Some ps \<Rightarrow> retE (localPosts ps results seen, message))))"

definition hitPubkey :: "ClientSearchHit \<Rightarrow> string" where
  "hitPubkey hit = (if ch_Author hit = '''' then ch_ID hit else ch_Author hit)"

fun indexerUsers ::
  "int \<Rightarrow> ClientSearchHit list \<Rightarrow> ClientSearchHit list \<Rightarrow> string set \<Rightarrow> ClientSearchHit list \<times> string set \<times> bool" where
  "indexerUsers pageSize [] results seen = (results, seen, False)"
| "indexerUsers pageSize (hit # hits) results seen =
     (let k = hitPubkey hit in
      if k = '''' \<or> k \<in> seen then indexerUsers pageSize hits results seen
      else let results' = results @ [hit\<lparr>ch_ID := k, ch_Type := ''user''\<rparr>]; seen' = insert k seen in
        if pageSize \<le> int (length results') then (results', seen', True)
        else indexerUsers pageSize hits results' seen')"

definition profileMatches :: "(string \<Rightarrow> string) \<Rightarrow> string \<Rightarrow> ProfileRow \<Rightarrow> bool" where
  "profileMatches toLower normalized p \<longleftrightarrow>
     containsString (toLower (pf_DisplayName p)) normalized \<or> containsString (toLower (pf_Bio p)) normalized \<or>
     containsString (toLower (pf_Website p)) normalized \<or>
     containsString (toLower (EncodeToString (pf_Pubkey p))) normalized"

fun localUsers ::
  "(string \<Rightarrow> string) \<Rightarrow> string \<Rightarrow> int \<Rightarrow> ProfileRow list \<Rightarrow> ClientSearchHit list \<Rightarrow> string set \<Rightarrow> ClientSearchHit list" where
  "localUsers toLower normalized pageSize [] results seen = results"
| "localUsers toLower normalized pageSize (p # ps) results seen =
     (let k = EncodeToString (pf_Pubkey p) in
      if k \<in> seen \<or> \<not> profileMatches toLower normalized p then localUsers toLower normalized pageSize ps results seen
      else let results' = results @ [\<lparr>ch_ID = k, ch_Type = ''user'', ch_Score = float64_of 1, ch_Content = '''',
                 ch_Author = '''', ch_Name = pf_DisplayName p, ch_Bio = pf_Bio p\<rparr>] in
        if pageSize \<le> int (length results') then results'
        else localUsers toLower normalized pageSize ps results' (insert k seen))"

definition searchUsersResults ::
  "index_env \<Rightarrow> (string \<Rightarrow> string) \<Rightarrow> int \<Rightarrow> int \<Rightarrow> string \<Rightarrow> int \<Rightarrow> int \<Rightarrow> (Discovery, ClientSearchHit list \<times> string) go" where
  "searchUsersResults env toLower now now' query pageNo pageSize =
     (let normalized = toLower (TrimSpace (TrimPrefix query ''@'')) in
      if normalized = '''' then retE ([], ''query parameter q is required'')
      else bindE (askIndexer True (Client_SearchUsers env now now' normalized pageNo pageSize)) (\<lambda>resp.
      let (results, seen, full) = (case resp of
            None \<Rightarrow> ([], {}, False) | Some r \<Rightarrow> indexerUsers pageSize (sr_Results r) [] {});
          message = (case resp of None \<Rightarrow> ''Using local-only user search'' | Some _ \<Rightarrow> '''') in
      if full then retE (results, '''')
      else bindE (okE (ddbE GetAllProfiles)) (\<lambda>local. case local of
             None \<Rightarrow> retE (results, message)
           | Some ps \<Rightarrow> retE (localUsers toLower normalized pageSize ps results seen, message))))"

record SearchAnswer =
  sa_type :: string
  sa_query :: string
  sa_results :: "ClientSearchHit list"
  sa_message :: string

text \<open>A bad request is the error of \<open>respondBadRequestError\<close>.\<close>

definition Search ::
  "index_env \<Rightarrow> (string \<Rightarrow> string) \<Rightarrow> int \<Rightarrow> int \<Rightarrow> string \<Rightarrow> string \<Rightarrow> string \<Rightarrow> string \<Rightarrow> (Discovery, SearchAnswer) go" where
  "Search env toLower now now' q typeParam pageParam sizeParam =
     (let query = TrimSpace q in
      if query = '''' then throwE (Err ''query parameter q is required'')
      else let searchType = (if TrimSpace typeParam = '''' then ''posts'' else TrimSpace typeParam) in
      bindE (liftE (parseNonNegativeQueryInt pageParam 0)) (\<lambda>pageNo.
      bindE (liftE (parseBoundedPositiveQueryInt sizeParam 20 100)) (\<lambda>pageSize.
      if searchType = ''posts'' then
        bindE (searchPostsResults env now now' query pageNo pageSize) (\<lambda>(results, message).
        retE \<lparr>sa_type = ''posts'', sa_query = query, sa_results = results, sa_message = message\<rparr>)
      else if searchType = ''users'' then
        bindE (searchUsersResults env toLower now now' query pageNo pageSize) (\<lambda>(results, message).
        retE \<lparr>sa_type = ''users'', sa_query = query, sa_results = results, sa_message = message\<rparr>)
      else throwE (Err ''type must be posts or users''))))"

subsection \<open>Trending and explore\<close>

text \<open>Errors of the queries are dropped; a query that failed has no rows and counts of zero.\<close>

definition orElse :: "'a \<Rightarrow> (Discovery, 'a) go \<Rightarrow> (Discovery, 'a) go" where
  "orElse d m = bindE (okE m) (\<lambda>r. retE (case r of None \<Rightarrow> d | Some x \<Rightarrow> x))"

fun mapE :: "('a \<Rightarrow> ('s, 'b) go) \<Rightarrow> 'a list \<Rightarrow> ('s, 'b list) go" where
  "mapE f [] = retE []"
| "mapE f (x # xs) = bindE (f x) (\<lambda>y. bindE (mapE f xs) (\<lambda>ys. retE (y # ys)))"

definition localTrending :: "string \<Rightarrow> int \<Rightarrow> (Discovery, ClientTrendingPost list \<times> ClientTrendingTag list) go" where
  "localTrending window limit =
     bindE (getE (\<lambda>d. now_ms (di_db d))) (\<lambda>now.
     let since = (if window = ''1h'' then now - hourMillis
                  else if window = ''6h'' then now - 6 * hourMillis
                  else if window = ''7d'' then now - 7 * 24 * hourMillis
                  else now - 24 * hourMillis) in
     bindE (orElse [] (ddbE (GetTrendingPosts since limit))) (\<lambda>postRows.
     bindE (mapE (\<lambda>p. bindE (orElse (0, 0, 0) (ddbE (GetFullReactionCounts (p_CID p)))) (\<lambda>(likes, replies, reposts).
        retE \<lparr>tp_CID = EncodeToString (p_CID p), tp_Author = EncodeToString (p_Author p), tp_Content = p_Content p,
              tp_LikeCount = likes, tp_RepostCount = reposts, tp_ReplyCount = replies,
              tp_Score = float64_of (likes + replies * 2 + reposts * 3), tp_Timestamp = p_Timestamp p\<rparr>)) postRows) (\<lambda>ps.
     bindE (orElse [] (ddbE (GetTrendingTagsSince since limit))) (\<lambda>tagRows.
     retE (ps, map (\<lambda>(t, n). \<lparr>tt_Tag = t, tt_Count = n\<rparr>) tagRows)))))"

text \<open>The answer: hashtags, posts, window and whether it is local.\<close>

definition GetTrending ::
  "index_env \<Rightarrow> int \<Rightarrow> int \<Rightarrow> string \<Rightarrow> string
     \<Rightarrow> (Discovery, ClientTrendingTag list \<times> ClientTrendingPost list \<times> string \<times> bool) go" where
  "GetTrending env now now' windowParam limitParam =
     bindE (liftE (parseTrendingWindow windowParam)) (\<lambda>window.
     bindE (liftE (parseBoundedPositiveQueryInt limitParam 20 100)) (\<lambda>limit.
     bindE (askIndexer True (Client_GetTrending env now now' window limit)) (\<lambda>resp. case resp of
       Some r \<Rightarrow> retE (tr_Tags r, tr_Posts r, tr_Window r, False)
     | None \<Rightarrow> bindE (localTrending window limit) (\<lambda>(ps, tags). retE (tags, ps, window, True)))))"

text \<open>\<open>sort.Slice\<close> is not stable: publishers with equal counts and names come in some order.\<close>

definition localExplorePublishers :: "int \<Rightarrow> (Discovery, ClientPublisher list) go" where
  "localExplorePublishers limit =
     bindE (okE (ddbE GetAllProfiles)) (\<lambda>r. case r of
       None \<Rightarrow> retE []
     | Some ps \<Rightarrow>
         bindE (mapE (\<lambda>p.
            bindE (orElse [] (ddbE (GetFollowers (pf_Pubkey p)))) (\<lambda>followers.
            bindE (orElse [] (ddbE (GetFollowing (pf_Pubkey p)))) (\<lambda>following.
            retE \<lparr>cp_Pubkey = EncodeToString (pf_Pubkey p), cp_FollowerCount = int (length followers),
                  cp_FollowingCount = int (length following), cp_DisplayName = pf_DisplayName p, cp_Bio = pf_Bio p\<rparr>))) ps) (\<lambda>publishers.
         let sorted = sort_key (\<lambda>c. (- cp_FollowerCount c, byteOrder (cp_DisplayName c))) publishers in
         retE (if limit < int (length sorted) then take (nat limit) sorted else sorted)))"

definition Explore :: "index_env \<Rightarrow> int \<Rightarrow> int \<Rightarrow> string \<Rightarrow> (Discovery, ClientPublisher list \<times> bool) go" where
  "Explore env now now' limitParam =
     bindE (liftE (parseBoundedPositiveQueryInt limitParam 20 100)) (\<lambda>limit.
     bindE (askIndexer True (Client_GetExplorePublishers env now now' limit)) (\<lambda>resp. case resp of
       Some publishers \<Rightarrow> retE (publishers, False)
     | None \<Rightarrow> bindE (localExplorePublishers limit) (\<lambda>publishers. retE (publishers, True))))"

end
