(* ===== verification/DiscoveryProps.thy ===== *)
theory DiscoveryProps
  imports Discovery
begin

text \<open>
  Properties of search and discovery: the cache of the indexer client answers a query only with a fresh
  response to that very query and stays bounded, a page of users is a page of distinct users, and an
  indexer that does not answer hides the trending posts of the node itself.
\<close>

section \<open>Keys of the cache\<close>

lemma natDigits_rec:
  "natDigits n = (if n < 10 then [] else natDigits (n div 10)) @ [char_of (48 + n mod 10)]"
  by (subst natDigits.simps) simp

lemma digit_char: "a < 10 \<Longrightarrow> (of_char (char_of (48 + a :: nat)) :: nat) = 48 + a"
  by simp

lemma natDigits_set: "c \<in> set (natDigits n) \<Longrightarrow> 48 \<le> (of_char c :: nat) \<and> (of_char c :: nat) \<le> 57"
proof (induction n rule: less_induct)
  case (less n)
  have "c = char_of (48 + n mod 10) \<or> \<not> n < 10 \<and> c \<in> set (natDigits (n div 10))"
    using less.prems by (subst (asm) natDigits_rec) (auto split: if_splits)
  then show ?case
  proof
    assume "c = char_of (48 + n mod 10)"
    then show ?thesis using digit_char [of "n mod 10"] mod_less_divisor [of 10 n] by simp
  next
    assume "\<not> n < 10 \<and> c \<in> set (natDigits (n div 10))"
    then show ?thesis using less.IH [of "n div 10"] by simp
  qed
qed

lemma natDigits_inject: "natDigits m = natDigits n \<Longrightarrow> m = n"
proof (induction m arbitrary: n rule: less_induct)
  case (less m)
  have nonempty: "natDigits k \<noteq> []" for k by (subst natDigits_rec) simp
  have eq: "(if m < 10 then [] else natDigits (m div 10)) = (if n < 10 then [] else natDigits (n div 10))"
    "(char_of (48 + m mod 10) :: char) = char_of (48 + n mod 10)"
    using trans [OF natDigits_rec [of m, symmetric] trans [OF less.prems natDigits_rec [of n]]]
    unfolding append1_eq_conv by (rule conjunct1, rule conjunct2)
  have "48 + m mod 10 = (of_char (char_of (48 + m mod 10) :: char) :: nat)" by (rule digit_char [symmetric]) simp
  also have "\<dots> = of_char (char_of (48 + n mod 10) :: char)" by (simp only: eq(2))
  also have "\<dots> = 48 + n mod 10" by (rule digit_char) simp
  finally have "m mod 10 = n mod 10" by (rule add_left_imp_eq)
  moreover have "m div 10 = n div 10"
  proof (cases "m < 10")
    case True
    have "n < 10"
    proof (rule ccontr)
      assume "\<not> n < 10"
      then have "natDigits (n div 10) = []" using eq(1) True by (simp only: if_True if_False refl)
      with nonempty show False by blast
    qed
    with True show ?thesis by simp
  next
    case False
    have "\<not> n < 10"
    proof
      assume "n < 10"
      then have "natDigits (m div 10) = []" using eq(1) False by (simp only: if_True if_False)
      with nonempty show False by blast
    qed
    with False have "natDigits (m div 10) = natDigits (n div 10)" using eq(1) by (simp only: if_False)
    then show ?thesis by (rule less.IH [rotated]) (use False in simp)
  qed
  ultimately show ?case by (metis div_mult_mod_eq)
qed

lemma colon_digits: "CHR '':'' \<notin> set (natDigits n)" "CHR ''-'' \<notin> set (natDigits n)"
  using natDigits_set [of "CHR '':''" n] natDigits_set [of "CHR ''-''" n] by auto

lemma colon_Itoa: "CHR '':'' \<notin> set (Itoa i)"
  by (simp add: Itoa_def colon_digits)

lemma Itoa_inject [simp]: "Itoa i = Itoa j \<longleftrightarrow> i = j"
proof
  assume eq: "Itoa i = Itoa j"
  have no: "natDigits a \<noteq> ''-'' @ natDigits b" for a b using colon_digits(2) [of a] by auto
  have "i < 0 \<longleftrightarrow> j < 0" using eq no no [symmetric] by (auto simp: Itoa_def split: if_splits)
  then show "i = j" using eq by (auto simp: Itoa_def dest!: natDigits_inject split: if_splits)
qed simp

text \<open>What follows the last colon of a string and what precedes it are determined.\<close>

lemma last_colon:
  assumes "a @ CHR '':'' # x = b @ CHR '':'' # y" "CHR '':'' \<notin> set x" "CHR '':'' \<notin> set y"
  shows "a = b \<and> x = y"
proof -
  have tail: "takeWhile (\<lambda>c. c \<noteq> CHR '':'') (rev (c @ CHR '':'' # z)) = rev z" if "CHR '':'' \<notin> set z" for c z
    using that by (simp, subst takeWhile_append2) auto
  have "rev x = rev y" using tail [OF assms(2), of a] tail [OF assms(3), of b] assms(1) by simp
  then show ?thesis using assms(1) by simp
qed

lemma searchKey_inject:
  assumes "searchKey kind q p n = searchKey kind q' p' n'"
  shows "q = q' \<and> p = p' \<and> n = n'"
proof -
  have "(q @ '':'' @ Itoa p) @ CHR '':'' # Itoa n = (q' @ '':'' @ Itoa p') @ CHR '':'' # Itoa n'"
    using assms by (simp add: searchKey_def)
  from last_colon [OF this colon_Itoa colon_Itoa]
  have "q @ CHR '':'' # Itoa p = q' @ CHR '':'' # Itoa p'" "n = n'" by simp_all
  with last_colon [OF this(1) colon_Itoa colon_Itoa] show ?thesis by simp
qed

lemma trendingKey_inject: "trendingKey w n = trendingKey w' n' \<Longrightarrow> w = w' \<and> n = n'"
  using last_colon [of w "Itoa n" w' "Itoa n'"] colon_Itoa by (simp add: trendingKey_def)

text \<open>The queries of the client, their keys and the type of their answers.\<close>

datatype clientQuery = QPosts string int int | QUsers string int int | QTrending string int | QExplore int

fun keyOf :: "clientQuery \<Rightarrow> string" where
  "keyOf (QPosts q p n) = searchKey ''posts'' q p n"
| "keyOf (QUsers q p n) = searchKey ''users'' q p n"
| "keyOf (QTrending w n) = trendingKey w n"
| "keyOf (QExplore n) = exploreKey n"

lemma key_kinds:
  "searchKey ''posts'' q p n \<noteq> searchKey ''users'' q' p' n'" "searchKey k q p n \<noteq> trendingKey w m"
  "searchKey k q p n \<noteq> exploreKey m" "trendingKey w m \<noteq> exploreKey m'"
  by (simp_all add: searchKey_def trendingKey_def exploreKey_def)

lemma keyOf_inject: "keyOf a = keyOf b \<Longrightarrow> a = b"
  by (cases a; cases b)
    (auto dest: searchKey_inject trendingKey_inject simp: key_kinds key_kinds [symmetric], simp_all add: exploreKey_def)

fun answers :: "clientQuery \<Rightarrow> cachedData \<Rightarrow> bool" where
  "answers (QPosts q p n) (CSearch r) = True"
| "answers (QUsers q p n) (CSearch r) = True"
| "answers (QTrending w n) (CTrending r) = True"
| "answers (QExplore n) (CPublishers r) = True"
| "answers _ _ = False"

section \<open>The cache\<close>

text \<open>
  What the operations of the client do when the cache has no answer: the requests of the query, and what is made
  of the bodies. The indexers are those known at the moment; \<open>GetTrending\<close> sends a second request, when others
  may be known (\<open>c2\<close>), and takes nothing for the answer of a request that fails.
\<close>

fun ask :: "index_env \<Rightarrow> clientQuery \<Rightarrow> IndexerClient \<Rightarrow> IndexerClient \<Rightarrow> goerr + cachedData" where
  "ask env (QPosts query p n) c c2 = (case queryIndexer env ''/api/search'' (searchParams ''posts'' query p n) c of
      (Some e, _) \<Rightarrow> Inl e
    | (None, raw) \<Rightarrow> Inr (CSearch \<lparr>sr_Results = jsonMember raw ''results'' (ie_hits env) [], sr_Total = jsonMember raw ''total'' (ie_total env) 0\<rparr>))"
| "ask env (QUsers query p n) c c2 = (case queryIndexer env ''/api/search'' (searchParams ''users'' query p n) c of
      (Some e, _) \<Rightarrow> Inl e
    | (None, raw) \<Rightarrow> Inr (CSearch \<lparr>sr_Results = jsonMember raw ''results'' (ie_hits env) [], sr_Total = jsonMember raw ''total'' (ie_total env) 0\<rparr>))"
| "ask env (QTrending window n) c c2 =
     (let params = (\<lambda>kind. [(''window'', window), (''limit'', Itoa n), (''type'', kind)]);
          (err1, raw1) = queryIndexer env ''/api/trending'' (params ''posts'') c;
          (err2, raw2) = queryIndexer env ''/api/trending'' (params ''tags'') c2 in
      Inr (CTrending \<lparr>tr_Posts = (if err1 = None then jsonMember raw1 ''posts'' (ie_posts env) [] else []),
        tr_Tags = (if err2 = None then jsonMember raw2 ''tags'' (ie_tags env) [] else []), tr_Window = window\<rparr>))"
| "ask env (QExplore n) c c2 = (case queryIndexer env ''/api/explore/publishers'' [(''limit'', Itoa n)] c of
      (Some e, _) \<Rightarrow> Inl e
    | (None, raw) \<Rightarrow> Inr (CPublishers (jsonMember raw ''publishers'' (ie_publishers env) [])))"

lemma ask_answers: "ask env q c c2 = Inr data \<Longrightarrow> answers q data"
  by (cases q) (auto simp: Let_def split: prod.splits option.splits)

text \<open>
  The client under concurrent use: the mutex orders the operations on the cache, and nothing what lies between
  them. \<open>pending\<close> holds the answers that goroutines have got from indexers, whatever these send, and not yet
  stored, \<open>log\<close> those that were stored, with the query that was asked and the time. There are lookups, the
  periodic clean-up and changes of the list of indexers in between.
\<close>

inductive clientReach ::
  "IndexerClient \<Rightarrow> (clientQuery \<times> cachedData) list \<Rightarrow> (clientQuery \<times> int \<times> cachedData) list \<Rightarrow> bool" where
  new: "clientReach NewIndexerClient [] []"
| lookup: "clientReach c pending log \<Longrightarrow> clientReach (snd (getFromCache now key c)) pending log"
| asked: "clientReach c pending log \<Longrightarrow> ask env q c1 c2 = Inr data \<Longrightarrow> clientReach c ((q, data) # pending) log"
| store: "clientReach c pending log \<Longrightarrow> (q, data) \<in> set pending \<Longrightarrow>
    clientReach (putInCache t (keyOf q) data c) (remove1 (q, data) pending) ((q, t, data) # log)"
| cleanup: "clientReach c pending log \<Longrightarrow> clientReach (evictExpiredEntries now c) pending log"
| add: "clientReach c pending log \<Longrightarrow> clientReach (AddIndexer url c) pending log"
| replace: "clientReach c pending log \<Longrightarrow> clientReach (SetIndexers urls c) pending log"

definition fresh :: "(clientQuery \<Rightarrow> int \<Rightarrow> cachedData \<Rightarrow> bool) \<Rightarrow> string \<times> cachedResponse \<Rightarrow> bool" where
  "fresh fetched e \<longleftrightarrow> (\<exists>q t. fst e = keyOf q \<and> answers q (cr_data (snd e)) \<and> fetched q t (cr_data (snd e)) \<and>
     cr_expiresAt (snd e) = t + defaultIndexerClientCacheTTL)"

definition cacheOk :: "(clientQuery \<Rightarrow> int \<Rightarrow> cachedData \<Rightarrow> bool) \<Rightarrow> (string \<times> cachedResponse) list \<Rightarrow> bool" where
  "cacheOk fetched cache \<longleftrightarrow> distinct (map fst cache) \<and> (\<forall>e\<in>set cache. fresh fetched e)"

definition clientInv :: "(clientQuery \<Rightarrow> int \<Rightarrow> cachedData \<Rightarrow> bool) \<Rightarrow> IndexerClient \<Rightarrow> bool" where
  "clientInv fetched c \<longleftrightarrow> cacheOk fetched (ic_cache c) \<and> int (length (ic_cache c)) \<le> maxIndexerClientCacheEntries \<and>
     ic_cacheTTL c = defaultIndexerClientCacheTTL \<and> ic_maxCacheEntries c = maxIndexerClientCacheEntries"

lemma cacheOk_sub:
  "cacheOk fetched cache \<Longrightarrow> cacheOk fetched (filter P cache)" "cacheOk fetched cache \<Longrightarrow> cacheOk fetched (AList.delete k cache)"
  unfolding cacheOk_def AList.delete_eq by (auto intro: distinct_map_filter)

lemma length_delete_le: "length (AList.delete k cache) \<le> length cache"
  unfolding AList.delete_eq by (rule length_filter_le)

lemma length_delete_less: "k \<in> set (map fst cache) \<Longrightarrow> length (AList.delete k cache) < length cache"
proof -
  assume "k \<in> set (map fst cache)"
  then obtain v where "(k, v) \<in> set cache" by auto
  then show ?thesis unfolding AList.delete_eq by (rule length_filter_less) simp
qed

lemma length_live: "int (length cache) \<le> b \<Longrightarrow> int (length (filter P cache)) \<le> b"
  using length_filter_le [of P cache] by linarith

lemma oldestEntry_in: "oldestEntry cache = Some e \<Longrightarrow> e \<in> set cache"
  by (induction cache rule: oldestEntry.induct) (auto split: option.splits if_splits)

lemma oldestEntry_some: "cache \<noteq> [] \<Longrightarrow> oldestEntry cache \<noteq> None"
  by (induction cache rule: oldestEntry.induct) (auto split: option.splits if_splits)

lemma evictOldest_less: "cache \<noteq> [] \<Longrightarrow> length (evictOldestEntryLocked cache) < length cache"
proof -
  assume "cache \<noteq> []"
  then obtain k e where "oldestEntry cache = Some (k, e)" using oldestEntry_some by fastforce
  moreover from oldestEntry_in [OF this] have "k \<in> set (map fst cache)" by force
  ultimately show ?thesis using length_delete_less by (simp add: evictOldestEntryLocked_def)
qed

lemma evictOldest_ok: "cacheOk fetched cache \<Longrightarrow> cacheOk fetched (evictOldestEntryLocked cache)"
  by (simp add: evictOldestEntryLocked_def cacheOk_sub split: option.splits)

lemma update_length: "length (AList.update k v xs) = (if k \<in> set (map fst xs) then length xs else length xs + 1)"
  by (induction xs) auto

lemma update_ok:
  assumes "cacheOk fetched cache" "fresh fetched (k, v)"
  shows "cacheOk fetched (AList.update k v cache)"
proof -
  have "set (AList.update k v cache) \<subseteq> insert (k, v) (set cache)" by (induction cache) auto
  with assms distinct_update [of cache k v] show ?thesis unfolding cacheOk_def by auto
qed

lemma putInCache_inv:
  assumes "clientInv fetched c" "fetched q t data" "answers q data"
  shows "clientInv fetched (putInCache t (keyOf q) data c)"
proof -
  define live where "live = filter (\<lambda>(k, e). \<not> cr_expiresAt e < t) (ic_cache c)"
  define kept where "kept = (if map_of live (keyOf q) = None \<and> maxIndexerClientCacheEntries \<le> int (length live)
    then evictOldestEntryLocked live else live)"
  have pos: "\<not> defaultIndexerClientCacheTTL \<le> 0" "\<not> maxIndexerClientCacheEntries \<le> 0"
    by (simp_all add: defaultIndexerClientCacheTTL_def maxIndexerClientCacheEntries_def)
  have eq: "putInCache t (keyOf q) data c = c\<lparr>ic_cache := AList.update (keyOf q)
      \<lparr>cr_data = data, cr_expiresAt = t + defaultIndexerClientCacheTTL\<rparr> kept,
      ic_cacheTTL := defaultIndexerClientCacheTTL, ic_maxCacheEntries := maxIndexerClientCacheEntries\<rparr>"
    using assms(1) pos by (simp add: putInCache_def Let_def clientInv_def live_def kept_def)
  have len: "int (length live) \<le> maxIndexerClientCacheEntries"
    unfolding live_def using assms(1) by (intro length_live) (simp add: clientInv_def)
  have "cacheOk fetched live" using assms(1) by (simp add: clientInv_def live_def cacheOk_sub)
  then have "cacheOk fetched kept" by (simp add: kept_def evictOldest_ok)
  moreover have "fresh fetched (keyOf q, \<lparr>cr_data = data, cr_expiresAt = t + defaultIndexerClientCacheTTL\<rparr>)"
    using assms(2,3) by (auto simp: fresh_def)
  moreover have "int (length (AList.update (keyOf q) v kept)) \<le> maxIndexerClientCacheEntries" for v
  proof (cases "map_of live (keyOf q) = None")
    case True
    then have "int (length kept) < maxIndexerClientCacheEntries"
      using len pos(2) evictOldest_less [of live] by (cases "live = []") (auto simp: kept_def)
    then show ?thesis by (simp add: update_length)
  next
    case False
    then have "keyOf q \<in> set (map fst kept)" by (auto simp: kept_def map_of_eq_None_iff)
    moreover have "kept = live" using False by (auto simp: kept_def)
    ultimately show ?thesis using len by (simp add: update_length)
  qed
  ultimately show ?thesis by (simp add: eq clientInv_def update_ok)
qed

lemma clientInv_mono:
  "clientInv f c \<Longrightarrow> (\<And>q t d. f q t d \<Longrightarrow> g q t d) \<Longrightarrow> clientInv g c"
  unfolding clientInv_def cacheOk_def fresh_def by fast

abbreviation logged :: "(clientQuery \<times> int \<times> cachedData) list \<Rightarrow> clientQuery \<Rightarrow> int \<Rightarrow> cachedData \<Rightarrow> bool" where
  "logged log \<equiv> \<lambda>q t d. (q, t, d) \<in> set log"

text \<open>What is pending or logged was answered to its query.\<close>

definition answered :: "clientQuery \<Rightarrow> cachedData \<Rightarrow> bool" where
  "answered q d \<longleftrightarrow> (\<exists>env c1 c2. ask env q c1 c2 = Inr d)"

lemma clientReach_answered:
  "clientReach c pending log \<Longrightarrow> (q, d) \<in> set pending \<or> (\<exists>t. (q, t, d) \<in> set log) \<Longrightarrow> answered q d"
proof (induction arbitrary: q d rule: clientReach.induct)
  case (asked c pending log env q' c1 c2 data)
  show ?case
  proof (cases "(q, d) = (q', data)")
    case True
    with asked.hyps(2) show ?thesis by (auto simp: answered_def)
  next
    case False
    with asked.prems show ?thesis by (intro asked.IH) auto
  qed
next
  case (store c pending log q' data t)
  have "(q, d) \<in> set pending \<or> (\<exists>t. (q, t, d) \<in> set log)"
    using store.prems store.hyps(2) set_remove1_subset [of "(q', data)" pending] by auto
  then show ?case by (rule store.IH)
qed (auto simp: answered_def)

lemma clientReach_inv: "clientReach c pending log \<Longrightarrow> clientInv (logged log) c"
proof (induction rule: clientReach.induct)
  case new
  then show ?case
    by (simp add: clientInv_def cacheOk_def NewIndexerClient_def maxIndexerClientCacheEntries_def)
next
  case (lookup c pending log now key)
  then show ?case
    using length_delete_le [of key "ic_cache c"]
    by (auto simp: getFromCache_def clientInv_def cacheOk_sub split: option.splits)
next
  case (store c pending log q data t)
  have "answered q data" using store.hyps by (intro clientReach_answered [OF store.hyps(1)]) simp
  then have "answers q data" using ask_answers by (auto simp: answered_def)
  moreover have "clientInv (logged ((q, t, data) # log)) c" by (rule clientInv_mono [OF store.IH]) simp
  ultimately show ?case by (intro putInCache_inv) simp_all
next
  case (cleanup c pending log now)
  then show ?case
    by (simp add: evictExpiredEntries_def clientInv_def cacheOk_sub length_live)
qed (auto simp: AddIndexer_def SetIndexers_def clientInv_def)

text \<open>The operations of the client are such steps, with nothing of other goroutines in between.\<close>

lemma keeps_cachedData [keeps_intro]:
  "(\<And>r. keeps I (f r)) \<Longrightarrow> (\<And>r. keeps I (g r)) \<Longrightarrow> (\<And>r. keeps I (h r)) \<Longrightarrow>
     keeps I (case d of CSearch r \<Rightarrow> f r | CTrending r \<Rightarrow> g r | CPublishers r \<Rightarrow> h r)"
  by (cases d) auto

definition reached :: "IndexerClient \<Rightarrow> bool" where
  "reached c \<longleftrightarrow> (\<exists>log. clientReach c [] log)"

definition stepsOf :: "index_env \<Rightarrow> int \<Rightarrow> int \<Rightarrow> clientQuery \<Rightarrow> (IndexerClient, cachedData) go" where
  "stepsOf env now now' q = bindE (getFromCache now (keyOf q)) (\<lambda>cached. case cached of
      Some d \<Rightarrow> retE d
    | None \<Rightarrow> bindE (getE (\<lambda>c. ask env q c c)) (\<lambda>r. case r of
        Inl e \<Rightarrow> throwE e
      | Inr d \<Rightarrow> seqE (modifyE (putInCache now' (keyOf q) d)) (retE d)))"

lemma stepsOf_reached: "keeps reached (stepsOf env now now' q)"
proof (rule keepsI)
  fix c r c'
  assume "reached c" and run: "stepsOf env now now' q c = (r, c')"
  then obtain log where c: "clientReach c [] log" by (auto simp: reached_def)
  obtain cached c1 where look: "getFromCache now (keyOf q) c = (Inr cached, c1)"
    by (cases "getFromCache now (keyOf q) c" rule: prod.exhaust)
       (auto simp: getFromCache_def split: option.splits if_splits)
  have c1: "clientReach c1 [] log" using clientReach.lookup [OF c, of now "keyOf q"] look by simp
  show "reached c'"
  proof (cases "\<exists>d. cached = None \<and> ask env q c1 c1 = Inr d")
    case True
    then obtain d where d: "cached = None" "ask env q c1 c1 = Inr d" by blast
    from clientReach.store [OF clientReach.asked [OF c1 d(2)], of q d now']
    have "clientReach (putInCache now' (keyOf q) d c1) [] ((q, now', d) # log)" by simp
    moreover have "c' = putInCache now' (keyOf q) d c1" using run look d by (simp add: stepsOf_def run_bindE run_seqE)
    ultimately show ?thesis by (auto simp: reached_def)
  next
    case False
    then have "c' = c1" using run look by (auto simp: stepsOf_def run_bindE split: option.splits sum.splits)
    with c1 show ?thesis by (auto simp: reached_def)
  qed
qed

text \<open>The operations as these steps, with the type assertion on the answer.\<close>

lemma clientOps:
  "Client_SearchPosts env now now' query p n = bindE (stepsOf env now now' (QPosts query p n))
     (\<lambda>d. case d of CSearch r \<Rightarrow> retE r | _ \<Rightarrow> throwE (Panic ''interface conversion''))"
  "Client_SearchUsers env now now' query p n = bindE (stepsOf env now now' (QUsers query p n))
     (\<lambda>d. case d of CSearch r \<Rightarrow> retE r | _ \<Rightarrow> throwE (Panic ''interface conversion''))"
  "Client_GetTrending env now now' window n = bindE (stepsOf env now now' (QTrending window n))
     (\<lambda>d. case d of CTrending r \<Rightarrow> retE r | _ \<Rightarrow> throwE (Panic ''interface conversion''))"
  "Client_GetExplorePublishers env now now' n = bindE (stepsOf env now now' (QExplore n))
     (\<lambda>d. case d of CPublishers r \<Rightarrow> retE r | _ \<Rightarrow> throwE (Panic ''interface conversion''))"
  by (rule ext, auto simp: Client_SearchPosts_def Client_SearchUsers_def Client_GetTrending_def Client_GetExplorePublishers_def
      searchRemote_def stepsOf_def getFromCache_def Let_def run_bindE run_seqE split: option.splits cachedData.splits prod.splits sum.splits)+

text \<open>
  C32. However the lookups, requests, stores and clean-ups of concurrent uses interleave, and whatever the
  indexers send: the cache of the client holds at most 1024 entries, and a query is answered from it only with
  the answer that an indexer gave to that very query, with the same text, page and size, that was stored at most
  60 seconds ago, and that has the type that the operation of the query expects, so that the type assertion on
  it does not panic.
\<close>

theorem cached_answers_match:
  assumes "clientReach c pending log" "getFromCache now (keyOf q) c = (Inr (Some data), c')"
  shows "(\<exists>t. (q, t, data) \<in> set log \<and> now \<le> t + 60 * 1000000000) \<and> (\<exists>env c1 c2. ask env q c1 c2 = Inr data) \<and>
    answers q data \<and> length (ic_cache c) \<le> 1024"
proof -
  have inv: "clientInv (logged log) c" by (rule clientReach_inv [OF assms(1)])
  obtain e where e: "map_of (ic_cache c) (keyOf q) = Some e" "\<not> cr_expiresAt e < now" "data = cr_data e"
    using assms(2) by (auto simp: getFromCache_def split: option.splits if_splits)
  from map_of_SomeD [OF e(1)] inv have "fresh (logged log) (keyOf q, e)" by (simp add: clientInv_def cacheOk_def)
  then obtain q' t where q': "keyOf q = keyOf q'" "answers q' data" "(q', t, data) \<in> set log"
    "cr_expiresAt e = t + defaultIndexerClientCacheTTL" by (auto simp: fresh_def e(3))
  have "q = q'" by (rule keyOf_inject [OF q'(1)])
  then have asked: "\<exists>env c1 c2. ask env q c1 c2 = Inr data"
    using clientReach_answered [OF assms(1), of q data] q'(3) by (auto simp: answered_def)
  from \<open>q = q'\<close> q' e(2) inv have "answers q data" "(q, t, data) \<in> set log" "now \<le> t + 60 * 1000000000" "length (ic_cache c) \<le> 1024"
    by (simp_all add: defaultIndexerClientCacheTTL_def clientInv_def maxIndexerClientCacheEntries_def)
  with asked show ?thesis by blast
qed

lemma cached_answers_match_witness:
  "\<exists>c pending log now q data c'. clientReach c pending log \<and> getFromCache now (keyOf q) c = (Inr (Some (data :: cachedData)), c') \<and>
     ((\<exists>t. (q, t, data) \<in> set log \<and> now \<le> t + 60 * 1000000000) \<and> (\<exists>env c1 c2. ask env q c1 c2 = Inr data) \<and>
      answers q data \<and> length (ic_cache c) \<le> 1024)"
proof -
  define env where "env = \<lparr>ie_get = (\<lambda>_ _ _. Inr (200, \<lparr>r_data = [], r_err = None\<rparr>)), ie_decode = (\<lambda>_ m. (None, m, None)),
    ie_hits = (\<lambda>_. (None, [])), ie_total = (\<lambda>_. (None, 0)), ie_posts = (\<lambda>_. (None, [])), ie_tags = (\<lambda>_. (None, [])),
    ie_publishers = (\<lambda>_. (None, []))\<rparr>"
  define q where "q = QPosts ''go'' 0 20"
  define d where "d = CSearch \<lparr>sr_Results = [], sr_Total = 0\<rparr>"
  define c1 where "c1 = AddIndexer ''http://a'' NewIndexerClient"
  define c where "c = putInCache 0 (keyOf q) d c1"
  have "ask env q c1 c1 = Inr d"
    by (simp add: q_def d_def c1_def env_def queryIndexer_def AddIndexer_def NewIndexerClient_def decodeIndexerResponse_def
      maxIndexerClientResponseBytes_def jsonMember_def)
  moreover have "clientReach c1 [] []" unfolding c1_def by (intro clientReach.add clientReach.new)
  ultimately have "clientReach c1 [(q, d)] []" by (intro clientReach.asked)
  from clientReach.store [OF this, of q d 0] have reach: "clientReach c [] [(q, 0, d)]" by (simp add: c_def)
  have "ic_cache c = [(keyOf q, \<lparr>cr_data = d, cr_expiresAt = 0 + defaultIndexerClientCacheTTL\<rparr>)]"
    by (simp add: c_def c1_def AddIndexer_def putInCache_def NewIndexerClient_def Let_def defaultIndexerClientCacheTTL_def
      maxIndexerClientCacheEntries_def)
  then have get: "getFromCache 5 (keyOf q) c = (Inr (Some d), c)"
    by (simp add: getFromCache_def defaultIndexerClientCacheTTL_def)
  show ?thesis using reach get cached_answers_match [OF reach get] by blast
qed

section \<open>Pages of users\<close>

definition userPage :: "int \<Rightarrow> ClientSearchHit list \<Rightarrow> string set \<Rightarrow> bool" where
  "userPage n results seen \<longleftrightarrow> int (length results) \<le> n \<and> distinct (map ch_ID results) \<and>
     seen = ch_ID ` set results \<and> (\<forall>hit\<in>set results. ch_Type hit = ''user'')"

lemma userPage_snoc:
  "userPage n results seen \<Longrightarrow> int (length results) < n \<Longrightarrow> ch_ID hit \<notin> seen \<Longrightarrow> ch_Type hit = ''user'' \<Longrightarrow>
     userPage n (results @ [hit]) (insert (ch_ID hit) seen)"
  by (auto simp: userPage_def)

lemma indexerUsers_page:
  assumes "indexerUsers n hits results seen = (results', seen', full)" "userPage n results seen" "int (length results) < n"
  shows "userPage n results' seen' \<and> (full \<longleftrightarrow> n \<le> int (length results'))"
  using assms
proof (induction n hits results seen rule: indexerUsers.induct)
  case (2 n hit hits results seen)
  show ?case
  proof (cases "hitPubkey hit = '''' \<or> hitPubkey hit \<in> seen")
    case True
    then show ?thesis using "2.IH"(1) [OF refl True] "2.prems" by (auto simp: Let_def)
  next
    case False
    have snoc: "userPage n (results @ [hit\<lparr>ch_ID := hitPubkey hit, ch_Type := ''user''\<rparr>]) (insert (hitPubkey hit) seen)"
      using userPage_snoc [OF "2.prems"(2,3), of "hit\<lparr>ch_ID := hitPubkey hit, ch_Type := ''user''\<rparr>"] False by simp
    show ?thesis
    proof (cases "n \<le> int (length results) + 1")
      case True
      then show ?thesis using snoc "2.prems"(1) False by (auto simp: Let_def)
    next
      case more: False
      then show ?thesis using "2.IH"(2) [OF refl False refl refl] snoc "2.prems"(1) False by (simp add: Let_def)
    qed
  qed
qed simp

definition localHit :: "(string \<Rightarrow> string) \<Rightarrow> string \<Rightarrow> ProfileRow list \<Rightarrow> ClientSearchHit \<Rightarrow> bool" where
  "localHit toLower normalized ps hit \<longleftrightarrow>
     (\<exists>p\<in>set ps. profileMatches toLower normalized p \<and> ch_ID hit = EncodeToString (pf_Pubkey p) \<and> ch_Name hit = pf_DisplayName p)"

lemma localUsers_page:
  assumes "userPage n results seen" "int (length results) < n"
  shows "(\<exists>seen'. userPage n (localUsers toLower normalized n ps results seen) seen') \<and>
     set results \<subseteq> set (localUsers toLower normalized n ps results seen) \<and>
     (\<forall>hit\<in>set (localUsers toLower normalized n ps results seen). hit \<in> set results \<or> localHit toLower normalized ps hit) \<and>
     (int (length (localUsers toLower normalized n ps results seen)) < n \<longrightarrow>
       (\<forall>p\<in>set ps. profileMatches toLower normalized p \<longrightarrow>
          EncodeToString (pf_Pubkey p) \<in> ch_ID ` set (localUsers toLower normalized n ps results seen)))"
  using assms
proof (induction toLower normalized n ps results seen rule: localUsers.induct)
  case (1 toLower normalized n results seen)
  then show ?case by auto
next
  case (2 toLower normalized n p ps results seen)
  let ?k = "EncodeToString (pf_Pubkey p)"
  show ?case
  proof (cases "?k \<in> seen \<or> \<not> profileMatches toLower normalized p")
    case True
    have k: "?k \<in> seen \<Longrightarrow> ?k \<in> ch_ID ` set results" using "2.prems"(1) by (simp add: userPage_def)
    show ?thesis using "2.IH"(1) [OF refl True "2.prems"] True k by (auto simp: Let_def localHit_def)
  next
    case False
    define hit where "hit = \<lparr>ch_ID = ?k, ch_Type = ''user'', ch_Score = float64_of 1, ch_Content = '''',
      ch_Author = '''', ch_Name = pf_DisplayName p, ch_Bio = pf_Bio p\<rparr>"
    have snoc: "userPage n (results @ [hit]) (insert ?k seen)"
      using userPage_snoc [OF "2.prems", of hit] False by (simp add: hit_def)
    have this_hit: "localHit toLower normalized (p # ps) hit" "ch_ID hit = ?k" using False by (auto simp: localHit_def hit_def)
    have run: "localUsers toLower normalized n (p # ps) results seen = (if n \<le> int (length results) + 1 then results @ [hit]
        else localUsers toLower normalized n ps (results @ [hit]) (insert ?k seen))"
      using False by (simp add: Let_def hit_def)
    show ?thesis
    proof (cases "n \<le> int (length results) + 1")
      case True
      then show ?thesis unfolding run using snoc this_hit by auto
    next
      case more: False
      define rest where "rest = localUsers toLower normalized n ps (results @ [hit]) (insert ?k seen)"
      have len: "int (length (results @ [hit])) < n" using more by simp
      note ih = "2.IH"(2) [OF refl False refl, folded hit_def, OF _ snoc len, folded rest_def]
      have one: "hit' \<in> set results \<or> localHit toLower normalized (p # ps) hit'" if "hit' \<in> set rest" for hit'
      proof -
        have "hit' \<in> set results \<or> hit' = hit \<or> localHit toLower normalized ps hit'" using ih that more by auto
        then show ?thesis using this_hit(1) by (auto simp: localHit_def)
      qed
      have two: "hit \<in> set rest" using ih more by auto
      have "ch_ID hit \<in> ch_ID ` set rest" by (rule imageI [OF two])
      then have three: "?k \<in> ch_ID ` set rest" unfolding this_hit(2) .
      have "localUsers toLower normalized n (p # ps) results seen = rest" using run more by (simp add: rest_def)
      then show ?thesis using ih more one three by auto
    qed
  qed
qed

lemma askIndexer_db:
  "askIndexer wanted m d = (r, d') \<Longrightarrow> di_db d' = di_db d"
  unfolding askIndexer_def okE_def catchE_def clientE_def
  by (auto simp: run_bindE split: if_splits option.splits prod.splits sum.splits goerr.splits)

lemma askIndexer_none: "di_client d = None \<Longrightarrow> askIndexer wanted m d = (Inr None, d)"
  by (simp add: askIndexer_def run_bindE)

text \<open>The hits that come before the local ones.\<close>

definition remoteHits :: "int \<Rightarrow> ClientSearchResponse option \<Rightarrow> ClientSearchHit list \<times> string set \<times> bool" where
  "remoteHits n resp = (case resp of None \<Rightarrow> ([], {}, False) | Some r \<Rightarrow> indexerUsers n (sr_Results r) [] {})"

lemma remoteHits_page:
  assumes "remoteHits n resp = (results, seen, full)" "1 \<le> n"
  shows "userPage n results seen \<and> (full \<longleftrightarrow> n \<le> int (length results))"
proof (cases resp)
  case None
  then show ?thesis using assms by (auto simp: remoteHits_def userPage_def)
next
  case (Some r)
  then show ?thesis using assms by (intro indexerUsers_page) (auto simp: remoteHits_def userPage_def)
qed

lemma searchUsers_run:
  assumes "searchUsersResults env toLower now now' query pageNo n d = (Inr (results, message), d')"
    "toLower (TrimSpace (TrimPrefix query ''@'')) = normalized" "normalized \<noteq> ''''"
  obtains resp d1 results1 seen full where
    "askIndexer True (Client_SearchUsers env now now' normalized pageNo n) d = (Inr resp, d1)"
    "remoteHits n resp = (results1, seen, full)"
    "full \<longrightarrow> results = results1"
    "\<not> full \<longrightarrow> results = results1 \<and> db_faults (di_db d) \<noteq> (\<lambda>_. None) \<or>
       results = localUsers toLower normalized n (sort_key (\<lambda>p. byteOrder (pf_DisplayName p)) (profiles (di_db d))) results1 seen"
proof -
  obtain resp d1 where ask: "askIndexer True (Client_SearchUsers env now now' normalized pageNo n) d = (Inr resp, d1)"
  proof -
    have "\<exists>k. bindE (askIndexer True (Client_SearchUsers env now now' normalized pageNo n)) k d = (Inr (results, message), d')"
      using assms(1,3) by (auto simp: searchUsersResults_def Let_def assms(2))
    then show thesis using that by (auto dest!: bindE_InrD)
  qed
  obtain results1 seen full where hits: "remoteHits n resp = (results1, seen, full)" by (metis prod_cases3)
  have db: "di_db d1 = di_db d" by (rule askIndexer_db [OF ask])
  have run: "(if full then retE (results1, '''') else bindE (okE (ddbE GetAllProfiles)) (\<lambda>local. case local of
        None \<Rightarrow> retE (results1, case resp of None \<Rightarrow> ''Using local-only user search'' | Some _ \<Rightarrow> '''')
      | Some ps \<Rightarrow> retE (localUsers toLower normalized n ps results1 seen, case resp of None \<Rightarrow> ''Using local-only user search'' | Some _ \<Rightarrow> '''')))
      d1 = (Inr (results, message), d')"
    using assms(1,3) hits
    by (cases full) (simp_all add: searchUsersResults_def Let_def assms(2) bindE_Inr [where m = "askIndexer True (Client_SearchUsers env now now' normalized pageNo n)", OF ask] remoteHits_def)
  have "\<not> full \<longrightarrow> results = results1 \<and> db_faults (di_db d) \<noteq> (\<lambda>_. None) \<or>
       results = localUsers toLower normalized n (sort_key (\<lambda>p. byteOrder (pf_DisplayName p)) (profiles (di_db d))) results1 seen"
    using run
    by (auto simp: run_bindE okE_def catchE_def ddbE_def onE_def GetAllProfiles_def run_wrapE queryE_def db
      split: option.splits goerr.splits prod.splits sum.splits)
  moreover have "full \<longrightarrow> results = results1" using run by auto
  ultimately show ?thesis using that [OF ask hits] by blast
qed

text \<open>
  C33. A page of a search for users (1 to 100 per page) has at most so many hits, each a user and no user
  twice, whatever an indexer answers; on a node that asks no indexer every hit is a profile of its
  database that contains the query. A page that is not full, when the database answers, is complete: no
  profile of the database that contains the query is missing from it.
\<close>

theorem user_search_page:
  assumes "1 \<le> n" "searchUsersResults env toLower now now' query pageNo n d = (Inr (results, message), d')"
    "normalized = toLower (TrimSpace (TrimPrefix query ''@''))" "normalized \<noteq> ''''"
  shows "int (length results) \<le> n \<and> distinct (map ch_ID results) \<and> (\<forall>hit\<in>set results. ch_Type hit = ''user'') \<and>
    (di_client d = None \<longrightarrow> (\<forall>hit\<in>set results. localHit toLower normalized (profiles (di_db d)) hit)) \<and>
    (int (length results) < n \<and> db_faults (di_db d) = (\<lambda>_. None) \<longrightarrow>
      (\<forall>p\<in>set (profiles (di_db d)). profileMatches toLower normalized p \<longrightarrow>
         (\<exists>hit\<in>set results. ch_ID hit = EncodeToString (pf_Pubkey p))))"
proof -
  obtain resp d1 results1 seen full where ask:
    "askIndexer True (Client_SearchUsers env now now' normalized pageNo n) d = (Inr resp, d1)"
    and hits: "remoteHits n resp = (results1, seen, full)" and full: "full \<longrightarrow> results = results1"
    and part: "\<not> full \<longrightarrow> results = results1 \<and> db_faults (di_db d) \<noteq> (\<lambda>_. None) \<or>
       results = localUsers toLower normalized n (sort_key (\<lambda>p. byteOrder (pf_DisplayName p)) (profiles (di_db d))) results1 seen"
    by (rule searchUsers_run [OF assms(2) assms(3) [symmetric] assms(4)]) (rule that)
  note pg = remoteHits_page [OF hits assms(1)]
  have none: "di_client d = None \<Longrightarrow> results1 = [] \<and> \<not> full"
    using ask hits by (auto simp: remoteHits_def askIndexer_none)
  show ?thesis
  proof (cases "full \<or> results = results1 \<and> db_faults (di_db d) \<noteq> (\<lambda>_. None)")
    case True
    then have eq: "results = results1" using full by blast
    show ?thesis using pg none True unfolding eq by (auto simp: userPage_def)
  next
    case False
    define ps where "ps = sort_key (\<lambda>p. byteOrder (pf_DisplayName p)) (profiles (di_db d))"
    have ps: "results = localUsers toLower normalized n ps results1 seen" using False part by (auto simp: ps_def)
    have set: "set ps = set (profiles (di_db d))" by (simp add: ps_def)
    have len: "int (length results1) < n" using pg False by simp
    have same: "localHit toLower normalized ps = localHit toLower normalized (profiles (di_db d))"
      by (simp add: localHit_def set fun_eq_iff)
    from localUsers_page [OF conjunct1 [OF pg] len, of toLower normalized ps, folded ps, unfolded set same] none
    show ?thesis by (force simp: userPage_def)
  qed
qed

lemma user_search_page_witness:
  "\<exists>env toLower d results message d'.
     searchUsersResults env toLower 0 0 ''@ab'' 0 20 d = (Inr (results, message), d') \<and>
     results \<noteq> [] \<and> int (length results) \<le> 20 \<and> distinct (map ch_ID results) \<and>
     (\<forall>hit\<in>set results. localHit toLower ''ab'' (profiles (di_db d)) hit)"
proof -
  define p where "p = \<lparr>pf_Pubkey = [1], pf_DisplayName = ''xaby'', pf_Bio = '''', pf_AvatarCID = None, pf_BannerCID = None,
    pf_Website = '''', pf_Version = 1, pf_UpdatedAt = 0\<rparr>"
  define d where "d = \<lparr>di_db = emptyDB\<lparr>profiles := [p]\<rparr>, di_client = None\<rparr>"
  have norm: "''ab'' = TrimSpace (TrimPrefix ''@ab'' ''@'')" by code_simp
  have match: "profileMatches (\<lambda>s. s) ''ab'' p" by (simp add: profileMatches_def p_def HasPrefix_def)
  obtain hit d' where run: "searchUsersResults env (\<lambda>s. s) 0 0 ''@ab'' 0 20 d = (Inr ([hit], ''Using local-only user search''), d')" for env
    using match
    by (simp add: searchUsersResults_def norm [symmetric] run_bindE askIndexer_none d_def ddbE_def onE_def okE_def catchE_def
      GetAllProfiles_def run_wrapE queryE_def tick_def emptyDB_def p_def Let_def)
  have "di_client d = None" by (simp add: d_def)
  with user_search_page [OF _ run norm] have hits: "distinct (map ch_ID [hit])"
    "\<forall>hit\<in>set [hit]. localHit (\<lambda>s. s) ''ab'' (profiles (di_db d)) hit" by simp_all
  show ?thesis
    by (rule exI, rule exI [of _ "\<lambda>s. s"], rule exI [of _ d], rule exI [of _ "[hit]"], rule exI, rule exI [of _ d'])
      (intro conjI, rule run, use hits in simp_all)
qed

section \<open>Trending\<close>

lemma tryIndexers_fails:
  assumes "\<forall>base\<in>set bases. \<forall>status body. ie_get env base path params = Inr (status, body) \<longrightarrow> status \<noteq> 200"
  shows "\<exists>e. tryIndexers env path params bases lastErr result = (Some e, result)"
  using assms
proof (induction bases arbitrary: lastErr)
  case (Cons base bases)
  show ?case
  proof (cases "ie_get env base path params")
    case (Inr p)
    then show ?thesis using Cons by (cases p) auto
  qed (use Cons in simp)
qed simp

definition silent :: "index_env \<Rightarrow> IndexerClient \<Rightarrow> bool" where
  "silent env c \<longleftrightarrow> (\<forall>base\<in>set (ic_known c). \<forall>params status body.
     ie_get env base ''/api/trending'' params = Inr (status, body) \<longrightarrow> status \<noteq> 200)"

lemma queryIndexer_fails: "silent env c \<Longrightarrow> \<exists>e raw. queryIndexer env ''/api/trending'' params c = (Some e, raw)"
  using tryIndexers_fails [of "ic_known c" env "''/api/trending''" params] by (simp add: queryIndexer_def silent_def) metis

lemma stored_is_found:
  assumes "0 < ic_cacheTTL c" "now \<le> t + ic_cacheTTL c"
  shows "getFromCache now key (putInCache t key data c) = (Inr (Some data), putInCache t key data c)"
  using assms by (simp add: getFromCache_def putInCache_def Let_def update_conv')

lemma trending_silent:
  assumes "silent env c" "map_of (ic_cache c) (trendingKey window limit) = None"
  shows "Client_GetTrending env now now' window limit c =
    (Inr \<lparr>tr_Posts = [], tr_Tags = [], tr_Window = window\<rparr>,
     putInCache now' (trendingKey window limit) (CTrending \<lparr>tr_Posts = [], tr_Tags = [], tr_Window = window\<rparr>) c)"
proof -
  obtain e1 raw1 where q1: "queryIndexer env ''/api/trending''
      [(''window'', window), (''limit'', Itoa limit), (''type'', ''posts'')] c = (Some e1, raw1)"
    using queryIndexer_fails [OF assms(1)] by blast
  obtain e2 raw2 where q2: "queryIndexer env ''/api/trending''
      [(''window'', window), (''limit'', Itoa limit), (''type'', ''tags'')] c = (Some e2, raw2)"
    using queryIndexer_fails [OF assms(1)] by blast
  show ?thesis using assms(2) by (simp add: Client_GetTrending_def Let_def run_bindE run_seqE getFromCache_def q1 q2)
qed

text \<open>What is left of a trending post on the wire.\<close>

lemma json_keys:
  "jsonFieldOf clientTrendingNames ''CIDHex'' = None" "jsonFieldOf clientTrendingNames ''LikeCount'' = None"
  "jsonFieldOf clientTrendingNames ''RepostCount'' = None" "jsonFieldOf clientTrendingNames ''ReplyCount'' = None"
  "jsonFieldOf clientTrendingNames ''Author'' = Some ''author''" "jsonFieldOf clientTrendingNames ''Content'' = Some ''content''"
  "jsonFieldOf clientTrendingNames ''Score'' = Some ''score''" "jsonFieldOf clientTrendingNames ''Timestamp'' = Some ''timestamp''"
  by code_simp+

lemma decode_encode_trending:
  "decodeTrendingPost (encodeTrendingPost p) = p\<lparr>tp_CID := '''', tp_LikeCount := 0, tp_RepostCount := 0, tp_ReplyCount := 0\<rparr>"
  by (cases p) (simp add: decodeTrendingPost_def encodeTrendingPost_def json_keys)

lemma trending_tick: "trendingPost (tick db) = trendingPost db" "trendingScore (tick db) = trendingScore db" "posts (tick db) = posts db"
  by (simp_all add: trendingPost_def trendingScore_def countsOf_def tick_def fun_eq_iff)

text \<open>
  What an indexer finds trending reaches no reader as a post: the client decodes from each trending post
  that an indexer with any database sends the right author, text, score and time, but an empty identifier
  and zero likes, reposts and replies, since the keys that are written are not the keys that are read.
\<close>

theorem trending_posts_lose_identifier:
  assumes "Engine_GetTrendingPosts window limit db = (Inr ps, db')" "i < length ps"
  shows "\<exists>p\<in>set (posts db). tp_CID (ps ! i) = EncodeToString (p_CID p) \<and>
      decodeTrendingPost (encodeTrendingPost (ps ! i)) =
      \<lparr>tp_CID = '''', tp_Author = EncodeToString (p_Author p), tp_Content = p_Content p,
       tp_LikeCount = 0, tp_RepostCount = 0, tp_ReplyCount = 0,
       tp_Score = float64_of (trendingScore db (p_CID p)), tp_Timestamp = p_Timestamp p\<rparr>"
proof -
  have "\<exists>P n. ps = map (trendingPost db) (limitTo n (descending (\<lambda>p. trendingScore db (p_CID p)) (descending p_Timestamp (filter P (posts db)))))"
    using assms(1) unfolding Engine_GetTrendingPosts_def
    by (auto simp: run_simps queryE_def Let_def trending_tick split: sum.splits option.splits prod.splits)
  then have "set ps \<subseteq> trendingPost db ` set (posts db)" using set_limitTo by fastforce
  then obtain p where p: "p \<in> set (posts db)" "ps ! i = trendingPost db p" using nth_mem [OF assms(2)] by auto
  show ?thesis
    by (rule bexI [OF _ p(1)]) (simp add: p(2) decode_encode_trending trendingPost_def split: prod.splits)
qed

lemma trending_posts_lose_identifier_witness:
  "\<exists>db ps db'. Engine_GetTrendingPosts ''24h'' 20 db = (Inr ps, db') \<and> length ps = 1 \<and> tp_CID (ps ! 0) = ''01'' \<and>
     tp_LikeCount (ps ! 0) = 7 \<and> tp_CID (decodeTrendingPost (encodeTrendingPost (ps ! 0))) = '''' \<and>
     tp_LikeCount (decodeTrendingPost (encodeTrendingPost (ps ! 0))) = 0"
proof -
  define p where "p = \<lparr>p_CID = [1], p_Author = [2], p_Content = ''hi'', p_ReplyTo = None, p_RepostOf = None, p_Timestamp = 0,
    p_Signature = [], p_ReceivedAt = 0\<rparr>"
  define db where "db = emptyDB\<lparr>posts := [p], reaction_counts := [\<lparr>rc_PostCID = [1], rc_Likes = 7, rc_Replies = 0, rc_Reposts = 0\<rparr>]\<rparr>"
  have run: "Engine_GetTrendingPosts ''24h'' 20 db = (Inr [trendingPost db p], tick db)"
    by (simp add: Engine_GetTrendingPosts_def run_simps queryE_def parseWindow_def hourMillis_def limitTo_def descending_def
      trending_tick db_def emptyDB_def p_def)
  have "tp_CID (trendingPost db p) = ''01''" "tp_LikeCount (trendingPost db p) = 7"
    by (simp_all add: trendingPost_def countsOf_def rowOf_def db_def p_def encodeByte_def hexDigit_def hexDigits_def)
  then show ?thesis using run trending_posts_lose_identifier [OF run, of 0]
    by (intro exI [of _ db] exI [of _ "[trendingPost db p]"] exI [of _ "tick db"]) auto
qed

text \<open>
  On a node that knows an indexer, trending never falls back on the database: while no known indexer
  answers with status 200, a valid request is answered with no hashtags and no posts, as if nothing was
  trending and without the message that marks local data, whatever posts the node holds. The answer is
  cached: for as long as an entry lives, 60 seconds, it is given again even if the indexers are back.
\<close>

theorem trending_never_falls_back:
  assumes "di_client d = Some c" "Available c" "silent env c" "0 < ic_cacheTTL c"
    "map_of (ic_cache c) (trendingKey window limit) = None"
    "parseTrendingWindow w = Inr window" "parseBoundedPositiveQueryInt l 20 100 = Inr limit"
    "GetTrending env now now' w l d = (r, d')"
  shows "r = Inr ([], [], window, False) \<and>
    (\<forall>env' later later'. later \<le> now' + ic_cacheTTL c \<longrightarrow>
       fst (GetTrending env' later later' w l d') = Inr ([], [], window, False))"
proof -
  define e where "e = CTrending \<lparr>tr_Posts = [], tr_Tags = [], tr_Window = window\<rparr>"
  define c' where "c' = putInCache now' (trendingKey window limit) e c"
  have run: "GetTrending env now now' w l d = (Inr ([], [], window, False), d\<lparr>di_client := Some c'\<rparr>)"
    by (simp add: GetTrending_def assms(1,2,6,7) run_bindE askIndexer_def okE_def catchE_def clientE_def
      trending_silent [OF assms(3,5)] c'_def e_def)
  have again: "Client_GetTrending env' later later' window limit c' = (Inr \<lparr>tr_Posts = [], tr_Tags = [], tr_Window = window\<rparr>, c')"
    if "later \<le> now' + ic_cacheTTL c" for env' later later'
    using stored_is_found [OF assms(4) that, of "trendingKey window limit" e]
    by (simp add: Client_GetTrending_def Let_def run_bindE c'_def e_def)
  have "Available c'" using assms(2) by (simp add: c'_def putInCache_def Let_def Available_def)
  then have "fst (GetTrending env' later later' w l (d\<lparr>di_client := Some c'\<rparr>)) = Inr ([], [], window, False)"
    if "later \<le> now' + ic_cacheTTL c" for env' later later'
    using that by (simp add: GetTrending_def assms(6,7) run_bindE askIndexer_def okE_def catchE_def clientE_def again)
  moreover have "r = Inr ([], [], window, False)" "d' = d\<lparr>di_client := Some c'\<rparr>" using run assms(8) by simp_all
  ultimately show ?thesis by blast
qed

lemma trending_never_falls_back_witness:
  "\<exists>env d r d'. GetTrending env 0 0 '''' '''' d = (r, d') \<and> posts (di_db d) \<noteq> [] \<and> r = Inr ([], [], ''24h'', False) \<and>
     (\<forall>env'. fst (GetTrending env' 60000000000 60000000000 '''' '''' d') = r)"
proof -
  define env where "env = \<lparr>ie_get = (\<lambda>_ _ _. Inl (Err ''connection refused'')), ie_decode = (\<lambda>_ raw. (None, raw, None)),
    ie_hits = (\<lambda>_. (None, [])), ie_total = (\<lambda>_. (None, 0)), ie_posts = (\<lambda>_. (None, [])), ie_tags = (\<lambda>_. (None, [])),
    ie_publishers = (\<lambda>_. (None, []))\<rparr>"
  define c where "c = AddIndexer ''http://indexer'' NewIndexerClient"
  define p where "p = \<lparr>p_CID = [1], p_Author = [2], p_Content = ''hi'', p_ReplyTo = None, p_RepostOf = None, p_Timestamp = 0,
    p_Signature = [], p_ReceivedAt = 0\<rparr>"
  define d where "d = \<lparr>di_db = emptyDB\<lparr>posts := [p]\<rparr>, di_client = Some c\<rparr>"
  have c: "ic_known c = [''http://indexer'']" "ic_cacheTTL c = 60000000000" "ic_cache c = []"
    by (simp_all add: c_def AddIndexer_def NewIndexerClient_def defaultIndexerClientCacheTTL_def)
  obtain r d' where run: "GetTrending env 0 0 '''' '''' d = (r, d')" by fastforce
  have "r = Inr ([], [], ''24h'', False) \<and> (\<forall>env' later later'. later \<le> 0 + ic_cacheTTL c \<longrightarrow>
      fst (GetTrending env' later later' '''' '''' d') = Inr ([], [], ''24h'', False))"
  proof (rule trending_never_falls_back [OF _ _ _ _ _ _ _ run])
    show "di_client d = Some c" by (simp add: d_def)
    show "Available c" "silent env c" "0 < ic_cacheTTL c" "map_of (ic_cache c) (trendingKey ''24h'' 20) = None"
      by (simp_all add: Available_def silent_def env_def c)
    show "parseTrendingWindow '''' = Inr ''24h''" "parseBoundedPositiveQueryInt '''' 20 100 = Inr 20" by code_simp+
  qed
  moreover have "posts (di_db d) \<noteq> []" by (simp add: d_def)
  ultimately show ?thesis using run c(2) by (intro exI [of _ env] exI [of _ d] exI [of _ r] exI [of _ d']) simp
qed

end
