(* ===== verification/Hub.thy ===== *)
theory Hub
  imports WebAccess
begin

text \<open>
  The web socket hub (\<open>pkg/api/ws.go\<close>): the table of clients, the channels through which they are sent
  events, and the goroutines around it (upgrades, broadcasts, the read and the write pump of each client,
  the shutdown) as a step relation. A mutex held for writing makes the statements under it one step, which
  waits until no broadcast holds it for reading; a broadcast sends to one client per step. Sending on a
  closed channel and closing it again panic, which ends the process.
\<close>

section \<open>State\<close>

text \<open>
  A client: the buffer of its channel and whether the channel is closed, what its write pump has received
  from it, and whether the pumps run. The connection is closed by the first pump that ends.
\<close>

record wsClient =
  wc_send :: "string list"
  wc_closed :: bool
  wc_taken :: "string list"
  wc_writer :: bool
  wc_reader :: bool
  wc_conn :: bool

text \<open>
  A broadcast: the event and the clients of the table when it locked it, then those it has still to send to
  and the stale ones (\<open>Sending\<close>, under the lock for reading), the stale ones to remove (\<open>Removing\<close>), its end.
\<close>

datatype broadcast =
    Sending string "nat list" "nat list" "nat list"
  | Removing string "nat list" "nat list"
  | Finished string "nat list"

text \<open>The hub, the clients by address, the requests that hold a slot while they upgrade, the broadcasts.\<close>

record WSHub =
  hub_clients :: "nat list"
  hub_pending :: int
  hub_heap :: "nat \<rightharpoonup> wsClient"
  hub_upgrading :: nat
  hub_casts :: "nat \<rightharpoonup> broadcast"

definition wsMaxClients :: int where "wsMaxClients = 256"
definition wsSendBuffer :: nat where "wsSendBuffer = 256"

definition NewWSHub :: WSHub where
  "NewWSHub = \<lparr>hub_clients = [], hub_pending = 0, hub_heap = Map.empty, hub_upgrading = 0, hub_casts = Map.empty\<rparr>"

definition checkOrigin :: "http_env \<Rightarrow> HttpRequest \<Rightarrow> bool" where
  "checkOrigin env r = (let origin = hget r ''Origin'' in origin = '''' \<or> OriginAllowed env r origin)"

definition ClientCount :: "WSHub \<Rightarrow> nat" where
  "ClientCount h = length (hub_clients h)"

section \<open>Slots and registration\<close>

definition reserveSlot :: "(WSHub, bool) go" where
  "reserveSlot = (\<lambda>h.
     if wsMaxClients \<le> int (length (hub_clients h)) + hub_pending h then (Inr False, h)
     else (Inr True, h\<lparr>hub_pending := hub_pending h + 1\<rparr>))"

definition releasePendingSlot :: "(WSHub, unit) go" where
  "releasePendingSlot = modifyE (\<lambda>h. if 0 < hub_pending h then h\<lparr>hub_pending := hub_pending h - 1\<rparr> else h)"

definition newClient :: wsClient where
  "newClient = \<lparr>wc_send = [], wc_closed = False, wc_taken = [], wc_writer = True, wc_reader = True, wc_conn = True\<rparr>"

text \<open>\<open>HandleWebSocket\<close> up to the upgrade, after a failure of it or of the deadline, and after its success.\<close>

definition HandleWebSocket_reserve :: "(WSHub, nat option) go" where
  "HandleWebSocket_reserve = bindE reserveSlot (\<lambda>ok.
     if ok then seqE (modifyE (\<lambda>h. h\<lparr>hub_upgrading := hub_upgrading h + 1\<rparr>)) (retE None) else retE (Some 503))"

definition HandleWebSocket_fail :: "(WSHub, unit) go" where
  "HandleWebSocket_fail = seqE releasePendingSlot (modifyE (\<lambda>h. h\<lparr>hub_upgrading := hub_upgrading h - 1\<rparr>))"

definition HandleWebSocket_register :: "nat \<Rightarrow> (WSHub, unit) go" where
  "HandleWebSocket_register c = modifyE (\<lambda>h. h\<lparr>hub_pending := hub_pending h - 1, hub_clients := hub_clients h @ [c],
     hub_heap := (hub_heap h)(c \<mapsto> newClient), hub_upgrading := hub_upgrading h - 1\<rparr>)"

section \<open>Channels\<close>

text \<open>\<open>select\<close> of a send with a default: whether there was room; and \<open>close\<close>.\<close>

definition trySend :: "nat \<Rightarrow> string \<Rightarrow> (WSHub, bool) go" where
  "trySend c data = (\<lambda>h. case hub_heap h c of
      None \<Rightarrow> (Inl (Panic ''nil pointer dereference''), h)
    | Some w \<Rightarrow>
        if wc_closed w then (Inl (Panic ''send on closed channel''), h)
        else if length (wc_send w) < wsSendBuffer
          then (Inr True, h\<lparr>hub_heap := (hub_heap h)(c \<mapsto> w\<lparr>wc_send := wc_send w @ [data]\<rparr>)\<rparr>)
        else (Inr False, h))"

definition closeSend :: "nat \<Rightarrow> (WSHub, unit) go" where
  "closeSend c = (\<lambda>h. case hub_heap h c of
      None \<Rightarrow> (Inl (Panic ''nil pointer dereference''), h)
    | Some w \<Rightarrow>
        if wc_closed w then (Inl (Panic ''close of closed channel''), h)
        else (Inr (), h\<lparr>hub_heap := (hub_heap h)(c \<mapsto> w\<lparr>wc_closed := True\<rparr>)\<rparr>))"

definition dropClient :: "nat \<Rightarrow> WSHub \<Rightarrow> WSHub" where
  "dropClient c h = h\<lparr>hub_clients := removeAll c (hub_clients h)\<rparr>"

section \<open>Broadcast, shutdown, pumps\<close>

text \<open>One client of the range, and the removal of the stale clients.\<close>

definition Broadcast_send :: "nat \<Rightarrow> string \<Rightarrow> nat list \<Rightarrow> nat \<Rightarrow> nat list \<Rightarrow> nat list \<Rightarrow> (WSHub, unit) go" where
  "Broadcast_send i data all c todo stale = bindE (trySend c data) (\<lambda>sent.
     modifyE (\<lambda>h. h\<lparr>hub_casts := (hub_casts h)(i \<mapsto> Sending data all todo (if sent then stale else stale @ [c]))\<rparr>))"

definition Broadcast_unlock :: "nat \<Rightarrow> string \<Rightarrow> nat list \<Rightarrow> nat list \<Rightarrow> (WSHub, unit) go" where
  "Broadcast_unlock i data all stale = modifyE (\<lambda>h. h\<lparr>hub_casts := (hub_casts h)(i \<mapsto>
     (if stale = [] then Finished data all else Removing data all stale))\<rparr>)"

fun removeStale :: "nat list \<Rightarrow> (WSHub, unit) go" where
  "removeStale [] = retE ()"
| "removeStale (c # cs) = seqE
     (bindE (getE (\<lambda>h. c \<in> set (hub_clients h))) (\<lambda>registered.
        if registered then seqE (closeSend c) (modifyE (dropClient c)) else retE ()))
     (removeStale cs)"

definition Broadcast_remove :: "nat \<Rightarrow> string \<Rightarrow> nat list \<Rightarrow> nat list \<Rightarrow> (WSHub, unit) go" where
  "Broadcast_remove i data all stale = seqE (removeStale stale)
     (modifyE (\<lambda>h. h\<lparr>hub_casts := (hub_casts h)(i \<mapsto> Finished data all)\<rparr>))"

definition closeConn :: "nat \<Rightarrow> WSHub \<Rightarrow> WSHub" where
  "closeConn c h = h\<lparr>hub_heap := (hub_heap h)(c := map_option (\<lambda>w. w\<lparr>wc_conn := False\<rparr>) (hub_heap h c))\<rparr>"

fun closeAll :: "nat list \<Rightarrow> (WSHub, unit) go" where
  "closeAll [] = retE ()"
| "closeAll (c # cs) = seqE (modifyE (closeConn c)) (seqE (closeSend c) (seqE (modifyE (dropClient c)) (closeAll cs)))"

text \<open>
  \<open>Close\<close> also writes a close frame to each connection, before it closes it, and drops the result. The frame is
  none of the events and not part of the state here, and neither is the rule of the web socket library that a
  connection has one writer at a time, which this write and a turn of the write pump can break together.
\<close>

definition Hub_Close :: "(WSHub, unit) go" where
  "Hub_Close = bindE (getE hub_clients) closeAll"

text \<open>
  One turn of the write pump: a message, whose write succeeds or not; the closed channel, after what it
  still holds; a ping that fails. A ping that succeeds changes nothing. The pump waits at an empty channel.
\<close>

definition writePump_turn :: "bool \<Rightarrow> wsClient \<Rightarrow> wsClient" where
  "writePump_turn written w = (case wc_send w of
      m # ms \<Rightarrow> (let w' = w\<lparr>wc_send := ms, wc_taken := wc_taken w @ [m]\<rparr> in
        if written \<and> wc_conn w then w' else w'\<lparr>wc_writer := False, wc_conn := False\<rparr>)
    | [] \<Rightarrow> if wc_closed w \<or> \<not> written then w\<lparr>wc_writer := False, wc_conn := False\<rparr> else w)"

definition writePump :: "nat \<Rightarrow> bool \<Rightarrow> (WSHub, unit) go" where
  "writePump c written = modifyE (\<lambda>h. h\<lparr>hub_heap := (hub_heap h)(c := map_option (writePump_turn written) (hub_heap h c))\<rparr>)"

definition readPump_exit :: "nat \<Rightarrow> (WSHub, unit) go" where
  "readPump_exit c = modifyE (\<lambda>h. (dropClient c h)\<lparr>hub_heap := (hub_heap h)(c := map_option
     (\<lambda>w. w\<lparr>wc_reader := False, wc_conn := False\<rparr>) (hub_heap h c))\<rparr>)"

section \<open>Steps\<close>

definition unread :: "WSHub \<Rightarrow> bool" where
  "unread h \<longleftrightarrow> (\<forall>i data all todo stale. hub_casts h i \<noteq> Some (Sending data all todo stale))"

text \<open>What a step leads to: the state, or \<open>None\<close> after a panic.\<close>

definition ends :: "(WSHub, 'a) go \<Rightarrow> WSHub \<Rightarrow> WSHub option" where
  "ends m h = (case m h of (Inl _, _) \<Rightarrow> None | (Inr _, h') \<Rightarrow> Some h')"

inductive hubStep :: "WSHub \<Rightarrow> WSHub option \<Rightarrow> bool" where
  reserve: "unread h \<Longrightarrow> hubStep h (ends HandleWebSocket_reserve h)"
| upgradeFails: "unread h \<Longrightarrow> 0 < hub_upgrading h \<Longrightarrow> hubStep h (ends HandleWebSocket_fail h)"
| upgraded: "unread h \<Longrightarrow> 0 < hub_upgrading h \<Longrightarrow> hub_heap h c = None \<Longrightarrow> hubStep h (ends (HandleWebSocket_register c) h)"
| broadcast: "hub_casts h i = None \<Longrightarrow> mset all = mset (hub_clients h) \<Longrightarrow>
    hubStep h (Some (h\<lparr>hub_casts := (hub_casts h)(i \<mapsto> Sending data all all [])\<rparr>))"
| send: "hub_casts h i = Some (Sending data all (c # todo) stale) \<Longrightarrow>
    hubStep h (ends (Broadcast_send i data all c todo stale) h)"
| unlock: "hub_casts h i = Some (Sending data all [] stale) \<Longrightarrow> hubStep h (ends (Broadcast_unlock i data all stale) h)"
| remove: "unread h \<Longrightarrow> hub_casts h i = Some (Removing data all stale) \<Longrightarrow>
    hubStep h (ends (Broadcast_remove i data all stale) h)"
| pump: "hub_heap h c = Some w \<Longrightarrow> wc_writer w \<Longrightarrow> hubStep h (ends (writePump c written) h)"
| disconnect: "unread h \<Longrightarrow> hub_heap h c = Some w \<Longrightarrow> wc_reader w \<Longrightarrow> hubStep h (ends (readPump_exit c) h)"
| shutdown: "unread h \<Longrightarrow> hubStep h (ends Hub_Close h)"

inductive hubReachable :: "WSHub \<Rightarrow> bool" where
  init: "hubReachable NewWSHub"
| step: "hubReachable h \<Longrightarrow> hubStep h (Some h') \<Longrightarrow> hubReachable h'"

end
