(* ===== verification/HubProps.thy ===== *)
theory HubProps
  imports Hub
begin

text \<open>
  The hub of web sockets never panics, holds at most 256 clients and upgrades together, and a broadcast
  reaches every client that is connected when it starts, or the client is disconnected.
\<close>

section \<open>Invariants\<close>

definition tableOk :: "WSHub \<Rightarrow> bool" where
  "tableOk h \<longleftrightarrow> distinct (hub_clients h) \<and> int (length (hub_clients h)) + hub_pending h \<le> wsMaxClients \<and>
     hub_pending h = int (hub_upgrading h) \<and>
     (\<forall>c\<in>set (hub_clients h). \<exists>w. hub_heap h c = Some w \<and> \<not> wc_closed w) \<and>
     (\<forall>c w. hub_heap h c = Some w \<longrightarrow> length (wc_send w) \<le> wsSendBuffer)"

text \<open>What went through the channel of a client.\<close>

definition got :: "WSHub \<Rightarrow> nat \<Rightarrow> string \<Rightarrow> bool" where
  "got h c data \<longleftrightarrow> (\<exists>w. hub_heap h c = Some w \<and> data \<in> set (wc_taken w @ wc_send w))"

fun castOk :: "WSHub \<Rightarrow> broadcast \<Rightarrow> bool" where
  "castOk h (Sending data all todo stale) \<longleftrightarrow> set all \<subseteq> dom (hub_heap h) \<and> set todo \<subseteq> set (hub_clients h) \<and>
     (\<forall>c\<in>set all. c \<in> set todo \<or> c \<in> set stale \<or> got h c data)"
| "castOk h (Removing data all stale) \<longleftrightarrow> set all \<subseteq> dom (hub_heap h) \<and> (\<forall>c\<in>set all. c \<in> set stale \<or> got h c data)"
| "castOk h (Finished data all) \<longleftrightarrow> set all \<subseteq> dom (hub_heap h) \<and> (\<forall>c\<in>set all. c \<notin> set (hub_clients h) \<or> got h c data)"

definition hubInv :: "WSHub \<Rightarrow> bool" where
  "hubInv h \<longleftrightarrow> tableOk h \<and> (\<forall>i k. hub_casts h i = Some k \<longrightarrow> castOk h k)"

text \<open>What later states have of earlier ones: no address and no event is lost, no client comes back.\<close>

definition later :: "WSHub \<Rightarrow> WSHub \<Rightarrow> bool" where
  "later h h' \<longleftrightarrow> (\<forall>c w. hub_heap h c = Some w \<longrightarrow> (\<exists>w'. hub_heap h' c = Some w' \<and>
      set (wc_taken w @ wc_send w) \<subseteq> set (wc_taken w' @ wc_send w')) \<and>
      (c \<in> set (hub_clients h') \<longrightarrow> c \<in> set (hub_clients h)))"

lemma later_refl [simp]: "later h h"
  by (simp add: later_def)

lemma later_trans [trans]: "later h h' \<Longrightarrow> later h' h'' \<Longrightarrow> later h h''"
  unfolding later_def by (meson order_trans)

lemma later_got: "later h h' \<Longrightarrow> got h c data \<Longrightarrow> got h' c data"
  unfolding later_def got_def by blast

lemma later_dom: "later h h' \<Longrightarrow> dom (hub_heap h) \<subseteq> dom (hub_heap h')"
  unfolding later_def by blast

lemma castOk_later:
  assumes "castOk h k" "later h h'" "(\<forall>data all todo stale. k \<noteq> Sending data all todo stale) \<or> hub_clients h' = hub_clients h"
  shows "castOk h' k"
proof (cases k)
  case (Sending data all todo stale)
  then show ?thesis using assms order_trans [OF _ later_dom [OF assms(2)], of "set all"] later_got [OF assms(2)] by auto
next
  case (Removing data all stale)
  then show ?thesis using assms order_trans [OF _ later_dom [OF assms(2)], of "set all"] later_got [OF assms(2)] by auto
next
  case (Finished data all)
  then have "c \<notin> set (hub_clients h') \<or> got h' c data" if "c \<in> set all" for c
    using that assms(1,2) later_got [OF assms(2)] by (auto simp: later_def dom_def)
  then show ?thesis using Finished assms(1) order_trans [OF _ later_dom [OF assms(2)], of "set all"] by auto
qed

lemma hubInv_later:
  assumes "hubInv h" "tableOk h'" "later h h'" "hub_casts h' = hub_casts h"
    "unread h \<or> hub_clients h' = hub_clients h"
  shows "hubInv h'"
  unfolding hubInv_def
proof (intro conjI allI impI)
  fix i k
  assume "hub_casts h' i = Some k"
  then have k: "hub_casts h i = Some k" by (simp add: assms(4))
  have "castOk h k" using assms(1) k by (simp add: hubInv_def)
  moreover have "(\<forall>data all todo stale. k \<noteq> Sending data all todo stale) \<or> hub_clients h' = hub_clients h"
    using assms(5) k unfolding unread_def by metis
  ultimately show "castOk h' k" by (rule castOk_later [OF _ assms(3)])
qed (rule assms(2))

lemma hubInvD: "hubInv h \<Longrightarrow> hub_casts h i = Some k \<Longrightarrow> castOk h k"
  by (simp add: hubInv_def)

lemma hubInv_cast:
  assumes "hubInv h" "castOk h k"
  shows "hubInv (h\<lparr>hub_casts := (hub_casts h)(i \<mapsto> k)\<rparr>)"
proof -
  have same: "castOk (h\<lparr>hub_casts := f\<rparr>) k' = castOk h k'" for f k' by (cases k') (simp_all add: got_def)
  show ?thesis using assms by (auto simp: hubInv_def tableOk_def same)
qed

section \<open>The operations\<close>

lemma trySend_ok:
  assumes "tableOk h" "c \<in> set (hub_clients h)"
  obtains b h' where "trySend c data h = (Inr b, h')" "tableOk h'" "later h h'" "hub_clients h' = hub_clients h"
    "hub_casts h' = hub_casts h" "b \<Longrightarrow> got h' c data"
proof -
  obtain w where w: "hub_heap h c = Some w" "\<not> wc_closed w" using assms by (auto simp: tableOk_def)
  show thesis
  proof (cases "length (wc_send w) < wsSendBuffer")
    case True
    show ?thesis
      by (rule that [of True "h\<lparr>hub_heap := (hub_heap h)(c \<mapsto> w\<lparr>wc_send := wc_send w @ [data]\<rparr>)\<rparr>"])
        (use assms w True in \<open>auto simp: trySend_def tableOk_def later_def got_def\<close>)
  next
    case False
    show ?thesis by (rule that [of False h]) (use assms w False in \<open>auto simp: trySend_def\<close>)
  qed
qed

definition calm :: "nat set \<Rightarrow> WSHub \<Rightarrow> WSHub \<Rightarrow> bool" where
  "calm cs h h' \<longleftrightarrow> tableOk h' \<and> later h h' \<and> hub_casts h' = hub_casts h \<and> set (hub_clients h') = set (hub_clients h) - cs"

lemma calm_trans: "calm cs h h' \<Longrightarrow> calm ds h' h'' \<Longrightarrow> calm (cs \<union> ds) h h''"
  unfolding calm_def using later_trans by auto

lemma removeAll_bounds: "distinct xs \<Longrightarrow> distinct (removeAll c xs)" "length (removeAll c xs) \<le> length xs"
  by (simp_all add: removeAll_filter_not_eq)

lemma drop_ok:
  assumes "tableOk h" "c \<in> set (hub_clients h)"
  shows "\<exists>h'. seqE (closeSend c) (modifyE (dropClient c)) h = (Inr (), h') \<and> calm {c} h h'"
proof -
  obtain w where w: "hub_heap h c = Some w" "\<not> wc_closed w" using assms by (auto simp: tableOk_def)
  define h' where "h' = dropClient c (h\<lparr>hub_heap := (hub_heap h)(c \<mapsto> w\<lparr>wc_closed := True\<rparr>)\<rparr>)"
  have "seqE (closeSend c) (modifyE (dropClient c)) h = (Inr (), h')"
    using w by (simp add: run_seqE closeSend_def h'_def)
  moreover have "int (length (removeAll c (hub_clients h))) + hub_pending h \<le> wsMaxClients"
    using assms(1) removeAll_bounds(2) [of c "hub_clients h"] unfolding tableOk_def by linarith
  then have "calm {c} h h'" using assms(1) w
    by (auto simp: calm_def tableOk_def later_def h'_def dropClient_def removeAll_bounds(1))
  ultimately show ?thesis by blast
qed

lemma removeStale_ok: "tableOk h \<Longrightarrow> \<exists>h'. removeStale cs h = (Inr (), h') \<and> calm (set cs) h h'"
proof (induction cs arbitrary: h)
  case Nil
  then show ?case by (simp add: calm_def)
next
  case (Cons c cs)
  have "\<exists>h1. bindE (getE (\<lambda>h. c \<in> set (hub_clients h))) (\<lambda>registered.
        if registered then seqE (closeSend c) (modifyE (dropClient c)) else retE ()) h = (Inr (), h1) \<and> calm {c} h h1"
  proof (cases "c \<in> set (hub_clients h)")
    case True
    then show ?thesis using drop_ok [OF Cons.prems] by (simp add: run_bindE)
  next
    case False
    then show ?thesis using Cons.prems by (simp add: run_bindE calm_def)
  qed
  then obtain h1 where h1: "bindE (getE (\<lambda>h. c \<in> set (hub_clients h))) (\<lambda>registered.
        if registered then seqE (closeSend c) (modifyE (dropClient c)) else retE ()) h = (Inr (), h1)" "calm {c} h h1" by blast
  with Cons.IH [of h1] obtain h2 where "removeStale cs h1 = (Inr (), h2)" "calm (set cs) h1 h2" by (auto simp: calm_def)
  with h1 calm_trans [OF h1(2)] show ?case by auto
qed

lemma closeConn_calm: "tableOk h \<Longrightarrow> calm {} h (closeConn c h)"
  by (auto simp: calm_def tableOk_def later_def closeConn_def split: if_splits)

lemma closeAll_ok:
  "tableOk h \<Longrightarrow> set cs \<subseteq> set (hub_clients h) \<Longrightarrow> distinct cs \<Longrightarrow> \<exists>h'. closeAll cs h = (Inr (), h') \<and> calm (set cs) h h'"
proof (induction cs arbitrary: h)
  case Nil
  then show ?case by (simp add: calm_def)
next
  case (Cons c cs)
  note c = closeConn_calm [OF Cons.prems(1), of c]
  have "c \<in> set (hub_clients (closeConn c h))" using Cons.prems(2) by (simp add: closeConn_def)
  with drop_ok [of "closeConn c h" c] c obtain h2 where
    h2: "seqE (closeSend c) (modifyE (dropClient c)) (closeConn c h) = (Inr (), h2)" "calm {c} (closeConn c h) h2"
    by (auto simp: calm_def)
  note h2' = calm_trans [OF c h2(2), simplified]
  with Cons.IH [of h2] Cons.prems(2,3) obtain h3 where h3: "closeAll cs h2 = (Inr (), h3)" "calm (set cs) h2 h3"
    by (auto simp: calm_def)
  have "closeAll (c # cs) h = closeAll cs h2"
    using h2(1) by (auto simp: run_seqE split: sum.splits prod.splits)
  with h3 calm_trans [OF h2' h3(2)] show ?case by auto
qed

section \<open>Steps\<close>

lemma reserve_inv:
  assumes "hubInv h" "HandleWebSocket_reserve h = (r, h')"
  shows "(\<exists>x. r = Inr x) \<and> hubInv h'"
proof (cases "wsMaxClients \<le> int (length (hub_clients h)) + hub_pending h")
  case True
  then show ?thesis using assms by (auto simp: HandleWebSocket_reserve_def reserveSlot_def run_simps)
next
  case False
  have "tableOk h'" using assms False by (auto simp: HandleWebSocket_reserve_def reserveSlot_def run_simps hubInv_def tableOk_def)
  then have "hubInv h'"
    using assms False by (intro hubInv_later [OF assms(1)])
      (auto simp: HandleWebSocket_reserve_def reserveSlot_def run_simps later_def)
  then show ?thesis using assms False by (auto simp: HandleWebSocket_reserve_def reserveSlot_def run_simps)
qed

lemma fail_inv:
  assumes "hubInv h" "0 < hub_upgrading h" "HandleWebSocket_fail h = (r, h')"
  shows "(\<exists>x. r = Inr x) \<and> hubInv h'"
proof -
  have h': "r = Inr ()" "h' = h\<lparr>hub_pending := hub_pending h - 1, hub_upgrading := hub_upgrading h - 1\<rparr>"
    using assms by (auto simp: HandleWebSocket_fail_def releasePendingSlot_def run_simps hubInv_def tableOk_def)
  have "tableOk h'" using assms(1,2) by (auto simp: h' hubInv_def tableOk_def)
  then have "hubInv h'" by (rule hubInv_later [OF assms(1)]) (simp_all add: h' later_def)
  then show ?thesis using h' by simp
qed

lemma register_inv:
  assumes "hubInv h" "unread h" "0 < hub_upgrading h" "hub_heap h c = None" "HandleWebSocket_register c h = (r, h')"
  shows "(\<exists>x. r = Inr x) \<and> hubInv h'"
proof -
  have h': "r = Inr ()" "h' = h\<lparr>hub_pending := hub_pending h - 1, hub_clients := hub_clients h @ [c],
     hub_heap := (hub_heap h)(c \<mapsto> newClient), hub_upgrading := hub_upgrading h - 1\<rparr>"
    using assms(5) by (auto simp: HandleWebSocket_register_def)
  have "c \<notin> set (hub_clients h)" using assms(1,4) by (auto simp: hubInv_def tableOk_def)
  then have "tableOk h'" using assms(1,3) by (auto simp: h' hubInv_def tableOk_def newClient_def)
  then have "hubInv h'" by (rule hubInv_later [OF assms(1)]) (use assms(2,4) in \<open>auto simp: h' later_def\<close>)
  then show ?thesis using h' by simp
qed

lemma send_inv:
  assumes "hubInv h" "hub_casts h i = Some (Sending data all (c # todo) stale)" "Broadcast_send i data all c todo stale h = (r, h')"
  shows "(\<exists>x. r = Inr x) \<and> hubInv h'"
proof -
  have cast: "castOk h (Sending data all (c # todo) stale)" by (rule hubInvD [OF assms(1,2)])
  then have "c \<in> set (hub_clients h)" by simp
  with assms(1) obtain b h1 where t: "trySend c data h = (Inr b, h1)" "tableOk h1" "later h h1" "hub_clients h1 = hub_clients h"
    "hub_casts h1 = hub_casts h" "b \<Longrightarrow> got h1 c data" using trySend_ok [of h c data] by (metis hubInv_def)
  have inv: "hubInv h1" by (rule hubInv_later [OF assms(1) t(2,3,5)]) (simp add: t(4))
  have "castOk h1 (Sending data all (c # todo) stale)" by (rule castOk_later [OF cast t(3)]) (simp add: t(4))
  then have "castOk h1 (Sending data all todo (if b then stale else stale @ [c]))" using t(6) by auto
  from hubInv_cast [OF inv this] show ?thesis using assms(3) by (auto simp: Broadcast_send_def run_bindE t(1,5))
qed

lemma unlock_inv:
  assumes "hubInv h" "hub_casts h i = Some (Sending data all [] stale)" "Broadcast_unlock i data all stale h = (r, h')"
  shows "(\<exists>x. r = Inr x) \<and> hubInv h'"
proof -
  have cast: "castOk h (Sending data all [] stale)" by (rule hubInvD [OF assms(1,2)])
  then have "castOk h (if stale = [] then Finished data all else Removing data all stale)" by auto
  from hubInv_cast [OF assms(1) this] show ?thesis using assms(3) by (auto simp: Broadcast_unlock_def)
qed

lemma remove_inv:
  assumes "hubInv h" "unread h" "hub_casts h i = Some (Removing data all stale)" "Broadcast_remove i data all stale h = (r, h')"
  shows "(\<exists>x. r = Inr x) \<and> hubInv h'"
proof -
  have cast: "castOk h (Removing data all stale)" by (rule hubInvD [OF assms(1,3)])
  have "tableOk h" using assms(1) by (simp add: hubInv_def)
  then obtain h1 where h1: "removeStale stale h = (Inr (), h1)" "calm (set stale) h h1" using removeStale_ok by blast
  have inv: "hubInv h1" by (rule hubInv_later [OF assms(1)]) (use h1(2) assms(2) in \<open>simp_all add: calm_def\<close>)
  have "castOk h1 (Removing data all stale)" by (rule castOk_later [OF cast]) (use h1(2) in \<open>simp_all add: calm_def\<close>)
  then have "castOk h1 (Finished data all)" using h1(2) by (auto simp: calm_def)
  from hubInv_cast [OF inv this] show ?thesis using assms(4) h1 by (auto simp: Broadcast_remove_def calm_def)
qed

lemma pump_inv:
  assumes "hubInv h" "writePump c written h = (r, h')"
  shows "(\<exists>x. r = Inr x) \<and> hubInv h'"
proof -
  have h': "r = Inr ()" "h' = h\<lparr>hub_heap := (hub_heap h)(c := map_option (writePump_turn written) (hub_heap h c))\<rparr>"
    using assms(2) by (auto simp: writePump_def)
  have turn: "set (wc_taken (writePump_turn written w) @ wc_send (writePump_turn written w)) = set (wc_taken w @ wc_send w)"
    "wc_closed (writePump_turn written w) = wc_closed w" "length (wc_send (writePump_turn written w)) \<le> length (wc_send w)" for w
    by (auto simp: writePump_turn_def Let_def split: list.splits)
  have "tableOk h'" using assms(1) turn(2) order_trans [OF turn(3)] by (fastforce simp: h' hubInv_def tableOk_def)
  moreover have "later h h'" using turn(1) by (fastforce simp: h' later_def)
  ultimately have "hubInv h'" by (rule hubInv_later [OF assms(1)]) (simp_all add: h')
  then show ?thesis using h' by simp
qed

lemma exit_inv:
  assumes "hubInv h" "unread h" "readPump_exit c h = (r, h')"
  shows "(\<exists>x. r = Inr x) \<and> hubInv h'"
proof -
  have h': "r = Inr ()" "h' = (dropClient c h)\<lparr>hub_heap := (hub_heap h)(c := map_option
     (\<lambda>w. w\<lparr>wc_reader := False, wc_conn := False\<rparr>) (hub_heap h c))\<rparr>"
    using assms(3) by (auto simp: readPump_exit_def)
  have "int (length (removeAll c (hub_clients h))) + hub_pending h \<le> wsMaxClients"
    using assms(1) removeAll_bounds(2) [of c "hub_clients h"] unfolding hubInv_def tableOk_def by linarith
  then have "tableOk h'" using assms(1) by (auto simp: h' hubInv_def tableOk_def dropClient_def removeAll_bounds(1) split: if_splits)
  moreover have "later h h'" by (auto simp: h' later_def dropClient_def)
  ultimately have "hubInv h'" by (rule hubInv_later [OF assms(1)]) (simp_all add: h' dropClient_def assms(2))
  then show ?thesis using h' by simp
qed

lemma close_inv:
  assumes "hubInv h" "unread h" "Hub_Close h = (r, h')"
  shows "(\<exists>x. r = Inr x) \<and> hubInv h'"
proof -
  have ok: "tableOk h" using assms(1) by (simp add: hubInv_def)
  then obtain h1 where h1: "closeAll (hub_clients h) h = (Inr (), h1)" "calm (set (hub_clients h)) h h1"
    using closeAll_ok [of h "hub_clients h"] by (auto simp: tableOk_def)
  have "hubInv h1" by (rule hubInv_later [OF assms(1)]) (use h1(2) assms(2) in \<open>simp_all add: calm_def\<close>)
  then show ?thesis using assms(3) h1(1) by (simp add: Hub_Close_def run_bindE)
qed

lemma ends_inv: "(\<And>r h'. m h = (r, h') \<Longrightarrow> (\<exists>x. r = Inr x) \<and> hubInv h') \<Longrightarrow> \<exists>h'. ends m h = Some h' \<and> hubInv h'"
  by (cases "m h") (fastforce simp: ends_def split: sum.splits)

lemma hubStep_inv: "hubStep h r \<Longrightarrow> hubInv h \<Longrightarrow> \<exists>h'. r = Some h' \<and> hubInv h'"
proof (induction rule: hubStep.induct)
  case (broadcast h i all data)
  have "castOk h (Sending data all all [])"
    using mset_eq_setD [OF broadcast.hyps(2)] broadcast.prems by (auto simp: hubInv_def tableOk_def)
  from hubInv_cast [OF broadcast.prems this] show ?case by simp
qed (rule ends_inv, rule reserve_inv fail_inv register_inv send_inv unlock_inv remove_inv pump_inv exit_inv close_inv, assumption+)+

lemma hubReachable_inv: "hubReachable h \<Longrightarrow> hubInv h"
proof (induction rule: hubReachable.induct)
  case init
  then show ?case by (simp add: hubInv_def tableOk_def NewWSHub_def wsMaxClients_def)
next
  case (step h h')
  then show ?case using hubStep_inv by blast
qed

text \<open>
  C34. However upgrades, broadcasts, the pumps of the clients and the shutdown interleave, no step panics:
  nothing is sent on a closed channel and no channel is closed twice. At most 256 clients and upgrades hold
  a slot, and every slot that is pending belongs to an upgrade under way.
\<close>

theorem hub_never_panics:
  assumes "hubReachable h"
  shows "\<not> hubStep h None \<and> ClientCount h + hub_upgrading h \<le> 256 \<and> hub_pending h = int (hub_upgrading h) \<and>
    distinct (hub_clients h)"
  using hubReachable_inv [OF assms] hubStep_inv [of h None]
  by (auto simp: hubInv_def tableOk_def wsMaxClients_def ClientCount_def)

text \<open>
  C35. A broadcast loses no client: when it has ended, its event is in the channel of every client that was
  connected when it started, or was taken from it to be written, or the client is no longer connected.
\<close>

theorem broadcast_reaches_clients:
  assumes "hubReachable h" "hub_casts h i = Some (Finished data all)" "c \<in> set all"
  shows "c \<notin> set (hub_clients h) \<or> (\<exists>w. hub_heap h c = Some w \<and> data \<in> set (wc_taken w @ wc_send w))"
  using hubReachable_inv [OF assms(1)] assms(2,3) by (fastforce simp: hubInv_def got_def)

lemma hub_run:
  "\<exists>h. hubReachable h \<and> hub_casts h 0 = Some (Finished ''hi'' [0]) \<and> hub_clients h = [0]"
proof -
  define h1 where "h1 = NewWSHub\<lparr>hub_pending := 1, hub_upgrading := 1\<rparr>"
  define h2 where "h2 = h1\<lparr>hub_pending := 0, hub_upgrading := 0, hub_clients := [0], hub_heap := [0 \<mapsto> newClient]\<rparr>"
  define h3 where "h3 = h2\<lparr>hub_casts := [0 \<mapsto> Sending ''hi'' [0] [0] []]\<rparr>"
  define h4 where "h4 = h3\<lparr>hub_heap := [0 \<mapsto> newClient\<lparr>wc_send := [''hi'']\<rparr>], hub_casts := [0 \<mapsto> Sending ''hi'' [0] [] []]\<rparr>"
  define h5 where "h5 = h4\<lparr>hub_casts := [0 \<mapsto> Finished ''hi'' [0]]\<rparr>"
  have "hubStep NewWSHub (Some h1)"
    using hubStep.reserve [of NewWSHub]
    by (simp add: unread_def NewWSHub_def ends_def HandleWebSocket_reserve_def reserveSlot_def wsMaxClients_def run_simps h1_def)
  then have "hubReachable h1" by (rule hubReachable.step [OF hubReachable.init])
  moreover have "hubStep h1 (Some h2)"
    using hubStep.upgraded [of h1 0]
    by (simp add: unread_def NewWSHub_def ends_def HandleWebSocket_register_def h1_def h2_def)
  ultimately have "hubReachable h2" by (rule hubReachable.step)
  moreover have "hubStep h2 (Some h3)"
    using hubStep.broadcast [of h2 0 "[0]" "''hi''"] by (simp add: NewWSHub_def h1_def h2_def h3_def)
  ultimately have "hubReachable h3" by (rule hubReachable.step)
  moreover have "hubStep h3 (Some h4)"
    using hubStep.send [of h3 0 "''hi''" "[0]" 0 "[]" "[]"]
    by (simp add: h1_def h2_def h3_def h4_def ends_def Broadcast_send_def trySend_def run_bindE newClient_def wsSendBuffer_def)
  ultimately have "hubReachable h4" by (rule hubReachable.step)
  moreover have "hubStep h4 (Some h5)"
    using hubStep.unlock [of h4 0 "''hi''" "[0]" "[]"] by (simp add: h4_def h5_def ends_def Broadcast_unlock_def)
  ultimately have "hubReachable h5" by (rule hubReachable.step)
  then show ?thesis by (intro exI [of _ h5]) (simp add: h5_def h4_def h3_def h2_def)
qed

lemma hub_never_panics_witness:
  "\<exists>h. hubReachable h \<and> hub_clients h = [0] \<and> \<not> hubStep h None \<and> ClientCount h + hub_upgrading h \<le> 256"
  using hub_run hub_never_panics by blast

lemma broadcast_reaches_clients_witness:
  "\<exists>h w. hubReachable h \<and> hub_clients h = [0] \<and> hub_heap h 0 = Some w \<and> ''hi'' \<in> set (wc_taken w @ wc_send w)"
proof -
  obtain h where h: "hubReachable h" "hub_casts h 0 = Some (Finished ''hi'' [0])" "hub_clients h = [0]" using hub_run by blast
  from broadcast_reaches_clients [OF h(1,2), of 0] h show ?thesis by auto
qed

end
