(* ===== verification/ConfigProps.thy ===== *)
theory ConfigProps
  imports Config FeedProps
begin

text \<open>
  Properties of the configuration: an update through the interface is applied as a whole or not at all, an
  accepted one is safe, the file is replaced atomically, and the conversion of the storage limit to bytes
  wraps around.
\<close>

section \<open>Updates\<close>

text \<open>What no update may change, and the ranges that the checks of the fields establish.\<close>

definition sameFixed :: "Config \<Rightarrow> Config \<Rightarrow> bool" where
  "sameFixed c c' \<longleftrightarrow> nc_DataDir (cf_Node c') = nc_DataDir (cf_Node c) \<and> nc_Mode (cf_Node c') = nc_Mode (cf_Node c) \<and>
     wc_ListenAddresses (cf_Network c') = wc_ListenAddresses (cf_Network c) \<and>
     wc_RelayAddresses (cf_Network c') = wc_RelayAddresses (cf_Network c) \<and>
     ac_ListenAddress (cf_API c') = ac_ListenAddress (cf_API c) \<and>
     cf_PassphraseMinLength c' = cf_PassphraseMinLength c \<and> lc_File (cf_Logging c') = lc_File (cf_Logging c)"

definition rangesOk :: "Config \<Rightarrow> bool" where
  "rangesOk c \<longleftrightarrow> 1 \<le> wc_MaxPeers (cf_Network c) \<and> 0 \<le> wc_BandwidthLimitMbps (cf_Network c) \<and>
     1 \<le> mc_MaxUploadSizeMB (cf_Media c) \<and> 10 \<le> mc_ThumbnailQuality (cf_Media c) \<and> mc_ThumbnailQuality (cf_Media c) \<le> 100 \<and>
     lc_Level (cf_Logging c) \<in> {''debug'', ''info'', ''warn'', ''error''}"

definition exposureOk :: "http_env \<Rightarrow> bool \<Rightarrow> Config \<Rightarrow> bool" where
  "exposureOk env token c \<longleftrightarrow> (ac_EnableWebUI (cf_API c) \<longrightarrow>
     isLoopbackListenAddress env (ac_ListenAddress (cf_API c)) \<or> token \<and> ac_AllowRemoteWebUI (cf_API c))"

lemma optField_keeps: "(\<And>v. field = Inr (Some v) \<Longrightarrow> keeps I (assign v)) \<Longrightarrow> keeps I (optField field assign)"
  unfolding optField_def keeps_def by (auto simp: run_bindE split: sum.splits option.splits)

lemma checkNext_keeps: "keeps I (checkNext f)"
  by (auto simp: keeps_def checkNext_def split: option.splits)

lemma logLevel_cases:
  "optionalLogLevelField updates key = Inr (Some l) \<Longrightarrow> l \<in> {''debug'', ''info'', ''warn'', ''error''}"
  by (auto simp: optionalLogLevelField_def Let_def split: option.splits jsonValue.splits if_splits)

lemma keeps_ifc: "(b \<Longrightarrow> keeps I m) \<Longrightarrow> (\<not> b \<Longrightarrow> keeps I k) \<Longrightarrow> keeps I (if b then m else k)"
  by simp

lemmas update_keeps = keeps_seqE keeps_bindE keeps_retE keeps_throwE keeps_liftE keeps_ifc optField_keeps checkNext_keeps keeps_modifyE

lemmas set_cfg_defs = setNodeCfg_def setNetworkCfg_def setAPICfg_def setMediaCfg_def

lemma applyUpdates_fixed: "keeps (\<lambda>(c, _). sameFixed c0 c) (applyUpdates env token updates)"
  unfolding applyUpdates_def checkUpdated_def set_cfg_defs Let_def
  by (intro update_keeps; force simp: sameFixed_def)

lemma applyUpdates_range: "keeps (\<lambda>(c, _). rangesOk c) (applyUpdates env token updates)"
  unfolding applyUpdates_def checkUpdated_def set_cfg_defs Let_def
  by (intro update_keeps; (drule logLevel_cases)?; force simp: rangesOk_def)

section \<open>The file\<close>

text \<open>\<open>nodeIs p n\<close>: the node at \<open>p\<close>. The calls on other paths keep it.\<close>

definition nodeIs :: "path \<Rightarrow> fnode option \<Rightarrow> fs \<Rightarrow> bool" where
  "nodeIs p n s \<longleftrightarrow> node s p = n"

lemma nodeIs_step [simp]: "nodeIs p n (s\<lparr>fs_step := k\<rparr>) = nodeIs p n s"
  by (simp add: nodeIs_def)

lemma keeps_nodeIs_read [keeps_intro]:
  "keeps (nodeIs p n) (osStat q)" "keeps (nodeIs p n) (osOpen q)" "keeps (nodeIs p n) fileSync" "keeps (nodeIs p n) fileClose"
  unfolding osStat_def osOpen_def fileSync_def fileClose_def
  by (auto intro!: keeps_callE keeps_intro split: option.splits)

lemma keeps_nodeIs_dirs:
  assumes "q \<noteq> p"
  shows "keeps (nodeIs p n) (osChmod q mode)" "keeps (nodeIs p n) (osMkdir mode q)" "keeps (nodeIs p n) (osRemove q)"
  unfolding osChmod_def osMkdir_def osRemove_def using assms
  by (auto simp: keeps_def sysE_def nodeIs_def Let_def run_bindE split: option.splits fnode.splits if_splits)

lemma keeps_nodeIs_osMkdirAll:
  assumes "length q < length p"
  shows "keeps (nodeIs p n) (osMkdirAll q mode)"
proof -
  have "keeps (nodeIs p n) (forE (osMkdir mode) (map (\<lambda>k. take k q) ks))" for ks
  proof (induction ks)
    case (Cons k ks)
    have "take k q \<noteq> p" using assms by (metis length_take min.strict_coboundedI1 order.irrefl)
    then have "keeps (nodeIs p n) (osMkdir mode (take k q))" by (rule keeps_nodeIs_dirs(2))
    with Cons show ?case by (auto intro: keeps_intro)
  qed (simp only: list.map forE.simps keeps_retE)
  then show ?thesis by (simp add: osMkdirAll_def)
qed

lemma keeps_nodeIs_sync [keeps_intro]: "keeps (nodeIs p n) (config_syncDirectory q)"
  unfolding config_syncDirectory_def by (intro keeps_intro)

lemma keeps_nodeIs_ensure:
  assumes "length q < length p"
  shows "keeps (nodeIs p n) (ensurePrivateDir q)"
  unfolding ensurePrivateDir_def using assms
  by (auto intro!: keeps_intro keeps_nodeIs_osMkdirAll keeps_nodeIs_dirs split: option.splits fnode.splits)

definition tempFile :: "path \<Rightarrow> fnode option \<Rightarrow> path \<Rightarrow> fnode \<Rightarrow> fs \<Rightarrow> bool" where
  "tempFile p old t n s \<longleftrightarrow> nodeIs p old s \<and> t \<noteq> p \<and> node s t = Some n"

lemma save_temp:
  assumes "p \<noteq> []"
  shows "triple (nodeIs p old) (osCreateTemp (butlast p) (last p)) (\<lambda>t. tempFile p old t (FFile 384 [])) (nodeIs p old)"
proof -
  have "butlast p @ [last p @ ''.tmp-'' @ x] \<noteq> p" for x
  proof
    assume "butlast p @ [last p @ ''.tmp-'' @ x] = p"
    then have "last (butlast p @ [last p @ ''.tmp-'' @ x]) = last p" by (rule arg_cong)
    then show False by simp
  qed
  then show ?thesis
    unfolding osCreateTemp_def
    by - (rule triple_sysE, auto simp: triple_def tempFile_def nodeIs_def Let_def split: option.splits fnode.splits if_splits, metis)
qed

lemma save_chmod:
  "triple (tempFile p old t (FFile m d)) (osChmod t mode) (\<lambda>_. tempFile p old t (FFile mode d)) (nodeIs p old)"
  unfolding osChmod_def by (rule triple_sysE) (auto simp: triple_def tempFile_def run_bindE nodeIs_def)

lemma save_write:
  "triple (tempFile p old t (FFile m [])) (bindE (liftE r) (fileWrite t)) (\<lambda>_ s. \<exists>d. r = Inr d \<and> tempFile p old t (FFile m d) s)
     (nodeIs p old)"
proof (cases r)
  case (Inl e)
  then show ?thesis by (auto simp: triple_def tempFile_def run_bindE)
next
  case (Inr d)
  have "triple (tempFile p old t (FFile m [])) (fileWrite t d) (\<lambda>_. tempFile p old t (FFile m d)) (nodeIs p old)"
    unfolding fileWrite_def by (rule triple_sysE) (auto simp: triple_def tempFile_def nodeIs_def appendFile_def)
  with Inr show ?thesis by (simp add: triple_def run_bindE)
qed

lemma save_noop:
  "triple (\<lambda>s. \<exists>d. r = Inr d \<and> tempFile p old t (FFile m d) s) (callE (retE ()))
     (\<lambda>_ s. \<exists>d. r = Inr d \<and> tempFile p old t (FFile m d) s) (nodeIs p old)"
  by (rule triple_sysE) (auto simp: triple_def tempFile_def nodeIs_def)

lemma save_rename:
  "triple (\<lambda>s. \<exists>d. r = Inr d \<and> tempFile p old t (FFile m d) s) (osRename t p)
     (\<lambda>_ s. \<exists>d. r = Inr d \<and> t \<noteq> p \<and> nodeIs p (Some (FFile m d)) s) (nodeIs p old)"
  unfolding osRename_def
  by (rule triple_sysE) (auto simp: triple_def tempFile_def nodeIs_def split: option.splits fnode.splits)

definition savedIs :: "goerr + bytes \<Rightarrow> path \<Rightarrow> fs \<Rightarrow> bool" where
  "savedIs r p s \<longleftrightarrow> (\<exists>d m. r = Inr d \<and> nodeIs p (Some (FFile m d)) s)"

lemma keeps_savedIs: "(\<And>n. keeps (nodeIs p n) f) \<Longrightarrow> keeps (savedIs r p) f"
  unfolding keeps_def savedIs_def by blast

lemma SaveConfig_triple:
  assumes "p \<noteq> []"
  shows "triple (nodeIs p old) (SaveConfig encode c p) (\<lambda>_. savedIs (encode c) p)
    (\<lambda>s. nodeIs p old s \<or> savedIs (encode c) p s)"
proof -
  let ?E = "\<lambda>s. nodeIs p old s \<or> savedIs (encode c) p s"
  have err: "triple P m Q (nodeIs p old) \<Longrightarrow> triple P m Q ?E" for P Q and m :: "(fs, 'b) go"
    by (erule triple_conseq) auto
  have keepE: "keeps ?E (osRemove t)" "keeps (savedIs (encode c) p) (osRemove t)" if "t \<noteq> p" for t
    using keeps_nodeIs_dirs(3) [OF that] unfolding keeps_def savedIs_def by blast+
  have dir: "length (butlast p) < length p" using assms by simp
  have inner: "triple (tempFile p old t (FFile 384 []))
      (seqE (wrapE w1 (osChmod t mode)) (seqE (wrapE w2 (bindE (liftE (encode c)) (fileWrite t))) (seqE (wrapE w3 fileSync)
        (seqE (wrapE w4 fileClose) (seqE (wrapE w5 (osRename t p)) (wrapE w6 (config_syncDirectory q)))))))
      (\<lambda>_. savedIs (encode c) p) ?E" for t mode w1 w2 w3 w4 w5 w6 q
    unfolding fileSync_def fileClose_def
    by (rule triple_seqE [OF triple_wrapE [OF err [OF save_chmod]]],
        rule triple_seqE [OF triple_wrapE [OF err [OF save_write]]],
        rule triple_seqE [OF triple_wrapE [OF err [OF save_noop]]],
        rule triple_seqE [OF triple_wrapE [OF err [OF save_noop]]],
        rule triple_seqE [OF triple_wrapE [OF err [OF save_rename]]],
        rule triple_wrapE, rule triple_conseq [OF triple_keeps [OF keeps_savedIs [OF keeps_nodeIs_sync]]])
       (auto simp: savedIs_def)
  have body: "triple (tempFile p old t (FFile 384 [])) (deferE m (osRemove t)) (\<lambda>_. savedIs (encode c) p) ?E"
    if "triple (tempFile p old t (FFile 384 [])) m (\<lambda>_. savedIs (encode c) p) ?E" for t and m :: "(fs, unit) go"
  proof (cases "t = p")
    case True
    then show ?thesis by (simp add: triple_def tempFile_def)
  next
    case False
    show ?thesis by (rule triple_deferE [OF that keepE(2) [OF False] keepE(1) [OF False]])
  qed
  have keep: "triple (nodeIs p old) m (\<lambda>_. nodeIs p old) ?E" if "keeps (nodeIs p old) m" for m :: "(fs, 'b) go"
    by (rule err [OF triple_keeps [OF that]])
  have mode: "keeps (nodeIs p old) (configFileMode p)"
    unfolding configFileMode_def by (auto intro!: keeps_intro split: option.splits fnode.splits)
  show ?thesis
    unfolding SaveConfig_def resolveSavePath_def Let_def
  proof (rule triple_bindE [where R = "\<lambda>q s. q = p \<and> nodeIs p old s"])
    show "triple (nodeIs p old) (wrapE ''failed to inspect config path'' (bindE (osStat p) (\<lambda>_. retE p)))
        (\<lambda>q s. q = p \<and> nodeIs p old s) ?E"
      by (rule triple_wrapE, rule triple_bindE [OF keep [OF keeps_nodeIs_read(1)]]) (auto intro: triple_retE)
    fix q
    show "triple (\<lambda>s. q = p \<and> nodeIs p old s)
       (seqE (wrapE ''failed to create config directory'' (ensurePrivateDir (butlast q)))
         (bindE (configFileMode q) (\<lambda>mode.
           bindE (wrapE ''failed to create temp config file'' (osCreateTemp (butlast q) (last q))) (\<lambda>tempPath.
             deferE (seqE (wrapE ''failed to set config file permissions'' (osChmod tempPath mode))
              (seqE (wrapE ''failed to encode config'' (bindE (liftE (encode c)) (fileWrite tempPath)))
              (seqE (wrapE ''failed to sync config file'' fileSync)
              (seqE (wrapE ''failed to close config file'' fileClose)
              (seqE (wrapE ''failed to replace config file'' (osRename tempPath q))
                (wrapE ''failed to sync config directory'' (config_syncDirectory (butlast q))))))))
              (osRemove tempPath))))) (\<lambda>_. savedIs (encode c) p) ?E"
    proof (cases "q = p")
      case True
      show ?thesis
        unfolding True simp_thms
        by (rule triple_seqE [OF keep [OF keeps_wrapE [OF keeps_nodeIs_ensure [OF dir]]]],
          rule triple_bindE [OF keep [OF mode]], rule triple_bindE [OF triple_wrapE [OF err [OF save_temp [OF assms]]]],
          rule body, rule inner)
    qed (simp add: triple_def)
  qed
qed

section \<open>The handler\<close>

lemma checkNext_InrD: "checkNext f s = (Inr u, s') \<Longrightarrow> s' = s \<and> f (fst s) = None"
  by (cases s) (auto simp: checkNext_def split: option.splits)

lemma seqE_okD: "seqE m k s = (Inr y, s'') \<Longrightarrow> \<exists>s'. m s = (Inr (), s') \<and> k s' = (Inr y, s'')"
  unfolding seqE_def by (drule bindE_InrD) simp

lemma seqE_lastE:
  assumes "seqE (m :: ('s, unit) go) k s = (Inr y, s'')" "\<And>s'. k s' = (Inr y, s'') \<Longrightarrow> P"
  shows P
proof -
  from seqE_okD [OF assms(1)] obtain s' where "k s' = (Inr y, s'')" by (elim exE conjE)
  then show P by (rule assms(2))
qed

lemma applyUpdates_checked:
  assumes "applyUpdates env token updates (c0, b0) = (Inr (), (c, b))"
  shows "dom updates \<subseteq> set allowedNodeConfigUpdateKeys \<and> exposureOk (ce_http env) token c \<and> ValidateStorageLimit c = None"
proof -
  let ?web = "\<lambda>c. validateWebUIConfig (ce_http env) (ac_ListenAddress (cf_API c)) token (ac_EnableWebUI (cf_API c)) (ac_AllowRemoteWebUI (cf_API c))"
  have keys: "validateAllowedUpdateKeys updates allowedNodeConfigUpdateKeys"
    using seqE_okD [OF assms [unfolded applyUpdates_def]] by (auto split: if_splits)
  have "\<exists>s1. checkUpdated env token s1 = (Inr (), (c, b))"
    using assms unfolding applyUpdates_def by - ((erule seqE_lastE)+, erule exI)
  then obtain s1 where s1: "seqE (checkNext ?web) (checkNext ValidateStorageLimit) s1 = (Inr (), (c, b))"
    by (auto simp: checkUpdated_def)
  from seqE_okD [OF s1] obtain s2 where s2: "checkNext ?web s1 = (Inr (), s2)" "checkNext ValidateStorageLimit s2 = (Inr (), (c, b))"
    by auto
  from checkNext_InrD [OF s2(1)] checkNext_InrD [OF s2(2)] have "?web c = None" "ValidateStorageLimit c = None" by auto
  with keys show ?thesis
    by (auto simp: validateWebUIConfig_def exposureOk_def validateAllowedUpdateKeys_def split: if_splits)
qed

text \<open>
  C36. An update of the configuration over the interface is all or nothing: unless it is answered with 200, the
  configuration in memory, the indexers that are asked and the storage limit are as before, and after 400 so is
  the disk. After 200 the node still does not serve the web interface beyond the loopback interface without a
  token and the permission of the owner, has a valid storage limit, and has kept every setting that is not
  among those that may be updated; numbers and levels that were in range still are.
\<close>

theorem config_update_all_or_nothing:
  assumes "UpdateNodeConfig env token cfgPath updates s = (Inr status, s')"
  shows "(status = 400 \<and> s' = s) \<or> (status = 500 \<and> (\<exists>disk. s' = s\<lparr>ns_fs := disk\<rparr>)) \<or>
    (status = 200 \<and> dom updates \<subseteq> set allowedNodeConfigUpdateKeys \<and> exposureOk (ce_http env) token (ns_cfg s') \<and>
     ValidateStorageLimit (ns_cfg s') = None \<and> sameFixed (ns_cfg s) (ns_cfg s') \<and>
     (rangesOk (ns_cfg s) \<longrightarrow> rangesOk (ns_cfg s')))"
proof (cases "applyUpdates env token updates (ns_cfg s, False)")
  case (fields r next' b)
  show ?thesis
  proof (cases r)
    case (Inl e)
    then show ?thesis using assms fields by (simp add: UpdateNodeConfig_def)
  next
    case (Inr u)
    have run: "applyUpdates env token updates (ns_cfg s, False) = (Inr (), (next', b))" using fields Inr by simp
    have fixed: "sameFixed (ns_cfg s) next'"
      using keepsD [OF applyUpdates_fixed [of "ns_cfg s"] _ run] by (simp add: sameFixed_def)
    have ranges: "rangesOk (ns_cfg s) \<longrightarrow> rangesOk next'"
      using keepsD [OF applyUpdates_range _ run] by simp
    obtain r2 disk where save: "(case cfgPath of None \<Rightarrow> (Inr (), ns_fs s) | Some p \<Rightarrow> SaveConfig (ce_encode env) next' p (ns_fs s)) = (r2, disk)"
      by fastforce
    show ?thesis
    proof (cases r2)
      case (Inl e)
      then have "status = 500 \<and> s' = s\<lparr>ns_fs := disk\<rparr>" using assms by (simp add: UpdateNodeConfig_def run save)
      then show ?thesis by blast
    next
      case (Inr u')
      then have "status = 200 \<and> ns_cfg s' = next'" using assms by (auto simp: UpdateNodeConfig_def run save)
      then show ?thesis using fixed ranges applyUpdates_checked [OF run] by simp
    qed
  qed
qed

text \<open>
  Whatever call to the system fails, at whatever point, the file of the configuration is the one before the
  update or the complete encoding of the updated configuration, and the latter if the update is answered
  with 200.
\<close>

theorem config_file_replaced_atomically:
  assumes "p \<noteq> []" "UpdateNodeConfig env token (Some p) updates s = (Inr status, s')"
  shows "node (ns_fs s') p = node (ns_fs s) p \<and> status \<noteq> 200 \<or>
    (\<exists>c b d mode. applyUpdates env token updates (ns_cfg s, False) = (Inr (), (c, b)) \<and> ce_encode env c = Inr d \<and>
       node (ns_fs s') p = Some (FFile mode d))"
proof (cases "applyUpdates env token updates (ns_cfg s, False)")
  case (fields r c b)
  show ?thesis
  proof (cases r)
    case (Inl e)
    then show ?thesis using assms fields by (simp add: UpdateNodeConfig_def)
  next
    case (Inr u)
    have run: "applyUpdates env token updates (ns_cfg s, False) = (Inr (), (c, b))" using fields Inr by simp
    obtain r' disk where save: "SaveConfig (ce_encode env) c p (ns_fs s) = (r', disk)" by fastforce
    note tr = SaveConfig_triple [OF assms(1), of "node (ns_fs s) p" "ce_encode env" c]
    have start: "nodeIs p (node (ns_fs s) p) (ns_fs s)" by (simp add: nodeIs_def)
    show ?thesis
    proof (cases r')
      case (Inl e)
      from tripleD_Inl [OF tr start] save Inl have "nodeIs p (node (ns_fs s) p) disk \<or> savedIs (ce_encode env c) p disk" by simp
      moreover have "status = 500 \<and> ns_fs s' = disk" using assms(2) Inl by (auto simp: UpdateNodeConfig_def run save)
      ultimately show ?thesis using run by (auto simp: nodeIs_def savedIs_def)
    next
      case (Inr u')
      from tripleD_Inr [OF tr start] save Inr have "savedIs (ce_encode env c) p disk" by simp
      moreover have "status = 200 \<and> ns_fs s' = disk" using assms(2) Inr by (auto simp: UpdateNodeConfig_def run save)
      ultimately show ?thesis using run by (auto simp: nodeIs_def savedIs_def)
    qed
  qed
qed

section \<open>The storage limit\<close>

lemma int64_wraps: "2 ^ 63 \<le> x \<Longrightarrow> x < 2 ^ 64 \<Longrightarrow> signed_take_bit 63 (x :: int) = x - 2 ^ 64"
proof -
  assume x: "2 ^ 63 \<le> x" "x < 2 ^ 64"
  have "(x + 2 ^ 63) mod 2 ^ 64 = (x + 2 ^ 63 - 2 ^ 64) mod 2 ^ 64" by (rule minus_mod_self2 [symmetric])
  also have "\<dots> = x + 2 ^ 63 - 2 ^ 64" using x by (intro mod_pos_pos_trivial) simp_all
  finally show ?thesis by (simp add: signed_take_bit_eq_take_bit_shift take_bit_eq_mod)
qed

lemma MaxStorageBytes_wraps:
  assumes "2 ^ 33 \<le> nc_MaxStorageGB (cf_Node c)" "nc_MaxStorageGB (cf_Node c) \<le> 2 ^ 34"
  shows "MaxStorageBytes c \<le> 0"
proof (cases "nc_MaxStorageGB (cf_Node c) = 2 ^ 34")
  case True
  then show ?thesis by (simp add: MaxStorageBytes_def signed_take_bit_eq_take_bit_shift take_bit_eq_mod)
next
  case False
  with assms have "signed_take_bit 63 (nc_MaxStorageGB (cf_Node c) * 1024 * 1024 * 1024)
      = nc_MaxStorageGB (cf_Node c) * 1024 * 1024 * 1024 - 2 ^ 64"
    by (intro int64_wraps) auto
  with assms show ?thesis by (simp add: MaxStorageBytes_def)
qed

text \<open>
  A storage limit of 2^33 to 2^34 gigabytes passes the validation of the node in either mode, but its number
  of bytes wraps around to a negative number or zero, so that the replicator is left with a limit of zero. Its
  next round, when no system call and no statement fails and the access rows are as the schema has them, returns
  and ends only with an empty store, with no unpinned row left, or after a round in which every row it deleted
  was of content gone or empty (see \<open>eviction_makes_room\<close>). Beyond 2^34 gigabytes the product wraps to
  positive numbers again.
\<close>

theorem huge_storage_limit_evicts:
  assumes "2 ^ 33 \<le> nc_MaxStorageGB (cf_Node c)" "nc_MaxStorageGB (cf_Node c) \<le> 2 ^ 34"
    "calm n" "target 0 \<le> 0"
  shows "ValidateStorageLimit c = None \<and>
    (\<exists>n'. checkAndEvict target (SetStorageLimit (MaxStorageBytes c)) n = (Inr (), n') \<and> evicted 0 n')"
proof -
  have zero: "SetStorageLimit (MaxStorageBytes c) = 0"
    using MaxStorageBytes_wraps [OF assms(1,2)] by (auto simp: SetStorageLimit_def)
  obtain n' where "evictLoop (target 0) (casSize n) n = (Inr (), n')" "evicted (target 0) n'"
    using evictLoop_run [OF assms(3) refl] by blast
  moreover have "evicted 0 n'" using calculation(2) assms(4) by (auto simp: evicted_def)
  moreover have "casSize n \<le> 0 \<Longrightarrow> evicted 0 n" by (simp add: evicted_def)
  ultimately have "\<exists>n'. checkAndEvict target 0 n = (Inr (), n') \<and> evicted 0 n'"
    by (cases "casSize n \<le> 0") (auto simp: checkAndEvict_def)
  then show ?thesis using assms(1) unfolding zero
    by (simp add: ValidateStorageLimit_def ValidateStorageLimitForMode_def MinRequiredStorageGBForMode_def MinUserStorageGB_def)
qed

section \<open>Examples\<close>

definition exampleConfigEnv :: config_env where
  "exampleConfigEnv = \<lparr>ce_http = \<lparr>he_ParseIP = (\<lambda>h. if h = ''127.0.0.1'' then Some (replicate 10 0 @ [255, 255, 127, 0, 0, 1]) else None),
       he_ParseURL = (\<lambda>_. None), he_QueryEscape = (\<lambda>s. s), he_authPage = (\<lambda>n e. n @ e), he_iter = (\<lambda>m. m),
       he_CleanURL = (\<lambda>p q. p), he_muxConnect = (\<lambda>r. writeHeader 404)\<rparr>,
     ce_encode = (\<lambda>c. Inr [1]), ce_int = (\<lambda>n. n), ce_multiaddr = (\<lambda>_. True), ce_ParseRequestURI = (\<lambda>_. None)\<rparr>"

definition exampleSettings :: NodeSettings where
  "exampleSettings = \<lparr>ns_cfg = DefaultConfig (Inr []), ns_fs = exampleFs, ns_client = None, ns_limit = Some 0\<rparr>"

lemma example_loopback: "isLoopbackListenAddress (ce_http exampleConfigEnv) ''127.0.0.1:7470''"
  by code_simp

lemma example_apply:
  "applyUpdates exampleConfigEnv False [''enable_relay'' \<mapsto> JBool False] (ns_cfg exampleSettings, False) =
     (Inr (), ((ns_cfg exampleSettings)\<lparr>cf_Network := cf_Network (ns_cfg exampleSettings)\<lparr>wc_EnableRelay := False\<rparr>\<rparr>, False))"
  using example_loopback
  by (simp add: applyUpdates_def optField_def optionalIntField_def optionalBoolField_def optionalStringSliceField_def
    optionalLogLevelField_def validateAllowedUpdateKeys_def allowedNodeConfigUpdateKeys_def checkUpdated_def checkNext_def
    set_cfg_defs run_simps exampleSettings_def DefaultConfig_def validateWebUIConfig_def ValidateStorageLimit_def
    ValidateStorageLimitForMode_def MinRequiredStorageGBForMode_def MinUserStorageGB_def)

lemma example_save:
  "\<exists>s'. SaveConfig (\<lambda>_. Inr [1]) c [''cas'', ''config.toml''] exampleFs = (Inr (), s')"
  by (simp add: SaveConfig_def resolveSavePath_def ensurePrivateDir_def configFileMode_def osStat_def osChmod_def osCreateTemp_def
    fileWrite_def fileSync_def fileClose_def osRename_def osRemove_def config_syncDirectory_def osOpen_def sysE_def run_simps
    deferE_def exampleFs_def node_def setNode_def delNode_def appendFile_def Let_def)

lemma example_update:
  "\<exists>s'. UpdateNodeConfig exampleConfigEnv False (Some [''cas'', ''config.toml'']) [''enable_relay'' \<mapsto> JBool False] exampleSettings
     = (Inr 200, s') \<and> \<not> wc_EnableRelay (cf_Network (ns_cfg s'))"
proof -
  have fs: "ns_fs exampleSettings = exampleFs" "ce_encode exampleConfigEnv = (\<lambda>_. Inr [1])"
    by (simp_all add: exampleSettings_def exampleConfigEnv_def)
  obtain s' where "SaveConfig (\<lambda>_. Inr [1]) ((ns_cfg exampleSettings)\<lparr>cf_Network := cf_Network (ns_cfg exampleSettings)\<lparr>wc_EnableRelay := False\<rparr>\<rparr>)
      [''cas'', ''config.toml''] exampleFs = (Inr (), s')" using example_save by blast
  then show ?thesis by (simp add: UpdateNodeConfig_def example_apply fs)
qed

lemma config_update_all_or_nothing_witness:
  "\<exists>s'. UpdateNodeConfig exampleConfigEnv False (Some [''cas'', ''config.toml'']) [''enable_relay'' \<mapsto> JBool False] exampleSettings
     = (Inr 200, s') \<and> exposureOk (ce_http exampleConfigEnv) False (ns_cfg s') \<and> sameFixed (ns_cfg exampleSettings) (ns_cfg s')"
proof -
  obtain s' where run: "UpdateNodeConfig exampleConfigEnv False (Some [''cas'', ''config.toml'']) [''enable_relay'' \<mapsto> JBool False] exampleSettings
     = (Inr 200, s')" using example_update by blast
  from config_update_all_or_nothing [OF run] run show ?thesis by auto
qed

lemma config_file_replaced_atomically_witness:
  "\<exists>s' mode. UpdateNodeConfig exampleConfigEnv False (Some [''cas'', ''config.toml'']) [''enable_relay'' \<mapsto> JBool False] exampleSettings
     = (Inr 200, s') \<and> node (ns_fs s') [''cas'', ''config.toml''] = Some (FFile mode [1])"
proof -
  obtain s' where run: "UpdateNodeConfig exampleConfigEnv False (Some [''cas'', ''config.toml'']) [''enable_relay'' \<mapsto> JBool False] exampleSettings
     = (Inr 200, s')" using example_update by blast
  have "ce_encode exampleConfigEnv c = Inr [1]" for c by (simp add: exampleConfigEnv_def)
  with config_file_replaced_atomically [OF _ run] run show ?thesis by auto
qed

lemma huge_storage_limit_evicts_witness:
  "\<exists>c n n'. nc_MaxStorageGB (cf_Node c) = 2 ^ 33 \<and> nc_Mode (cf_Node c) = ''user'' \<and> ValidateStorageLimit c = None \<and>
     casSize n = 4 \<and> checkAndEvict (\<lambda>m. m * 85 div 100) (SetStorageLimit (MaxStorageBytes c)) n = (Inr (), n') \<and> evicted 0 n'"
proof -
  define c where "c = (DefaultConfig (Inr []))\<lparr>cf_Node := \<lparr>nc_DataDir = '''', nc_Mode = ''user'', nc_MaxStorageGB = 2 ^ 33\<rparr>\<rparr>"
  have "calm fullNode" by (simp add: calm_def fullNode_def exampleNode_def emptyDB_def exampleFs_def nofault_def)
  moreover have gb: "nc_MaxStorageGB (cf_Node c) = 2 ^ 33" "nc_Mode (cf_Node c) = ''user''" by (simp_all add: c_def)
  ultimately obtain n' where "ValidateStorageLimit c = None"
    "checkAndEvict (\<lambda>m. m * 85 div 100) (SetStorageLimit (MaxStorageBytes c)) fullNode = (Inr (), n')"
    "evicted 0 n'"
    using huge_storage_limit_evicts [of c fullNode "\<lambda>m. m * 85 div 100"] by auto
  moreover have "casSize fullNode = 4"
    by (simp add: casSize_def DirSize_def fullNode_def exampleNode_def objPath_def)
  ultimately show ?thesis using gb by blast
qed

end
