(* ===== verification/MediaProps.thy ===== *)
theory MediaProps
  imports MediaServe ExchangeProps
begin

text \<open>
  The properties of the media uploads and of the media served: what a staged file holds, what becomes of it
  when the body is refused later, and the types that uploads can have.
\<close>

section \<open>Staging\<close>

definition isFilePart :: "mpPart \<Rightarrow> bool" where
  "isFilePart part \<longleftrightarrow> pt_FormName part = ''file'' \<and> pt_FileName part \<noteq> ''''"

definition fileIs :: "path \<Rightarrow> bytes \<Rightarrow> fs \<Rightarrow> bool" where
  "fileIs p d s \<longleftrightarrow> node s p = Some (FFile 384 d)"

lemma fileIs_step [simp]: "fileIs p d (s\<lparr>fs_step := k\<rparr>) = fileIs p d s"
  by (simp add: fileIs_def)

lemma keeps_fileIs: "keeps (fileIs p d) fileSync" "keeps (fileIs p d) fileClose"
  unfolding fileSync_def fileClose_def by (auto intro!: keeps_callE keeps_intro)

lemma fileWrite_appends:
  assumes "fileWrite p b s = (Inr u, s')" "fileIs p d s"
  shows "fileIs p (d @ b) s'"
  using assms by (auto simp: fileWrite_def sysE_def Let_def appendFile_def fileIs_def split: option.splits)

lemma createUploadFile_new:
  assumes "createUploadFile dir s = (Inr t, s')"
  shows "fileIs t [] s'"
  using assms by (auto simp: createUploadFile_def sysE_def Let_def fileIs_def split: option.splits fnode.splits if_splits)

text \<open>Reading: the file has what was delivered, the size is its length, the sniffed bytes are its first.\<close>

lemma copyReads_content:
  assumes "copyReads limit p bs (int (length d)) (take 512 d) s = (Inr (sz, sniff), s')" "fileIs p d s"
    "int (length d) \<le> limit \<or> d = []"
  shows "fileIs p (d @ concat bs) s' \<and> sz = int (length (d @ concat bs)) \<and> sniff = take 512 (d @ concat bs) \<and>
    (int (length (d @ concat bs)) \<le> limit \<or> d @ concat bs = [])"
  using assms
proof (induction bs arbitrary: d s)
  case (Cons b bs)
  show ?case
  proof (cases "b = []")
    case True
    with Cons.prems(1) have "copyReads limit p bs (int (length d)) (take 512 d) s = (Inr (sz, sniff), s')" by simp
    from Cons.IH [OF this Cons.prems(2,3)] show ?thesis unfolding True concat.simps append_Nil .
  next
    case False
    with Cons.prems(1) have le: "int (length d) + int (length b) \<le> limit"
      by (simp add: throwE_def split: if_splits)
    have sn: "(if length (take 512 d) < 512 then take 512 d @ take (512 - length (take 512 d)) b else take 512 d)
        = take 512 (d @ b)" by auto
    have sz: "int (length d) + int (length b) = int (length (d @ b))" by simp
    have "seqE (wrapE ''write temp upload file'' (fileWrite p b))
        (copyReads limit p bs (int (length (d @ b))) (take 512 (d @ b))) s = (Inr (sz, sniff), s')"
      using Cons.prems(1) False le unfolding copyReads.simps sn sz by (simp only: length_0_conv if_False not_less [symmetric] of_nat_add length_append)
    then obtain s1 where w: "fileWrite p b s = (Inr (), s1)"
      and r: "copyReads limit p bs (int (length (d @ b))) (take 512 (d @ b)) s1 = (Inr (sz, sniff), s')"
      by (auto simp: run_seqE run_wrapE split: prod.splits sum.splits)
    have "int (length (d @ b)) \<le> limit \<or> d @ b = []" using le by simp
    from Cons.IH [OF r fileWrite_appends [OF w Cons.prems(2)] this] show ?thesis by simp
  qed
qed simp

lemma copyPart_content:
  assumes "copyMultipartPartToTempFile env part limit s = (Inr u, s')"
  shows "pt_err part = None \<and> (let d = concat (pt_reads part) in fileIs (su_Path u) d s' \<and> su_Size u = int (length d) \<and>
    su_Sniff u = take 512 d \<and> su_Filename u = pt_FileName part \<and> (int (length d) \<le> limit \<or> d = []))"
proof -
  let ?d = "concat (pt_reads part)"
  have "bindE (wrapE ''create temp upload file'' (createUploadFile (me_temp env))) k s = (Inr u, s') \<Longrightarrow>
      \<exists>t s1. createUploadFile (me_temp env) s = (Inr t, s1) \<and> k t s1 = (Inr u, s')" for k
    by (auto simp: run_wrapE dest!: bindE_InrD split: prod.splits sum.splits)
  from this [OF assms [unfolded copyMultipartPartToTempFile_def]]
  obtain t s1 where c: "createUploadFile (me_temp env) s = (Inr t, s1)" and
    r: "catchE
       (bindE (copyReads limit t (pt_reads part) 0 []) (\<lambda>(sz, sniff).
        seqE (case pt_err part of
            None \<Rightarrow> retE ()
          | Some e \<Rightarrow> throwE (tooLargeOr env e (wrap ''read uploaded file'' e)))
       (seqE (wrapE ''sync temp upload file'' fileSync)
       (seqE (wrapE ''close temp upload file'' fileClose)
         (retE \<lparr>su_Path = t, su_Filename = pt_FileName part, su_Size = sz, su_Sniff = sniff\<rparr>)))))
       (\<lambda>e. seqE (logE fileClose) (seqE (logE (osRemove t)) (throwE e))) s1 = (Inr u, s')" by blast
  have no: "seqE (logE fileClose) (seqE (logE (osRemove t)) (throwE e)) a \<noteq> (Inr (v :: stagedUpload), b)" for e a v b
    by (auto simp: run_seqE throwE_def split: prod.splits sum.splits)
  from r no obtain sz sniff s2 where q: "copyReads limit t (pt_reads part) 0 [] s1 = (Inr (sz, sniff), s2)" and
    w: "seqE (case pt_err part of None \<Rightarrow> retE () | Some e \<Rightarrow> throwE (tooLargeOr env e (wrap ''read uploaded file'' e)))
       (seqE (wrapE ''sync temp upload file'' fileSync)
       (seqE (wrapE ''close temp upload file'' fileClose)
         (retE \<lparr>su_Path = t, su_Filename = pt_FileName part, su_Size = sz, su_Sniff = sniff\<rparr>))) s2 = (Inr u, s')"
    unfolding catchE_def by (auto dest!: bindE_InrD split: prod.splits sum.splits goerr.splits)
  from copyReads_content [of limit t "pt_reads part" "[]" s1 sz sniff s2] q createUploadFile_new [OF c]
  have f: "fileIs t ?d s2" "sz = int (length ?d)" "sniff = take 512 ?d" "int (length ?d) \<le> limit \<or> ?d = []"
    by simp_all
  from w have e: "pt_err part = None" and u: "u = \<lparr>su_Path = t, su_Filename = pt_FileName part, su_Size = sz, su_Sniff = sniff\<rparr>"
    and "\<exists>s3. fileSync s2 = (Inr (), s3) \<and> fileClose s3 = (Inr (), s')"
    by (auto simp: run_seqE run_wrapE throwE_def retE_def split: prod.splits sum.splits option.splits)
  with f keeps_fileIs have "fileIs t ?d s'" by (metis keepsD)
  with e u f show ?thesis by (simp add: Let_def)
qed

text \<open>After the first file part no other one can follow, and the reads of the others leave the file as it is.\<close>

lemma stageParts_staged:
  assumes "stageParts env limit mpEnd parts (Some v) s = (Inr u, s')"
  shows "u = v \<and> s' = s \<and> su_Size u \<noteq> 0 \<and> (\<forall>p\<in>set parts. \<not> isFilePart p)"
  using assms
proof (induction parts)
  case Nil
  then show ?case by (auto simp: throwE_def retE_def split: option.splits if_splits)
next
  case (Cons p parts)
  then show ?case by (auto simp: throwE_def isFilePart_def split: option.splits if_splits)
qed

lemma stageParts_first:
  assumes "stageParts env limit mpEnd parts None s = (Inr u, s')"
  shows "\<exists>part. filter isFilePart parts = [part] \<and> pt_err part = None \<and> (let d = concat (pt_reads part) in
    fileIs (su_Path u) d s' \<and> su_Size u = int (length d) \<and> su_Sniff u = take 512 d \<and> su_Filename u = pt_FileName part \<and>
    d \<noteq> [] \<and> int (length d) \<le> limit)"
  using assms
proof (induction parts)
  case Nil
  then show ?case by (auto simp: throwE_def split: option.splits)
next
  case (Cons p parts)
  show ?case
  proof (cases "isFilePart p")
    case False
    with Cons show ?thesis by (auto simp: isFilePart_def throwE_def split: option.splits)
  next
    case True
    then have "bindE (copyMultipartPartToTempFile env p limit) (\<lambda>v. stageParts env limit mpEnd parts (Some v)) s = (Inr u, s')"
      using Cons.prems by (simp add: isFilePart_def)
    then obtain v s1 where c: "copyMultipartPartToTempFile env p limit s = (Inr v, s1)"
      and r: "stageParts env limit mpEnd parts (Some v) s1 = (Inr u, s')" by (blast dest: bindE_InrD)
    from stageParts_staged [OF r] have "filter isFilePart parts = []" "u = v" "s' = s1" "su_Size v \<noteq> 0" by auto
    with copyPart_content [OF c] True show ?thesis by (auto simp: Let_def)
  qed
qed

text \<open>
  C37. A staged upload is the one file part of the body: the temporary file has exactly the bytes that its
  reads delivered, of a non-zero length within the limit, which is the size that is recorded, and the type is
  found from its first 512 bytes, whatever the sizes of the reads.
\<close>

theorem staged_upload_is_the_part:
  assumes "stageUploadedFile env mp limit s = (Inr u, s')"
  shows "\<exists>part. filter isFilePart (mp_parts mp) = [part] \<and> pt_err part = None \<and> (let d = concat (pt_reads part) in
    node s' (su_Path u) = Some (FFile 384 d) \<and> su_Size u = int (length d) \<and> su_Sniff u = take 512 d \<and>
    su_Filename u = pt_FileName part \<and> d \<noteq> [] \<and> int (length d) \<le> limit)"
proof -
  from assms have "stageParts env limit (mp_end mp) (mp_parts mp) None s = (Inr u, s')"
    by (simp add: stageUploadedFile_def throwE_def split: option.splits)
  from stageParts_first [OF this] show ?thesis unfolding fileIs_def .
qed

section \<open>A body that is refused after its file\<close>

lemma stageParts_idle: "stageParts env limit mpEnd parts (Some v) s = (r, s') \<Longrightarrow> s' = s"
  by (induction parts) (auto simp: throwE_def retE_def split: option.splits if_splits)

text \<open>
  C38. Whatever refuses a body once its file has been staged - a second file, a part that breaks off, an empty
  file - leaves the complete temporary file behind: nothing removes it, since the handler learns the path of
  accepted bodies only.
\<close>

theorem refused_body_leaves_file:
  assumes "mp_open mp = None" "mp_parts mp = part # rest" "isFilePart part"
    "copyMultipartPartToTempFile env part limit s = (Inr u, s')"
    "stageUploadedFile env mp limit s = (Inl e, s'')"
  shows "node s'' (su_Path u) = Some (FFile 384 (concat (pt_reads part)))"
proof -
  from assms have "stageParts env limit (mp_end mp) rest (Some u) s' = (Inl e, s'')"
    by (simp add: stageUploadedFile_def isFilePart_def run_bindE)
  from stageParts_idle [OF this] copyPart_content [OF assms(4)] show ?thesis by (simp add: fileIs_def Let_def)
qed

definition demoMediaEnv :: "unit media_env" where
  "demoMediaEnv = \<lparr>me_decodeConfig = (\<lambda>_. Inl (Err ''image: unknown format'')), me_decode = (\<lambda>_. Inl (Err ''image: unknown format'')),
     me_bounds = (\<lambda>_. (1, 1)), me_scale = (\<lambda>_ _ i. i), me_jpeg = (\<lambda>_ _. Inr []), me_placeholder = (),
     me_tooLarge = (\<lambda>_. False), me_temp = [''tmp'']\<rparr>"

definition demoPart :: mpPart where
  "demoPart = \<lparr>pt_FormName = ''file'', pt_FileName = ''a.mp3'', pt_reads = [[73, 68], [51]], pt_err = None\<rparr>"

definition demoUploadFs :: fs where
  "demoUploadFs = \<lparr>fs_nodes = [([''tmp''], FDir 448)], fs_faults = (\<lambda>_. None), fs_suffix = (\<lambda>_. ''1''), fs_step = 0\<rparr>"

definition demoStagedFs :: fs where
  "demoStagedFs = \<lparr>fs_nodes = [([''tmp''], FDir 448), ([''tmp'', ''xleaks-upload-1''], FFile 384 [73, 68, 51])],
     fs_faults = (\<lambda>_. None), fs_suffix = (\<lambda>_. ''1''), fs_step = 5\<rparr>"

definition demoUpload :: stagedUpload where
  "demoUpload = \<lparr>su_Path = [''tmp'', ''xleaks-upload-1''], su_Filename = ''a.mp3'', su_Size = 3, su_Sniff = [73, 68, 51]\<rparr>"

lemma demo_copy: "copyMultipartPartToTempFile demoMediaEnv demoPart 10 demoUploadFs = (Inr demoUpload, demoStagedFs)"
  by (simp add: copyMultipartPartToTempFile_def createUploadFile_def demoMediaEnv_def demoPart_def demoUploadFs_def demoUpload_def
      demoStagedFs_def sysE_def Let_def node_def setNode_def run_bindE run_seqE run_wrapE fileWrite_def appendFile_def fileSync_def
      fileClose_def catchE_def)

definition demoBody :: "mpPart list \<Rightarrow> multipart" where
  "demoBody parts = \<lparr>mp_open = None, mp_parts = parts, mp_end = None\<rparr>"

lemma demo_stage:
  "stageUploadedFile demoMediaEnv (demoBody [demoPart]) 10 demoUploadFs = (Inr demoUpload, demoStagedFs)"
  "stageUploadedFile demoMediaEnv (demoBody [demoPart, demoPart]) 10 demoUploadFs =
     (Inl (Err ''multiple file uploads are not supported''), demoStagedFs)"
  using demo_copy by (simp_all add: stageUploadedFile_def demoBody_def demoPart_def run_bindE) (simp_all add: demoUpload_def)

lemma demo_isFile [simp]: "isFilePart demoPart"
  by (simp add: isFilePart_def demoPart_def)

theorem staged_upload_is_the_part_witness:
  "\<exists>part. filter isFilePart [demoPart] = [part] \<and> node demoStagedFs [''tmp'', ''xleaks-upload-1''] = Some (FFile 384 (concat (pt_reads part)))"
  using staged_upload_is_the_part [OF demo_stage(1)] by (auto simp: demoBody_def demoUpload_def Let_def)

theorem refused_body_leaves_file_witness:
  "node demoStagedFs [''tmp'', ''xleaks-upload-1''] = Some (FFile 384 [73, 68, 51])"
proof -
  from refused_body_leaves_file [OF _ _ demo_isFile demo_copy demo_stage(2)] show ?thesis
    by (simp add: demoBody_def demoUpload_def) (simp add: demoPart_def)
qed

section \<open>WAV and Ogg\<close>

lemma takeWhile_ws: "\<not> isWS b \<Longrightarrow> length (takeWhile isWS (b # bs)) = 0"
  by simp

lemma masks: "replicate 3 c = [c, c, c]" "replicate 4 c = [c, c, c, c]" "replicate 5 c = [c, c, c, c, c]"
  "replicate 8 c = [c, c, c, c, c, c, c, c]"
  by (simp_all add: numeral_eq_Suc)

lemma ogg_detected: "DetectContentType (ascii ''OggS'' @ [0] @ rest) = ''application/ogg''"
proof -
  have "take 512 (ascii ''OggS'' @ [0] @ rest) = 79 # 103 # 103 # 83 # 0 # take 507 rest" by (simp add: ascii_def)
  then show ?thesis unfolding DetectContentType_def Let_def
    by (simp add: takeWhile_ws isWS_def sniffSignatures_def ascii_def riff_def masks binaryByte_def)
qed

lemma wav_detected: "DetectContentType (ascii ''RIFF'' @ [a, b, c, d] @ ascii ''WAVE'' @ rest) = ''audio/wave''"
proof -
  have "take 512 (ascii ''RIFF'' @ [a, b, c, d] @ ascii ''WAVE'' @ rest) = 82 # 73 # 70 # 70 # a # b # c # d # 87 # 65 # 86 # 69 # take 500 rest"
    by (simp add: ascii_def)
  then show ?thesis unfolding DetectContentType_def Let_def
    by (simp add: takeWhile_ws isWS_def sniffSignatures_def ascii_def riff_def masks binaryByte_def)
qed

text \<open>
  Although WAV and Ogg are among the supported media types, no upload of such a file is stored: the type
  found from its signature is audio/wave or application/ogg, which are not in the table, so the handler answers
  400 and does nothing, for every file that starts as a WAV or an Ogg file does.
\<close>

theorem wav_and_ogg_refused:
  "ValidateMediaType ''audio/wav'' = None \<and> ValidateMediaType ''audio/ogg'' = None \<and>
   storeUpload x env h kp (u\<lparr>su_Sniff := ascii ''RIFF'' @ [a, b, c, d] @ ascii ''WAVE'' @ rest\<rparr>) n =
     (Inr (Refused 400 ''unsupported media type''), n) \<and>
   storeUpload x env h kp (u\<lparr>su_Sniff := ascii ''OggS'' @ [0] @ rest\<rparr>) n = (Inr (Refused 400 ''unsupported media type''), n)"
proof -
  have "ValidateMediaType ''audio/wav'' = None" "ValidateMediaType ''audio/ogg'' = None"
    "ValidateMediaType ''audio/wave'' \<noteq> None" "ValidateMediaType ''application/ogg'' \<noteq> None"
    by (simp_all add: ValidateMediaType_def supportedMediaTypes_def)
  then show ?thesis using wav_detected [of a b c d rest] ogg_detected [of rest] by (auto simp: storeUpload_def Let_def)
qed

section \<open>Markup\<close>

lemma script_detected: "DetectContentType (take 512 (ascii ''<script>'' @ rest)) = ''text/html; charset=utf-8''"
proof -
  have "take 512 (take 512 (ascii ''<script>'' @ rest)) = 60 # 115 # 99 # 114 # 105 # 112 # 116 # 62 # take 504 rest" by (simp add: ascii_def)
  then show ?thesis unfolding DetectContentType_def Let_def
    by (simp add: takeWhile_ws isWS_def isTT_def sniffSignatures_def ascii_def)
qed

lemma fsE_run: "fsE m n = (case m (nd_fs n) of (r, s) \<Rightarrow> (r, n\<lparr>nd_fs := s\<rparr>))"
  by (simp add: fsE_def onE_def)

lemma openStored_works:
  assumes "objects n cid = Some d" "cid \<noteq> []" "fs_faults (nd_fs n) = (\<lambda>_. None)"
  shows "\<exists>s. openStoredContent cid n = (Inr \<lparr>cs_data = d, cs_size = int (length d), cs_remove = None\<rparr>, n\<lparr>nd_fs := s\<rparr>) \<and>
    fs_faults s = (\<lambda>_. None)"
proof -
  from assms(1) obtain m where "node (nd_fs n) (objPath (nd_base n) cid) = Some (FFile m d)"
    by (auto simp: objects_def contents_def split: option.splits fnode.splits if_splits)
  with assms(2,3) show ?thesis
    by (intro exI [of _ "nd_fs n\<lparr>fs_step := Suc (Suc (fs_step (nd_fs n)))\<rparr>"])
       (simp add: openStoredContent_def casE_run OpenContent_def objectPath_eq run_bindE run_wrapE osOpen_def sysE_def
        Let_def statOpened_def catchE_def)
qed

text \<open>
  C39. Content of the store without a media row that begins with a script element is served as text/html from
  the origin of the interface, whoever made it: the handler takes whatever type the sniffing finds and looks
  neither at the list of media types nor for a download disposition.
\<close>

theorem stored_markup_served_as_html:
  assumes "objects n cid = Some (ascii ''<script>'' @ rest)" "cid \<noteq> []" "rowOf m_CID cid (media_objects (nd_db n)) = None"
    "db_faults (nd_db n) = (\<lambda>_. None)" "fs_faults (nd_fs n) = (\<lambda>_. None)"
  shows "fst (GetMedia ce tmpDir (EncodeToString cid) n) =
    Inr (Replied 200 (''text/html; charset=utf-8'', ascii ''<script>'' @ rest))"
proof -
  let ?d = "ascii ''<script>'' @ rest"
  let ?src = "\<lparr>cs_data = ?d, cs_size = int (length ?d), cs_remove = None\<rparr>"
  obtain n1 where m: "mediaRow cid n = (Inr None, n1)" and n1: "objects n1 cid = Some ?d" "db_faults (nd_db n1) = (\<lambda>_. None)"
      "fs_faults (nd_fs n1) = (\<lambda>_. None)"
    using assms by (simp add: mediaRow_def okE_def run_bindE dbE_run GetMediaObject_def run_wrapE queryE_def catchE_def tick_def)
  obtain s where o: "openStoredContent cid n1 = (Inr ?src, n1\<lparr>nd_fs := s\<rparr>)" and s: "fs_faults s = (\<lambda>_. None)"
    using openStored_works [OF n1(1) assms(2) n1(3)] by blast
  obtain n2 where c: "openContent ce tmpDir cid n1 = (Inr ?src, n2)" and n2: "fs_faults (nd_fs n2) = (\<lambda>_. None)"
    using o s n1(2) by (simp add: openContent_def tryE_def catchE_def run_bindE run_seqE trackContentAccess_def logE_def
        dbE_run TrackContentAccess_def run_wrapE execE_def tick_def)
  obtain n3 where t: "detectContentType ?src '''' n2 = (Inr ''text/html; charset=utf-8'', n3)"
    using n2 script_detected [of rest] by (simp add: detectContentType_def seekE_def run_seqE fsE_run sysE_def Let_def)
  have "parseHexParam (EncodeToString cid) ''cid'' = Inr cid" using assms(2) by (simp add: parseHexParam_def decodeHexField_def)
  then show ?thesis
    using m c t by (simp add: GetMedia_def orBadRequest_def run_bindE withSource_def orReply_def okE_def catchE_def deferE_def
        whenE_def mimeOf_def)
qed

definition markupNode :: Node where
  "markupNode = exampleNode\<lparr>nd_fs := exampleFs\<lparr>fs_nodes :=
     [(objPath [''cas''] [1], FFile 420 (ascii ''<script>alert(1)</script>''))]\<rparr>\<rparr>"

theorem stored_markup_served_as_html_witness:
  "fst (GetMedia None [''tmp''] (EncodeToString [1]) markupNode) =
     Inr (Replied 200 (''text/html; charset=utf-8'', ascii ''<script>alert(1)</script>''))"
proof -
  have d: "ascii ''<script>alert(1)</script>'' = ascii ''<script>'' @ ascii ''alert(1)</script>''" by (simp add: ascii_def)
  have "objects markupNode [1] = Some (ascii ''<script>'' @ ascii ''alert(1)</script>'')"
    using d by (simp add: markupNode_def exampleNode_def objects_def contents_def node_def)
  from stored_markup_served_as_html [OF this] show ?thesis
    unfolding d by (simp add: markupNode_def exampleNode_def emptyDB_def exampleFs_def nofault_def rowOf_def)
qed

end
