(* ===== verification/Spec2Isabelle.thy ===== *)
theory Spec2Isabelle
  imports Limits Recount Tokens Threads KeystoreProps WebAccessProps GossipProps DiscoveryProps HubProps ConfigProps MediaProps
begin

text \<open>
  A model of xleaks, a peer-to-peer social network node written in Go, with the theorems that make its
  core correct.

  The program. A node keeps a SQLite database (\<open>pkg/storage\<close>) and a content-addressed store on disk
  (\<open>pkg/content/store.go\<close>). Content reaches it in two ways. Peers publish signed messages on libp2p
  topics: each is admitted (\<open>pkg/p2p/ratelimit.go\<close>, \<open>seencache.go\<close>), decoded, validated
  (\<open>pkg/content/validator*.go\<close>), put into the content store, inserted into the database, counted,
  notified and announced (\<open>pkg/p2p/handlers.go\<close>). The owner of the node acts through the services of
  \<open>pkg/social\<close>, which build the same messages, sign them with a key pair of \<open>pkg/identity\<close>, store them
  in transactions and publish them. \<open>pkg/feed\<close> reads the database for the timelines, keeps the
  subscriptions, replicates what is followed, evicts what is not pinned and synchronises with peers
  that were away. The local web interface (\<open>pkg/api\<close>, \<open>pkg/web\<close>) is guarded by rate limits, bearer
  credentials and sessions.

  Which theory models which part, in the order in which they build on one another:

  \<^item> Prelude: bytes, error values (\<open>Err\<close> for a returned error, \<open>Panic\<close> for a run-time panic), the state and
    error monad \<open>go\<close> in which every stateful method is written with the early returns of the code,
    and its two logics: \<open>keeps I m\<close> (an invariant is kept whatever fails) and \<open>triple\<close> (pre- and
    postcondition with an exceptional one). GoLib: the functions of Go's standard library that are used.
  \<^item> Address: \<open>pkg/identity/address.go\<close>. Chunking: \<open>pkg/content/cid.go\<close>, \<open>chunker.go\<close>, \<open>assembler.go\<close>,
    \<open>image_limits.go\<close>. Validators: the six validators with their signing payloads. Identity: key
    pairs, signatures and the encryption of direct messages.
  \<^item> ContentStore: \<open>pkg/content/store.go\<close> and \<open>fileio.go\<close> over a file system in which each system call may
    fail or write only a part. Database, PostsRepo, PeopleRepo, AccessRepo: the tables of
    \<open>pkg/storage/schema.go\<close> as lists of rows with their constraints, and the repositories' statements
    and queries, each of which may fail. StorageInv: the constraints that SQLite enforces, in every database.
  \<^item> Limits: the admission control of gossip and of HTTP requests.
  \<^item> Node: the state of a node in which the components act on one another, and the notification service.
    Handlers: \<open>pkg/p2p/handlers.go\<close>. HandlerInv: the contract between handlers and storage, as a locale,
    and its interpretations. HandlerRuns: what the handlers achieve when nothing fails.
  \<^item> Feed, FeedProps: \<open>pkg/feed\<close>. Social, SocialProps: \<open>pkg/social\<close>. Threads: the comment threads of
    \<open>pkg/social/threads.go\<close> and the recursive query under them.
  \<^item> Exchange, ExchangeProps: the exchange of content between peers (\<open>pkg/p2p/bitswap.go\<close>,
    \<open>bitswap_fetch.go\<close>, \<open>bitswap_serve.go\<close>): both ends of the protocol as functions on streams that may
    break at any byte, and the calls under way as a step relation (\<open>fetchStep\<close>) in which they interleave.
  \<^item> LocalWriters: the pages and HTTP handlers that write rows themselves, without a signature
    (\<open>pkg/web/partials.go\<close>, \<open>handler.go\<close>, \<open>onboarding.go\<close>, \<open>pkg/api/handlers/identity.go\<close>, \<open>profile.go\<close>).
  \<^item> System: sequences of operations of all these parts, one after the other in any order, from an empty
    database. Recount: the statements of concurrent messages and requests on posts, reactions and their counts,
    one by one in any order (\<open>pkg/p2p/pubsub.go\<close> reads each topic in a goroutine of its own).
  \<^item> Listings: the alphabetical listing of profiles and the search of posts with \<open>LIKE\<close>. Gossip, GossipProps:
    the table of topics of \<open>pkg/p2p/pubsub.go\<close> and the wiring of \<open>cmd/xleaks/main.go\<close>, by which messages,
    follows and the active identity change what a node reads, and content is served from its store.
  \<^item> Indexer: the client that asks indexer nodes and caches their answers (\<open>pkg/indexer/client.go\<close>).
    Discovery: the engine of an indexer (\<open>trending.go\<close>, \<open>stats.go\<close>, \<open>api.go\<close>), and the search, trending and
    explore endpoints (\<open>pkg/api/handlers/search.go\<close>). DiscoveryProps: what they show.
  \<^item> Keystore, KeystoreProps: the encrypted keys of the owner, their files and their migration, and the
    holder of the active identity (\<open>pkg/identity/keystore.go\<close>, \<open>holder*.go\<close>), on the file system of
    ContentStore. GoText: the functions on strings and paths they use.
  \<^item> Tokens: the bearer credentials of the web interface (\<open>pkg/api/ws_ticket.go\<close>, \<open>browser_auth.go\<close>,
    \<open>pkg/web/session.go\<close>). WebAccess, WebAccessProps: the middlewares of \<open>pkg/api/middleware\<close>, their
    composition in \<open>pkg/api/server.go\<close>, and the CSRF protection of \<open>pkg/web/csrf.go\<close>, as functions on
    requests, responses and the state of the server, around handlers that are arguments, with the redirects of
    \<open>http.ServeMux\<close>. Hub, HubProps: the
    web socket hub of \<open>pkg/api/ws.go\<close> as a step relation (\<open>hubStep\<close>) of its goroutines and channels.
  \<^item> Config, ConfigProps: the configuration (\<open>pkg/config\<close>), its file, and its update over the interface
    (\<open>pkg/api/handlers/node.go\<close>). Sniff: \<open>http.DetectContentType\<close>. Media, MediaServe, MediaProps: uploads and
    the media served (\<open>pkg/api/handlers/media.go\<close>), with the metadata and thumbnails of \<open>pkg/content\<close>.

  How the state corresponds. A Go struct is a record with its fields, an enumeration a datatype, a
  \<open>uint64\<close> a \<open>64 word\<close>; an \<open>int\<close> is an \<open>int\<close>, with the wrap-around written out where it can leave the
  range. A Go string is a sequence of bytes. A mutex makes the method that holds it one step; where the
  concurrency is modelled (Exchange, Hub, Recount, the client of the indexers), what runs concurrently is a
  sequence of such steps in any order, and elsewhere an operation runs from beginning to end before the next:
  the handlers hold no lock, and what interleaves in them beyond the counters is not represented. Times are
  arguments or the field \<open>now_ms\<close>. The
  database may fail at any statement (\<open>db_faults\<close>), the file system at any call (\<open>fs_faults\<close>), the
  publisher and the topic callbacks at any call: a theorem without a hypothesis on these holds for
  every schedule of failures. Code outside the repository is a parameter: \<open>proto.Marshal\<close> and
  \<open>Unmarshal\<close>, the multihash, \<open>ed25519\<close> and NaCl box are fields of the records \<open>ext\<close> and \<open>crypto\<close>; what is
  relied on is a named hypothesis (for instance \<open>goodBox\<close>) with an instance in the witnesses.

  What the groups of theorems show. (The properties stand in the theories named \<open>Props\<close>, in the
  component's own theory where it has no such companion, and in System.)

  \<^item> Authenticity and integrity: a message is accepted only with a valid signature of its author over a
    payload that its identifier is the hash of; every row that messages add to a node, whatever it held before,
    is traced to such a message; what is fetched is stored only under its hash.
  \<^item> Over every sequence of gossip messages, local actions, uploads, downloads, evictions and
    synchronisations: no notification about one's own action.
  \<^item> Counters: exact after a local action, whose row and recount are one transaction; never above the number of
    rows under any interleaving of concurrent recounts; but not always equal to it, as a run of two messages
    shows. When messages are handled one after the other and the database does not fail, they are exact
    (lemma \<open>system_counters_exact\<close> of System).
  \<^item> Functional correctness: addresses, chunks, direct messages and the store are round trips; feeds,
    threads and notifications are the right rows in the right order; a message leaves an object in the store for
    every row it adds.
  \<^item> Safety of eviction, of profile versions, of atomic writes; liveness of posting: a valid post is
    stored, and a post made here is accepted by a node that follows.
  \<^item> Content exchange: what a call returns is what it asked for, one honest provider is enough, fetches
    are bounded and shared, and every call returns.
  \<^item> Bounds: rate limits, replay protection, time stamps, sizes.
  \<^item> Keys: an identity is unlocked only with its passphrase, and unlocking in the current layout, with an active
    file that names a file, loses no key whatever fails.
  \<^item> Credentials: a ticket is good for one use; the table of browser sessions refines a map of grants, up to the
    number of sessions at which it evicts. Exactly the permitted requests with a clean path reach the routes and
    the pages: the outcome depends on the handler behind the guards if and only if the conditions hold.
  \<^item> Topics: after a message exactly the topics that belong to it are read.
  \<^item> Events and settings: the hub sends on no closed channel and loses no client that stays; an update of the
    settings is all or nothing, in memory and in the file.
  \<^item> Media: a staged file is exactly the file part of the body.
  \<^item> Search: a cached answer is one that was given to the same query at most 60 seconds ago; a page of users has
    no user twice and, if it is not full, no match missing.
  \<^item> Defects: the theorems on empty identifiers, on refused replicas, on stale counts, on failed reposts, on
    time stamps in historical synchronisation, on the topics of liked posts, on trending posts, on refused
    bodies, on stored markup, on WAV and Ogg files and on huge storage limits state what the code does where that
    is not what it means to do.

  Loops and their bounds. A recursion that is not structural has a termination proof; the one of the
  eviction loop (\<open>evictLoop\<close>) is that each round that continues leaves fewer bytes in the store. The
  recursive SQL query (\<open>threadLoop\<close>) is a function in which not returning is the value \<open>None\<close>;
  \<open>thread_complete\<close> shows when it returns. The depth of the recursion over a thread is bounded by one
  frame more than there are replies, which the proof of \<open>thread_complete\<close> shows to be enough.

  Not modelled, and why. Networking itself (libp2p host, discovery, relays, NAT, the DHT) is glue
  around a library; its callbacks are arguments here. The other HTTP handlers, pages and templates translate
  between requests and the operations that are modelled. Logging, metrics, the start-up code of
  \<open>cmd/xleaks\<close>, image codecs and TOML (arguments here), backups, and the generated code in \<open>proto/gen\<close> are
  left out. Of \<open>database/sql\<close> the driver's concurrency control is not represented: statements and transactions
  are serial, as SQLite makes them. The statements of the repositories carry the constraints of the schema with
  them, because SQLite refuses what violates one; that these hold says nothing about the repositories. The close
  frame of the web socket hub is left out.
\<close>

end
